(* ===== verification/Prelude.thy ===== *)
theory Prelude
  imports Complex_Main "HOL-Library.AList" "HOL-Library.List_Lexorder" "HOL-Library.Char_ord"
begin

text \<open>
  Shared vocabulary of the development: results of fallible code as sums, sequential
  traversal with an early exit, the insertion-ordered sets JavaScript's \<open>Set\<close> keeps, decimal
  numerals as the \<open>"#" + n\<close> string concatenation of the sources produces them, and the generic
  lemmas on lists and association lists the component theories rest on.

  The collection \<open>result_simps\<close> holds the rewrite rules that take a fallible computation apart,
  and \<open>roundtrip\<close> the decode-after-encode rules of the persisted formats.
\<close>

named_theorems result_simps "rewrite rules for fallible computations"
named_theorems roundtrip "decoding what was encoded gives the value back"

subsection \<open>Results\<close>

text \<open>Code that throws or answers a named refusal returns a sum: \<open>Inl\<close> is the error.\<close>

fun rbind :: "'e + 'a \<Rightarrow> ('a \<Rightarrow> 'e + 'b) \<Rightarrow> 'e + 'b" where
  "rbind (Inl e) f = Inl e"
| "rbind (Inr x) f = f x"

definition ensure :: "bool \<Rightarrow> 'e \<Rightarrow> 'e + unit" where
  "ensure ok e = (if ok then Inr () else Inl e)"

fun traverse :: "('a \<Rightarrow> 'e + 'b) \<Rightarrow> 'a list \<Rightarrow> 'e + 'b list" where
  "traverse f [] = Inr []"
| "traverse f (x # xs) = rbind (f x) (\<lambda>y. rbind (traverse f xs) (\<lambda>ys. Inr (y # ys)))"

lemma rbind_eq_Inr [result_simps]:
  "rbind r f = Inr y \<longleftrightarrow> (\<exists>x. r = Inr x \<and> f x = Inr y)"
  by (cases r) auto

lemma ensure_eq_Inr [result_simps]: "ensure ok e = Inr u \<longleftrightarrow> ok"
  by (simp add: ensure_def)

lemma ensure_True [simp]: "ensure True e = Inr ()"
  by (simp add: ensure_def)

lemma ensure_False [simp]: "ensure False e = Inl e"
  by (simp add: ensure_def)

lemma traverse_eq_Inr:
  "traverse f xs = Inr ys \<longleftrightarrow> list_all2 (\<lambda>x y. f x = Inr y) xs ys"
proof (induction xs arbitrary: ys)
  case Nil
  show ?case by auto
next
  case (Cons x xs)
  show ?case
    by (cases ys) (auto simp: result_simps Cons.IH)
qed

lemma traverse_map_Inr:
  assumes "\<And>x. x \<in> set xs \<Longrightarrow> f (g x) = Inr x"
  shows "traverse f (map g xs) = Inr xs"
  using assms by (induction xs) auto

lemma traverse_length: "traverse f xs = Inr ys \<Longrightarrow> length ys = length xs"
  by (simp add: traverse_eq_Inr list_all2_lengthD)

lemma traverse_set:
  assumes "traverse f xs = Inr ys" and "y \<in> set ys"
  shows "\<exists>x \<in> set xs. f x = Inr y"
  using assms by (induction xs arbitrary: ys) (auto simp: result_simps)

subsection \<open>Insertion-ordered sets\<close>

definition set_add :: "'a \<Rightarrow> 'a list \<Rightarrow> 'a list" where
  "set_add x xs = (if x \<in> set xs then xs else xs @ [x])"

definition js_set :: "'a list \<Rightarrow> 'a list" where
  "js_set xs = foldl (\<lambda>s x. set_add x s) [] xs"

lemma set_set_add [simp]: "set (set_add x xs) = insert x (set xs)"
  by (auto simp: set_add_def)

lemma distinct_set_add [simp]: "distinct (set_add x xs) = distinct xs"
  by (auto simp: set_add_def)

lemma foldl_set_add:
  "set (foldl (\<lambda>s x. set_add x s) acc xs) = set acc \<union> set xs"
  "distinct (foldl (\<lambda>s x. set_add x s) acc xs) = distinct acc"
  by (induction xs arbitrary: acc) auto

lemma set_js_set [simp]: "set (js_set xs) = set xs"
  by (simp add: js_set_def foldl_set_add)

lemma distinct_js_set [simp]: "distinct (js_set xs)"
  by (simp add: js_set_def foldl_set_add)

subsection \<open>Lists aligned by position\<close>

lemma find_Some_in: "find P xs = Some x \<Longrightarrow> x \<in> set xs \<and> P x"
  by (auto simp: find_Some_iff)

lemma find_None_all: "find P xs = None \<longleftrightarrow> (\<forall>x \<in> set xs. \<not> P x)"
  by (auto simp: find_None_iff)

lemma find_key_distinct:
  assumes "distinct (map f xs)" and "x \<in> set xs"
  shows "find (\<lambda>y. f y = f x) xs = Some x"
  using assms by (induction xs) auto

lemma map_of_map_pair_distinct:
  assumes "distinct (map f xs)" and "x \<in> set xs"
  shows "map_of (map (\<lambda>y. (f y, y)) xs) (f x) = Some x"
  using assms by (induction xs) (auto simp: rev_image_eqI)

lemma nth_eq_of_distinct_map:
  assumes "distinct (map f xs)" and "i < length xs" and "j < length xs" and "f (xs ! i) = f (xs ! j)"
  shows "i = j"
  using assms by (metis length_map nth_eq_iff_index_eq nth_map)

lemma update_fresh: "k \<notin> fst ` set al \<Longrightarrow> AList.update k v al = al @ [(k, v)]"
  by (induction al) auto

subsection \<open>Decimal numerals and attempt identifiers\<close>

definition digit_char :: "nat \<Rightarrow> char" where
  "digit_char d = char_of (48 + d)"

fun show_nat :: "nat \<Rightarrow> string" where
  "show_nat n = (if n < 10 then [digit_char n] else show_nat (n div 10) @ [digit_char (n mod 10)])"

declare show_nat.simps [simp del]

definition read_digits :: "string \<Rightarrow> nat" where
  "read_digits s = foldl (\<lambda>a c. a * 10 + (of_char c - 48)) 0 s"

lemma of_char_digit: "d < 10 \<Longrightarrow> of_char (digit_char d) = (48 + d :: nat)"
  by (simp add: digit_char_def)

lemma read_digits_show_nat [simp]: "read_digits (show_nat n) = n"
proof (induction n rule: show_nat.induct)
  case (1 n)
  show ?case
  proof (cases "n < 10")
    case True
    then show ?thesis
      by (simp add: show_nat.simps [of n] read_digits_def of_char_digit)
  next
    case False
    with "1.IH" have "read_digits (show_nat (n div 10)) = n div 10" by simp
    with False show ?thesis
      by (simp add: show_nat.simps [of n] read_digits_def of_char_digit)
  qed
qed

lemma show_nat_inj: "show_nat m = show_nat n \<longleftrightarrow> m = n"
  by (metis read_digits_show_nat)

lemma show_nat_nonempty [simp]: "show_nat n \<noteq> []"
  by (subst show_nat.simps) simp

lemma digit_char_no_hash: "d < 10 \<Longrightarrow> digit_char d \<noteq> CHR ''#''"
  using of_char_digit [of d] by auto

lemma show_nat_no_hash: "CHR ''#'' \<notin> set (show_nat n)"
proof (induction n rule: show_nat.induct)
  case (1 n)
  show ?case
  proof (cases "n < 10")
    case True
    then show ?thesis
      using digit_char_no_hash [of n] by (subst show_nat.simps) auto
  next
    case False
    with "1.IH" have "CHR ''#'' \<notin> set (show_nat (n div 10))" by simp
    with False show ?thesis
      using digit_char_no_hash [of "n mod 10"] by (subst show_nat.simps) auto
  qed
qed

text \<open>\<open>nodeId + "#" + seq\<close>, the one spelling of an attempt identifier.\<close>

definition attempt_id :: "string \<Rightarrow> nat \<Rightarrow> string" where
  "attempt_id nodeId seq = nodeId @ ''#'' @ show_nat seq"

lemma attempt_id_nonempty [simp]: "attempt_id n s \<noteq> []"
  by (simp add: attempt_id_def)

lemma takeWhile_before_hash:
  "CHR ''#'' \<notin> set ds \<Longrightarrow> takeWhile (\<lambda>c. c \<noteq> CHR ''#'') (rev (x @ ''#'' @ ds)) = rev ds"
  by (subst rev_append) (auto simp: takeWhile_append)

lemma attempt_id_inj: "attempt_id a m = attempt_id b n \<longleftrightarrow> a = b \<and> m = n"
proof
  assume eq: "attempt_id a m = attempt_id b n"
  have "rev (show_nat m) = takeWhile (\<lambda>c. c \<noteq> CHR ''#'') (rev (attempt_id a m))"
    by (simp only: attempt_id_def takeWhile_before_hash [OF show_nat_no_hash])
  also have "\<dots> = rev (show_nat n)"
    by (simp only: eq) (simp only: attempt_id_def takeWhile_before_hash [OF show_nat_no_hash])
  finally have "m = n" by (simp add: show_nat_inj)
  with eq show "a = b \<and> m = n" by (simp add: attempt_id_def)
qed simp

end
