(* ===== verification/JsValue.thy ===== *)
theory JsValue
  imports Prelude
begin

text \<open>
  The JavaScript values that cross an untrusted boundary (a persisted body, a worker payload,
  a usage report), and the shape checks the sources repeat at each of those boundaries:
  \<open>isRecord\<close>, \<open>hasExactKeys\<close>, \<open>Number.isSafeInteger\<close>, the non-empty string test.

  A number is an exact rational or one of the three non-finite values; rounding is not modelled.
  A character of a HOL \<open>string\<close> stands for one UTF-16 code unit, so \<open>length\<close> is the source's
  \<open>.length\<close>. An object is the list of its own properties in insertion order; the prototype chain
  is not modelled.
\<close>

datatype jsnum = Fin rat | NaN | PosInf | NegInf

datatype jsval =
    JUndef
  | JNull
  | JBool bool
  | JNum jsnum
  | JStr string
  | JArr "jsval list"
  | JObj "(string \<times> jsval) list"

subsection \<open>Objects\<close>

fun isRecord :: "jsval \<Rightarrow> bool" where
  "isRecord (JObj _) = True"
| "isRecord _ = False"

fun js_keys :: "jsval \<Rightarrow> string list" where
  "js_keys (JObj ps) = map fst ps"
| "js_keys _ = []"

text \<open>A property read; a missing property reads as \<open>undefined\<close>.\<close>

fun js_get :: "jsval \<Rightarrow> string \<Rightarrow> jsval" where
  "js_get (JObj ps) k = (case map_of ps k of None \<Rightarrow> JUndef | Some v \<Rightarrow> v)"
| "js_get _ k = JUndef"

fun hasOwnProperty :: "jsval \<Rightarrow> string \<Rightarrow> bool" where
  "hasOwnProperty (JObj ps) k = (k \<in> set (map fst ps))"
| "hasOwnProperty _ k = False"

definition hasExactKeys :: "jsval \<Rightarrow> string list \<Rightarrow> bool" where
  "hasExactKeys v names =
     (length (js_keys v) = length names \<and> list_all (\<lambda>k. k \<in> set names) (js_keys v))"

text \<open>\<open>Object.keys(raw)\<close> holds no key outside \<open>defined\<close>.\<close>

definition only_keys :: "jsval \<Rightarrow> string list \<Rightarrow> bool" where
  "only_keys v names = list_all (\<lambda>k. k \<in> set names) (js_keys v)"

subsection \<open>Numbers\<close>

definition max_safe :: int where
  "max_safe = 9007199254740991"

definition rat_is_int :: "rat \<Rightarrow> bool" where
  "rat_is_int q = (of_int \<lfloor>q\<rfloor> = q)"

text \<open>\<open>typeof value === "number" && Number.isSafeInteger(value)\<close>, with the integer it denotes.\<close>

fun safe_integer :: "jsval \<Rightarrow> int option" where
  "safe_integer (JNum (Fin q)) =
     (if rat_is_int q \<and> \<bar>\<lfloor>q\<rfloor>\<bar> \<le> max_safe then Some \<lfloor>q\<rfloor> else None)"
| "safe_integer _ = None"

definition js_int :: "int \<Rightarrow> jsval" where
  "js_int i = JNum (Fin (of_int i))"

definition js_nat :: "nat \<Rightarrow> jsval" where
  "js_nat n = js_int (int n)"

lemma safe_integer_js_int [simp]: "\<bar>i\<bar> \<le> max_safe \<Longrightarrow> safe_integer (js_int i) = Some i"
  by (simp add: js_int_def rat_is_int_def)

lemma safe_integer_bound: "safe_integer v = Some i \<Longrightarrow> \<bar>i\<bar> \<le> max_safe"
  by (cases v rule: safe_integer.cases) (auto split: if_splits)

text \<open>The three integer readings of the sources: positive, non-negative, and their optional forms.\<close>

definition positive_safe :: "jsval \<Rightarrow> nat option" where
  "positive_safe v = (case safe_integer v of Some i \<Rightarrow> if 0 < i then Some (nat i) else None | None \<Rightarrow> None)"

definition nonneg_safe :: "jsval \<Rightarrow> nat option" where
  "nonneg_safe v = (case safe_integer v of Some i \<Rightarrow> if 0 \<le> i then Some (nat i) else None | None \<Rightarrow> None)"

lemma nonneg_safe_js_nat [simp]: "int n \<le> max_safe \<Longrightarrow> nonneg_safe (js_nat n) = Some n"
  by (simp add: nonneg_safe_def js_nat_def)

lemma positive_safe_js_nat [simp]: "int n \<le> max_safe \<Longrightarrow> 0 < n \<Longrightarrow> positive_safe (js_nat n) = Some n"
  by (simp add: positive_safe_def js_nat_def)

lemma nonneg_safe_bound: "nonneg_safe v = Some n \<Longrightarrow> int n \<le> max_safe"
  using safe_integer_bound by (fastforce simp: nonneg_safe_def split: option.splits if_splits)

lemma positive_safe_bound: "positive_safe v = Some n \<Longrightarrow> 0 < n \<and> int n \<le> max_safe"
  using safe_integer_bound by (fastforce simp: positive_safe_def split: option.splits if_splits)

lemma js_nat_not_undef [simp]: "js_nat n \<noteq> JUndef" "js_int i \<noteq> JUndef"
  by (simp_all add: js_nat_def js_int_def)

subsection \<open>Strings\<close>

text \<open>\<open>typeof value === "string" && value.length > 0\<close>.\<close>

fun nonempty_string :: "jsval \<Rightarrow> string option" where
  "nonempty_string (JStr s) = (if s = [] then None else Some s)"
| "nonempty_string _ = None"

lemma nonempty_string_JStr [simp]: "s \<noteq> [] \<Longrightarrow> nonempty_string (JStr s) = Some s"
  by simp

lemma nonempty_string_Some: "nonempty_string v = Some s \<longleftrightarrow> v = JStr s \<and> s \<noteq> []"
  by (cases v) auto

fun js_array :: "jsval \<Rightarrow> jsval list option" where
  "js_array (JArr xs) = Some xs"
| "js_array _ = None"

text \<open>\<open>JSON.stringify\<close> of a string: the quoted form the diagnostics of the sources carry.\<close>

definition hex_char :: "nat \<Rightarrow> char" where
  "hex_char d = (if d < 10 then char_of (48 + d) else char_of (87 + d))"

definition json_escape :: "char \<Rightarrow> string" where
  "json_escape c =
     (let n = of_char c :: nat in
      if n = 34 then [char_of (92::nat), char_of (34::nat)]
      else if n = 92 then [char_of (92::nat), char_of (92::nat)]
      else if n = 8 then [char_of (92::nat), CHR ''b'']
      else if n = 12 then [char_of (92::nat), CHR ''f'']
      else if n = 10 then [char_of (92::nat), CHR ''n'']
      else if n = 13 then [char_of (92::nat), CHR ''r'']
      else if n = 9 then [char_of (92::nat), CHR ''t'']
      else if n < 32 then [char_of (92::nat), CHR ''u'', CHR ''0'', CHR ''0'', hex_char (n div 16), hex_char (n mod 16)]
      else [c])"

definition json_quote :: "string \<Rightarrow> string" where
  "json_quote s = [char_of (34::nat)] @ concat (map json_escape s) @ [char_of (34::nat)]"

subsection \<open>Optional properties of an object literal\<close>

text \<open>\<open>...(x === undefined ? {} : { k: enc(x) })\<close> in an object literal.\<close>

definition opt_field :: "string \<Rightarrow> ('a \<Rightarrow> jsval) \<Rightarrow> 'a option \<Rightarrow> (string \<times> jsval) list" where
  "opt_field k enc x = (case x of None \<Rightarrow> [] | Some v \<Rightarrow> [(k, enc v)])"

lemma opt_field_simps [simp]:
  "opt_field k enc None = []"
  "opt_field k enc (Some v) = [(k, enc v)]"
  by (simp_all add: opt_field_def)

lemma map_of_opt_field [simp]:
  "map_of (opt_field k enc x @ ps) j =
     (if j = k then (case x of None \<Rightarrow> map_of ps j | Some v \<Rightarrow> Some (enc v)) else map_of ps j)"
  by (cases x) auto

lemma keys_opt_field: "set (map fst (opt_field k enc x)) \<subseteq> {k}"
  by (cases x) auto

end
