(* ===== verification/Plan.thy ===== *)
theory Plan
  imports JsValue "HOL-Library.Product_Lexorder"
begin

text \<open>
  The compiled plan (\<open>graph/compiler/plan.ts\<close>) and the join vocabulary (\<open>graph/domain/join.ts\<close>).

  A plan is the immutable topology authority of a run: nodes in id order, edges in
  (from, to, outcome) order, loop groups with their caps and progress policies, and the explicit
  terminal outcomes. The contract and completion-policy indexes of the plan body are carried as
  opaque values: no modelled operation reads inside them. \<open>wf_plan\<close> states the plan-level facts
  the compiler establishes and its inspector re-checks, over the typed plan.
\<close>

subsection \<open>Join configuration\<close>

text \<open>
  \<open>quorum\<close> is optional because the resolver reads it as possibly absent and supplies a default.
\<close>

datatype join_config = JoinAll | JoinAny | JoinQuorum "int option"

datatype resolved_join = AllStrategy | AnyStrategy | QuorumStrategy int

fun resolveJoinStrategy :: "join_config option \<Rightarrow> resolved_join" where
  "resolveJoinStrategy None = AllStrategy"
| "resolveJoinStrategy (Some JoinAll) = AllStrategy"
| "resolveJoinStrategy (Some JoinAny) = AnyStrategy"
| "resolveJoinStrategy (Some (JoinQuorum declaredQuorum)) =
     (let quorum = (case declaredQuorum of None \<Rightarrow> 1 | Some q \<Rightarrow> q)
      in QuorumStrategy (if quorum \<ge> 1 then quorum else 1))"

fun readQuorum :: "resolved_join \<Rightarrow> int option" where
  "readQuorum (QuorumStrategy q) = Some q"
| "readQuorum _ = None"

subsection \<open>Plan records\<close>

record compiled_outcome_data =
  cod_schema :: string
  cod_version :: "rat option"

record compiled_acceptance_requirement =
  car_validator :: string
  car_version :: "int option"

record compiled_outcome =
  co_id :: string
  co_data :: "compiled_outcome_data option"
  co_acceptance :: "compiled_acceptance_requirement list"

datatype compiled_completion_policy = Explicit | Natural string

record compiled_input_ref =
  cir_from :: string
  cir_outcome :: string
  cir_triggered :: bool

record contract_ref =
  cr_id :: string
  cr_revision :: string
  cr_digest :: string

record compiled_node =
  cn_id :: string
  cn_agent :: string
  cn_prompt :: string
  cn_outcomes :: "compiled_outcome list"
  cn_completion :: "compiled_completion_policy option"
  cn_contractRef :: "contract_ref option"
  cn_join :: "join_config option"
  cn_budget :: jsval
  cn_inputs :: "compiled_input_ref list option"
  cn_tools :: "string list option"
  cn_toolPresentation :: jsval

record compiled_edge =
  ce_from :: string
  ce_to :: string
  ce_outcome :: string

record compiled_progress_policy =
  cpp_evaluator :: string
  cpp_version :: nat
  cpp_subject :: string
  cpp_maxUnchanged :: nat

record compiled_loop_group =
  clg_id :: string
  clg_nodes :: "string list"
  clg_maxTraversals :: nat
  clg_continuationOutcome :: string
  clg_exitOutcome :: string
  clg_progress :: "compiled_progress_policy option"

record compiled_terminal_outcome =
  cto_nodeId :: string
  cto_outcome :: string

record compiled_unresolved_requirement =
  cur_nodeId :: string
  cur_outcomeId :: string
  cur_validator :: string
  cur_version :: "int option"
  cur_reason :: "string option"

record compiled_unauthorized_completion =
  cuc_nodeId :: string
  cuc_outcome :: string
  cuc_code :: string
  cuc_request :: "(string \<times> string) option"

datatype compiled_plan_executability =
    Executable
  | Draft "compiled_unresolved_requirement list" "compiled_unauthorized_completion list"

record compiled_plan =
  cp_budget :: jsval
  cp_graphId :: string
  cp_nodes :: "compiled_node list"
  cp_edges :: "compiled_edge list"
  cp_loopGroups :: "compiled_loop_group list"
  cp_contractSnapshots :: jsval
  cp_contractIdentities :: jsval
  cp_completionPolicySnapshots :: jsval
  cp_completionPolicyIdentities :: jsval
  cp_completionAuthorizations :: jsval
  cp_terminalOutcomes :: "compiled_terminal_outcome list"
  cp_executability :: compiled_plan_executability
  cp_planRevision :: string

abbreviation node_ids :: "compiled_plan \<Rightarrow> string list" where
  "node_ids plan \<equiv> map cn_id (cp_nodes plan)"

abbreviation inputs_of :: "compiled_node \<Rightarrow> compiled_input_ref list" where
  "inputs_of n \<equiv> (case cn_inputs n of None \<Rightarrow> [] | Some xs \<Rightarrow> xs)"

subsection \<open>Derived terminals\<close>

text \<open>The flat key of a (node, outcome) pair, with the NUL separator of the source.\<close>

definition nul :: char where
  "nul = char_of (0::nat)"

definition terminalPairKey :: "string \<Rightarrow> string \<Rightarrow> string" where
  "terminalPairKey nodeId outcome = nodeId @ [nul] @ outcome"

fun terminals_of_outcomes ::
  "string list \<Rightarrow> string \<Rightarrow> string list \<Rightarrow> string list \<times> compiled_terminal_outcome list \<Rightarrow>
   string list \<times> compiled_terminal_outcome list" where
  "terminals_of_outcomes bound nodeId [] acc = acc"
| "terminals_of_outcomes bound nodeId (o1 # os) (seen, ts) =
     (let key = terminalPairKey nodeId o1
      in if key \<in> set bound \<or> key \<in> set seen
         then terminals_of_outcomes bound nodeId os (seen, ts)
         else terminals_of_outcomes bound nodeId os
                (seen @ [key], ts @ [\<lparr>cto_nodeId = nodeId, cto_outcome = o1\<rparr>]))"

definition terminalOutcomesOf :: "compiled_node list \<Rightarrow> compiled_edge list \<Rightarrow> compiled_terminal_outcome list" where
  "terminalOutcomesOf nodes edges =
     (let bound = map (\<lambda>e. terminalPairKey (ce_from e) (ce_outcome e)) edges;
          collected = foldl (\<lambda>acc n. terminals_of_outcomes bound (cn_id n)
                                       (sort (js_set (map co_id (cn_outcomes n)))) acc)
                            ([], []) nodes
      in sort_key (\<lambda>t. (cto_nodeId t, cto_outcome t)) (snd collected))"

subsection \<open>Progress policies\<close>

definition readCompiledProgressPolicy :: "jsval \<Rightarrow> compiled_progress_policy option" where
  "readCompiledProgressPolicy raw =
     (if \<not> isRecord raw then None else
      case nonempty_string (js_get raw ''evaluator'') of None \<Rightarrow> None | Some evaluator \<Rightarrow>
      case positive_safe (js_get raw ''version'') of None \<Rightarrow> None | Some version \<Rightarrow>
      case nonempty_string (js_get raw ''subject'') of None \<Rightarrow> None | Some subject \<Rightarrow>
      case positive_safe (js_get raw ''maxUnchanged'') of None \<Rightarrow> None | Some maxUnchanged \<Rightarrow>
        Some \<lparr>cpp_evaluator = evaluator, cpp_version = version,
              cpp_subject = subject, cpp_maxUnchanged = maxUnchanged\<rparr>)"

definition wf_policy :: "compiled_progress_policy \<Rightarrow> bool" where
  "wf_policy p =
     (cpp_evaluator p \<noteq> [] \<and> cpp_subject p \<noteq> [] \<and>
      0 < cpp_version p \<and> int (cpp_version p) \<le> max_safe \<and>
      0 < cpp_maxUnchanged p \<and> int (cpp_maxUnchanged p) \<le> max_safe)"

lemma readCompiledProgressPolicy_wf:
  "readCompiledProgressPolicy raw = Some p \<Longrightarrow> wf_policy p"
  by (auto simp: readCompiledProgressPolicy_def wf_policy_def nonempty_string_Some
           split: if_splits option.splits dest!: positive_safe_bound)

subsection \<open>Well-formed plans\<close>

definition edge_order :: "compiled_edge \<Rightarrow> string \<times> string \<times> string" where
  "edge_order e = (ce_from e, ce_to e, ce_outcome e)"

definition wf_node :: "compiled_plan \<Rightarrow> compiled_node \<Rightarrow> bool" where
  "wf_node plan n =
     (cn_id n \<noteq> [] \<and> cn_outcomes n \<noteq> [] \<and>
      list_all (\<lambda>oc. co_id oc \<noteq> []) (cn_outcomes n) \<and>
      list_all (\<lambda>i. cir_from i \<in> set (node_ids plan) \<and> cir_from i \<noteq> cn_id n \<and> cir_outcome i \<noteq> [])
        (inputs_of n))"

definition wf_edge :: "compiled_plan \<Rightarrow> compiled_edge \<Rightarrow> bool" where
  "wf_edge plan e =
     (ce_to e \<in> set (node_ids plan) \<and>
      list_ex (\<lambda>n. cn_id n = ce_from e \<and> ce_outcome e \<in> set (map co_id (cn_outcomes n))) (cp_nodes plan))"

definition wf_group :: "compiled_plan \<Rightarrow> compiled_loop_group \<Rightarrow> bool" where
  "wf_group plan g =
     (clg_id g \<noteq> [] \<and> 0 < clg_maxTraversals g \<and> int (clg_maxTraversals g) \<le> max_safe \<and>
      list_all (\<lambda>m. m \<in> set (node_ids plan)) (clg_nodes g) \<and>
      (case clg_progress g of None \<Rightarrow> True | Some p \<Rightarrow> wf_policy p))"

definition wf_plan :: "compiled_plan \<Rightarrow> bool" where
  "wf_plan plan =
     (distinct (node_ids plan) \<and>
      list_all (wf_node plan) (cp_nodes plan) \<and>
      list_all (wf_edge plan) (cp_edges plan) \<and>
      sorted (map edge_order (cp_edges plan)) \<and>
      distinct (map clg_id (cp_loopGroups plan)) \<and>
      list_all (wf_group plan) (cp_loopGroups plan) \<and>
      cp_terminalOutcomes plan = terminalOutcomesOf (cp_nodes plan) (cp_edges plan))"

lemma wf_plan_distinct: "wf_plan plan \<Longrightarrow> distinct (node_ids plan)"
  by (simp add: wf_plan_def)

lemma wf_plan_node_id: "wf_plan plan \<Longrightarrow> n \<in> set (cp_nodes plan) \<Longrightarrow> cn_id n \<noteq> []"
  by (auto simp: wf_plan_def wf_node_def list_all_iff)

lemma wf_plan_outcome_id:
  "wf_plan plan \<Longrightarrow> n \<in> set (cp_nodes plan) \<Longrightarrow> oc \<in> set (cn_outcomes n) \<Longrightarrow> co_id oc \<noteq> []"
  by (auto simp: wf_plan_def wf_node_def list_all_iff)

lemma wf_plan_edge:
  assumes "wf_plan plan" and "e \<in> set (cp_edges plan)"
  shows "ce_from e \<in> set (node_ids plan)" "ce_to e \<in> set (node_ids plan)" "ce_outcome e \<noteq> []"
proof -
  have e: "wf_edge plan e"
    using assms by (auto simp: wf_plan_def list_all_iff)
  then show "ce_to e \<in> set (node_ids plan)" by (simp add: wf_edge_def)
  from e obtain n where n: "n \<in> set (cp_nodes plan)" "cn_id n = ce_from e"
      "ce_outcome e \<in> co_id ` set (cn_outcomes n)"
    by (auto simp: wf_edge_def list_ex_iff)
  then show "ce_from e \<in> set (node_ids plan)" by force
  from n wf_plan_outcome_id [OF assms(1) n(1)] show "ce_outcome e \<noteq> []" by fastforce
qed

lemma wf_plan_group: "wf_plan plan \<Longrightarrow> g \<in> set (cp_loopGroups plan) \<Longrightarrow> wf_group plan g"
  by (auto simp: wf_plan_def list_all_iff)

lemma wf_plan_groups_distinct: "wf_plan plan \<Longrightarrow> distinct (map clg_id (cp_loopGroups plan))"
  by (simp add: wf_plan_def)

subsection \<open>The derived terminals are outcomes of declared nodes\<close>

lemma terminals_of_outcomes_sound:
  assumes "t \<in> set (snd (terminals_of_outcomes bound nodeId os acc))"
  shows "t \<in> set (snd acc) \<or>
    (cto_nodeId t = nodeId \<and> cto_outcome t \<in> set os \<and>
     terminalPairKey nodeId (cto_outcome t) \<notin> set bound)"
  using assms
proof (induction os arbitrary: acc)
  case Nil
  then show ?case by simp
next
  case (Cons a os)
  then show ?case
    by (cases acc) (force simp: Let_def split: if_splits)
qed

lemma terminals_fold_sound:
  assumes "t \<in> set (snd (foldl (\<lambda>acc n. terminals_of_outcomes bound (cn_id n)
             (sort (js_set (map co_id (cn_outcomes n)))) acc) acc0 nodes))"
  shows "t \<in> set (snd acc0) \<or>
    (\<exists>n \<in> set nodes. cto_nodeId t = cn_id n \<and> cto_outcome t \<in> set (map co_id (cn_outcomes n)) \<and>
       terminalPairKey (cn_id n) (cto_outcome t) \<notin> set bound)"
  using assms
proof (induction nodes arbitrary: acc0)
  case Nil
  then show ?case by simp
next
  case (Cons n ns)
  from Cons.IH [OF Cons.prems [unfolded foldl.simps]] show ?case
    using terminals_of_outcomes_sound by fastforce
qed

lemma terminalOutcomesOf_sound:
  assumes "t \<in> set (terminalOutcomesOf nodes edges)"
  shows "\<exists>n \<in> set nodes. cto_nodeId t = cn_id n \<and> cto_outcome t \<in> set (map co_id (cn_outcomes n))"
    and "e \<in> set edges \<Longrightarrow> ce_from e = cto_nodeId t \<Longrightarrow> ce_outcome e \<noteq> cto_outcome t"
proof -
  from assms have "t \<in> set (snd (foldl (\<lambda>acc n. terminals_of_outcomes
      (map (\<lambda>e. terminalPairKey (ce_from e) (ce_outcome e)) edges) (cn_id n)
             (sort (js_set (map co_id (cn_outcomes n)))) acc) ([], []) nodes))"
    by (simp add: terminalOutcomesOf_def Let_def)
  note t = terminals_fold_sound [OF this]
  then show "\<exists>n \<in> set nodes. cto_nodeId t = cn_id n \<and> cto_outcome t \<in> set (map co_id (cn_outcomes n))"
    by auto
  show "ce_outcome e \<noteq> cto_outcome t" if "e \<in> set edges" "ce_from e = cto_nodeId t"
    using t that by (auto simp: image_iff)
qed

lemma wf_plan_terminal:
  assumes "wf_plan plan" and "t \<in> set (cp_terminalOutcomes plan)"
  shows "cto_outcome t \<noteq> []"
proof -
  from assms have "t \<in> set (terminalOutcomesOf (cp_nodes plan) (cp_edges plan))"
    by (simp add: wf_plan_def)
  from terminalOutcomesOf_sound(1) [OF this] show ?thesis
    using wf_plan_outcome_id [OF assms(1)] by fastforce
qed

end
