(* ===== verification/Canonical.thy ===== *)
theory Canonical
  imports Plan
begin

text \<open>
  The canonical digest of a contract body (\<open>graph/contracts/contract-definition.ts\<close>): the canonical JSON
  text with its size and depth bounds, the digest over it, and the reference of a contract.

  The number text (\<open>JSON.stringify\<close> of a number) and SHA-256 are parameters. The values of \<open>JsValue\<close> are
  finite trees of plain data, so the source's rejections of cycles, holes, accessors, symbol keys and
  class instances have no counterpart; a diagnostic is its kind. The UTF-8 length counts one byte for a
  code unit below 128 and two otherwise, which is exact for the code units a HOL character can be.
\<close>

subsection \<open>The canonical text\<close>

definition CONTRACT_DIGEST_MAX_BYTES :: nat where
  "CONTRACT_DIGEST_MAX_BYTES = 1048576"

definition CONTRACT_DIGEST_MAX_DEPTH :: nat where
  "CONTRACT_DIGEST_MAX_DEPTH = 64"

datatype digest_error = BodyTooLarge | BodyTooDeep | NumberNotFinite | UndefinedValue

definition appendCanonical :: "string \<Rightarrow> string \<Rightarrow> digest_error + string" where
  "appendCanonical buffer fragment =
     (if length (buffer @ fragment) > CONTRACT_DIGEST_MAX_BYTES then Inl BodyTooLarge else Inr (buffer @ fragment))"

lemma rbind_cong [fundef_cong]:
  "r = r' \<Longrightarrow> (\<And>x. r' = Inr x \<Longrightarrow> f x = g x) \<Longrightarrow> rbind r f = rbind r' g"
  by (cases r') auto

lemma size_list_sort_key [simp]: "size_list f (sort_key k xs) = size_list f xs"
proof -
  have "size_list f (insort_key k x xs) = size_list f (x # xs)" for x xs by (induction xs) auto
  then show ?thesis by (induction xs) auto
qed

function writeCanonical :: "(rat \<Rightarrow> string) \<Rightarrow> nat \<Rightarrow> jsval \<Rightarrow> string \<Rightarrow> digest_error + string"
  and writeCanonicalArray :: "(rat \<Rightarrow> string) \<Rightarrow> nat \<Rightarrow> bool \<Rightarrow> jsval list \<Rightarrow> string \<Rightarrow> digest_error + string"
  and writeCanonicalObject :: "(rat \<Rightarrow> string) \<Rightarrow> nat \<Rightarrow> bool \<Rightarrow> (string \<times> jsval) list \<Rightarrow> string \<Rightarrow> digest_error + string"
where
  "writeCanonical num depth v buffer =
     (if depth > CONTRACT_DIGEST_MAX_DEPTH then Inl BodyTooDeep
      else case v of
        JNull \<Rightarrow> appendCanonical buffer ''null''
      | JStr s \<Rightarrow> appendCanonical buffer (json_quote s)
      | JNum (Fin q) \<Rightarrow> appendCanonical buffer (num q)
      | JNum _ \<Rightarrow> Inl NumberNotFinite
      | JBool b \<Rightarrow> appendCanonical buffer (if b then ''true'' else ''false'')
      | JUndef \<Rightarrow> Inl UndefinedValue
      | JArr xs \<Rightarrow> rbind (appendCanonical buffer ''['') (\<lambda>b.
                    rbind (writeCanonicalArray num depth True xs b) (\<lambda>b. appendCanonical b '']''))
      | JObj ps \<Rightarrow> rbind (appendCanonical buffer ''{'') (\<lambda>b.
                    rbind (writeCanonicalObject num depth True (sort_key fst ps) b) (\<lambda>b. appendCanonical b ''}'')))"
| "writeCanonicalArray num depth first [] buffer = Inr buffer"
| "writeCanonicalArray num depth first (x # xs) buffer =
     rbind (if first then Inr buffer else appendCanonical buffer '','') (\<lambda>b.
     rbind (writeCanonical num (depth + 1) x b) (writeCanonicalArray num depth False xs))"
| "writeCanonicalObject num depth first [] buffer = Inr buffer"
| "writeCanonicalObject num depth first ((k, x) # ps) buffer =
     rbind (if first then Inr buffer else appendCanonical buffer '','') (\<lambda>b.
     rbind (appendCanonical b (json_quote k @ '':'')) (\<lambda>b.
     rbind (writeCanonical num (depth + 1) x b) (writeCanonicalObject num depth False ps)))"
  by pat_completeness auto
termination
  by (relation "measure (\<lambda>s. case s of
        Inl (_, _, v, _) \<Rightarrow> 2 * size v
      | Inr (Inl (_, _, _, xs, _)) \<Rightarrow> 2 * size_list size xs + 1
      | Inr (Inr (_, _, _, ps, _)) \<Rightarrow> 2 * size_list (size_prod (\<lambda>_. 0) size) ps + 1)")
     auto

declare writeCanonical.simps [simp del]

definition utf8_length :: "string \<Rightarrow> nat" where
  "utf8_length s = (\<Sum>c\<leftarrow>s. if (of_char c :: nat) < 128 then 1 else 2)"

definition contractDigest :: "(string \<Rightarrow> string) \<Rightarrow> (rat \<Rightarrow> string) \<Rightarrow> jsval \<Rightarrow> digest_error + string" where
  "contractDigest sha num body =
     rbind (writeCanonical num 0 body []) (\<lambda>canonical.
       if utf8_length canonical > CONTRACT_DIGEST_MAX_BYTES then Inl BodyTooLarge else Inr (sha canonical))"

subsection \<open>Contract references\<close>

definition isContractRef :: "jsval \<Rightarrow> bool" where
  "isContractRef v \<longleftrightarrow>
     nonempty_string (js_get v ''id'') \<noteq> None \<and> nonempty_string (js_get v ''revision'') \<noteq> None \<and>
     nonempty_string (js_get v ''digest'') \<noteq> None"

definition contractRefsEqual :: "contract_ref \<Rightarrow> contract_ref \<Rightarrow> bool" where
  "contractRefsEqual a b \<longleftrightarrow> cr_id a = cr_id b \<and> cr_revision a = cr_revision b \<and> cr_digest a = cr_digest b"

end
