(* ===== verification/CanonicalFacts.thy ===== *)
theory CanonicalFacts
  imports Canonical
begin

text \<open>
  What the canonical text determines. \<open>canonical_text\<close> is the text as a function of the value alone; the
  writer produces it exactly when the value is representable and within the bounds. The text is
  the same for two bodies that differ in the order of their keys only, and it is uniquely readable: two
  representable bodies with the same text have the same content.
\<close>

subsection \<open>The text of a value\<close>

fun comma_join :: "string list \<Rightarrow> string" where
  "comma_join [] = []"
| "comma_join [x] = x"
| "comma_join (x # y # zs) = x @ '','' @ comma_join (y # zs)"

function canonical_text :: "(rat \<Rightarrow> string) \<Rightarrow> jsval \<Rightarrow> string" where
  "canonical_text num v =
     (case v of
        JNull \<Rightarrow> ''null''
      | JStr s \<Rightarrow> json_quote s
      | JNum (Fin q) \<Rightarrow> num q
      | JNum _ \<Rightarrow> []
      | JBool b \<Rightarrow> if b then ''true'' else ''false''
      | JUndef \<Rightarrow> []
      | JArr xs \<Rightarrow> ''['' @ comma_join (map (canonical_text num) xs) @ '']''
      | JObj ps \<Rightarrow> ''{'' @ comma_join (map (\<lambda>(k, x). json_quote k @ '':'' @ canonical_text num x) (sort_key fst ps)) @ ''}'')"
  by pat_completeness auto
termination
  by (relation "measure (\<lambda>(_, v). size v)")
    (auto simp: less_Suc_eq_le elim!: size_list_estimation' split: prod.splits)

declare canonical_text.simps [simp del]

function representable :: "nat \<Rightarrow> jsval \<Rightarrow> bool" where
  "representable depth v \<longleftrightarrow> depth \<le> CONTRACT_DIGEST_MAX_DEPTH \<and>
     (case v of
        JNum (Fin q) \<Rightarrow> True
      | JNum _ \<Rightarrow> False
      | JUndef \<Rightarrow> False
      | JArr xs \<Rightarrow> (\<forall>x \<in> set xs. representable (depth + 1) x)
      | JObj ps \<Rightarrow> (\<forall>(k, x) \<in> set ps. representable (depth + 1) x)
      | _ \<Rightarrow> True)"
  by pat_completeness auto
termination
  by (relation "measure (\<lambda>(_, v). size v)")
    (auto simp: less_Suc_eq_le elim!: size_list_estimation' split: prod.splits)

declare representable.simps [simp del]

abbreviation item_text :: "(rat \<Rightarrow> string) \<Rightarrow> string \<times> jsval \<Rightarrow> string" where
  "item_text num p \<equiv> json_quote (fst p) @ '':'' @ canonical_text num (snd p)"

lemma comma_join_Cons: "comma_join (x # xs) = x @ (if xs = [] then [] else '','' @ comma_join xs)"
  by (cases xs) auto

lemma canonical_text_simps [simp]:
  "canonical_text num JNull = ''null''"
  "canonical_text num (JStr s) = json_quote s"
  "canonical_text num (JNum (Fin q)) = num q"
  "canonical_text num (JBool b) = (if b then ''true'' else ''false'')"
  "canonical_text num (JArr xs) = ''['' @ comma_join (map (canonical_text num) xs) @ '']''"
  "canonical_text num (JObj ps) = ''{'' @ comma_join (map (item_text num) (sort_key fst ps)) @ ''}''"
  by (subst canonical_text.simps, simp add: case_prod_unfold)+

lemma representable_simps [simp]:
  "representable d JNull \<longleftrightarrow> d \<le> CONTRACT_DIGEST_MAX_DEPTH"
  "representable d (JStr s) \<longleftrightarrow> d \<le> CONTRACT_DIGEST_MAX_DEPTH"
  "representable d (JBool b) \<longleftrightarrow> d \<le> CONTRACT_DIGEST_MAX_DEPTH"
  "representable d (JNum n) \<longleftrightarrow> d \<le> CONTRACT_DIGEST_MAX_DEPTH \<and> (\<exists>q. n = Fin q)"
  "representable d JUndef \<longleftrightarrow> False"
  "representable d (JArr xs) \<longleftrightarrow> d \<le> CONTRACT_DIGEST_MAX_DEPTH \<and> (\<forall>x \<in> set xs. representable (d + 1) x)"
  "representable d (JObj ps) \<longleftrightarrow> d \<le> CONTRACT_DIGEST_MAX_DEPTH \<and> (\<forall>p \<in> set ps. representable (d + 1) (snd p))"
  by (subst representable.simps, force split: jsnum.split)+

lemma appendCanonical_Inr [result_simps]:
  "appendCanonical buffer t = Inr b \<longleftrightarrow> b = buffer @ t \<and> length b \<le> CONTRACT_DIGEST_MAX_BYTES"
  by (auto simp: appendCanonical_def)

definition writes :: "(rat \<Rightarrow> string) \<Rightarrow> nat \<Rightarrow> jsval \<Rightarrow> bool" where
  "writes num d v \<longleftrightarrow> (\<forall>buffer b. writeCanonical num d v buffer = Inr b \<longleftrightarrow>
     representable d v \<and> b = buffer @ canonical_text num v \<and> length b \<le> CONTRACT_DIGEST_MAX_BYTES)"

lemma writeCanonicalArray_Inr:
  assumes "\<And>x. x \<in> set xs \<Longrightarrow> writes num (d + 1) x"
  shows "writeCanonicalArray num d first xs buffer = Inr b \<longleftrightarrow>
     (\<forall>x \<in> set xs. representable (d + 1) x) \<and>
     b = buffer @ (if first \<or> xs = [] then [] else '','') @ comma_join (map (canonical_text num) xs) \<and>
     (xs \<noteq> [] \<longrightarrow> length b \<le> CONTRACT_DIGEST_MAX_BYTES)"
  using assms
proof (induction xs arbitrary: first buffer)
  case (Cons x xs)
  have x: "writeCanonical num (Suc d) x buffer = Inr b \<longleftrightarrow>
     representable (Suc d) x \<and> b = buffer @ canonical_text num x \<and> length b \<le> CONTRACT_DIGEST_MAX_BYTES" for buffer b
    using Cons.prems [of x] by (simp add: writes_def)
  note xs = Cons.IH [OF Cons.prems [OF list.set_intros(2)], simplified]
  show ?case by (cases first; cases "xs = []") (auto simp: result_simps comma_join_Cons x xs)
qed auto

lemma writeCanonicalObject_Inr:
  assumes "\<And>p. p \<in> set ps \<Longrightarrow> writes num (d + 1) (snd p)"
  shows "writeCanonicalObject num d first ps buffer = Inr b \<longleftrightarrow>
     (\<forall>p \<in> set ps. representable (d + 1) (snd p)) \<and>
     b = buffer @ (if first \<or> ps = [] then [] else '','') @ comma_join (map (item_text num) ps) \<and>
     (ps \<noteq> [] \<longrightarrow> length b \<le> CONTRACT_DIGEST_MAX_BYTES)"
  using assms
proof (induction ps arbitrary: first buffer)
  case (Cons p ps)
  have x: "writeCanonical num (Suc d) (snd p) buffer = Inr b \<longleftrightarrow>
     representable (Suc d) (snd p) \<and> b = buffer @ canonical_text num (snd p) \<and> length b \<le> CONTRACT_DIGEST_MAX_BYTES" for buffer b
    using Cons.prems [of p] by (simp add: writes_def)
  note ps = Cons.IH [OF Cons.prems [OF list.set_intros(2)], simplified]
  obtain k v where p: "p = (k, v)" by fastforce
  show ?case
    by (cases first; cases "ps = []") (auto simp: p result_simps comma_join_Cons x [unfolded p snd_conv] ps)
qed auto

lemma writeCanonical_writes: "writes num d v"
proof (induction v arbitrary: d)
  case (JArr xs)
  note xs = writeCanonicalArray_Inr [of xs num d, OF JArr.IH, simplified]
  show ?case
    unfolding writes_def writeCanonical.simps [of _ _ "JArr xs"]
    by (cases "xs = []") (auto simp: result_simps xs)
next
  case (JObj ps)
  have "writes num d (snd p)" if "p \<in> set (sort_key fst ps)" for p d
    using JObj.IH [of p "snd p"] that by (simp add: snds.simps)
  note ps = writeCanonicalObject_Inr [of "sort_key fst ps" num d, OF this, simplified]
  show ?case
    unfolding writes_def writeCanonical.simps [of _ _ "JObj ps"]
    by (cases "ps = []") (auto simp: result_simps ps)
qed (auto simp: writes_def writeCanonical.simps result_simps split: jsnum.splits)

lemmas writeCanonical_Inr = writeCanonical_writes [unfolded writes_def, rule_format]

lemma contractDigest_Inr [result_simps]:
  "contractDigest sha num v = Inr h \<longleftrightarrow> representable 0 v \<and>
     length (canonical_text num v) \<le> CONTRACT_DIGEST_MAX_BYTES \<and>
     utf8_length (canonical_text num v) \<le> CONTRACT_DIGEST_MAX_BYTES \<and> h = sha (canonical_text num v)"
  by (auto simp: contractDigest_def result_simps writeCanonical_Inr)

subsection \<open>The order of keys does not matter\<close>

function sort_keys :: "jsval \<Rightarrow> jsval" where
  "sort_keys v =
     (case v of
        JArr xs \<Rightarrow> JArr (map sort_keys xs)
      | JObj ps \<Rightarrow> JObj (map (\<lambda>(k, x). (k, sort_keys x)) (sort_key fst ps))
      | _ \<Rightarrow> v)"
  by pat_completeness auto
termination
  by (relation "measure size") (auto simp: less_Suc_eq_le elim!: size_list_estimation' split: prod.splits)

declare sort_keys.simps [simp del]

lemma sort_keys_simps [simp]:
  "sort_keys JNull = JNull" "sort_keys (JStr s) = JStr s" "sort_keys (JNum n) = JNum n" "sort_keys (JBool b) = JBool b"
  "sort_keys JUndef = JUndef" "sort_keys (JArr xs) = JArr (map sort_keys xs)"
  "sort_keys (JObj ps) = JObj (map (\<lambda>p. (fst p, sort_keys (snd p))) (sort_key fst ps))"
  by (subst sort_keys.simps, simp add: case_prod_unfold)+

lemma sort_key_map_fst: "sort_key fst (map (\<lambda>p. (fst p, f (snd p))) ps) = map (\<lambda>p. (fst p, f (snd p))) (sort_key fst ps)"
proof -
  have ins: "insort_key fst (fst p, f (snd p)) (map (\<lambda>p. (fst p, f (snd p))) ps) = map (\<lambda>p. (fst p, f (snd p))) (insort_key fst p ps)"
    for p ps by (induction ps) auto
  show ?thesis by (induction ps) (simp_all add: ins)
qed

lemma canonical_text_sort_keys: "canonical_text num (sort_keys v) = canonical_text num v"
proof (induction v)
  case (JArr xs)
  then show ?case by (simp add: comp_def cong: map_cong)
next
  case (JObj ps)
  have "canonical_text num (sort_keys (snd p)) = canonical_text num (snd p)" if "p \<in> set (sort_key fst ps)" for p
    using JObj.IH [of p "snd p"] that by (simp add: snds.simps)
  then have "map (\<lambda>p. json_quote (fst p) @ '':'' @ canonical_text num (sort_keys (snd p))) (sort_key fst ps) =
      map (item_text num) (sort_key fst ps)" by (intro map_cong) simp_all
  moreover have "sort_key fst (map (\<lambda>p. (fst p, sort_keys (snd p))) (sort_key fst ps)) =
      map (\<lambda>p. (fst p, sort_keys (snd p))) (sort_key fst ps)" by (simp add: sort_key_map_fst sort_key_id_if_sorted)
  ultimately show ?case by (simp only: sort_keys_simps canonical_text_simps map_map comp_def fst_conv snd_conv)
qed auto

lemma representable_sort_keys: "representable d (sort_keys v) = representable d v"
proof (induction v arbitrary: d)
  case (JObj ps)
  have "representable d (sort_keys (snd p)) = representable d (snd p)" if "p \<in> set ps" for p d
    using JObj.IH [of p "snd p"] that by (simp add: snds.simps)
  then show ?case by auto
qed auto

subsection \<open>The text is uniquely readable\<close>

text \<open>Decoding one escaped character.\<close>

definition unhex :: "char \<Rightarrow> nat" where
  "unhex c = (let n = of_char c in if n < 58 then n - 48 else n - 87)"

fun unescape :: "string \<Rightarrow> (char \<times> string) option" where
  "unescape [] = None"
| "unescape (c # s) =
     (if c \<noteq> char_of (92::nat) then Some (c, s)
      else case s of
        [] \<Rightarrow> None
      | x # s \<Rightarrow>
          if x = CHR ''b'' then Some (char_of (8::nat), s)
          else if x = CHR ''f'' then Some (char_of (12::nat), s)
          else if x = CHR ''n'' then Some (char_of (10::nat), s)
          else if x = CHR ''r'' then Some (char_of (13::nat), s)
          else if x = CHR ''t'' then Some (char_of (9::nat), s)
          else if x = CHR ''u'' then Some (char_of (16 * unhex (s ! 2) + unhex (s ! 3)), drop 4 s)
          else Some (x, s))"

lemma unhex_hex_char: "d < 16 \<Longrightarrow> unhex (hex_char d) = d"
  by (auto simp: unhex_def hex_char_def Let_def)

lemma char_codes [simp]:
  "char_of (34::nat) = CHR 0x22" "char_of (92::nat) = CHR 0x5C" "char_of (8::nat) = CHR 0x08" "char_of (12::nat) = CHR 0x0C"
  "char_of (10::nat) = CHR 0x0A" "char_of (13::nat) = CHR 0x0D" "char_of (9::nat) = CHR 0x09"
  by code_simp+

lemma unescape_json_escape: "unescape (json_escape c @ s) = Some (c, s)"
proof -
  define n where "n = (of_char c :: nat)"
  then have c: "c = char_of n" by simp
  consider "n \<in> {34, 92, 8, 12, 10, 13, 9}" | "n \<notin> {34, 92, 8, 12, 10, 13, 9}" "n < 32" | "n \<notin> {34, 92}" "\<not> n < 32" by auto
  then show ?thesis
  proof cases
    case 1
    then show ?thesis by (auto simp: c json_escape_def)
  next
    case 2
    then have "json_escape c = [char_of (92::nat), CHR ''u'', CHR ''0'', CHR ''0'', hex_char (n div 16), hex_char (n mod 16)]"
      by (simp add: json_escape_def n_def Let_def)
    moreover have "unhex (hex_char (n div 16)) = n div 16" "unhex (hex_char (n mod 16)) = n mod 16"
      using 2 by (simp_all add: unhex_hex_char)
    ultimately show ?thesis by (simp add: c)
  next
    case 3
    then have "json_escape c = [c]" by (simp add: json_escape_def n_def Let_def)
    moreover have "c \<noteq> char_of (92::nat)" using 3 by (auto simp: n_def)
    ultimately show ?thesis by simp
  qed
qed

lemma json_escape_not_quote: "json_escape c @ s \<noteq> char_of (34::nat) # t"
proof
  assume "json_escape c @ s = char_of (34::nat) # t"
  then have "unescape (char_of (34::nat) # t) = Some (c, s)" using unescape_json_escape by metis
  then have "c = char_of (34::nat)" by simp
  moreover have "json_escape (char_of (34::nat)) = [char_of (92::nat), char_of (34::nat)]" by (simp add: json_escape_def)
  ultimately show False using \<open>json_escape c @ s = char_of (34::nat) # t\<close> by simp
qed

lemma json_escapes_unique:
  "concat (map json_escape a) @ char_of (34::nat) # s = concat (map json_escape b) @ char_of (34::nat) # t \<Longrightarrow> a = b \<and> s = t"
proof (induction a arbitrary: b)
  case Nil
  then show ?case
    using json_escape_not_quote [of "hd b" "concat (map json_escape (tl b)) @ char_of (34::nat) # t" s]
    by (cases b) auto
next
  case (Cons c a)
  show ?case
  proof (cases b)
    case Nil
    with Cons.prems show ?thesis
      using json_escape_not_quote [of c "concat (map json_escape a) @ char_of (34::nat) # s" t] by simp
  next
    case b: (Cons d b')
    from Cons.prems have "unescape (json_escape c @ concat (map json_escape a) @ char_of (34::nat) # s) =
        unescape (json_escape d @ concat (map json_escape b') @ char_of (34::nat) # t)" by (simp add: b)
    then have "c = d" "concat (map json_escape a) @ char_of (34::nat) # s = concat (map json_escape b') @ char_of (34::nat) # t"
      unfolding unescape_json_escape by simp_all
    with Cons.IH [of b'] b show ?thesis by simp
  qed
qed

lemma json_quote_unique: "json_quote a @ s = json_quote b @ t \<longleftrightarrow> a = b \<and> s = t"
  using json_escapes_unique [of a s b t] by (auto simp: json_quote_def)

text \<open>What the number text has to satisfy: it is injective, and made of the characters of a JSON number.\<close>

definition json_numbers :: "(rat \<Rightarrow> string) \<Rightarrow> bool" where
  "json_numbers num \<longleftrightarrow> inj num \<and>
     (\<forall>q. num q \<noteq> [] \<and> hd (num q) \<in> set ''-0123456789'' \<and> set (num q) \<subseteq> set ''-+.e0123456789'')"

definition delimited :: "string \<Rightarrow> bool" where
  "delimited s \<longleftrightarrow> s = [] \<or> hd s \<in> set '',]}''"

lemma number_unique:
  assumes num: "json_numbers num" and d: "delimited s" "delimited t" and eq: "num p @ s = num q @ t"
  shows "p = q \<and> s = t"
proof -
  let ?C = "\<lambda>c. c \<in> set ''-+.e0123456789''"
  have tw: "takeWhile ?C (num q @ s) = num q" if "delimited s" for q s
  proof -
    have "takeWhile ?C s = []" using that by (cases s) (auto simp: delimited_def)
    moreover have "\<forall>c \<in> set (num q). ?C c" using num unfolding json_numbers_def by blast
    ultimately show ?thesis by (simp add: takeWhile_append2)
  qed
  have "num p = num q" using tw [OF d(1), of p] tw [OF d(2), of q] eq by metis
  with num eq show ?thesis by (auto simp: json_numbers_def inj_eq)
qed

lemma hd_mismatch: "z \<noteq> [] \<and> hd z \<noteq> c \<Longrightarrow> c # s \<noteq> z @ t"
  by (cases z) auto

lemma comma_join_unique:
  assumes "\<And>x y s t. x \<in> set xs \<Longrightarrow> y \<in> set ys \<Longrightarrow> delimited s \<Longrightarrow> delimited t \<Longrightarrow> f x @ s = f y @ t \<Longrightarrow> g x = g y \<and> s = t"
    and "\<And>x. x \<in> set xs \<union> set ys \<Longrightarrow> f x \<noteq> [] \<and> hd (f x) \<noteq> close"
    and "close \<in> set '']}''" and "comma_join (map f xs) @ close # s = comma_join (map f ys) @ close # t"
  shows "map g xs = map g ys \<and> s = t"
  using assms
proof (induction xs arbitrary: ys)
  case Nil
  show ?case
  proof (cases ys)
    case (Cons y ys')
    have "f y \<noteq> [] \<and> hd (f y) \<noteq> close" using Nil.prems(2) [of y] by (simp add: Cons)
    from hd_mismatch [OF this, of s] Nil.prems(4) show ?thesis by (simp add: Cons comma_join_Cons)
  qed (use Nil.prems(4) in simp)
next
  case (Cons x xs)
  let ?r = "\<lambda>zs s. (if zs = [] then [] else '','' @ comma_join (map f zs)) @ close # s"
  obtain y ys' where ys: "ys = y # ys'"
    using hd_mismatch [OF Cons.prems(2) [of x], of t "?r xs s"] Cons.prems(4) by (cases ys) (auto simp: comma_join_Cons)
  have del: "delimited (?r zs s)" for zs s using Cons.prems(3) by (auto simp: delimited_def)
  have "f x @ ?r xs s = f y @ ?r ys' t" using Cons.prems(4) by (simp add: ys comma_join_Cons)
  then have eq: "g x = g y" "?r xs s = ?r ys' t"
    using Cons.prems(1) [of x y "?r xs s" "?r ys' t"] del by (simp_all add: ys)
  have "close \<noteq> CHR '',''" using Cons.prems(3) by auto
  with eq(2) have "comma_join (map f xs) @ close # s = comma_join (map f ys') @ close # t"
    by (auto split: if_splits)
  then have "map g xs = map g ys' \<and> s = t"
    using Cons.prems by (intro Cons.IH) (auto simp: ys)
  then show ?case by (simp add: ys eq(1))
qed

lemma number_head: "json_numbers num \<Longrightarrow> num q @ s = c # t \<Longrightarrow> c \<in> set ''-0123456789''"
  unfolding json_numbers_def by (cases "num q") (metis, metis append_Cons hd_append2 list.sel(1) list.discI)

text \<open>The first character tells the constructor of a representable value, and no value starts like a closing bracket.\<close>

definition text_head :: "jsval \<Rightarrow> char set" where
  "text_head v =
     (case v of JNull \<Rightarrow> {CHR ''n''} | JBool b \<Rightarrow> {if b then CHR ''t'' else CHR ''f''} | JStr s \<Rightarrow> {CHR 0x22}
      | JArr xs \<Rightarrow> {CHR ''[''} | JObj ps \<Rightarrow> {CHR ''{''} | _ \<Rightarrow> set ''-0123456789'')"

lemma canonical_text_head:
  assumes "json_numbers num" and "representable d v"
  shows "\<exists>c r. canonical_text num v = c # r \<and> c \<in> text_head v"
proof (cases v)
  case (JNum n)
  with assms(2) obtain q where "n = Fin q" by auto
  then show ?thesis using assms(1) number_head [OF assms(1), of q "[]"] JNum
    by (cases "num q") (auto simp: text_head_def json_numbers_def)
qed (use assms(2) in \<open>auto simp: text_head_def json_quote_def\<close>)

lemma canonical_text_same_head:
  assumes "json_numbers num" and "representable d v" and "representable e w"
    and "canonical_text num v @ s = canonical_text num w @ t"
  shows "text_head v \<inter> text_head w \<noteq> {}"
  using canonical_text_head [OF assms(1,2)] canonical_text_head [OF assms(1,3)] assms(4) by auto

lemma text_head_cases:
  assumes "text_head v \<inter> text_head w \<noteq> {}" and "representable d v" and "representable e w"
  shows "(v = JNull \<and> w = JNull) \<or> (\<exists>b. v = JBool b \<and> w = JBool b) \<or> (\<exists>p q. v = JNum (Fin p) \<and> w = JNum (Fin q)) \<or>
    (\<exists>a b. v = JStr a \<and> w = JStr b) \<or> (\<exists>xs ys. v = JArr xs \<and> w = JArr ys) \<or> (\<exists>ps qs. v = JObj ps \<and> w = JObj qs)"
  using assms by (cases v; cases w) (auto simp: text_head_def split: if_splits)

lemma text_not_closing:
  assumes "json_numbers num" and "representable d v" and "close \<in> set '']}''"
  shows "canonical_text num v \<noteq> [] \<and> hd (canonical_text num v) \<noteq> close"
proof -
  from canonical_text_head [OF assms(1,2)] obtain c r where "canonical_text num v = c # r" "c \<in> text_head v" by blast
  moreover have "close \<notin> text_head v" using assms(2,3) by (cases v) (auto simp: text_head_def)
  ultimately show ?thesis by auto
qed

lemma canonical_text_unique:
  assumes num: "json_numbers num"
  shows "representable d v \<Longrightarrow> representable e w \<Longrightarrow> delimited s \<Longrightarrow> delimited t \<Longrightarrow>
    canonical_text num v @ s = canonical_text num w @ t \<Longrightarrow> sort_keys v = sort_keys w \<and> s = t"
proof (induction v arbitrary: w d e s t)
  case (JArr xs)
  from text_head_cases [OF canonical_text_same_head [OF num JArr.prems(1,2,5)] JArr.prems(1,2)]
  obtain ys where w: "w = JArr ys" by auto
  have "map sort_keys xs = map sort_keys ys \<and> s = t"
  proof (rule comma_join_unique [where f = "canonical_text num" and close = "CHR '']''"])
    show "comma_join (map (canonical_text num) xs) @ CHR '']'' # s = comma_join (map (canonical_text num) ys) @ CHR '']'' # t"
      using JArr.prems(5) by (simp add: w)
    show "sort_keys x = sort_keys y \<and> s' = t'"
      if "x \<in> set xs" "y \<in> set ys" "delimited s'" "delimited t'" "canonical_text num x @ s' = canonical_text num y @ t'" for x y s' t'
      using JArr.IH [OF that(1) _ _ that(3-5)] JArr.prems(1,2) that(1,2) by (auto simp: w)
    show "canonical_text num x \<noteq> [] \<and> hd (canonical_text num x) \<noteq> CHR '']''" if "x \<in> set xs \<union> set ys" for x
      using text_not_closing [OF num, of _ x "CHR '']''"] JArr.prems(1,2) that by (auto simp: w)
  qed simp
  then show ?case by (simp add: w)
next
  case (JObj ps)
  from text_head_cases [OF canonical_text_same_head [OF num JObj.prems(1,2,5)] JObj.prems(1,2)]
  obtain qs where w: "w = JObj qs" by auto
  let ?g = "\<lambda>p. (fst p, sort_keys (snd p))"
  have "map ?g (sort_key fst ps) = map ?g (sort_key fst qs) \<and> s = t"
  proof (rule comma_join_unique [where f = "item_text num" and close = "CHR ''}''"])
    show "comma_join (map (item_text num) (sort_key fst ps)) @ CHR ''}'' # s =
        comma_join (map (item_text num) (sort_key fst qs)) @ CHR ''}'' # t"
      using JObj.prems(5) by (simp add: w)
    show "?g x = ?g y \<and> s' = t'"
      if "x \<in> set (sort_key fst ps)" "y \<in> set (sort_key fst qs)" "delimited s'" "delimited t'" "item_text num x @ s' = item_text num y @ t'" for x y s' t'
    proof -
      have eq: "fst x = fst y" "canonical_text num (snd x) @ s' = canonical_text num (snd y) @ t'"
        using that(5) by (simp_all add: json_quote_unique)
      have "representable (d + 1) (snd x)" "representable (e + 1) (snd y)"
        using JObj.prems(1,2) that(1,2) by (simp_all add: w)
      from JObj.IH [of x "snd x", OF _ _ this that(3,4) eq(2)] that(1) eq(1) show ?thesis by (simp add: snds.simps)
    qed
  qed (simp_all add: json_quote_def)
  then show ?case by (simp add: w)
next
  case (JNum n)
  from text_head_cases [OF canonical_text_same_head [OF num JNum.prems(1,2,5)] JNum.prems(1,2)]
  obtain p q where "n = Fin p" "w = JNum (Fin q)" by auto
  with number_unique [OF num JNum.prems(3,4), of p q] JNum.prems(5) show ?case by simp
next
  case (JStr a)
  from text_head_cases [OF canonical_text_same_head [OF num JStr.prems(1,2,5)] JStr.prems(1,2)]
  obtain b where "w = JStr b" by auto
  with JStr.prems(5) show ?case by (simp add: json_quote_unique)
next
  case (JBool b)
  from text_head_cases [OF canonical_text_same_head [OF num JBool.prems(1,2,5)] JBool.prems(1,2)] JBool.prems(5)
  show ?case by auto
next
  case JNull
  from text_head_cases [OF canonical_text_same_head [OF num JNull.prems(1,2,5)] JNull.prems(1,2)] JNull.prems(5)
  show ?case by auto
qed simp

lemma canonical_text_eq_iff:
  assumes "json_numbers num" and "representable d v" and "representable e w"
  shows "canonical_text num v = canonical_text num w \<longleftrightarrow> sort_keys v = sort_keys w"
proof
  assume "canonical_text num v = canonical_text num w"
  then show "sort_keys v = sort_keys w"
    using canonical_text_unique [OF assms, of "[]" "[]"] by (simp add: delimited_def)
next
  assume "sort_keys v = sort_keys w"
  then show "canonical_text num v = canonical_text num w" by (metis canonical_text_sort_keys)
qed

end
