(* ===== verification/Contracts.thy ===== *)
theory Contracts
  imports CanonicalFacts
begin

text \<open>
  The contract capability (\<open>graph/contracts/resolve.ts\<close>): a registry of content-addressed snapshots, at
  most one per exact (id, revision) identity, and the resolution of a reference against it.

  A thrown error is the left side of a sum. Freezing has no counterpart for values that cannot be
  mutated, and a record field is always an own data property. The locale \<open>exact_registry\<close> states what
  every registry of the program promises: one entry per identity, found by that identity alone.
\<close>

subsection \<open>Registries with one entry per identity\<close>

lemma option_eqI: "(\<And>x. a = Some x \<longleftrightarrow> b = Some x) \<Longrightarrow> a = b"
  by (cases a; cases b) auto

definition forId :: "('s \<Rightarrow> string) \<Rightarrow> string \<Rightarrow> 's list \<Rightarrow> 's list" where
  "forId idOf i entries = filter (\<lambda>s. idOf s = i) entries"

locale exact_registry =
  fixes idOf :: "'s \<Rightarrow> string"
    and revisionOf :: "'s \<Rightarrow> string"
    and installed :: "'s list \<Rightarrow> bool"
  assumes one_per_identity: "installed entries \<Longrightarrow> distinct (map (\<lambda>s. (idOf s, revisionOf s)) entries)"
begin

lemma lookup_iff:
  assumes "installed entries"
  shows "find (\<lambda>s. revisionOf s = r) (forId idOf i entries) = Some s \<longleftrightarrow> s \<in> set entries \<and> idOf s = i \<and> revisionOf s = r"
  using one_per_identity [OF assms]
  by (induction entries) (auto simp: forId_def rev_image_eqI dest: find_Some_in)

lemma lookup_unique:
  assumes "installed entries" "s \<in> set entries" "t \<in> set entries" "idOf s = idOf t" "revisionOf s = revisionOf t"
  shows "s = t"
  using lookup_iff [OF assms(1), of "revisionOf t" "idOf t"] assms(2-) by (metis option.inject)

lemma lookup_permuted:
  assumes "installed entries" "installed entries'" "set entries = set entries'"
  shows "find (\<lambda>s. revisionOf s = r) (forId idOf i entries) = find (\<lambda>s. revisionOf s = r) (forId idOf i entries')"
  by (rule option_eqI) (simp add: lookup_iff [OF assms(1)] lookup_iff [OF assms(2)] assms(3))

end

subsection \<open>The contract registry\<close>

record contract_snapshot =
  cs_ref :: contract_ref
  cs_body :: jsval

type_synonym contract_registry = "contract_snapshot list"

datatype snapshot_error =
    MalformedRef
  | DuplicateIdentity
  | UnreadableBody
  | NotAddressable digest_error
  | DigestDisagrees string

definition enc_ref :: "contract_ref \<Rightarrow> jsval" where
  "enc_ref r = JObj [(''id'', JStr (cr_id r)), (''revision'', JStr (cr_revision r)), (''digest'', JStr (cr_digest r))]"

lemma isContractRef_enc [simp]: "isContractRef (enc_ref r) \<longleftrightarrow> cr_id r \<noteq> [] \<and> cr_revision r \<noteq> [] \<and> cr_digest r \<noteq> []"
  by (simp add: isContractRef_def enc_ref_def)

text \<open>\<open>revisionsById\<close> is the list of the identities accepted so far.\<close>

fun check_snapshots ::
  "(string \<Rightarrow> string) \<Rightarrow> (rat \<Rightarrow> string) \<Rightarrow> (string \<times> string) list \<Rightarrow> contract_snapshot list \<Rightarrow> snapshot_error + unit" where
  "check_snapshots sha num seen [] = Inr ()"
| "check_snapshots sha num seen (s # ss) =
     (let ref = cs_ref s in
      if \<not> isContractRef (enc_ref ref) then Inl MalformedRef
      else if (cr_id ref, cr_revision ref) \<in> set seen then Inl DuplicateIdentity
      else case contractDigest sha num (cs_body s) of
             Inl e \<Rightarrow> Inl (NotAddressable e)
           | Inr actual \<Rightarrow>
               if actual \<noteq> cr_digest ref then Inl (DigestDisagrees actual)
               else check_snapshots sha num (seen @ [(cr_id ref, cr_revision ref)]) ss)"

definition createContractRegistry ::
  "(string \<Rightarrow> string) \<Rightarrow> (rat \<Rightarrow> string) \<Rightarrow> contract_snapshot list \<Rightarrow> snapshot_error + contract_registry" where
  "createContractRegistry sha num contracts = rbind (check_snapshots sha num [] contracts) (\<lambda>_. Inr contracts)"

subsection \<open>Resolution\<close>

datatype contract_resolution =
    Resolved contract_snapshot
  | UnknownContract string
  | UnknownRevision contract_ref
  | DigestMismatch contract_ref string

definition resolveContractRef ::
  "(string \<Rightarrow> string) \<Rightarrow> (rat \<Rightarrow> string) \<Rightarrow> contract_ref \<Rightarrow> contract_registry \<Rightarrow> digest_error + contract_resolution" where
  "resolveContractRef sha num ref registry =
     (let for_id = forId (\<lambda>s. cr_id (cs_ref s)) (cr_id ref) registry in
      if for_id = [] then Inr (UnknownContract (cr_id ref))
      else case find (\<lambda>s. cr_revision (cs_ref s) = cr_revision ref) for_id of
             None \<Rightarrow> Inr (UnknownRevision ref)
           | Some s \<Rightarrow> rbind (contractDigest sha num (cs_body s)) (\<lambda>actual.
               if actual \<noteq> cr_digest ref then Inr (DigestMismatch ref actual) else Inr (Resolved s)))"

definition verifyContractBinding ::
  "(string \<Rightarrow> string) \<Rightarrow> (rat \<Rightarrow> string) \<Rightarrow> contract_ref \<Rightarrow> contract_snapshot \<Rightarrow> digest_error + contract_resolution" where
  "verifyContractBinding sha num ref s =
     (if cr_id (cs_ref s) \<noteq> cr_id ref then Inr (UnknownContract (cr_id ref))
      else if cr_revision (cs_ref s) \<noteq> cr_revision ref then Inr (UnknownRevision ref)
      else rbind (contractDigest sha num (cs_body s)) (\<lambda>actual.
             if actual \<noteq> cr_digest ref then Inr (DigestMismatch ref actual) else Inr (Resolved s)))"

subsection \<open>What a registry promises\<close>

definition proven_snapshot :: "(string \<Rightarrow> string) \<Rightarrow> (rat \<Rightarrow> string) \<Rightarrow> contract_snapshot \<Rightarrow> bool" where
  "proven_snapshot sha num s \<longleftrightarrow> isContractRef (enc_ref (cs_ref s)) \<and> contractDigest sha num (cs_body s) = Inr (cr_digest (cs_ref s))"

definition installed_contracts :: "(string \<Rightarrow> string) \<Rightarrow> (rat \<Rightarrow> string) \<Rightarrow> contract_registry \<Rightarrow> bool" where
  "installed_contracts sha num registry \<longleftrightarrow> createContractRegistry sha num registry = Inr registry"

lemma check_snapshots_ok:
  "check_snapshots sha num seen ss = Inr u \<longleftrightarrow>
     list_all (proven_snapshot sha num) ss \<and> distinct (map (\<lambda>s. (cr_id (cs_ref s), cr_revision (cs_ref s))) ss) \<and>
     (\<forall>s \<in> set ss. (cr_id (cs_ref s), cr_revision (cs_ref s)) \<notin> set seen)"
proof (induction ss arbitrary: seen)
  case (Cons s ss)
  then show ?case
    by (auto simp: Let_def proven_snapshot_def image_iff split: sum.splits)
qed simp

lemma createContractRegistry_ok:
  "createContractRegistry sha num contracts = Inr registry \<longleftrightarrow> registry = contracts \<and>
     list_all (proven_snapshot sha num) contracts \<and> distinct (map (\<lambda>s. (cr_id (cs_ref s), cr_revision (cs_ref s))) contracts)"
  by (auto simp: createContractRegistry_def result_simps check_snapshots_ok)

interpretation contracts: exact_registry "\<lambda>s. cr_id (cs_ref s)" "\<lambda>s. cr_revision (cs_ref s)" "installed_contracts sha num" for sha num
  by unfold_locales (simp add: installed_contracts_def createContractRegistry_ok)

lemma resolve_resolved:
  assumes "resolveContractRef sha num ref registry = Inr (Resolved s)"
  shows "s \<in> set registry \<and> cr_id (cs_ref s) = cr_id ref \<and> cr_revision (cs_ref s) = cr_revision ref \<and>
    contractDigest sha num (cs_body s) = Inr (cr_digest ref)"
  using assms
  by (auto simp: resolveContractRef_def Let_def forId_def result_simps split: if_splits option.splits dest!: find_Some_in)

text \<open>Against an installed registry a reference resolves exactly when it names an installed snapshot, and to that one.\<close>

lemma resolve_installed:
  assumes "installed_contracts sha num registry"
  shows "resolveContractRef sha num ref registry = Inr (Resolved s) \<longleftrightarrow> s \<in> set registry \<and> cs_ref s = ref"
proof -
  have proven: "s \<in> set registry \<Longrightarrow> contractDigest sha num (cs_body s) = Inr (cr_digest (cs_ref s))" for s
    using assms by (auto simp: installed_contracts_def createContractRegistry_ok list_all_iff proven_snapshot_def)
  note find = contracts.lookup_iff [OF assms]
  show ?thesis
  proof
    assume "resolveContractRef sha num ref registry = Inr (Resolved s)"
    from resolve_resolved [OF this] proven [of s] show "s \<in> set registry \<and> cs_ref s = ref" by auto
  next
    assume s: "s \<in> set registry \<and> cs_ref s = ref"
    then have "forId (\<lambda>s. cr_id (cs_ref s)) (cr_id ref) registry \<noteq> []" by (auto simp: forId_def filter_empty_conv)
    with s find [of "cr_revision ref" "cr_id ref" s] proven [of s]
    show "resolveContractRef sha num ref registry = Inr (Resolved s)"
      by (simp add: resolveContractRef_def Let_def)
  qed
qed

text \<open>Resolution against an installed registry never throws.\<close>

lemma resolve_total:
  assumes "installed_contracts sha num registry"
  shows "\<exists>r. resolveContractRef sha num ref registry = Inr r"
proof -
  have "s \<in> set registry \<Longrightarrow> contractDigest sha num (cs_body s) = Inr (cr_digest (cs_ref s))" for s
    using assms by (auto simp: installed_contracts_def createContractRegistry_ok list_all_iff proven_snapshot_def)
  moreover note contracts.lookup_iff [OF assms]
  ultimately show ?thesis
    by (auto simp: resolveContractRef_def Let_def split: option.split)
qed

lemma verifyContractBinding_resolves:
  "verifyContractBinding sha num ref s = Inr (Resolved t) \<longleftrightarrow> t = s \<and> resolveContractRef sha num ref [s] = Inr (Resolved s)"
  by (auto simp: verifyContractBinding_def resolveContractRef_def Let_def forId_def result_simps split: if_splits)

end
