(* ===== verification/CompletionPolicy.thy ===== *)
theory CompletionPolicy
  imports Contracts
begin

text \<open>
  Completion policies (\<open>graph/policy/completion-policy.ts\<close>): the strict reader of a declaration body, the
  installed registry, the exact-match decision, and the host-authorized selection from an untrusted
  catalog.

  A policy reference has the fields of a contract reference. Catalog entries and authorizations are raw
  values; a body that cannot be content-addressed throws, which is the left side of a sum. The messages of
  issues are dropped, their kinds and subjects are kept.
\<close>

subsection \<open>Declarations\<close>

definition COMPLETION_POLICY_VERSION :: int where
  "COMPLETION_POLICY_VERSION = 1"

record completion_mapping =
  cm_graphId :: string
  cm_nodeId :: string
  cm_outcome :: string

datatype policy_decision = Allow | Deny

record completion_rule =
  cr_mapping :: completion_mapping
  cr_decision :: policy_decision

datatype policy_fallback = FallbackDeny | FallbackUngranted

record completion_policy_body =
  pb_default :: policy_fallback
  pb_rules :: "completion_rule list"

type_synonym completion_policy_ref = contract_ref

record completion_policy_snapshot =
  ps_ref :: completion_policy_ref
  ps_body :: completion_policy_body

type_synonym completion_policy_registry = "completion_policy_snapshot list"

fun enc_decision :: "policy_decision \<Rightarrow> jsval" where
  "enc_decision Allow = JStr ''allow''"
| "enc_decision Deny = JStr ''deny''"

fun enc_fallback :: "policy_fallback \<Rightarrow> jsval" where
  "enc_fallback FallbackDeny = JStr ''deny''"
| "enc_fallback FallbackUngranted = JStr ''ungranted''"

definition enc_rule :: "completion_rule \<Rightarrow> jsval" where
  "enc_rule r = JObj [(''graphId'', JStr (cm_graphId (cr_mapping r))), (''nodeId'', JStr (cm_nodeId (cr_mapping r))),
     (''outcome'', JStr (cm_outcome (cr_mapping r))), (''decision'', enc_decision (cr_decision r))]"

definition enc_policy_body :: "completion_policy_body \<Rightarrow> jsval" where
  "enc_policy_body b = JObj [(''version'', js_int COMPLETION_POLICY_VERSION), (''default'', enc_fallback (pb_default b)),
     (''rules'', JArr (map enc_rule (pb_rules b)))]"

subsection \<open>Readers\<close>

text \<open>The key test of this module: as many own keys as names, and every name among them.\<close>

definition has_all_keys :: "jsval \<Rightarrow> string list \<Rightarrow> bool" where
  "has_all_keys v names \<longleftrightarrow> length (js_keys v) = length names \<and> list_all (\<lambda>k. k \<in> set (js_keys v)) names"

definition mappingKey :: "completion_mapping \<Rightarrow> string" where
  "mappingKey m = cm_graphId m @ [nul] @ cm_nodeId m @ [nul] @ cm_outcome m"

definition read_decision :: "jsval \<Rightarrow> policy_decision option" where
  "read_decision v = (if v = JStr ''allow'' then Some Allow else if v = JStr ''deny'' then Some Deny else None)"

definition read_rule :: "jsval \<Rightarrow> completion_rule option" where
  "read_rule entry =
     (if \<not> isRecord entry \<or> \<not> has_all_keys entry [''graphId'', ''nodeId'', ''outcome'', ''decision''] then None
      else case nonempty_string (js_get entry ''graphId'') of None \<Rightarrow> None | Some graphId \<Rightarrow>
           case nonempty_string (js_get entry ''nodeId'') of None \<Rightarrow> None | Some nodeId \<Rightarrow>
           case nonempty_string (js_get entry ''outcome'') of None \<Rightarrow> None | Some outcome \<Rightarrow>
           case read_decision (js_get entry ''decision'') of None \<Rightarrow> None | Some decision \<Rightarrow>
             Some \<lparr>cr_mapping = \<lparr>cm_graphId = graphId, cm_nodeId = nodeId, cm_outcome = outcome\<rparr>, cr_decision = decision\<rparr>)"

fun read_rules :: "string list \<Rightarrow> jsval list \<Rightarrow> completion_rule list option" where
  "read_rules seen [] = Some []"
| "read_rules seen (entry # rest) =
     (case read_rule entry of
        None \<Rightarrow> None
      | Some rule \<Rightarrow>
          (let key = mappingKey (cr_mapping rule) in
           if key \<in> set seen then None
           else map_option (\<lambda>rules. rule # rules) (read_rules (seen @ [key]) rest)))"

definition read_fallback :: "jsval \<Rightarrow> policy_fallback option" where
  "read_fallback v = (if v = JStr ''deny'' then Some FallbackDeny else if v = JStr ''ungranted'' then Some FallbackUngranted else None)"

definition readCompletionPolicyBody :: "jsval \<Rightarrow> completion_policy_body option" where
  "readCompletionPolicyBody raw =
     (if \<not> isRecord raw \<or> \<not> has_all_keys raw [''version'', ''default'', ''rules''] \<or> js_get raw ''version'' \<noteq> js_int COMPLETION_POLICY_VERSION
      then None
      else case read_fallback (js_get raw ''default'') of None \<Rightarrow> None | Some fallback \<Rightarrow>
           case js_array (js_get raw ''rules'') of None \<Rightarrow> None | Some rawRules \<Rightarrow>
             map_option (\<lambda>rules. \<lparr>pb_default = fallback, pb_rules = rules\<rparr>) (read_rules [] rawRules))"

definition isCompletionPolicyRequest :: "jsval \<Rightarrow> bool" where
  "isCompletionPolicyRequest v \<longleftrightarrow> isRecord v \<and>
     nonempty_string (js_get v ''id'') \<noteq> None \<and> nonempty_string (js_get v ''revision'') \<noteq> None"

definition isCompletionPolicyRef :: "jsval \<Rightarrow> bool" where
  "isCompletionPolicyRef v \<longleftrightarrow> isRecord v \<and>
     nonempty_string (js_get v ''id'') \<noteq> None \<and> nonempty_string (js_get v ''revision'') \<noteq> None \<and>
     nonempty_string (js_get v ''digest'') \<noteq> None"

definition completionPolicyRefOf ::
  "(string \<Rightarrow> string) \<Rightarrow> (rat \<Rightarrow> string) \<Rightarrow> string \<Rightarrow> string \<Rightarrow> jsval \<Rightarrow> digest_error + completion_policy_ref" where
  "completionPolicyRefOf sha num i revision body =
     rbind (contractDigest sha num body) (\<lambda>d. Inr \<lparr>cr_id = i, cr_revision = revision, cr_digest = d\<rparr>)"

subsection \<open>The registry\<close>

text \<open>The input snapshots are a reference and a raw body each.\<close>

fun install_policies ::
  "(string \<Rightarrow> string) \<Rightarrow> (rat \<Rightarrow> string) \<Rightarrow> (string \<times> string) list \<Rightarrow> (completion_policy_ref \<times> jsval) list \<Rightarrow>
   snapshot_error + completion_policy_registry" where
  "install_policies sha num seen [] = Inr []"
| "install_policies sha num seen ((ref, raw) # rest) =
     (if \<not> isCompletionPolicyRef (enc_ref ref) then Inl MalformedRef
      else if (cr_id ref, cr_revision ref) \<in> set seen then Inl DuplicateIdentity
      else case readCompletionPolicyBody raw of
             None \<Rightarrow> Inl UnreadableBody
           | Some body \<Rightarrow>
               (case contractDigest sha num raw of
                  Inl e \<Rightarrow> Inl (NotAddressable e)
                | Inr actual \<Rightarrow>
                    if actual \<noteq> cr_digest ref then Inl (DigestDisagrees actual)
                    else rbind (install_policies sha num (seen @ [(cr_id ref, cr_revision ref)]) rest)
                           (\<lambda>snapshots. Inr (\<lparr>ps_ref = ref, ps_body = body\<rparr> # snapshots))))"

definition createCompletionPolicyRegistry ::
  "(string \<Rightarrow> string) \<Rightarrow> (rat \<Rightarrow> string) \<Rightarrow> (completion_policy_ref \<times> jsval) list \<Rightarrow> snapshot_error + completion_policy_registry" where
  "createCompletionPolicyRegistry sha num policies = install_policies sha num [] policies"

subsection \<open>Resolution and decision\<close>

datatype policy_resolution =
    PolicyResolved completion_policy_snapshot
  | UnknownPolicy string
  | UnknownPolicyRevision string string
  | PolicyDigestMismatch completion_policy_ref string

definition resolveCompletionPolicy :: "string \<times> string \<Rightarrow> completion_policy_registry \<Rightarrow> policy_resolution" where
  "resolveCompletionPolicy request registry =
     (let for_id = forId (\<lambda>s. cr_id (ps_ref s)) (fst request) registry in
      if for_id = [] then UnknownPolicy (fst request)
      else case find (\<lambda>s. cr_revision (ps_ref s) = snd request) for_id of
             None \<Rightarrow> UnknownPolicyRevision (fst request) (snd request)
           | Some s \<Rightarrow> PolicyResolved s)"

definition verifyCompletionPolicy ::
  "(string \<Rightarrow> string) \<Rightarrow> (rat \<Rightarrow> string) \<Rightarrow> completion_policy_ref \<Rightarrow> completion_policy_registry \<Rightarrow> digest_error + policy_resolution" where
  "verifyCompletionPolicy sha num ref registry =
     (let for_id = forId (\<lambda>s. cr_id (ps_ref s)) (cr_id ref) registry in
      if for_id = [] then Inr (UnknownPolicy (cr_id ref))
      else case find (\<lambda>s. cr_revision (ps_ref s) = cr_revision ref) for_id of
             None \<Rightarrow> Inr (UnknownPolicyRevision (cr_id ref) (cr_revision ref))
           | Some s \<Rightarrow> rbind (contractDigest sha num (enc_policy_body (ps_body s))) (\<lambda>actual.
               if actual \<noteq> cr_digest ref then Inr (PolicyDigestMismatch ref actual) else Inr (PolicyResolved s)))"

datatype completion_verdict =
    Allowed completion_rule
  | Denied "completion_rule option"
  | Undecided

fun decide_rules :: "policy_fallback \<Rightarrow> completion_rule list \<Rightarrow> completion_mapping \<Rightarrow> completion_verdict" where
  "decide_rules fallback [] mapping = (if fallback = FallbackDeny then Denied None else Undecided)"
| "decide_rules fallback (rule # rules) mapping =
     (if cr_mapping rule \<noteq> mapping then decide_rules fallback rules mapping
      else if cr_decision rule = Allow then Allowed rule else Denied (Some rule))"

definition decideCompletion :: "completion_policy_body \<Rightarrow> completion_mapping \<Rightarrow> completion_verdict" where
  "decideCompletion body mapping = decide_rules (pb_default body) (pb_rules body) mapping"

subsection \<open>The issue vocabulary\<close>

datatype completion_issue_code = PolicyUnavailable | PolicyUnknown | PolicyUnknownRevision | PolicyUngranted

fun issue_code_text :: "completion_issue_code \<Rightarrow> string" where
  "issue_code_text PolicyUnavailable = ''completion-policy-unavailable''"
| "issue_code_text PolicyUnknown = ''completion-policy-unknown''"
| "issue_code_text PolicyUnknownRevision = ''completion-policy-unknown-revision''"
| "issue_code_text PolicyUngranted = ''completion-policy-ungranted''"

definition COMPLETION_AUTHORIZATION_ISSUE_CODES :: "completion_issue_code list" where
  "COMPLETION_AUTHORIZATION_ISSUE_CODES = [PolicyUnavailable, PolicyUnknown, PolicyUnknownRevision, PolicyUngranted]"

definition readCompletionAuthorizationIssueCode :: "jsval \<Rightarrow> completion_issue_code option" where
  "readCompletionAuthorizationIssueCode v = find (\<lambda>code. JStr (issue_code_text code) = v) COMPLETION_AUTHORIZATION_ISSUE_CODES"

subsection \<open>Host-authorized loading\<close>

definition identityKey :: "string \<Rightarrow> string \<Rightarrow> string" where
  "identityKey i revision = i @ [nul] @ revision"

definition splitIdentity :: "string \<Rightarrow> (string \<times> string) option" where
  "splitIdentity identity =
     (if nul \<in> set identity then Some (takeWhile (\<lambda>c. c \<noteq> nul) identity, tl (dropWhile (\<lambda>c. c \<noteq> nul) identity)) else None)"

datatype load_issue =
    MalformedCatalogEntry nat
  | MalformedAuthorization nat
  | ConflictingAuthorization string string "string list"
  | NotAuthorized string string
  | CatalogMissing completion_policy_ref
  | MalformedPolicy completion_policy_ref
  | LoadDigestMismatch completion_policy_ref string

record catalog_entry =
  ca_id :: string
  ca_revision :: string
  ca_body :: jsval

abbreviation entry_key :: "catalog_entry \<Rightarrow> string" where
  "entry_key e \<equiv> identityKey (ca_id e) (ca_revision e)"

fun index_catalog :: "nat \<Rightarrow> catalog_entry list \<Rightarrow> jsval list \<Rightarrow> catalog_entry list \<times> load_issue list" where
  "index_catalog index accepted [] = (accepted, [])"
| "index_catalog index accepted (entry # rest) =
     (let bad = (let (a, is) = index_catalog (index + 1) accepted rest in (a, MalformedCatalogEntry index # is)) in
      if \<not> isRecord entry then bad
      else case (nonempty_string (js_get entry ''id''), nonempty_string (js_get entry ''revision'')) of
             (Some i, Some revision) \<Rightarrow>
               (if identityKey i revision \<in> set (map entry_key accepted) then bad
                else index_catalog (index + 1)
                       (accepted @ [\<lparr>ca_id = i, ca_revision = revision, ca_body = js_get entry ''body''\<rparr>]) rest)
           | _ \<Rightarrow> bad)"

fun group_authorizations ::
  "nat \<Rightarrow> (string \<times> string list) list \<Rightarrow> jsval list \<Rightarrow> (string \<times> string list) list \<times> load_issue list" where
  "group_authorizations index digests [] = (digests, [])"
| "group_authorizations index digests (ref # rest) =
     (case (nonempty_string (js_get ref ''id''), nonempty_string (js_get ref ''revision''), nonempty_string (js_get ref ''digest'')) of
        (Some i, Some revision, Some digest) \<Rightarrow>
          (if isCompletionPolicyRef ref
           then (let identity = identityKey i revision;
                     known = (case map_of digests identity of None \<Rightarrow> [] | Some ds \<Rightarrow> ds)
                 in group_authorizations (index + 1) (AList.update identity (set_add digest known) digests) rest)
           else (let (d, is) = group_authorizations (index + 1) digests rest in (d, MalformedAuthorization index # is)))
      | _ \<Rightarrow> (let (d, is) = group_authorizations (index + 1) digests rest in (d, MalformedAuthorization index # is)))"

definition readCatalogPolicy ::
  "(string \<Rightarrow> string) \<Rightarrow> (rat \<Rightarrow> string) \<Rightarrow> catalog_entry \<Rightarrow> completion_policy_ref \<Rightarrow>
   digest_error + load_issue + completion_policy_snapshot" where
  "readCatalogPolicy sha num entry ref =
     (case readCompletionPolicyBody (ca_body entry) of
        None \<Rightarrow> Inr (Inl (MalformedPolicy ref))
      | Some body \<Rightarrow> rbind (contractDigest sha num (enc_policy_body body)) (\<lambda>actual.
          Inr (if actual \<noteq> cr_digest ref then Inl (LoadDigestMismatch ref actual) else Inr \<lparr>ps_ref = ref, ps_body = body\<rparr>)))"

fun select_authorized ::
  "(string \<Rightarrow> string) \<Rightarrow> (rat \<Rightarrow> string) \<Rightarrow> catalog_entry list \<Rightarrow> (string \<times> string list) list \<Rightarrow>
   digest_error + completion_policy_snapshot list \<times> load_issue list" where
  "select_authorized sha num catalog [] = Inr ([], [])"
| "select_authorized sha num catalog ((identity, digests) # rest) =
     (case splitIdentity identity of
        None \<Rightarrow> select_authorized sha num catalog rest
      | Some (i, revision) \<Rightarrow>
          (case sort digests of
             [] \<Rightarrow> select_authorized sha num catalog rest
           | [digest] \<Rightarrow>
               (let ref = \<lparr>cr_id = i, cr_revision = revision, cr_digest = digest\<rparr> in
                case find (\<lambda>e. entry_key e = identity) catalog of
                  None \<Rightarrow> rbind (select_authorized sha num catalog rest) (\<lambda>(ss, is). Inr (ss, CatalogMissing ref # is))
                | Some entry \<Rightarrow>
                    rbind (readCatalogPolicy sha num entry ref) (\<lambda>reading.
                    rbind (select_authorized sha num catalog rest) (\<lambda>(ss, is).
                      Inr (case reading of Inl issue \<Rightarrow> (ss, issue # is) | Inr s \<Rightarrow> (s # ss, is)))))
           | ds \<Rightarrow> rbind (select_authorized sha num catalog rest) (\<lambda>(ss, is). Inr (ss, ConflictingAuthorization i revision ds # is))))"

definition loadCompletionPolicies ::
  "(string \<Rightarrow> string) \<Rightarrow> (rat \<Rightarrow> string) \<Rightarrow> jsval list \<Rightarrow> jsval list \<Rightarrow>
   snapshot_error + completion_policy_registry \<times> load_issue list" where
  "loadCompletionPolicies sha num catalog authorized =
     (let (entries, catalogIssues) = index_catalog 0 [] catalog;
          (digests, authorizationIssues) = group_authorizations 0 [] authorized;
          unlisted = map (\<lambda>e. NotAuthorized (ca_id e) (ca_revision e)) (filter (\<lambda>e. map_of digests (entry_key e) = None) entries)
      in case select_authorized sha num entries (sort_key fst digests) of
           Inl e \<Rightarrow> Inl (NotAddressable e)
         | Inr (snapshots, issues) \<Rightarrow>
             rbind (createCompletionPolicyRegistry sha num (map (\<lambda>s. (ps_ref s, enc_policy_body (ps_body s))) snapshots))
               (\<lambda>registry. Inr (registry, catalogIssues @ authorizationIssues @ issues @ unlisted)))"

end
