(* ===== verification/Cycles.thy ===== *)
theory Cycles
  imports JsValue
begin

text \<open>
  Cycle detection (\<open>graph/cycle-detection.ts\<close>): Tarjan's strongly connected components over the edges of a
  topology.

  The recursion of \<open>strongConnect\<close> through the state it returns is bounded by fuel. A call visits a node that
  was not visited before, so the number of nodes is enough; \<open>CyclesFacts\<close> proves the result correct with
  that fuel. The stack has its top first, and the component map is the list of components in the order of
  their keys.
\<close>

subsection \<open>Edges\<close>

type_synonym cycle_edge = "string \<times> string"

definition readEndpoints :: "jsval \<Rightarrow> cycle_edge option" where
  "readEndpoints edge =
     (case (nonempty_string (js_get edge ''from''), nonempty_string (js_get edge ''to'')) of
        (Some f, Some t) \<Rightarrow> Some (f, t)
      | _ \<Rightarrow> None)"

definition readable_edges :: "jsval list \<Rightarrow> cycle_edge list" where
  "readable_edges edges = List.map_filter readEndpoints edges"

definition edge_nodes :: "cycle_edge list \<Rightarrow> string list" where
  "edge_nodes es = js_set (concat (map (\<lambda>(f, t). [f, t]) es))"

definition adjacency :: "cycle_edge list \<Rightarrow> string \<Rightarrow> string list" where
  "adjacency es v = map snd (filter (\<lambda>e. fst e = v) es)"

definition self_loops :: "cycle_edge list \<Rightarrow> string list" where
  "self_loops es = js_set (map fst (filter (\<lambda>e. fst e = snd e) es))"

subsection \<open>The depth-first search\<close>

record tarjan_state =
  ts_indices :: "string \<rightharpoonup> nat"
  ts_lowlink :: "string \<rightharpoonup> nat"
  ts_onStack :: "string list"
  ts_stack :: "string list"
  ts_components :: "string list list"
  ts_index :: nat

abbreviation low_of :: "tarjan_state \<Rightarrow> string \<Rightarrow> nat" where
  "low_of s v \<equiv> (case ts_lowlink s v of None \<Rightarrow> 0 | Some l \<Rightarrow> l)"

definition open_node :: "string \<Rightarrow> tarjan_state \<Rightarrow> tarjan_state" where
  "open_node v s = s\<lparr>ts_indices := (ts_indices s)(v \<mapsto> ts_index s), ts_lowlink := (ts_lowlink s)(v \<mapsto> ts_index s),
     ts_index := ts_index s + 1, ts_stack := v # ts_stack s, ts_onStack := set_add v (ts_onStack s)\<rparr>"

text \<open>The popped part of the stack, down to and including the node, and what is left.\<close>

fun pop_until :: "string \<Rightarrow> string list \<Rightarrow> string list \<times> string list" where
  "pop_until v [] = ([], [])"
| "pop_until v (p # st) = (if p = v then ([p], st) else (let (popped, rest) = pop_until v st in (p # popped, rest)))"

definition close_node :: "string \<Rightarrow> tarjan_state \<Rightarrow> tarjan_state" where
  "close_node v s =
     (if ts_lowlink s v = ts_indices s v
      then (let (component, rest) = pop_until v (ts_stack s)
            in s\<lparr>ts_stack := rest, ts_onStack := filter (\<lambda>x. x \<notin> set component) (ts_onStack s),
                 ts_components := ts_components s @ [component]\<rparr>)
      else s)"

definition lower :: "string \<Rightarrow> nat \<Rightarrow> tarjan_state \<Rightarrow> tarjan_state" where
  "lower v l s = s\<lparr>ts_lowlink := (ts_lowlink s)(v \<mapsto> min (low_of s v) l)\<rparr>"

function strongConnect :: "nat \<Rightarrow> (string \<Rightarrow> string list) \<Rightarrow> string \<Rightarrow> tarjan_state \<Rightarrow> tarjan_state"
  and visit_neighbors :: "nat \<Rightarrow> (string \<Rightarrow> string list) \<Rightarrow> string \<Rightarrow> string list \<Rightarrow> tarjan_state \<Rightarrow> tarjan_state"
where
  "strongConnect 0 adj v s = s"
| "strongConnect (Suc fuel) adj v s = close_node v (visit_neighbors fuel adj v (adj v) (open_node v s))"
| "visit_neighbors fuel adj v [] s = s"
| "visit_neighbors fuel adj v (w # ws) s =
     (case ts_indices s w of
        None \<Rightarrow> (let s' = strongConnect fuel adj w s in visit_neighbors fuel adj v ws (lower v (low_of s' w) s'))
      | Some i \<Rightarrow> visit_neighbors fuel adj v ws (if w \<in> set (ts_onStack s) then lower v i s else s))"
  by pat_completeness auto
termination
  by (relation "(\<lambda>c. case c of Inl (fuel, _, _, _) \<Rightarrow> fuel | Inr (fuel, _, _, _, _) \<Rightarrow> fuel) <*mlex*>
        measure (\<lambda>c. case c of Inl _ \<Rightarrow> 0 | Inr (_, _, _, ws, _) \<Rightarrow> length ws + 1)")
     (auto simp: wf_mlex mlex_less mlex_leq)

definition empty_tarjan :: tarjan_state where
  "empty_tarjan = \<lparr>ts_indices = Map.empty, ts_lowlink = Map.empty, ts_onStack = [], ts_stack = [], ts_components = [], ts_index = 0\<rparr>"

definition connect_unvisited :: "nat \<Rightarrow> (string \<Rightarrow> string list) \<Rightarrow> tarjan_state \<Rightarrow> string \<Rightarrow> tarjan_state" where
  "connect_unvisited fuel adj s v = (if ts_indices s v = None then strongConnect fuel adj v s else s)"

text \<open>The components of a readable edge list, with the fuel the nodes give.\<close>

definition components_of :: "cycle_edge list \<Rightarrow> string list list" where
  "components_of es =
     (let nodes = edge_nodes es
      in ts_components (foldl (connect_unvisited (length nodes) (adjacency es)) empty_tarjan nodes))"

definition stronglyConnectedComponents :: "jsval list \<Rightarrow> string list list \<times> string list" where
  "stronglyConnectedComponents edges =
     (let es = readable_edges edges in (components_of es, self_loops es))"

definition isCyclicComponent :: "string list \<Rightarrow> string list \<Rightarrow> bool" where
  "isCyclicComponent component selfLoop \<longleftrightarrow>
     (if length component > 1 then True else case component of [] \<Rightarrow> False | only # _ \<Rightarrow> only \<in> set selfLoop)"

definition hasDirectedCycle :: "jsval list \<Rightarrow> bool" where
  "hasDirectedCycle edges =
     (let (components, selfLoop) = stronglyConnectedComponents edges in list_ex (\<lambda>c. isCyclicComponent c selfLoop) components)"

end
