(* ===== verification/Topology.thy ===== *)
theory Topology
  imports CompletionPolicy Cycles
begin

text \<open>
  The plan-level rules (\<open>graph/compiler/plan.ts\<close>): the JSON form of a compiled plan, the content-addressed
  construction of a plan, its durable record, and the inspector of a topology that the compiler runs on
  its own output and the load gate on a persisted record.

  The inspector reads raw values. An issue is its code; the text of its message is dropped, so that the
  canonical order among equal codes is not visible. Every reader answers for any value.
\<close>

subsection \<open>The JSON form of a plan\<close>

definition undef_field :: "string \<Rightarrow> jsval \<Rightarrow> (string \<times> jsval) list" where
  "undef_field k v = (if v = JUndef then [] else [(k, v)])"

definition enc_outcome_data :: "compiled_outcome_data \<Rightarrow> jsval" where
  "enc_outcome_data d = JObj ((''schema'', JStr (cod_schema d)) # opt_field ''version'' (\<lambda>q. JNum (Fin q)) (cod_version d))"

definition enc_requirement :: "compiled_acceptance_requirement \<Rightarrow> jsval" where
  "enc_requirement r = JObj ((''validator'', JStr (car_validator r)) # opt_field ''version'' js_int (car_version r))"

definition enc_outcome :: "compiled_outcome \<Rightarrow> jsval" where
  "enc_outcome oc = JObj ((''id'', JStr (co_id oc)) # opt_field ''data'' enc_outcome_data (co_data oc) @
     [(''acceptance'', JArr (map enc_requirement (co_acceptance oc)))])"

fun enc_completion :: "compiled_completion_policy \<Rightarrow> jsval" where
  "enc_completion Explicit = JObj [(''mode'', JStr ''explicit'')]"
| "enc_completion (Natural oc) = JObj [(''mode'', JStr ''natural''), (''outcome'', JStr oc)]"

fun enc_join :: "join_config \<Rightarrow> jsval" where
  "enc_join JoinAll = JObj [(''strategy'', JStr ''all'')]"
| "enc_join JoinAny = JObj [(''strategy'', JStr ''any'')]"
| "enc_join (JoinQuorum q) = JObj ((''strategy'', JStr ''quorum'') # opt_field ''quorum'' js_int q)"

definition enc_input :: "compiled_input_ref \<Rightarrow> jsval" where
  "enc_input i = JObj ([(''from'', JStr (cir_from i)), (''outcome'', JStr (cir_outcome i))] @
     (if cir_triggered i then [(''when'', JStr ''triggered'')] else []))"

definition enc_node :: "compiled_node \<Rightarrow> jsval" where
  "enc_node n = JObj ([(''id'', JStr (cn_id n)), (''agent'', JStr (cn_agent n)), (''prompt'', JStr (cn_prompt n)),
     (''outcomes'', JArr (map enc_outcome (cn_outcomes n)))] @ opt_field ''completion'' enc_completion (cn_completion n) @
     opt_field ''contractRef'' enc_ref (cn_contractRef n) @ opt_field ''join'' enc_join (cn_join n) @ undef_field ''budget'' (cn_budget n) @
     opt_field ''inputs'' (\<lambda>xs. JArr (map enc_input xs)) (cn_inputs n) @ opt_field ''tools'' (\<lambda>xs. JArr (map JStr xs)) (cn_tools n) @
     undef_field ''toolPresentation'' (cn_toolPresentation n))"

definition enc_edge :: "compiled_edge \<Rightarrow> jsval" where
  "enc_edge e = JObj [(''from'', JStr (ce_from e)), (''to'', JStr (ce_to e)), (''outcome'', JStr (ce_outcome e))]"

definition enc_progress_policy :: "compiled_progress_policy \<Rightarrow> jsval" where
  "enc_progress_policy p = JObj [(''evaluator'', JStr (cpp_evaluator p)), (''version'', js_nat (cpp_version p)),
     (''subject'', JStr (cpp_subject p)), (''maxUnchanged'', js_nat (cpp_maxUnchanged p))]"

definition enc_group :: "compiled_loop_group \<Rightarrow> jsval" where
  "enc_group g = JObj ([(''id'', JStr (clg_id g)), (''nodes'', JArr (map JStr (clg_nodes g))), (''maxTraversals'', js_nat (clg_maxTraversals g)),
     (''continuationOutcome'', JStr (clg_continuationOutcome g)), (''exitOutcome'', JStr (clg_exitOutcome g))] @
     opt_field ''progress'' enc_progress_policy (clg_progress g))"

definition enc_terminal :: "compiled_terminal_outcome \<Rightarrow> jsval" where
  "enc_terminal t = JObj [(''nodeId'', JStr (cto_nodeId t)), (''outcome'', JStr (cto_outcome t))]"

definition enc_unresolved :: "compiled_unresolved_requirement \<Rightarrow> jsval" where
  "enc_unresolved u = JObj ([(''nodeId'', JStr (cur_nodeId u)), (''outcomeId'', JStr (cur_outcomeId u)), (''validator'', JStr (cur_validator u))] @
     opt_field ''version'' js_int (cur_version u) @ opt_field ''reason'' JStr (cur_reason u))"

definition enc_unauthorized :: "compiled_unauthorized_completion \<Rightarrow> jsval" where
  "enc_unauthorized u = JObj ([(''nodeId'', JStr (cuc_nodeId u)), (''outcome'', JStr (cuc_outcome u)), (''code'', JStr (cuc_code u))] @
     opt_field ''request'' (\<lambda>(i, r). JObj [(''id'', JStr i), (''revision'', JStr r)]) (cuc_request u))"

fun enc_executability :: "compiled_plan_executability \<Rightarrow> jsval" where
  "enc_executability Executable = JObj [(''kind'', JStr ''executable'')]"
| "enc_executability (Draft unresolved unauthorized) = JObj [(''kind'', JStr ''draft''), (''unresolved'', JArr (map enc_unresolved unresolved)),
     (''unauthorizedCompletions'', JArr (map enc_unauthorized unauthorized))]"

text \<open>The body \<open>contractDigest\<close> addresses: every field of the plan but its revision.\<close>

definition plan_body_fields :: "compiled_plan \<Rightarrow> (string \<times> jsval) list" where
  "plan_body_fields p = [(''graphId'', JStr (cp_graphId p)), (''declarationVersion'', js_int 3)] @ undef_field ''budget'' (cp_budget p) @
     [(''nodes'', JArr (map enc_node (cp_nodes p))), (''edges'', JArr (map enc_edge (cp_edges p))),
      (''loopGroups'', JArr (map enc_group (cp_loopGroups p))), (''contractSnapshots'', cp_contractSnapshots p),
      (''contractIdentities'', cp_contractIdentities p), (''completionPolicySnapshots'', cp_completionPolicySnapshots p),
      (''completionPolicyIdentities'', cp_completionPolicyIdentities p), (''completionAuthorizations'', cp_completionAuthorizations p),
      (''terminalOutcomes'', JArr (map enc_terminal (cp_terminalOutcomes p))), (''executability'', enc_executability (cp_executability p))]"

definition createCompiledPlan :: "(string \<Rightarrow> string) \<Rightarrow> (rat \<Rightarrow> string) \<Rightarrow> compiled_plan \<Rightarrow> digest_error + compiled_plan" where
  "createCompiledPlan sha num body =
     rbind (contractDigest sha num (JObj (plan_body_fields body))) (\<lambda>planRevision. Inr (body\<lparr>cp_planRevision := planRevision\<rparr>))"

subsection \<open>The durable record\<close>

definition nodeBindingsOf :: "compiled_node list \<Rightarrow> (string \<times> jsval) list" where
  "nodeBindingsOf nodes = foldl (\<lambda>acc n. case cn_contractRef n of None \<Rightarrow> acc | Some ref \<Rightarrow> AList.update (cn_id n) (enc_ref ref) acc) [] nodes"

definition createPersistedCompiledPlan :: "compiled_plan \<Rightarrow> jsval" where
  "createPersistedCompiledPlan plan =
     JObj (plan_body_fields plan @ [(''planRevision'', JStr (cp_planRevision plan)), (''nodeBindings'', JObj (nodeBindingsOf (cp_nodes plan)))])"

fun read_tool_names :: "jsval list \<Rightarrow> string list option" where
  "read_tool_names [] = Some []"
| "read_tool_names (tool # rest) =
     (case nonempty_string tool of None \<Rightarrow> None | Some name \<Rightarrow> map_option (\<lambda>names. name # names) (read_tool_names rest))"

text \<open>\<open>None\<close> is the answer \<open>undefined\<close>: the node declares no tools.\<close>

definition declaredNodeTools :: "jsval \<Rightarrow> string \<Rightarrow> string list option" where
  "declaredNodeTools plan nodeId =
     (case js_array (js_get plan ''nodes'') of
        None \<Rightarrow> Some []
      | Some nodes \<Rightarrow>
          (case find (\<lambda>n. isRecord n \<and> js_get n ''id'' = JStr nodeId) nodes of
             None \<Rightarrow> Some []
           | Some n \<Rightarrow>
               (let tools = js_get n ''tools'' in
                if tools = JUndef then None
                else case js_array tools of
                       None \<Rightarrow> Some []
                     | Some ts \<Rightarrow> (case read_tool_names ts of None \<Rightarrow> Some [] | Some names \<Rightarrow> Some names))))"

subsection \<open>Readers of the inspector\<close>

datatype topology_code =
    MalformedTopology | DuplicateNodeId | MissingOutcomes | UnknownEdgeEndpoint | UnknownOutcomeReference | UnknownLoopMember
  | UnknownLoopContinuationOutcome | UnknownLoopExitOutcome | LoopGroupMissingLimits | MalformedProgressPolicy
  | LoopContinuationWithoutEdge | CycleNotInLoopGroup | MissingTerminalOutcome | TerminalOutcomesInconsistent
  | UnpinnedValidatorVersion | MissingCompletionAuthorization | UnknownCompletionAuthorization | InconsistentCompletionPolicy

definition readValidatorVersion :: "jsval \<Rightarrow> int option" where
  "readValidatorVersion v = (case safe_integer v of Some i \<Rightarrow> if 0 < i then Some i else None | None \<Rightarrow> None)"

fun isFiniteNumber :: "jsval \<Rightarrow> bool" where
  "isFiniteNumber (JNum (Fin q)) = True"
| "isFiniteNumber _ = False"

abbreviation isText :: "jsval \<Rightarrow> bool" where
  "isText v \<equiv> nonempty_string v \<noteq> None"

definition ownValue :: "jsval \<Rightarrow> string \<Rightarrow> jsval" where
  "ownValue record key = (if hasOwnProperty record key then js_get record key else JUndef)"

text \<open>The terminal outcomes of a raw topology; on the JSON form of a typed plan it is \<open>terminalOutcomesOf\<close>.\<close>

definition raw_outcome_ids :: "jsval \<Rightarrow> string list option" where
  "raw_outcome_ids raw = map_option (\<lambda>os. js_set (List.map_filter (\<lambda>oc. nonempty_string (js_get oc ''id'')) os)) (js_array (js_get raw ''outcomes''))"

definition raw_bound_pairs :: "jsval list \<Rightarrow> string list" where
  "raw_bound_pairs edges = List.map_filter (\<lambda>raw.
     case (nonempty_string (js_get raw ''from''), nonempty_string (js_get raw ''outcome'')) of
       (Some f, Some oc) \<Rightarrow> Some (terminalPairKey f oc)
     | _ \<Rightarrow> None) edges"

definition raw_terminals :: "jsval list \<Rightarrow> jsval list \<Rightarrow> compiled_terminal_outcome list" where
  "raw_terminals nodes edges =
     (let collected = foldl (\<lambda>acc raw.
            case (nonempty_string (js_get raw ''id''), raw_outcome_ids raw) of
              (Some nodeId, Some ids) \<Rightarrow> terminals_of_outcomes (raw_bound_pairs edges) nodeId (sort ids) acc
            | _ \<Rightarrow> acc) ([], []) nodes
      in sort_key (\<lambda>t. (cto_nodeId t, cto_outcome t)) (snd collected))"

fun readTerminalOutcomeList :: "jsval list \<Rightarrow> compiled_terminal_outcome list option" where
  "readTerminalOutcomeList [] = Some []"
| "readTerminalOutcomeList (element # rest) =
     (case (nonempty_string (js_get element ''nodeId''), nonempty_string (js_get element ''outcome'')) of
        (Some n, Some oc) \<Rightarrow> map_option (\<lambda>ts. \<lparr>cto_nodeId = n, cto_outcome = oc\<rparr> # ts) (readTerminalOutcomeList rest)
      | _ \<Rightarrow> None)"

definition sameTerminalOutcomes :: "compiled_terminal_outcome list \<Rightarrow> compiled_terminal_outcome list \<Rightarrow> bool" where
  "sameTerminalOutcomes derived declared \<longleftrightarrow>
     length derived = length declared \<and>
     list_all2 (\<lambda>a b. cto_nodeId a = cto_nodeId b \<and> cto_outcome a = cto_outcome b) derived
       (sort_key (\<lambda>t. (cto_nodeId t, cto_outcome t)) declared)"

datatype executability_reading = ReadsExecutable | ReadsDraft | ReadsMalformed

definition unresolved_entry_ok :: "jsval \<Rightarrow> bool" where
  "unresolved_entry_ok entry \<longleftrightarrow> isText (js_get entry ''nodeId'') \<and> isText (js_get entry ''outcomeId'') \<and> isText (js_get entry ''validator'') \<and>
     (js_get entry ''version'' = JUndef \<or> isFiniteNumber (js_get entry ''version''))"

definition unauthorized_entry_ok :: "jsval \<Rightarrow> bool" where
  "unauthorized_entry_ok entry \<longleftrightarrow> isText (js_get entry ''nodeId'') \<and> isText (js_get entry ''outcome'') \<and>
     readCompletionAuthorizationIssueCode (js_get entry ''code'') \<noteq> None \<and>
     (let request = js_get entry ''request'' in request = JUndef \<or> (isText (js_get request ''id'') \<and> isText (js_get request ''revision'')))"

definition readPlanExecutability :: "jsval \<Rightarrow> executability_reading" where
  "readPlanExecutability raw =
     (if \<not> isRecord raw then ReadsMalformed
      else if js_get raw ''kind'' = JStr ''executable'' then ReadsExecutable
      else if js_get raw ''kind'' \<noteq> JStr ''draft'' then ReadsMalformed
      else case (js_array (js_get raw ''unresolved''), js_array (js_get raw ''unauthorizedCompletions'')) of
             (Some unresolved, Some unauthorized) \<Rightarrow>
               if unresolved = [] \<and> unauthorized = [] then ReadsMalformed
               else if list_all unresolved_entry_ok unresolved \<and> list_all unauthorized_entry_ok unauthorized then ReadsDraft else ReadsMalformed
           | _ \<Rightarrow> ReadsMalformed)"

subsection \<open>Nodes\<close>

type_synonym node_scan = "(string \<times> string list) list"
type_synonym acceptance_scan = "(string \<times> string \<times> jsval) list"

fun scan_outcomes :: "string \<Rightarrow> jsval list \<Rightarrow> topology_code list \<times> string list \<times> acceptance_scan" where
  "scan_outcomes nodeId [] = ([], [], [])"
| "scan_outcomes nodeId (outcome # rest) =
     (let (issues, ids, acc) = scan_outcomes nodeId rest in
      case nonempty_string (js_get outcome ''id'') of
        None \<Rightarrow> (MalformedTopology # issues, ids, acc)
      | Some i \<Rightarrow> (issues, i # ids, (nodeId, i, js_get outcome ''acceptance'') # acc))"

definition scan_node_outcomes :: "string \<Rightarrow> jsval \<Rightarrow> topology_code list \<times> string list \<times> acceptance_scan" where
  "scan_node_outcomes nodeId rawOutcomes =
     (case js_array rawOutcomes of
        None \<Rightarrow> ([MalformedTopology], [], [])
      | Some [] \<Rightarrow> ([MissingOutcomes], [], [])
      | Some os \<Rightarrow> scan_outcomes nodeId os)"

fun scan_nodes :: "node_scan \<Rightarrow> jsval list \<Rightarrow> topology_code list \<times> node_scan \<times> acceptance_scan" where
  "scan_nodes known [] = ([], known, [])"
| "scan_nodes known (raw # rest) =
     (case nonempty_string (js_get raw ''id'') of
        None \<Rightarrow> (let (issues, known', acc) = scan_nodes known rest in (MalformedTopology # issues, known', acc))
      | Some nodeId \<Rightarrow>
          if nodeId \<in> set (map fst known)
          then (let (issues, known', acc) = scan_nodes known rest in (DuplicateNodeId # issues, known', acc))
          else (let (own, ids, gates) = scan_node_outcomes nodeId (js_get raw ''outcomes'');
                    (issues, known', acc) = scan_nodes (known @ [(nodeId, ids)]) rest
                in (own @ issues, known', gates @ acc)))"

definition declares :: "node_scan \<Rightarrow> string \<Rightarrow> string \<Rightarrow> bool" where
  "declares known nodeId outcome = (case map_of known nodeId of None \<Rightarrow> False | Some ids \<Rightarrow> outcome \<in> set ids)"

subsection \<open>Edges and loop groups\<close>

definition read_edge :: "jsval \<Rightarrow> compiled_edge option" where
  "read_edge raw =
     (case (nonempty_string (js_get raw ''from''), nonempty_string (js_get raw ''to''), nonempty_string (js_get raw ''outcome'')) of
        (Some f, Some t, Some oc) \<Rightarrow> Some \<lparr>ce_from = f, ce_to = t, ce_outcome = oc\<rparr>
      | _ \<Rightarrow> None)"

definition edge_issues :: "node_scan \<Rightarrow> jsval \<Rightarrow> topology_code list" where
  "edge_issues known raw =
     (case read_edge raw of
        None \<Rightarrow> [MalformedTopology]
      | Some e \<Rightarrow>
          (if ce_from e \<in> set (map fst known) \<and> ce_to e \<in> set (map fst known) then [] else [UnknownEdgeEndpoint]) @
          (if ce_from e \<in> set (map fst known) \<and> \<not> declares known (ce_from e) (ce_outcome e) then [UnknownOutcomeReference] else []))"

fun scan_members :: "string list \<Rightarrow> jsval list \<Rightarrow> topology_code list \<times> string list" where
  "scan_members nodeIds [] = ([], [])"
| "scan_members nodeIds (member # rest) =
     (let (issues, members) = scan_members nodeIds rest in
      case nonempty_string member of
        None \<Rightarrow> (MalformedTopology # issues, members)
      | Some m \<Rightarrow> if m \<notin> set nodeIds then (UnknownLoopMember # issues, members) else (issues, m # members))"

definition continuation_issues :: "node_scan \<Rightarrow> compiled_edge list \<Rightarrow> string list \<Rightarrow> string \<Rightarrow> topology_code list" where
  "continuation_issues known edges members outcome =
     (if \<not> list_ex (\<lambda>m. declares known m outcome) members then [UnknownLoopContinuationOutcome]
      else if list_ex (\<lambda>e. ce_outcome e = outcome \<and> ce_from e \<in> set members \<and> ce_to e \<in> set members) edges then []
      else [LoopContinuationWithoutEdge])"

definition scan_group :: "node_scan \<Rightarrow> compiled_edge list \<Rightarrow> jsval \<Rightarrow> topology_code list \<times> string list" where
  "scan_group known edges raw =
     (case (nonempty_string (js_get raw ''id''), js_array (js_get raw ''nodes''), nonempty_string (js_get raw ''continuationOutcome''),
            nonempty_string (js_get raw ''exitOutcome'')) of
        (Some groupId, Some nodes, Some continuation, Some exit) \<Rightarrow>
          (let (memberIssues, members) = scan_members (map fst known) nodes in
           ((if positive_safe (js_get raw ''maxTraversals'') = None then [LoopGroupMissingLimits] else []) @
            (if js_get raw ''progress'' \<noteq> JUndef \<and> readCompiledProgressPolicy (js_get raw ''progress'') = None then [MalformedProgressPolicy] else []) @
            memberIssues @ continuation_issues known edges members continuation @
            (if list_ex (\<lambda>m. declares known m exit) members then [] else [UnknownLoopExitOutcome]), members))
      | _ \<Rightarrow> ([MalformedTopology], []))"

subsection \<open>Cycles, terminals and acceptance\<close>

definition cycle_issues :: "node_scan \<Rightarrow> compiled_edge list \<Rightarrow> string list \<Rightarrow> topology_code list" where
  "cycle_issues known edges loopMembers =
     (let cycleEdges = filter (\<lambda>e. ce_from e \<in> set (map fst known) \<and> ce_to e \<in> set (map fst known)) edges;
          (components, selfLoop) = stronglyConnectedComponents (map enc_edge cycleEdges);
          uncontained = filter (\<lambda>c. isCyclicComponent c selfLoop \<and> \<not> list_all (\<lambda>n. n \<in> set loopMembers) c) components
      in map (\<lambda>_. CycleNotInLoopGroup) uncontained)"

definition terminal_issues :: "jsval list \<Rightarrow> jsval list \<Rightarrow> jsval \<Rightarrow> topology_code list" where
  "terminal_issues nodes edges terminalOutcomes =
     (let derived = raw_terminals nodes edges;
          declared = (case js_array terminalOutcomes of None \<Rightarrow> None | Some ts \<Rightarrow> readTerminalOutcomeList ts)
      in (if derived = [] then [MissingTerminalOutcome] else []) @
         (case declared of
            None \<Rightarrow> [TerminalOutcomesInconsistent]
          | Some ts \<Rightarrow> if sameTerminalOutcomes derived ts then [] else [TerminalOutcomesInconsistent]))"

definition pinned :: "jsval \<Rightarrow> bool" where
  "pinned requirement \<longleftrightarrow> isRecord requirement \<and> isText (js_get requirement ''validator'') \<and>
     readValidatorVersion (js_get requirement ''version'') \<noteq> None"

definition acceptance_issues :: "jsval \<Rightarrow> topology_code list" where
  "acceptance_issues acceptance =
     (case js_array acceptance of
        None \<Rightarrow> [MalformedTopology]
      | Some requirements \<Rightarrow> map (\<lambda>_. UnpinnedValidatorVersion) (filter (\<lambda>r. \<not> pinned r) requirements))"

definition pinning_issues :: "jsval \<Rightarrow> acceptance_scan \<Rightarrow> topology_code list" where
  "pinning_issues executability gates =
     (case readPlanExecutability executability of
        ReadsMalformed \<Rightarrow> [MalformedTopology]
      | ReadsDraft \<Rightarrow> []
      | ReadsExecutable \<Rightarrow> concat (map (\<lambda>(nodeId, outcomeId, acceptance). acceptance_issues acceptance) gates))"

subsection \<open>Completion authorizations\<close>

definition natural_outcome :: "jsval \<Rightarrow> (string \<times> string) option" where
  "natural_outcome raw =
     (case (nonempty_string (js_get raw ''id''), nonempty_string (js_get (js_get raw ''completion'') ''outcome'')) of
        (Some nodeId, Some outcome) \<Rightarrow>
          if js_get (js_get raw ''completion'') ''mode'' = JStr ''natural'' then Some (nodeId, outcome) else None
      | _ \<Rightarrow> None)"

definition naturalOutcomes :: "jsval list \<Rightarrow> (string \<times> string) list" where
  "naturalOutcomes nodes = foldl (\<lambda>m raw. case natural_outcome raw of None \<Rightarrow> m | Some (n, oc) \<Rightarrow> AList.update n oc m) [] nodes"

text \<open>Undefined and null read as the default, as \<open>??\<close> does.\<close>

definition or_default :: "jsval \<Rightarrow> jsval \<Rightarrow> jsval" where
  "or_default v d = (if v = JUndef \<or> v = JNull then d else v)"

definition policy_content_issues :: "(string \<Rightarrow> string) \<Rightarrow> (rat \<Rightarrow> string) \<Rightarrow> jsval \<Rightarrow> string \<Rightarrow> topology_code list" where
  "policy_content_issues sha num snapshots digest =
     (case readCompletionPolicyBody (ownValue snapshots digest) of
        None \<Rightarrow> [InconsistentCompletionPolicy]
      | Some body \<Rightarrow>
          if contractDigest sha num (enc_policy_body body) = Inr digest then [] else [InconsistentCompletionPolicy])"

definition policy_identity_issues :: "jsval \<Rightarrow> string \<Rightarrow> string \<Rightarrow> string \<Rightarrow> topology_code list" where
  "policy_identity_issues identities i revision digest =
     (if ownValue (ownValue identities i) revision = JStr digest then [] else [InconsistentCompletionPolicy])"

fun scan_authorizations ::
  "(string \<Rightarrow> string) \<Rightarrow> (rat \<Rightarrow> string) \<Rightarrow> (string \<times> string) list \<Rightarrow> jsval \<Rightarrow> jsval \<Rightarrow> string list \<Rightarrow> jsval list \<Rightarrow> topology_code list \<times> string list" where
  "scan_authorizations sha num natural snapshots identities pairs [] = ([], pairs)"
| "scan_authorizations sha num natural snapshots identities pairs (raw # rest) =
     (case (nonempty_string (js_get raw ''nodeId''), nonempty_string (js_get raw ''outcome'')) of
        (Some nodeId, Some outcome) \<Rightarrow>
          (let policy = js_get raw ''policy'' in
           case (nonempty_string (js_get policy ''id''), nonempty_string (js_get policy ''revision''), nonempty_string (js_get policy ''digest'')) of
             (Some i, Some revision, Some digest) \<Rightarrow>
               if terminalPairKey nodeId outcome \<in> set pairs
               then (let (issues, ps) = scan_authorizations sha num natural snapshots identities pairs rest in (MalformedTopology # issues, ps))
               else (let (issues, ps) = scan_authorizations sha num natural snapshots identities (pairs @ [terminalPairKey nodeId outcome]) rest
                     in ((if map_of natural nodeId = Some outcome then [] else [UnknownCompletionAuthorization]) @
                         policy_content_issues sha num snapshots digest @ policy_identity_issues identities i revision digest @ issues, ps))
           | _ \<Rightarrow> (let (issues, ps) = scan_authorizations sha num natural snapshots identities pairs rest in (MalformedTopology # issues, ps)))
      | _ \<Rightarrow> (let (issues, ps) = scan_authorizations sha num natural snapshots identities pairs rest in (MalformedTopology # issues, ps)))"

record completion_topology =
  ct_authorizations :: jsval
  ct_snapshots :: jsval
  ct_identities :: jsval

definition completion_issues ::
  "(string \<Rightarrow> string) \<Rightarrow> (rat \<Rightarrow> string) \<Rightarrow> jsval list \<Rightarrow> jsval \<Rightarrow> completion_topology \<Rightarrow> topology_code list" where
  "completion_issues sha num nodes executability completion =
     (let natural = naturalOutcomes nodes;
          snapshots = or_default (ct_snapshots completion) (JObj []);
          identities = or_default (ct_identities completion) (JObj [])
      in case js_array (or_default (ct_authorizations completion) (JArr [])) of
           None \<Rightarrow> [MalformedTopology]
         | Some authorizations \<Rightarrow>
             (let (issues, pairs) = scan_authorizations sha num natural snapshots identities [] authorizations
              in (if isRecord snapshots then [] else [MalformedTopology]) @ (if isRecord identities then [] else [MalformedTopology]) @ issues @
                 (if readPlanExecutability executability = ReadsExecutable
                  then map (\<lambda>_. MissingCompletionAuthorization)
                         (filter (\<lambda>(n, oc). terminalPairKey n oc \<notin> set pairs) (sort_key fst natural))
                  else [])))"

subsection \<open>The inspector\<close>

definition inspectCompiledTopology ::
  "(string \<Rightarrow> string) \<Rightarrow> (rat \<Rightarrow> string) \<Rightarrow> jsval list \<Rightarrow> jsval list \<Rightarrow> jsval list \<Rightarrow> jsval \<Rightarrow> jsval \<Rightarrow> completion_topology \<Rightarrow>
   topology_code list \<times> string list" where
  "inspectCompiledTopology sha num nodes edges loopGroups terminalOutcomes executability completion =
     (let (nodeIssues, known, gates) = scan_nodes [] nodes;
          readableEdges = List.map_filter read_edge edges;
          groups = map (scan_group known readableEdges) loopGroups;
          loopMembers = js_set (concat (map snd groups))
      in (nodeIssues @ concat (map (edge_issues known) edges) @ concat (map fst groups) @
          cycle_issues known readableEdges loopMembers @ terminal_issues nodes edges terminalOutcomes @
          pinning_issues executability gates @ completion_issues sha num nodes executability completion,
          map fst known))"

end
