(* ===== verification/WorkerTools.thy ===== *)
theory WorkerTools
  imports Topology
begin

text \<open>
  Worker tools (\<open>graph/domain/worker-tools.ts\<close>): which host tools are task tools, which of them a worker
  inherits under a policy, and the presentation a node may declare. A thrown \<open>TypeError\<close> is the left side of
  a sum. Trimming removes the white space that is a single code unit of a HOL character.
\<close>

definition starts_with :: "string \<Rightarrow> string \<Rightarrow> bool" where
  "starts_with s prefix \<longleftrightarrow> take (length prefix) s = prefix"

definition js_space :: "char \<Rightarrow> bool" where
  "js_space c \<longleftrightarrow> (of_char c :: nat) \<in> {9, 10, 11, 12, 13, 32, 160}"

definition js_trim :: "string \<Rightarrow> string" where
  "js_trim s = rev (dropWhile js_space (rev (dropWhile js_space s)))"

subsection \<open>Task tools\<close>

definition canonical_tool :: "string \<Rightarrow> string" where
  "canonical_tool name = (if starts_with name ''rb_'' then drop 3 name else name)"

definition isWorkerTaskTool :: "string \<Rightarrow> bool" where
  "isWorkerTaskTool name \<longleftrightarrow>
     (let canonical = canonical_tool name in
      \<not> starts_with canonical ''graph_'' \<and> \<not> starts_with canonical ''team_'' \<and> \<not> starts_with canonical ''dispatch_'' \<and>
      \<not> starts_with canonical ''loop_'' \<and> canonical \<notin> set [''dispatch'', ''task'', ''task_retry'', ''session_fork''])"

definition inheritedWorkerTaskTools :: "string list \<Rightarrow> (string \<times> bool) list \<Rightarrow> string list" where
  "inheritedWorkerTaskTools names policy =
     filter (\<lambda>name.
       if \<not> isWorkerTaskTool name then False
       else case map_of policy (canonical_tool name) of
              Some exact \<Rightarrow> exact
            | None \<Rightarrow>
                (case sort_key (\<lambda>key. - int (length key))
                        (filter (\<lambda>key. key \<noteq> [] \<and> last key = CHR ''*'' \<and> starts_with (canonical_tool name) (butlast key)) (map fst policy)) of
                   [] \<Rightarrow> True
                 | pattern # _ \<Rightarrow> map_of policy pattern \<noteq> Some False)) names"

subsection \<open>Presentation\<close>

datatype presentation_mode = NativeMode | DiscoverMode | CodeMode

record tool_presentation =
  tp_mode :: presentation_mode
  tp_preload :: "string list option"

fun mode_text :: "presentation_mode \<Rightarrow> string" where
  "mode_text NativeMode = ''native''"
| "mode_text DiscoverMode = ''discover''"
| "mode_text CodeMode = ''code''"

definition read_mode :: "jsval \<Rightarrow> presentation_mode option" where
  "read_mode v = find (\<lambda>m. JStr (mode_text m) = v) [NativeMode, DiscoverMode, CodeMode]"

definition enc_presentation :: "tool_presentation \<Rightarrow> jsval" where
  "enc_presentation p = JObj ((''mode'', JStr (mode_text (tp_mode p))) # opt_field ''preload'' (\<lambda>xs. JArr (map JStr xs)) (tp_preload p))"

definition preload_name :: "jsval \<Rightarrow> string option" where
  "preload_name v =
     (case v of
        JStr s \<Rightarrow> if js_trim s = [] \<or> CHR ''*'' \<in> set s \<or> starts_with (js_trim s) ''graph_'' then None else Some (js_trim s)
      | _ \<Rightarrow> None)"

fun preload_names :: "string list \<Rightarrow> jsval list \<Rightarrow> string list option" where
  "preload_names names [] = Some names"
| "preload_names names (v # rest) =
     (case preload_name v of None \<Rightarrow> None | Some name \<Rightarrow> preload_names (set_add name names) rest)"

definition normalizeWorkerToolPresentation :: "jsval \<Rightarrow> string + tool_presentation option" where
  "normalizeWorkerToolPresentation v =
     (if v = JUndef then Inr None
      else if \<not> isRecord v then Inl ''toolPresentation must be an object''
      else if \<not> only_keys v [''mode'', ''preload''] then Inl ''unknown toolPresentation field''
      else case read_mode (js_get v ''mode'') of
             None \<Rightarrow> Inl ''toolPresentation.mode must be native, discover or code''
           | Some mode \<Rightarrow>
               if js_get v ''preload'' = JUndef then Inr (Some \<lparr>tp_mode = mode, tp_preload = None\<rparr>)
               else case js_array (js_get v ''preload'') of
                      None \<Rightarrow> Inl ''toolPresentation.preload must be an array''
                    | Some raw \<Rightarrow>
                        if length raw > 32 then Inl ''toolPresentation.preload must be an array''
                        else case preload_names [] raw of
                               None \<Rightarrow> Inl ''toolPresentation.preload must contain exact names''
                             | Some names \<Rightarrow> Inr (Some \<lparr>tp_mode = mode, tp_preload = Some (sort names)\<rparr>))"

definition workerPresentationTools :: "tool_presentation option \<Rightarrow> string list" where
  "workerPresentationTools p =
     (case p of
        None \<Rightarrow> []
      | Some p \<Rightarrow>
          (case tp_mode p of
             DiscoverMode \<Rightarrow> [''graph_worker_tools'']
           | CodeMode \<Rightarrow> [''graph_worker_tools'', ''graph_worker_code'']
           | NativeMode \<Rightarrow> []))"

definition preload_of :: "tool_presentation option \<Rightarrow> string list" where
  "preload_of p = (case p of None \<Rightarrow> [] | Some p \<Rightarrow> (case tp_preload p of None \<Rightarrow> [] | Some names \<Rightarrow> names))"

definition validateWorkerToolPreload :: "tool_presentation option \<Rightarrow> string + unit" where
  "validateWorkerToolPreload p = ensure (list_all isWorkerTaskTool (preload_of p)) ''not a task tool''"

text \<open>The two calls as the compiler and the readers of a plan make them.\<close>

definition read_presentation :: "jsval \<Rightarrow> string + tool_presentation option" where
  "read_presentation v =
     rbind (normalizeWorkerToolPresentation v) (\<lambda>p. rbind (validateWorkerToolPreload p) (\<lambda>_. Inr p))"

definition declaredNodeToolPresentation :: "jsval \<Rightarrow> string \<Rightarrow> tool_presentation option" where
  "declaredNodeToolPresentation plan nodeId =
     (case js_array (js_get plan ''nodes'') of
        None \<Rightarrow> None
      | Some nodes \<Rightarrow>
          (case find (\<lambda>n. isRecord n \<and> js_get n ''id'' = JStr nodeId) nodes of
             None \<Rightarrow> None
           | Some n \<Rightarrow> (case read_presentation (js_get n ''toolPresentation'') of Inl _ \<Rightarrow> None | Inr p \<Rightarrow> p)))"

subsection \<open>A normalized presentation reads as itself\<close>

lemma set_js_trim: "set (js_trim s) \<subseteq> set s"
  by (auto simp: js_trim_def dest!: set_dropWhileD)

lemma rev_dropWhile_rev: "\<exists>suf. xs = rev (dropWhile P (rev xs)) @ suf"
proof
  have "rev xs = takeWhile P (rev xs) @ dropWhile P (rev xs)" by simp
  then have "rev (rev xs) = rev (takeWhile P (rev xs) @ dropWhile P (rev xs))" by (rule arg_cong)
  then show "xs = rev (dropWhile P (rev xs)) @ rev (takeWhile P (rev xs))" by (simp only: rev_rev_ident rev_append)
qed

lemma js_trim_idem [simp]: "js_trim (js_trim s) = js_trim s"
proof (cases "js_trim s = []")
  case True
  then show ?thesis by (simp only: True) (simp add: js_trim_def)
next
  case False
  let ?d = "dropWhile js_space s"
  have ne: "dropWhile js_space (rev ?d) \<noteq> []" using False by (auto simp: js_trim_def)
  have "\<not> js_space (hd (dropWhile js_space (rev ?d)))" by (rule hd_dropWhile [OF ne])
  then have tail: "dropWhile js_space (dropWhile js_space (rev ?d)) = dropWhile js_space (rev ?d)"
    by (cases "dropWhile js_space (rev ?d)") simp_all
  have "?d \<noteq> []"
  proof
    assume "?d = []"
    then have "dropWhile js_space (rev ?d) = []" by (simp only: rev.simps dropWhile.simps)
    with ne show False by blast
  qed
  then have "\<not> js_space (hd ?d)" by (rule hd_dropWhile)
  moreover obtain suf where "?d = js_trim s @ suf" using rev_dropWhile_rev [of ?d js_space] by (auto simp: js_trim_def)
  then have "hd ?d = hd (js_trim s)" using False by (cases "js_trim s") simp_all
  ultimately have "dropWhile js_space (js_trim s) = js_trim s" using False by (cases "js_trim s") simp_all
  with tail show ?thesis by (simp add: js_trim_def)
qed

lemma preload_name_JStr:
  "preload_name v = Some n \<Longrightarrow> preload_name (JStr n) = Some n"
proof -
  assume a: "preload_name v = Some n"
  then obtain s where v: "v = JStr s" by (cases v) (simp_all add: preload_name_def)
  have s: "n = js_trim s" "js_trim s \<noteq> []" "CHR ''*'' \<notin> set s" "\<not> starts_with (js_trim s) ''graph_''"
    using a by (simp_all add: preload_name_def v split: if_splits)
  have "CHR ''*'' \<notin> set (js_trim s)" using s(3) set_js_trim [of s] by blast
  then show ?thesis by (simp add: preload_name_def s)
qed

lemma preload_names_Some:
  assumes "preload_names acc vs = Some names" and "\<forall>n \<in> set acc. preload_name (JStr n) = Some n" and "distinct acc"
  shows "(\<forall>n \<in> set names. preload_name (JStr n) = Some n) \<and> distinct names \<and> length names \<le> length acc + length vs"
  using assms
proof (induction vs arbitrary: acc)
  case (Cons v vs)
  from Cons.prems(1) obtain n where n: "preload_name v = Some n" "preload_names (set_add n acc) vs = Some names" by (auto split: option.splits)
  have len: "length (set_add n acc) \<le> Suc (length acc)" by (simp add: set_add_def)
  have "\<forall>m \<in> set (set_add n acc). preload_name (JStr m) = Some m"
    unfolding set_set_add using Cons.prems(2) preload_name_JStr [OF n(1)] by blast
  note IH = Cons.IH [OF n(2) this, unfolded distinct_set_add, OF Cons.prems(3)]
  then have "length names \<le> length acc + length (v # vs)" using len by (simp only: list.size) linarith
  with IH show ?case by blast
qed simp

lemma preload_names_JStr:
  "\<forall>n \<in> set names. preload_name (JStr n) = Some n \<Longrightarrow> distinct (acc @ names) \<Longrightarrow> preload_names acc (map JStr names) = Some (acc @ names)"
proof (induction names arbitrary: acc)
  case (Cons n names)
  then have "set_add n acc = acc @ [n]" by (auto simp: set_add_def)
  with Cons show ?case by simp
qed simp

lemma read_mode_text [simp]: "read_mode (JStr (mode_text m)) = Some m"
  by (cases m) (simp_all add: read_mode_def)

lemma normalize_enc:
  assumes "normalizeWorkerToolPresentation v = Inr (Some p)"
  shows "normalizeWorkerToolPresentation (enc_presentation p) = Inr (Some p)"
proof (cases "tp_preload p")
  case None
  then show ?thesis
    by (cases p) (simp add: normalizeWorkerToolPresentation_def enc_presentation_def only_keys_def)
next
  case (Some names)
  from assms obtain raw ns where r: "length raw \<le> 32" "preload_names [] raw = Some ns" "p = \<lparr>tp_mode = tp_mode p, tp_preload = Some (sort ns)\<rparr>"
    using Some unfolding normalizeWorkerToolPresentation_def
    by (auto simp: linorder_not_less split: if_splits option.splits)
  then have names: "names = sort ns" using Some by (metis option.inject tool_presentation.select_convs(2))
  note ns = preload_names_Some [OF r(2)]
  have "preload_names [] (map JStr names) = Some names"
    using ns by (subst preload_names_JStr) (auto simp: names)
  moreover have "length names \<le> 32" using ns r by (simp add: names)
  moreover have "sort names = names" by (simp add: names sort_key_id_if_sorted)
  ultimately show ?thesis using Some
    by (cases p) (simp add: normalizeWorkerToolPresentation_def enc_presentation_def only_keys_def)
qed

end
