(* ===== verification/Budget.thy ===== *)
theory Budget
  imports JsValue
begin

text \<open>
  Declared budgets and recorded usage (\<open>graph/domain/budget.ts\<close>): reading the run limit and one node's
  ceilings from untrusted plan content, the overruns of recorded usage, and the report that sets the
  declared limits of every plan node against its recorded usage.

  Amounts are exact rationals; the rounding of floating-point sums is not modelled. A thrown error
  and the text of a refusal are represented by the refusal's code and key.
\<close>

subsection \<open>Data\<close>

record run_budget_spec =
  rb_max_executions :: "nat option"

record node_budget_limits =
  bl_durationMs :: "rat option"
  bl_inputTokens :: "rat option"
  bl_outputTokens :: "rat option"
  bl_costUsd :: "rat option"

record budget_usage =
  bu_executions :: nat
  bu_durationMs :: rat
  bu_inputTokens :: rat
  bu_outputTokens :: rat
  bu_costUsd :: rat

record budget_state =
  bs_sessionsSpawned :: nat
  bs_totalInputTokens :: rat
  bs_totalOutputTokens :: rat
  bs_totalCost :: rat

datatype budget_limit_kind = DurationMs | InputTokens | OutputTokens | CostUsd

record budget_overrun =
  bo_nodeId :: string
  bo_kind :: budget_limit_kind
  bo_limit :: rat
  bo_used :: rat
  bo_overBy :: rat

datatype budget_refusal_code = BudgetLimitUnauthorized | BudgetLimitInvalid

datatype budget_limit_refusal = BudgetLimitRefusal budget_refusal_code string

definition NO_BUDGET_LIMITS :: node_budget_limits where
  "NO_BUDGET_LIMITS = \<lparr>bl_durationMs = None, bl_inputTokens = None, bl_outputTokens = None, bl_costUsd = None\<rparr>"

definition ZERO_BUDGET_USAGE :: budget_usage where
  "ZERO_BUDGET_USAGE =
     \<lparr>bu_executions = 0, bu_durationMs = 0, bu_inputTokens = 0, bu_outputTokens = 0, bu_costUsd = 0\<rparr>"

definition addBudgetUsage :: "budget_usage \<Rightarrow> budget_usage \<Rightarrow> budget_usage" where
  "addBudgetUsage l r =
     \<lparr>bu_executions = bu_executions l + bu_executions r, bu_durationMs = bu_durationMs l + bu_durationMs r,
      bu_inputTokens = bu_inputTokens l + bu_inputTokens r, bu_outputTokens = bu_outputTokens l + bu_outputTokens r,
      bu_costUsd = bu_costUsd l + bu_costUsd r\<rparr>"

subsection \<open>Reading declared limits\<close>

definition readRunBudget :: "jsval \<Rightarrow> string + run_budget_spec option" where
  "readRunBudget v =
     (if v = JUndef then Inr None
      else if \<not> isRecord v then Inl ''run budget must be an object''
      else if \<not> only_keys v [''max_executions''] then Inl ''unsupported run budget field''
      else let count = js_get v ''max_executions''
           in if count = JUndef then Inr (Some \<lparr>rb_max_executions = None\<rparr>)
              else case nonneg_safe count of
                None \<Rightarrow> Inl ''max_executions must be a non-negative safe integer''
              | Some n \<Rightarrow> Inr (Some \<lparr>rb_max_executions = Some n\<rparr>))"

definition BUDGET_KEY_DIMENSIONS :: "(string \<times> budget_limit_kind) list" where
  "BUDGET_KEY_DIMENSIONS =
     [(''max_input_tokens'', InputTokens), (''max_output_tokens'', OutputTokens),
      (''max_cost_usd'', CostUsd), (''timeout_ms'', DurationMs)]"

definition BUDGET_LIMIT_FIELDS :: "budget_limit_kind list" where
  "BUDGET_LIMIT_FIELDS = [DurationMs, InputTokens, OutputTokens, CostUsd]"

text \<open>The field of a limits record and of a usage reading that carries a dimension.\<close>

fun limit_field :: "budget_limit_kind \<Rightarrow> node_budget_limits \<Rightarrow> rat option" where
  "limit_field DurationMs l = bl_durationMs l"
| "limit_field InputTokens l = bl_inputTokens l"
| "limit_field OutputTokens l = bl_outputTokens l"
| "limit_field CostUsd l = bl_costUsd l"

fun set_limit_field :: "budget_limit_kind \<Rightarrow> rat \<Rightarrow> node_budget_limits \<Rightarrow> node_budget_limits" where
  "set_limit_field DurationMs v l = l\<lparr>bl_durationMs := Some v\<rparr>"
| "set_limit_field InputTokens v l = l\<lparr>bl_inputTokens := Some v\<rparr>"
| "set_limit_field OutputTokens v l = l\<lparr>bl_outputTokens := Some v\<rparr>"
| "set_limit_field CostUsd v l = l\<lparr>bl_costUsd := Some v\<rparr>"

fun usage_field :: "budget_limit_kind \<Rightarrow> budget_usage \<Rightarrow> rat" where
  "usage_field DurationMs u = bu_durationMs u"
| "usage_field InputTokens u = bu_inputTokens u"
| "usage_field OutputTokens u = bu_outputTokens u"
| "usage_field CostUsd u = bu_costUsd u"

text \<open>\<open>typeof value === "number" && Number.isFinite(value) && value >= 0\<close>.\<close>

fun finite_amount :: "jsval \<Rightarrow> rat option" where
  "finite_amount (JNum (Fin q)) = (if q < 0 then None else Some q)"
| "finite_amount _ = None"

fun read_limit_keys ::
  "jsval \<Rightarrow> string list \<Rightarrow> node_budget_limits \<Rightarrow> budget_limit_refusal + node_budget_limits" where
  "read_limit_keys spec [] limits = Inr limits"
| "read_limit_keys spec (key # keys) limits =
     (if key = ''max_retries'' then Inl (BudgetLimitRefusal BudgetLimitUnauthorized key)
      else case map_of BUDGET_KEY_DIMENSIONS key of
        None \<Rightarrow> Inl (BudgetLimitRefusal BudgetLimitUnauthorized key)
      | Some dimension \<Rightarrow>
          (let v = js_get spec key
           in if v = JUndef then read_limit_keys spec keys limits
              else case finite_amount v of
                None \<Rightarrow> Inl (BudgetLimitRefusal BudgetLimitInvalid key)
              | Some amount \<Rightarrow>
                  if key = ''timeout_ms'' \<and> amount = 0 then read_limit_keys spec keys limits
                  else read_limit_keys spec keys (set_limit_field dimension amount limits)))"

definition nodeBudgetLimitsOf :: "jsval \<Rightarrow> budget_limit_refusal + node_budget_limits" where
  "nodeBudgetLimitsOf spec =
     (if spec = JUndef then Inr NO_BUDGET_LIMITS
      else if \<not> isRecord spec then Inl (BudgetLimitRefusal BudgetLimitInvalid ''$'')
      else read_limit_keys spec (js_keys spec) NO_BUDGET_LIMITS)"

definition hasBudgetLimits :: "node_budget_limits \<Rightarrow> bool" where
  "hasBudgetLimits l =
     (bl_durationMs l \<noteq> None \<or> bl_inputTokens l \<noteq> None \<or> bl_outputTokens l \<noteq> None \<or> bl_costUsd l \<noteq> None)"

subsection \<open>Overruns and the report\<close>

definition compare_limit :: "string \<Rightarrow> budget_limit_kind \<Rightarrow> rat option \<Rightarrow> rat \<Rightarrow> budget_overrun list" where
  "compare_limit nodeId kind limit v =
     (case limit of
        None \<Rightarrow> []
      | Some l \<Rightarrow> if v \<le> l then []
                  else [\<lparr>bo_nodeId = nodeId, bo_kind = kind, bo_limit = l, bo_used = v, bo_overBy = v - l\<rparr>])"

definition budgetOverrunsOf :: "string \<Rightarrow> node_budget_limits \<Rightarrow> budget_usage \<Rightarrow> budget_overrun list" where
  "budgetOverrunsOf nodeId limits used =
     concat (map (\<lambda>kind. compare_limit nodeId kind (limit_field kind limits) (usage_field kind used))
       BUDGET_LIMIT_FIELDS)"

record budget_node_facts =
  nf_nodeId :: string
  nf_executions :: nat
  nf_used :: budget_usage
  nf_reserved :: budget_usage
  nf_unknownUsageAttempts :: nat

record budget_report_node =
  rn_nodeId :: string
  rn_limits :: node_budget_limits
  rn_executions :: nat
  rn_used :: budget_usage
  rn_reserved :: budget_usage
  rn_unknownUsageAttempts :: nat
  rn_overruns :: "budget_overrun list"

record budget_report =
  br_graphId :: string
  br_runId :: "string option"
  br_planRevision :: string
  br_runLimits :: "run_budget_spec option"
  br_nodes :: "budget_report_node list"
  br_totals :: budget_usage
  br_reservedTotals :: budget_usage
  br_unknownUsageAttempts :: nat
  br_overruns :: "budget_overrun list"

record report_acc =
  ra_totals :: budget_usage
  ra_reservedTotals :: budget_usage
  ra_unknown :: nat
  ra_overruns :: "budget_overrun list"
  ra_nodes :: "budget_report_node list"

definition report_step ::
  "(string \<rightharpoonup> budget_node_facts) \<Rightarrow> string \<times> node_budget_limits \<Rightarrow> report_acc \<Rightarrow> report_acc" where
  "report_step byNode node acc =
     (let own = byNode (fst node);
          used = (case own of None \<Rightarrow> ZERO_BUDGET_USAGE | Some f \<Rightarrow> nf_used f);
          reserved = (case own of None \<Rightarrow> ZERO_BUDGET_USAGE | Some f \<Rightarrow> nf_reserved f);
          executions = (case own of None \<Rightarrow> 0 | Some f \<Rightarrow> nf_executions f);
          unknown = (case own of None \<Rightarrow> 0 | Some f \<Rightarrow> nf_unknownUsageAttempts f);
          nodeOverruns = budgetOverrunsOf (fst node) (snd node) used
      in \<lparr>ra_totals = addBudgetUsage (ra_totals acc) (used\<lparr>bu_executions := executions\<rparr>),
          ra_reservedTotals = addBudgetUsage (ra_reservedTotals acc) reserved,
          ra_unknown = ra_unknown acc + unknown,
          ra_overruns = ra_overruns acc @ nodeOverruns,
          ra_nodes = ra_nodes acc @
            [\<lparr>rn_nodeId = fst node, rn_limits = snd node, rn_executions = executions, rn_used = used,
              rn_reserved = reserved, rn_unknownUsageAttempts = unknown, rn_overruns = nodeOverruns\<rparr>]\<rparr>)"

definition buildBudgetReport ::
  "string \<Rightarrow> string option \<Rightarrow> string \<Rightarrow> run_budget_spec option \<Rightarrow> (string \<times> node_budget_limits) list \<Rightarrow>
   budget_node_facts list \<Rightarrow> budget_report" where
  "buildBudgetReport graphId runId planRevision runLimits nodes usage =
     (let byNode = map_of (rev (map (\<lambda>f. (nf_nodeId f, f)) usage));
          acc = fold (report_step byNode) nodes
                  \<lparr>ra_totals = ZERO_BUDGET_USAGE, ra_reservedTotals = ZERO_BUDGET_USAGE, ra_unknown = 0,
                   ra_overruns = [], ra_nodes = []\<rparr>
      in \<lparr>br_graphId = graphId, br_runId = runId, br_planRevision = planRevision, br_runLimits = runLimits,
          br_nodes = ra_nodes acc, br_totals = ra_totals acc, br_reservedTotals = ra_reservedTotals acc,
          br_unknownUsageAttempts = ra_unknown acc, br_overruns = ra_overruns acc\<rparr>)"

definition budgetStateOf :: "budget_usage \<Rightarrow> budget_state" where
  "budgetStateOf u =
     \<lparr>bs_sessionsSpawned = bu_executions u, bs_totalInputTokens = bu_inputTokens u,
      bs_totalOutputTokens = bu_outputTokens u, bs_totalCost = bu_costUsd u\<rparr>"

subsection \<open>What a reading admits\<close>

definition nonneg_limits :: "node_budget_limits \<Rightarrow> bool" where
  "nonneg_limits l \<longleftrightarrow> (\<forall>k v. limit_field k l = Some v \<longrightarrow> 0 \<le> v)"

lemma limit_field_set [simp]:
  "limit_field k (set_limit_field j v l) = (if k = j then Some v else limit_field k l)"
  by (cases k; cases j) simp_all

lemma nonneg_limits_set: "nonneg_limits l \<Longrightarrow> 0 \<le> v \<Longrightarrow> nonneg_limits (set_limit_field k v l)"
  by (simp add: nonneg_limits_def)

lemma finite_amount_nonneg: "finite_amount v = Some q \<Longrightarrow> 0 \<le> q"
  by (cases v rule: finite_amount.cases) (auto split: if_splits)

lemma read_limit_keys_nonneg:
  "read_limit_keys spec ks l = Inr l' \<Longrightarrow> nonneg_limits l \<Longrightarrow> nonneg_limits l'"
proof (induction ks arbitrary: l)
  case (Cons k ks)
  then show ?case
    by (auto simp: Let_def split: if_splits option.splits dest!: finite_amount_nonneg intro: nonneg_limits_set)
qed simp

lemma read_limit_keys_authorized:
  "read_limit_keys spec ks l = Inr l' \<Longrightarrow> k \<in> set ks \<Longrightarrow> k \<in> fst ` set BUDGET_KEY_DIMENSIONS"
proof (induction ks arbitrary: l)
  case (Cons j ks)
  then show ?case
    by (auto simp: Let_def split: if_splits option.splits dest!: map_of_SomeD intro: rev_image_eqI)
qed simp

text \<open>The ceiling a reading takes for a key: none for an absent property and for a zero timeout.\<close>

definition declared_ceiling :: "jsval \<Rightarrow> string \<Rightarrow> rat option" where
  "declared_ceiling spec key =
     (case finite_amount (js_get spec key) of
        None \<Rightarrow> None
      | Some q \<Rightarrow> if key = ''timeout_ms'' \<and> q = 0 then None else Some q)"

lemma BUDGET_KEY_DIMENSIONS_inj:
  "(a, k) \<in> set BUDGET_KEY_DIMENSIONS \<Longrightarrow> (b, k) \<in> set BUDGET_KEY_DIMENSIONS \<Longrightarrow> a = b"
  by (auto simp: BUDGET_KEY_DIMENSIONS_def)

lemma map_of_BUDGET_KEY_DIMENSIONS:
  "map_of BUDGET_KEY_DIMENSIONS a = Some k \<longleftrightarrow> (a, k) \<in> set BUDGET_KEY_DIMENSIONS"
  by (rule map_of_eq_Some_iff) (simp add: BUDGET_KEY_DIMENSIONS_def)

lemma read_limit_keys_field:
  assumes "read_limit_keys spec ks l = Inr l'" and "(key, k) \<in> set BUDGET_KEY_DIMENSIONS"
  shows "limit_field k l' =
    (if key \<in> set ks \<and> declared_ceiling spec key \<noteq> None then declared_ceiling spec key else limit_field k l)"
  using assms(1)
proof (induction ks arbitrary: l)
  case (Cons j ks)
  from Cons.prems obtain dim where dim: "(j, dim) \<in> set BUDGET_KEY_DIMENSIONS"
    by (auto simp: map_of_BUDGET_KEY_DIMENSIONS split: if_splits option.splits)
  then have map: "map_of BUDGET_KEY_DIMENSIONS j = Some dim"
    by (simp add: map_of_BUDGET_KEY_DIMENSIONS)
  have same: "dim = k \<longleftrightarrow> j = key"
    using BUDGET_KEY_DIMENSIONS_inj dim assms(2) map map_of_BUDGET_KEY_DIMENSIONS
    by (metis option.inject)
  have undef: "js_get spec j = JUndef \<Longrightarrow> declared_ceiling spec j = None"
    by (simp add: declared_ceiling_def)
  show ?case
    using Cons.prems Cons.IH same undef
    by (auto simp: map Let_def declared_ceiling_def split: if_splits option.splits)
qed simp

lemma nodeBudgetLimitsOf_field:
  assumes "nodeBudgetLimitsOf spec = Inr l" and "(key, k) \<in> set BUDGET_KEY_DIMENSIONS"
  shows "limit_field k l = declared_ceiling spec key"
proof (cases "spec = JUndef")
  case True
  with assms show ?thesis by (cases k) (auto simp: nodeBudgetLimitsOf_def NO_BUDGET_LIMITS_def declared_ceiling_def)
next
  case False
  with assms(1) have r: "isRecord spec" "read_limit_keys spec (js_keys spec) NO_BUDGET_LIMITS = Inr l"
    by (auto simp: nodeBudgetLimitsOf_def split: if_splits)
  have none: "limit_field k NO_BUDGET_LIMITS = None" by (cases k) (simp_all add: NO_BUDGET_LIMITS_def)
  have absent: "key \<notin> set (js_keys spec) \<Longrightarrow> declared_ceiling spec key = None"
    using r(1) by (cases spec) (auto simp: declared_ceiling_def split: option.splits dest!: map_of_SomeD intro: rev_image_eqI)
  show ?thesis
    using read_limit_keys_field [OF r(2) assms(2)] none absent by (cases "declared_ceiling spec key") auto
qed

lemma budgetOverrunsOf_iff:
  "ov \<in> set (budgetOverrunsOf i l u) \<longleftrightarrow>
     (\<exists>lim. limit_field (bo_kind ov) l = Some lim \<and> lim < usage_field (bo_kind ov) u \<and>
        ov = \<lparr>bo_nodeId = i, bo_kind = bo_kind ov, bo_limit = lim, bo_used = usage_field (bo_kind ov) u,
              bo_overBy = usage_field (bo_kind ov) u - lim\<rparr>)"
proof -
  have all: "k \<in> set BUDGET_LIMIT_FIELDS" for k by (cases k) (simp_all add: BUDGET_LIMIT_FIELDS_def)
  have "ov \<in> set (compare_limit i k lim v) \<longleftrightarrow> (\<exists>l. lim = Some l \<and> l < v \<and>
      ov = \<lparr>bo_nodeId = i, bo_kind = k, bo_limit = l, bo_used = v, bo_overBy = v - l\<rparr>)" for k lim v
    by (cases lim) (auto simp: compare_limit_def)
  then have "ov \<in> set (budgetOverrunsOf i l u) \<longleftrightarrow> (\<exists>k lim. limit_field k l = Some lim \<and> lim < usage_field k u \<and>
      ov = \<lparr>bo_nodeId = i, bo_kind = k, bo_limit = lim, bo_used = usage_field k u, bo_overBy = usage_field k u - lim\<rparr>)"
    using all by (simp add: budgetOverrunsOf_def Bex_def)
  then show ?thesis by (metis budget_overrun.select_convs(2))
qed

lemma nodeBudgetLimitsOf_nonneg: "nodeBudgetLimitsOf spec = Inr l \<Longrightarrow> nonneg_limits l"
proof -
  have none: "nonneg_limits NO_BUDGET_LIMITS"
    by (auto simp: nonneg_limits_def NO_BUDGET_LIMITS_def elim: limit_field.elims)
  then show "nodeBudgetLimitsOf spec = Inr l \<Longrightarrow> nonneg_limits l"
    by (auto simp: nodeBudgetLimitsOf_def split: if_splits intro: read_limit_keys_nonneg)
qed

text \<open>The report's accumulators, as sums over the plan's nodes.\<close>

definition facts_of :: "budget_node_facts list \<Rightarrow> string \<Rightarrow> budget_node_facts" where
  "facts_of usage i =
     (case map_of (rev (map (\<lambda>f. (nf_nodeId f, f)) usage)) i of
        None \<Rightarrow> \<lparr>nf_nodeId = i, nf_executions = 0, nf_used = ZERO_BUDGET_USAGE,
                 nf_reserved = ZERO_BUDGET_USAGE, nf_unknownUsageAttempts = 0\<rparr>
      | Some f \<Rightarrow> f)"

lemma report_fold:
  defines "byNode usage \<equiv> map_of (rev (map (\<lambda>f. (nf_nodeId f, f)) usage))"
  shows "map rn_nodeId (ra_nodes (fold (report_step (byNode usage)) ns acc)) = map rn_nodeId (ra_nodes acc) @ map fst ns"
    and "ra_overruns (fold (report_step (byNode usage)) ns acc) =
      ra_overruns acc @ concat (map (\<lambda>n. budgetOverrunsOf (fst n) (snd n) (nf_used (facts_of usage (fst n)))) ns)"
    and "bu_executions (ra_totals (fold (report_step (byNode usage)) ns acc)) =
      bu_executions (ra_totals acc) + (\<Sum>n\<leftarrow>ns. nf_executions (facts_of usage (fst n)))"
    and "usage_field k (ra_totals (fold (report_step (byNode usage)) ns acc)) =
      usage_field k (ra_totals acc) + (\<Sum>n\<leftarrow>ns. usage_field k (nf_used (facts_of usage (fst n))))"
    and "usage_field k (ra_reservedTotals (fold (report_step (byNode usage)) ns acc)) =
      usage_field k (ra_reservedTotals acc) + (\<Sum>n\<leftarrow>ns. usage_field k (nf_reserved (facts_of usage (fst n))))"
  by (induction ns arbitrary: acc; cases k;
      simp add: report_step_def byNode_def facts_of_def addBudgetUsage_def Let_def split: option.splits)+

end
