(* ===== verification/Declaration.thy ===== *)
theory Declaration
  imports WorkerTools Budget
begin

text \<open>
  Version-3 declarations (\<open>graph/compiler/declaration-v3.ts\<close>) and the readers with which the compiler
  (\<open>graph/compiler/compile.ts\<close>) turns the parts of one node into plan records.

  A declaration is a raw value. A reader returns what it read with the issues it reports; an issue is its
  code and its path, and the text of its message is dropped. The reason of an unresolved requirement is
  persisted in the plan and therefore spelled out.
\<close>

subsection \<open>The structural guard\<close>

fun isObjectContainer :: "jsval \<Rightarrow> bool" where
  "isObjectContainer (JObj _) = True"
| "isObjectContainer (JArr _) = True"
| "isObjectContainer _ = False"

fun isString :: "jsval \<Rightarrow> bool" where
  "isString (JStr _) = True"
| "isString _ = False"

definition input_shape :: "jsval \<Rightarrow> bool" where
  "input_shape entry \<longleftrightarrow> isRecord entry \<and> isText (js_get entry ''from'') \<and> isText (js_get entry ''outcome'')"

definition isNodeDeclarationV3 :: "jsval \<Rightarrow> bool" where
  "isNodeDeclarationV3 v \<longleftrightarrow> isRecord v \<and> isText (js_get v ''id'') \<and>
     (js_get v ''inputs'' = JUndef \<or> (\<exists>es \<in> set_option (js_array (js_get v ''inputs'')). list_all input_shape es)) \<and>
     (js_get v ''tools'' = JUndef \<or> js_array (js_get v ''tools'') \<noteq> None) \<and>
     (js_get v ''toolPresentation'' = JUndef \<or> isRecord (js_get v ''toolPresentation'')) \<and>
     isString (js_get v ''agent'') \<and> isString (js_get v ''prompt'') \<and> js_array (js_get v ''outcomes'') \<noteq> None \<and>
     (js_get v ''completion'' = JUndef \<or> isObjectContainer (js_get v ''completion'')) \<and>
     (js_get v ''contractRef'' = JUndef \<or> isObjectContainer (js_get v ''contractRef'')) \<and>
     (js_get v ''join'' = JUndef \<or> isObjectContainer (js_get v ''join'')) \<and>
     (js_get v ''budget'' = JUndef \<or> isObjectContainer (js_get v ''budget''))"

definition isEdgeDeclarationV3 :: "jsval \<Rightarrow> bool" where
  "isEdgeDeclarationV3 v \<longleftrightarrow> isRecord v \<and> isText (js_get v ''from'') \<and> isText (js_get v ''to'')"

definition isLoopGroupDeclarationV3 :: "jsval \<Rightarrow> bool" where
  "isLoopGroupDeclarationV3 v \<longleftrightarrow> isRecord v \<and> isText (js_get v ''id'') \<and> js_array (js_get v ''nodes'') \<noteq> None"

definition array_of :: "(jsval \<Rightarrow> bool) \<Rightarrow> jsval \<Rightarrow> bool" where
  "array_of P v = (case js_array v of None \<Rightarrow> False | Some xs \<Rightarrow> list_all P xs)"

definition isGraphDeclarationV3 :: "jsval \<Rightarrow> bool" where
  "isGraphDeclarationV3 v \<longleftrightarrow> isRecord v \<and> js_get v ''version'' = js_int 3 \<and> isText (js_get v ''name'') \<and>
     array_of isNodeDeclarationV3 (js_get v ''nodes'') \<and> array_of isEdgeDeclarationV3 (js_get v ''edges'') \<and>
     (js_get v ''loop_groups'' = JUndef \<or> array_of isLoopGroupDeclarationV3 (js_get v ''loop_groups'')) \<and>
     (js_get v ''completion_policy'' = JUndef \<or> isObjectContainer (js_get v ''completion_policy''))"

text \<open>The field reads of a guarded declaration.\<close>

fun str_of :: "jsval \<Rightarrow> string" where
  "str_of (JStr s) = s"
| "str_of _ = []"

fun arr_of :: "jsval \<Rightarrow> jsval list" where
  "arr_of (JArr xs) = xs"
| "arr_of _ = []"

abbreviation id_of :: "jsval \<Rightarrow> string" where
  "id_of v \<equiv> str_of (js_get v ''id'')"

subsection \<open>Issues and capabilities\<close>

datatype compile_code =
    Topology topology_code
  | MalformedDeclaration | DuplicateOutcomeId | UnknownInputNode | UnknownInputOutcome | SelfReferentialInput | DuplicateInput
  | InputNotUpstream | InputTriggerNotEdge | MissingEdgeOutcome | NaturalCompletionUnknownOutcome | DuplicateNaturalCompletion
  | DuplicateLoopGroupId | LoopContinuationOutsideGroup | UnresolvedContract | ContractDigestMismatch | UnsupportedValidator
  | CompletionPolicyDenied | UnsatisfiableJoin

type_synonym compile_issue = "compile_code \<times> string"

record validator_capability =
  vc_validator :: string
  vc_version :: "jsnum option"

record acceptance_capabilities =
  ac_approvalMappings :: "(string \<times> string) list option"
  ac_validators :: "(string \<times> int) list"
  ac_schemas :: "(string \<times> jsnum) list"
  ac_commandMappings :: "(string \<times> string \<times> string) list"

record compile_options =
  op_contracts :: "contract_registry option"
  op_supportedValidators :: "validator_capability list option"
  op_acceptanceCapabilities :: "acceptance_capabilities option"
  op_completionPolicies :: "completion_policy_registry option"

definition nodePath :: "string \<Rightarrow> string" where
  "nodePath i = ''nodes.'' @ i"

definition index_path :: "string \<Rightarrow> nat \<Rightarrow> string" where
  "index_path path index = path @ ''['' @ show_nat index @ '']''"

subsection \<open>Outcomes and acceptance\<close>

definition readOutcomeData :: "jsval \<Rightarrow> compiled_outcome_data option" where
  "readOutcomeData raw =
     (if \<not> isRecord raw then None
      else case nonempty_string (js_get raw ''schema'') of
             None \<Rightarrow> None
           | Some schema \<Rightarrow>
               (case js_get raw ''version'' of
                  JUndef \<Rightarrow> Some \<lparr>cod_schema = schema, cod_version = None\<rparr>
                | JNum (Fin q) \<Rightarrow> Some \<lparr>cod_schema = schema, cod_version = Some q\<rparr>
                | _ \<Rightarrow> None))"

definition substantiatesSchema :: "acceptance_capabilities \<Rightarrow> compiled_outcome_data \<Rightarrow> bool" where
  "substantiatesSchema caps contract =
     (case cod_version contract of
        None \<Rightarrow> False
      | Some q \<Rightarrow> readValidatorVersion (JNum (Fin q)) \<noteq> None \<and> (cod_schema contract, Fin q) \<in> set (ac_schemas caps))"

definition substantiatesCommandMapping :: "acceptance_capabilities \<Rightarrow> string \<Rightarrow> string \<Rightarrow> string \<Rightarrow> bool" where
  "substantiatesCommandMapping caps graphId nodeId outcome \<longleftrightarrow> (graphId, nodeId, outcome) \<in> set (ac_commandMappings caps)"

definition missingConcreteCapability ::
  "(rat \<Rightarrow> string) \<Rightarrow> string \<Rightarrow> string \<Rightarrow> string \<Rightarrow> string \<Rightarrow> compiled_outcome_data option \<Rightarrow> acceptance_capabilities option \<Rightarrow> string option" where
  "missingConcreteCapability num validator graphId nodeId outcomeId data capabilities =
     (case capabilities of
        None \<Rightarrow> None
      | Some caps \<Rightarrow>
          if validator = ''principal-approval'' \<and>
             \<not> (\<exists>mappings \<in> set_option (ac_approvalMappings caps). (graphId, nodeId) \<in> set mappings)
          then Some ''no installed approval policy authorizes approvers for this graph and node''
          else if validator = ''schema''
          then (case data of
                  None \<Rightarrow> Some ''the outcome declares no data contract, so a schema requirement has nothing to check -- an undeclared contract is not a passing one''
                | Some d \<Rightarrow>
                    if substantiatesSchema caps d then None
                    else Some (''schema '' @ json_quote (cod_schema d) @
                           (case cod_version d of None \<Rightarrow> '' is declared without an exact version'' | Some q \<Rightarrow> ''@'' @ num q) @
                           '' is not installed in this host''))
          else if validator = ''command-exit''
          then (if substantiatesCommandMapping caps graphId nodeId outcomeId then None
                else Some (''no trusted command policy authorizes a check for ('' @ graphId @ '', '' @ nodeId @ '', '' @ outcomeId @ '')''))
          else None)"

definition readAcceptanceRequirement :: "jsval \<Rightarrow> compiled_acceptance_requirement option" where
  "readAcceptanceRequirement raw =
     (if \<not> isRecord raw then None
      else case nonempty_string (js_get raw ''validator'') of
             None \<Rightarrow> None
           | Some validator \<Rightarrow>
               if js_get raw ''version'' = JUndef then Some \<lparr>car_validator = validator, car_version = None\<rparr>
               else case readValidatorVersion (js_get raw ''version'') of
                      None \<Rightarrow> None
                    | Some v \<Rightarrow> Some \<lparr>car_validator = validator, car_version = Some v\<rparr>)"

datatype validator_resolution = ResolvedAt int | Unpinned | Unsupported | Unreadable

fun resolve_capability :: "bool \<Rightarrow> compiled_acceptance_requirement \<Rightarrow> validator_capability list \<Rightarrow> validator_resolution" where
  "resolve_capability covered requirement [] = (if covered then Unpinned else Unsupported)"
| "resolve_capability covered requirement (capability # rest) =
     (if vc_validator capability \<noteq> car_validator requirement then resolve_capability covered requirement rest
      else case vc_version capability of
             None \<Rightarrow> resolve_capability True requirement rest
           | Some declared \<Rightarrow>
               (case readValidatorVersion (JNum declared) of
                  None \<Rightarrow> Unreadable
                | Some version \<Rightarrow>
                    if car_version requirement = None \<or> car_version requirement = Some version then ResolvedAt version
                    else resolve_capability covered requirement rest))"

definition resolveValidatorCapability :: "compiled_acceptance_requirement \<Rightarrow> validator_capability list \<Rightarrow> validator_resolution" where
  "resolveValidatorCapability requirement supported = resolve_capability False requirement supported"

text \<open>One requirement: what the plan records, the issues, and what stays unresolved.\<close>

definition read_gate ::
  "(rat \<Rightarrow> string) \<Rightarrow> compile_options \<Rightarrow> string \<Rightarrow> string \<Rightarrow> string \<Rightarrow> compiled_outcome_data option \<Rightarrow> string \<Rightarrow> jsval \<Rightarrow>
   compiled_acceptance_requirement list \<times> compile_issue list \<times> compiled_unresolved_requirement list" where
  "read_gate num options graphId nodeId outcomeId data path raw =
     (case readAcceptanceRequirement raw of
        None \<Rightarrow> ([], [(MalformedDeclaration, path)], [])
      | Some requirement \<Rightarrow>
          (case op_supportedValidators options of
             None \<Rightarrow>
               ([requirement], [],
                [\<lparr>cur_nodeId = nodeId, cur_outcomeId = outcomeId, cur_validator = car_validator requirement,
                  cur_version = car_version requirement, cur_reason = None\<rparr>])
           | Some supported \<Rightarrow>
               (case resolveValidatorCapability requirement supported of
                  ResolvedAt version \<Rightarrow>
                    ([\<lparr>car_validator = car_validator requirement, car_version = Some version\<rparr>], [],
                     (case missingConcreteCapability num (car_validator requirement) graphId nodeId outcomeId data (op_acceptanceCapabilities options) of
                        None \<Rightarrow> []
                      | Some missing \<Rightarrow>
                          [\<lparr>cur_nodeId = nodeId, cur_outcomeId = outcomeId, cur_validator = car_validator requirement,
                            cur_version = Some version, cur_reason = Some missing\<rparr>]))
                | Unpinned \<Rightarrow> ([requirement], [(Topology UnpinnedValidatorVersion, path)], [])
                | Unreadable \<Rightarrow> ([requirement], [(Topology UnpinnedValidatorVersion, path)], [])
                | Unsupported \<Rightarrow> ([requirement], [(UnsupportedValidator, path)], []))))"

fun read_gates ::
  "(rat \<Rightarrow> string) \<Rightarrow> compile_options \<Rightarrow> string \<Rightarrow> string \<Rightarrow> string \<Rightarrow> compiled_outcome_data option \<Rightarrow> string \<Rightarrow> nat \<Rightarrow> jsval list \<Rightarrow>
   compiled_acceptance_requirement list \<times> compile_issue list \<times> compiled_unresolved_requirement list" where
  "read_gates num options graphId nodeId outcomeId data base index [] = ([], [], [])"
| "read_gates num options graphId nodeId outcomeId data base index (raw # rest) =
     (let (own, issues, unresolved) = read_gate num options graphId nodeId outcomeId data (index_path base index) raw;
          (others, issues', unresolved') = read_gates num options graphId nodeId outcomeId data base (index + 1) rest
      in (own @ others, issues @ issues', unresolved @ unresolved'))"

definition readAcceptance ::
  "(rat \<Rightarrow> string) \<Rightarrow> compile_options \<Rightarrow> string \<Rightarrow> string \<Rightarrow> string \<Rightarrow> compiled_outcome_data option \<Rightarrow> string \<Rightarrow> jsval \<Rightarrow>
   compiled_acceptance_requirement list \<times> compile_issue list \<times> compiled_unresolved_requirement list" where
  "readAcceptance num options graphId nodeId outcomeId data outcomePath raw =
     (let base = outcomePath @ ''.acceptance'' in
      if raw = JUndef then ([], [], [])
      else case js_array raw of
             None \<Rightarrow> ([], [(MalformedDeclaration, base)], [])
           | Some raws \<Rightarrow> read_gates num options graphId nodeId outcomeId data base 0 raws)"

fun compile_outcome_list ::
  "(rat \<Rightarrow> string) \<Rightarrow> compile_options \<Rightarrow> string \<Rightarrow> string \<Rightarrow> string list \<Rightarrow> nat \<Rightarrow> jsval list \<Rightarrow>
   compiled_outcome list \<times> compile_issue list \<times> compiled_unresolved_requirement list" where
  "compile_outcome_list num options graphId nodeId seen index [] = ([], [], [])"
| "compile_outcome_list num options graphId nodeId seen index (raw # rest) =
     (let path = index_path (nodePath nodeId @ ''.outcomes'') index in
      case nonempty_string (js_get raw ''id'') of
        None \<Rightarrow>
          (let (accepted, issues, unresolved) = compile_outcome_list num options graphId nodeId seen (index + 1) rest
           in (accepted, (MalformedDeclaration, path) # issues, unresolved))
      | Some i \<Rightarrow>
          if i \<in> set seen
          then (let (accepted, issues, unresolved) = compile_outcome_list num options graphId nodeId seen (index + 1) rest
                in (accepted, (DuplicateOutcomeId, path) # issues, unresolved))
          else
            (let data = readOutcomeData (js_get raw ''data'');
                 dataIssues = (if js_get raw ''data'' \<noteq> JUndef \<and> data = None then [(MalformedDeclaration, path @ ''.data'')] else []);
                 (gates, gateIssues, gateUnresolved) = readAcceptance num options graphId nodeId i data path (js_get raw ''acceptance'');
                 (accepted, issues, unresolved) = compile_outcome_list num options graphId nodeId (seen @ [i]) (index + 1) rest
             in (\<lparr>co_id = i, co_data = data, co_acceptance = gates\<rparr> # accepted, dataIssues @ gateIssues @ issues, gateUnresolved @ unresolved)))"

definition compileOutcomes ::
  "(rat \<Rightarrow> string) \<Rightarrow> compile_options \<Rightarrow> string \<Rightarrow> jsval \<Rightarrow>
   compiled_outcome list \<times> compile_issue list \<times> compiled_unresolved_requirement list" where
  "compileOutcomes num options graphId node =
     (let (accepted, issues, unresolved) = compile_outcome_list num options graphId (id_of node) [] 0 (arr_of (js_get node ''outcomes''))
      in (sort_key co_id accepted, issues, unresolved))"

definition declaredOutcomeIds :: "jsval \<Rightarrow> string list" where
  "declaredOutcomeIds node = js_set (List.map_filter (\<lambda>raw. nonempty_string (js_get raw ''id'')) (arr_of (js_get node ''outcomes'')))"

subsection \<open>Inputs and tools\<close>

fun read_input_list ::
  "(string \<times> string list) list \<Rightarrow> string \<Rightarrow> string \<Rightarrow> string list \<Rightarrow> nat \<Rightarrow> jsval list \<Rightarrow> compiled_input_ref list \<times> compile_issue list" where
  "read_input_list declared nodeId path seen index [] = ([], [])"
| "read_input_list declared nodeId path seen index (entry # rest) =
     (let entryPath = index_path path index;
          skip = (\<lambda>issue. let (refs, issues) = read_input_list declared nodeId path seen (index + 1) rest in (refs, issue # issues)) in
      if \<not> isRecord entry then skip (MalformedDeclaration, entryPath)
      else if js_get entry ''when'' \<noteq> JUndef \<and> js_get entry ''when'' \<noteq> JStr ''triggered'' then skip (MalformedDeclaration, entryPath @ ''.when'')
      else case (nonempty_string (js_get entry ''from''), nonempty_string (js_get entry ''outcome'')) of
             (Some src, Some outcome) \<Rightarrow>
               if src = nodeId then skip (SelfReferentialInput, entryPath)
               else (case map_of declared src of
                       None \<Rightarrow> skip (UnknownInputNode, entryPath)
                     | Some producer \<Rightarrow>
                         if outcome \<notin> set producer then skip (UnknownInputOutcome, entryPath)
                         else if src @ [nul] @ outcome \<in> set seen then skip (DuplicateInput, entryPath)
                         else (let (refs, issues) = read_input_list declared nodeId path (seen @ [src @ [nul] @ outcome]) (index + 1) rest
                               in (\<lparr>cir_from = src, cir_outcome = outcome, cir_triggered = (js_get entry ''when'' \<noteq> JUndef)\<rparr> # refs, issues)))
           | _ \<Rightarrow> skip (MalformedDeclaration, entryPath))"

definition readInputs :: "(string \<times> string list) list \<Rightarrow> string \<Rightarrow> jsval \<Rightarrow> compiled_input_ref list option \<times> compile_issue list" where
  "readInputs declared nodeId raw =
     (let path = nodePath nodeId @ ''.inputs'' in
      if raw = JUndef then (None, [])
      else case js_array raw of
             None \<Rightarrow> (None, [(MalformedDeclaration, path)])
           | Some entries \<Rightarrow>
               (let (refs, issues) = read_input_list declared nodeId path [] 0 entries
                in (if refs = [] then None else Some refs, issues)))"

fun trimmed_names :: "string list \<Rightarrow> jsval list \<Rightarrow> string list option" where
  "trimmed_names names [] = Some names"
| "trimmed_names names (JStr s # rest) = (if js_trim s = [] then None else trimmed_names (set_add (js_trim s) names) rest)"
| "trimmed_names names (_ # rest) = None"

definition readDeclaredTools :: "string \<Rightarrow> jsval \<Rightarrow> string list option \<times> compile_issue list" where
  "readDeclaredTools path raw =
     (if raw = JUndef then (None, [])
      else case js_array raw of
             None \<Rightarrow> (None, [(MalformedDeclaration, path)])
           | Some entries \<Rightarrow>
               (case trimmed_names [] entries of
                  None \<Rightarrow> (None, [(MalformedDeclaration, path)])
                | Some names \<Rightarrow> (Some (sort names), [])))"

subsection \<open>Completion, join and budget\<close>

datatype completion_reading = CompletionAbsent | CompletionExplicit | CompletionNatural string | CompletionDuplicate | CompletionInvalid

definition natural_claim :: "jsval \<Rightarrow> bool" where
  "natural_claim v \<longleftrightarrow> js_get v ''mode'' = JStr ''natural'' \<and> isText (js_get v ''outcome'')"

definition readCompletionPolicy :: "jsval \<Rightarrow> completion_reading" where
  "readCompletionPolicy raw =
     (case raw of
        JUndef \<Rightarrow> CompletionAbsent
      | JArr candidates \<Rightarrow>
          if \<not> list_all (\<lambda>c. isRecord c \<and> (js_get c ''mode'' = JStr ''explicit'' \<or> natural_claim c)) candidates then CompletionInvalid
          else if length (filter (\<lambda>c. js_get c ''mode'' \<noteq> JStr ''explicit'') candidates) > 1 then CompletionDuplicate
          else CompletionInvalid
      | JObj _ \<Rightarrow>
          if js_get raw ''mode'' = JStr ''explicit'' then CompletionExplicit
          else if natural_claim raw then CompletionNatural (str_of (js_get raw ''outcome''))
          else CompletionInvalid
      | _ \<Rightarrow> CompletionInvalid)"

fun toPlanCompletion :: "completion_reading \<Rightarrow> compiled_completion_policy option" where
  "toPlanCompletion CompletionExplicit = Some Explicit"
| "toPlanCompletion (CompletionNatural outcome) = Some (Natural outcome)"
| "toPlanCompletion CompletionAbsent = None"
| "toPlanCompletion CompletionInvalid = None"
| "toPlanCompletion CompletionDuplicate = None"

definition readJoin :: "jsval \<Rightarrow> join_config option" where
  "readJoin raw =
     (if \<not> isRecord raw then None
      else if js_get raw ''strategy'' = JStr ''all'' then Some JoinAll
      else if js_get raw ''strategy'' = JStr ''any'' then Some JoinAny
      else if js_get raw ''strategy'' = JStr ''quorum''
      then (case positive_safe (js_get raw ''quorum'') of None \<Rightarrow> None | Some q \<Rightarrow> Some (JoinQuorum (Some (int q))))
      else None)"

definition BUDGET_FIELDS :: "string list" where
  "BUDGET_FIELDS = [''max_input_tokens'', ''max_output_tokens'', ''max_cost_usd'', ''timeout_ms'', ''max_retries'']"

definition readBudget :: "jsval \<Rightarrow> jsval option" where
  "readBudget raw =
     (if \<not> isRecord raw then None
      else case nodeBudgetLimitsOf raw of
             Inl _ \<Rightarrow> None
           | Inr _ \<Rightarrow>
               (let fields = filter (\<lambda>f. js_get raw f \<noteq> JUndef) BUDGET_FIELDS in
                if list_all (\<lambda>f. isFiniteNumber (js_get raw f)) fields then Some (JObj (map (\<lambda>f. (f, js_get raw f)) fields)) else None))"

definition enc_run_budget :: "run_budget_spec \<Rightarrow> jsval" where
  "enc_run_budget b = JObj (opt_field ''max_executions'' js_nat (rb_max_executions b))"

end
