(* ===== verification/VerifyPlan.thy ===== *)
theory VerifyPlan
  imports Declaration
begin

text \<open>
  The load gate of a persisted plan (\<open>graph/compiler/verify-plan.ts\<close>): the record rules, the topology and
  executability readings it shares with the compiler, the projection of the node bindings, the contract
  content and identity indexes, the recomputed content address, and the node fields the consumers of a
  plan read. A verdict names the first rule that failed; the text of its reason is dropped. An exception
  caught by a reader is the same defect as the value it rejects.
\<close>

subsection \<open>Verdicts\<close>

datatype plan_defect =
    NotAPlanRecord | BadPlanRevision | BadPlanGraphId | ForeignGraph string | BadDeclarationVersion
  | NodesNotArray | EdgesNotArray | LoopGroupsNotArray
  | PlanNotExecutable nat nat | ExecutabilityUnreadable
  | TopologyInconsistent topology_code | UndeclaredStateNode string
  | BoundWithoutRef string | NodeRefUnreadable string | BindingMissing string | BindingDisagrees string | BindingUndeclared string
  | SnapshotsNotRecord | IdentitiesNotRecord | BindingsNotRecord
  | SnapshotUnproven string | IdentityNotRecord string | IdentityUnreadable string string | IdentityUnproven string string
  | BindingUnreadable string | BindingUnindexed string | BindingRedirected string | BindingForeign string
  | BodyRejected | RevisionDisagrees string
  | ConsumerField string

datatype plan_verdict = PlanAbsent | PlanVerified | PlanCorrupt plan_defect

definition COMPILED_DECLARATION_VERSION :: int where
  "COMPILED_DECLARATION_VERSION = 3"

definition BODY_KEYS :: "string list" where
  "BODY_KEYS = [''graphId'', ''declarationVersion'', ''budget'', ''nodes'', ''edges'', ''loopGroups'', ''contractSnapshots'',
     ''contractIdentities'', ''completionPolicySnapshots'', ''completionPolicyIdentities'', ''completionAuthorizations'',
     ''terminalOutcomes'', ''executability'']"

text \<open>The first defect of a list of checks, in order.\<close>

fun first_defect :: "('a \<Rightarrow> plan_defect option) \<Rightarrow> 'a list \<Rightarrow> plan_defect option" where
  "first_defect check [] = None"
| "first_defect check (x # xs) = (case check x of Some d \<Rightarrow> Some d | None \<Rightarrow> first_defect check xs)"

definition or_else :: "plan_defect option \<Rightarrow> plan_defect option \<Rightarrow> plan_defect option" where
  "or_else a b = (case a of Some d \<Rightarrow> Some d | None \<Rightarrow> b)"

lemma first_defect_None [simp]: "first_defect check xs = None \<longleftrightarrow> (\<forall>x \<in> set xs. check x = None)"
  by (induction xs) (auto split: option.splits)

lemma or_else_None [simp]: "or_else a b = None \<longleftrightarrow> a = None \<and> b = None"
  by (simp add: or_else_def split: option.split)

definition defect_if :: "bool \<Rightarrow> plan_defect \<Rightarrow> plan_defect option" where
  "defect_if bad d = (if bad then Some d else None)"

lemma defect_if_None [simp]: "defect_if bad d = None \<longleftrightarrow> \<not> bad"
  by (simp add: defect_if_def)

subsection \<open>Contract content and identity\<close>

text \<open>A snapshot is proven when its body hashes to its own key.\<close>

definition snapshot_defect :: "(string \<Rightarrow> string) \<Rightarrow> (rat \<Rightarrow> string) \<Rightarrow> jsval \<Rightarrow> string \<Rightarrow> plan_defect option" where
  "snapshot_defect sha num snapshots digest =
     (let entry = js_get snapshots digest in
      if \<not> isRecord entry then Some (SnapshotUnproven digest)
      else defect_if (contractDigest sha num (js_get entry ''body'') \<noteq> Inr digest) (SnapshotUnproven digest))"

definition identity_defect :: "string list \<Rightarrow> jsval \<Rightarrow> string \<Rightarrow> plan_defect option" where
  "identity_defect proven identities i =
     (let revisions = js_get identities i in
      if \<not> isRecord revisions then Some (IdentityNotRecord i)
      else first_defect (\<lambda>revision.
             case nonempty_string (js_get revisions revision) of
               None \<Rightarrow> Some (IdentityUnreadable i revision)
             | Some digest \<Rightarrow> defect_if (digest \<notin> set proven) (IdentityUnproven i revision)) (sort (js_keys revisions)))"

definition bound_defect :: "string list \<Rightarrow> jsval \<Rightarrow> jsval \<Rightarrow> string \<Rightarrow> plan_defect option" where
  "bound_defect nodeIds identities bindings nodeId =
     (let boundRef = js_get bindings nodeId in
      if \<not> isContractRef boundRef then Some (BindingUnreadable nodeId)
      else let revisions = js_get identities (str_of (js_get boundRef ''id''));
               indexed = js_get revisions (str_of (js_get boundRef ''revision''))
           in if \<not> isRecord revisions \<or> \<not> isString indexed then Some (BindingUnindexed nodeId)
              else if indexed \<noteq> js_get boundRef ''digest'' then Some (BindingRedirected nodeId)
              else defect_if (nodeId \<notin> set nodeIds) (BindingForeign nodeId))"

definition verifyContractRecord :: "(string \<Rightarrow> string) \<Rightarrow> (rat \<Rightarrow> string) \<Rightarrow> jsval \<Rightarrow> string list \<Rightarrow> plan_defect option" where
  "verifyContractRecord sha num v nodeIds =
     (let snapshots = js_get v ''contractSnapshots'';
          identities = js_get v ''contractIdentities'';
          bindings = js_get v ''nodeBindings''
      in if \<not> isRecord snapshots then Some SnapshotsNotRecord
         else if \<not> isRecord identities then Some IdentitiesNotRecord
         else if \<not> isRecord bindings then Some BindingsNotRecord
         else or_else (first_defect (snapshot_defect sha num snapshots) (sort (js_keys snapshots)))
             (or_else (first_defect (identity_defect (js_keys snapshots) identities) (sort (js_keys identities)))
                (first_defect (bound_defect nodeIds identities bindings) (sort (js_keys bindings)))))"

definition verifyPersistedPlanBinding :: "(string \<Rightarrow> string) \<Rightarrow> (rat \<Rightarrow> string) \<Rightarrow> jsval \<Rightarrow> string list \<Rightarrow> plan_verdict" where
  "verifyPersistedPlanBinding sha num v nodeIds =
     (if v = JUndef then PlanAbsent
      else if \<not> isRecord v then PlanCorrupt NotAPlanRecord
      else if nonempty_string (js_get v ''planRevision'') = None then PlanCorrupt BadPlanRevision
      else case verifyContractRecord sha num v nodeIds of Some d \<Rightarrow> PlanCorrupt d | None \<Rightarrow> PlanVerified)"

subsection \<open>The projection of the node bindings\<close>

definition read_ref :: "jsval \<Rightarrow> contract_ref" where
  "read_ref v = \<lparr>cr_id = str_of (js_get v ''id''), cr_revision = str_of (js_get v ''revision''), cr_digest = str_of (js_get v ''digest'')\<rparr>"

definition node_binding_defect :: "jsval \<Rightarrow> jsval \<Rightarrow> plan_defect option" where
  "node_binding_defect bindings raw =
     (case js_get raw ''id'' of
        JStr nodeId \<Rightarrow>
          (let nodeRef = js_get raw ''contractRef''; boundRef = js_get bindings nodeId in
           if nodeRef = JUndef then defect_if (nodeId \<in> set (js_keys bindings)) (BoundWithoutRef nodeId)
           else if \<not> isContractRef nodeRef then Some (NodeRefUnreadable nodeId)
           else if \<not> isContractRef boundRef then Some (BindingMissing nodeId)
           else defect_if (\<not> contractRefsEqual (read_ref boundRef) (read_ref nodeRef)) (BindingDisagrees nodeId))
      | _ \<Rightarrow> None)"

definition binding_index_defect :: "jsval list \<Rightarrow> string list \<Rightarrow> jsval \<Rightarrow> plan_defect option" where
  "binding_index_defect nodes topologyIds bindings =
     (if \<not> isRecord bindings then None
      else or_else (first_defect (node_binding_defect bindings) nodes)
             (first_defect (\<lambda>nodeId. defect_if (nodeId \<notin> set topologyIds) (BindingUndeclared nodeId)) (sort (js_keys bindings))))"

subsection \<open>The record\<close>

definition array_length :: "jsval \<Rightarrow> nat" where
  "array_length v = (case js_array v of None \<Rightarrow> 0 | Some xs \<Rightarrow> length xs)"

definition executability_defect :: "jsval \<Rightarrow> plan_defect option" where
  "executability_defect v =
     (case readPlanExecutability v of
        ReadsExecutable \<Rightarrow> None
      | ReadsDraft \<Rightarrow> Some (PlanNotExecutable (array_length (js_get v ''unresolved'')) (array_length (js_get v ''unauthorizedCompletions'')))
      | ReadsMalformed \<Rightarrow> Some ExecutabilityUnreadable)"

text \<open>The body the content address is recomputed over: the named keys of the record, the budget only when present.\<close>

definition persisted_body :: "jsval \<Rightarrow> jsval" where
  "persisted_body v = JObj (concat (map (\<lambda>k. if k = ''budget'' \<and> js_get v k = JUndef then [] else [(k, js_get v k)]) BODY_KEYS))"

definition address_defect :: "(string \<Rightarrow> string) \<Rightarrow> (rat \<Rightarrow> string) \<Rightarrow> jsval \<Rightarrow> plan_defect option" where
  "address_defect sha num v =
     (case readRunBudget (js_get v ''budget'') of
        Inl _ \<Rightarrow> Some BodyRejected
      | Inr _ \<Rightarrow>
          (case contractDigest sha num (persisted_body v) of
             Inl _ \<Rightarrow> Some BodyRejected
           | Inr digest \<Rightarrow> defect_if (JStr digest \<noteq> js_get v ''planRevision'') (RevisionDisagrees digest)))"

definition topology_defect ::
  "(string \<Rightarrow> string) \<Rightarrow> (rat \<Rightarrow> string) \<Rightarrow> jsval \<Rightarrow> jsval list \<Rightarrow> jsval list \<Rightarrow> jsval list \<Rightarrow> string list \<Rightarrow> plan_defect option" where
  "topology_defect sha num v nodes edges loopGroups nodeIds =
     (let (issues, topologyIds) = inspectCompiledTopology sha num nodes edges loopGroups (js_get v ''terminalOutcomes'') (js_get v ''executability'')
            \<lparr>ct_authorizations = js_get v ''completionAuthorizations'', ct_snapshots = js_get v ''completionPolicySnapshots'',
             ct_identities = js_get v ''completionPolicyIdentities''\<rparr>
      in case issues of
           c # _ \<Rightarrow> Some (TopologyInconsistent c)
         | [] \<Rightarrow> or_else (first_defect (\<lambda>n. defect_if (n \<notin> set nodeIds) (UndeclaredStateNode n)) topologyIds)
                   (binding_index_defect nodes topologyIds (js_get v ''nodeBindings'')))"

definition record_defect ::
  "(string \<Rightarrow> string) \<Rightarrow> (rat \<Rightarrow> string) \<Rightarrow> jsval \<Rightarrow> string \<Rightarrow> string list \<Rightarrow> plan_defect option" where
  "record_defect sha num v graphId nodeIds =
     (if \<not> isRecord v then Some NotAPlanRecord
      else if nonempty_string (js_get v ''planRevision'') = None then Some BadPlanRevision
      else case nonempty_string (js_get v ''graphId'') of
             None \<Rightarrow> Some BadPlanGraphId
           | Some recordGraphId \<Rightarrow>
               if recordGraphId \<noteq> graphId then Some (ForeignGraph recordGraphId)
               else if js_get v ''declarationVersion'' \<noteq> js_int COMPILED_DECLARATION_VERSION then Some BadDeclarationVersion
               else case js_array (js_get v ''nodes'') of
                      None \<Rightarrow> Some NodesNotArray
                    | Some nodes \<Rightarrow>
                        (case js_array (js_get v ''edges'') of
                           None \<Rightarrow> Some EdgesNotArray
                         | Some edges \<Rightarrow>
                             (case js_array (js_get v ''loopGroups'') of
                                None \<Rightarrow> Some LoopGroupsNotArray
                              | Some loopGroups \<Rightarrow>
                                  or_else (executability_defect (js_get v ''executability''))
                                    (or_else (topology_defect sha num v nodes edges loopGroups nodeIds)
                                      (or_else (verifyContractRecord sha num v nodeIds) (address_defect sha num v))))))"

definition verifyPersistedCompiledPlan ::
  "(string \<Rightarrow> string) \<Rightarrow> (rat \<Rightarrow> string) \<Rightarrow> jsval \<Rightarrow> string \<Rightarrow> string list \<Rightarrow> plan_verdict" where
  "verifyPersistedCompiledPlan sha num v graphId nodeIds =
     (if v = JUndef then PlanAbsent
      else case record_defect sha num v graphId nodeIds of Some d \<Rightarrow> PlanCorrupt d | None \<Rightarrow> PlanVerified)"

subsection \<open>The fields a consumer reads\<close>

definition text_list_ok :: "jsval \<Rightarrow> bool" where
  "text_list_ok v \<longleftrightarrow> (case js_array v of None \<Rightarrow> False | Some xs \<Rightarrow> list_all isText xs)"

definition consumer_input_ok :: "jsval \<Rightarrow> bool" where
  "consumer_input_ok v \<longleftrightarrow> isRecord v \<and> isText (js_get v ''from'') \<and> isText (js_get v ''outcome'') \<and>
     (js_get v ''when'' = JUndef \<or> js_get v ''when'' = JStr ''triggered'')"

definition consumer_inputs_ok :: "jsval \<Rightarrow> bool" where
  "consumer_inputs_ok v \<longleftrightarrow> (case js_array v of None \<Rightarrow> False | Some xs \<Rightarrow> xs \<noteq> [] \<and> list_all consumer_input_ok xs)"

definition consumer_join_ok :: "jsval \<Rightarrow> bool" where
  "consumer_join_ok v \<longleftrightarrow> isRecord v \<and>
     (if js_get v ''strategy'' = JStr ''quorum'' then positive_safe (js_get v ''quorum'') \<noteq> None
      else js_get v ''strategy'' = JStr ''all'' \<or> js_get v ''strategy'' = JStr ''any'')"

definition version_ok :: "jsval \<Rightarrow> bool" where
  "version_ok v \<longleftrightarrow> v = JUndef \<or> isFiniteNumber v"

definition consumer_requirement_ok :: "jsval \<Rightarrow> bool" where
  "consumer_requirement_ok v \<longleftrightarrow> isRecord v \<and> isText (js_get v ''validator'') \<and> version_ok (js_get v ''version'')"

definition consumer_data_ok :: "jsval \<Rightarrow> bool" where
  "consumer_data_ok v \<longleftrightarrow> v = JUndef \<or> (isRecord v \<and> isText (js_get v ''schema'') \<and> version_ok (js_get v ''version''))"

definition consumer_outcome_ok :: "jsval \<Rightarrow> bool" where
  "consumer_outcome_ok v \<longleftrightarrow> isRecord v \<and> isText (js_get v ''id'') \<and> consumer_data_ok (js_get v ''data'') \<and>
     (case js_array (js_get v ''acceptance'') of None \<Rightarrow> False | Some rs \<Rightarrow> list_all consumer_requirement_ok rs)"

definition consumer_outcomes_ok :: "jsval \<Rightarrow> bool" where
  "consumer_outcomes_ok v \<longleftrightarrow> (case js_array v of None \<Rightarrow> False | Some xs \<Rightarrow> xs \<noteq> [] \<and> list_all consumer_outcome_ok xs)"

definition consumer_completion_ok :: "jsval \<Rightarrow> bool" where
  "consumer_completion_ok v \<longleftrightarrow> v = JUndef \<or> (isRecord v \<and>
     (if js_get v ''mode'' = JStr ''natural'' then isText (js_get v ''outcome'') else js_get v ''mode'' = JStr ''explicit''))"

text \<open>The first consumer field of one node that a persisted plan cannot substantiate.\<close>

definition consumer_node_issue :: "jsval \<Rightarrow> string option" where
  "consumer_node_issue raw =
     (if \<not> isRecord raw then Some ''node''
      else if \<not> isText (js_get raw ''id'') then Some ''id''
      else if \<not> isString (js_get raw ''agent'') then Some ''agent''
      else if \<not> isString (js_get raw ''prompt'') then Some ''prompt''
      else if js_get raw ''tools'' \<noteq> JUndef \<and> \<not> text_list_ok (js_get raw ''tools'') then Some ''tools''
      else if (case read_presentation (js_get raw ''toolPresentation'') of Inl _ \<Rightarrow> True | Inr _ \<Rightarrow> False) then Some ''toolPresentation''
      else if js_get raw ''inputs'' \<noteq> JUndef \<and> \<not> consumer_inputs_ok (js_get raw ''inputs'') then Some ''inputs''
      else if js_get raw ''join'' \<noteq> JUndef \<and> \<not> consumer_join_ok (js_get raw ''join'') then Some ''join''
      else if \<not> consumer_outcomes_ok (js_get raw ''outcomes'') then Some ''outcomes''
      else if \<not> consumer_completion_ok (js_get raw ''completion'') then Some ''completion''
      else None)"

fun first_node_issue :: "jsval list \<Rightarrow> string option" where
  "first_node_issue [] = None"
| "first_node_issue (raw # rest) = (case consumer_node_issue raw of Some i \<Rightarrow> Some i | None \<Rightarrow> first_node_issue rest)"

definition readConsumerNodeIssue :: "jsval \<Rightarrow> string option" where
  "readConsumerNodeIssue plan =
     (case js_array (js_get plan ''nodes'') of None \<Rightarrow> Some ''nodes'' | Some nodes \<Rightarrow> first_node_issue nodes)"

definition verifyPersistedPlan ::
  "(string \<Rightarrow> string) \<Rightarrow> (rat \<Rightarrow> string) \<Rightarrow> jsval \<Rightarrow> string \<Rightarrow> string list \<Rightarrow> plan_verdict" where
  "verifyPersistedPlan sha num compiledPlan graphId nodeIds =
     (let plan = verifyPersistedCompiledPlan sha num compiledPlan graphId nodeIds in
      if plan \<noteq> PlanVerified then plan
      else case readConsumerNodeIssue compiledPlan of Some i \<Rightarrow> PlanCorrupt (ConsumerField i) | None \<Rightarrow> PlanVerified)"

definition isRunnablePersistedPlan :: "(string \<Rightarrow> string) \<Rightarrow> (rat \<Rightarrow> string) \<Rightarrow> jsval \<Rightarrow> string list \<Rightarrow> bool" where
  "isRunnablePersistedPlan sha num v nodeIds \<longleftrightarrow>
     (case nonempty_string (js_get v ''graphId'') of
        None \<Rightarrow> False
      | Some graphId \<Rightarrow> verifyPersistedPlan sha num v graphId nodeIds = PlanVerified)"

definition readPersistedCompiledPlan :: "(string \<Rightarrow> string) \<Rightarrow> (rat \<Rightarrow> string) \<Rightarrow> jsval \<Rightarrow> string list \<Rightarrow> jsval option" where
  "readPersistedCompiledPlan sha num v nodeIds = (if isRunnablePersistedPlan sha num v nodeIds then Some v else None)"

end
