(* ===== verification/Codec.thy ===== *)
theory Codec
  imports JsValue
begin

text \<open>
  The interface every persisted format of the development implements. A \<open>codec\<close> is an encoder, a
  fallible decoder and the set of values the encoder is meant for; its one law is that decoding
  what was encoded gives the value back. A \<open>strict_codec\<close> also refuses everything outside that set,
  so that what a reader returns is a value a writer could have produced. The clients (lists of
  entries, whole bodies) are lifted once here.
\<close>

locale codec =
  fixes enc :: "'a \<Rightarrow> jsval"
    and dec :: "jsval \<Rightarrow> 'e + 'a"
    and ok :: "'a \<Rightarrow> bool"
  assumes dec_enc: "ok x \<Longrightarrow> dec (enc x) = Inr x"
begin

lemma enc_inj: "inj_on enc {x. ok x}"
proof (rule inj_onI)
  fix x y assume "x \<in> {x. ok x}" "y \<in> {x. ok x}" and eq: "enc x = enc y"
  then have x: "dec (enc x) = Inr x" and y: "dec (enc y) = Inr y"
    using dec_enc by blast+
  from x y show "x = y" unfolding eq by simp
qed

lemma list_dec_enc: "list_all ok xs \<Longrightarrow> traverse dec (map enc xs) = Inr xs"
  by (rule traverse_map_Inr) (simp add: dec_enc list_all_iff)

end

locale strict_codec = codec +
  assumes dec_ok: "dec v = Inr x \<Longrightarrow> ok x"
begin

lemma list_dec_ok: "traverse dec vs = Inr xs \<Longrightarrow> list_all ok xs"
  using dec_ok traverse_set by (fastforce simp: list_all_iff)

lemma dec_enc_iff: "dec (enc x) = Inr x \<longleftrightarrow> ok x"
  using dec_enc dec_ok by blast

end

end
