(* ===== verification/Inputs.thy ===== *)
theory Inputs
  imports Plan Codec
begin

text \<open>
  Accepted results and downstream inputs (\<open>graph/domain/model.ts\<close>, \<open>graph/outcome/inputs.ts\<close>):
  what a settled attempt accepted, how a consumer's declared inputs are resolved to exact accepted
  revisions or refused by name, how one retained artifact is addressed, and the strict readers of
  the persisted bound-input and refusal lists.

  A diagnostic text that is only thrown is represented by a short name of the check that failed;
  the refusal messages that are persisted with the state are spelled out (the em dash of the
  source is written as two hyphens).
\<close>

subsection \<open>Accepted results\<close>

record accepted_artifact =
  aa_ref :: string
  aa_artifactId :: string
  aa_digest :: string
  aa_size :: nat

datatype accepted_data = DataAbsent | DataValue jsval

record accepted_result_facts =
  arf_outcomeId :: string
  arf_payload :: accepted_data
  arf_artifacts :: "accepted_artifact list"

datatype accepted_result_reading =
    ResultFacts accepted_result_facts
  | ResultNone
  | ResultUnreadable string

record just_accepted_result =
  jar_attemptId :: string
  jar_facts :: accepted_result_facts

record resolved_input =
  ri_from :: string
  ri_outcome :: string
  ri_attemptId :: string
  ri_payload :: accepted_data
  ri_artifacts :: "accepted_artifact list"

datatype refusal_code =
    InputProducerUnsettled
  | InputOutcomeMismatch
  | InputArtifactMissing
  | InputResultUnreadable

fun refusal_code_text :: "refusal_code \<Rightarrow> string" where
  "refusal_code_text InputProducerUnsettled = ''input-producer-unsettled''"
| "refusal_code_text InputOutcomeMismatch = ''input-outcome-mismatch''"
| "refusal_code_text InputArtifactMissing = ''input-artifact-missing''"
| "refusal_code_text InputResultUnreadable = ''input-result-unreadable''"

definition DOWNSTREAM_INPUT_REFUSAL_CODES :: "refusal_code list" where
  "DOWNSTREAM_INPUT_REFUSAL_CODES =
     [InputProducerUnsettled, InputOutcomeMismatch, InputArtifactMissing, InputResultUnreadable]"

record input_refusal =
  rf_from :: string
  rf_outcome :: string
  rf_code :: refusal_code
  rf_message :: string

datatype downstream_input = InputResolved "resolved_input list" | InputBlocked "input_refusal list"

text \<open>One predecessor arrival at a join (\<open>OutcomeArrival\<close> of the state model).\<close>

record arrival =
  arr_from :: string
  arr_outcome :: string
  arr_attemptId :: string

subsection \<open>Assembling one node's declared inputs\<close>

definition msg_no_settled_attempt :: "compiled_input_ref \<Rightarrow> string" where
  "msg_no_settled_attempt i =
     ''this node consumes the accepted result of '' @ json_quote (cir_from i) @ ''/'' @
     json_quote (cir_outcome i) @
     '', but that node has no settled attempt -- an unaccepted dependency is not an absent value, it is a dispatch that would run against something nobody produced''"

definition msg_unreadable :: "string \<Rightarrow> compiled_input_ref \<Rightarrow> string \<Rightarrow> string" where
  "msg_unreadable attemptId i reason =
     ''attempt '' @ json_quote attemptId @ '' of node '' @ json_quote (cir_from i) @
     '' could not be resolved to its accepted result: '' @ reason @
     '' -- a consumer is never handed an empty or half-read value where a recorded result may exist, so the dispatch is refused instead''"

definition msg_no_result :: "string \<Rightarrow> compiled_input_ref \<Rightarrow> string" where
  "msg_no_result attemptId i =
     ''attempt '' @ json_quote attemptId @ '' of node '' @ json_quote (cir_from i) @
     '' has no accepted result, so it produced nothing this node may consume''"

definition msg_other_outcome :: "compiled_input_ref \<Rightarrow> string \<Rightarrow> string" where
  "msg_other_outcome i outcomeId =
     ''node '' @ json_quote (cir_from i) @ '' settled on outcome '' @ json_quote outcomeId @
     '', not '' @ json_quote (cir_outcome i) @
     '' -- a producer that settled on another declared outcome did not produce this consumer's input''"

definition refusal_of :: "compiled_input_ref \<Rightarrow> refusal_code \<Rightarrow> string \<Rightarrow> input_refusal" where
  "refusal_of i code message =
     \<lparr>rf_from = cir_from i, rf_outcome = cir_outcome i, rf_code = code, rf_message = message\<rparr>"

text \<open>
  The body of the loop over the declared inputs: \<open>None\<close> when a triggered input is not part of
  this dispatch, otherwise a refusal or the resolved entry.
\<close>

definition resolve_input ::
  "(string \<Rightarrow> string option) \<Rightarrow> (string \<Rightarrow> accepted_result_reading) \<Rightarrow> arrival list \<Rightarrow>
   compiled_input_ref \<Rightarrow> (input_refusal + resolved_input) option" where
  "resolve_input settledAttemptOf acceptedOf arrivals i =
     (let arrival = (if cir_triggered i
                     then find (\<lambda>a. arr_from a = cir_from i \<and> arr_outcome a = cir_outcome i) arrivals
                     else None)
      in if cir_triggered i \<and> arrival = None then None
         else case (case arrival of Some a \<Rightarrow> Some (arr_attemptId a) | None \<Rightarrow> settledAttemptOf (cir_from i)) of
           None \<Rightarrow> Some (Inl (refusal_of i InputProducerUnsettled (msg_no_settled_attempt i)))
         | Some attemptId \<Rightarrow>
             (case acceptedOf attemptId of
                ResultUnreadable reason \<Rightarrow>
                  Some (Inl (refusal_of i InputResultUnreadable (msg_unreadable attemptId i reason)))
              | ResultNone \<Rightarrow>
                  Some (Inl (refusal_of i InputProducerUnsettled (msg_no_result attemptId i)))
              | ResultFacts facts \<Rightarrow>
                  if arf_outcomeId facts \<noteq> cir_outcome i
                  then Some (Inl (refusal_of i InputOutcomeMismatch (msg_other_outcome i (arf_outcomeId facts))))
                  else Some (Inr \<lparr>ri_from = cir_from i, ri_outcome = cir_outcome i,
                                  ri_attemptId = attemptId, ri_payload = arf_payload facts,
                                  ri_artifacts = arf_artifacts facts\<rparr>)))"

fun assemble_loop ::
  "(string \<Rightarrow> string option) \<Rightarrow> (string \<Rightarrow> accepted_result_reading) \<Rightarrow> arrival list \<Rightarrow>
   compiled_input_ref list \<Rightarrow> resolved_input list \<times> input_refusal list \<Rightarrow>
   resolved_input list \<times> input_refusal list" where
  "assemble_loop settledAttemptOf acceptedOf arrivals [] acc = acc"
| "assemble_loop settledAttemptOf acceptedOf arrivals (i # is) (entries, refusals) =
     (case resolve_input settledAttemptOf acceptedOf arrivals i of
        None \<Rightarrow> assemble_loop settledAttemptOf acceptedOf arrivals is (entries, refusals)
      | Some (Inl r) \<Rightarrow> assemble_loop settledAttemptOf acceptedOf arrivals is (entries, refusals @ [r])
      | Some (Inr e) \<Rightarrow> assemble_loop settledAttemptOf acceptedOf arrivals is (entries @ [e], refusals))"

definition assembleDownstreamInput ::
  "compiled_input_ref list \<Rightarrow> (string \<Rightarrow> string option) \<Rightarrow> (string \<Rightarrow> accepted_result_reading) \<Rightarrow>
   arrival list \<Rightarrow> downstream_input" where
  "assembleDownstreamInput inputs settledAttemptOf acceptedOf arrivals =
     (if inputs = [] then InputResolved []
      else case assemble_loop settledAttemptOf acceptedOf arrivals inputs ([], []) of
             (entries, refusals) \<Rightarrow>
               if refusals \<noteq> [] then InputBlocked refusals else InputResolved entries)"

subsection \<open>The durable accepted-result read of one transaction\<close>

record accepted_result_evidence =
  are_payload :: accepted_data
  are_artifacts :: "accepted_artifact list option"

text \<open>
  The reads of the ledger transaction: the accepted-event stream of a graph as (attempt, outcome)
  pairs, and the accepted-result read, absent when the substrate exposes none; \<open>Inl\<close> is the text
  of a read that threw.
\<close>

record ledger_reads =
  lr_acceptedEvents :: "string \<Rightarrow> (string \<times> string) list"
  lr_readAcceptedResult :: "(string \<Rightarrow> string \<Rightarrow> string + accepted_result_evidence option) option"

definition durable_result_reading ::
  "string \<Rightarrow> ledger_reads \<Rightarrow> string \<Rightarrow> accepted_result_reading" where
  "durable_result_reading graphId tx attemptId =
     (case lr_readAcceptedResult tx of
        None \<Rightarrow> ResultUnreadable
          (''this substrate exposes no accepted-result read (AcceptanceLedgerTx.readAcceptedResult), so what attempt '' @
           json_quote attemptId @ '' accepted cannot be read back'')
      | Some read \<Rightarrow>
          (case map_of (rev (lr_acceptedEvents tx graphId)) attemptId of
             None \<Rightarrow> ResultNone
           | Some outcomeId \<Rightarrow>
               (case read graphId attemptId of
                  Inl err \<Rightarrow> ResultUnreadable
                    (''the accepted result of attempt '' @ json_quote attemptId @
                     '' could not be read ('' @ err @ '')'')
                | Inr None \<Rightarrow> ResultNone
                | Inr (Some rec) \<Rightarrow>
                    ResultFacts \<lparr>arf_outcomeId = outcomeId, arf_payload = are_payload rec,
                      arf_artifacts = (case are_artifacts rec of None \<Rightarrow> [] | Some xs \<Rightarrow> xs)\<rparr>)))"

definition acceptedResultReaderOf ::
  "string \<Rightarrow> ledger_reads \<Rightarrow> just_accepted_result option \<Rightarrow> string \<Rightarrow> accepted_result_reading" where
  "acceptedResultReaderOf graphId tx justAccepted attemptId =
     (case justAccepted of
        Some j \<Rightarrow> if jar_attemptId j = attemptId then ResultFacts (jar_facts j)
                  else durable_result_reading graphId tx attemptId
      | None \<Rightarrow> durable_result_reading graphId tx attemptId)"

subsection \<open>Reading one retained artifact\<close>

datatype artifact_object_read = ArtifactRead string string | ArtifactProblem string

record artifact_scan =
  as_producerFound :: bool
  as_retained :: bool
  as_identity :: "string option"
  as_conflict :: "string option"

definition scan_artifact :: "string \<Rightarrow> accepted_artifact \<Rightarrow> artifact_scan \<Rightarrow> artifact_scan" where
  "scan_artifact ref a s =
     (if aa_ref a \<noteq> ref then s
      else case as_identity s of
        None \<Rightarrow> s\<lparr>as_retained := True, as_identity := Some (aa_artifactId a)\<rparr>
      | Some identity \<Rightarrow>
          if identity \<noteq> aa_artifactId a
          then s\<lparr>as_retained := True, as_conflict := Some (aa_artifactId a)\<rparr>
          else s\<lparr>as_retained := True\<rparr>)"

definition scan_entry :: "string \<Rightarrow> string \<Rightarrow> resolved_input \<Rightarrow> artifact_scan \<Rightarrow> artifact_scan" where
  "scan_entry from ref e s =
     (if ri_from e \<noteq> from then s
      else fold (scan_artifact ref) (ri_artifacts e) (s\<lparr>as_producerFound := True\<rparr>))"

definition readResolvedArtifact ::
  "resolved_input list \<Rightarrow> string \<Rightarrow> string \<Rightarrow> (string \<Rightarrow> artifact_object_read) \<Rightarrow> artifact_object_read" where
  "readResolvedArtifact entries from ref readById =
     (let s = fold (scan_entry from ref) entries
                \<lparr>as_producerFound = False, as_retained = False, as_identity = None, as_conflict = None\<rparr>
      in if \<not> as_producerFound s then ArtifactProblem ''no resolved input names the producer''
         else if \<not> as_retained s \<or> as_identity s = None
              then ArtifactProblem ''the producer retained no artifact for the reference''
         else if as_conflict s \<noteq> None
              then ArtifactProblem ''the reference is retained under more than one content identity''
         else readById (the (as_identity s)))"

subsection \<open>The persisted shapes\<close>

fun enc_accepted_data :: "accepted_data \<Rightarrow> jsval" where
  "enc_accepted_data DataAbsent = JObj [(''kind'', JStr ''absent'')]"
| "enc_accepted_data (DataValue v) = JObj [(''kind'', JStr ''value''), (''value'', v)]"

definition enc_artifact :: "accepted_artifact \<Rightarrow> jsval" where
  "enc_artifact a =
     JObj [(''ref'', JStr (aa_ref a)), (''artifactId'', JStr (aa_artifactId a)),
           (''digest'', JStr (aa_digest a)), (''size'', js_nat (aa_size a))]"

definition enc_resolved_input :: "resolved_input \<Rightarrow> jsval" where
  "enc_resolved_input e =
     JObj [(''from'', JStr (ri_from e)), (''outcome'', JStr (ri_outcome e)),
           (''attemptId'', JStr (ri_attemptId e)), (''payload'', enc_accepted_data (ri_payload e)),
           (''artifacts'', JArr (map enc_artifact (ri_artifacts e)))]"

definition enc_refusal :: "input_refusal \<Rightarrow> jsval" where
  "enc_refusal r =
     JObj [(''from'', JStr (rf_from r)), (''outcome'', JStr (rf_outcome r)),
           (''code'', JStr (refusal_code_text (rf_code r))), (''message'', JStr (rf_message r))]"

definition readAcceptedData :: "jsval \<Rightarrow> string + accepted_data" where
  "readAcceptedData raw =
     (if \<not> isRecord raw then Inl ''payload is not an accepted-data envelope''
      else if js_get raw ''kind'' = JStr ''absent'' \<and> hasExactKeys raw [''kind''] then Inr DataAbsent
      else if js_get raw ''kind'' = JStr ''value'' \<and> hasExactKeys raw [''kind'', ''value'']
           then Inr (DataValue (js_get raw ''value''))
      else Inl ''payload keys are not the accepted-data envelope'')"

definition ACCEPTED_ARTIFACT_KEYS :: "string list" where
  "ACCEPTED_ARTIFACT_KEYS = [''ref'', ''artifactId'', ''digest'', ''size'']"

definition readAcceptedArtifact :: "jsval \<Rightarrow> string + accepted_artifact" where
  "readAcceptedArtifact raw =
     (if \<not> isRecord raw \<or> \<not> hasExactKeys raw ACCEPTED_ARTIFACT_KEYS
      then Inl ''not an accepted artifact record''
      else case (nonempty_string (js_get raw ''ref''), nonempty_string (js_get raw ''artifactId''),
                 nonempty_string (js_get raw ''digest''), nonneg_safe (js_get raw ''size'')) of
             (Some ref, Some artifactId, Some digest, Some sz) \<Rightarrow>
               Inr \<lparr>aa_ref = ref, aa_artifactId = artifactId, aa_digest = digest, aa_size = sz\<rparr>
           | _ \<Rightarrow> Inl ''artifact fields are not a string triple and a size'')"

definition RESOLVED_INPUT_KEYS :: "string list" where
  "RESOLVED_INPUT_KEYS = [''from'', ''outcome'', ''attemptId'', ''payload'', ''artifacts'']"

definition readOneResolvedInput :: "jsval \<Rightarrow> string + resolved_input" where
  "readOneResolvedInput raw =
     (if \<not> isRecord raw \<or> \<not> hasExactKeys raw RESOLVED_INPUT_KEYS then Inl ''not a bound input record''
      else case (nonempty_string (js_get raw ''from''), nonempty_string (js_get raw ''outcome''),
                 nonempty_string (js_get raw ''attemptId'')) of
             (Some from, Some outcome, Some attemptId) \<Rightarrow>
               rbind (readAcceptedData (js_get raw ''payload'')) (\<lambda>payload.
                 case js_array (js_get raw ''artifacts'') of
                   None \<Rightarrow> Inl ''artifacts is not a list''
                 | Some rawArtifacts \<Rightarrow>
                     rbind (traverse readAcceptedArtifact rawArtifacts) (\<lambda>artifacts.
                       Inr \<lparr>ri_from = from, ri_outcome = outcome, ri_attemptId = attemptId,
                            ri_payload = payload, ri_artifacts = artifacts\<rparr>))
           | _ \<Rightarrow> Inl ''producer, outcome and attempt are not all non-empty strings'')"

definition readResolvedInputs :: "jsval \<Rightarrow> string + resolved_input list" where
  "readResolvedInputs raw =
     (case js_array raw of None \<Rightarrow> Inl ''not a list'' | Some xs \<Rightarrow> traverse readOneResolvedInput xs)"

definition DOWNSTREAM_INPUT_REFUSAL_KEYS :: "string list" where
  "DOWNSTREAM_INPUT_REFUSAL_KEYS = [''from'', ''outcome'', ''code'', ''message'']"

definition read_one_refusal :: "jsval \<Rightarrow> string + input_refusal" where
  "read_one_refusal entry =
     (if \<not> isRecord entry \<or> \<not> hasExactKeys entry DOWNSTREAM_INPUT_REFUSAL_KEYS
      then Inl ''not a named input refusal''
      else case (nonempty_string (js_get entry ''from''), nonempty_string (js_get entry ''outcome''),
                 nonempty_string (js_get entry ''message'')) of
             (Some from, Some outcome, Some message) \<Rightarrow>
               (case (case js_get entry ''code'' of
                        JStr t \<Rightarrow> find (\<lambda>c. refusal_code_text c = t) DOWNSTREAM_INPUT_REFUSAL_CODES
                      | _ \<Rightarrow> None) of
                  None \<Rightarrow> Inl ''code is outside the closed refusal vocabulary''
                | Some code \<Rightarrow> Inr \<lparr>rf_from = from, rf_outcome = outcome, rf_code = code, rf_message = message\<rparr>)
           | _ \<Rightarrow> Inl ''producer, outcome and message are not all non-empty strings'')"

definition readInputRefusals :: "jsval \<Rightarrow> string + input_refusal list" where
  "readInputRefusals raw =
     (case js_array raw of None \<Rightarrow> Inl ''not a list'' | Some xs \<Rightarrow> traverse read_one_refusal xs)"

subsection \<open>What assembly returns\<close>

definition applicable_input :: "arrival list \<Rightarrow> compiled_input_ref \<Rightarrow> bool" where
  "applicable_input arrivals i \<longleftrightarrow>
     (cir_triggered i \<longrightarrow>
        list_ex (\<lambda>a. arr_from a = cir_from i \<and> arr_outcome a = cir_outcome i) arrivals)"

lemma resolve_input_None: "resolve_input s a arrs i = None \<longleftrightarrow> \<not> applicable_input arrs i"
proof -
  have "applicable_input arrs i \<longleftrightarrow>
      (cir_triggered i \<longrightarrow> find (\<lambda>a. arr_from a = cir_from i \<and> arr_outcome a = cir_outcome i) arrs \<noteq> None)"
    by (simp add: applicable_input_def find_None_all list_ex_iff)
  then show ?thesis
    by (simp add: resolve_input_def Let_def split: option.split accepted_result_reading.split)
qed

lemma resolve_input_Inr:
  assumes "resolve_input s a arrs i = Some (Inr e)"
  shows "ri_from e = cir_from i" "ri_outcome e = cir_outcome i"
    and "a (ri_attemptId e) = ResultFacts \<lparr>arf_outcomeId = cir_outcome i, arf_payload = ri_payload e,
           arf_artifacts = ri_artifacts e\<rparr>"
    and "s (cir_from i) = Some (ri_attemptId e) \<or>
         (cir_triggered i \<and> (\<exists>r \<in> set arrs. arr_from r = cir_from i \<and> arr_outcome r = cir_outcome i \<and>
            arr_attemptId r = ri_attemptId e))"
  using assms
  by (auto simp: resolve_input_def Let_def split: option.splits if_splits accepted_result_reading.splits
           dest!: find_Some_in intro!: accepted_result_facts.equality)

lemma resolve_input_Inl:
  assumes "resolve_input s a arrs i = Some (Inl r)"
  shows "rf_from r = cir_from i" "rf_outcome r = cir_outcome i" "rf_message r \<noteq> []"
  using assms
  by (auto simp: resolve_input_def refusal_of_def msg_no_settled_attempt_def msg_unreadable_def
           msg_no_result_def msg_other_outcome_def Let_def
           split: option.splits if_splits accepted_result_reading.splits)

text \<open>The loop's two accumulators, in closed form.\<close>

fun as_entry :: "('r + 'e) option \<Rightarrow> 'e option" where
  "as_entry (Some (Inr e)) = Some e"
| "as_entry _ = None"

fun as_refusal :: "('r + 'e) option \<Rightarrow> 'r option" where
  "as_refusal (Some (Inl r)) = Some r"
| "as_refusal _ = None"

lemma as_entry_Some [simp]: "as_entry x = Some e \<longleftrightarrow> x = Some (Inr e)"
  by (cases x rule: as_entry.cases) auto

lemma as_refusal_Some [simp]: "as_refusal x = Some r \<longleftrightarrow> x = Some (Inl r)"
  by (cases x rule: as_refusal.cases) auto

definition resolved_entries where
  "resolved_entries s a arrs is = List.map_filter (\<lambda>i. as_entry (resolve_input s a arrs i)) is"

definition resolved_refusals where
  "resolved_refusals s a arrs is = List.map_filter (\<lambda>i. as_refusal (resolve_input s a arrs i)) is"

lemma resolved_entries_simps [simp]:
  "resolved_entries s a arrs [] = []"
  "resolved_entries s a arrs (i # is) =
     (case as_entry (resolve_input s a arrs i) of None \<Rightarrow> [] | Some e \<Rightarrow> [e]) @ resolved_entries s a arrs is"
  by (simp_all add: resolved_entries_def map_filter_simps split: option.splits)

lemma resolved_refusals_simps [simp]:
  "resolved_refusals s a arrs [] = []"
  "resolved_refusals s a arrs (i # is) =
     (case as_refusal (resolve_input s a arrs i) of None \<Rightarrow> [] | Some r \<Rightarrow> [r]) @ resolved_refusals s a arrs is"
  by (simp_all add: resolved_refusals_def map_filter_simps split: option.splits)

lemma assemble_loop_closed:
  "assemble_loop s a arrs is acc =
     (fst acc @ resolved_entries s a arrs is, snd acc @ resolved_refusals s a arrs is)"
proof (induction "is" arbitrary: acc)
  case Nil
  show ?case by simp
next
  case (Cons i "is")
  show ?case
    by (cases acc; cases "resolve_input s a arrs i" rule: as_entry.cases) (simp_all add: Cons.IH)
qed

lemma assembleDownstreamInput_closed:
  "assembleDownstreamInput is s a arrs =
     (if resolved_refusals s a arrs is \<noteq> [] then InputBlocked (resolved_refusals s a arrs is)
      else InputResolved (resolved_entries s a arrs is))"
  by (simp add: assembleDownstreamInput_def assemble_loop_closed)

lemma resolved_entries_set:
  "e \<in> set (resolved_entries s a arrs is) \<longleftrightarrow> (\<exists>i \<in> set is. resolve_input s a arrs i = Some (Inr e))"
  by (induction "is") (auto split: option.splits simp del: as_entry_Some simp: as_entry_Some [symmetric])

lemma resolved_refusals_set:
  "r \<in> set (resolved_refusals s a arrs is) \<longleftrightarrow> (\<exists>i \<in> set is. resolve_input s a arrs i = Some (Inl r))"
  by (induction "is") (auto split: option.splits simp del: as_refusal_Some simp: as_refusal_Some [symmetric])

lemma resolved_refusals_empty:
  "resolved_refusals s a arrs is = [] \<longleftrightarrow> (\<forall>i \<in> set is. \<forall>r. resolve_input s a arrs i \<noteq> Some (Inl r))"
  using resolved_refusals_set [of _ s a arrs "is"] by (metis all_not_in_conv set_empty)

lemma resolved_entries_order:
  assumes "resolved_refusals s a arrs is = []"
  shows "map (\<lambda>e. (ri_from e, ri_outcome e)) (resolved_entries s a arrs is) =
         map (\<lambda>i. (cir_from i, cir_outcome i)) (filter (applicable_input arrs) is)"
  using assms
proof (induction "is")
  case Nil
  show ?case by (simp add: resolved_entries_def map_filter_simps)
next
  case (Cons i "is")
  then have IH: "map (\<lambda>e. (ri_from e, ri_outcome e)) (resolved_entries s a arrs is) =
         map (\<lambda>i. (cir_from i, cir_outcome i)) (filter (applicable_input arrs) is)"
    by simp
  show ?case
  proof (cases "resolve_input s a arrs i")
    case None
    moreover have "\<not> applicable_input arrs i" using None resolve_input_None by metis
    ultimately show ?thesis using IH by simp
  next
    case (Some x)
    moreover have "applicable_input arrs i" using Some resolve_input_None [of s a arrs i] by simp
    ultimately show ?thesis
      using IH Cons.prems resolve_input_Inr(1,2) [of s a arrs i]
      by (cases x) auto
  qed
qed

subsection \<open>The readers return what the writers wrote\<close>

definition ok_artifact :: "accepted_artifact \<Rightarrow> bool" where
  "ok_artifact a \<longleftrightarrow>
     aa_ref a \<noteq> [] \<and> aa_artifactId a \<noteq> [] \<and> aa_digest a \<noteq> [] \<and> int (aa_size a) \<le> max_safe"

definition ok_resolved_input :: "resolved_input \<Rightarrow> bool" where
  "ok_resolved_input e \<longleftrightarrow>
     ri_from e \<noteq> [] \<and> ri_outcome e \<noteq> [] \<and> ri_attemptId e \<noteq> [] \<and> list_all ok_artifact (ri_artifacts e)"

definition ok_refusal :: "input_refusal \<Rightarrow> bool" where
  "ok_refusal r \<longleftrightarrow> rf_from r \<noteq> [] \<and> rf_outcome r \<noteq> [] \<and> rf_message r \<noteq> []"

lemma readAcceptedData_enc [roundtrip]: "readAcceptedData (enc_accepted_data d) = Inr d"
  by (cases d) (simp_all add: readAcceptedData_def hasExactKeys_def)

lemma readAcceptedArtifact_enc: "ok_artifact a \<Longrightarrow> readAcceptedArtifact (enc_artifact a) = Inr a"
  by (simp add: readAcceptedArtifact_def enc_artifact_def ok_artifact_def hasExactKeys_def
      ACCEPTED_ARTIFACT_KEYS_def)

lemma readAcceptedArtifact_ok: "readAcceptedArtifact v = Inr a \<Longrightarrow> ok_artifact a"
  by (auto simp: readAcceptedArtifact_def ok_artifact_def nonempty_string_Some
           split: if_splits option.splits dest: nonneg_safe_bound)

interpretation artifact: strict_codec enc_artifact readAcceptedArtifact ok_artifact
  by unfold_locales (simp_all add: readAcceptedArtifact_enc readAcceptedArtifact_ok)

lemma readOneResolvedInput_enc:
  "ok_resolved_input e \<Longrightarrow> readOneResolvedInput (enc_resolved_input e) = Inr e"
  by (simp add: readOneResolvedInput_def enc_resolved_input_def ok_resolved_input_def hasExactKeys_def
      RESOLVED_INPUT_KEYS_def readAcceptedData_enc artifact.list_dec_enc)

lemma readOneResolvedInput_ok: "readOneResolvedInput v = Inr e \<Longrightarrow> ok_resolved_input e"
  by (auto simp: readOneResolvedInput_def ok_resolved_input_def nonempty_string_Some result_simps
           split: if_splits option.splits)
     (rule artifact.list_dec_ok)

interpretation bound_input: strict_codec enc_resolved_input readOneResolvedInput ok_resolved_input
  by unfold_locales (simp_all add: readOneResolvedInput_enc readOneResolvedInput_ok)

lemma find_refusal_code:
  "find (\<lambda>c. refusal_code_text c = refusal_code_text code) DOWNSTREAM_INPUT_REFUSAL_CODES = Some code"
  by (cases code) (simp_all add: DOWNSTREAM_INPUT_REFUSAL_CODES_def)

lemma read_one_refusal_enc: "ok_refusal r \<Longrightarrow> read_one_refusal (enc_refusal r) = Inr r"
  by (simp add: read_one_refusal_def enc_refusal_def ok_refusal_def hasExactKeys_def
      DOWNSTREAM_INPUT_REFUSAL_KEYS_def find_refusal_code)

lemma read_one_refusal_ok: "read_one_refusal v = Inr r \<Longrightarrow> ok_refusal r"
  by (auto simp: read_one_refusal_def ok_refusal_def nonempty_string_Some
           split: if_splits option.splits jsval.splits)

interpretation refusal: strict_codec enc_refusal read_one_refusal ok_refusal
  by unfold_locales (simp_all add: read_one_refusal_enc read_one_refusal_ok)

lemma readResolvedInputs_enc [roundtrip]:
  "list_all ok_resolved_input es \<Longrightarrow> readResolvedInputs (JArr (map enc_resolved_input es)) = Inr es"
  by (simp add: readResolvedInputs_def bound_input.list_dec_enc)

lemma readResolvedInputs_ok: "readResolvedInputs v = Inr es \<Longrightarrow> list_all ok_resolved_input es"
  by (auto simp: readResolvedInputs_def split: option.splits intro: bound_input.list_dec_ok)

lemma readInputRefusals_enc [roundtrip]:
  "list_all ok_refusal rs \<Longrightarrow> readInputRefusals (JArr (map enc_refusal rs)) = Inr rs"
  by (simp add: readInputRefusals_def refusal.list_dec_enc)

lemma readInputRefusals_ok: "readInputRefusals v = Inr rs \<Longrightarrow> list_all ok_refusal rs"
  by (auto simp: readInputRefusals_def split: option.splits intro: refusal.list_dec_ok)

end
