(* ===== verification/Progress.thy ===== *)
theory Progress
  imports Plan
begin

text \<open>
  Loop progress (\<open>graph/outcome/progress.ts\<close>): measuring one submission into a bounded projection
  outside the transaction, and comparing the projection with the persisted baseline inside it. The
  consecutive-unchanged counter this keeps is the run's only soft stop.

  The text form of a number, which a diagnostic quotes, is the runtime's own and is a parameter
  (\<open>numText\<close>). A property read that throws is not a JSON value and has no counterpart here.
\<close>

subsection \<open>Data\<close>

record validation_binding =
  vb_graphId :: string
  vb_attemptId :: string
  vb_submissionId :: string
  vb_planRevision :: string
  vb_proposalDigest :: string

record loop_progress =
  lp_loopGroupId :: string
  lp_evaluator :: string
  lp_version :: nat
  lp_subject :: string
  lp_unchanged :: nat
  lp_baseline :: "string option"

datatype observation = Token string | Truncated nat | Incomparable string

record progress_projection =
  pj_binding :: validation_binding
  pj_loopGroupId :: string
  pj_evaluator :: string
  pj_version :: nat
  pj_subject :: string
  pj_observation :: observation

datatype projection_refusal_code = ProgressSubjectMissing | ProgressEvaluatorUnavailable

record projection_refusal =
  pr_code :: projection_refusal_code
  pr_path :: string

datatype projection_reading = Projected progress_projection | ProjectionRefused "projection_refusal list"

definition PROGRESS_EVALUATOR_REVISION_TOKEN :: string where
  "PROGRESS_EVALUATOR_REVISION_TOKEN = ''revision-token''"

definition PROGRESS_EVALUATORS :: "string list" where
  "PROGRESS_EVALUATORS = [PROGRESS_EVALUATOR_REVISION_TOKEN]"

definition PROGRESS_VALUE_MAX_LENGTH :: nat where
  "PROGRESS_VALUE_MAX_LENGTH = 256"

subsection \<open>Projection\<close>

fun describeValue :: "(jsnum \<Rightarrow> string) \<Rightarrow> jsval \<Rightarrow> string" where
  "describeValue numText JNull = ''null''"
| "describeValue numText JUndef = ''undefined''"
| "describeValue numText (JStr s) = json_quote s"
| "describeValue numText (JNum n) = numText n"
| "describeValue numText (JBool b) = (if b then ''true'' else ''false'')"
| "describeValue numText (JArr _) = ''an array''"
| "describeValue numText (JObj _) = ''an object''"

definition observe :: "(jsnum \<Rightarrow> string) \<Rightarrow> jsval \<Rightarrow> observation" where
  "observe numText v =
     (case v of
        JStr s \<Rightarrow>
          if length s = 0 then Incomparable ''an empty string''
          else if length s > PROGRESS_VALUE_MAX_LENGTH then Truncated (length s)
          else Token s
      | _ \<Rightarrow> Incomparable (describeValue numText v))"

definition projectionOf ::
  "validation_binding \<Rightarrow> string \<Rightarrow> compiled_progress_policy \<Rightarrow> observation \<Rightarrow> progress_projection" where
  "projectionOf binding loopGroupId policy ob =
     \<lparr>pj_binding = binding, pj_loopGroupId = loopGroupId, pj_evaluator = cpp_evaluator policy,
      pj_version = cpp_version policy, pj_subject = cpp_subject policy, pj_observation = ob\<rparr>"

definition projectProgress ::
  "(jsnum \<Rightarrow> string) \<Rightarrow> validation_binding \<Rightarrow> string \<Rightarrow> compiled_progress_policy \<Rightarrow> jsval \<Rightarrow> projection_reading" where
  "projectProgress numText binding loopGroupId policy data =
     (if find (\<lambda>known. known = cpp_evaluator policy) PROGRESS_EVALUATORS = None then
        ProjectionRefused [\<lparr>pr_code = ProgressEvaluatorUnavailable,
          pr_path = ''$.plan.loopGroups.'' @ loopGroupId @ ''.progress.evaluator''\<rparr>]
      else
        (let present = isRecord data \<and> hasOwnProperty data (cpp_subject policy);
             v = (if present then js_get data (cpp_subject policy) else JUndef)
         in if \<not> present \<or> v = JUndef then
              ProjectionRefused [\<lparr>pr_code = ProgressSubjectMissing,
                pr_path = ''$.data.'' @ cpp_subject policy\<rparr>]
            else Projected (projectionOf binding loopGroupId policy (observe numText v))))"

subsection \<open>Comparison\<close>

datatype unknown_reason = EvaluatorIdentityMismatch | TruncatedValue | IncomparableValue

datatype verdict = Progressed | Unchanged | Unknown unknown_reason

record progress_report =
  rp_loopGroupId :: string
  rp_verdict :: verdict
  rp_evaluator :: string
  rp_version :: nat
  rp_subject :: string
  rp_unchanged :: nat
  rp_baseline :: "string option"
  rp_stalled :: bool

definition reportOf :: "loop_progress \<Rightarrow> verdict \<Rightarrow> bool \<Rightarrow> progress_report" where
  "reportOf entry answer stalled =
     \<lparr>rp_loopGroupId = lp_loopGroupId entry, rp_verdict = answer, rp_evaluator = lp_evaluator entry,
      rp_version = lp_version entry, rp_subject = lp_subject entry, rp_unchanged = lp_unchanged entry,
      rp_baseline = lp_baseline entry, rp_stalled = stalled\<rparr>"

definition unknownComparison :: "loop_progress \<Rightarrow> unknown_reason \<Rightarrow> progress_report \<times> loop_progress" where
  "unknownComparison entry reason =
     (let cleared = entry\<lparr>lp_unchanged := 0\<rparr> in (reportOf cleared (Unknown reason) False, cleared))"

definition compareProgress ::
  "compiled_progress_policy \<Rightarrow> loop_progress \<Rightarrow> progress_projection \<Rightarrow> progress_report \<times> loop_progress" where
  "compareProgress policy entry projection =
     (if lp_evaluator entry \<noteq> pj_evaluator projection \<or> lp_version entry \<noteq> pj_version projection \<or>
         lp_subject entry \<noteq> pj_subject projection
      then unknownComparison entry EvaluatorIdentityMismatch
      else case pj_observation projection of
        Truncated _ \<Rightarrow> unknownComparison entry TruncatedValue
      | Incomparable _ \<Rightarrow> unknownComparison entry IncomparableValue
      | Token token \<Rightarrow>
          (case lp_baseline entry of
             None \<Rightarrow>
               let established = entry\<lparr>lp_unchanged := 0, lp_baseline := Some token\<rparr>
               in (reportOf established Progressed False, established)
           | Some baseline \<Rightarrow>
               if baseline = token then
                 let unchanged = lp_unchanged entry + 1;
                     stalled = (unchanged \<ge> cpp_maxUnchanged policy);
                     same = entry\<lparr>lp_unchanged := unchanged\<rparr>
                 in (reportOf same Unchanged stalled, same)
               else
                 let progressed = entry\<lparr>lp_unchanged := 0, lp_baseline := Some token\<rparr>
                 in (reportOf progressed Progressed False, progressed)))"

subsection \<open>Facts the reducer and the codec use\<close>

lemma compareProgress_identity [simp]:
  "lp_loopGroupId (snd (compareProgress p e j)) = lp_loopGroupId e"
  "lp_evaluator (snd (compareProgress p e j)) = lp_evaluator e"
  "lp_version (snd (compareProgress p e j)) = lp_version e"
  "lp_subject (snd (compareProgress p e j)) = lp_subject e"
  by (simp_all add: compareProgress_def unknownComparison_def Let_def split: observation.split option.split)

lemma compareProgress_stalled:
  "rp_stalled (fst (compareProgress p e j)) \<Longrightarrow>
     rp_verdict (fst (compareProgress p e j)) = Unchanged \<and>
     lp_baseline e \<noteq> None \<and> lp_baseline (snd (compareProgress p e j)) = lp_baseline e \<and>
     lp_unchanged (snd (compareProgress p e j)) = Suc (lp_unchanged e) \<and>
     cpp_maxUnchanged p \<le> Suc (lp_unchanged e)"
  by (auto simp: compareProgress_def unknownComparison_def reportOf_def Let_def
           split: if_splits observation.splits option.splits)

lemma compareProgress_not_stalled:
  "\<not> rp_stalled (fst (compareProgress p e j)) \<Longrightarrow> 0 < cpp_maxUnchanged p \<Longrightarrow>
     lp_unchanged (snd (compareProgress p e j)) < cpp_maxUnchanged p"
  by (auto simp: compareProgress_def unknownComparison_def reportOf_def Let_def
           split: if_splits observation.splits option.splits)

lemma compareProgress_unchanged_le:
  "lp_unchanged (snd (compareProgress p e j)) \<le> Suc (lp_unchanged e)"
  by (auto simp: compareProgress_def unknownComparison_def reportOf_def Let_def
           split: if_splits observation.splits option.splits)

lemma compareProgress_baseline:
  assumes "lp_baseline (snd (compareProgress p e j)) = Some t"
  shows "lp_baseline e = Some t \<or> pj_observation j = Token t"
  using assms
  by (auto simp: compareProgress_def unknownComparison_def reportOf_def Let_def
           split: if_splits observation.splits option.splits)

lemma observe_Token: "observe numText v = Token t \<Longrightarrow> t \<noteq> [] \<and> length t \<le> PROGRESS_VALUE_MAX_LENGTH"
  by (auto simp: observe_def split: jsval.splits if_splits)

subsection \<open>The counter counts back-to-back repetitions\<close>

text \<open>
  A sequence of observations compared under one policy, from the entry a run starts with.
\<close>

definition compare_observation :: "compiled_progress_policy \<Rightarrow> observation \<Rightarrow> loop_progress \<Rightarrow> loop_progress" where
  "compare_observation policy ob entry =
     snd (compareProgress policy entry
       \<lparr>pj_binding = \<lparr>vb_graphId = [], vb_attemptId = [], vb_submissionId = [], vb_planRevision = [],
          vb_proposalDigest = []\<rparr>, pj_loopGroupId = lp_loopGroupId entry, pj_evaluator = lp_evaluator entry,
        pj_version = lp_version entry, pj_subject = lp_subject entry, pj_observation = ob\<rparr>)"

definition run_observations :: "compiled_progress_policy \<Rightarrow> loop_progress \<Rightarrow> observation list \<Rightarrow> loop_progress" where
  "run_observations policy entry obs = fold (compare_observation policy) obs entry"

text \<open>The last comparable revision of a sequence of observations.\<close>

fun token_of :: "observation \<Rightarrow> string option" where
  "token_of (Token t) = Some t"
| "token_of _ = None"

definition last_token :: "observation list \<Rightarrow> string option" where
  "last_token obs = (let ts = List.map_filter token_of obs in if ts = [] then None else Some (last ts))"

lemma last_token_snoc [simp]:
  "last_token (obs @ [ob]) = (case token_of ob of None \<Rightarrow> last_token obs | Some t \<Rightarrow> Some t)"
proof -
  have "List.map_filter token_of (obs @ [ob]) =
      List.map_filter token_of obs @ (case token_of ob of None \<Rightarrow> [] | Some t \<Rightarrow> [t])"
    by (induction obs) (auto simp: map_filter_simps split: option.splits)
  then show ?thesis
    by (simp add: last_token_def split: option.split)
qed

lemma last_token_Nil [simp]: "last_token [] = None"
  by (simp add: last_token_def map_filter_simps)

lemma run_observations_snoc:
  "run_observations p e (obs @ [ob]) = compare_observation p ob (run_observations p e obs)"
  by (simp add: run_observations_def)

lemma compare_observation_simps:
  "lp_baseline (compare_observation p ob e) = (case token_of ob of None \<Rightarrow> lp_baseline e | Some t \<Rightarrow> Some t)"
  "lp_unchanged (compare_observation p ob e) =
     (if token_of ob \<noteq> None \<and> token_of ob = lp_baseline e then Suc (lp_unchanged e) else 0)"
  by (cases ob; auto simp: compare_observation_def compareProgress_def unknownComparison_def Let_def
        split: option.splits)+

lemma run_observations_baseline:
  "lp_baseline e = None \<Longrightarrow> lp_baseline (run_observations p e obs) = last_token obs"
  by (induction obs rule: rev_induct)
     (simp_all add: run_observations_snoc compare_observation_simps run_observations_def split: option.split)

text \<open>
  The streak stands at \<open>n\<close> or more exactly when the last \<open>n\<close> observations are one and the same
  token and the last comparable revision before them was that token too.
\<close>

lemma replicate_snoc: "replicate (Suc k) x = replicate k x @ [x]"
  by (simp add: replicate_append_same)

lemma replicate_snoc_iff:
  "(\<exists>pre. obs @ [ob] = pre @ replicate (Suc m) x \<and> P pre) \<longleftrightarrow>
   ob = x \<and> (\<exists>pre. obs = pre @ replicate m x \<and> P pre)"
  unfolding replicate_snoc by auto

lemma streak_step:
  "Suc m \<le> lp_unchanged (compare_observation p ob e) \<longleftrightarrow>
   (\<exists>t. ob = Token t \<and> lp_baseline e = Some t \<and> m \<le> lp_unchanged e)"
  by (cases ob) (auto simp: compare_observation_simps)

lemma streak_spec:
  assumes "lp_baseline e = None" and "lp_unchanged e = 0" and "0 < n"
  shows "n \<le> lp_unchanged (run_observations p e obs) \<longleftrightarrow>
    (\<exists>t pre. obs = pre @ replicate n (Token t) \<and> last_token pre = Some t)"
  using assms(3)
proof (induction obs arbitrary: n rule: rev_induct)
  case Nil
  then show ?case using assms(2) by (auto simp: run_observations_def)
next
  case (snoc ob obs)
  obtain m where n: "n = Suc m" using snoc.prems by (cases n) auto
  have base: "lp_baseline (run_observations p e obs) = last_token obs"
    using assms(1) by (rule run_observations_baseline)
  have tail: "last_token obs = Some t \<and> m \<le> lp_unchanged (run_observations p e obs) \<longleftrightarrow>
      (\<exists>pre. obs = pre @ replicate m (Token t) \<and> last_token pre = Some t)" for t
  proof (cases m)
    case (Suc k)
    have last: "last_token (pre @ replicate m (Token u)) = Some u" for pre u
      unfolding Suc replicate_snoc append_assoc [symmetric] last_token_snoc by simp
    show ?thesis
      using snoc.IH [of m] Suc last by (metis option.inject zero_less_Suc)
  qed simp
  show ?case
    unfolding n run_observations_snoc streak_step base replicate_snoc_iff tail by blast
qed

end
