(* ===== verification/HostIdentity.thy ===== *)
theory HostIdentity
  imports Codec
begin

text \<open>
  Host invocation identities (\<open>graph/outcome/host-identity.ts\<close>): the (session, agent) attribution an
  attempt is armed under, its strict reader and the total comparison of two optional identities.
\<close>

record host_identity =
  hi_sessionId :: string
  hi_agentId :: string

definition readHostInvocationIdentity :: "jsval \<Rightarrow> host_identity option" where
  "readHostInvocationIdentity raw =
     (if \<not> isRecord raw then None
      else if \<not> hasExactKeys raw [''sessionId'', ''agentId''] then None
      else case (nonempty_string (js_get raw ''sessionId''), nonempty_string (js_get raw ''agentId'')) of
             (Some sessionId, Some agentId) \<Rightarrow>
               Some \<lparr>hi_sessionId = sessionId, hi_agentId = agentId\<rparr>
           | _ \<Rightarrow> None)"

fun equalHostInvocationIdentity :: "host_identity option \<Rightarrow> host_identity option \<Rightarrow> bool" where
  "equalHostInvocationIdentity (Some left) (Some right) =
     (hi_sessionId left = hi_sessionId right \<and> hi_agentId left = hi_agentId right)"
| "equalHostInvocationIdentity _ _ = False"

definition enc_identity :: "host_identity \<Rightarrow> jsval" where
  "enc_identity i = JObj [(''sessionId'', JStr (hi_sessionId i)), (''agentId'', JStr (hi_agentId i))]"

definition ok_identity :: "host_identity \<Rightarrow> bool" where
  "ok_identity i \<longleftrightarrow> hi_sessionId i \<noteq> [] \<and> hi_agentId i \<noteq> []"

lemma readHostInvocationIdentity_enc [roundtrip]:
  "ok_identity i \<Longrightarrow> readHostInvocationIdentity (enc_identity i) = Some i"
  by (simp add: readHostInvocationIdentity_def enc_identity_def ok_identity_def hasExactKeys_def)

lemma readHostInvocationIdentity_ok: "readHostInvocationIdentity v = Some i \<Longrightarrow> ok_identity i"
  by (auto simp: readHostInvocationIdentity_def ok_identity_def nonempty_string_Some
           split: if_splits option.splits)

lemma equalHostInvocationIdentity_iff:
  "equalHostInvocationIdentity l r \<longleftrightarrow> (\<exists>i. l = Some i \<and> r = Some i)"
proof (cases l; cases r)
  fix a b assume "l = Some a" "r = Some b"
  then show ?thesis by (auto intro: host_identity.equality)
qed auto

end
