(* ===== verification/AttemptCredential.thy ===== *)
theory AttemptCredential
  imports JsValue
begin

text \<open>
  Attempt credentials (\<open>graph/outcome/attempt-credential.ts\<close>): the binding an attempt's bearer nonce
  is minted for, the mint that refuses an unusable nonce, and the digest the durable state records
  instead of it.

  The platform hash (\<open>createHash("sha256")\<close>, hex) and the nonce source are code outside the
  repository's own sources and are parameters: \<open>sha\<close> and \<open>source\<close>.
\<close>

record attempt_identity =
  ai_graphId :: string
  ai_nodeId :: string
  ai_attemptId :: string
  ai_planRevision :: string

record attempt_binding =
  ab_graphId :: string
  ab_nodeId :: string
  ab_attemptId :: string
  ab_planRevision :: string
  ab_permission :: string

type_synonym credential_source = "attempt_binding \<Rightarrow> jsval"
type_synonym hash_hex = "string \<Rightarrow> string"

definition SUBMIT_OUTCOME_PERMISSION :: string where
  "SUBMIT_OUTCOME_PERMISSION = ''submit-outcome''"

definition attemptCredentialBinding :: "attempt_identity \<Rightarrow> attempt_binding" where
  "attemptCredentialBinding i =
     \<lparr>ab_graphId = ai_graphId i, ab_nodeId = ai_nodeId i, ab_attemptId = ai_attemptId i,
      ab_planRevision = ai_planRevision i, ab_permission = SUBMIT_OUTCOME_PERMISSION\<rparr>"

definition ATTEMPT_CREDENTIAL_DIGEST_PREFIX :: string where
  "ATTEMPT_CREDENTIAL_DIGEST_PREFIX = ''sha256:''"

definition ATTEMPT_CREDENTIAL_DIGEST_HEX :: nat where
  "ATTEMPT_CREDENTIAL_DIGEST_HEX = 64"

definition attemptCredentialDigest :: "hash_hex \<Rightarrow> string \<Rightarrow> string" where
  "attemptCredentialDigest sha credential = ATTEMPT_CREDENTIAL_DIGEST_PREFIX @ sha credential"

definition is_lower_hex :: "char \<Rightarrow> bool" where
  "is_lower_hex c = ((CHR ''0'' \<le> c \<and> c \<le> CHR ''9'') \<or> (CHR ''a'' \<le> c \<and> c \<le> CHR ''f''))"

fun isAttemptCredentialDigest :: "jsval \<Rightarrow> bool" where
  "isAttemptCredentialDigest (JStr v) =
     (if take (length ATTEMPT_CREDENTIAL_DIGEST_PREFIX) v \<noteq> ATTEMPT_CREDENTIAL_DIGEST_PREFIX then False
      else let hex = drop (length ATTEMPT_CREDENTIAL_DIGEST_PREFIX) v
           in if length hex \<noteq> ATTEMPT_CREDENTIAL_DIGEST_HEX then False
              else list_all is_lower_hex hex)"
| "isAttemptCredentialDigest _ = False"

fun isAttemptCredential :: "jsval \<Rightarrow> bool" where
  "isAttemptCredential (JStr v) = (length v > 0 \<and> \<not> isAttemptCredentialDigest (JStr v))"
| "isAttemptCredential _ = False"

datatype mint_error = UnusableCredential string

text \<open>The mint throws when the source answers anything but a usable credential.\<close>

definition mintAttemptCredential :: "credential_source \<Rightarrow> attempt_binding \<Rightarrow> mint_error + string" where
  "mintAttemptCredential source binding =
     (let credential = source binding
      in if \<not> isAttemptCredential credential then Inl (UnusableCredential (ab_nodeId binding))
         else case credential of JStr v \<Rightarrow> Inr v | _ \<Rightarrow> Inl (UnusableCredential (ab_nodeId binding)))"

text \<open>
  What the sources rely on of the platform hash: a digest is 64 lower-case hexadecimal digits.
\<close>

definition hex_hash :: "hash_hex \<Rightarrow> bool" where
  "hex_hash sha \<longleftrightarrow> (\<forall>s. length (sha s) = ATTEMPT_CREDENTIAL_DIGEST_HEX \<and> list_all is_lower_hex (sha s))"

lemma isAttemptCredentialDigest_digest:
  "hex_hash sha \<Longrightarrow> isAttemptCredentialDigest (JStr (attemptCredentialDigest sha c))"
  by (simp add: hex_hash_def attemptCredentialDigest_def ATTEMPT_CREDENTIAL_DIGEST_PREFIX_def Let_def)

lemma mintAttemptCredential_Inr:
  "mintAttemptCredential source b = Inr c \<longleftrightarrow>
     source b = JStr c \<and> c \<noteq> [] \<and> \<not> isAttemptCredentialDigest (JStr c)"
  by (cases "source b") (auto simp: mintAttemptCredential_def Let_def)

end
