(* ===== verification/StateModel.thy ===== *)
theory StateModel
  imports Inputs Progress HostIdentity AttemptCredential
begin

text \<open>
  The persisted run state (\<open>graph/outcome/state-model.ts\<close>, \<open>state-errors.ts\<close>): one entry per plan
  node discriminated on its status, the closed stop and phase vocabularies, the per-loop-group
  counters and the body versions. A field an arm of the source declares \<open>never\<close> is a field the
  constructor does not have.

  The two records keyed by loop-group id are association lists. \<open>gs_loopProgress\<close> is optional
  because the reducer guards against a state that carries none.
\<close>

datatype node_state =
    PendingNode
      (ns_nodeId: string)
      (ns_arrivals: "arrival list")
      (ns_inputRefusals: "input_refusal list option")
  | DispatchedNode
      (ns_nodeId: string)
      (ns_attemptId: string)
      (ns_attemptSeq: nat)
      (ns_attemptCredentialDigest: string)
      (ns_dispatchIdentity: "host_identity option")
      (ns_dispatchedAt: int)
      (ns_arrivals: "arrival list")
      (ns_inputs: "resolved_input list option")
      (ns_inputRefusals: "input_refusal list option")
  | SettledNode
      (ns_nodeId: string)
      (ns_attemptId: string)
      (ns_attemptSeq: nat)
      (ns_attemptCredentialDigest: string)
      (ns_dispatchIdentity: "host_identity option")
      (ns_outcomeId: string)
      (ns_dispatchedAt: int)
      (ns_settledAt: int)
      (ns_arrivals: "arrival list")
      (ns_inputs: "resolved_input list option")
      (ns_inputRefusals: "input_refusal list option")

datatype node_status = Pending | Dispatched | Settled

fun ns_status :: "node_state \<Rightarrow> node_status" where
  "ns_status (PendingNode _ _ _) = Pending"
| "ns_status (DispatchedNode _ _ _ _ _ _ _ _ _) = Dispatched"
| "ns_status (SettledNode _ _ _ _ _ _ _ _ _ _ _) = Settled"

datatype graph_phase = Ready | Executing | Complete | Stopped

datatype stop_reason = LoopExhausted | ProgressStalled | UnreachablePendingNode

definition OUTCOME_STOP_REASONS :: "stop_reason list" where
  "OUTCOME_STOP_REASONS = [LoopExhausted, ProgressStalled, UnreachablePendingNode]"

record loop_exhausted_stop =
  le_loopGroupId :: string
  le_nodeId :: string
  le_outcomeId :: string
  le_attemptId :: string
  le_traversals :: nat
  le_maxTraversals :: nat
  le_stoppedAt :: int

record progress_stalled_stop =
  ps_loopGroupId :: string
  ps_nodeId :: string
  ps_outcomeId :: string
  ps_attemptId :: string
  ps_unchanged :: nat
  ps_maxUnchanged :: nat
  ps_evaluator :: string
  ps_evaluatorVersion :: nat
  ps_subject :: string
  ps_baseline :: string
  ps_stoppedAt :: int

record unreachable_pending_stop =
  up_blockedNodes :: "(string \<times> string list) list"
  up_stoppedAt :: int

datatype outcome_stop =
    StopLoopExhausted loop_exhausted_stop
  | StopProgressStalled progress_stalled_stop
  | StopUnreachable unreachable_pending_stop

record graph_state =
  gs_bodyVersion :: nat
  gs_graphId :: string
  gs_planRevision :: string
  gs_phase :: graph_phase
  gs_nodes :: "node_state list"
  gs_loopTraversals :: "(string \<times> nat) list"
  gs_attemptSeq :: nat
  gs_stop :: "outcome_stop option"
  gs_loopProgress :: "(string \<times> loop_progress) list option"

definition OUTCOME_STATE_BODY_V9 :: nat where
  "OUTCOME_STATE_BODY_V9 = 9"

definition OUTCOME_STATE_BODY_V10 :: nat where
  "OUTCOME_STATE_BODY_V10 = 10"

definition CURRENT_OUTCOME_STATE_BODY :: nat where
  "CURRENT_OUTCOME_STATE_BODY = OUTCOME_STATE_BODY_V10"

text \<open>Thrown by a reader of the persisted state; the text names the check that failed.\<close>

datatype state_problem = StatePlanMismatch | UnsupportedStateVersion | MalformedState

datatype state_error = OutcomeStateError state_problem string

abbreviation malformedState :: "string \<Rightarrow> state_error" where
  "malformedState detail \<equiv> OutcomeStateError MalformedState detail"

subsection \<open>Object spreads over an entry\<close>

text \<open>\<open>{ ...entry, arrivals }\<close> and \<open>{ ...entry, inputRefusals }\<close>.\<close>

fun with_arrivals :: "arrival list \<Rightarrow> node_state \<Rightarrow> node_state" where
  "with_arrivals as (PendingNode i _ r) = PendingNode i as r"
| "with_arrivals as (DispatchedNode i a s d h t _ inp r) = DispatchedNode i a s d h t as inp r"
| "with_arrivals as (SettledNode i a s d h oc t u _ inp r) = SettledNode i a s d h oc t u as inp r"

fun with_inputRefusals :: "input_refusal list \<Rightarrow> node_state \<Rightarrow> node_state" where
  "with_inputRefusals rs (PendingNode i as _) = PendingNode i as (Some rs)"
| "with_inputRefusals rs (DispatchedNode i a s d h t as inp _) = DispatchedNode i a s d h t as inp (Some rs)"
| "with_inputRefusals rs (SettledNode i a s d h oc t u as inp _) = SettledNode i a s d h oc t u as inp (Some rs)"

text \<open>The last entry recorded for a node id: \<open>entries.set(entry.nodeId, entry)\<close> over the list.\<close>

definition entry_of :: "node_state list \<Rightarrow> string \<Rightarrow> node_state option" where
  "entry_of nodes = map_of (rev (map (\<lambda>e. (ns_nodeId e, e)) nodes))"

subsection \<open>The attempt a presented credential names\<close>

fun attemptEntryHoldingCredential :: "hash_hex \<Rightarrow> node_state list \<Rightarrow> string \<Rightarrow> node_state option" where
  "attemptEntryHoldingCredential sha [] credential = None"
| "attemptEntryHoldingCredential sha (entry # entries) credential =
     (if ns_status entry = Pending then attemptEntryHoldingCredential sha entries credential
      else if ns_attemptCredentialDigest entry = attemptCredentialDigest sha credential then Some entry
      else attemptEntryHoldingCredential sha entries credential)"

subsection \<open>Facts about entries\<close>

lemma with_arrivals_simps [simp]:
  "ns_nodeId (with_arrivals as e) = ns_nodeId e"
  "ns_status (with_arrivals as e) = ns_status e"
  "ns_arrivals (with_arrivals as e) = as"
  "ns_inputRefusals (with_arrivals as e) = ns_inputRefusals e"
  by (cases e; simp)+

lemma with_arrivals_attempt [simp]:
  "ns_status e \<noteq> Pending \<Longrightarrow> ns_attemptId (with_arrivals as e) = ns_attemptId e"
  "ns_status e \<noteq> Pending \<Longrightarrow> ns_attemptSeq (with_arrivals as e) = ns_attemptSeq e"
  "ns_status e \<noteq> Pending \<Longrightarrow> ns_attemptCredentialDigest (with_arrivals as e) = ns_attemptCredentialDigest e"
  "ns_status e \<noteq> Pending \<Longrightarrow> ns_inputs (with_arrivals as e) = ns_inputs e"
  "ns_status e = Settled \<Longrightarrow> ns_outcomeId (with_arrivals as e) = ns_outcomeId e"
  by (cases e; simp)+

lemma with_inputRefusals_simps [simp]:
  "ns_nodeId (with_inputRefusals rs e) = ns_nodeId e"
  "ns_status (with_inputRefusals rs e) = ns_status e"
  "ns_arrivals (with_inputRefusals rs e) = ns_arrivals e"
  "ns_inputRefusals (with_inputRefusals rs e) = Some rs"
  by (cases e; simp)+

lemma with_inputRefusals_attempt [simp]:
  "ns_status e \<noteq> Pending \<Longrightarrow> ns_attemptId (with_inputRefusals rs e) = ns_attemptId e"
  "ns_status e \<noteq> Pending \<Longrightarrow> ns_attemptSeq (with_inputRefusals rs e) = ns_attemptSeq e"
  "ns_status e \<noteq> Pending \<Longrightarrow> ns_attemptCredentialDigest (with_inputRefusals rs e) = ns_attemptCredentialDigest e"
  "ns_status e \<noteq> Pending \<Longrightarrow> ns_inputs (with_inputRefusals rs e) = ns_inputs e"
  "ns_status e = Settled \<Longrightarrow> ns_outcomeId (with_inputRefusals rs e) = ns_outcomeId e"
  by (cases e; simp)+

lemma entry_of_Some: "entry_of nodes i = Some e \<Longrightarrow> e \<in> set nodes \<and> ns_nodeId e = i"
  unfolding entry_of_def by (drule map_of_SomeD) auto

lemma entry_of_None: "entry_of nodes i = None \<longleftrightarrow> i \<notin> ns_nodeId ` set nodes"
  by (auto simp: entry_of_def map_of_eq_None_iff image_iff)

lemma entry_of_distinct:
  assumes "distinct (map ns_nodeId nodes)" and "e \<in> set nodes"
  shows "entry_of nodes (ns_nodeId e) = Some e"
proof -
  have "distinct (map ns_nodeId (rev nodes))" using assms(1) by (simp add: rev_map [symmetric])
  from map_of_map_pair_distinct [OF this, of e] assms(2) show ?thesis
    by (simp add: entry_of_def rev_map [symmetric])
qed

lemma attemptEntryHoldingCredential_find:
  "attemptEntryHoldingCredential sha es c =
     find (\<lambda>e. ns_status e \<noteq> Pending \<and> ns_attemptCredentialDigest e = attemptCredentialDigest sha c) es"
  by (induction es) auto

end
