(* ===== verification/JoinState.thy ===== *)
theory JoinState
  imports StateModel
begin

text \<open>
  Joins (\<open>graph/outcome/join-state.ts\<close>): which edges are loop continuations, which nodes a join
  waits for, the arrivals the settled entries corroborate, which candidates may be armed together,
  and which pending nodes a run can no longer reach.

  A \<open>Set\<close> is the list of its members in insertion order, a \<open>Map\<close> a partial function. The round
  bound of \<open>resolveArmSet\<close> is the source's own; \<open>resolveArmSet_consistent\<close> shows it is never
  exhausted. The \<open>while\<close> of \<open>stillReachableNodes\<close> is a total function by its measure.
\<close>

subsection \<open>Edge classes\<close>

definition edge_key :: "compiled_edge \<Rightarrow> string" where
  "edge_key e = ce_from e @ [nul] @ ce_to e @ [nul] @ ce_outcome e"

definition loopContinuationEdgesOf :: "compiled_plan \<Rightarrow> string list" where
  "loopContinuationEdgesOf plan =
     foldl (\<lambda>loopEdges group.
       foldl (\<lambda>acc e.
         if ce_outcome e = clg_continuationOutcome group \<and> ce_from e \<in> set (clg_nodes group) \<and>
            ce_to e \<in> set (clg_nodes group)
         then set_add (edge_key e) acc else acc) loopEdges (cp_edges plan))
       [] (cp_loopGroups plan)"

definition entryNodesOf :: "compiled_plan \<Rightarrow> compiled_node list" where
  "entryNodesOf plan =
     (let loopEdges = loopContinuationEdgesOf plan;
          targeted = foldl (\<lambda>acc e. if edge_key e \<in> set loopEdges then acc else set_add (ce_to e) acc)
                       [] (cp_edges plan)
      in filter (\<lambda>n. cn_id n \<notin> set targeted) (cp_nodes plan))"

definition feederSourcesOf :: "compiled_plan \<Rightarrow> string \<Rightarrow> string list" where
  "feederSourcesOf plan targetId =
     (let loopEdges = loopContinuationEdgesOf plan
      in foldl (\<lambda>sources e.
           if ce_to e \<noteq> targetId \<or> ce_from e \<in> set sources then sources
           else if edge_key e \<in> set loopEdges then sources
           else sources @ [ce_from e]) [] (cp_edges plan))"

subsection \<open>Arrivals\<close>

definition push_arrival :: "arrival \<Rightarrow> compiled_edge \<Rightarrow> (string \<rightharpoonup> arrival list) \<Rightarrow> (string \<rightharpoonup> arrival list)" where
  "push_arrival a e m =
     (if ce_outcome e \<noteq> arr_outcome a then m
      else case m (ce_to e) of
        None \<Rightarrow> m
      | Some xs \<Rightarrow> if xs \<noteq> [] \<and> arr_from (last xs) = arr_from a then m else m(ce_to e \<mapsto> xs @ [a]))"

definition route_source ::
  "compiled_plan \<Rightarrow> node_state list \<Rightarrow> string list \<Rightarrow> compiled_node \<Rightarrow>
   (string \<rightharpoonup> arrival list) \<Rightarrow> (string \<rightharpoonup> arrival list)" where
  "route_source plan nodes suppressed source m =
     (if cn_id source \<in> set suppressed then m
      else case entry_of nodes (cn_id source) of
        Some (SettledNode i attemptId _ _ _ outcomeId _ _ _ _ _) \<Rightarrow>
          fold (push_arrival \<lparr>arr_from = cn_id source, arr_outcome = outcomeId, arr_attemptId = attemptId\<rparr>)
            (filter (\<lambda>e. ce_from e = cn_id source) (cp_edges plan)) m
      | _ \<Rightarrow> m)"

definition materializeArrivals ::
  "compiled_plan \<Rightarrow> node_state list \<Rightarrow> string list \<Rightarrow> (string \<rightharpoonup> arrival list)" where
  "materializeArrivals plan nodes suppressed =
     fold (route_source plan nodes suppressed) (cp_nodes plan)
       (map_of (map (\<lambda>n. (cn_id n, [])) (cp_nodes plan)))"

abbreviation arrivals_at :: "(string \<rightharpoonup> arrival list) \<Rightarrow> string \<Rightarrow> arrival list" where
  "arrivals_at m i \<equiv> (case m i of None \<Rightarrow> [] | Some xs \<Rightarrow> xs)"

subsection \<open>Join satisfaction\<close>

definition joinSatisfiedBy :: "compiled_node \<Rightarrow> string list \<Rightarrow> string list \<Rightarrow> bool" where
  "joinSatisfiedBy target arrived feeders =
     (if length feeders = 0 then True
      else let count = length (filter (\<lambda>f. f \<in> set arrived) feeders);
               strategy = resolveJoinStrategy (cn_join target)
           in case strategy of
                QuorumStrategy _ \<Rightarrow>
                  (case readQuorum strategy of None \<Rightarrow> False | Some quorum \<Rightarrow> int count \<ge> quorum)
              | AnyStrategy \<Rightarrow> count \<ge> 1
              | AllStrategy \<Rightarrow> count = length feeders)"

definition joinSatisfiedFor :: "compiled_plan \<Rightarrow> compiled_node \<Rightarrow> arrival list \<Rightarrow> bool" where
  "joinSatisfiedFor plan target arrivals =
     joinSatisfiedBy target (js_set (map arr_from arrivals)) (feederSourcesOf plan (cn_id target))"

subsection \<open>The arm set\<close>

definition arm_suppressed :: "compiled_node list \<Rightarrow> string list \<Rightarrow> string list \<Rightarrow> string list" where
  "arm_suppressed armable notInFlight notArmed =
     foldl (\<lambda>acc n. if cn_id n \<in> set notArmed then acc
                     else if cn_id n \<in> set notInFlight then acc
                     else set_add (cn_id n) acc) [] armable"

definition arm_round ::
  "compiled_plan \<Rightarrow> node_state list \<Rightarrow> compiled_node list \<Rightarrow> string list \<Rightarrow> string list \<Rightarrow>
   string list \<times> bool" where
  "arm_round plan nodes armable notInFlight notArmed =
     (let arrivals = materializeArrivals plan nodes (arm_suppressed armable notInFlight notArmed)
      in foldl (\<lambda>(na, grew) n.
           if cn_id n \<in> set na then (na, grew)
           else if entry_of nodes (cn_id n) = None \<or>
                   \<not> joinSatisfiedFor plan n (arrivals_at arrivals (cn_id n))
                then (set_add (cn_id n) na, True)
                else (na, grew)) (notArmed, False) armable)"

fun arm_rounds ::
  "nat \<Rightarrow> compiled_plan \<Rightarrow> node_state list \<Rightarrow> compiled_node list \<Rightarrow> string list \<Rightarrow> string list \<Rightarrow> string list" where
  "arm_rounds 0 plan nodes armable notInFlight notArmed = notArmed"
| "arm_rounds (Suc k) plan nodes armable notInFlight notArmed =
     (case arm_round plan nodes armable notInFlight notArmed of
        (na, grew) \<Rightarrow> if grew then arm_rounds k plan nodes armable notInFlight na else na)"

definition resolveArmSet ::
  "compiled_plan \<Rightarrow> node_state list \<Rightarrow> compiled_node list \<Rightarrow> string list \<Rightarrow> string list" where
  "resolveArmSet plan nodes armable notInFlight =
     (let notArmed = arm_rounds (Suc (length armable)) plan nodes armable notInFlight []
      in foldl (\<lambda>acc n. if cn_id n \<in> set notArmed then acc else set_add (cn_id n) acc) [] armable)"

subsection \<open>What a run can still reach\<close>

definition status_of :: "node_state list \<Rightarrow> string \<Rightarrow> node_status option" where
  "status_of nodes i = map_option ns_status (entry_of nodes i)"

definition reach_pass :: "compiled_plan \<Rightarrow> node_state list \<Rightarrow> string list \<Rightarrow> string list" where
  "reach_pass plan nodes reachable =
     foldl (\<lambda>r n.
       if cn_id n \<in> set r \<or> status_of nodes (cn_id n) = Some Settled then r
       else if \<not> list_ex (\<lambda>e. ce_to e = cn_id n \<and> ce_from e \<in> set r) (cp_edges plan) then r
       else set_add (cn_id n) r) reachable (cp_nodes plan)"

lemma reach_fold_bounds:
  fixes r ns f P Q
  defines "out \<equiv> foldl (\<lambda>r n. if P n r then r else if Q n r then r else set_add (f n) r) r ns"
  shows "set r \<subseteq> set out \<and> set out \<subseteq> set r \<union> f ` set ns"
  unfolding out_def
proof (induction ns arbitrary: r)
  case (Cons n ns)
  let ?r = "if P n r then r else if Q n r then r else set_add (f n) r"
  have "set r \<subseteq> set ?r" "set ?r \<subseteq> insert (f n) (set r)" by auto
  with Cons.IH [of ?r] show ?case
    unfolding foldl.simps list.set by blast
qed simp

lemma reach_pass_mono: "set r \<subseteq> set (reach_pass plan nodes r)"
  unfolding reach_pass_def by (rule reach_fold_bounds [THEN conjunct1])

lemma reach_pass_bound: "set (reach_pass plan nodes r) \<subseteq> set r \<union> set (node_ids plan)"
  unfolding reach_pass_def set_map by (rule reach_fold_bounds [THEN conjunct2])

lemma reach_pass_measure:
  assumes "set (reach_pass plan nodes r) \<noteq> set r"
  shows "card (set (node_ids plan) - set (reach_pass plan nodes r)) < card (set (node_ids plan) - set r)"
proof (rule psubset_card_mono)
  from assms obtain x where x: "x \<in> set (reach_pass plan nodes r)" "x \<notin> set r"
    using reach_pass_mono by blast
  then have "x \<in> set (node_ids plan)" using reach_pass_bound by blast
  with x show "set (node_ids plan) - set (reach_pass plan nodes r) \<subset> set (node_ids plan) - set r"
    using reach_pass_mono by blast
qed simp

text \<open>
  The \<open>while (grew)\<close> loop: a pass that adds nothing is the last one.
\<close>

function reach_loop :: "compiled_plan \<Rightarrow> node_state list \<Rightarrow> string list \<Rightarrow> string list" where
  "reach_loop plan nodes reachable =
     (let next = reach_pass plan nodes reachable
      in if set next = set reachable then reachable else reach_loop plan nodes next)"
  by auto
termination
  by (relation "measure (\<lambda>(plan, nodes, r). card (set (node_ids plan) - set r))")
     (use reach_pass_measure in auto)

declare reach_loop.simps [simp del]

definition stillReachableNodes :: "compiled_plan \<Rightarrow> node_state list \<Rightarrow> string list" where
  "stillReachableNodes plan nodes =
     reach_loop plan nodes
       (foldl (\<lambda>r n. if status_of nodes (cn_id n) = Some Dispatched then set_add (cn_id n) r else r)
          [] (cp_nodes plan))"

definition unsatisfiablePendingNodes ::
  "compiled_plan \<Rightarrow> node_state list \<Rightarrow> (string \<times> string list) list" where
  "unsatisfiablePendingNodes plan nodes =
     (let reachable = stillReachableNodes plan nodes
      in foldl (\<lambda>blocked n.
           if status_of nodes (cn_id n) \<noteq> Some Pending then blocked
           else let lost = filter (\<lambda>f. f \<notin> set reachable) (feederSourcesOf plan (cn_id n))
                in if lost = [] then blocked else AList.update (cn_id n) lost blocked)
           [] (cp_nodes plan))"

subsection \<open>Comparisons of the readers\<close>

definition sameMembers :: "string list \<Rightarrow> string list \<Rightarrow> bool" where
  "sameMembers a b = (length a = length b \<and> list_all (\<lambda>i. i \<in> set b) a)"

definition sameArrivals :: "arrival list \<Rightarrow> arrival list \<Rightarrow> bool" where
  "sameArrivals a b =
     (length a = length b \<and>
      list_all (\<lambda>(x, y). arr_from x = arr_from y \<and> arr_outcome x = arr_outcome y \<and>
                          arr_attemptId x = arr_attemptId y) (zip a b))"

definition verifyArrivals :: "compiled_plan \<Rightarrow> node_state list \<Rightarrow> state_error + unit" where
  "verifyArrivals plan nodes =
     (let canonical = materializeArrivals plan nodes []
      in if list_all (\<lambda>e. sameArrivals (ns_arrivals e) (arrivals_at canonical (ns_nodeId e))) nodes
         then Inr () else Inl (malformedState ''arrivals''))"

subsection \<open>Feeders and entry nodes\<close>

lemma foldl_set_add_filter:
  "foldl (\<lambda>acc x. if P x then set_add (f x) acc else acc) acc xs =
   foldl (\<lambda>s x. set_add x s) acc (map f (filter P xs))"
  by (induction xs arbitrary: acc) auto

lemma foldl_set_add_filter_not:
  "foldl (\<lambda>acc x. if P x then acc else set_add (f x) acc) acc xs =
   foldl (\<lambda>s x. set_add x s) acc (map f (filter (\<lambda>x. \<not> P x) xs))"
  by (induction xs arbitrary: acc) auto

definition continuation_edge :: "compiled_plan \<Rightarrow> compiled_edge \<Rightarrow> bool" where
  "continuation_edge plan e \<longleftrightarrow> edge_key e \<in> set (loopContinuationEdgesOf plan)"

lemma set_loopContinuationEdgesOf:
  "set (loopContinuationEdgesOf plan) =
     {edge_key e | e g. e \<in> set (cp_edges plan) \<and> g \<in> set (cp_loopGroups plan) \<and>
        ce_outcome e = clg_continuationOutcome g \<and> ce_from e \<in> set (clg_nodes g) \<and> ce_to e \<in> set (clg_nodes g)}"
proof -
  have "set (foldl (\<lambda>loopEdges group. foldl (\<lambda>acc e.
         if ce_outcome e = clg_continuationOutcome group \<and> ce_from e \<in> set (clg_nodes group) \<and>
            ce_to e \<in> set (clg_nodes group)
         then set_add (edge_key e) acc else acc) loopEdges es) acc gs) =
      set acc \<union> {edge_key e | e g. e \<in> set es \<and> g \<in> set gs \<and>
        ce_outcome e = clg_continuationOutcome g \<and> ce_from e \<in> set (clg_nodes g) \<and> ce_to e \<in> set (clg_nodes g)}"
    for acc and gs :: "compiled_loop_group list" and es :: "compiled_edge list"
    by (induction gs arbitrary: acc) (simp_all add: foldl_set_add_filter foldl_set_add, blast)
  then show ?thesis by (simp add: loopContinuationEdgesOf_def)
qed

lemma feederSourcesOf_js_set:
  "feederSourcesOf plan t =
     js_set (map ce_from (filter (\<lambda>e. ce_to e = t \<and> \<not> continuation_edge plan e) (cp_edges plan)))"
proof -
  have "foldl (\<lambda>sources e. if ce_to e \<noteq> t \<or> ce_from e \<in> set sources then sources
           else if edge_key e \<in> set L then sources else sources @ [ce_from e]) acc es =
        foldl (\<lambda>s x. set_add x s) acc (map ce_from (filter (\<lambda>e. ce_to e = t \<and> \<not> edge_key e \<in> set L) es))"
    for acc L and es :: "compiled_edge list"
    by (induction es arbitrary: acc) (auto simp: set_add_def)
  then show ?thesis
    by (simp add: feederSourcesOf_def js_set_def continuation_edge_def)
qed

lemma set_feederSourcesOf:
  "set (feederSourcesOf plan t) =
     {ce_from e | e. e \<in> set (cp_edges plan) \<and> ce_to e = t \<and> \<not> continuation_edge plan e}"
  by (auto simp: feederSourcesOf_js_set)

lemma distinct_feederSourcesOf: "distinct (feederSourcesOf plan t)"
  by (simp add: feederSourcesOf_js_set)

lemma entryNodesOf_feeders:
  "entryNodesOf plan = filter (\<lambda>n. feederSourcesOf plan (cn_id n) = []) (cp_nodes plan)"
proof -
  have "t \<in> set (foldl (\<lambda>acc e. if edge_key e \<in> set (loopContinuationEdgesOf plan) then acc
            else set_add (ce_to e) acc) [] (cp_edges plan)) \<longleftrightarrow> feederSourcesOf plan t \<noteq> []" for t
    unfolding foldl_set_add_filter_not foldl_set_add set_empty [symmetric] set_feederSourcesOf
      continuation_edge_def
    by auto
  then show ?thesis by (simp add: entryNodesOf_def Let_def)
qed

lemma sorted_foldl_set_add:
  "sorted (acc @ xs) \<Longrightarrow> sorted (foldl (\<lambda>s x. set_add x s) acc (xs :: 'a :: linorder list))"
  by (induction xs arbitrary: acc) (auto simp: set_add_def sorted_append)

lemma sorted_map_fst_lex:
  fixes f :: "'a \<Rightarrow> 'b :: linorder" and g :: "'a \<Rightarrow> 'c :: linorder"
  shows "sorted (map (\<lambda>x. (f x, g x)) xs) \<Longrightarrow> sorted (map f xs)"
  by (induction xs) auto

lemma sorted_feederSourcesOf:
  assumes "wf_plan plan"
  shows "sorted (feederSourcesOf plan t)"
proof -
  have "sorted (map edge_order (cp_edges plan))" using assms by (simp add: wf_plan_def)
  then have "sorted (map ce_from (cp_edges plan))"
    unfolding edge_order_def by (rule sorted_map_fst_lex)
  then have "sorted (map ce_from (filter P (cp_edges plan)))" for P
    by (rule sorted_filter)
  then show ?thesis
    by (simp add: feederSourcesOf_js_set js_set_def sorted_foldl_set_add)
qed

lemma feeder_is_node:
  "wf_plan plan \<Longrightarrow> f \<in> set (feederSourcesOf plan t) \<Longrightarrow> f \<in> set (node_ids plan)"
  using wf_plan_edge(1) by (fastforce simp: set_feederSourcesOf)

subsection \<open>Arrivals in closed form\<close>

text \<open>What a node has settled on: its outcome and the attempt that produced it.\<close>

fun settled_result :: "node_state \<Rightarrow> (string \<times> string) option" where
  "settled_result (SettledNode _ a _ _ _ oc _ _ _ _ _) = Some (oc, a)"
| "settled_result _ = None"

definition arrival_from ::
  "compiled_plan \<Rightarrow> node_state list \<Rightarrow> string list \<Rightarrow> string \<Rightarrow> compiled_node \<Rightarrow> arrival option" where
  "arrival_from plan nodes suppressed t n =
     (if cn_id n \<in> set suppressed then None
      else case Option.bind (entry_of nodes (cn_id n)) settled_result of
        None \<Rightarrow> None
      | Some (oc, a) \<Rightarrow>
          if list_ex (\<lambda>e. ce_from e = cn_id n \<and> ce_to e = t \<and> ce_outcome e = oc) (cp_edges plan)
          then Some \<lparr>arr_from = cn_id n, arr_outcome = oc, arr_attemptId = a\<rparr> else None)"

lemma push_fold_done:
  "m t = Some (xs @ [a]) \<Longrightarrow> fold (push_arrival a) es m t = Some (xs @ [a])"
proof (induction es arbitrary: m)
  case (Cons e es)
  then have "push_arrival a e m t = Some (xs @ [a])"
    by (cases "ce_to e = t") (auto simp: push_arrival_def split: option.splits)
  with Cons.IH show ?case by simp
qed simp

lemma push_fold:
  assumes "m t = Some xs" and "\<forall>x \<in> set xs. arr_from x \<noteq> arr_from a"
  shows "fold (push_arrival a) es m t =
    Some (xs @ (if list_ex (\<lambda>e. ce_to e = t \<and> ce_outcome e = arr_outcome a) es then [a] else []))"
  using assms(1)
proof (induction es arbitrary: m)
  case (Cons e es)
  show ?case
  proof (cases "ce_to e = t \<and> ce_outcome e = arr_outcome a")
    case True
    then have "push_arrival a e m t = Some (xs @ [a])"
      using Cons.prems assms(2) by (auto simp: push_arrival_def)
    with True show ?thesis by (simp add: push_fold_done)
  next
    case False
    then have "push_arrival a e m t = Some xs"
      using Cons.prems by (auto simp: push_arrival_def split: option.splits)
    with False Cons.IH show ?thesis by auto
  qed
qed simp

lemma route_source_at:
  assumes "m t = Some xs" and "\<forall>x \<in> set xs. arr_from x \<noteq> cn_id n"
  shows "route_source plan nodes held n m t =
    Some (xs @ (case arrival_from plan nodes held t n of None \<Rightarrow> [] | Some a \<Rightarrow> [a]))"
proof (cases "Option.bind (entry_of nodes (cn_id n)) settled_result")
  case None
  then show ?thesis using assms(1)
    by (auto simp: route_source_def arrival_from_def split: option.splits node_state.splits)
next
  case (Some r)
  then obtain e oc a where e: "entry_of nodes (cn_id n) = Some e" "settled_result e = Some (oc, a)"
      and r: "r = (oc, a)"
    by (cases "entry_of nodes (cn_id n)"; cases r) auto
  let ?a = "\<lparr>arr_from = cn_id n, arr_outcome = oc, arr_attemptId = a\<rparr>"
  have route: "route_source plan nodes held n m = (if cn_id n \<in> set held then m
      else fold (push_arrival ?a) (filter (\<lambda>e. ce_from e = cn_id n) (cp_edges plan)) m)"
    using e by (cases e) (simp_all add: route_source_def)
  have "fold (push_arrival ?a) es m t =
      Some (xs @ (if list_ex (\<lambda>e. ce_to e = t \<and> ce_outcome e = oc) es then [?a] else []))" for es
    using push_fold [of m t xs ?a es] assms by simp
  then show ?thesis
    using assms(1) unfolding route arrival_from_def Some r
    by (auto simp: list_ex_iff)
qed

lemma arrival_from_source: "arrival_from plan nodes held t n = Some a \<Longrightarrow> arr_from a = cn_id n"
  by (auto simp: arrival_from_def split: if_splits option.splits)

lemma route_fold:
  assumes "m t = Some xs" and "distinct (map cn_id ns)" and "\<forall>x \<in> set xs. arr_from x \<notin> cn_id ` set ns"
  shows "fold (route_source plan nodes held) ns m t =
    Some (xs @ List.map_filter (arrival_from plan nodes held t) ns)"
  using assms
proof (induction ns arbitrary: m xs)
  case (Cons n ns)
  let ?new = "case arrival_from plan nodes held t n of None \<Rightarrow> [] | Some a \<Rightarrow> [a]"
  have step: "route_source plan nodes held n m t = Some (xs @ ?new)"
    using Cons.prems by (intro route_source_at) auto
  have "\<forall>x \<in> set (xs @ ?new). arr_from x \<notin> cn_id ` set ns"
    using Cons.prems using arrival_from_source [of plan nodes held t n] by (auto split: option.splits)
  with Cons.IH [of "route_source plan nodes held n m" "xs @ ?new"] step Cons.prems(2) show ?case
    by (simp add: map_filter_simps split: option.splits)
qed (simp add: map_filter_simps)

lemma materializeArrivals_closed:
  assumes "distinct (node_ids plan)" and "t \<in> set (node_ids plan)"
  shows "materializeArrivals plan nodes held t =
    Some (List.map_filter (arrival_from plan nodes held t) (cp_nodes plan))"
proof -
  have "map_of (map (\<lambda>n. (cn_id n, [] :: arrival list)) (cp_nodes plan)) t = Some []"
  proof -
    have "t \<in> cn_id ` set ns \<Longrightarrow> map_of (map (\<lambda>n. (cn_id n, [] :: arrival list)) ns) t = Some []" for ns
      by (induction ns) auto
    then show ?thesis using assms(2) by simp
  qed
  with route_fold [of "map_of (map (\<lambda>n. (cn_id n, [])) (cp_nodes plan))" t "[]" "cp_nodes plan"] assms(1)
  show ?thesis by (simp add: materializeArrivals_def)
qed

abbreviation arrivals_to :: "compiled_plan \<Rightarrow> node_state list \<Rightarrow> string list \<Rightarrow> string \<Rightarrow> arrival list" where
  "arrivals_to plan nodes held t \<equiv> arrivals_at (materializeArrivals plan nodes held) t"

lemma set_map_filter: "y \<in> set (List.map_filter f xs) \<longleftrightarrow> (\<exists>x \<in> set xs. f x = Some y)"
  by (induction xs) (auto simp: map_filter_simps split: option.splits)

lemma arrivals_to_iff:
  assumes "distinct (node_ids plan)" and "t \<in> set (node_ids plan)"
  shows "a \<in> set (arrivals_to plan nodes held t) \<longleftrightarrow>
    (\<exists>n \<in> set (cp_nodes plan). arrival_from plan nodes held t n = Some a)"
  by (simp add: materializeArrivals_closed [OF assms] set_map_filter)

lemma distinct_map_filter_source:
  "distinct (map cn_id ns) \<Longrightarrow> distinct (map arr_from (List.map_filter (arrival_from plan nodes held t) ns))"
proof (induction ns)
  case (Cons n ns)
  then show ?case
    by (auto simp: map_filter_simps set_map_filter split: option.splits)
       (metis arrival_from_source imageI)
qed (simp add: map_filter_simps)

lemma arrivals_to_distinct:
  assumes "distinct (node_ids plan)" and "t \<in> set (node_ids plan)"
  shows "distinct (map arr_from (arrivals_to plan nodes held t))"
  using distinct_map_filter_source assms by (simp add: materializeArrivals_closed)

lemma arrival_from_mono:
  "arrival_from plan nodes held t n = Some a \<Longrightarrow> set held' \<subseteq> set held \<Longrightarrow>
   arrival_from plan nodes held' t n = Some a"
  by (auto simp: arrival_from_def split: if_splits)

lemma arrivals_to_mono:
  assumes "distinct (node_ids plan)" and "t \<in> set (node_ids plan)" and "set held' \<subseteq> set held"
  shows "set (arrivals_to plan nodes held t) \<subseteq> set (arrivals_to plan nodes held' t)"
  unfolding subset_iff arrivals_to_iff [OF assms(1,2)] using arrival_from_mono [OF _ assms(3)] by blast

subsection \<open>Join satisfaction is monotone\<close>

lemma joinSatisfiedBy_mono:
  assumes "joinSatisfiedBy n xs fs" and "set xs \<inter> set fs \<subseteq> set ys"
  shows "joinSatisfiedBy n ys fs"
proof -
  have le: "length (filter (\<lambda>f. f \<in> set xs) fs) \<le> length (filter (\<lambda>f. f \<in> set ys) fs)"
  proof -
    have "set fs' \<subseteq> set fs \<Longrightarrow>
        length (filter (\<lambda>f. f \<in> set xs) fs') \<le> length (filter (\<lambda>f. f \<in> set ys) fs')" for fs'
      using assms(2) by (induction fs') auto
    then show ?thesis by blast
  qed
  then show ?thesis
    using assms(1)
    by (cases "resolveJoinStrategy (cn_join n)")
       (auto simp: joinSatisfiedBy_def Let_def intro: le_antisym [OF length_filter_le])
qed

lemma joinSatisfiedFor_mono:
  assumes "joinSatisfiedFor plan n xs" and "set xs \<subseteq> set ys"
  shows "joinSatisfiedFor plan n ys"
  using assms unfolding joinSatisfiedFor_def by (elim joinSatisfiedBy_mono) auto

lemma resolveJoinStrategy_quorum: "resolveJoinStrategy j = QuorumStrategy q \<Longrightarrow> 1 \<le> q"
  by (cases j rule: resolveJoinStrategy.cases) (auto simp: Let_def split: if_splits option.splits)

lemma joinSatisfiedBy_needs_feeder:
  assumes "joinSatisfiedBy n xs fs" and "fs \<noteq> []"
  shows "set fs \<inter> set xs \<noteq> {}"
proof
  assume "set fs \<inter> set xs = {}"
  then have "filter (\<lambda>f. f \<in> set xs) fs = []" by (auto simp: filter_empty_conv)
  then show False
    using assms resolveJoinStrategy_quorum [of "cn_join n"]
    by (cases "resolveJoinStrategy (cn_join n)") (auto simp: joinSatisfiedBy_def)
qed

subsection \<open>The arm set is consistent\<close>

definition joined_under ::
  "compiled_plan \<Rightarrow> node_state list \<Rightarrow> string list \<Rightarrow> compiled_node \<Rightarrow> bool" where
  "joined_under plan nodes held n \<longleftrightarrow>
     entry_of nodes (cn_id n) \<noteq> None \<and> joinSatisfiedFor plan n (arrivals_to plan nodes held (cn_id n))"

lemma set_arm_suppressed:
  "set (arm_suppressed armable notInFlight notArmed) =
     cn_id ` set armable - set notArmed - set notInFlight"
proof -
  have "set (foldl (\<lambda>acc n. if cn_id n \<in> set notArmed then acc
        else if cn_id n \<in> set notInFlight then acc else set_add (cn_id n) acc) acc ns) =
      set acc \<union> (cn_id ` set ns - set notArmed - set notInFlight)" for acc and ns :: "compiled_node list"
    by (induction ns arbitrary: acc) auto
  then show ?thesis by (simp add: arm_suppressed_def)
qed

text \<open>One round: it grows exactly when some still-armed candidate is not joined, and adds it.\<close>

lemma arm_round_spec:
  assumes "arm_round plan nodes armable notInFlight na = (na', grew)"
  defines "held \<equiv> arm_suppressed armable notInFlight na"
  shows "set na' = set na \<union> {cn_id n | n. n \<in> set armable \<and> cn_id n \<notin> set na \<and> \<not> joined_under plan nodes held n}"
    and "grew \<longleftrightarrow> set na' \<noteq> set na"
    and "grew \<or> na' = na"
proof -
  let ?bad = "\<lambda>n. entry_of nodes (cn_id n) = None \<or>
      \<not> joinSatisfiedFor plan n (arrivals_to plan nodes held (cn_id n))"
  have fold: "\<exists>ys. foldl (\<lambda>(na, grew) n. if cn_id n \<in> set na then (na, grew)
       else if ?bad n then (set_add (cn_id n) na, True) else (na, grew)) (xs, g) ns = (xs @ ys, g \<or> ys \<noteq> []) \<and>
       set ys = {cn_id n | n. n \<in> set ns \<and> cn_id n \<notin> set xs \<and> ?bad n}"
    for xs g and ns :: "compiled_node list"
  proof (induction ns arbitrary: xs g)
    case (Cons n ns)
    show ?case
    proof (cases "cn_id n \<notin> set xs \<and> ?bad n")
      case True
      then obtain ys where ys: "foldl (\<lambda>(na, grew) n. if cn_id n \<in> set na then (na, grew)
          else if ?bad n then (set_add (cn_id n) na, True) else (na, grew)) (xs @ [cn_id n], True) ns =
          ((xs @ [cn_id n]) @ ys, True)"
        "set ys = {cn_id m | m. m \<in> set ns \<and> cn_id m \<notin> set (xs @ [cn_id n]) \<and> ?bad m}"
        using Cons.IH [of "xs @ [cn_id n]" True] by auto
      then show ?thesis using True
        by (intro exI [of _ "cn_id n # ys"]) (auto simp: set_add_def)
    next
      case False
      then show ?thesis using Cons.IH [of xs g] by auto
    qed
  qed auto
  from fold [of na False armable] obtain ys where
    "arm_round plan nodes armable notInFlight na = (na @ ys, ys \<noteq> [])"
    and ys: "set ys = {cn_id n | n. n \<in> set armable \<and> cn_id n \<notin> set na \<and> ?bad n}"
    unfolding arm_round_def held_def Let_def by auto
  with assms(1) have na': "na' = na @ ys" and grew: "grew = (ys \<noteq> [])" by simp_all
  show "set na' = set na \<union> {cn_id n | n. n \<in> set armable \<and> cn_id n \<notin> set na \<and> \<not> joined_under plan nodes held n}"
    unfolding na' set_append ys joined_under_def by simp
  have "set ys \<inter> set na = {}" unfolding ys by blast
  then show "grew \<longleftrightarrow> set na' \<noteq> set na"
    unfolding na' grew by (cases ys) auto
  show "grew \<or> na' = na" unfolding na' grew by simp
qed

text \<open>The round bound is enough: the last round run adds nothing.\<close>

lemma arm_rounds_stable:
  assumes "card (cn_id ` set armable - set na) < k"
    and "arm_rounds k plan nodes armable notInFlight na = na'"
  shows "\<forall>n \<in> set armable. cn_id n \<notin> set na' \<longrightarrow>
           joined_under plan nodes (arm_suppressed armable notInFlight na') n"
  using assms
proof (induction k arbitrary: na)
  case (Suc k)
  obtain na1 grew where round: "arm_round plan nodes armable notInFlight na = (na1, grew)"
    by fastforce
  note spec = arm_round_spec [OF round]
  show ?case
  proof (cases grew)
    case True
    with spec(1,2) obtain n where "n \<in> set armable" "cn_id n \<notin> set na" "cn_id n \<in> set na1" by blast
    moreover have "set na \<subseteq> set na1" using spec(1) by blast
    ultimately have "cn_id ` set armable - set na1 \<subset> cn_id ` set armable - set na" by blast
    then have "card (cn_id ` set armable - set na1) < card (cn_id ` set armable - set na)"
      by (simp add: psubset_card_mono)
    with Suc.prems True round show ?thesis by (intro Suc.IH [of na1]) simp_all
  next
    case False
    with spec(1,3) Suc.prems round show ?thesis by auto
  qed
qed simp

lemma set_resolveArmSet:
  "set (resolveArmSet plan nodes armable notInFlight) =
     cn_id ` set armable - set (arm_rounds (Suc (length armable)) plan nodes armable notInFlight [])"
  unfolding resolveArmSet_def Let_def foldl_set_add_filter_not foldl_set_add
  by (auto simp del: arm_rounds.simps)

lemma resolveArmSet_subset: "set (resolveArmSet plan nodes armable notInFlight) \<subseteq> cn_id ` set armable"
  by (auto simp: set_resolveArmSet)

lemma resolveArmSet_joined:
  assumes "n \<in> set armable" and "cn_id n \<in> set (resolveArmSet plan nodes armable notInFlight)"
  shows "\<exists>held. set held = set (resolveArmSet plan nodes armable notInFlight) - set notInFlight \<and>
           joined_under plan nodes held n"
proof -
  let ?na = "arm_rounds (Suc (length armable)) plan nodes armable notInFlight []"
  have "card (cn_id ` set armable) \<le> length armable"
    by (metis card_length length_map set_map)
  then have "card (cn_id ` set armable - set []) < Suc (length armable)" by simp
  from arm_rounds_stable [OF this refl, of plan nodes notInFlight] assms
  have "joined_under plan nodes (arm_suppressed armable notInFlight ?na) n"
    unfolding set_resolveArmSet by blast
  then show ?thesis
    by (intro exI [of _ "arm_suppressed armable notInFlight ?na"])
       (simp add: set_arm_suppressed set_resolveArmSet)
qed

subsection \<open>Reachability of pending nodes\<close>

inductive can_reach :: "compiled_plan \<Rightarrow> node_state list \<Rightarrow> string \<Rightarrow> bool" for plan nodes where
  in_flight: "i \<in> set (node_ids plan) \<Longrightarrow> status_of nodes i = Some Dispatched \<Longrightarrow> can_reach plan nodes i"
| routed: "can_reach plan nodes (ce_from e) \<Longrightarrow> e \<in> set (cp_edges plan) \<Longrightarrow> ce_to e \<in> set (node_ids plan) \<Longrightarrow>
     status_of nodes (ce_to e) \<noteq> Some Settled \<Longrightarrow> can_reach plan nodes (ce_to e)"

lemma reach_fold_sound:
  assumes "\<forall>i \<in> set r. can_reach plan nodes i" and "set ns \<subseteq> set (cp_nodes plan)"
  shows "\<forall>i \<in> set (foldl (\<lambda>r n. if cn_id n \<in> set r \<or> status_of nodes (cn_id n) = Some Settled then r
       else if \<not> list_ex (\<lambda>e. ce_to e = cn_id n \<and> ce_from e \<in> set r) (cp_edges plan) then r
       else set_add (cn_id n) r) r ns). can_reach plan nodes i"
  using assms
proof (induction ns arbitrary: r)
  case (Cons n ns)
  have "can_reach plan nodes (cn_id n)"
    if "list_ex (\<lambda>e. ce_to e = cn_id n \<and> ce_from e \<in> set r) (cp_edges plan)"
      "status_of nodes (cn_id n) \<noteq> Some Settled"
  proof -
    from that(1) obtain e where e: "e \<in> set (cp_edges plan)" "ce_to e = cn_id n" "ce_from e \<in> set r"
      by (auto simp: list_ex_iff)
    with Cons.prems that(2) show ?thesis using can_reach.routed [of plan nodes e] by simp
  qed
  then have "\<forall>i \<in> set (if cn_id n \<in> set r \<or> status_of nodes (cn_id n) = Some Settled then r
       else if \<not> list_ex (\<lambda>e. ce_to e = cn_id n \<and> ce_from e \<in> set r) (cp_edges plan) then r
       else set_add (cn_id n) r). can_reach plan nodes i"
    using Cons.prems(1) by simp
  from Cons.IH [OF this] Cons.prems(2) show ?case by simp
qed simp

lemma reach_pass_sound: "\<forall>i \<in> set r. can_reach plan nodes i \<Longrightarrow> \<forall>i \<in> set (reach_pass plan nodes r). can_reach plan nodes i"
  unfolding reach_pass_def by (rule reach_fold_sound) simp_all

lemma reach_fold_progress:
  assumes "n \<in> set ns" and "P n" and "\<And>r'. set r \<subseteq> set r' \<Longrightarrow> f n \<notin> set r' \<Longrightarrow> Q n r'"
  shows "f n \<in> set (foldl (\<lambda>r n. if f n \<in> set r \<or> \<not> P n then r else if \<not> Q n r then r else set_add (f n) r) r ns)"
  using assms(1,3)
proof (induction ns arbitrary: r)
  case (Cons m ns)
  let ?step = "\<lambda>r n. if f n \<in> set r \<or> \<not> P n then r else if \<not> Q n r then r else set_add (f n) r"
  show ?case
  proof (cases "n = m")
    case True
    then have "f n \<in> set (?step r m)" using assms(2) Cons.prems(2) [of r] by auto
    then show ?thesis
      using reach_fold_bounds [where r = "?step r m" and f = f and ns = ns
          and P = "\<lambda>n r. f n \<in> set r \<or> \<not> P n" and Q = "\<lambda>n r. \<not> Q n r"]
      by auto
  next
    case False
    with Cons.prems have "n \<in> set ns" by simp
    with Cons.IH [of "?step r m"] Cons.prems(2) show ?thesis by auto
  qed
qed simp

lemma reach_pass_complete:
  assumes "e \<in> set (cp_edges plan)" and "ce_from e \<in> set r" and "ce_to e \<in> set (node_ids plan)"
    and "status_of nodes (ce_to e) \<noteq> Some Settled"
  shows "ce_to e \<in> set (reach_pass plan nodes r)"
proof -
  from assms(3) obtain n where n: "n \<in> set (cp_nodes plan)" "cn_id n = ce_to e" by auto
  have "cn_id n \<in> set (foldl (\<lambda>r n. if cn_id n \<in> set r \<or> \<not> status_of nodes (cn_id n) \<noteq> Some Settled then r
       else if \<not> list_ex (\<lambda>e. ce_to e = cn_id n \<and> ce_from e \<in> set r) (cp_edges plan) then r
       else set_add (cn_id n) r) r (cp_nodes plan))"
    using assms n by (intro reach_fold_progress) (auto simp: list_ex_iff)
  with n(2) show ?thesis by (simp add: reach_pass_def)
qed

lemma reach_loop_spec:
  assumes "\<forall>i \<in> set r. can_reach plan nodes i"
    and "\<And>i. i \<in> set (node_ids plan) \<Longrightarrow> status_of nodes i = Some Dispatched \<Longrightarrow> i \<in> set r"
  shows "set (reach_loop plan nodes r) = {i. can_reach plan nodes i}"
  using assms
proof (induction plan nodes r rule: reach_loop.induct)
  case (1 plan nodes r)
  show ?case
  proof (cases "set (reach_pass plan nodes r) = set r")
    case True
    have "i \<in> set r" if "can_reach plan nodes i" for i
      using that
    proof induction
      case (routed e)
      then show ?case using reach_pass_complete [of e plan r nodes] True by blast
    qed (rule "1.prems"(2))
    with True "1.prems"(1) show ?thesis by (subst reach_loop.simps) auto
  next
    case False
    have "set (reach_loop plan nodes (reach_pass plan nodes r)) = {i. can_reach plan nodes i}"
      using "1.IH" [OF refl False reach_pass_sound] "1.prems" reach_pass_mono by blast
    with False show ?thesis by (subst reach_loop.simps) (simp add: Let_def)
  qed
qed

lemma set_stillReachableNodes: "set (stillReachableNodes plan nodes) = {i. can_reach plan nodes i}"
  unfolding stillReachableNodes_def
  by (rule reach_loop_spec) (auto simp: foldl_set_add_filter foldl_set_add intro: can_reach.in_flight)

lemma nothing_dispatched_unreachable:
  assumes "\<forall>e \<in> set nodes. ns_status e \<noteq> Dispatched"
  shows "\<not> can_reach plan nodes i"
proof
  assume "can_reach plan nodes i"
  then show False
    by induction (use assms in \<open>auto simp: status_of_def dest: entry_of_Some\<close>)
qed

text \<open>The report in closed form: the pending nodes that lost a feeder, each with the feeders it lost.\<close>

definition lost_feeders :: "compiled_plan \<Rightarrow> node_state list \<Rightarrow> string \<Rightarrow> string list" where
  "lost_feeders plan nodes i = filter (\<lambda>f. \<not> can_reach plan nodes f) (feederSourcesOf plan i)"

lemma foldl_update_fresh:
  assumes "distinct (map f ns)" and "f ` set ns \<inter> fst ` set acc = {}"
  shows "foldl (\<lambda>acc n. if P n then acc else if g n = [] then acc else AList.update (f n) (g n) acc) acc ns =
         acc @ map (\<lambda>n. (f n, g n)) (filter (\<lambda>n. \<not> P n \<and> g n \<noteq> []) ns)"
  using assms
proof (induction ns arbitrary: acc)
  case (Cons n ns)
  then have "AList.update (f n) (g n) acc = acc @ [(f n, g n)]"
    by (intro update_fresh) auto
  with Cons show ?case by auto
qed simp

lemma unsatisfiablePendingNodes_closed:
  assumes "distinct (node_ids plan)"
  shows "unsatisfiablePendingNodes plan nodes =
    map (\<lambda>n. (cn_id n, lost_feeders plan nodes (cn_id n)))
      (filter (\<lambda>n. status_of nodes (cn_id n) = Some Pending \<and> lost_feeders plan nodes (cn_id n) \<noteq> [])
        (cp_nodes plan))"
proof -
  have lost: "filter (\<lambda>f. f \<notin> set (stillReachableNodes plan nodes)) (feederSourcesOf plan i) =
      lost_feeders plan nodes i" for i
    by (simp add: lost_feeders_def set_stillReachableNodes)
  show ?thesis
    unfolding unsatisfiablePendingNodes_def Let_def lost
    by (subst foldl_update_fresh) (use assms in simp_all)
qed

lemma unsatisfiable_nothing_dispatched:
  assumes "distinct (node_ids plan)" and "\<forall>e \<in> set nodes. ns_status e \<noteq> Dispatched"
  shows "unsatisfiablePendingNodes plan nodes =
    map (\<lambda>n. (cn_id n, feederSourcesOf plan (cn_id n)))
      (filter (\<lambda>n. status_of nodes (cn_id n) = Some Pending \<and> feederSourcesOf plan (cn_id n) \<noteq> [])
        (cp_nodes plan))"
  using assms by (simp add: unsatisfiablePendingNodes_closed lost_feeders_def nothing_dispatched_unreachable)

subsection \<open>The readers' comparisons decide equality\<close>

lemma arrival_eq_iff:
  "x = y \<longleftrightarrow> arr_from x = arr_from y \<and> arr_outcome x = arr_outcome y \<and> arr_attemptId x = arr_attemptId (y :: arrival)"
  by (cases x; cases y) simp

lemma sameArrivals_iff: "sameArrivals a b \<longleftrightarrow> a = b"
proof (induction a arbitrary: b)
  case (Cons x a)
  show ?case
    using Cons.IH by (cases b) (auto simp: sameArrivals_def arrival_eq_iff)
qed (auto simp: sameArrivals_def)

lemma verifyArrivals_iff:
  "verifyArrivals plan nodes = Inr u \<longleftrightarrow>
     (\<forall>e \<in> set nodes. ns_arrivals e = arrivals_to plan nodes [] (ns_nodeId e))"
  by (auto simp: verifyArrivals_def sameArrivals_iff list_all_iff)

lemma sameMembers_iff:
  assumes "distinct a" and "distinct b"
  shows "sameMembers a b \<longleftrightarrow> set a = set b"
  using assms
  by (auto simp: sameMembers_def list_all_iff distinct_card [symmetric] intro: card_subset_eq)
     (metis List.finite_set card_subset_eq distinct_card subsetI)+

end
