(* ===== verification/Compile.thy ===== *)
theory Compile
  imports Declaration JoinState
begin

text \<open>
  The compiler (\<open>graph/compiler/compile.ts\<close>): from a raw version-3 declaration and the host's installed
  capabilities to an executable plan, a non-executable draft, or the list of issues.

  The accumulators the compilation threads through the nodes (contract content and identities,
  unresolved requirements, authorizations) are the record \<open>compile_context\<close>; a \<open>Map\<close> is the list of its
  entries in insertion order. A throw inside the compilation can only come from the content address of the
  assembled plan; \<open>compileGraph\<close> turns it into an issue. Warnings are not modelled, no code is defined for one.
\<close>

subsection \<open>Context\<close>

record completion_authorization =
  cau_nodeId :: string
  cau_outcome :: string
  cau_policy :: completion_policy_ref

record compile_context =
  cx_snapshots :: "(string \<times> jsval) list"
  cx_identities :: "(string \<times> (string \<times> string) list) list"
  cx_unresolved :: "compiled_unresolved_requirement list"
  cx_authorizations :: "completion_authorization list"
  cx_unauthorized :: "compiled_unauthorized_completion list"
  cx_usedPolicies :: "(string \<times> completion_policy_snapshot) list"

definition empty_context :: compile_context where
  "empty_context = \<lparr>cx_snapshots = [], cx_identities = [], cx_unresolved = [], cx_authorizations = [], cx_unauthorized = [], cx_usedPolicies = []\<rparr>"

datatype policy_reading =
    PolicyAbsent | PolicyNotInstalled | PolicyIdUnknown | PolicyRevisionUnknown | PolicyFound completion_policy_snapshot

record completion_policy_context =
  pc_graphId :: string
  pc_request :: "(string \<times> string) option"
  pc_reading :: policy_reading

subsection \<open>Indexing nodes\<close>

text \<open>The first declaration of an id is the canonical one.\<close>

definition first_by_id :: "jsval list \<Rightarrow> (string \<times> jsval) list" where
  "first_by_id vs = foldl (\<lambda>m v. if id_of v \<in> set (map fst m) then m else m @ [(id_of v, v)]) [] vs"

definition repeated_ids :: "jsval list \<Rightarrow> string list" where
  "repeated_ids vs = filter (\<lambda>i. length (filter (\<lambda>v. id_of v = i) vs) > 1) (sort (js_set (map id_of vs)))"

definition indexNodes :: "jsval list \<Rightarrow> (string \<times> jsval) list \<times> compile_issue list" where
  "indexNodes nodes =
     (sort_key fst (first_by_id nodes), map (\<lambda>i. (Topology DuplicateNodeId, nodePath i)) (repeated_ids nodes))"

subsection \<open>Completion authorization\<close>

definition readGraphCompletionPolicyRequest :: "jsval \<Rightarrow> (string \<times> string) option \<times> compile_issue list" where
  "readGraphCompletionPolicyRequest declaration =
     (let raw = js_get declaration ''completion_policy'' in
      if raw = JUndef then (None, [])
      else case (nonempty_string (js_get raw ''id''), nonempty_string (js_get raw ''revision'')) of
             (Some i, Some revision) \<Rightarrow> (Some (i, revision), [])
           | _ \<Rightarrow> (None, [(MalformedDeclaration, ''completion_policy'')]))"

definition createCompletionContext :: "compile_options \<Rightarrow> string \<Rightarrow> jsval \<Rightarrow> completion_policy_context \<times> compile_issue list" where
  "createCompletionContext options graphId declaration =
     (let (request, issues) = readGraphCompletionPolicyRequest declaration;
          reading = (case request of
              None \<Rightarrow> PolicyAbsent
            | Some r \<Rightarrow>
                (case op_completionPolicies options of
                   None \<Rightarrow> PolicyNotInstalled
                 | Some registry \<Rightarrow>
                     (case resolveCompletionPolicy r registry of
                        PolicyResolved s \<Rightarrow> PolicyFound s
                      | UnknownPolicy _ \<Rightarrow> PolicyIdUnknown
                      | UnknownPolicyRevision _ _ \<Rightarrow> PolicyRevisionUnknown
                      | PolicyDigestMismatch _ _ \<Rightarrow> PolicyAbsent)))
      in (\<lparr>pc_graphId = graphId, pc_request = request, pc_reading = reading\<rparr>, issues))"

definition add_unauthorized :: "completion_policy_context \<Rightarrow> string \<Rightarrow> string \<Rightarrow> completion_issue_code \<Rightarrow> compile_context \<Rightarrow> compile_context" where
  "add_unauthorized policy nodeId outcome code cx =
     cx\<lparr>cx_unauthorized := cx_unauthorized cx @
       [\<lparr>cuc_nodeId = nodeId, cuc_outcome = outcome, cuc_code = issue_code_text code, cuc_request = pc_request policy\<rparr>]\<rparr>"

definition authorizeCompletion ::
  "completion_policy_context \<Rightarrow> string \<Rightarrow> string \<Rightarrow> compile_context \<Rightarrow> compile_context \<times> compile_issue list" where
  "authorizeCompletion policy nodeId outcome cx =
     (case pc_reading policy of
        PolicyAbsent \<Rightarrow> (add_unauthorized policy nodeId outcome PolicyUnavailable cx, [])
      | PolicyNotInstalled \<Rightarrow> (add_unauthorized policy nodeId outcome PolicyUnavailable cx, [])
      | PolicyIdUnknown \<Rightarrow> (add_unauthorized policy nodeId outcome PolicyUnknown cx, [])
      | PolicyRevisionUnknown \<Rightarrow> (add_unauthorized policy nodeId outcome PolicyUnknownRevision cx, [])
      | PolicyFound s \<Rightarrow>
          (case decideCompletion (ps_body s) \<lparr>cm_graphId = pc_graphId policy, cm_nodeId = nodeId, cm_outcome = outcome\<rparr> of
             Allowed _ \<Rightarrow>
               (cx\<lparr>cx_authorizations := cx_authorizations cx @ [\<lparr>cau_nodeId = nodeId, cau_outcome = outcome, cau_policy = ps_ref s\<rparr>],
                   cx_usedPolicies := AList.update (cr_digest (ps_ref s)) s (cx_usedPolicies cx)\<rparr>, [])
           | Denied _ \<Rightarrow> (cx, [(CompletionPolicyDenied, nodePath nodeId @ ''.completion'')])
           | Undecided \<Rightarrow> (add_unauthorized policy nodeId outcome PolicyUngranted cx, [])))"

text \<open>The completion of one node: its policy in the plan, its issues, and its authorization.\<close>

definition compile_completion ::
  "completion_policy_context \<Rightarrow> string \<Rightarrow> compiled_outcome list \<Rightarrow> jsval \<Rightarrow> compile_context \<Rightarrow>
   compiled_completion_policy option \<times> compile_context \<times> compile_issue list" where
  "compile_completion policy nodeId outcomes raw cx =
     (let reading = readCompletionPolicy raw;
          path = nodePath nodeId @ ''.completion'';
          (cx', issues) = (case reading of
              CompletionInvalid \<Rightarrow> (cx, [(MalformedDeclaration, path)])
            | CompletionDuplicate \<Rightarrow> (cx, [(DuplicateNaturalCompletion, path)])
            | CompletionNatural outcome \<Rightarrow>
                if outcome \<notin> set (map co_id outcomes) then (cx, [(NaturalCompletionUnknownOutcome, path)])
                else authorizeCompletion policy nodeId outcome cx
            | CompletionAbsent \<Rightarrow> (cx, [])
            | CompletionExplicit \<Rightarrow> (cx, []))
      in (toPlanCompletion reading, cx', issues))"

subsection \<open>Contracts\<close>

definition ref_of :: "jsval \<Rightarrow> contract_ref" where
  "ref_of raw = \<lparr>cr_id = id_of raw, cr_revision = str_of (js_get raw ''revision''), cr_digest = str_of (js_get raw ''digest'')\<rparr>"

definition record_contract :: "contract_ref \<Rightarrow> jsval \<Rightarrow> string \<Rightarrow> compile_context \<Rightarrow> contract_ref option \<times> compile_context \<times> compile_issue list" where
  "record_contract ref body path cx =
     (let snapshots = (if cr_digest ref \<in> set (map fst (cx_snapshots cx)) then cx_snapshots cx else cx_snapshots cx @ [(cr_digest ref, body)]);
          revisions = (case map_of (cx_identities cx) (cr_id ref) of None \<Rightarrow> [] | Some rs \<Rightarrow> rs);
          known = map_of revisions (cr_revision ref);
          cx' = cx\<lparr>cx_snapshots := snapshots\<rparr>
      in if known \<noteq> None \<and> known \<noteq> Some (cr_digest ref) then (None, cx', [(ContractDigestMismatch, path)])
         else (Some ref,
               cx'\<lparr>cx_identities := AList.update (cr_id ref) (AList.update (cr_revision ref) (cr_digest ref) revisions) (cx_identities cx)\<rparr>, []))"

definition bindContract ::
  "(string \<Rightarrow> string) \<Rightarrow> (rat \<Rightarrow> string) \<Rightarrow> compile_options \<Rightarrow> string \<Rightarrow> jsval \<Rightarrow> compile_context \<Rightarrow>
   contract_ref option \<times> compile_context \<times> compile_issue list" where
  "bindContract sha num options nodeId raw cx =
     (let path = nodePath nodeId @ ''.contractRef'' in
      if raw = JUndef then (None, cx, [])
      else if \<not> isContractRef raw then (None, cx, [(MalformedDeclaration, path)])
      else case op_contracts options of
             None \<Rightarrow> (None, cx, [(UnresolvedContract, path)])
           | Some registry \<Rightarrow>
               (case resolveContractRef sha num (ref_of raw) registry of
                  Inl _ \<Rightarrow> (None, cx, [(UnresolvedContract, path)])
                | Inr (Resolved s) \<Rightarrow> record_contract (ref_of raw) (cs_body s) path cx
                | Inr (UnknownContract _) \<Rightarrow> (None, cx, [(UnresolvedContract, path)])
                | Inr (UnknownRevision _) \<Rightarrow> (None, cx, [(UnresolvedContract, path)])
                | Inr (DigestMismatch _ _) \<Rightarrow> (None, cx, [(ContractDigestMismatch, path)])))"

subsection \<open>One node\<close>

definition compileNode ::
  "(string \<Rightarrow> string) \<Rightarrow> (rat \<Rightarrow> string) \<Rightarrow> compile_options \<Rightarrow> string \<Rightarrow> (string \<times> string list) list \<Rightarrow> completion_policy_context \<Rightarrow>
   jsval \<Rightarrow> compile_context \<Rightarrow> compiled_node \<times> compile_context \<times> compile_issue list" where
  "compileNode sha num options graphId declared policy node cx =
     (let nodeId = id_of node;
          base = nodePath nodeId;
          (outcomes, outcomeIssues, unresolved) = compileOutcomes num options graphId node;
          cx = cx\<lparr>cx_unresolved := cx_unresolved cx @ unresolved\<rparr>;
          (inputs, inputIssues) = readInputs declared nodeId (js_get node ''inputs'');
          missing = (if arr_of (js_get node ''outcomes'') = [] then [(Topology MissingOutcomes, base)] else []);
          (completion, cx, completionIssues) = compile_completion policy nodeId outcomes (js_get node ''completion'') cx;
          (contractRef, cx, contractIssues) = bindContract sha num options nodeId (js_get node ''contractRef'') cx;
          join = readJoin (js_get node ''join'');
          joinIssues = (if js_get node ''join'' \<noteq> JUndef \<and> join = None then [(MalformedDeclaration, base @ ''.join'')] else []);
          budget = readBudget (js_get node ''budget'');
          budgetIssues = (if js_get node ''budget'' \<noteq> JUndef \<and> budget = None then [(MalformedDeclaration, base @ ''.budget'')] else []);
          (tools, toolIssues) = readDeclaredTools (base @ ''.tools'') (js_get node ''tools'');
          (presentation, presentationIssues) =
            (case read_presentation (js_get node ''toolPresentation'') of
               Inl _ \<Rightarrow> (None, [(MalformedDeclaration, base @ ''.toolPresentation'')])
             | Inr p \<Rightarrow> (p, []))
      in (\<lparr>cn_id = nodeId, cn_agent = str_of (js_get node ''agent''), cn_prompt = str_of (js_get node ''prompt''), cn_outcomes = outcomes,
           cn_completion = completion, cn_contractRef = contractRef, cn_join = join,
           cn_budget = (case budget of None \<Rightarrow> JUndef | Some b \<Rightarrow> b), cn_inputs = inputs, cn_tools = tools,
           cn_toolPresentation = (case presentation of None \<Rightarrow> JUndef | Some p \<Rightarrow> enc_presentation p)\<rparr>,
          cx,
          outcomeIssues @ inputIssues @ missing @ completionIssues @ contractIssues @ joinIssues @ budgetIssues @ toolIssues @ presentationIssues))"

fun compile_nodes ::
  "(string \<Rightarrow> string) \<Rightarrow> (rat \<Rightarrow> string) \<Rightarrow> compile_options \<Rightarrow> string \<Rightarrow> (string \<times> string list) list \<Rightarrow> completion_policy_context \<Rightarrow>
   jsval list \<Rightarrow> compile_context \<Rightarrow> compiled_node list \<times> compile_context \<times> compile_issue list" where
  "compile_nodes sha num options graphId declared policy [] cx = ([], cx, [])"
| "compile_nodes sha num options graphId declared policy (node # rest) cx =
     (let (compiled, cx, issues) = compileNode sha num options graphId declared policy node cx;
          (others, cx, issues') = compile_nodes sha num options graphId declared policy rest cx
      in (compiled # others, cx, issues @ issues'))"

subsection \<open>Edges\<close>

record edge_reading =
  er_index :: nat
  er_from :: string
  er_to :: string
  er_outcome :: "string option"

definition readEdges :: "jsval list \<Rightarrow> edge_reading list" where
  "readEdges edges =
     map (\<lambda>(index, edge). \<lparr>er_index = index, er_from = str_of (js_get edge ''from''), er_to = str_of (js_get edge ''to''),
       er_outcome = nonempty_string (js_get edge ''outcome'')\<rparr>) (enumerate 0 edges)"

definition edge_reading_order :: "edge_reading \<Rightarrow> string \<times> string \<times> string" where
  "edge_reading_order e = (er_from e, er_to e, case er_outcome e of None \<Rightarrow> [] | Some oc \<Rightarrow> oc)"

definition compile_edge :: "(string \<times> string list) list \<Rightarrow> edge_reading \<Rightarrow> compiled_edge list \<times> compile_issue list" where
  "compile_edge declared e =
     (let path = index_path ''edges'' (er_index e);
          endpoints = (if map_of declared (er_from e) = None \<or> map_of declared (er_to e) = None then [(Topology UnknownEdgeEndpoint, path)] else [])
      in case er_outcome e of
           None \<Rightarrow> ([], endpoints @ [(MissingEdgeOutcome, path)])
         | Some outcome \<Rightarrow>
             ([\<lparr>ce_from = er_from e, ce_to = er_to e, ce_outcome = outcome\<rparr>],
              endpoints @
              (case map_of declared (er_from e) of
                 None \<Rightarrow> []
               | Some ids \<Rightarrow> if outcome \<in> set ids then [] else [(Topology UnknownOutcomeReference, path)])))"

definition compileEdges :: "(string \<times> string list) list \<Rightarrow> edge_reading list \<Rightarrow> compiled_edge list \<times> compile_issue list" where
  "compileEdges declared edges =
     (let parts = map (compile_edge declared) (sort_key edge_reading_order edges)
      in (concat (map fst parts), concat (map snd parts)))"

subsection \<open>Upstream nodes\<close>

definition parents_of :: "compiled_edge list \<Rightarrow> string \<Rightarrow> string list" where
  "parents_of edges v = map ce_from (filter (\<lambda>e. ce_to e = v) edges)"

text \<open>The stack has its top first.\<close>

function upstream_loop :: "compiled_edge list \<Rightarrow> string list \<Rightarrow> string list \<Rightarrow> string list" where
  "upstream_loop edges seen [] = seen"
| "upstream_loop edges seen (current # stack) =
     (if current \<in> set seen then upstream_loop edges seen stack
      else (let seen' = seen @ [current]
            in upstream_loop edges seen' (rev (filter (\<lambda>p. p \<notin> set seen') (parents_of edges current)) @ stack)))"
  by pat_completeness auto
termination
proof (relation "(\<lambda>(edges, seen, stack). card (set (map ce_from edges) \<union> set stack - set seen)) <*mlex*> measure (\<lambda>(edges, seen, stack). length stack)")
  fix edges seen stack and current :: string
  assume "current \<in> set seen"
  then have "set (map ce_from edges) \<union> set (current # stack) - set seen = set (map ce_from edges) \<union> set stack - set seen" by auto
  then show "((edges, seen, stack), (edges, seen, current # stack)) \<in>
      (\<lambda>(edges, seen, stack). card (set (map ce_from edges) \<union> set stack - set seen)) <*mlex*> measure (\<lambda>(edges, seen, stack). length stack)"
    by (intro mlex_leq) simp_all
next
  fix edges seen stack and current :: string and seen'
  assume "current \<notin> set seen" "seen' = seen @ [current]"
  then have "set (map ce_from edges) \<union> set (rev (filter (\<lambda>p. p \<notin> set seen') (parents_of edges current)) @ stack) - set seen' \<subset>
      set (map ce_from edges) \<union> set (current # stack) - set seen" by (auto simp: parents_of_def)
  then show "((edges, seen', rev (filter (\<lambda>p. p \<notin> set seen') (parents_of edges current)) @ stack), (edges, seen, current # stack)) \<in>
      (\<lambda>(edges, seen, stack). card (set (map ce_from edges) \<union> set stack - set seen)) <*mlex*> measure (\<lambda>(edges, seen, stack). length stack)"
    by (intro mlex_less) (simp only: case_prod_conv, rule psubset_card_mono, simp_all)
qed (simp add: wf_mlex)

definition upstreamOf :: "compiled_edge list \<Rightarrow> string \<Rightarrow> string list" where
  "upstreamOf edges start = upstream_loop edges [] (rev (parents_of edges start))"

definition input_issues :: "compiled_edge list \<Rightarrow> compiled_node \<Rightarrow> compile_issue list" where
  "input_issues edges n =
     concat (map (\<lambda>i.
       (if cir_triggered i \<and> \<not> list_ex (\<lambda>e. ce_from e = cir_from i \<and> ce_to e = cn_id n \<and> ce_outcome e = cir_outcome i) edges
        then [(InputTriggerNotEdge, nodePath (cn_id n) @ ''.inputs'')] else []) @
       (if cir_from i \<notin> set (upstreamOf edges (cn_id n)) then [(InputNotUpstream, nodePath (cn_id n) @ ''.inputs'')] else []))
       (inputs_of n))"

subsection \<open>Loop groups\<close>

definition compileProgressPolicy :: "string \<Rightarrow> jsval \<Rightarrow> compiled_progress_policy option \<times> compile_issue list" where
  "compileProgressPolicy path raw =
     (if raw = JUndef then (None, [])
      else let policy = (if isRecord raw then readCompiledProgressPolicy (JObj [(''evaluator'', js_get raw ''evaluator''), (''version'', js_get raw ''version''),
                           (''subject'', js_get raw ''subject''), (''maxUnchanged'', js_get raw ''max_unchanged'')]) else None)
           in case policy of None \<Rightarrow> (None, [(Topology MalformedProgressPolicy, path)]) | Some p \<Rightarrow> (Some p, []))"

definition readRouteOutcome :: "string \<Rightarrow> jsval \<Rightarrow> string option \<times> compile_issue list" where
  "readRouteOutcome path raw = (case nonempty_string raw of None \<Rightarrow> (None, [(MalformedDeclaration, path)]) | Some s \<Rightarrow> (Some s, []))"

definition membersDeclareOutcome :: "string list \<Rightarrow> (string \<times> string list) list \<Rightarrow> string \<Rightarrow> bool" where
  "membersDeclareOutcome members declared outcomeId = list_ex (\<lambda>m. declares declared m outcomeId) members"

fun group_members :: "(string \<times> string list) list \<Rightarrow> string \<Rightarrow> string list \<Rightarrow> nat \<Rightarrow> jsval list \<Rightarrow> string list \<times> compile_issue list" where
  "group_members declared path members index [] = (members, [])"
| "group_members declared path members index (raw # rest) =
     (case nonempty_string raw of
        Some m \<Rightarrow>
          if map_of declared m \<noteq> None then group_members declared path (set_add m members) (index + 1) rest
          else (let (ms, issues) = group_members declared path members (index + 1) rest in (ms, (Topology UnknownLoopMember, index_path path index) # issues))
      | None \<Rightarrow> (let (ms, issues) = group_members declared path members (index + 1) rest in (ms, (Topology UnknownLoopMember, index_path path index) # issues)))"

definition route_issues :: "string \<Rightarrow> string list \<Rightarrow> (string \<times> string list) list \<Rightarrow> topology_code \<Rightarrow> string option \<Rightarrow> compile_issue list" where
  "route_issues path members declared code route =
     (case route of None \<Rightarrow> [] | Some oc \<Rightarrow> if membersDeclareOutcome members declared oc then [] else [(Topology code, path)])"

definition compileLoopGroup :: "(string \<times> string list) list \<Rightarrow> edge_reading list \<Rightarrow> jsval \<Rightarrow> compiled_loop_group \<times> compile_issue list" where
  "compileLoopGroup declared edges g =
     (let path = ''loop_groups.'' @ id_of g;
          limit = positive_safe (js_get g ''max_traversals'');
          limitIssues = (if limit = None then [(Topology LoopGroupMissingLimits, path)] else []);
          (members, memberIssues) = group_members declared (path @ ''.nodes'') [] 0 (arr_of (js_get g ''nodes''));
          (continuation, continuationIssues) = readRouteOutcome (path @ ''.continuation_outcome'') (js_get g ''continuation_outcome'');
          (exit, exitIssues) = readRouteOutcome (path @ ''.exit_outcome'') (js_get g ''exit_outcome'');
          (progress, progressIssues) = compileProgressPolicy (path @ ''.progress'') (js_get g ''progress'');
          escapes = (case continuation of
              None \<Rightarrow> []
            | Some oc \<Rightarrow> map (\<lambda>e. (LoopContinuationOutsideGroup, index_path ''edges'' (er_index e)))
                (filter (\<lambda>e. er_outcome e = Some oc \<and> er_from e \<in> set members \<and> er_to e \<notin> set members) edges))
      in (\<lparr>clg_id = id_of g, clg_nodes = sort members, clg_maxTraversals = (case limit of None \<Rightarrow> 0 | Some n \<Rightarrow> n),
           clg_continuationOutcome = (case continuation of None \<Rightarrow> [] | Some oc \<Rightarrow> oc),
           clg_exitOutcome = (case exit of None \<Rightarrow> [] | Some oc \<Rightarrow> oc), clg_progress = progress\<rparr>,
          limitIssues @ memberIssues @ continuationIssues @ exitIssues @ progressIssues @
          route_issues (path @ ''.continuation_outcome'') members declared UnknownLoopContinuationOutcome continuation @
          route_issues (path @ ''.exit_outcome'') members declared UnknownLoopExitOutcome exit @ escapes))"

definition compileLoopGroups :: "(string \<times> string list) list \<Rightarrow> edge_reading list \<Rightarrow> jsval list \<Rightarrow> compiled_loop_group list \<times> compile_issue list" where
  "compileLoopGroups declared edges groups =
     (let parts = map (compileLoopGroup declared edges) (map snd (sort_key fst (first_by_id groups)))
      in (map fst parts, map (\<lambda>i. (DuplicateLoopGroupId, ''loop_groups.'' @ i)) (repeated_ids groups) @ concat (map snd parts)))"

subsection \<open>Joins\<close>

definition dispatch_pass :: "compiled_plan \<Rightarrow> string \<Rightarrow> string list \<times> bool \<Rightarrow> string list \<times> bool" where
  "dispatch_pass plan targetId acc =
     foldl (\<lambda>(runnable, grew) candidate.
       if cn_id candidate = targetId \<or> cn_id candidate \<in> set runnable then (runnable, grew)
       else if \<not> list_ex (\<lambda>e. ce_to e = cn_id candidate \<and> ce_from e \<noteq> targetId \<and> ce_from e \<in> set runnable) (cp_edges plan) then (runnable, grew)
       else if \<not> joinSatisfiedBy candidate runnable (feederSourcesOf plan (cn_id candidate)) then (runnable, grew)
       else (runnable @ [cn_id candidate], True)) acc (cp_nodes plan)"

fun dispatch_rounds :: "nat \<Rightarrow> compiled_plan \<Rightarrow> string \<Rightarrow> string list \<Rightarrow> string list" where
  "dispatch_rounds 0 plan targetId runnable = runnable"
| "dispatch_rounds (Suc rounds) plan targetId runnable =
     (let (runnable', grew) = dispatch_pass plan targetId (runnable, False)
      in if grew then dispatch_rounds rounds plan targetId runnable' else runnable')"

definition dispatchableBefore :: "compiled_plan \<Rightarrow> compiled_node list \<Rightarrow> string \<Rightarrow> string list" where
  "dispatchableBefore plan entries targetId =
     dispatch_rounds (length (cp_nodes plan) + 1) plan targetId
       (foldl (\<lambda>runnable entry. if cn_id entry = targetId then runnable else set_add (cn_id entry) runnable) [] entries)"

definition unsatisfiableJoinsOf :: "compiled_plan \<Rightarrow> compile_issue list" where
  "unsatisfiableJoinsOf body =
     (let entries = entryNodesOf body in
      concat (map (\<lambda>node.
        if cn_id node \<in> set (map cn_id entries) then []
        else let feeders = feederSourcesOf body (cn_id node) in
             if feeders = [] then []
             else let runnable = dispatchableBefore body entries (cn_id node) in
                  if joinSatisfiedBy node runnable feeders then []
                  else map (\<lambda>_. (UnsatisfiableJoin, nodePath (cn_id node) @ ''.inputs'')) (filter (\<lambda>f. f \<notin> set runnable) feeders))
        (cp_nodes body)))"

subsection \<open>Indexes of the plan body\<close>

definition snapshotIndex :: "(string \<times> jsval) list \<Rightarrow> jsval" where
  "snapshotIndex snapshots = JObj (map (\<lambda>(d, body). (d, JObj [(''body'', body)])) (sort_key fst snapshots))"

definition identityIndex :: "(string \<times> (string \<times> string) list) list \<Rightarrow> jsval" where
  "identityIndex identities = JObj (map (\<lambda>(i, rs). (i, JObj (map (\<lambda>(r, d). (r, JStr d)) rs))) identities)"

definition completionPolicySnapshotIndex :: "(string \<times> completion_policy_snapshot) list \<Rightarrow> jsval" where
  "completionPolicySnapshotIndex policies = JObj (map (\<lambda>(d, s). (d, enc_policy_body (ps_body s))) (sort_key fst policies))"

definition completionPolicyIdentityIndex :: "(string \<times> completion_policy_snapshot) list \<Rightarrow> jsval" where
  "completionPolicyIdentityIndex policies =
     identityIndex (foldl (\<lambda>m (d, s).
       AList.update (cr_id (ps_ref s))
         (AList.update (cr_revision (ps_ref s)) (cr_digest (ps_ref s)) (case map_of m (cr_id (ps_ref s)) of None \<Rightarrow> [] | Some rs \<Rightarrow> rs)) m)
       [] policies)"

definition enc_authorization :: "completion_authorization \<Rightarrow> jsval" where
  "enc_authorization a = JObj [(''nodeId'', JStr (cau_nodeId a)), (''outcome'', JStr (cau_outcome a)), (''policy'', enc_ref (cau_policy a))]"

subsection \<open>The compilation\<close>

datatype compile_result =
    CompiledExecutable compiled_plan
  | CompiledDraft compiled_plan "compiled_unresolved_requirement list" "compiled_unauthorized_completion list"
  | CompileFailed "compile_issue list"

definition succeeded :: "compiled_plan \<Rightarrow> compile_result" where
  "succeeded plan =
     (case cp_executability plan of
        Draft unresolved unauthorized \<Rightarrow> CompiledDraft plan unresolved unauthorized
      | Executable \<Rightarrow> CompiledExecutable plan)"

definition executability_of :: "compile_context \<Rightarrow> compiled_plan_executability" where
  "executability_of cx =
     (if cx_unresolved cx = [] \<and> cx_unauthorized cx = [] then Executable
      else Draft (cx_unresolved cx) (sort_key (\<lambda>u. (cuc_nodeId u, cuc_outcome u)) (cx_unauthorized cx)))"

definition plan_body ::
  "string \<Rightarrow> run_budget_spec option \<Rightarrow> compiled_node list \<Rightarrow> compiled_edge list \<Rightarrow> compiled_loop_group list \<Rightarrow> compile_context \<Rightarrow> compiled_plan" where
  "plan_body graphId budget nodes edges loopGroups cx =
     \<lparr>cp_budget = (case budget of None \<Rightarrow> JUndef | Some b \<Rightarrow> enc_run_budget b), cp_graphId = graphId, cp_nodes = nodes, cp_edges = edges,
      cp_loopGroups = loopGroups, cp_contractSnapshots = snapshotIndex (cx_snapshots cx), cp_contractIdentities = identityIndex (cx_identities cx),
      cp_completionPolicySnapshots = completionPolicySnapshotIndex (cx_usedPolicies cx),
      cp_completionPolicyIdentities = completionPolicyIdentityIndex (cx_usedPolicies cx),
      cp_completionAuthorizations = JArr (map enc_authorization (sort_key cau_nodeId (cx_authorizations cx))),
      cp_terminalOutcomes = terminalOutcomesOf nodes edges, cp_executability = executability_of cx, cp_planRevision = []\<rparr>"

definition inspect_body :: "(string \<Rightarrow> string) \<Rightarrow> (rat \<Rightarrow> string) \<Rightarrow> compiled_plan \<Rightarrow> topology_code list \<times> string list" where
  "inspect_body sha num body =
     inspectCompiledTopology sha num (map enc_node (cp_nodes body)) (map enc_edge (cp_edges body)) (map enc_group (cp_loopGroups body))
       (JArr (map enc_terminal (cp_terminalOutcomes body))) (enc_executability (cp_executability body))
       \<lparr>ct_authorizations = cp_completionAuthorizations body, ct_snapshots = cp_completionPolicySnapshots body,
        ct_identities = cp_completionPolicyIdentities body\<rparr>"

text \<open>The declaration-level part: the assembled body with every issue of a declaration rule.\<close>

definition assemble_body ::
  "(string \<Rightarrow> string) \<Rightarrow> (rat \<Rightarrow> string) \<Rightarrow> compile_options \<Rightarrow> jsval \<Rightarrow> compiled_plan \<times> compile_issue list" where
  "assemble_body sha num options declaration =
     (let graphId = str_of (js_get declaration ''name'');
          (budget, budgetIssues) = (case readRunBudget (js_get declaration ''budget'') of
              Inl _ \<Rightarrow> (None, [(MalformedDeclaration, ''$.budget'')])
            | Inr b \<Rightarrow> (b, []));
          (nodesById, nodeIssues) = indexNodes (arr_of (js_get declaration ''nodes''));
          declared = map (\<lambda>(i, node). (i, declaredOutcomeIds node)) nodesById;
          edges = readEdges (arr_of (js_get declaration ''edges''));
          (policy, policyIssues) = createCompletionContext options graphId declaration;
          (nodes, cx, ownIssues) = compile_nodes sha num options graphId declared policy (map snd nodesById) empty_context;
          (compiledEdges, edgeIssues) = compileEdges declared edges;
          upstream = concat (map (input_issues compiledEdges) nodes);
          (loopGroups, groupIssues) = compileLoopGroups declared edges (arr_of (js_get declaration ''loop_groups''))
      in (plan_body graphId budget nodes compiledEdges loopGroups cx,
          budgetIssues @ nodeIssues @ policyIssues @ ownIssues @ edgeIssues @ upstream @ groupIssues))"

definition compileDeclaration ::
  "(string \<Rightarrow> string) \<Rightarrow> (rat \<Rightarrow> string) \<Rightarrow> compile_options \<Rightarrow> jsval \<Rightarrow> digest_error + compile_result" where
  "compileDeclaration sha num options declaration =
     (if \<not> isGraphDeclarationV3 declaration then Inr (CompileFailed [(MalformedDeclaration, ''$'')])
      else let (body, issues) = assemble_body sha num options declaration in
           if issues \<noteq> [] then Inr (CompileFailed issues)
           else let found = fst (inspect_body sha num body) in
                if found \<noteq> [] then Inr (CompileFailed (map (\<lambda>c. (Topology c, ''$plan'')) found))
                else let unsatisfiable = unsatisfiableJoinsOf body in
                     if unsatisfiable \<noteq> [] then Inr (CompileFailed unsatisfiable)
                     else rbind (createCompiledPlan sha num body) (\<lambda>plan. Inr (succeeded plan)))"

definition compileGraph ::
  "(string \<Rightarrow> string) \<Rightarrow> (rat \<Rightarrow> string) \<Rightarrow> compile_options \<Rightarrow> jsval \<Rightarrow> compile_result" where
  "compileGraph sha num options declaration =
     (case compileDeclaration sha num options declaration of
        Inl _ \<Rightarrow> CompileFailed [(MalformedDeclaration, ''$'')]
      | Inr result \<Rightarrow> result)"

end
