(* ===== verification/CompileFacts.thy ===== *)
theory CompileFacts
  imports Compile
begin

text \<open>
  What a successful compilation establishes: the parts of one node and of one group, and the
  well-formedness of the plan as a whole, so that every property of runs applies to compiled plans.
\<close>

subsection \<open>Outcomes\<close>

lemma outcome_list_ids:
  "co_id ` set (fst (compile_outcome_list num options graphId nodeId seen index raws)) =
     set (List.map_filter (\<lambda>raw. nonempty_string (js_get raw ''id'')) raws) - set seen"
proof (induction raws arbitrary: seen index)
  case (Cons raw raws)
  show ?case
    by (cases "nonempty_string (js_get raw ''id'')")
       (auto simp: Cons.IH Let_def map_filter_simps case_prod_unfold)
qed (simp add: map_filter_simps)

lemma outcome_list_nonempty_ids:
  "oc \<in> set (fst (compile_outcome_list num options graphId nodeId seen index raws)) \<Longrightarrow> co_id oc \<noteq> []"
proof (induction raws arbitrary: seen index)
  case (Cons raw raws)
  from Cons.prems Cons.IH show ?case
    by (cases "nonempty_string (js_get raw ''id'')")
       (auto simp: Let_def case_prod_unfold nonempty_string_Some split: if_splits)
qed simp

lemma outcome_list_distinct:
  "distinct (map co_id (fst (compile_outcome_list num options graphId nodeId seen index raws)))"
proof (induction raws arbitrary: seen index)
  case (Cons raw raws)
  show ?case
    using outcome_list_ids [of num options graphId nodeId _ _ raws]
    by (cases "nonempty_string (js_get raw ''id'')") (auto simp: Cons.IH Let_def case_prod_unfold)
qed simp

lemma compileOutcomes_ids: "co_id ` set (fst (compileOutcomes num options graphId node)) = set (declaredOutcomeIds node)"
  using outcome_list_ids [of num options graphId "id_of node" "[]" 0 "arr_of (js_get node ''outcomes'')"]
  by (simp add: compileOutcomes_def case_prod_unfold Let_def declaredOutcomeIds_def)

lemma compileOutcomes_nonempty:
  assumes "fst (snd (compileOutcomes num options graphId node)) = []" and "arr_of (js_get node ''outcomes'') \<noteq> []"
  shows "fst (compileOutcomes num options graphId node) \<noteq> []"
  using assms by (cases "arr_of (js_get node ''outcomes'')")
    (auto simp: compileOutcomes_def case_prod_unfold Let_def split: option.splits if_splits
      dest!: arg_cong [where f = set])

lemma compileOutcomes_outcome_id: "oc \<in> set (fst (compileOutcomes num options graphId node)) \<Longrightarrow> co_id oc \<noteq> []"
  by (auto simp: compileOutcomes_def case_prod_unfold Let_def dest: outcome_list_nonempty_ids)

subsection \<open>Inputs\<close>

definition input_declared :: "(string \<times> string list) list \<Rightarrow> string \<Rightarrow> compiled_input_ref \<Rightarrow> bool" where
  "input_declared declared nodeId i \<longleftrightarrow> cir_from i \<noteq> [] \<and> cir_outcome i \<noteq> [] \<and> cir_from i \<noteq> nodeId \<and>
     declares declared (cir_from i) (cir_outcome i)"

lemma input_declared_make:
  "input_declared declared nodeId \<lparr>cir_from = a, cir_outcome = b, cir_triggered = c\<rparr> \<longleftrightarrow>
     a \<noteq> [] \<and> b \<noteq> [] \<and> a \<noteq> nodeId \<and> declares declared a b"
  by (simp add: input_declared_def)

lemma read_input_list_declared:
  "i \<in> set (fst (read_input_list declared nodeId path seen index entries)) \<Longrightarrow> input_declared declared nodeId i"
proof (induction entries arbitrary: seen index)
  case (Cons entry entries)
  note IH = Cons.IH
  from Cons.prems show ?case
    by (auto simp: Let_def case_prod_unfold nonempty_string_Some input_declared_make declares_def
        split: if_splits option.splits dest: IH)
qed simp

lemma readInputs_declared:
  assumes "fst (readInputs declared nodeId raw) = Some refs"
  shows "refs \<noteq> []" and "i \<in> set refs \<Longrightarrow> input_declared declared nodeId i"
  using assms by (auto simp: readInputs_def Let_def case_prod_unfold split: if_splits option.splits dest: read_input_list_declared)

subsection \<open>One node\<close>

lemma compile_completion_simps:
  "fst (compile_completion policy nodeId outcomes raw cx) = toPlanCompletion (readCompletionPolicy raw)"
  by (simp add: compile_completion_def case_prod_unfold Let_def)

lemma compileNode_fields:
  fixes sha num options graphId declared policy node cx
  defines "n \<equiv> fst (compileNode sha num options graphId declared policy node cx)"
  shows "cn_id n = id_of node" "cn_outcomes n = fst (compileOutcomes num options graphId node)"
    "cn_inputs n = fst (readInputs declared (id_of node) (js_get node ''inputs''))"
    "cn_completion n = toPlanCompletion (readCompletionPolicy (js_get node ''completion''))"
    "cn_join n = readJoin (js_get node ''join'')"
    "cn_tools n = fst (readDeclaredTools (nodePath (id_of node) @ ''.tools'') (js_get node ''tools''))"
    "cn_budget n = (case readBudget (js_get node ''budget'') of None \<Rightarrow> JUndef | Some b \<Rightarrow> b)"
    "cn_toolPresentation n = (case read_presentation (js_get node ''toolPresentation'') of Inr (Some p) \<Rightarrow> enc_presentation p | _ \<Rightarrow> JUndef)"
  unfolding n_def compileNode_def Let_def case_prod_unfold
  by (auto simp: compile_completion_simps split: sum.splits option.splits)

lemma compileNode_issues:
  assumes "snd (snd (compileNode sha num options graphId declared policy node cx)) = []"
  shows "fst (snd (compileOutcomes num options graphId node)) = []" "arr_of (js_get node ''outcomes'') \<noteq> []"
  using assms by (auto simp: compileNode_def Let_def case_prod_unfold split: if_splits)

definition node_compiled :: "(string \<times> string list) list \<Rightarrow> compiled_node \<Rightarrow> bool" where
  "node_compiled declared n \<longleftrightarrow> cn_outcomes n \<noteq> [] \<and> (\<forall>oc \<in> set (cn_outcomes n). co_id oc \<noteq> []) \<and>
     (\<forall>i \<in> set (inputs_of n). input_declared declared (cn_id n) i)"

lemma compileNode_compiled:
  assumes "snd (snd (compileNode sha num options graphId declared policy node cx)) = []"
  shows "node_compiled declared (fst (compileNode sha num options graphId declared policy node cx))"
proof -
  have "input_declared declared (id_of node) i" if "fst (readInputs declared (id_of node) (js_get node ''inputs'')) = Some refs" "i \<in> set refs" for refs i
    using readInputs_declared(2) [OF that(1)] that(2) .
  moreover have "fst (compileOutcomes num options graphId node) \<noteq> []"
    by (rule compileOutcomes_nonempty [OF compileNode_issues [OF assms]])
  ultimately show ?thesis
    by (cases "fst (readInputs declared (id_of node) (js_get node ''inputs''))")
       (simp_all add: node_compiled_def compileNode_fields compileOutcomes_outcome_id)
qed

lemma compile_nodes_fields:
  fixes sha num options graphId declared policy raws cx
  defines "r \<equiv> compile_nodes sha num options graphId declared policy raws cx"
  shows "map cn_id (fst r) = map id_of raws"
    and "map (\<lambda>n. set (map co_id (cn_outcomes n))) (fst r) = map (\<lambda>v. set (declaredOutcomeIds v)) raws"
    and "snd (snd r) = [] \<Longrightarrow> list_all (node_compiled declared) (fst r)"
  unfolding r_def
  by (induction raws arbitrary: cx)
     (simp_all add: Let_def case_prod_unfold compileNode_fields compileOutcomes_ids compileNode_compiled)

subsection \<open>Indexing by id\<close>

lemma first_by_id_facts:
  "distinct (map fst (first_by_id vs))" "\<And>p. p \<in> set (first_by_id vs) \<Longrightarrow> snd p \<in> set vs \<and> fst p = id_of (snd p)"
  "set (map fst (first_by_id vs)) = id_of ` set vs"
proof -
  let ?f = "\<lambda>m v. if id_of v \<in> set (map fst m) then m else m @ [(id_of v, v)]"
  have "distinct (map fst m) \<Longrightarrow> distinct (map fst (foldl ?f m vs))" for m
    by (induction vs arbitrary: m) auto
  then show "distinct (map fst (first_by_id vs))" by (simp add: first_by_id_def)
  have "p \<in> set (foldl ?f m vs) \<Longrightarrow> p \<in> set m \<or> (snd p \<in> set vs \<and> fst p = id_of (snd p))" for p m
    by (induction vs arbitrary: m) (fastforce split: if_splits)+
  then show "\<And>p. p \<in> set (first_by_id vs) \<Longrightarrow> snd p \<in> set vs \<and> fst p = id_of (snd p)"
    by (fastforce simp: first_by_id_def)
  have "set (map fst (foldl ?f m vs)) = fst ` set m \<union> id_of ` set vs" for m
    by (induction vs arbitrary: m) auto
  then show "set (map fst (first_by_id vs)) = id_of ` set vs" by (simp add: first_by_id_def)
qed

lemma indexed_ids: "map id_of (map snd (sort_key fst (first_by_id vs))) = map fst (sort_key fst (first_by_id vs))"
  using first_by_id_facts(2) by (simp add: comp_def cong: map_cong)

lemma distinct_indexed_ids: "distinct (map fst (sort_key fst (first_by_id vs)))"
  using first_by_id_facts(1) by (simp add: distinct_map inj_on_def)

subsection \<open>Edges\<close>

lemma compile_edge_ok:
  assumes "snd (compile_edge declared e) = []"
  shows "\<exists>oc ids. er_outcome e = Some oc \<and> fst (compile_edge declared e) = [\<lparr>ce_from = er_from e, ce_to = er_to e, ce_outcome = oc\<rparr>] \<and>
    map_of declared (er_from e) = Some ids \<and> oc \<in> set ids \<and> map_of declared (er_to e) \<noteq> None"
  using assms by (auto simp: compile_edge_def Let_def split: option.splits if_splits)

lemma compileEdges_ok:
  assumes "snd (compileEdges declared edges) = []"
  shows "map edge_order (fst (compileEdges declared edges)) = map edge_reading_order (sort_key edge_reading_order edges)"
    and "e \<in> set (fst (compileEdges declared edges)) \<Longrightarrow> declares declared (ce_from e) (ce_outcome e) \<and> map_of declared (ce_to e) \<noteq> None"
proof -
  have parts: "\<forall>r \<in> set edges. snd (compile_edge declared r) = []"
    using assms by (auto simp: compileEdges_def Let_def)
  have "concat (map (fst \<circ> compile_edge declared) rs) = map (\<lambda>r. \<lparr>ce_from = er_from r, ce_to = er_to r, ce_outcome = the (er_outcome r)\<rparr>) rs"
    if "set rs \<subseteq> set edges" for rs
    using that by (induction rs) (use compile_edge_ok parts in fastforce)+
  from this [of "sort_key edge_reading_order edges"]
  have eq: "fst (compileEdges declared edges) =
      map (\<lambda>r. \<lparr>ce_from = er_from r, ce_to = er_to r, ce_outcome = the (er_outcome r)\<rparr>) (sort_key edge_reading_order edges)"
    by (simp add: compileEdges_def Let_def comp_def)
  show "map edge_order (fst (compileEdges declared edges)) = map edge_reading_order (sort_key edge_reading_order edges)"
    unfolding eq using parts compile_edge_ok by (fastforce simp: edge_order_def edge_reading_order_def)
  show "e \<in> set (fst (compileEdges declared edges)) \<Longrightarrow> declares declared (ce_from e) (ce_outcome e) \<and> map_of declared (ce_to e) \<noteq> None"
    unfolding eq using parts compile_edge_ok by (fastforce simp: declares_def)
qed

subsection \<open>Loop groups\<close>

lemma group_members_declared:
  "m \<in> set (fst (group_members declared path members index raws)) \<Longrightarrow> m \<in> set members \<or> map_of declared m \<noteq> None"
proof (induction raws arbitrary: members index)
  case (Cons raw raws)
  from Cons.prems Cons.IH show ?case
    by (fastforce simp: case_prod_unfold Let_def split: option.splits if_splits)
qed simp

lemma compileProgressPolicy_wf: "fst (compileProgressPolicy path raw) = Some p \<Longrightarrow> wf_policy p"
  by (auto simp: compileProgressPolicy_def Let_def split: if_splits option.splits dest: readCompiledProgressPolicy_wf)

lemma compileLoopGroup_ok:
  fixes declared edges g
  defines "r \<equiv> compileLoopGroup declared edges g"
  assumes "snd r = []"
  shows "clg_id (fst r) = id_of g" "0 < clg_maxTraversals (fst r)" "int (clg_maxTraversals (fst r)) \<le> max_safe"
    "\<And>m. m \<in> set (clg_nodes (fst r)) \<Longrightarrow> map_of declared m \<noteq> None"
    "\<And>p. clg_progress (fst r) = Some p \<Longrightarrow> wf_policy p"
  using assms
  by (auto simp: compileLoopGroup_def Let_def case_prod_unfold split: option.splits if_splits
      dest!: positive_safe_bound group_members_declared dest: compileProgressPolicy_wf)

subsection \<open>A successful compilation\<close>

fun compiled_plan_of :: "compile_result \<Rightarrow> compiled_plan option" where
  "compiled_plan_of (CompiledExecutable plan) = Some plan"
| "compiled_plan_of (CompiledDraft plan _ _) = Some plan"
| "compiled_plan_of (CompileFailed _) = None"

lemma compile_success:
  assumes "compiled_plan_of (compileGraph sha num options declaration) = Some plan"
  obtains body where "isGraphDeclarationV3 declaration" "assemble_body sha num options declaration = (body, [])"
    "fst (inspect_body sha num body) = []" "unsatisfiableJoinsOf body = []" "createCompiledPlan sha num body = Inr plan"
    "compileGraph sha num options declaration = succeeded plan"
proof -
  have plan: "compiled_plan_of (succeeded p) = Some p" for p
    by (simp add: succeeded_def split: compiled_plan_executability.split)
  obtain body issues where b: "assemble_body sha num options declaration = (body, issues)" by fastforce
  from assms plan show thesis
    by (auto simp: compileGraph_def compileDeclaration_def b Let_def result_simps intro!: that
        split: if_splits sum.splits)
qed

text \<open>The parts of the assembled body.\<close>

definition declared_nodes :: "jsval \<Rightarrow> (string \<times> jsval) list" where
  "declared_nodes declaration = sort_key fst (first_by_id (arr_of (js_get declaration ''nodes'')))"

definition declared_outcomes :: "jsval \<Rightarrow> (string \<times> string list) list" where
  "declared_outcomes declaration = map (\<lambda>(i, node). (i, declaredOutcomeIds node)) (declared_nodes declaration)"

lemma assemble_parts:
  assumes "assemble_body sha num options declaration = (body, [])"
  obtains budget policy cx where
    "readRunBudget (js_get declaration ''budget'') = Inr budget"
    "createCompletionContext options (str_of (js_get declaration ''name'')) declaration = (policy, [])"
    "compile_nodes sha num options (str_of (js_get declaration ''name'')) (declared_outcomes declaration) policy
       (map snd (declared_nodes declaration)) empty_context = (cp_nodes body, cx, [])"
    "compileEdges (declared_outcomes declaration) (readEdges (arr_of (js_get declaration ''edges''))) = (cp_edges body, [])"
    "concat (map (input_issues (cp_edges body)) (cp_nodes body)) = []"
    "compileLoopGroups (declared_outcomes declaration) (readEdges (arr_of (js_get declaration ''edges'')))
       (arr_of (js_get declaration ''loop_groups'')) = (cp_loopGroups body, [])"
    "body = plan_body (str_of (js_get declaration ''name'')) budget (cp_nodes body) (cp_edges body) (cp_loopGroups body) cx"
proof -
  obtain budget budgetIssues where b: "(case readRunBudget (js_get declaration ''budget'') of
      Inl _ \<Rightarrow> (None, [(MalformedDeclaration, ''$.budget'')]) | Inr b \<Rightarrow> (b, [])) = (budget, budgetIssues)" by fastforce
  obtain policy policyIssues where p: "createCompletionContext options (str_of (js_get declaration ''name'')) declaration = (policy, policyIssues)" by fastforce
  obtain nodes cx ownIssues where n: "compile_nodes sha num options (str_of (js_get declaration ''name'')) (declared_outcomes declaration) policy
       (map snd (declared_nodes declaration)) empty_context = (nodes, cx, ownIssues)" by (metis prod_cases3)
  obtain edges edgeIssues where e: "compileEdges (declared_outcomes declaration) (readEdges (arr_of (js_get declaration ''edges''))) = (edges, edgeIssues)" by fastforce
  obtain groups groupIssues where g: "compileLoopGroups (declared_outcomes declaration) (readEdges (arr_of (js_get declaration ''edges'')))
       (arr_of (js_get declaration ''loop_groups'')) = (groups, groupIssues)" by fastforce
  have eq: "assemble_body sha num options declaration =
      (plan_body (str_of (js_get declaration ''name'')) budget nodes edges groups cx,
       budgetIssues @ snd (indexNodes (arr_of (js_get declaration ''nodes''))) @ policyIssues @ ownIssues @ edgeIssues @
       concat (map (input_issues edges) nodes) @ groupIssues)"
    unfolding assemble_body_def Let_def b indexNodes_def case_prod_conv
      declared_nodes_def [symmetric] declared_outcomes_def [symmetric] p n e g
    by simp
  have body: "body = plan_body (str_of (js_get declaration ''name'')) budget nodes edges groups cx"
    and none: "budgetIssues = []" "policyIssues = []" "ownIssues = []" "edgeIssues = []" "concat (map (input_issues edges) nodes) = []" "groupIssues = []"
    using assms eq by auto
  have fields: "cp_nodes body = nodes" "cp_edges body = edges" "cp_loopGroups body = groups" by (simp_all add: body plan_body_def)
  have "readRunBudget (js_get declaration ''budget'') = Inr budget" using b none(1) by (cases "readRunBudget (js_get declaration ''budget'')") auto
  moreover note p [unfolded none] n [unfolded none, folded fields] e [unfolded none, folded fields]
  moreover have "concat (map (input_issues (cp_edges body)) (cp_nodes body)) = []" unfolding fields by (rule none(5))
  moreover note g [unfolded none, folded fields]
  moreover have "body = plan_body (str_of (js_get declaration ''name'')) budget (cp_nodes body) (cp_edges body) (cp_loopGroups body) cx"
    unfolding fields by (rule body)
  ultimately show thesis by (rule that)
qed

lemma declared_nodes_facts:
  assumes "isGraphDeclarationV3 declaration"
  shows "distinct (map fst (declared_nodes declaration))" "map id_of (map snd (declared_nodes declaration)) = map fst (declared_nodes declaration)"
    "p \<in> set (declared_nodes declaration) \<Longrightarrow> isNodeDeclarationV3 (snd p)"
    "map_of (declared_outcomes declaration) i \<noteq> None \<longleftrightarrow> i \<in> set (map fst (declared_nodes declaration))"
proof -
  show "distinct (map fst (declared_nodes declaration))" "map id_of (map snd (declared_nodes declaration)) = map fst (declared_nodes declaration)"
    unfolding declared_nodes_def by (rule distinct_indexed_ids, rule indexed_ids)
  show "p \<in> set (declared_nodes declaration) \<Longrightarrow> isNodeDeclarationV3 (snd p)"
    using assms first_by_id_facts(2) [of p "arr_of (js_get declaration ''nodes'')"]
    by (cases "js_get declaration ''nodes''") (auto simp: declared_nodes_def isGraphDeclarationV3_def array_of_def list_all_iff)
  show "map_of (declared_outcomes declaration) i \<noteq> None \<longleftrightarrow> i \<in> set (map fst (declared_nodes declaration))"
    by (auto simp: declared_outcomes_def map_of_eq_None_iff case_prod_unfold image_image)
qed

text \<open>The outcomes declared for an id are the outcomes of the compiled node with that id.\<close>

lemma declares_compiled:
  assumes "list_all2 (\<lambda>n p. cn_id n = fst p \<and> set (map co_id (cn_outcomes n)) = set (declaredOutcomeIds (snd p))) nodes ps"
    and "declares (map (\<lambda>(i, node). (i, declaredOutcomeIds node)) ps) i oc"
  shows "list_ex (\<lambda>n. cn_id n = i \<and> oc \<in> set (map co_id (cn_outcomes n))) nodes"
  using assms by (induction rule: list_all2_induct) (auto simp: declares_def split: if_splits option.splits)

lemma node_declaration_id: "isNodeDeclarationV3 v \<Longrightarrow> id_of v \<noteq> []"
  by (auto simp: isNodeDeclarationV3_def nonempty_string_Some)

lemma declared_node_id: "p \<in> set (declared_nodes declaration) \<Longrightarrow> fst p = id_of (snd p)"
  using first_by_id_facts(2) [of p "arr_of (js_get declaration ''nodes'')"] by (simp add: declared_nodes_def)

lemma compiled_body_wf:
  assumes decl: "isGraphDeclarationV3 declaration" and body: "assemble_body sha num options declaration = (body, [])"
  shows "wf_plan body"
proof -
  let ?ds = "declared_nodes declaration" and ?D = "declared_outcomes declaration"
  obtain budget policy cx where parts:
    "compile_nodes sha num options (str_of (js_get declaration ''name'')) ?D policy (map snd ?ds) empty_context = (cp_nodes body, cx, [])"
    "compileEdges ?D (readEdges (arr_of (js_get declaration ''edges''))) = (cp_edges body, [])"
    "compileLoopGroups ?D (readEdges (arr_of (js_get declaration ''edges''))) (arr_of (js_get declaration ''loop_groups'')) = (cp_loopGroups body, [])"
    "body = plan_body (str_of (js_get declaration ''name'')) budget (cp_nodes body) (cp_edges body) (cp_loopGroups body) cx"
    using assemble_parts [OF body] by metis
  note facts = declared_nodes_facts [OF decl]
  note nodes = compile_nodes_fields [where sha = sha and num = num and options = options and graphId = "str_of (js_get declaration ''name'')"
      and declared = ?D and policy = policy and raws = "map snd ?ds" and cx = empty_context, unfolded parts(1) fst_conv snd_conv]
  have ids: "node_ids body = map fst ?ds" using nodes(1) facts(2) by simp
  have compiled: "list_all (node_compiled ?D) (cp_nodes body)" using nodes(3) by simp
  have member: "map_of ?D i \<noteq> None \<Longrightarrow> i \<in> set (node_ids body)" for i using facts(4) ids by metis
  have pairs: "list_all2 (\<lambda>n p. cn_id n = fst p \<and> set (map co_id (cn_outcomes n)) = set (declaredOutcomeIds (snd p))) (cp_nodes body) ?ds"
    using ids nodes(2) by (simp add: list_all2_conv_all_nth list_eq_iff_nth_eq)
  have src: "declares ?D i oc \<Longrightarrow> i \<in> set (node_ids body)" for i oc
    using member [of i] by (auto simp: declares_def split: option.splits)
  have "wf_node body n" if n: "n \<in> set (cp_nodes body)" for n
  proof -
    from n compiled have c: "node_compiled ?D n" by (simp add: list_all_iff)
    from n obtain p where p: "p \<in> set ?ds" "cn_id n = fst p" using ids by (metis (no_types, lifting) image_iff list.set_map)
    have "fst p = id_of (snd p)" by (rule declared_node_id [OF p(1)])
    moreover have "id_of (snd p) \<noteq> []" by (rule node_declaration_id [OF facts(3) [OF p(1)]])
    ultimately have "cn_id n \<noteq> []" using p(2) by (simp only: not_False_eq_True)
    moreover have "cir_from i \<in> set (node_ids body) \<and> cir_from i \<noteq> cn_id n \<and> cir_outcome i \<noteq> []"
      if i: "i \<in> set (inputs_of n)" for i
    proof -
      have "input_declared ?D (cn_id n) i" using c i by (simp add: node_compiled_def)
      then show ?thesis using src [of "cir_from i" "cir_outcome i"] by (simp add: input_declared_def)
    qed
    ultimately show ?thesis using c by (auto simp only: wf_node_def node_compiled_def list_all_iff)
  qed
  moreover note edges = compileEdges_ok [where declared = ?D and edges = "readEdges (arr_of (js_get declaration ''edges''))", unfolded parts(2) fst_conv snd_conv, OF refl]
  have "wf_edge body e" if "e \<in> set (cp_edges body)" for e
    using edges(2) [OF that] member declares_compiled [OF pairs, folded declared_outcomes_def]
    by (auto simp: wf_edge_def)
  moreover have "sorted (map edge_order (cp_edges body))" unfolding edges(1) by simp
  moreover have "wf_group body g" and "clg_id g \<in> id_of ` set (arr_of (js_get declaration ''loop_groups''))" if g: "g \<in> set (cp_loopGroups body)" for g
  proof -
    let ?gs = "map snd (sort_key fst (first_by_id (arr_of (js_get declaration ''loop_groups''))))"
    from parts(3) have eq: "cp_loopGroups body = map (fst \<circ> compileLoopGroup ?D (readEdges (arr_of (js_get declaration ''edges'')))) ?gs"
      and none: "\<forall>r \<in> set ?gs. snd (compileLoopGroup ?D (readEdges (arr_of (js_get declaration ''edges''))) r) = []"
      by (auto simp: compileLoopGroups_def Let_def comp_def)
    from g obtain r where r: "r \<in> set ?gs" "g = fst (compileLoopGroup ?D (readEdges (arr_of (js_get declaration ''edges''))) r)" unfolding eq by auto
    note ok = compileLoopGroup_ok [OF none [rule_format, OF r(1)], folded r(2)]
    from r(1) have raw: "r \<in> set (arr_of (js_get declaration ''loop_groups''))" using first_by_id_facts(2) by fastforce
    then show "clg_id g \<in> id_of ` set (arr_of (js_get declaration ''loop_groups''))" using ok(1) by blast
    have "isLoopGroupDeclarationV3 r"
      using raw decl by (cases "js_get declaration ''loop_groups''") (auto simp: isGraphDeclarationV3_def array_of_def list_all_iff)
    then have "clg_id g \<noteq> []" using ok(1) by (auto simp: isLoopGroupDeclarationV3_def nonempty_string_Some)
    with ok(2-5) member show "wf_group body g" by (auto simp: wf_group_def list_all_iff split: option.split)
  qed
  moreover have "map clg_id (cp_loopGroups body) = map fst (sort_key fst (first_by_id (arr_of (js_get declaration ''loop_groups''))))"
  proof -
    let ?gs = "map snd (sort_key fst (first_by_id (arr_of (js_get declaration ''loop_groups''))))"
    from parts(3) have "cp_loopGroups body = map (fst \<circ> compileLoopGroup ?D (readEdges (arr_of (js_get declaration ''edges'')))) ?gs"
      and none: "\<forall>r \<in> set ?gs. snd (compileLoopGroup ?D (readEdges (arr_of (js_get declaration ''edges''))) r) = []"
      by (auto simp: compileLoopGroups_def Let_def comp_def)
    then have "map clg_id (cp_loopGroups body) = map id_of ?gs" using compileLoopGroup_ok(1) by fastforce
    then show ?thesis unfolding indexed_ids .
  qed
  moreover have "cp_terminalOutcomes body = terminalOutcomesOf (cp_nodes body) (cp_edges body)"
    by (subst parts(4)) (simp add: plan_body_def)
  ultimately show ?thesis
    using facts(1) distinct_indexed_ids by (simp add: wf_plan_def ids list_all_iff)
qed

lemma createCompiledPlan_Inr:
  "createCompiledPlan sha num body = Inr plan \<longleftrightarrow>
     (\<exists>h. contractDigest sha num (JObj (plan_body_fields body)) = Inr h \<and> plan = body\<lparr>cp_planRevision := h\<rparr>)"
  by (auto simp: createCompiledPlan_def rbind_eq_Inr)

lemma wf_parts_revision [simp]:
  "wf_node (body\<lparr>cp_planRevision := h\<rparr>) = wf_node body" "wf_edge (body\<lparr>cp_planRevision := h\<rparr>) = wf_edge body"
  "wf_group (body\<lparr>cp_planRevision := h\<rparr>) = wf_group body"
  by (simp_all add: fun_eq_iff wf_node_def wf_edge_def wf_group_def)

lemma wf_plan_revision [simp]: "wf_plan (body\<lparr>cp_planRevision := h\<rparr>) = wf_plan body"
  by (simp add: wf_plan_def)

lemma compiled_wf:
  assumes "compiled_plan_of (compileGraph sha num options declaration) = Some plan"
  shows "wf_plan plan"
  using compile_success [OF assms] compiled_body_wf by (metis createCompiledPlan_Inr wf_plan_revision)

end
