(* ===== verification/CyclesFacts.thy ===== *)
theory CyclesFacts
  imports Cycles
begin

text \<open>
  Correctness of the component search: the components are exactly the strongly connected components of
  the graph, so the cyclic ones are exactly the sets of nodes that lie on common cycles.

  The invariant follows the classical argument. \<open>tarjan_inv\<close> relates the visited nodes to the stack and
  the closed components, relative to the set of nodes whose call is still active; \<open>loop_inv\<close> is the state of
  one call while its successors are examined, and \<open>connected\<close> what a finished call leaves behind.
\<close>

subsection \<open>Graphs\<close>

definition arcs :: "(string \<Rightarrow> string list) \<Rightarrow> (string \<times> string) set" where
  "arcs adj = {(x, y). y \<in> set (adj x)}"

abbreviation reach :: "(string \<Rightarrow> string list) \<Rightarrow> string \<Rightarrow> string \<Rightarrow> bool" where
  "reach adj x y \<equiv> (x, y) \<in> (arcs adj)\<^sup>*"

definition scc_of :: "(string \<Rightarrow> string list) \<Rightarrow> string \<Rightarrow> string set" where
  "scc_of adj x = {y. reach adj x y \<and> reach adj y x}"

lemma reach_step: "y \<in> set (adj x) \<Longrightarrow> reach adj x y"
  by (auto simp: arcs_def)

lemma reach_closed:
  assumes "reach adj x y" and "x \<in> A" and "\<And>a b. a \<in> A \<Longrightarrow> b \<in> set (adj a) \<Longrightarrow> b \<in> A"
  shows "y \<in> A"
  using assms(1,2) by (induction rule: rtrancl_induct) (auto simp: arcs_def intro: assms(3))

subsection \<open>The invariant\<close>

abbreviation idx :: "tarjan_state \<Rightarrow> string \<Rightarrow> nat" where
  "idx s v \<equiv> the (ts_indices s v)"

definition closed_nodes :: "tarjan_state \<Rightarrow> string set" where
  "closed_nodes s = set (concat (ts_components s))"

definition tarjan_shape :: "string set \<Rightarrow> tarjan_state \<Rightarrow> bool" where
  "tarjan_shape V s \<longleftrightarrow>
     dom (ts_indices s) = set (ts_stack s) \<union> closed_nodes s \<and> set (ts_stack s) \<inter> closed_nodes s = {} \<and>
     distinct (ts_stack s) \<and> distinct (concat (ts_components s)) \<and> set (ts_onStack s) = set (ts_stack s) \<and>
     dom (ts_indices s) \<subseteq> V \<and> (\<forall>v \<in> dom (ts_indices s). idx s v < ts_index s) \<and>
     sorted_wrt (\<lambda>a b. idx s b < idx s a) (ts_stack s)"

definition closed_sccs :: "(string \<Rightarrow> string list) \<Rightarrow> tarjan_state \<Rightarrow> bool" where
  "closed_sccs adj s \<longleftrightarrow> (\<forall>c \<in> set (ts_components s). c \<noteq> [] \<and> (\<forall>x \<in> set c. set c = scc_of adj x)) \<and>
     (\<forall>x \<in> closed_nodes s. set (adj x) \<subseteq> closed_nodes s)"

definition active_calls :: "(string \<Rightarrow> string list) \<Rightarrow> string set \<Rightarrow> tarjan_state \<Rightarrow> bool" where
  "active_calls adj G s \<longleftrightarrow> G \<subseteq> set (ts_stack s) \<and>
     (\<forall>x \<in> G. \<forall>y \<in> set (ts_stack s). idx s x \<le> idx s y \<longrightarrow> reach adj x y) \<and>
     (\<forall>y \<in> set (ts_stack s). \<exists>x \<in> G. idx s x \<le> idx s y \<and> reach adj y x) \<and>
     (\<forall>x \<in> set (ts_stack s) - G. set (adj x) \<subseteq> dom (ts_indices s))"

definition tarjan_inv :: "(string \<Rightarrow> string list) \<Rightarrow> string set \<Rightarrow> string set \<Rightarrow> tarjan_state \<Rightarrow> bool" where
  "tarjan_inv adj V G s \<longleftrightarrow> tarjan_shape V s \<and> closed_sccs adj s \<and> active_calls adj G s"

definition frame :: "string set \<Rightarrow> tarjan_state \<Rightarrow> tarjan_state \<Rightarrow> bool" where
  "frame X s t \<longleftrightarrow> ts_indices s \<subseteq>\<^sub>m ts_indices t \<and> ts_index s \<le> ts_index t \<and>
     (\<forall>x \<in> dom (ts_indices t) - dom (ts_indices s). ts_index s \<le> idx t x) \<and>
     (\<forall>x \<in> dom (ts_indices s) - X. ts_lowlink t x = ts_lowlink s x)"

lemma frame_refl [simp]: "frame X s s"
  by (simp add: frame_def)

lemma frame_idx: "frame X s t \<Longrightarrow> x \<in> dom (ts_indices s) \<Longrightarrow> ts_indices t x = ts_indices s x"
  by (auto simp: frame_def map_le_def)

lemma frame_dom: "frame X s t \<Longrightarrow> dom (ts_indices s) \<subseteq> dom (ts_indices t)"
  by (auto simp: frame_def dest: map_le_implies_dom_le)

lemma frame_trans:
  assumes "frame X s t" and "frame Y t u" and "X \<subseteq> Z" "Y \<inter> dom (ts_indices s) \<subseteq> Z"
  shows "frame Z s u"
proof -
  have "ts_index s \<le> idx u x" if "x \<in> dom (ts_indices u) - dom (ts_indices s)" for x
  proof (cases "x \<in> dom (ts_indices t)")
    case True
    then show ?thesis using that assms(1) frame_idx [OF assms(2) True] by (auto simp: frame_def)
  next
    case False
    then have "ts_index t \<le> idx u x" using that assms(2) by (auto simp: frame_def)
    then show ?thesis using assms(1) by (auto simp: frame_def)
  qed
  moreover have "ts_lowlink u x = ts_lowlink s x" if "x \<in> dom (ts_indices s) - Z" for x
  proof -
    from that assms(3,4) have "x \<in> dom (ts_indices s) - X" "x \<notin> Y" by blast+
    moreover from this frame_dom [OF assms(1)] have "x \<in> dom (ts_indices t) - Y" by blast
    ultimately show ?thesis using assms(1,2) unfolding frame_def by metis
  qed
  ultimately show ?thesis
    using assms(1,2) map_le_trans by (auto simp: frame_def)
qed

text \<open>What the call for \<open>v\<close> started in \<open>s\<close> leaves behind in \<open>t\<close>.\<close>

definition connected :: "(string \<Rightarrow> string list) \<Rightarrow> string set \<Rightarrow> string set \<Rightarrow> string \<Rightarrow> tarjan_state \<Rightarrow> tarjan_state \<Rightarrow> bool" where
  "connected adj V G v s t \<longleftrightarrow> tarjan_inv adj V G t \<and> frame {} s t \<and> v \<in> dom (ts_indices t) \<and>
     (\<exists>pre. ts_stack t = pre @ ts_stack s \<and>
        (\<forall>x \<in> set pre. \<forall>y \<in> set (ts_stack s). y \<in> set (adj x) \<longrightarrow> low_of t v \<le> idx s y)) \<and>
     (ts_index s \<le> low_of t v \<or> (\<exists>y \<in> set (ts_stack s). low_of t v = idx s y \<and> reach adj v y))"

text \<open>The state of the call for \<open>v\<close> started in \<open>s0\<close> when the successors in \<open>W\<close> have been examined.\<close>

definition loop_inv ::
  "(string \<Rightarrow> string list) \<Rightarrow> string set \<Rightarrow> string set \<Rightarrow> string \<Rightarrow> tarjan_state \<Rightarrow> string set \<Rightarrow> tarjan_state \<Rightarrow> bool" where
  "loop_inv adj V G v s0 W s \<longleftrightarrow> tarjan_inv adj V G s0 \<and> v \<notin> dom (ts_indices s0) \<and>
     tarjan_inv adj V (insert v G) s \<and> frame {v} (open_node v s0) s \<and>
     (\<exists>pre. ts_stack s = pre @ v # ts_stack s0 \<and>
        (\<forall>x \<in> set pre. \<forall>y \<in> set (ts_stack s0). y \<in> set (adj x) \<longrightarrow> low_of s v \<le> idx s0 y)) \<and>
     (\<forall>y \<in> W \<inter> set (ts_stack s0). low_of s v \<le> idx s0 y) \<and>
     low_of s v \<le> ts_index s0 \<and> ts_lowlink s v \<noteq> None \<and>
     (\<exists>y \<in> set (ts_stack s). low_of s v = idx s y \<and> reach adj v y) \<and> W \<subseteq> dom (ts_indices s)"

lemma open_node_simps [simp]:
  "ts_indices (open_node v s) = (ts_indices s)(v \<mapsto> ts_index s)" "ts_lowlink (open_node v s) = (ts_lowlink s)(v \<mapsto> ts_index s)"
  "ts_index (open_node v s) = Suc (ts_index s)" "ts_stack (open_node v s) = v # ts_stack s"
  "ts_onStack (open_node v s) = set_add v (ts_onStack s)" "ts_components (open_node v s) = ts_components s"
  "closed_nodes (open_node v s) = closed_nodes s"
  by (simp_all add: open_node_def closed_nodes_def)

lemma lower_simps [simp]:
  "ts_indices (lower v l s) = ts_indices s" "ts_lowlink (lower v l s) = (ts_lowlink s)(v \<mapsto> min (low_of s v) l)"
  "ts_index (lower v l s) = ts_index s" "ts_stack (lower v l s) = ts_stack s"
  "ts_onStack (lower v l s) = ts_onStack s" "ts_components (lower v l s) = ts_components s"
  "closed_nodes (lower v l s) = closed_nodes s"
  by (simp_all add: lower_def closed_nodes_def)

lemma tarjan_inv_lower [simp]: "tarjan_inv adj V G (lower v l s) = tarjan_inv adj V G s"
  by (simp add: tarjan_inv_def tarjan_shape_def closed_sccs_def active_calls_def)

lemma frame_lower: "v \<in> X \<Longrightarrow> frame X s t \<Longrightarrow> frame X s (lower v l t)"
  by (auto simp: frame_def)

lemma stack_index_less: "tarjan_shape V s \<Longrightarrow> y \<in> set (ts_stack s) \<Longrightarrow> idx s y < ts_index s"
  by (auto simp: tarjan_shape_def)

lemma shape_open:
  assumes "tarjan_shape V s" and "v \<notin> dom (ts_indices s)" "v \<in> V"
  shows "tarjan_shape V (open_node v s)"
proof -
  have v: "v \<notin> set (ts_stack s)" "v \<notin> closed_nodes s" using assms by (auto simp: tarjan_shape_def)
  have "sorted_wrt (\<lambda>a b. idx (open_node v s) b < idx (open_node v s) a) (ts_stack s)"
    using assms(1) v(1) by (auto simp: tarjan_shape_def intro: sorted_wrt_mono_rel [rotated])
  moreover have "\<forall>b \<in> set (ts_stack s). idx (open_node v s) b < ts_index s"
    using stack_index_less [OF assms(1)] v(1) by auto
  ultimately show ?thesis
    using assms v by (auto simp: tarjan_shape_def less_Suc_eq)
qed

lemma open_loop_inv:
  assumes "tarjan_inv adj V G s" and "v \<notin> dom (ts_indices s)" "v \<in> V" and "\<forall>x \<in> G. reach adj x v"
  shows "loop_inv adj V G v s {} (open_node v s)"
proof -
  from assms(1) have inv: "tarjan_shape V s" "closed_sccs adj s" "active_calls adj G s" by (simp_all add: tarjan_inv_def)
  have v: "v \<notin> set (ts_stack s)" using assms(2) inv(1) by (auto simp: tarjan_shape_def)
  have less: "\<And>y. y \<in> set (ts_stack s) \<Longrightarrow> idx s y < ts_index s" by (rule stack_index_less [OF inv(1)])
  have G: "G \<subseteq> set (ts_stack s)" using inv(3) by (simp add: active_calls_def)
  have "reach adj x y" if "x \<in> insert v G" "y \<in> insert v (set (ts_stack s))" "idx (open_node v s) x \<le> idx (open_node v s) y" for x y
  proof (cases "y = v \<or> x = v")
    case True
    then show ?thesis using that assms(4) less [of y] v by (cases "y = v") auto
  next
    case False
    then show ?thesis using that inv(3) by (auto simp: active_calls_def)
  qed
  moreover have "\<exists>x \<in> insert v G. idx (open_node v s) x \<le> idx (open_node v s) y \<and> reach adj y x" if "y \<in> insert v (set (ts_stack s))" for y
  proof (cases "y = v")
    case False
    with that inv(3) obtain x where "x \<in> G" "idx s x \<le> idx s y" "reach adj y x" by (auto simp: active_calls_def)
    with False G v show ?thesis by (intro bexI [of _ x]) auto
  qed auto
  ultimately have "active_calls adj (insert v G) (open_node v s)"
    using inv(3) v by (auto simp: active_calls_def)
  moreover have "closed_sccs adj (open_node v s)" using inv(2) by (simp add: closed_sccs_def)
  ultimately show ?thesis
    using assms(1-3) shape_open [OF inv(1) assms(2,3)] by (auto simp: loop_inv_def tarjan_inv_def)
qed

subsection \<open>The steps of one call\<close>

lemma loop_frame: "loop_inv adj V G v s0 W s \<Longrightarrow> frame {} s0 s"
proof -
  assume a: "loop_inv adj V G v s0 W s"
  then have f: "frame {v} (open_node v s0) s" and v: "v \<notin> dom (ts_indices s0)" by (auto simp: loop_inv_def)
  have "frame {v} s0 (open_node v s0)" using v by (auto simp: frame_def map_le_def)
  from frame_trans [OF this f] have "frame {v} s0 s" by simp
  then show ?thesis using v by (auto simp: frame_def)
qed

lemma loop_facts:
  assumes "loop_inv adj V G v s0 W s"
  shows "ts_indices s v = Some (ts_index s0)" "Suc (ts_index s0) \<le> ts_index s" "v \<in> set (ts_stack s)"
    "set (ts_stack s0) \<subseteq> set (ts_stack s)" "\<And>y. y \<in> set (ts_stack s0) \<Longrightarrow> ts_indices s y = ts_indices s0 y"
    "\<And>y. y \<in> set (ts_stack s0) \<Longrightarrow> idx s0 y < ts_index s0" "set (ts_stack s) \<subseteq> dom (ts_indices s)"
    "set (ts_stack s0) \<subseteq> dom (ts_indices s0)"
proof -
  have f: "frame {v} (open_node v s0) s" and inv0: "tarjan_shape V s0" and inv: "tarjan_shape V s"
    using assms by (auto simp: loop_inv_def tarjan_inv_def)
  from frame_idx [OF f, of v] show "ts_indices s v = Some (ts_index s0)" by simp
  from f show "Suc (ts_index s0) \<le> ts_index s" by (simp add: frame_def)
  from assms show "v \<in> set (ts_stack s)" "set (ts_stack s0) \<subseteq> set (ts_stack s)" by (auto simp: loop_inv_def)
  show d: "set (ts_stack s0) \<subseteq> dom (ts_indices s0)" "set (ts_stack s) \<subseteq> dom (ts_indices s)"
    using inv0 inv by (auto simp: tarjan_shape_def)
  show "ts_indices s y = ts_indices s0 y" if "y \<in> set (ts_stack s0)" for y
    using frame_idx [OF loop_frame [OF assms]] that d by blast
  show "idx s0 y < ts_index s0" if "y \<in> set (ts_stack s0)" for y by (rule stack_index_less [OF inv0 that])
qed

lemma loop_reach:
  assumes "loop_inv adj V G v s0 W s" and "x \<in> insert v G"
  shows "reach adj x v"
proof (cases "x = v")
  case False
  then have x: "x \<in> set (ts_stack s0)" using assms by (auto simp: loop_inv_def tarjan_inv_def active_calls_def)
  have "idx s x \<le> idx s v" using loop_facts(1,5,6) [OF assms(1)] x by fastforce
  then show ?thesis using assms loop_facts(3) [OF assms(1)] by (auto simp: loop_inv_def tarjan_inv_def active_calls_def)
qed simp

lemma loop_lower:
  assumes "tarjan_inv adj V G s0" "v \<notin> dom (ts_indices s0)" "tarjan_inv adj V (insert v G) t" "frame {v} (open_node v s0) t"
    and "ts_stack t = pre @ v # ts_stack s0"
    and "\<forall>x \<in> set pre. \<forall>y \<in> set (ts_stack s0). y \<in> set (adj x) \<longrightarrow> min (low_of t v) l \<le> idx s0 y"
    and "\<forall>y \<in> W \<inter> set (ts_stack s0). min (low_of t v) l \<le> idx s0 y" and "low_of t v \<le> ts_index s0"
    and "\<exists>y \<in> set (ts_stack t). min (low_of t v) l = idx t y \<and> reach adj v y" and "W \<subseteq> dom (ts_indices t)"
  shows "loop_inv adj V G v s0 W (lower v l t)"
proof -
  have "low_of (lower v l t) v = min (low_of t v) l" "ts_lowlink (lower v l t) v \<noteq> None" by simp_all
  with assms frame_lower [OF _ assms(4), of v l] show ?thesis
    unfolding loop_inv_def lower_simps(1,4) tarjan_inv_lower by (intro conjI) (blast | simp)+
qed

lemma loop_visited:
  assumes "loop_inv adj V G v s0 W s" and "w \<in> set (adj v)" and "ts_indices s w = Some i"
  shows "loop_inv adj V G v s0 (insert w W) (if w \<in> set (ts_onStack s) then lower v i s else s)"
proof (cases "w \<in> set (ts_onStack s)")
  case True
  then have w: "w \<in> set (ts_stack s)" using assms(1) by (auto simp: loop_inv_def tarjan_inv_def tarjan_shape_def)
  obtain y where y: "y \<in> set (ts_stack s)" "low_of s v = idx s y" "reach adj v y" using assms(1) by (auto simp: loop_inv_def)
  have "\<exists>y \<in> set (ts_stack s). min (low_of s v) i = idx s y \<and> reach adj v y"
  proof (cases "low_of s v \<le> i")
    case True
    with y show ?thesis by (auto simp: min_def)
  next
    case False
    with w assms(3) reach_step [where adj = adj, OF assms(2)] show ?thesis by (intro bexI [of _ w]) auto
  qed
  moreover have "w \<in> set (ts_stack s0) \<Longrightarrow> i = idx s0 w" using loop_facts(5) [OF assms(1), of w] assms(3) by (metis option.sel)
  moreover obtain pre where "ts_stack s = pre @ v # ts_stack s0"
      "\<forall>x \<in> set pre. \<forall>y \<in> set (ts_stack s0). y \<in> set (adj x) \<longrightarrow> low_of s v \<le> idx s0 y"
    using assms(1) by (auto simp: loop_inv_def)
  ultimately have "loop_inv adj V G v s0 (insert w W) (lower v i s)"
    using assms(1,3) by (intro loop_lower [where pre = pre]) (auto simp: loop_inv_def min_le_iff_disj)
  with True show ?thesis by simp
next
  case False
  then have "w \<notin> set (ts_stack s0)" using assms(1) loop_facts(4) [OF assms(1)] by (auto simp: loop_inv_def tarjan_inv_def tarjan_shape_def)
  then show ?thesis using assms False by (auto simp: loop_inv_def)
qed

lemma loop_connected:
  assumes "loop_inv adj V G v s0 W s" and "w \<in> set (adj v)" and "ts_indices s w = None"
    and "connected adj V (insert v G) w s t"
  shows "loop_inv adj V G v s0 (insert w W) (lower v (low_of t w) t)"
proof -
  note facts = loop_facts [OF assms(1)]
  from assms(4) have inv: "tarjan_inv adj V (insert v G) t" and f: "frame {} s t" and w: "w \<in> dom (ts_indices t)"
    and low: "ts_index s \<le> low_of t w \<or> (\<exists>y \<in> set (ts_stack s). low_of t w = idx s y \<and> reach adj w y)"
    by (auto simp: connected_def)
  from assms(4) obtain pw where pw: "ts_stack t = pw @ ts_stack s"
      "\<forall>x \<in> set pw. \<forall>y \<in> set (ts_stack s). y \<in> set (adj x) \<longrightarrow> low_of t w \<le> idx s y"
    by (auto simp: connected_def)
  from assms(1) obtain pre where pre: "ts_stack s = pre @ v # ts_stack s0"
      "\<forall>x \<in> set pre. \<forall>y \<in> set (ts_stack s0). y \<in> set (adj x) \<longrightarrow> low_of s v \<le> idx s0 y"
    by (auto simp: loop_inv_def)
  have same: "ts_lowlink t v = ts_lowlink s v" using f facts(1) by (auto simp: frame_def)
  have idx: "idx t y = idx s y" if "y \<in> set (ts_stack s)" for y using frame_idx [OF f] that facts(7) by (simp add: subset_iff)
  have fr: "frame {v} (open_node v s0) t"
    using frame_trans [of "{v}" "open_node v s0" s "{}" t "{v}"] f assms(1) by (simp add: loop_inv_def)
  have "\<exists>y \<in> set (ts_stack t). min (low_of s v) (low_of t w) = idx t y \<and> reach adj v y"
  proof (cases "low_of s v \<le> low_of t w")
    case True
    from assms(1) obtain y where "y \<in> set (ts_stack s)" "low_of s v = idx s y" "reach adj v y" by (auto simp: loop_inv_def)
    with True idx [of y] pw(1) show ?thesis by (intro bexI [of _ y]) auto
  next
    case False
    then have "\<not> ts_index s \<le> low_of t w" using facts(2) assms(1) by (auto simp: loop_inv_def)
    with low obtain y where "y \<in> set (ts_stack s)" "low_of t w = idx s y" "reach adj w y" by blast
    with False idx [of y] pw(1) reach_step [where adj = adj, OF assms(2)] show ?thesis
      by (intro bexI [of _ y]) (auto intro: rtrancl_trans)
  qed
  moreover have "\<forall>x \<in> set (pw @ pre). \<forall>y \<in> set (ts_stack s0). y \<in> set (adj x) \<longrightarrow> min (low_of s v) (low_of t w) \<le> idx s0 y"
    using pw(2) pre(2) facts(4,5) by (fastforce simp: min_le_iff_disj subset_iff)
  moreover have "w \<notin> set (ts_stack s0)" using facts(4,7) assms(3) by blast
  moreover have "W \<subseteq> dom (ts_indices s)" using assms(1) by (simp add: loop_inv_def)
  then have "W \<subseteq> dom (ts_indices t)" using frame_dom [OF f] by (rule subset_trans)
  moreover have "\<forall>y \<in> W \<inter> set (ts_stack s0). min (low_of s v) (low_of t w) \<le> idx s0 y" "low_of s v \<le> ts_index s0"
      "tarjan_inv adj V G s0" "v \<notin> dom (ts_indices s0)"
    using assms(1) by (auto simp: loop_inv_def min_le_iff_disj)
  moreover have "ts_stack t = (pw @ pre) @ v # ts_stack s0" using pw(1) pre(1) by simp
  ultimately show ?thesis
    using inv fr w by (intro loop_lower [where pre = "pw @ pre"]) (simp_all add: same)
qed

lemma pop_until_split: "v \<notin> set pre \<Longrightarrow> pop_until v (pre @ v # rest) = (pre @ [v], rest)"
  by (induction pre) auto

text \<open>The facts about a call whose successors are all examined.\<close>

lemma finished_facts:
  assumes "loop_inv adj V G v s0 (set (adj v)) s" and "ts_stack s = pre @ v # ts_stack s0"
  shows "v \<notin> set pre" "set pre \<inter> set (ts_stack s0) = {}" "v \<notin> set (ts_stack s0)" "G \<subseteq> set (ts_stack s0)"
    "\<And>x. x \<in> set pre \<Longrightarrow> ts_index s0 < idx s x"
    "\<And>x y. x \<in> insert v (set pre) \<Longrightarrow> y \<in> set (adj x) \<Longrightarrow> y \<in> set (ts_stack s0) \<Longrightarrow> low_of s v \<le> idx s0 y"
    "\<And>x. x \<in> insert v (set pre) \<Longrightarrow> set (adj x) \<subseteq> insert v (set pre) \<union> set (ts_stack s0) \<union> closed_nodes s"
    "\<And>x. x \<in> insert v (set pre) \<Longrightarrow> reach adj v x \<and> reach adj x v"
proof -
  have shape: "tarjan_shape V s" and act: "active_calls adj (insert v G) s" and act0: "active_calls adj G s0"
    using assms(1) by (auto simp: loop_inv_def tarjan_inv_def)
  note facts = loop_facts [OF assms(1)]
  show d: "v \<notin> set pre" "set pre \<inter> set (ts_stack s0) = {}" "v \<notin> set (ts_stack s0)"
    using shape by (auto simp: tarjan_shape_def assms(2))
  show G: "G \<subseteq> set (ts_stack s0)" using act0 by (simp add: active_calls_def)
  have "sorted_wrt (\<lambda>a b. idx s b < idx s a) (pre @ v # ts_stack s0)" using shape by (simp add: tarjan_shape_def assms(2))
  then show gt: "ts_index s0 < idx s x" if "x \<in> set pre" for x
    using that facts(1) by (auto simp: sorted_wrt_append)
  show "low_of s v \<le> idx s0 y" if "x \<in> insert v (set pre)" "y \<in> set (adj x)" "y \<in> set (ts_stack s0)" for x y
  proof -
    obtain pre' where "ts_stack s = pre' @ v # ts_stack s0"
        "\<forall>x \<in> set pre'. \<forall>y \<in> set (ts_stack s0). y \<in> set (adj x) \<longrightarrow> low_of s v \<le> idx s0 y"
        "\<forall>y \<in> set (adj v) \<inter> set (ts_stack s0). low_of s v \<le> idx s0 y"
      using assms(1) unfolding loop_inv_def by blast
    with that assms(2) show ?thesis by auto
  qed
  have dom: "dom (ts_indices s) = insert v (set pre) \<union> set (ts_stack s0) \<union> closed_nodes s"
    using shape by (auto simp: tarjan_shape_def assms(2))
  show "set (adj x) \<subseteq> insert v (set pre) \<union> set (ts_stack s0) \<union> closed_nodes s" if "x \<in> insert v (set pre)" for x
  proof (cases "x = v")
    case True
    then show ?thesis using assms(1) unfolding loop_inv_def dom by blast
  next
    case False
    then have "x \<in> set (ts_stack s) - insert v G" using that d G assms(2) by auto
    then show ?thesis using act unfolding active_calls_def dom by blast
  qed
  show "reach adj v x \<and> reach adj x v" if "x \<in> insert v (set pre)" for x
  proof
    have x: "x \<in> set (ts_stack s)" "idx s v \<le> idx s x" using that gt [of x] facts(1) assms(2) by auto
    then show "reach adj v x" using act by (auto simp: active_calls_def)
    from x act obtain g where "g \<in> insert v G" "reach adj x g" unfolding active_calls_def by blast
    with loop_reach [OF assms(1), of g] show "reach adj x v" by (auto intro: rtrancl_trans)
  qed
qed

lemma close_keeps:
  assumes "loop_inv adj V G v s0 (set (adj v)) s" and "low_of s v \<noteq> ts_index s0"
  shows "connected adj V G v s0 s"
proof -
  from assms(1) obtain pre where pre: "ts_stack s = pre @ v # ts_stack s0" by (auto simp: loop_inv_def)
  note facts = loop_facts [OF assms(1)] and fin = finished_facts [OF assms(1) pre]
  have less: "low_of s v < ts_index s0" using assms by (auto simp: loop_inv_def)
  have inv: "tarjan_inv adj V (insert v G) s" and dv: "set (adj v) \<subseteq> dom (ts_indices s)" using assms(1) by (simp_all add: loop_inv_def)
  then have act: "active_calls adj (insert v G) s" by (simp add: tarjan_inv_def)
  from assms(1) obtain y where y: "y \<in> set (ts_stack s)" "low_of s v = idx s y" "reach adj v y" by (auto simp: loop_inv_def)
  with less facts(1) fin(5) [of y] pre have y0: "y \<in> set (ts_stack s0)" by auto
  have below: "\<exists>x \<in> G. idx s x \<le> idx s z \<and> reach adj z x" if z: "z \<in> set (ts_stack s)" "idx s z < ts_index s0" for z
  proof -
    from act z(1) obtain x where "x \<in> insert v G" "idx s x \<le> idx s z" "reach adj z x" unfolding active_calls_def by blast
    with z(2) facts(1) show ?thesis by auto
  qed
  have "\<exists>x \<in> G. idx s x \<le> idx s z \<and> reach adj z x" if z: "z \<in> set (ts_stack s)" for z
  proof -
    from act z obtain x where x: "x \<in> insert v G" "idx s x \<le> idx s z" "reach adj z x" unfolding active_calls_def by blast
    show ?thesis
    proof (cases "x = v")
      case True
      from below [OF y(1)] y(2) less obtain x' where "x' \<in> G" "idx s x' \<le> idx s y" "reach adj y x'" by auto
      moreover have "reach adj z x'" using x(3) y(3) calculation(3) by (simp add: True)
      moreover have "idx s x' \<le> idx s z" using x(2) calculation(2) y(2) less facts(1) by (simp add: True)
      ultimately show ?thesis by blast
    qed (use x in blast)
  qed
  with act dv fin(4) facts(4) have "active_calls adj G s"
    unfolding active_calls_def by (intro conjI) blast+
  then have "tarjan_inv adj V G s" using inv by (simp add: tarjan_inv_def)
  moreover have "\<forall>x \<in> set (pre @ [v]). \<forall>y \<in> set (ts_stack s0). y \<in> set (adj x) \<longrightarrow> low_of s v \<le> idx s0 y"
    using fin(6) by auto
  moreover have "low_of s v = idx s0 y" using y(2) facts(5) [OF y0] by simp
  ultimately show ?thesis
    unfolding connected_def using loop_frame [OF assms(1)] facts(1) y0 y(3) pre
    by (intro conjI exI [of _ "pre @ [v]"] disjI2 bexI [of _ y]) auto
qed

text \<open>The component a call closes: its edges stay inside or lead to closed nodes, so it is a whole component.\<close>

lemma closed_component:
  assumes "loop_inv adj V G v s0 (set (adj v)) s" and "ts_stack s = pre @ v # ts_stack s0" and "low_of s v = ts_index s0"
  shows "\<And>x. x \<in> insert v (set pre) \<Longrightarrow> set (adj x) \<subseteq> insert v (set pre) \<union> closed_nodes s"
    and "\<And>x. x \<in> insert v (set pre) \<Longrightarrow> insert v (set pre) = scc_of adj x"
proof -
  note facts = loop_facts [OF assms(1)] and fin = finished_facts [OF assms(1,2)]
  have closed: "closed_sccs adj s" and shape: "tarjan_shape V s" using assms(1) by (auto simp: loop_inv_def tarjan_inv_def)
  show edges: "set (adj x) \<subseteq> insert v (set pre) \<union> closed_nodes s" if "x \<in> insert v (set pre)" for x
  proof
    fix y assume y: "y \<in> set (adj x)"
    have "y \<notin> set (ts_stack s0)" using fin(6) [OF that y] facts(6) [of y] assms(3) by auto
    with fin(7) [OF that] y show "y \<in> insert v (set pre) \<union> closed_nodes s" by blast
  qed
  show "insert v (set pre) = scc_of adj x" if x: "x \<in> insert v (set pre)" for x
  proof (intro set_eqI iffI)
    fix y assume "y \<in> insert v (set pre)"
    then show "y \<in> scc_of adj x" using fin(8) [of y] fin(8) [OF x] by (auto simp: scc_of_def intro: rtrancl_trans)
  next
    fix y assume y: "y \<in> scc_of adj x"
    have "y \<in> insert v (set pre) \<union> closed_nodes s"
    proof (rule reach_closed [of x y adj])
      show "reach adj x y" "x \<in> insert v (set pre) \<union> closed_nodes s" using y x by (auto simp: scc_of_def)
    qed (use edges closed in \<open>auto simp: closed_sccs_def\<close>)
    moreover have "y \<notin> closed_nodes s"
    proof
      assume "y \<in> closed_nodes s"
      then have "x \<in> closed_nodes s" using reach_closed [of y x adj "closed_nodes s"] y closed by (auto simp: scc_of_def closed_sccs_def)
      then show False using x shape by (auto simp: tarjan_shape_def assms(2))
    qed
    ultimately show "y \<in> insert v (set pre)" by blast
  qed
qed

lemma close_pops:
  assumes "loop_inv adj V G v s0 (set (adj v)) s" and "low_of s v = ts_index s0"
  shows "connected adj V G v s0 (close_node v s)"
proof -
  from assms(1) obtain pre where pre: "ts_stack s = pre @ v # ts_stack s0" by (auto simp: loop_inv_def)
  note facts = loop_facts [OF assms(1)] and fin = finished_facts [OF assms(1) pre] and comp = closed_component [OF assms(1) pre assms(2)]
  have shape: "tarjan_shape V s" and closed: "closed_sccs adj s" and act: "active_calls adj (insert v G) s"
    and shape0: "tarjan_shape V s0" using assms(1) by (auto simp: loop_inv_def tarjan_inv_def)
  let ?t = "s\<lparr>ts_stack := ts_stack s0, ts_onStack := filter (\<lambda>x. x \<notin> set (pre @ [v])) (ts_onStack s),
              ts_components := ts_components s @ [pre @ [v]]\<rparr>"
  have "ts_lowlink s v = ts_indices s v" using assms facts(1) by (auto simp: loop_inv_def)
  then have t: "close_node v s = ?t" by (simp add: close_node_def pre pop_until_split [OF fin(1)])
  have cl: "closed_nodes ?t = closed_nodes s \<union> insert v (set pre)" by (auto simp: closed_nodes_def)
  have "sorted_wrt (\<lambda>a b. idx s b < idx s a) (ts_stack s0)" using shape by (simp add: tarjan_shape_def pre sorted_wrt_append)
  moreover have "distinct (concat (ts_components s) @ pre @ [v])" using shape by (auto simp: tarjan_shape_def pre closed_nodes_def)
  ultimately have shape': "tarjan_shape V ?t" using shape fin(1-3) unfolding tarjan_shape_def cl by (auto simp: pre)
  have closed': "closed_sccs adj ?t"
    using closed comp unfolding closed_sccs_def cl by (auto 4 4)
  have "\<exists>x \<in> G. idx s x \<le> idx s z \<and> reach adj z x" if z: "z \<in> set (ts_stack s0)" for z
  proof -
    from act z facts(4) obtain x where "x \<in> insert v G" "idx s x \<le> idx s z" "reach adj z x" unfolding active_calls_def by blast
    moreover have "idx s z < idx s v" using facts(1,5,6) z by simp
    ultimately show ?thesis by auto
  qed
  moreover have "\<forall>x \<in> set (ts_stack s0) - G. set (adj x) \<subseteq> dom (ts_indices s)"
    using act fin(3) facts(4) unfolding active_calls_def by blast
  moreover have "\<forall>x \<in> G. \<forall>y \<in> set (ts_stack s0). idx s x \<le> idx s y \<longrightarrow> reach adj x y"
    using act facts(4) unfolding active_calls_def by blast
  ultimately have "active_calls adj G ?t" using fin(4) by (simp add: active_calls_def)
  with shape' closed' have "tarjan_inv adj V G ?t" by (simp add: tarjan_inv_def)
  moreover have "frame {} s0 ?t" using loop_frame [OF assms(1)] by (simp add: frame_def)
  ultimately show ?thesis
    unfolding t connected_def using facts(1) assms(2) by (intro conjI exI [of _ "[]"] disjI1) auto
qed

lemma close_connected:
  assumes "loop_inv adj V G v s0 (set (adj v)) s"
  shows "connected adj V G v s0 (close_node v s)"
proof (cases "low_of s v = ts_index s0")
  case False
  then have "close_node v s = s" using loop_facts(1) [OF assms] by (auto simp: close_node_def)
  with close_keeps [OF assms False] show ?thesis by simp
qed (rule close_pops [OF assms])

subsection \<open>The search\<close>

definition finite_graph_ok :: "(string \<Rightarrow> string list) \<Rightarrow> string set \<Rightarrow> bool" where
  "finite_graph_ok adj V \<longleftrightarrow> finite V \<and> (\<forall>v \<in> V. set (adj v) \<subseteq> V)"

lemma unvisited_less:
  assumes "finite V" and "v \<in> V" "v \<notin> dom (ts_indices s)" and "dom (ts_indices s) \<subseteq> dom (ts_indices t)" "v \<in> dom (ts_indices t)"
  shows "card (V - dom (ts_indices t)) < card (V - dom (ts_indices s))"
  using assms by (intro psubset_card_mono) auto

lemma unvisited_mono:
  "finite V \<Longrightarrow> dom (ts_indices s) \<subseteq> dom (ts_indices t) \<Longrightarrow> card (V - dom (ts_indices t)) \<le> card (V - dom (ts_indices s))"
  by (intro card_mono) auto

lemma search_correct:
  "finite_graph_ok adj V \<Longrightarrow> card (V - dom (ts_indices s)) \<le> fuel \<Longrightarrow> tarjan_inv adj V G s \<Longrightarrow> v \<notin> dom (ts_indices s) \<Longrightarrow> v \<in> V \<Longrightarrow>
     \<forall>x \<in> G. reach adj x v \<Longrightarrow> connected adj V G v s (strongConnect fuel adj v s)"
  "finite_graph_ok adj V \<Longrightarrow> card (V - dom (ts_indices s)) \<le> fuel \<Longrightarrow> loop_inv adj V G v s0 W s \<Longrightarrow> v \<in> V \<Longrightarrow> set ws \<subseteq> set (adj v) \<Longrightarrow>
     loop_inv adj V G v s0 (W \<union> set ws) (visit_neighbors fuel adj v ws s)"
proof (induction fuel adj v s and fuel adj v ws s arbitrary: G and G s0 W rule: strongConnect_visit_neighbors.induct)
  case (1 adj v s)
  then have "V - dom (ts_indices s) = {}" by (simp add: finite_graph_ok_def)
  with "1.prems"(4,5) show ?case by blast
next
  case (2 fuel adj v s)
  have "card (V - dom (ts_indices (open_node v s))) < card (V - dom (ts_indices s))"
    using "2.prems"(1,4,5) by (intro unvisited_less [of V v]) (auto simp: finite_graph_ok_def)
  with "2.prems"(2) have "card (V - dom (ts_indices (open_node v s))) \<le> fuel" by simp
  from "2.IH" [OF "2.prems"(1) this open_loop_inv [OF "2.prems"(3-6)] "2.prems"(5) subset_refl]
  show ?case using close_connected by simp
next
  case (3 fuel adj v s)
  then show ?case by simp
next
  case (4 fuel adj v w ws s)
  have w: "w \<in> set (adj v)" "w \<in> V" and ws: "set ws \<subseteq> set (adj v)" using "4.prems"(1,4,5) by (auto simp: finite_graph_ok_def)
  show ?case
  proof (cases "ts_indices s w")
    case None
    let ?t = "strongConnect fuel adj w s"
    have inv: "tarjan_inv adj V (insert v G) s" using "4.prems"(3) by (simp add: loop_inv_def)
    have reach: "\<forall>x \<in> insert v G. reach adj x w"
      using loop_reach [OF "4.prems"(3)] reach_step [where adj = adj, OF w(1)] by (blast intro: rtrancl_trans)
    have t: "connected adj V (insert v G) w s ?t"
      using None by (intro "4.IH"(1) [OF None "4.prems"(1,2) inv _ w(2) reach]) auto
    have "frame {} s ?t" using t by (simp add: connected_def)
    from frame_dom [OF this] have "dom (ts_indices s) \<subseteq> dom (ts_indices ?t)" .
    then have "card (V - dom (ts_indices (lower v (low_of ?t w) ?t))) \<le> fuel"
      using unvisited_mono [of V s ?t] "4.prems"(1,2) by (simp add: finite_graph_ok_def)
    from "4.IH"(2) [OF None refl "4.prems"(1) this loop_connected [OF "4.prems"(3) w(1) None t] "4.prems"(4) ws]
    show ?thesis by (simp add: None Let_def)
  next
    case (Some i)
    from "4.IH"(3) [OF Some "4.prems"(1) _ loop_visited [OF "4.prems"(3) w(1) Some] "4.prems"(4) ws] "4.prems"(2)
    show ?thesis by (simp add: Some)
  qed
qed

lemma connect_all:
  assumes "finite_graph_ok adj V" and "card V \<le> fuel"
  shows "tarjan_inv adj V {} s \<Longrightarrow> set vs \<subseteq> V \<Longrightarrow>
    tarjan_inv adj V {} (foldl (connect_unvisited fuel adj) s vs) \<and>
    set vs \<union> dom (ts_indices s) \<subseteq> dom (ts_indices (foldl (connect_unvisited fuel adj) s vs))"
proof (induction vs arbitrary: s)
  case (Cons v vs)
  let ?t = "connect_unvisited fuel adj s v"
  have "tarjan_inv adj V {} ?t \<and> insert v (dom (ts_indices s)) \<subseteq> dom (ts_indices ?t)"
  proof (cases "ts_indices s v")
    case None
    have "card (V - dom (ts_indices s)) \<le> fuel"
      using assms card_mono [of V "V - dom (ts_indices s)"] by (simp add: finite_graph_ok_def)
    then have c: "connected adj V {} v s ?t"
      using search_correct(1) [OF assms(1) _ Cons.prems(1), of fuel v] Cons.prems(2) None by (auto simp: connect_unvisited_def)
    then have "frame {} s ?t" by (simp add: connected_def)
    from frame_dom [OF this] c show ?thesis by (simp add: connected_def)
  qed (use Cons.prems(1) in \<open>auto simp: connect_unvisited_def\<close>)
  with Cons.IH [of ?t] Cons.prems(2) show ?case unfolding foldl_Cons list.set(2) by blast
qed simp

lemma empty_tarjan_inv: "tarjan_inv adj V {} empty_tarjan"
  by (simp add: tarjan_inv_def tarjan_shape_def closed_sccs_def active_calls_def empty_tarjan_def closed_nodes_def)

subsection \<open>Components of an edge list\<close>

lemma arcs_adjacency [simp]: "arcs (adjacency es) = set es"
  by (force simp: arcs_def adjacency_def)

lemma set_edge_nodes: "set (edge_nodes es) = fst ` set es \<union> snd ` set es"
  by (force simp: edge_nodes_def)

lemma edge_graph_ok: "finite_graph_ok (adjacency es) (set (edge_nodes es))"
  by (auto simp: finite_graph_ok_def adjacency_def set_edge_nodes)

lemma components_of_correct:
  "distinct (concat (components_of es))" "set (concat (components_of es)) = set (edge_nodes es)"
  "c \<in> set (components_of es) \<Longrightarrow> c \<noteq> [] \<and> (\<forall>x \<in> set c. set c = scc_of (adjacency es) x)"
proof -
  let ?V = "set (edge_nodes es)" and ?adj = "adjacency es"
  define t where "t = foldl (connect_unvisited (length (edge_nodes es)) ?adj) empty_tarjan (edge_nodes es)"
  have "card ?V \<le> length (edge_nodes es)" by (rule card_length)
  from connect_all [OF edge_graph_ok this empty_tarjan_inv] have t: "tarjan_inv ?adj ?V {} t" "?V \<subseteq> dom (ts_indices t)"
    by (auto simp: t_def)
  then have "ts_stack t = []" by (cases "ts_stack t") (auto simp: tarjan_inv_def active_calls_def)
  with t have cl: "closed_nodes t = ?V" by (auto simp: tarjan_inv_def tarjan_shape_def)
  have eq: "components_of es = ts_components t" by (simp add: components_of_def t_def Let_def)
  from t(1) cl show "distinct (concat (components_of es))" "set (concat (components_of es)) = ?V"
    unfolding eq by (simp_all add: tarjan_inv_def tarjan_shape_def closed_nodes_def)
  show "c \<in> set (components_of es) \<Longrightarrow> c \<noteq> [] \<and> (\<forall>x \<in> set c. set c = scc_of (adjacency es) x)"
    using t(1) unfolding eq by (simp add: tarjan_inv_def closed_sccs_def)
qed

lemma component_members:
  assumes "c \<in> set (components_of es)" and "x \<in> set c"
  shows "y \<in> set c \<longleftrightarrow> (x, y) \<in> (set es)\<^sup>* \<and> (y, x) \<in> (set es)\<^sup>*"
  using components_of_correct(3) [OF assms(1)] assms(2) by (auto simp: scc_of_def)

lemma node_component: "(x, y) \<in> set es \<Longrightarrow> \<exists>c \<in> set (components_of es). x \<in> set c"
  using components_of_correct(2) [of es] by (force simp: set_edge_nodes)

lemma cyclic_component_iff:
  assumes c: "c \<in> set (components_of es)" and x: "x \<in> set c"
  shows "isCyclicComponent c (self_loops es) \<longleftrightarrow> (x, x) \<in> (set es)\<^sup>+"
proof (cases "length c > 1")
  case True
  have "distinct c" using components_of_correct(1) [of es] c by (auto simp: distinct_concat_iff)
  then have "card (set c) > 1" using True by (simp add: distinct_card)
  then have "\<not> set c \<subseteq> {x}" using card_mono [of "{x}" "set c"] by auto
  then obtain y where "y \<in> set c" "y \<noteq> x" by blast
  with component_members [OF c x, of y] have "(x, y) \<in> (set es)\<^sup>+" "(y, x) \<in> (set es)\<^sup>+" by (auto simp: rtrancl_eq_or_trancl)
  then have "(x, x) \<in> (set es)\<^sup>+" by (rule trancl_trans)
  with True show ?thesis by (simp add: isCyclicComponent_def)
next
  case False
  with x have cx: "c = [x]" by (cases c) auto
  have "(x, x) \<in> (set es)\<^sup>+ \<Longrightarrow> (x, x) \<in> set es"
  proof -
    assume "(x, x) \<in> (set es)\<^sup>+"
    then obtain y where y: "(x, y) \<in> set es" "(y, x) \<in> (set es)\<^sup>*" by (meson tranclD)
    then have "y \<in> set c" using component_members [OF c x, of y] by blast
    with cx y(1) show ?thesis by simp
  qed
  then show ?thesis by (force simp: cx isCyclicComponent_def self_loops_def)
qed

lemma hasDirectedCycle_iff: "hasDirectedCycle edges \<longleftrightarrow> (\<exists>x. (x, x) \<in> (set (readable_edges edges))\<^sup>+)"
proof
  assume "hasDirectedCycle edges"
  then obtain c where c: "c \<in> set (components_of (readable_edges edges))" "isCyclicComponent c (self_loops (readable_edges edges))"
    by (auto simp: hasDirectedCycle_def stronglyConnectedComponents_def Let_def list_ex_iff)
  moreover obtain x where "x \<in> set c" using components_of_correct(3) [OF c(1)] by (cases c) auto
  ultimately show "\<exists>x. (x, x) \<in> (set (readable_edges edges))\<^sup>+" using cyclic_component_iff by blast
next
  assume "\<exists>x. (x, x) \<in> (set (readable_edges edges))\<^sup>+"
  then obtain x where x: "(x, x) \<in> (set (readable_edges edges))\<^sup>+" by blast
  then obtain y where "(x, y) \<in> set (readable_edges edges)" by (meson tranclD)
  from node_component [OF this] obtain c where "c \<in> set (components_of (readable_edges edges))" "x \<in> set c" by blast
  with x cyclic_component_iff show "hasDirectedCycle edges"
    by (auto simp: hasDirectedCycle_def stronglyConnectedComponents_def Let_def list_ex_iff)
qed

lemma components_exact:
  "set ` set (components_of es) = {{y. (x, y) \<in> (set es)\<^sup>* \<and> (y, x) \<in> (set es)\<^sup>*} |x. x \<in> Field (set es)}"
proof -
  have field: "Field (set es) = set (edge_nodes es)" by (auto simp: Field_def set_edge_nodes Domain_fst Range_snd)
  have one: "set c = {y. (x, y) \<in> (set es)\<^sup>* \<and> (y, x) \<in> (set es)\<^sup>*}" if "c \<in> set (components_of es)" "x \<in> set c" for c x
    using component_members [OF that] by blast
  have nodes: "x \<in> set (edge_nodes es) \<longleftrightarrow> (\<exists>c \<in> set (components_of es). x \<in> set c)" for x
    using components_of_correct(2) [of es] by auto
  show ?thesis
  proof (intro set_eqI iffI)
    fix C assume "C \<in> set ` set (components_of es)"
    then obtain c where c: "C = set c" "c \<in> set (components_of es)" by blast
    with components_of_correct(3) [OF c(2)] obtain x where x: "x \<in> set c" by (cases c) auto
    then have "x \<in> Field (set es)" using c(2) unfolding field nodes by blast
    with one [OF c(2) x] c(1) show "C \<in> {{y. (x, y) \<in> (set es)\<^sup>* \<and> (y, x) \<in> (set es)\<^sup>*} |x. x \<in> Field (set es)}" by blast
  next
    fix C assume "C \<in> {{y. (x, y) \<in> (set es)\<^sup>* \<and> (y, x) \<in> (set es)\<^sup>*} |x. x \<in> Field (set es)}"
    then obtain x where x: "x \<in> Field (set es)" "C = {y. (x, y) \<in> (set es)\<^sup>* \<and> (y, x) \<in> (set es)\<^sup>*}" by blast
    from x(1) obtain c where "c \<in> set (components_of es)" "x \<in> set c" unfolding field nodes by blast
    with one [OF this] x(2) show "C \<in> set ` set (components_of es)" by blast
  qed
qed

end
