(* ===== verification/CompileClosure.thy ===== *)
theory CompileClosure
  imports CompileGuarantees CyclesFacts
begin

text \<open>
  The two graph-theoretic rules a compiled plan is held to: every directed cycle lies inside the declared loop
  groups, and every join can be satisfied by nodes the run dispatches before it. The second is stated against
  the least relation closed under the arm rule of the run.
\<close>

subsection \<open>Cycles\<close>

definition edge_relation :: "compiled_plan \<Rightarrow> (string \<times> string) set" where
  "edge_relation plan = (\<lambda>e. (ce_from e, ce_to e)) ` set (cp_edges plan)"

lemma read_edge_enc [simp]: "ce_from e \<noteq> [] \<Longrightarrow> ce_to e \<noteq> [] \<Longrightarrow> ce_outcome e \<noteq> [] \<Longrightarrow> read_edge (enc_edge e) = Some e"
  by (simp add: read_edge_def enc_edge_def)

lemma read_edges_enc:
  "\<forall>e \<in> set es. ce_from e \<noteq> [] \<and> ce_to e \<noteq> [] \<and> ce_outcome e \<noteq> [] \<Longrightarrow> List.map_filter read_edge (map enc_edge es) = es"
  by (induction es) (simp_all add: map_filter_simps)

lemma readable_edges_enc:
  "\<forall>e \<in> set es. ce_from e \<noteq> [] \<and> ce_to e \<noteq> [] \<Longrightarrow> readable_edges (map enc_edge es) = map (\<lambda>e. (ce_from e, ce_to e)) es"
  by (induction es) (simp_all add: readable_edges_def map_filter_simps readEndpoints_def enc_edge_def)

lemma scan_members_subset: "set (snd (scan_members ids (map JStr ms))) \<subseteq> set ms"
  by (induction ms) (auto simp: Let_def case_prod_unfold)

lemma scan_group_members: "set (snd (scan_group known edges (enc_group g))) \<subseteq> set (clg_nodes g)"
  using scan_members_subset [of "map fst known" "clg_nodes g"]
  by (auto simp: scan_group_def enc_group_def Let_def case_prod_unfold split: option.splits)

lemma scan_nodes_ids:
  "list_all (\<lambda>n. cn_id n \<noteq> []) ns \<Longrightarrow> set (map fst (fst (snd (scan_nodes known (map enc_node ns))))) = set (map fst known) \<union> set (map cn_id ns)"
proof (induction ns arbitrary: known)
  case (Cons n ns)
  have "js_get (enc_node n) ''id'' = JStr (cn_id n)" by (simp add: enc_node_def)
  moreover from Cons.prems have "cn_id n \<noteq> []" "list_all (\<lambda>n. cn_id n \<noteq> []) ns" by simp_all
  ultimately show ?case using Cons.IH by (auto simp: Let_def case_prod_unfold)
qed simp

lemma cycle_issues_none:
  assumes "cycle_issues known edges members = []"
    and "\<forall>e \<in> set edges. ce_from e \<noteq> [] \<and> ce_to e \<noteq> [] \<and> ce_from e \<in> set (map fst known) \<and> ce_to e \<in> set (map fst known)"
    and "(x, x) \<in> ((\<lambda>e. (ce_from e, ce_to e)) ` set edges)\<^sup>+"
  shows "x \<in> set members"
proof -
  let ?es = "map (\<lambda>e. (ce_from e, ce_to e)) edges"
  have all: "filter (\<lambda>e. ce_from e \<in> set (map fst known) \<and> ce_to e \<in> set (map fst known)) edges = edges"
    using assms(2) by (simp add: filter_id_conv)
  have re: "readable_edges (map enc_edge edges) = ?es" by (rule readable_edges_enc) (use assms(2) in blast)
  have rel: "(\<lambda>e. (ce_from e, ce_to e)) ` set edges = set ?es" by simp
  have none: "\<forall>c \<in> set (components_of ?es). isCyclicComponent c (self_loops ?es) \<longrightarrow> list_all (\<lambda>n. n \<in> set members) c"
    using assms(1) unfolding cycle_issues_def Let_def all stronglyConnectedComponents_def re case_prod_conv
    by (auto simp: filter_empty_conv)
  have cyc: "(x, x) \<in> (set ?es)\<^sup>+" using assms(3) unfolding rel .
  then obtain y where "(x, y) \<in> set ?es" by (meson tranclD)
  from node_component [OF this] obtain c where c: "c \<in> set (components_of ?es)" "x \<in> set c" by blast
  from cyclic_component_iff [OF c] cyc none c show ?thesis by (auto simp: list_all_iff)
qed

lemma inspected_cycles:
  assumes wf: "wf_plan plan" and ok: "fst (inspect_body sha num plan) = []" and cyc: "(x, x) \<in> (edge_relation plan)\<^sup>+"
  shows "\<exists>g \<in> set (cp_loopGroups plan). x \<in> set (clg_nodes g)"
proof -
  let ?scan = "scan_nodes [] (map enc_node (cp_nodes plan))"
  let ?known = "fst (snd ?scan)"
  have edge: "ce_from e \<noteq> [] \<and> ce_to e \<noteq> [] \<and> ce_outcome e \<noteq> [] \<and> ce_from e \<in> set (node_ids plan) \<and> ce_to e \<in> set (node_ids plan)"
    if "e \<in> set (cp_edges plan)" for e
  proof -
    note e = wf_plan_edge [OF wf that]
    from e(1,2) have "ce_from e \<noteq> []" "ce_to e \<noteq> []" using wf_plan_node_id [OF wf] by (metis image_iff list.set_map)+
    with e show ?thesis by blast
  qed
  have ids: "set (map fst ?known) = set (node_ids plan)"
    using scan_nodes_ids [of "cp_nodes plan" "[]"] wf_plan_node_id [OF wf] by (simp add: list_all_iff)
  have re: "List.map_filter read_edge (map enc_edge (cp_edges plan)) = cp_edges plan"
    by (rule read_edges_enc) (use edge in blast)
  let ?members = "js_set (concat (map snd (map (scan_group ?known (cp_edges plan)) (map enc_group (cp_loopGroups plan)))))"
  have "cycle_issues ?known (cp_edges plan) ?members = []"
    using ok unfolding inspect_body_def inspectCompiledTopology_def re Let_def case_prod_unfold by simp
  moreover have "\<forall>e \<in> set (cp_edges plan). ce_from e \<noteq> [] \<and> ce_to e \<noteq> [] \<and> ce_from e \<in> set (map fst ?known) \<and> ce_to e \<in> set (map fst ?known)"
    unfolding ids using edge by blast
  ultimately have "x \<in> set ?members" using cycle_issues_none cyc unfolding edge_relation_def by blast
  then obtain g where "g \<in> set (cp_loopGroups plan)" "x \<in> set (snd (scan_group ?known (cp_edges plan) (enc_group g)))" by auto
  with scan_group_members show ?thesis by blast
qed

subsection \<open>The nodes dispatched before a node\<close>

inductive dispatched_before :: "compiled_plan \<Rightarrow> string \<Rightarrow> string \<Rightarrow> bool" for plan :: compiled_plan and target :: string where
  entry: "n \<in> set (entryNodesOf plan) \<Longrightarrow> cn_id n \<noteq> target \<Longrightarrow> dispatched_before plan target (cn_id n)"
| armed: "n \<in> set (cp_nodes plan) \<Longrightarrow> cn_id n \<noteq> target \<Longrightarrow> e \<in> set (cp_edges plan) \<Longrightarrow> ce_to e = cn_id n \<Longrightarrow> ce_from e \<noteq> target \<Longrightarrow>
     dispatched_before plan target (ce_from e) \<Longrightarrow> \<forall>x \<in> set arrived. dispatched_before plan target x \<Longrightarrow>
     joinSatisfiedBy n arrived (feederSourcesOf plan (cn_id n)) \<Longrightarrow> dispatched_before plan target (cn_id n)"

definition arms :: "compiled_plan \<Rightarrow> string \<Rightarrow> string list \<Rightarrow> compiled_node \<Rightarrow> bool" where
  "arms plan target runnable n \<longleftrightarrow> cn_id n \<noteq> target \<and>
     (\<exists>e \<in> set (cp_edges plan). ce_to e = cn_id n \<and> ce_from e \<noteq> target \<and> ce_from e \<in> set runnable) \<and>
     joinSatisfiedBy n runnable (feederSourcesOf plan (cn_id n))"

definition dispatch_step :: "compiled_plan \<Rightarrow> string \<Rightarrow> string list \<times> bool \<Rightarrow> compiled_node \<Rightarrow> string list \<times> bool" where
  "dispatch_step plan target acc n =
     (if cn_id n \<in> set (fst acc) \<or> \<not> arms plan target (fst acc) n then acc else (fst acc @ [cn_id n], True))"

lemma dispatch_pass_step: "dispatch_pass plan target acc = foldl (dispatch_step plan target) acc (cp_nodes plan)"
proof -
  have "(\<lambda>(runnable, grew) candidate.
       if cn_id candidate = target \<or> cn_id candidate \<in> set runnable then (runnable, grew)
       else if \<not> list_ex (\<lambda>e. ce_to e = cn_id candidate \<and> ce_from e \<noteq> target \<and> ce_from e \<in> set runnable) (cp_edges plan) then (runnable, grew)
       else if \<not> joinSatisfiedBy candidate runnable (feederSourcesOf plan (cn_id candidate)) then (runnable, grew)
       else (runnable @ [cn_id candidate], True)) = dispatch_step plan target"
    by (intro ext) (auto simp: dispatch_step_def arms_def list_ex_iff)
  then show ?thesis by (simp only: dispatch_pass_def)
qed

lemma dispatch_step_sound:
  assumes "n \<in> set (cp_nodes plan)" and "\<forall>x \<in> set (fst acc). dispatched_before plan target x"
  shows "\<forall>x \<in> set (fst (dispatch_step plan target acc n)). dispatched_before plan target x"
  using assms dispatched_before.armed [OF assms(1), of target _ "fst acc"]
  by (auto simp: dispatch_step_def arms_def)

lemma dispatch_fold_sound:
  assumes "set ns \<subseteq> set (cp_nodes plan)" and "\<forall>x \<in> set (fst acc). dispatched_before plan target x"
  shows "\<forall>x \<in> set (fst (foldl (dispatch_step plan target) acc ns)). dispatched_before plan target x"
  using assms
proof (induction ns arbitrary: acc)
  case (Cons n ns)
  from Cons.prems(1) have n: "n \<in> set (cp_nodes plan)" "set ns \<subseteq> set (cp_nodes plan)" by simp_all
  from Cons.IH [OF n(2) dispatch_step_sound [OF n(1) Cons.prems(2)]] show ?case by simp
qed simp

lemma dispatch_fold_mono: "set (fst acc) \<subseteq> set (fst (foldl (dispatch_step plan target) acc ns))"
  by (induction ns rule: rev_induct) (auto simp: dispatch_step_def)

lemma dispatch_fold_distinct:
  assumes "set ns \<subseteq> set (cp_nodes plan)" and "distinct (fst acc)" "set (fst acc) \<subseteq> set (node_ids plan)"
  shows "distinct (fst (foldl (dispatch_step plan target) acc ns)) \<and> set (fst (foldl (dispatch_step plan target) acc ns)) \<subseteq> set (node_ids plan)"
  using assms by (induction ns rule: rev_induct) (auto simp: dispatch_step_def)

lemma dispatch_fold_grew:
  "(if snd (foldl (dispatch_step plan target) acc ns) \<and> \<not> snd acc then length (fst acc) < length (fst (foldl (dispatch_step plan target) acc ns))
    else length (fst acc) \<le> length (fst (foldl (dispatch_step plan target) acc ns)))"
  by (induction ns rule: rev_induct) (auto simp: dispatch_step_def split: if_splits)

lemma dispatch_step_still:
  "\<not> snd (dispatch_step plan target acc n) \<Longrightarrow>
     \<not> snd acc \<and> dispatch_step plan target acc n = acc \<and> (arms plan target (fst acc) n \<longrightarrow> cn_id n \<in> set (fst acc))"
  by (auto simp: dispatch_step_def split: if_splits)

lemma dispatch_fold_still:
  "\<not> snd (foldl (dispatch_step plan target) acc ns) \<Longrightarrow> foldl (dispatch_step plan target) acc ns = acc \<and>
     (\<forall>n \<in> set ns. arms plan target (fst acc) n \<longrightarrow> cn_id n \<in> set (fst acc))"
proof (induction ns rule: rev_induct)
  case (snoc n ns)
  then have last: "\<not> snd (dispatch_step plan target (foldl (dispatch_step plan target) acc ns) n)" by simp
  note step = dispatch_step_still [OF last]
  from snoc.IH [OF conjunct1 [OF step]] step show ?case by simp
qed simp

text \<open>Enough rounds reach the closure.\<close>

definition closed_under_arms :: "compiled_plan \<Rightarrow> string \<Rightarrow> string list \<Rightarrow> bool" where
  "closed_under_arms plan target runnable \<longleftrightarrow> (\<forall>n \<in> set (cp_nodes plan). arms plan target runnable n \<longrightarrow> cn_id n \<in> set runnable)"

lemma dispatch_rounds_closed:
  "distinct runnable \<Longrightarrow> set runnable \<subseteq> set (node_ids plan) \<Longrightarrow> length (cp_nodes plan) < length runnable + rounds \<Longrightarrow>
     closed_under_arms plan target (dispatch_rounds rounds plan target runnable) \<and> set runnable \<subseteq> set (dispatch_rounds rounds plan target runnable)"
proof (induction rounds arbitrary: runnable)
  case 0
  have "length runnable = card (set runnable)" using 0(1) by (simp add: distinct_card)
  also have "\<dots> \<le> card (set (node_ids plan))" using 0(2) by (simp add: card_mono)
  also have "\<dots> \<le> length (cp_nodes plan)" using card_length [of "node_ids plan"] by simp
  finally show ?case using 0(3) by simp
next
  case (Suc rounds)
  let ?next = "foldl (dispatch_step plan target) (runnable, False) (cp_nodes plan)"
  have next_ok: "distinct (fst ?next)" "set (fst ?next) \<subseteq> set (node_ids plan)"
    using dispatch_fold_distinct [of "cp_nodes plan" plan "(runnable, False)" target] Suc.prems by simp_all
  show ?case
  proof (cases "snd ?next")
    case True
    then have "length runnable < length (fst ?next)" using dispatch_fold_grew [of plan target "(runnable, False)" "cp_nodes plan"] by simp
    then have "length (cp_nodes plan) < length (fst ?next) + rounds" using Suc.prems(3) by simp
    from Suc.IH [OF next_ok this] True dispatch_fold_mono [of "(runnable, False)" plan target "cp_nodes plan"]
    show ?thesis by (auto simp: dispatch_pass_step case_prod_unfold Let_def)
  next
    case False
    from dispatch_fold_still [OF this] False show ?thesis
      by (simp add: dispatch_pass_step case_prod_unfold Let_def closed_under_arms_def)
  qed
qed

lemma dispatch_rounds_sound:
  "\<forall>x \<in> set runnable. dispatched_before plan target x \<Longrightarrow>
     \<forall>x \<in> set (dispatch_rounds rounds plan target runnable). dispatched_before plan target x"
proof (induction rounds arbitrary: runnable)
  case (Suc rounds)
  have "\<forall>x \<in> set (fst (foldl (dispatch_step plan target) (runnable, False) (cp_nodes plan))). dispatched_before plan target x"
    using dispatch_fold_sound [of "cp_nodes plan" plan "(runnable, False)" target] Suc.prems by simp
  with Suc.IH [OF this] show ?case by (simp add: dispatch_pass_step case_prod_unfold Let_def)
qed simp

definition first_runnable :: "compiled_plan \<Rightarrow> string \<Rightarrow> string list" where
  "first_runnable plan target =
     foldl (\<lambda>runnable entry. if cn_id entry = target then runnable else set_add (cn_id entry) runnable) [] (entryNodesOf plan)"

lemma first_runnable_facts:
  "distinct (first_runnable plan target)"
  "set (first_runnable plan target) = {cn_id n |n. n \<in> set (entryNodesOf plan) \<and> cn_id n \<noteq> target}"
proof -
  let ?f = "\<lambda>runnable entry. if cn_id entry = target then runnable else set_add (cn_id entry) runnable"
  have "distinct (foldl ?f acc es)" if "distinct acc" for acc es
    using that by (induction es arbitrary: acc) simp_all
  from this [of "[]" "entryNodesOf plan"] show "distinct (first_runnable plan target)" by (simp add: first_runnable_def)
  have "set (foldl ?f acc es) = set acc \<union> {cn_id n |n. n \<in> set es \<and> cn_id n \<noteq> target}" for acc es
    by (induction es arbitrary: acc) auto
  from this [of "[]" "entryNodesOf plan"] show "set (first_runnable plan target) = {cn_id n |n. n \<in> set (entryNodesOf plan) \<and> cn_id n \<noteq> target}"
    by (simp add: first_runnable_def)
qed

lemma dispatchableBefore_iff:
  "x \<in> set (dispatchableBefore plan (entryNodesOf plan) target) \<longleftrightarrow> dispatched_before plan target x"
proof -
  define D where "D = dispatch_rounds (length (cp_nodes plan) + 1) plan target (first_runnable plan target)"
  have sub: "set (first_runnable plan target) \<subseteq> set (node_ids plan)"
    by (auto simp: first_runnable_facts entryNodesOf_def Let_def)
  have closed: "closed_under_arms plan target D" "set (first_runnable plan target) \<subseteq> set D"
    using dispatch_rounds_closed [OF first_runnable_facts(1) sub, of "length (cp_nodes plan) + 1" target] by (simp_all only: D_def)
  have "dispatched_before plan target x \<Longrightarrow> x \<in> set D" for x
  proof (induction rule: dispatched_before.induct)
    case (entry n)
    then show ?case using closed(2) by (auto simp: first_runnable_facts)
  next
    case (armed n e arrived)
    then have "joinSatisfiedBy n D (feederSourcesOf plan (cn_id n))"
      using joinSatisfiedBy_mono [of n arrived "feederSourcesOf plan (cn_id n)" D] by blast
    with armed have "arms plan target D n" by (auto simp: arms_def)
    with closed(1) armed.hyps(1) show ?case by (simp add: closed_under_arms_def)
  qed
  moreover have "\<forall>x \<in> set D. dispatched_before plan target x"
    unfolding D_def by (rule dispatch_rounds_sound) (auto simp: first_runnable_facts intro: dispatched_before.entry)
  ultimately show ?thesis unfolding dispatchableBefore_def first_runnable_def [symmetric] D_def [symmetric] by blast
qed

lemma dispatched_before_node: "dispatched_before plan target x \<Longrightarrow> x \<in> set (node_ids plan) \<and> x \<noteq> target"
  by (induction rule: dispatched_before.induct) (auto simp: entryNodesOf_def Let_def)

subsection \<open>Joins that can be satisfied\<close>

text \<open>
  A node is reported for every feeder outside the closure. A quorum larger than the number of feeders is not
  reported when every feeder is inside it, although no set of arrivals satisfies it.
\<close>

lemma oversized_quorum:
  assumes "readQuorum (resolveJoinStrategy (cn_join n)) = Some q" and "int (length feeders) < q" and "feeders \<noteq> []"
  shows "\<not> joinSatisfiedBy n arrived feeders"
proof -
  have "int (length (filter (\<lambda>f. f \<in> set arrived) feeders)) < q"
    using assms(2) length_filter_le [of "\<lambda>f. f \<in> set arrived" feeders] by linarith
  with assms show ?thesis
    by (cases "resolveJoinStrategy (cn_join n)") (auto simp: joinSatisfiedBy_def Let_def)
qed

lemma unsatisfiableJoinsOf_iff:
  "unsatisfiableJoinsOf plan = [] \<longleftrightarrow>
     (\<forall>n \<in> set (cp_nodes plan). cn_id n \<notin> cn_id ` set (entryNodesOf plan) \<longrightarrow>
        (\<exists>arrived. (\<forall>x \<in> set arrived. dispatched_before plan (cn_id n) x) \<and> joinSatisfiedBy n arrived (feederSourcesOf plan (cn_id n))) \<or>
        (\<forall>f \<in> set (feederSourcesOf plan (cn_id n)). dispatched_before plan (cn_id n) f))"
proof -
  have one: "(if cn_id n \<in> cn_id ` set (entryNodesOf plan) then []
       else let feeders = feederSourcesOf plan (cn_id n) in
             if feeders = [] then []
             else let runnable = dispatchableBefore plan (entryNodesOf plan) (cn_id n) in
                  if joinSatisfiedBy n runnable feeders then []
                  else map (\<lambda>_. (UnsatisfiableJoin, nodePath (cn_id n) @ ''.inputs'')) (filter (\<lambda>f. f \<notin> set runnable) feeders)) = [] \<longleftrightarrow>
      (cn_id n \<notin> cn_id ` set (entryNodesOf plan) \<longrightarrow>
        (\<exists>arrived. (\<forall>x \<in> set arrived. dispatched_before plan (cn_id n) x) \<and> joinSatisfiedBy n arrived (feederSourcesOf plan (cn_id n))) \<or>
        (\<forall>f \<in> set (feederSourcesOf plan (cn_id n)). dispatched_before plan (cn_id n) f))" for n
  proof -
    let ?R = "dispatchableBefore plan (entryNodesOf plan) (cn_id n)" and ?F = "feederSourcesOf plan (cn_id n)"
    have "(\<exists>arrived. (\<forall>x \<in> set arrived. dispatched_before plan (cn_id n) x) \<and> joinSatisfiedBy n arrived ?F) \<longleftrightarrow> joinSatisfiedBy n ?R ?F"
    proof
      assume "\<exists>arrived. (\<forall>x \<in> set arrived. dispatched_before plan (cn_id n) x) \<and> joinSatisfiedBy n arrived ?F"
      then obtain arrived where "\<forall>x \<in> set arrived. x \<in> set ?R" "joinSatisfiedBy n arrived ?F" unfolding dispatchableBefore_iff by blast
      then show "joinSatisfiedBy n ?R ?F" using joinSatisfiedBy_mono [of n arrived ?F ?R] by blast
    next
      assume "joinSatisfiedBy n ?R ?F"
      moreover have "\<forall>x \<in> set ?R. dispatched_before plan (cn_id n) x" by (simp add: dispatchableBefore_iff)
      ultimately show "\<exists>arrived. (\<forall>x \<in> set arrived. dispatched_before plan (cn_id n) x) \<and> joinSatisfiedBy n arrived ?F" by blast
    qed
    then show ?thesis by (simp add: Let_def filter_empty_conv dispatchableBefore_iff)
  qed
  show ?thesis unfolding unsatisfiableJoinsOf_def Let_def [of "entryNodesOf plan"]
    by (simp only: concat_eq_Nil_conv set_map ball_simps one)
qed

end
