(* ===== verification/VerifyFacts.thy ===== *)
theory VerifyFacts
  imports VerifyPlan CompileClosure CanonicalFacts
begin

text \<open>
  The writer satisfies its own reader: the durable record of an executable plan passes the load gate, for every
  state that declares the plan's nodes. And a record that passes is what its revision names: two verified records
  with one revision have equal bodies up to the order of keys, unless the digest function collides.
\<close>

subsection \<open>Fields of the encoded parts\<close>

lemma map_of_undef_field [simp]:
  "map_of (undef_field k v @ ps) j = (if j = k \<and> v \<noteq> JUndef then Some v else map_of ps j)"
  "map_of (undef_field k v) j = (if j = k \<and> v \<noteq> JUndef then Some v else None)"
  by (simp_all add: undef_field_def)

lemma map_of_opt_field_only [simp]: "map_of (opt_field k enc x) j = (if j = k then map_option enc x else None)"
  by (cases x) simp_all

definition or_undef :: "('a \<Rightarrow> jsval) \<Rightarrow> 'a option \<Rightarrow> jsval" where
  "or_undef enc x = (case x of None \<Rightarrow> JUndef | Some v \<Rightarrow> enc v)"

lemma or_undef_simps [simp]: "or_undef enc None = JUndef" "or_undef enc (Some v) = enc v"
  by (simp_all add: or_undef_def)

lemma enc_node_fields [simp]:
  "isRecord (enc_node n)"
  "js_get (enc_node n) ''id'' = JStr (cn_id n)" "js_get (enc_node n) ''agent'' = JStr (cn_agent n)" "js_get (enc_node n) ''prompt'' = JStr (cn_prompt n)"
  "js_get (enc_node n) ''outcomes'' = JArr (map enc_outcome (cn_outcomes n))"
  "js_get (enc_node n) ''completion'' = or_undef enc_completion (cn_completion n)"
  "js_get (enc_node n) ''contractRef'' = or_undef enc_ref (cn_contractRef n)"
  "js_get (enc_node n) ''join'' = or_undef enc_join (cn_join n)"
  "js_get (enc_node n) ''inputs'' = or_undef (\<lambda>xs. JArr (map enc_input xs)) (cn_inputs n)"
  "js_get (enc_node n) ''tools'' = or_undef (\<lambda>xs. JArr (map JStr xs)) (cn_tools n)"
  "js_get (enc_node n) ''toolPresentation'' = cn_toolPresentation n"
  by (auto simp: enc_node_def or_undef_def split: option.split)

lemma enc_outcome_fields [simp]:
  "isRecord (enc_outcome oc)" "js_get (enc_outcome oc) ''id'' = JStr (co_id oc)"
  "js_get (enc_outcome oc) ''data'' = or_undef enc_outcome_data (co_data oc)"
  "js_get (enc_outcome oc) ''acceptance'' = JArr (map enc_requirement (co_acceptance oc))"
  by (auto simp: enc_outcome_def or_undef_def split: option.split)

lemma enc_part_fields [simp]:
  "isRecord (enc_requirement r)" "js_get (enc_requirement r) ''validator'' = JStr (car_validator r)"
  "js_get (enc_requirement r) ''version'' = or_undef js_int (car_version r)"
  "isRecord (enc_outcome_data d)" "js_get (enc_outcome_data d) ''schema'' = JStr (cod_schema d)"
  "js_get (enc_outcome_data d) ''version'' = or_undef (\<lambda>q. JNum (Fin q)) (cod_version d)"
  "isRecord (enc_input i)" "js_get (enc_input i) ''from'' = JStr (cir_from i)" "js_get (enc_input i) ''outcome'' = JStr (cir_outcome i)"
  "js_get (enc_input i) ''when'' = (if cir_triggered i then JStr ''triggered'' else JUndef)"
  "isRecord (enc_ref ref)" "js_get (enc_ref ref) ''id'' = JStr (cr_id ref)" "js_get (enc_ref ref) ''revision'' = JStr (cr_revision ref)"
  "js_get (enc_ref ref) ''digest'' = JStr (cr_digest ref)"
  by (auto simp: enc_requirement_def enc_outcome_data_def enc_input_def enc_ref_def or_undef_def split: option.split)

lemma enc_ref_defined [simp]: "enc_ref ref \<noteq> JUndef"
  by (simp add: enc_ref_def)

lemma record_fields [simp]:
  fixes plan :: compiled_plan
  defines "v \<equiv> createPersistedCompiledPlan plan"
  shows "isRecord v" "js_get v ''graphId'' = JStr (cp_graphId plan)" "js_get v ''declarationVersion'' = js_int 3" "js_get v ''budget'' = cp_budget plan"
    "js_get v ''nodes'' = JArr (map enc_node (cp_nodes plan))" "js_get v ''edges'' = JArr (map enc_edge (cp_edges plan))"
    "js_get v ''loopGroups'' = JArr (map enc_group (cp_loopGroups plan))" "js_get v ''contractSnapshots'' = cp_contractSnapshots plan"
    "js_get v ''contractIdentities'' = cp_contractIdentities plan" "js_get v ''completionPolicySnapshots'' = cp_completionPolicySnapshots plan"
    "js_get v ''completionPolicyIdentities'' = cp_completionPolicyIdentities plan" "js_get v ''completionAuthorizations'' = cp_completionAuthorizations plan"
    "js_get v ''terminalOutcomes'' = JArr (map enc_terminal (cp_terminalOutcomes plan))" "js_get v ''executability'' = enc_executability (cp_executability plan)"
    "js_get v ''planRevision'' = JStr (cp_planRevision plan)" "js_get v ''nodeBindings'' = JObj (nodeBindingsOf (cp_nodes plan))"
  unfolding v_def createPersistedCompiledPlan_def plan_body_fields_def
  by (cases "cp_budget plan = JUndef", simp_all add: undef_field_def)

lemma persisted_body_record: "persisted_body (createPersistedCompiledPlan plan) = JObj (plan_body_fields plan)"
  unfolding persisted_body_def BODY_KEYS_def by (simp add: plan_body_fields_def undef_field_def js_int_def)

subsection \<open>The consumer fields of a compiled node\<close>

lemma trimmed_names_nonempty: "trimmed_names names vs = Some ns \<Longrightarrow> [] \<notin> set names \<Longrightarrow> [] \<notin> set ns"
  by (induction names vs rule: trimmed_names.induct) (auto split: if_splits)

lemma readDeclaredTools_nonempty: "fst (readDeclaredTools path raw) = Some ns \<Longrightarrow> [] \<notin> set ns"
  using trimmed_names_nonempty [of "[]"]
  by (auto simp: readDeclaredTools_def split: if_splits option.splits)

lemma readJoin_quorum: "readJoin raw = Some (JoinQuorum q) \<Longrightarrow> \<exists>n. q = Some (int n) \<and> 0 < n \<and> int n \<le> max_safe"
  by (auto simp: readJoin_def split: if_splits option.splits dest: positive_safe_bound)

lemma consumer_join_enc:
  assumes "readJoin raw = Some j"
  shows "consumer_join_ok (enc_join j)"
proof (cases j)
  case (JoinQuorum q)
  with readJoin_quorum [of raw q] assms obtain n where n: "q = Some (int n)" "0 < n" "int n \<le> max_safe" by auto
  then have "positive_safe (js_int (int n)) = Some n" using positive_safe_js_nat [of n] by (simp add: js_nat_def)
  then show ?thesis by (simp add: JoinQuorum n consumer_join_ok_def)
qed (simp_all add: consumer_join_ok_def)

lemma consumer_outcome_enc: "outcome_readable oc \<Longrightarrow> consumer_outcome_ok (enc_outcome oc)"
  by (cases "co_data oc")
     (auto simp: outcome_readable_def consumer_outcome_ok_def consumer_data_ok_def consumer_requirement_ok_def version_ok_def list_all_iff
       or_undef_def js_int_def enc_outcome_data_def split: option.split)

lemma read_presentation_again:
  "\<exists>p. read_presentation (case read_presentation v of Inr (Some p) \<Rightarrow> enc_presentation p | _ \<Rightarrow> JUndef) = Inr p"
proof (cases "\<exists>p. read_presentation v = Inr (Some p)")
  case True
  then obtain p where p: "read_presentation v = Inr (Some p)" ..
  then have "normalizeWorkerToolPresentation v = Inr (Some p)" "validateWorkerToolPreload (Some p) = Inr ()"
    by (auto simp: read_presentation_def result_simps)
  then show ?thesis using normalize_enc [of v p] by (simp add: p read_presentation_def)
next
  case False
  then have "(case read_presentation v of Inr (Some p) \<Rightarrow> enc_presentation p | _ \<Rightarrow> JUndef) = JUndef"
    by (auto split: sum.split option.split)
  moreover have "read_presentation JUndef = Inr None"
    by (simp add: read_presentation_def normalizeWorkerToolPresentation_def validateWorkerToolPreload_def preload_of_def)
  ultimately show ?thesis by simp
qed

lemma completion_consumable: "c = toPlanCompletion (readCompletionPolicy raw) \<Longrightarrow> consumer_completion_ok (or_undef enc_completion c)"
  by (cases raw) (auto simp: readCompletionPolicy_def natural_claim_def consumer_completion_ok_def nonempty_string_Some)

lemma compiled_node_consumable:
  assumes n: "n = fst (compileNode sha num options graphId declared policy raw cx)" and c: "node_compiled declared n" "cn_id n \<noteq> []"
  shows "consumer_node_issue (enc_node n) = None"
proof -
  have tools: "cn_tools n = Some ts \<Longrightarrow> list_all isText (map JStr ts)" for ts
    using readDeclaredTools_nonempty [of "nodePath (id_of raw) @ ''.tools''" "js_get raw ''tools''" ts]
    unfolding n compileNode_fields(6) by (auto simp: list_all_iff)
  have presentation: "\<exists>p. read_presentation (cn_toolPresentation n) = Inr p"
    unfolding n compileNode_fields(8) by (rule read_presentation_again)
  have inputs: "cn_inputs n = Some is \<Longrightarrow> is \<noteq> [] \<and> list_all consumer_input_ok (map enc_input is)" for "is"
    using readInputs_declared(1) [of declared "id_of raw" "js_get raw ''inputs''" "is"] c(1)
    unfolding n compileNode_fields(3) node_compiled_def
    by (auto simp: list_all_iff consumer_input_ok_def input_declared_def)
  have join: "cn_join n = Some j \<Longrightarrow> consumer_join_ok (enc_join j)" for j
    unfolding n compileNode_fields(5) by (rule consumer_join_enc)
  have outcomes: "consumer_outcomes_ok (JArr (map enc_outcome (cn_outcomes n)))"
    using c(1) compileOutcomes_ok(1) unfolding node_compiled_def n compileNode_fields(2)
    by (auto simp: consumer_outcomes_ok_def list_all_iff intro: consumer_outcome_enc)
  have completion: "consumer_completion_ok (or_undef enc_completion (cn_completion n))"
    by (rule completion_consumable) (simp add: n compileNode_fields(4))
  show ?thesis
    using c(2) tools presentation inputs join outcomes completion
    by (auto simp: consumer_node_issue_def text_list_ok_def consumer_inputs_ok_def or_undef_def split: option.split sum.split)
qed

subsection \<open>The node bindings\<close>

lemma bindings_keys: "set (map fst (nodeBindingsOf ns)) = {cn_id n |n. n \<in> set ns \<and> cn_contractRef n \<noteq> None}"
proof -
  have "set (map fst (foldl (\<lambda>acc n. case cn_contractRef n of None \<Rightarrow> acc | Some ref \<Rightarrow> AList.update (cn_id n) (enc_ref ref) acc) acc ns)) =
      set (map fst acc) \<union> {cn_id n |n. n \<in> set ns \<and> cn_contractRef n \<noteq> None}" for acc
  proof (induction ns arbitrary: acc)
    case (Cons n ns)
    then show ?case by (cases "cn_contractRef n") (auto simp: dom_update)
  qed simp
  from this [of "[]"] show ?thesis by (simp add: nodeBindingsOf_def)
qed

lemma bindings_of:
  assumes "distinct (map cn_id ns)" and "n \<in> set ns"
  shows "js_get (JObj (nodeBindingsOf ns)) (cn_id n) = or_undef enc_ref (cn_contractRef n)"
proof -
  let ?f = "\<lambda>acc n. case cn_contractRef n of None \<Rightarrow> acc | Some ref \<Rightarrow> AList.update (cn_id n) (enc_ref ref) acc"
  have other: "k \<notin> cn_id ` set ms \<Longrightarrow> map_of (foldl ?f acc ms) k = map_of acc k" for k ms acc
  proof (induction ms arbitrary: acc)
    case (Cons m ms)
    then show ?case by (cases "cn_contractRef m") (auto simp: update_conv')
  qed simp
  have "map_of acc (cn_id n) = None \<Longrightarrow> map_of (foldl ?f acc ns) (cn_id n) = map_option enc_ref (cn_contractRef n)" for acc
    using assms
  proof (induction ns arbitrary: acc)
    case (Cons m ms)
    show ?case
    proof (cases "n = m")
      case True
      with Cons.prems other [of "cn_id m" ms] show ?thesis by (cases "cn_contractRef m") (auto simp: update_conv')
    next
      case False
      with Cons.prems have "n \<in> set ms" "distinct (map cn_id ms)" "cn_id m \<noteq> cn_id n" by auto
      with Cons.IH [of "?f acc m"] Cons.prems(1) show ?thesis by (cases "cn_contractRef m") (auto simp: update_conv')
    qed
  qed simp
  from this [of "[]"] show ?thesis by (cases "cn_contractRef n") (simp_all add: nodeBindingsOf_def)
qed

lemma binding_index_written:
  assumes distinct: "distinct (map cn_id ns)" and ids: "set topologyIds = set (map cn_id ns)"
    and refs: "\<And>n ref. n \<in> set ns \<Longrightarrow> cn_contractRef n = Some ref \<Longrightarrow> cr_id ref \<noteq> [] \<and> cr_revision ref \<noteq> [] \<and> cr_digest ref \<noteq> []"
  shows "binding_index_defect (map enc_node ns) topologyIds (JObj (nodeBindingsOf ns)) = None"
proof -
  have "node_binding_defect (JObj (nodeBindingsOf ns)) (enc_node n) = None" if n: "n \<in> set ns" for n
  proof (cases "cn_contractRef n")
    case None
    have "cn_id n \<notin> set (map fst (nodeBindingsOf ns))"
      using None n distinct unfolding bindings_keys by (auto simp: distinct_map dest: inj_onD)
    then show ?thesis by (simp add: node_binding_defect_def Let_def None)
  next
    case (Some ref)
    with bindings_of [OF distinct n] refs [OF n Some] show ?thesis
      by (simp add: node_binding_defect_def Let_def contractRefsEqual_def read_ref_def del: js_get.simps)
  qed
  moreover have "nodeId \<in> set topologyIds" if "nodeId \<in> set (map fst (nodeBindingsOf ns))" for nodeId
    using that unfolding bindings_keys ids by auto
  ultimately show ?thesis by (simp add: binding_index_defect_def)
qed

subsection \<open>The contract indexes\<close>

lemma map_of_map_values: "map_of (map (\<lambda>p. (fst p, f (snd p))) ps) k = map_option f (map_of ps k)"
  by (induction ps) auto

lemma snapshots_written:
  assumes "contracts_ok sha num cx" and "d \<in> set (js_keys (snapshotIndex (cx_snapshots cx)))"
  shows "snapshot_defect sha num (snapshotIndex (cx_snapshots cx)) d = None"
proof -
  let ?ps = "sort_key fst (cx_snapshots cx)"
  have idx: "snapshotIndex (cx_snapshots cx) = JObj (map (\<lambda>p. (fst p, JObj [(''body'', snd p)])) ?ps)"
    by (simp add: snapshotIndex_def case_prod_unfold)
  from assms(2) obtain b where "map_of ?ps d = Some b" unfolding idx by (force simp: comp_def map_of_eq_None_iff dest: weak_map_of_SomeI)
  moreover from map_of_SomeD [OF this] have "contractDigest sha num b = Inr d" using assms(1) by (auto simp: contracts_ok_def)
  ultimately show ?thesis
    unfolding idx by (simp add: snapshot_defect_def Let_def map_of_map_values [where f = "\<lambda>b. JObj [(''body'', b)]"])
qed

lemma identityIndex_get:
  "js_get (identityIndex identities) i = or_undef (\<lambda>rs. JObj (map (\<lambda>p. (fst p, JStr (snd p))) rs)) (map_of identities i)"
  by (cases "map_of identities i")
     (simp_all add: identityIndex_def case_prod_unfold map_of_map_values [where f = "\<lambda>rs. JObj (map (\<lambda>p. (fst p, JStr (snd p))) rs)"])

lemma identities_written:
  assumes "contracts_ok sha num cx" and "i \<in> set (js_keys (identityIndex (cx_identities cx)))"
  shows "identity_defect (js_keys (snapshotIndex (cx_snapshots cx))) (identityIndex (cx_identities cx)) i = None"
proof -
  from assms(2) have "i \<in> fst ` set (cx_identities cx)" by (force simp: identityIndex_def case_prod_unfold)
  then obtain rs where rs: "map_of (cx_identities cx) i = Some rs" by (force simp: map_of_eq_None_iff)
  from map_of_SomeD [OF this] assms(1) have ok: "\<forall>q \<in> set rs. snd q \<noteq> [] \<and> snd q \<in> fst ` set (cx_snapshots cx)"
    by (auto simp: contracts_ok_def)
  have "\<exists>d. js_get (JObj (map (\<lambda>p. (fst p, JStr (snd p))) rs)) r = JStr d \<and> d \<noteq> [] \<and> d \<in> fst ` set (cx_snapshots cx)" if "r \<in> fst ` set rs" for r
  proof -
    from that obtain d where d: "map_of rs r = Some d" by (force simp: map_of_eq_None_iff)
    note bspec [OF ok map_of_SomeD [OF d], unfolded snd_conv]
    with d show ?thesis by (simp add: map_of_map_values [where f = JStr])
  qed
  then show ?thesis
    by (force simp: identity_defect_def Let_def identityIndex_get rs snapshotIndex_def case_prod_unfold image_image simp del: js_get.simps)
qed

lemma bound_written:
  assumes "bound_ref cx ref" and "cr_id ref \<noteq> []" "cr_revision ref \<noteq> []" "cr_digest ref \<noteq> []" and "i \<in> set nodeIds"
    and "js_get bindings i = enc_ref ref"
  shows "bound_defect nodeIds (identityIndex (cx_identities cx)) bindings i = None"
proof -
  from assms(1) obtain rs where rs: "map_of (cx_identities cx) (cr_id ref) = Some rs" "map_of rs (cr_revision ref) = Some (cr_digest ref)"
    by (auto simp: bound_ref_def)
  then have "js_get (JObj (map (\<lambda>p. (fst p, JStr (snd p))) rs)) (cr_revision ref) = JStr (cr_digest ref)"
    by (simp add: map_of_map_values [where f = JStr])
  with assms(2-6) rs(1) show ?thesis by (simp add: bound_defect_def Let_def identityIndex_get del: js_get.simps)
qed

lemma contract_record_written:
  assumes ok: "contracts_ok sha num cx" and distinct: "distinct (node_ids plan)" and ids: "set (node_ids plan) \<subseteq> set nodeIds"
    and refs: "\<And>n ref. n \<in> set (cp_nodes plan) \<Longrightarrow> cn_contractRef n = Some ref \<Longrightarrow>
      bound_ref cx ref \<and> cr_id ref \<noteq> [] \<and> cr_revision ref \<noteq> [] \<and> cr_digest ref \<noteq> []"
    and indexes: "cp_contractSnapshots plan = snapshotIndex (cx_snapshots cx)" "cp_contractIdentities plan = identityIndex (cx_identities cx)"
  shows "verifyContractRecord sha num (createPersistedCompiledPlan plan) nodeIds = None"
proof -
  have "bound_defect nodeIds (identityIndex (cx_identities cx)) (JObj (nodeBindingsOf (cp_nodes plan))) i = None"
    if "i \<in> set (map fst (nodeBindingsOf (cp_nodes plan)))" for i
  proof -
    from that obtain n ref where n: "n \<in> set (cp_nodes plan)" "i = cn_id n" "cn_contractRef n = Some ref"
      unfolding bindings_keys by auto
    moreover have "js_get (JObj (nodeBindingsOf (cp_nodes plan))) (cn_id n) = enc_ref ref"
      unfolding bindings_of [OF distinct n(1)] n(3) by simp
    ultimately show ?thesis using bound_written refs [OF n(1,3)] ids by auto
  qed
  moreover have "isRecord (snapshotIndex (cx_snapshots cx))" "isRecord (identityIndex (cx_identities cx))"
    by (simp_all add: snapshotIndex_def identityIndex_def)
  ultimately show ?thesis
    using snapshots_written [OF ok] identities_written [OF ok] by (simp add: verifyContractRecord_def Let_def indexes)
qed

subsection \<open>The written plan verifies\<close>

lemma run_budget_again:
  assumes "readRunBudget v = Inr b"
  shows "\<exists>c. readRunBudget (case b of None \<Rightarrow> JUndef | Some s \<Rightarrow> enc_run_budget s) = Inr c"
proof (cases b)
  case (Some s)
  then have "\<forall>k. rb_max_executions s = Some k \<longrightarrow> int k \<le> max_safe"
    using assms nonneg_safe_bound by (auto simp: readRunBudget_def Let_def split: if_splits option.splits)
  then show ?thesis
    by (cases "rb_max_executions s") (auto simp: Some readRunBudget_def enc_run_budget_def only_keys_def Let_def)
qed (simp add: readRunBudget_def)

lemma written_plan_verified:
  assumes c: "compileGraph sha num options declaration = CompiledExecutable plan"
    and ids: "set (node_ids plan) \<subseteq> set nodeIds" and hex: "cp_planRevision plan \<noteq> []"
  shows "verifyPersistedPlan sha num (createPersistedCompiledPlan plan) (cp_graphId plan) nodeIds = PlanVerified"
proof -
  note ex = compiled_executable [OF c]
  from compiled_parts [OF ex(1)] obtain body policy cx budget where p: "isGraphDeclarationV3 declaration"
    "createCompiledPlan sha num body = Inr plan" "fst (inspect_body sha num body) = []"
    "compile_nodes sha num options (cp_graphId body) (declared_outcomes declaration) policy
       (map snd (declared_nodes declaration)) empty_context = (cp_nodes body, cx, [])"
    "readRunBudget (js_get declaration ''budget'') = Inr budget"
    "body = plan_body (cp_graphId body) budget (cp_nodes body) (cp_edges body) (cp_loopGroups body) cx"
    "cp_graphId body = str_of (js_get declaration ''name'')" by metis
  note f = createCompiledPlan_fields [OF p(2)]
  have wf: "wf_plan plan" by (rule compiled_wf [OF ex(1)])
  let ?v = "createPersistedCompiledPlan plan"
  have name: "cp_graphId plan \<noteq> []" using p(1) unfolding f(4) p(7) by (auto simp: isGraphDeclarationV3_def nonempty_string_Some)
  have written: "list_all (node_written num options (cp_graphId body) policy cx) (cp_nodes plan)"
    using compile_nodes_written [where raws = "map snd (declared_nodes declaration)" and cx = empty_context and sha = sha] p(4) f(1) by (metis fst_conv snd_conv)
  have refs: "bound_ref cx ref \<and> cr_id ref \<noteq> [] \<and> cr_revision ref \<noteq> [] \<and> cr_digest ref \<noteq> []"
    if "n \<in> set (cp_nodes plan)" "cn_contractRef n = Some ref" for n ref
    using written that by (auto simp: list_all_iff node_written_def)
  have "grows sha num empty_context cx" using compile_nodes_grows [of sha num empty_context] p(4) by (metis fst_conv snd_conv)
  then have ok: "contracts_ok sha num cx" by (simp add: grows_def contracts_ok_def empty_context_def)
  have contracts: "verifyContractRecord sha num ?v nodeIds = None"
  proof (rule contract_record_written [OF ok wf_plan_distinct [OF wf] ids refs])
    show "cp_contractSnapshots plan = snapshotIndex (cx_snapshots cx)" unfolding f(9) by (subst p(6)) (simp add: plan_body_def)
    show "cp_contractIdentities plan = identityIndex (cx_identities cx)" unfolding f(10) by (subst p(6)) (simp add: plan_body_def)
  qed
  let ?insp = "inspect_body sha num plan"
  have issues: "fst ?insp = []" unfolding f(11) by (rule p(3))
  have tids: "set (snd ?insp) = set (node_ids plan)"
    using scan_nodes_ids [of "cp_nodes plan" "[]"] wf_plan_node_id [OF wf]
    by (simp add: inspect_body_def inspectCompiledTopology_def Let_def case_prod_unfold list_all_iff)
  have "binding_index_defect (map enc_node (cp_nodes plan)) (snd ?insp) (JObj (nodeBindingsOf (cp_nodes plan))) = None"
    by (rule binding_index_written [OF wf_plan_distinct [OF wf] tids]) (use refs in blast)
  with issues tids ids have topology: "topology_defect sha num ?v (map enc_node (cp_nodes plan)) (map enc_edge (cp_edges plan))
      (map enc_group (cp_loopGroups plan)) nodeIds = None"
    by (auto simp: topology_defect_def inspect_body_def case_prod_unfold Let_def split: list.split)
  have "cp_budget plan = (case budget of None \<Rightarrow> JUndef | Some b \<Rightarrow> enc_run_budget b)"
    unfolding f(12) by (subst p(6)) (simp add: plan_body_def)
  then obtain b where "readRunBudget (cp_budget plan) = Inr b" using run_budget_again [OF p(5)] by auto
  then have address: "address_defect sha num ?v = None"
    by (simp add: address_defect_def persisted_body_record f(8))
  have "readPlanExecutability (enc_executability Executable) = ReadsExecutable" by (simp add: readPlanExecutability_def)
  then have exec: "executability_defect (enc_executability (cp_executability plan)) = None" by (simp add: executability_defect_def ex(2))
  have "record_defect sha num ?v (cp_graphId plan) nodeIds = None"
    using name hex exec topology contracts address by (simp add: record_defect_def COMPILED_DECLARATION_VERSION_def)
  then have verified: "verifyPersistedCompiledPlan sha num ?v (cp_graphId plan) nodeIds = PlanVerified"
    by (cases ?v) (simp_all add: verifyPersistedCompiledPlan_def createPersistedCompiledPlan_def)
  have compiled: "list_all (node_compiled (declared_outcomes declaration)) (cp_nodes plan)"
    using compile_nodes_fields(3) [of sha num options "cp_graphId body" "declared_outcomes declaration" policy "map snd (declared_nodes declaration)" empty_context]
    unfolding p(4) f(1) by simp
  have "consumer_node_issue (enc_node n) = None" if n: "n \<in> set (cp_nodes plan)" for n
  proof -
    from n compile_nodes_origin [of n sha num options "cp_graphId body" "declared_outcomes declaration" policy "map snd (declared_nodes declaration)" empty_context]
    obtain raw cx' where "n = fst (compileNode sha num options (cp_graphId body) (declared_outcomes declaration) policy raw cx')"
      unfolding p(4) f(1) by auto
    from compiled_node_consumable [OF this] compiled n wf_plan_node_id [OF wf n] show ?thesis by (simp add: list_all_iff)
  qed
  then have "first_node_issue (map enc_node ns) = None" if "set ns \<subseteq> set (cp_nodes plan)" for ns
    using that by (induction ns) simp_all
  then have "readConsumerNodeIssue ?v = None" by (simp add: readConsumerNodeIssue_def)
  with verified show ?thesis by (simp add: verifyPersistedPlan_def Let_def)
qed

subsection \<open>What a verified record proves\<close>

lemma verified_record:
  assumes "verifyPersistedPlan sha num v graphId nodeIds = PlanVerified"
  shows "isRecord v" "js_get v ''graphId'' = JStr graphId" "graphId \<noteq> []" "readPlanExecutability (js_get v ''executability'') = ReadsExecutable"
    "\<exists>r. r \<noteq> [] \<and> js_get v ''planRevision'' = JStr r \<and> contractDigest sha num (persisted_body v) = Inr r"
proof -
  from assms have "verifyPersistedCompiledPlan sha num v graphId nodeIds = PlanVerified"
    by (auto simp: verifyPersistedPlan_def Let_def split: if_splits)
  then have none: "record_defect sha num v graphId nodeIds = None"
    by (auto simp: verifyPersistedCompiledPlan_def split: if_splits option.splits)
  then show "isRecord v" "js_get v ''graphId'' = JStr graphId" "graphId \<noteq> []"
    by (auto simp: record_defect_def nonempty_string_Some split: if_splits option.splits)
  from none obtain r where r: "js_get v ''planRevision'' = JStr r" "r \<noteq> []"
    by (auto simp: record_defect_def nonempty_string_Some split: if_splits option.splits)
  from none have parts: "executability_defect (js_get v ''executability'') = None" "address_defect sha num v = None"
    by (auto simp: record_defect_def split: if_splits option.splits)
  from parts(1) show "readPlanExecutability (js_get v ''executability'') = ReadsExecutable"
    by (auto simp: executability_defect_def split: executability_reading.splits)
  from parts(2) r show "\<exists>r. r \<noteq> [] \<and> js_get v ''planRevision'' = JStr r \<and> contractDigest sha num (persisted_body v) = Inr r"
    by (auto simp: address_defect_def split: sum.splits)
qed

lemma written_plan_runnable:
  assumes "verifyPersistedPlan sha num (createPersistedCompiledPlan plan) (cp_graphId plan) nodeIds = PlanVerified"
  shows "readPersistedCompiledPlan sha num (createPersistedCompiledPlan plan) nodeIds = Some (createPersistedCompiledPlan plan)"
  using verified_record(3) [OF assms] assms by (simp add: readPersistedCompiledPlan_def isRunnablePersistedPlan_def)

text \<open>The gate reads named properties only, so their order does not matter.\<close>

lemma runnable_reordered:
  assumes g: "js_get v = js_get w" and "isRecord v" "isRecord w"
  shows "isRunnablePersistedPlan sha num v nodeIds \<longleftrightarrow> isRunnablePersistedPlan sha num w nodeIds"
proof -
  have "v \<noteq> JUndef" "w \<noteq> JUndef" using assms(2,3) by auto
  moreover have "address_defect sha num v = address_defect sha num w" by (simp only: address_defect_def persisted_body_def g)
  ultimately show ?thesis
    by (simp only: isRunnablePersistedPlan_def verifyPersistedPlan_def verifyPersistedCompiledPlan_def record_defect_def topology_defect_def
        verifyContractRecord_def readConsumerNodeIssue_def g assms(2,3) if_False)
qed

lemma runnable_record:
  assumes "readPersistedCompiledPlan sha num v nodeIds = Some w"
  obtains r where "w = v" "js_get v ''planRevision'' = JStr r" "contractDigest sha num (persisted_body v) = Inr r"
proof -
  from assms have w: "w = v" and "isRunnablePersistedPlan sha num v nodeIds" by (simp_all add: readPersistedCompiledPlan_def split: if_splits)
  then obtain graphId where "verifyPersistedPlan sha num v graphId nodeIds = PlanVerified"
    by (auto simp: isRunnablePersistedPlan_def split: option.splits)
  from verified_record(5) [OF this] w that show thesis by blast
qed

lemma same_revision_same_body:
  assumes "json_numbers num" and "contractDigest sha num b = Inr r" "contractDigest sha num c = Inr r"
  shows "sort_keys b = sort_keys c \<or> (\<exists>s t. s \<noteq> t \<and> sha s = sha t)"
  using assms canonical_text_eq_iff [OF assms(1), of 0 b 0 c] by (auto simp: contractDigest_Inr)

end
