(* ===== verification/Proposal.thy ===== *)
theory Proposal
  imports VerifyFacts
begin

text \<open>
  The proposal of a worker (\<open>graph/outcome/proposal.ts\<close>): the closed shape, the canonical form and its digest. A shape
  issue is its path; freezing has no counterpart in a model of values, and neither has a property read that throws.
\<close>

record outcome_proposal =
  pr_nodeId :: string
  pr_outcomeId :: string
  pr_credential :: "string option"
  pr_data :: jsval
  pr_evidenceRefs :: "string list option"

text \<open>The canonical form; \<open>JUndef\<close> is absent data.\<close>

record normalized_proposal =
  nr_nodeId :: string
  nr_outcomeId :: string
  nr_credential :: "string option"
  nr_data :: jsval
  nr_evidenceRefs :: "string list"

definition PROPOSAL_KEYS :: "string list" where
  "PROPOSAL_KEYS = [''nodeId'', ''outcomeId'', ''credential'', ''data'', ''evidenceRefs'']"

subsection \<open>The shape gate\<close>

definition unknown_key_paths :: "jsval \<Rightarrow> string list" where
  "unknown_key_paths v = map (\<lambda>k. ''$.'' @ k) (filter (\<lambda>k. k \<notin> set PROPOSAL_KEYS) (js_keys v))"

definition ref_paths :: "nat \<Rightarrow> jsval list \<Rightarrow> string list" where
  "ref_paths i refs = concat (map (\<lambda>(j, r). if nonempty_string r = None then [''$.evidenceRefs['' @ show_nat j @ '']''] else [])
     (enumerate i refs))"

definition evidence_paths :: "jsval \<Rightarrow> string list" where
  "evidence_paths v =
     (if v = JUndef then []
      else case js_array v of None \<Rightarrow> [''$.evidenceRefs''] | Some refs \<Rightarrow> ref_paths 0 refs)"

definition proposal_issues :: "jsval \<Rightarrow> string list" where
  "proposal_issues v =
     unknown_key_paths v @
     (if nonempty_string (js_get v ''nodeId'') = None then [''$.nodeId''] else []) @
     (if nonempty_string (js_get v ''outcomeId'') = None then [''$.outcomeId''] else []) @
     (if js_get v ''credential'' \<noteq> JUndef \<and> nonempty_string (js_get v ''credential'') = None then [''$.credential''] else []) @
     evidence_paths (js_get v ''evidenceRefs'')"

definition text_of :: "jsval \<Rightarrow> string" where
  "text_of v = (case nonempty_string v of None \<Rightarrow> [] | Some s \<Rightarrow> s)"

definition readOutcomeProposal :: "jsval \<Rightarrow> string list + outcome_proposal" where
  "readOutcomeProposal v =
     (if \<not> isRecord v then Inl [''$'']
      else if proposal_issues v \<noteq> [] then Inl (proposal_issues v)
      else Inr \<lparr>pr_nodeId = text_of (js_get v ''nodeId''), pr_outcomeId = text_of (js_get v ''outcomeId''),
             pr_credential = nonempty_string (js_get v ''credential''), pr_data = js_get v ''data'',
             pr_evidenceRefs = map_option (map text_of) (js_array (js_get v ''evidenceRefs''))\<rparr>)"

subsection \<open>The canonical form and its digest\<close>

definition normalizeProposal :: "outcome_proposal \<Rightarrow> normalized_proposal" where
  "normalizeProposal p =
     \<lparr>nr_nodeId = pr_nodeId p, nr_outcomeId = pr_outcomeId p, nr_credential = pr_credential p, nr_data = pr_data p,
      nr_evidenceRefs = (case pr_evidenceRefs p of None \<Rightarrow> [] | Some refs \<Rightarrow> sort (js_set refs))\<rparr>"

definition enc_proposal :: "normalized_proposal \<Rightarrow> jsval" where
  "enc_proposal n = JObj ([(''nodeId'', JStr (nr_nodeId n)), (''outcomeId'', JStr (nr_outcomeId n))] @
     opt_field ''credential'' JStr (nr_credential n) @
     (if nr_data n = JUndef then [] else [(''data'', nr_data n)]) @
     [(''evidenceRefs'', JArr (map JStr (nr_evidenceRefs n)))])"

text \<open>A canonical form is a proposal again, and normalizes to itself.\<close>

definition as_proposal :: "normalized_proposal \<Rightarrow> outcome_proposal" where
  "as_proposal n = \<lparr>pr_nodeId = nr_nodeId n, pr_outcomeId = nr_outcomeId n, pr_credential = nr_credential n, pr_data = nr_data n,
     pr_evidenceRefs = Some (nr_evidenceRefs n)\<rparr>"

definition proposalDigest :: "(string \<Rightarrow> string) \<Rightarrow> (rat \<Rightarrow> string) \<Rightarrow> outcome_proposal \<Rightarrow> digest_error + string" where
  "proposalDigest sha num p = contractDigest sha num (enc_proposal (normalizeProposal p))"

subsection \<open>Properties\<close>

lemma js_set_distinct: "distinct xs \<Longrightarrow> js_set xs = xs"
proof -
  have "distinct (acc @ xs) \<Longrightarrow> foldl (\<lambda>s x. set_add x s) acc xs = acc @ xs" for acc
    by (induction xs arbitrary: acc) (auto simp: set_add_def)
  then show "distinct xs \<Longrightarrow> js_set xs = xs" by (simp add: js_set_def)
qed

lemma normalize_idem: "normalizeProposal (as_proposal (normalizeProposal p)) = normalizeProposal p"
  by (auto simp: normalizeProposal_def as_proposal_def js_set_distinct js_set_def [of "[]"] sorted_sort_id split: option.splits)

lemma enc_proposal_record:
  "js_get (enc_proposal n) ''nodeId'' = JStr (nr_nodeId n)" "js_get (enc_proposal n) ''outcomeId'' = JStr (nr_outcomeId n)"
  "js_get (enc_proposal n) ''credential'' = (case nr_credential n of None \<Rightarrow> JUndef | Some c \<Rightarrow> JStr c)"
  "js_get (enc_proposal n) ''data'' = nr_data n"
  "js_get (enc_proposal n) ''evidenceRefs'' = JArr (map JStr (nr_evidenceRefs n))"
  by (auto simp: enc_proposal_def opt_field_def split: option.splits)

text \<open>Only the set of references matters.\<close>

lemma normalize_refs:
  "set refs = set refs' \<Longrightarrow> normalizeProposal (p\<lparr>pr_evidenceRefs := Some refs\<rparr>) = normalizeProposal (p\<lparr>pr_evidenceRefs := Some refs'\<rparr>)"
proof -
  assume "set refs = set refs'"
  then have "sort (js_set refs) = sort (js_set refs')" by (intro sorted_distinct_set_unique) simp_all
  then show ?thesis by (simp add: normalizeProposal_def)
qed

lemma normalized_refs:
  assumes "nr_evidenceRefs (normalizeProposal p) \<noteq> []"
  shows "\<exists>refs. pr_evidenceRefs p = Some refs \<and> refs \<noteq> [] \<and> set (nr_evidenceRefs (normalizeProposal p)) = set refs"
proof (cases "pr_evidenceRefs p")
  case None
  with assms show ?thesis by (simp add: normalizeProposal_def)
next
  case (Some refs)
  then have n: "nr_evidenceRefs (normalizeProposal p) = sort (js_set refs)" by (simp add: normalizeProposal_def)
  with assms have "refs \<noteq> []" by (auto simp: js_set_def)
  with n Some show ?thesis by simp
qed

lemma js_get_sort_keys:
  assumes "distinct (map fst ps)"
  shows "js_get (sort_keys (JObj ps)) k = (case map_of ps k of None \<Rightarrow> JUndef | Some v \<Rightarrow> sort_keys v)"
proof -
  have "map_of (map (\<lambda>p. (fst p, sort_keys (snd p))) xs) k = map_option sort_keys (map_of xs k)" for xs :: "(string \<times> jsval) list"
    by (induction xs) auto
  moreover have "map_of (sort_key fst ps) k = map_of ps k"
  proof -
    have "set (sort_key fst ps) = set ps" "distinct (map fst (sort_key fst ps))"
      using assms by (simp_all add: distinct_map)
    with assms show ?thesis by (metis map_of_inject_set)
  qed
  ultimately show ?thesis by (auto split: option.splits)
qed

text \<open>A digest names its proposal: one node, outcome, credential and set of references, and data up to the order of keys.\<close>

lemma digest_names_proposal:
  assumes num: "json_numbers num" and p: "proposalDigest sha num p = Inr d" and q: "proposalDigest sha num q = Inr d"
  shows "(pr_nodeId p = pr_nodeId q \<and> pr_outcomeId p = pr_outcomeId q \<and> pr_credential p = pr_credential q \<and>
      set (case pr_evidenceRefs p of None \<Rightarrow> [] | Some r \<Rightarrow> r) = set (case pr_evidenceRefs q of None \<Rightarrow> [] | Some r \<Rightarrow> r) \<and>
      sort_keys (pr_data p) = sort_keys (pr_data q)) \<or> (\<exists>s t. s \<noteq> t \<and> sha s = sha t)"
proof -
  let ?p = "normalizeProposal p" and ?q = "normalizeProposal q"
  from same_revision_same_body [OF num] p q consider "sort_keys (enc_proposal ?p) = sort_keys (enc_proposal ?q)" | "\<exists>s t. s \<noteq> t \<and> sha s = sha t"
    unfolding proposalDigest_def by blast
  then show ?thesis
  proof cases
    case 1
    have get: "js_get (sort_keys (enc_proposal n)) k = (if js_get (enc_proposal n) k = JUndef then JUndef else sort_keys (js_get (enc_proposal n) k))" for n k
    proof -
      obtain ps where ps: "enc_proposal n = JObj ps" "distinct (map fst ps)"
        by (auto simp: enc_proposal_def opt_field_def split: option.splits)
      show ?thesis unfolding ps(1) js_get_sort_keys [OF ps(2)] by (auto split: option.splits)
    qed
    have eq: "(if js_get (enc_proposal ?p) k = JUndef then JUndef else sort_keys (js_get (enc_proposal ?p) k)) =
        (if js_get (enc_proposal ?q) k = JUndef then JUndef else sort_keys (js_get (enc_proposal ?q) k))" for k
      using 1 unfolding get [symmetric] by simp
    have refs: "set (nr_evidenceRefs (normalizeProposal x)) = set (case pr_evidenceRefs x of None \<Rightarrow> [] | Some r \<Rightarrow> r)" for x
      by (auto simp: normalizeProposal_def split: option.splits)
    have inj: "xs = ys" if "map JStr xs = map JStr ys" for xs ys using that by (auto simp: inj_map_eq_map inj_def)
    have "nr_evidenceRefs ?p = nr_evidenceRefs ?q"
      using eq [of "''evidenceRefs''"] by (auto simp: enc_proposal_record comp_def intro: inj)
    then have "set (case pr_evidenceRefs p of None \<Rightarrow> [] | Some r \<Rightarrow> r) = set (case pr_evidenceRefs q of None \<Rightarrow> [] | Some r \<Rightarrow> r)"
      using refs [of p] refs [of q] by simp
    moreover have "pr_nodeId p = pr_nodeId q" "pr_outcomeId p = pr_outcomeId q" "pr_credential p = pr_credential q"
      using eq [of "''nodeId''"] eq [of "''outcomeId''"] eq [of "''credential''"]
      by (auto simp: enc_proposal_record normalizeProposal_def split: option.splits)
    moreover have "sort_keys (pr_data p) = sort_keys (pr_data q)"
      using eq [of "''data''"] by (auto simp: enc_proposal_record normalizeProposal_def split: if_splits)
    ultimately show ?thesis by blast
  qed blast
qed

end
