(* ===== verification/Reducer.thy ===== *)
theory Reducer
  imports JoinState
begin

text \<open>
  The graph reducer (\<open>graph/outcome/graph-state.ts\<close>): one accepted decision applied to the persisted
  state of a run. The guards, the settlement, the loop caps, the progress comparison, the routing
  with its blocked-input loop, the dispatch of the armed candidates, the canonical arrivals and the
  phase are separate definitions composed by \<open>advanceOutcomeGraph\<close> in the order of the source.

  The accepted-result read, the credential source and the platform hash are parameters of the
  input. Of an accepted decision the fields the reducer reads are modelled; the list of evaluated
  requirements is not. The unbounded \<open>for (;;)\<close> over the blocked set is a total function
  (\<open>decide_loop\<close>): every pass that continues adds a candidate to the set.
\<close>

subsection \<open>Inputs and results\<close>

record accepted_decision =
  dc_graphId :: string
  dc_attemptId :: string
  dc_submissionId :: string
  dc_planRevision :: string
  dc_proposalDigest :: string
  dc_nodeId :: string
  dc_outcomeId :: string

datatype advance_refusal_code =
    UnknownNode
  | NodeNotDispatched
  | AttemptMismatch
  | NoRoute
  | ReentryOutsideLoop
  | GraphStopped
  | ProgressUnbound
  | StateLedgerDisagreement
  | AdvanceUnsupportedStateVersion

datatype advance_error =
    AdvanceRefused advance_refusal_code string
  | AdvanceMint mint_error

record dispatch_intent =
  di_nodeId :: string
  di_attemptId :: string
  di_agent :: string
  di_prompt :: string
  di_credential :: string
  di_inputs :: "resolved_input list"

record advance =
  av_state :: graph_state
  av_dispatches :: "dispatch_intent list"
  av_progress :: "progress_report list"

record advance_input =
  in_plan :: compiled_plan
  in_state :: graph_state
  in_decision :: accepted_decision
  in_now :: int
  in_mintCredential :: credential_source
  in_readAcceptedResult :: "(string \<Rightarrow> accepted_result_reading) option"
  in_progress :: "progress_projection list option"
  in_dispatchIdentity :: "host_identity option"

type_synonym candidate = "compiled_node \<times> nat"

definition ADVANCEABLE_STATE_BODY_VERSIONS :: "nat list" where
  "ADVANCEABLE_STATE_BODY_VERSIONS = [CURRENT_OUTCOME_STATE_BODY]"

subsection \<open>Loop groups\<close>

definition sharedLoopGroup :: "compiled_plan \<Rightarrow> string \<Rightarrow> string \<Rightarrow> compiled_loop_group option" where
  "sharedLoopGroup plan from to =
     find (\<lambda>g. from \<in> set (clg_nodes g) \<and> to \<in> set (clg_nodes g)) (cp_loopGroups plan)"

definition continuationGroups :: "compiled_plan \<Rightarrow> string \<Rightarrow> string \<Rightarrow> compiled_loop_group list" where
  "continuationGroups plan nodeId outcomeId =
     filter (\<lambda>g. clg_continuationOutcome g = outcomeId \<and> nodeId \<in> set (clg_nodes g)) (cp_loopGroups plan)"

definition traversals_of :: "(string \<times> nat) list \<Rightarrow> string \<Rightarrow> nat" where
  "traversals_of counters i = (case map_of counters i of None \<Rightarrow> 0 | Some k \<Rightarrow> k)"

text \<open>The counting loop: it stops at the first group whose next traversal would exceed its cap.\<close>

fun count_traversals ::
  "compiled_loop_group list \<Rightarrow> (string \<times> nat) list \<Rightarrow> (string \<times> nat) list \<times> compiled_loop_group option" where
  "count_traversals [] next = (next, None)"
| "count_traversals (g # gs) next =
     (let traversals = traversals_of next (clg_id g) + 1
      in if traversals > clg_maxTraversals g then (next, Some g)
         else count_traversals gs (AList.update (clg_id g) traversals next))"

definition projectionMatchesDecision ::
  "compiled_plan \<Rightarrow> accepted_decision \<Rightarrow> progress_projection \<Rightarrow> bool" where
  "projectionMatchesDecision plan decision projection =
     (let binding = pj_binding projection
      in vb_graphId binding = cp_graphId plan \<and>
         vb_planRevision binding = cp_planRevision plan \<and>
         vb_attemptId binding = dc_attemptId decision \<and>
         vb_submissionId binding = dc_submissionId decision \<and>
         vb_proposalDigest binding = dc_proposalDigest decision)"

record measured =
  me_entries :: "(string \<times> loop_progress) list"
  me_reports :: "progress_report list"
  me_stop :: "progress_stalled_stop option"

definition stalled_stop ::
  "accepted_decision \<Rightarrow> int \<Rightarrow> compiled_loop_group \<Rightarrow> compiled_progress_policy \<Rightarrow> loop_progress \<Rightarrow> string \<Rightarrow>
   progress_stalled_stop" where
  "stalled_stop decision now grp policy next baseline =
     \<lparr>ps_loopGroupId = clg_id grp, ps_nodeId = dc_nodeId decision,
      ps_outcomeId = dc_outcomeId decision, ps_attemptId = dc_attemptId decision,
      ps_unchanged = lp_unchanged next, ps_maxUnchanged = cpp_maxUnchanged policy,
      ps_evaluator = lp_evaluator next, ps_evaluatorVersion = lp_version next,
      ps_subject = lp_subject next, ps_baseline = baseline, ps_stoppedAt = now\<rparr>"

text \<open>
  The comparison of one group that declares a policy, added to what was measured so far.
\<close>

definition measure_group ::
  "compiled_plan \<Rightarrow> (string \<times> loop_progress) list \<Rightarrow> accepted_decision \<Rightarrow> progress_projection list option \<Rightarrow>
   int \<Rightarrow> compiled_loop_group \<Rightarrow> compiled_progress_policy \<Rightarrow> measured \<Rightarrow> advance_error + measured" where
  "measure_group plan recorded decision projections now grp policy m =
     (case map_of recorded (clg_id grp) of
        None \<Rightarrow> Inl (AdvanceRefused ProgressUnbound ''no progress record'')
      | Some entry \<Rightarrow>
     (case (case projections of None \<Rightarrow> None
            | Some ps \<Rightarrow> find (\<lambda>candidate. pj_loopGroupId candidate = clg_id grp) ps) of
        None \<Rightarrow> Inl (AdvanceRefused ProgressUnbound ''no projection'')
      | Some projection \<Rightarrow>
     (if \<not> projectionMatchesDecision plan decision projection
      then Inl (AdvanceRefused ProgressUnbound ''projection of another submission'')
      else case compareProgress policy entry projection of (report, next) \<Rightarrow>
        let m' = m\<lparr>me_entries := AList.update (clg_id grp) next (me_entries m),
                   me_reports := me_reports m @ [report]\<rparr>
        in if \<not> rp_stalled report \<or> me_stop m \<noteq> None then Inr m'
           else case lp_baseline next of
             None \<Rightarrow> Inl (AdvanceRefused ProgressUnbound ''stall without a baseline'')
           | Some baseline \<Rightarrow>
               Inr (m'\<lparr>me_stop := Some (stalled_stop decision now grp policy next baseline)\<rparr>))))"

fun measure_loop ::
  "compiled_plan \<Rightarrow> (string \<times> loop_progress) list \<Rightarrow> accepted_decision \<Rightarrow> progress_projection list option \<Rightarrow>
   int \<Rightarrow> compiled_loop_group list \<Rightarrow> measured \<Rightarrow> advance_error + measured" where
  "measure_loop plan recorded decision projections now [] m = Inr m"
| "measure_loop plan recorded decision projections now (grp # grps) m =
     (case clg_progress grp of
        None \<Rightarrow> measure_loop plan recorded decision projections now grps m
      | Some policy \<Rightarrow>
          rbind (measure_group plan recorded decision projections now grp policy m)
            (measure_loop plan recorded decision projections now grps))"

definition measureProgress ::
  "compiled_plan \<Rightarrow> compiled_loop_group list \<Rightarrow> (string \<times> loop_progress) list \<Rightarrow> accepted_decision \<Rightarrow>
   progress_projection list option \<Rightarrow> int \<Rightarrow> advance_error + measured" where
  "measureProgress plan groups recorded decision projections now =
     measure_loop plan recorded decision projections now groups
       \<lparr>me_entries = recorded, me_reports = [], me_stop = None\<rparr>"

subsection \<open>Guards and settlement\<close>

definition settledEverywhere :: "node_state list \<Rightarrow> bool" where
  "settledEverywhere nodes = list_all (\<lambda>e. ns_status e = Settled) nodes"

definition findIndex :: "('a \<Rightarrow> bool) \<Rightarrow> 'a list \<Rightarrow> nat option" where
  "findIndex P xs = map_option fst (find (\<lambda>(i, x). P x) (zip [0..<length xs] xs))"

text \<open>The position and the entry of the attempt the decision settles, or the named refusal.\<close>

definition locate_attempt ::
  "compiled_plan \<Rightarrow> graph_state \<Rightarrow> accepted_decision \<Rightarrow> advance_error + (nat \<times> node_state)" where
  "locate_attempt plan state decision =
     (case findIndex (\<lambda>n. cn_id n = dc_nodeId decision) (cp_nodes plan) of
        None \<Rightarrow> Inl (AdvanceRefused UnknownNode ''plan does not declare the node'')
      | Some position \<Rightarrow>
          if length (gs_nodes state) \<le> position \<or> ns_nodeId (gs_nodes state ! position) \<noteq> dc_nodeId decision
          then Inl (AdvanceRefused UnknownNode ''state carries no progress for the node'')
          else let current = gs_nodes state ! position
               in if ns_status current = Pending
                  then Inl (AdvanceRefused NodeNotDispatched ''never dispatched'')
                  else if ns_status current = Settled
                  then Inl (AdvanceRefused NodeNotDispatched ''already settled'')
                  else if ns_attemptId current \<noteq> dc_attemptId decision
                  then Inl (AdvanceRefused AttemptMismatch ''another attempt'')
                  else Inr (position, current))"

definition settle_entry :: "node_state \<Rightarrow> string \<Rightarrow> int \<Rightarrow> node_state" where
  "settle_entry current outcomeId now =
     SettledNode (ns_nodeId current) (ns_attemptId current) (ns_attemptSeq current)
       (ns_attemptCredentialDigest current) (ns_dispatchIdentity current) outcomeId
       (ns_dispatchedAt current) now (ns_arrivals current) (ns_inputs current) None"

subsection \<open>Which candidates are armed\<close>

definition settledAttemptOf :: "node_state list \<Rightarrow> string \<Rightarrow> string option" where
  "settledAttemptOf nodes nodeId =
     (case find (\<lambda>e. ns_nodeId e = nodeId) nodes of
        None \<Rightarrow> None
      | Some e \<Rightarrow> if ns_status e = Settled then Some (ns_attemptId e) else None)"

definition default_reading :: "string \<Rightarrow> accepted_result_reading" where
  "default_reading attemptId = ResultUnreadable
     ''this advance was given no durable accepted-result read, so a declared input cannot be resolved from what the producers accepted''"

definition assembleAgainst ::
  "compiled_plan \<Rightarrow> node_state list \<Rightarrow> (string \<Rightarrow> accepted_result_reading) \<Rightarrow> candidate list \<Rightarrow>
   string list \<Rightarrow> (candidate \<times> downstream_input) list" where
  "assembleAgainst plan nodes readAccepted routed inFlight =
     (let arrivals = materializeArrivals plan nodes inFlight
      in map (\<lambda>c. (c, assembleDownstreamInput (inputs_of (fst c))
               (\<lambda>nodeId. if nodeId \<in> set inFlight then None else settledAttemptOf nodes nodeId)
               readAccepted (arrivals_at arrivals (cn_id (fst c))))) routed)"

fun is_resolved :: "downstream_input \<Rightarrow> bool" where
  "is_resolved (InputResolved _) = True"
| "is_resolved (InputBlocked _) = False"

definition armedAgainst ::
  "compiled_plan \<Rightarrow> node_state list \<Rightarrow> (string \<Rightarrow> accepted_result_reading) \<Rightarrow> candidate list \<Rightarrow>
   string list \<Rightarrow> string list" where
  "armedAgainst plan nodes readAccepted routed inFlight =
     js_set (map (\<lambda>(c, _). cn_id (fst c))
       (filter (\<lambda>(_, assembled). is_resolved assembled)
         (assembleAgainst plan nodes readAccepted routed inFlight)))"

fun basis_rounds :: "nat \<Rightarrow> (string list \<Rightarrow> string list) \<Rightarrow> string list \<Rightarrow> string list" where
  "basis_rounds 0 armed basis = basis"
| "basis_rounds (Suc k) armed basis =
     (let swung = armed (armed basis)
      in if sameMembers swung basis then basis else basis_rounds k armed swung)"

definition routed_candidates ::
  "compiled_plan \<Rightarrow> node_state list \<Rightarrow> candidate list \<Rightarrow> candidate list \<Rightarrow> string list \<Rightarrow> candidate list" where
  "routed_candidates plan nodes candidates armable blocked =
     (let armSet = resolveArmSet plan nodes (map fst armable) blocked
      in filter (\<lambda>c. cn_id (fst c) \<in> set armSet) candidates)"

text \<open>One pass of the blocked-input loop: the decisions against the settled basis.\<close>

definition decide_pass ::
  "compiled_plan \<Rightarrow> node_state list \<Rightarrow> (string \<Rightarrow> accepted_result_reading) \<Rightarrow> candidate list \<Rightarrow>
   candidate list \<Rightarrow> string list \<Rightarrow> (candidate \<times> downstream_input) list" where
  "decide_pass plan nodes readAccepted candidates armable blocked =
     (let routed = routed_candidates plan nodes candidates armable blocked;
          basis = basis_rounds (Suc (length routed)) (armedAgainst plan nodes readAccepted routed)
                    (js_set (map (\<lambda>c. cn_id (fst c)) routed))
      in assembleAgainst plan nodes readAccepted routed basis)"

definition newly_blocked :: "(candidate \<times> downstream_input) list \<Rightarrow> string list \<Rightarrow> string list \<times> bool" where
  "newly_blocked next blocked =
     foldl (\<lambda>(b, grew) (c, assembled).
       if \<not> is_resolved assembled \<and> cn_id (fst c) \<notin> set b then (set_add (cn_id (fst c)) b, True)
       else (b, grew)) (blocked, False) next"

abbreviation blocked_ids :: "(candidate \<times> downstream_input) list \<Rightarrow> string set" where
  "blocked_ids next \<equiv> (\<lambda>x. cn_id (fst (fst x))) ` {x \<in> set next. \<not> is_resolved (snd x)}"

lemma newly_blocked_spec:
  assumes "newly_blocked next blocked = (b, grew)"
  shows "set b = set blocked \<union> blocked_ids next"
    and "grew \<longleftrightarrow> set b \<noteq> set blocked"
proof -
  have "\<exists>ys. foldl (\<lambda>(b, grew) (c, assembled).
       if \<not> is_resolved assembled \<and> cn_id (fst c) \<notin> set b then (set_add (cn_id (fst c)) b, True)
       else (b, grew)) (xs, g) ns = (xs @ ys, g \<or> ys \<noteq> []) \<and> set ys \<inter> set xs = {} \<and>
       set xs \<union> set ys = set xs \<union> blocked_ids ns"
    for xs g and ns :: "(candidate \<times> downstream_input) list"
  proof (induction ns arbitrary: xs g)
    case (Cons n ns)
    obtain c d where n: "n = (c, d)" by fastforce
    show ?case
    proof (cases "\<not> is_resolved d \<and> cn_id (fst c) \<notin> set xs")
      case True
      obtain ys where "foldl (\<lambda>(b, grew) (c, assembled).
         if \<not> is_resolved assembled \<and> cn_id (fst c) \<notin> set b then (set_add (cn_id (fst c)) b, True)
         else (b, grew)) (xs @ [cn_id (fst c)], True) ns = ((xs @ [cn_id (fst c)]) @ ys, True)"
        "set ys \<inter> set (xs @ [cn_id (fst c)]) = {}"
        "set (xs @ [cn_id (fst c)]) \<union> set ys =
           set (xs @ [cn_id (fst c)]) \<union> blocked_ids ns"
        using Cons.IH [of "xs @ [cn_id (fst c)]" True] by auto
      moreover have "{x \<in> set (n # ns). \<not> is_resolved (snd x)} = insert n {x \<in> set ns. \<not> is_resolved (snd x)}"
        using True n by auto
      then have "blocked_ids (n # ns) = insert (cn_id (fst c)) (blocked_ids ns)"
        by (simp only: image_insert) (simp add: n)
      ultimately show ?thesis
        using True n by (intro exI [of _ "cn_id (fst c) # ys"]) (simp add: set_add_def)
    next
      case False
      then have "blocked_ids (n # ns) \<union> set xs =
          blocked_ids ns \<union> set xs"
        using n by auto
      with False n Cons.IH [of xs g] show ?thesis by (auto simp: Un_commute)
    qed
  qed auto
  from this [of blocked False "next"] obtain ys where
    "newly_blocked next blocked = (blocked @ ys, ys \<noteq> [])" and fresh: "set ys \<inter> set blocked = {}"
    and ys: "set blocked \<union> set ys = set blocked \<union> blocked_ids next"
    unfolding newly_blocked_def by auto
  with assms have b: "b = blocked @ ys" and grew: "grew = (ys \<noteq> [])" by simp_all
  show "set b = set blocked \<union> blocked_ids next" unfolding b set_append by (rule ys)
  show "grew \<longleftrightarrow> set b \<noteq> set blocked" unfolding b grew using fresh by (cases ys) auto
qed

lemma decide_pass_candidates:
  "(c, d) \<in> set (decide_pass plan nodes readAccepted candidates armable blocked) \<Longrightarrow> c \<in> set candidates"
  by (auto simp: decide_pass_def assembleAgainst_def routed_candidates_def Let_def)

lemma decide_pass_measure:
  assumes "newly_blocked (decide_pass plan nodes readAccepted candidates armable blocked) blocked = (b, True)"
  shows "card ((\<lambda>c. cn_id (fst c)) ` set candidates - set b) <
         card ((\<lambda>c. cn_id (fst c)) ` set candidates - set blocked)"
proof (rule psubset_card_mono)
  let ?ids = "(\<lambda>c. cn_id (fst c)) ` set candidates"
  note spec = newly_blocked_spec [OF assms]
  have "blocked_ids (decide_pass plan nodes readAccepted candidates armable blocked) \<subseteq> ?ids"
    using decide_pass_candidates by fastforce
  with spec obtain x where "x \<in> set b" "x \<notin> set blocked" "x \<in> ?ids" by blast
  with spec(1) show "?ids - set b \<subset> ?ids - set blocked" by blast
qed simp

function decide_loop ::
  "compiled_plan \<Rightarrow> node_state list \<Rightarrow> (string \<Rightarrow> accepted_result_reading) \<Rightarrow> candidate list \<Rightarrow>
   candidate list \<Rightarrow> string list \<Rightarrow> (candidate \<times> downstream_input) list" where
  "decide_loop plan nodes readAccepted candidates armable blocked =
     (let next = decide_pass plan nodes readAccepted candidates armable blocked
      in case newly_blocked next blocked of
           (b, grew) \<Rightarrow> if grew then decide_loop plan nodes readAccepted candidates armable b else next)"
  by auto
termination
  by (relation "measure (\<lambda>(plan, nodes, readAccepted, candidates, armable, blocked).
         card ((\<lambda>c. cn_id (fst c)) ` set candidates - set blocked))")
     (use decide_pass_measure in \<open>auto split: prod.splits\<close>)

declare decide_loop.simps [simp del]

subsection \<open>Applying the decisions\<close>

record arm_context =
  ac_sha :: hash_hex
  ac_graphId :: string
  ac_planRevision :: string
  ac_now :: int
  ac_mint :: credential_source
  ac_identity :: "host_identity option"

record arm_state =
  as_nodes :: "node_state list"
  as_attemptSeq :: nat
  as_dispatches :: "dispatch_intent list"

text \<open>One armed candidate: the next attempt is minted and its entry replaced.\<close>

definition dispatch_candidate ::
  "arm_context \<Rightarrow> candidate \<Rightarrow> resolved_input list \<Rightarrow> arm_state \<Rightarrow> advance_error + arm_state" where
  "dispatch_candidate ctx c entries s =
     (let attemptSeq = as_attemptSeq s + 1;
          targetNode = fst c;
          attemptId = attempt_id (cn_id targetNode) attemptSeq
      in case mintAttemptCredential (ac_mint ctx)
               (attemptCredentialBinding
                  \<lparr>ai_graphId = ac_graphId ctx, ai_nodeId = cn_id targetNode, ai_attemptId = attemptId,
                   ai_planRevision = ac_planRevision ctx\<rparr>) of
           Inl err \<Rightarrow> Inl (AdvanceMint err)
         | Inr credential \<Rightarrow>
             Inr \<lparr>as_nodes = (as_nodes s)[snd c :=
                    DispatchedNode (cn_id targetNode) attemptId attemptSeq
                      (attemptCredentialDigest (ac_sha ctx) credential) (ac_identity ctx) (ac_now ctx)
                      [] (Some entries) None],
                  as_attemptSeq = attemptSeq,
                  as_dispatches = as_dispatches s @
                    [\<lparr>di_nodeId = cn_id targetNode, di_attemptId = attemptId, di_agent = cn_agent targetNode,
                      di_prompt = cn_prompt targetNode, di_credential = credential, di_inputs = entries\<rparr>]\<rparr>)"

definition record_refusals :: "candidate \<Rightarrow> input_refusal list \<Rightarrow> arm_state \<Rightarrow> arm_state" where
  "record_refusals c refusals s =
     (if length (as_nodes s) \<le> snd c then s
      else s\<lparr>as_nodes := (as_nodes s)[snd c := with_inputRefusals refusals (as_nodes s ! snd c)]\<rparr>)"

fun apply_decisions ::
  "arm_context \<Rightarrow> (candidate \<times> downstream_input) list \<Rightarrow> arm_state \<Rightarrow> advance_error + arm_state" where
  "apply_decisions ctx [] s = Inr s"
| "apply_decisions ctx ((c, InputBlocked refusals) # ds) s = apply_decisions ctx ds (record_refusals c refusals s)"
| "apply_decisions ctx ((c, InputResolved entries) # ds) s =
     rbind (dispatch_candidate ctx c entries s) (apply_decisions ctx ds)"

subsection \<open>Routing one non-terminal outcome\<close>

record routing =
  rt_arm :: arm_state
  rt_loopTraversals :: "(string \<times> nat) list"
  rt_loopProgress :: "(string \<times> loop_progress) list"
  rt_stop :: "outcome_stop option"
  rt_reports :: "progress_report list"

definition exhausted_stop ::
  "accepted_decision \<Rightarrow> (string \<times> nat) list \<Rightarrow> int \<Rightarrow> compiled_loop_group \<Rightarrow> outcome_stop" where
  "exhausted_stop decision loopTraversals now bound =
     StopLoopExhausted
       \<lparr>le_loopGroupId = clg_id bound, le_nodeId = dc_nodeId decision, le_outcomeId = dc_outcomeId decision,
        le_attemptId = dc_attemptId decision, le_traversals = traversals_of loopTraversals (clg_id bound),
        le_maxTraversals = clg_maxTraversals bound, le_stoppedAt = now\<rparr>"

definition candidates_of :: "compiled_plan \<Rightarrow> string list \<Rightarrow> candidate list" where
  "candidates_of plan candidateIds =
     filter (\<lambda>c. cn_id (fst c) \<in> set candidateIds) (zip (cp_nodes plan) [0..<length (cp_nodes plan)])"

definition armable_of :: "node_state list \<Rightarrow> candidate list \<Rightarrow> candidate list" where
  "armable_of nodes candidates =
     filter (\<lambda>c. snd c < length nodes \<and> ns_status (nodes ! snd c) \<noteq> Dispatched) candidates"

text \<open>
  The routing of the successors of one outcome. \<open>routed\<close> is empty when a stop was just recorded.
\<close>

definition route_candidates ::
  "arm_context \<Rightarrow> compiled_plan \<Rightarrow> accepted_decision \<Rightarrow> (string \<Rightarrow> accepted_result_reading) \<Rightarrow>
   compiled_edge list \<Rightarrow> arm_state \<Rightarrow> advance_error + arm_state" where
  "route_candidates ctx plan decision readAccepted routed s =
     (let candidateIds = js_set (map ce_to routed);
          nodes = as_nodes s;
          candidates = candidates_of plan candidateIds;
          armable = armable_of nodes candidates
      in rbind (ensure (list_all (\<lambda>t. list_ex (\<lambda>n. cn_id n = t) (cp_nodes plan)) candidateIds)
                  (AdvanceRefused NoRoute ''edge to an undeclared node'')) (\<lambda>_.
         rbind (ensure (list_all (\<lambda>c. length nodes \<le> snd c \<or> ns_status (nodes ! snd c) \<noteq> Settled \<or>
                           sharedLoopGroup plan (dc_nodeId decision) (cn_id (fst c)) \<noteq> None) candidates)
                  (AdvanceRefused ReentryOutsideLoop ''re-enters a settled node'')) (\<lambda>_.
         apply_decisions ctx (decide_loop plan nodes readAccepted candidates armable []) s)))"

definition route_outcome ::
  "arm_context \<Rightarrow> advance_input \<Rightarrow> (string \<times> loop_progress) list \<Rightarrow> arm_state \<Rightarrow> advance_error + routing" where
  "route_outcome ctx inp recordedProgress s =
     (let plan = in_plan inp; decision = in_decision inp; now = in_now inp;
          loopTraversals = gs_loopTraversals (in_state inp);
          readAccepted = (case in_readAcceptedResult inp of None \<Rightarrow> default_reading | Some f \<Rightarrow> f);
          successors = filter (\<lambda>e. ce_from e = dc_nodeId decision \<and> ce_outcome e = dc_outcomeId decision)
                         (cp_edges plan);
          grps = continuationGroups plan (dc_nodeId decision) (dc_outcomeId decision)
      in if successors = [] then Inl (AdvanceRefused NoRoute ''not a terminal and binds no edge'')
         else case count_traversals grps loopTraversals of
           (next, Some bound) \<Rightarrow>
             rbind (route_candidates ctx plan decision readAccepted [] s) (\<lambda>arm.
               Inr \<lparr>rt_arm = arm, rt_loopTraversals = loopTraversals, rt_loopProgress = recordedProgress,
                    rt_stop = Some (exhausted_stop decision loopTraversals now bound), rt_reports = []\<rparr>)
         | (next, None) \<Rightarrow>
             rbind (measureProgress plan grps recordedProgress decision (in_progress inp) now) (\<lambda>m.
             rbind (route_candidates ctx plan decision readAccepted
                      (if me_stop m = None then successors else []) s) (\<lambda>arm.
               Inr \<lparr>rt_arm = arm, rt_loopTraversals = next, rt_loopProgress = me_entries m,
                    rt_stop = map_option StopProgressStalled (me_stop m), rt_reports = me_reports m\<rparr>)))"

subsection \<open>Concluding the advance\<close>

definition canonicalise :: "compiled_plan \<Rightarrow> node_state list \<Rightarrow> node_state list" where
  "canonicalise plan nodes =
     (let canonicalArrivals = materializeArrivals plan nodes []
      in map (\<lambda>e. with_arrivals (arrivals_at canonicalArrivals (ns_nodeId e)) e) nodes)"

definition some_dispatched :: "node_state list \<Rightarrow> bool" where
  "some_dispatched nodes = list_ex (\<lambda>e. ns_status e = Dispatched) nodes"

definition some_attempted :: "node_state list \<Rightarrow> bool" where
  "some_attempted nodes = list_ex (\<lambda>e. ns_status e \<noteq> Pending) nodes"

definition final_stop :: "compiled_plan \<Rightarrow> node_state list \<Rightarrow> int \<Rightarrow> outcome_stop option \<Rightarrow> outcome_stop option" where
  "final_stop plan nodes now stop =
     (if stop = None \<and> \<not> some_dispatched nodes \<and> some_attempted nodes \<and> \<not> settledEverywhere nodes
      then let blockedNodes = unsatisfiablePendingNodes plan nodes
           in if blockedNodes \<noteq> [] then Some (StopUnreachable \<lparr>up_blockedNodes = blockedNodes, up_stoppedAt = now\<rparr>)
              else stop
      else stop)"

definition phase_of :: "node_state list \<Rightarrow> outcome_stop option \<Rightarrow> graph_phase" where
  "phase_of nodes stop =
     (if stop \<noteq> None then Stopped
      else if some_dispatched nodes then Executing
      else if settledEverywhere nodes then Complete
      else if some_attempted nodes then Executing
      else Ready)"

definition is_terminal_outcome :: "compiled_plan \<Rightarrow> string \<Rightarrow> string \<Rightarrow> bool" where
  "is_terminal_outcome plan nodeId outcomeId =
     list_ex (\<lambda>t. cto_nodeId t = nodeId \<and> cto_outcome t = outcomeId) (cp_terminalOutcomes plan)"

definition conclude :: "compiled_plan \<Rightarrow> graph_state \<Rightarrow> int \<Rightarrow> routing \<Rightarrow> advance" where
  "conclude plan state now r =
     (let nodes = canonicalise plan (as_nodes (rt_arm r));
          stop = final_stop plan nodes now (rt_stop r)
      in \<lparr>av_state =
            \<lparr>gs_bodyVersion = CURRENT_OUTCOME_STATE_BODY, gs_graphId = gs_graphId state,
             gs_planRevision = gs_planRevision state, gs_phase = phase_of nodes stop, gs_nodes = nodes,
             gs_loopTraversals = rt_loopTraversals r, gs_attemptSeq = as_attemptSeq (rt_arm r),
             gs_stop = stop, gs_loopProgress = Some (rt_loopProgress r)\<rparr>,
          av_dispatches = as_dispatches (rt_arm r), av_progress = rt_reports r\<rparr>)"

definition advanceOutcomeGraph :: "hash_hex \<Rightarrow> advance_input \<Rightarrow> advance_error + advance" where
  "advanceOutcomeGraph sha inp =
     (let plan = in_plan inp; state = in_state inp; decision = in_decision inp; now = in_now inp;
          ctx = \<lparr>ac_sha = sha, ac_graphId = cp_graphId plan, ac_planRevision = cp_planRevision plan,
                 ac_now = now, ac_mint = in_mintCredential inp, ac_identity = in_dispatchIdentity inp\<rparr>
      in if gs_bodyVersion state \<notin> set ADVANCEABLE_STATE_BODY_VERSIONS
         then Inl (AdvanceRefused AdvanceUnsupportedStateVersion ''body version'')
         else case gs_loopProgress state of
           None \<Rightarrow> Inl (AdvanceRefused AdvanceUnsupportedStateVersion ''no loopProgress record'')
         | Some recordedProgress \<Rightarrow>
             if gs_stop state \<noteq> None then Inl (AdvanceRefused GraphStopped ''stopped'')
             else rbind (locate_attempt plan state decision) (\<lambda>(position, current).
               let s = \<lparr>as_nodes = (gs_nodes state)[position := settle_entry current (dc_outcomeId decision) now],
                        as_attemptSeq = gs_attemptSeq state, as_dispatches = []\<rparr>
               in rbind (if is_terminal_outcome plan (dc_nodeId decision) (dc_outcomeId decision)
                         then Inr \<lparr>rt_arm = s, rt_loopTraversals = gs_loopTraversals state,
                                   rt_loopProgress = recordedProgress, rt_stop = None, rt_reports = []\<rparr>
                         else route_outcome ctx inp recordedProgress s)
                  (\<lambda>r. Inr (conclude plan state now r))))"

end
