(* ===== verification/BudgetTables.thy ===== *)
theory BudgetTables
  imports Budget "HOL-Library.Product_Lexorder"
begin

text \<open>
  The dispatch budget rows of the store (\<open>graph/store/budget-tables.ts\<close>): the conditional reservation of
  one dispatch, the reconciliation of a claim with measured usage, the release of a claim whose usage
  is unknown, and the per-node accumulation a report is built from.

  A table is the list of its rows. Each operation is one transaction: an error leaves the table as it
  was. The status constructor carries the columns the table's checks tie to the status, so a row
  that violates them cannot be built. The SQL statements are the definitions \<open>insert_reservation\<close>,
  \<open>update_reconciled\<close>, \<open>insert_late\<close> and \<open>update_released\<close>; the write lock and the driver's row
  decoding are not modelled.
\<close>

subsection \<open>Rows\<close>

datatype reservation_status = Reserved | Released int | Reconciled int budget_usage

record reservation =
  bv_graphId :: string
  bv_runId :: string
  bv_nodeId :: string
  bv_attemptId :: string
  bv_effectId :: string
  bv_checked :: node_budget_limits
  bv_reserved :: budget_usage
  bv_status :: reservation_status
  bv_reservedAt :: int

record budget_db =
  bd_rows :: "reservation list"
  bd_currentRun :: "string \<rightharpoonup> string"

datatype store_error = InvalidRecord string

record reserve_input =
  rv_maxExecutions :: "int option"
  rv_graphId :: string
  rv_runId :: string
  rv_nodeId :: string
  rv_attemptId :: string
  rv_effectId :: string
  rv_limits :: node_budget_limits
  rv_at :: int

datatype exhaustion =
    ExecutionsExhausted int int
  | DimensionExhausted budget_limit_kind rat rat

datatype reserve_result =
    ReserveReserved reservation
  | ReserveReplayed reservation
  | ReserveExhausted "exhaustion list"

record usage_input =
  ui_graphId :: string
  ui_runId :: string
  ui_nodeId :: string
  ui_attemptId :: string
  ui_effectId :: string
  ui_executions :: "int option"
  ui_durationMs :: rat
  ui_inputTokens :: rat
  ui_outputTokens :: rat
  ui_costUsd :: rat
  ui_at :: int

datatype usage_result =
    UsageReconciled reservation
  | UsageReplayed reservation
  | UsageRecordedLate reservation
  | UsageIgnored reservation

record release_input =
  li_graphId :: string
  li_runId :: string
  li_nodeId :: string
  li_attemptId :: string
  li_at :: int

datatype release_result = ReleaseReleased reservation | ReleaseReplayed reservation | ReleaseAbsent

subsection \<open>Checked arguments\<close>

definition requireIdentifier :: "string \<Rightarrow> string \<Rightarrow> store_error + string" where
  "requireIdentifier v field = (if v = [] then Inl (InvalidRecord field) else Inr v)"

definition requireCount :: "int \<Rightarrow> string \<Rightarrow> store_error + int" where
  "requireCount v field = (if v < 0 \<or> max_safe < v then Inl (InvalidRecord field) else Inr v)"

definition requireAmount :: "rat \<Rightarrow> string \<Rightarrow> store_error + rat" where
  "requireAmount v field = (if v < 0 then Inl (InvalidRecord field) else Inr v)"

definition require_opt_amount :: "rat option \<Rightarrow> string \<Rightarrow> store_error + rat option" where
  "require_opt_amount v field =
     (case v of None \<Rightarrow> Inr None | Some q \<Rightarrow> rbind (requireAmount q field) (\<lambda>q. Inr (Some q)))"

definition normalizedLimits :: "node_budget_limits \<Rightarrow> store_error + node_budget_limits" where
  "normalizedLimits l =
     rbind (require_opt_amount (bl_durationMs l) ''budget.limits.durationMs'') (\<lambda>d.
     rbind (require_opt_amount (bl_inputTokens l) ''budget.limits.inputTokens'') (\<lambda>i.
     rbind (require_opt_amount (bl_outputTokens l) ''budget.limits.outputTokens'') (\<lambda>oc.
     rbind (require_opt_amount (bl_costUsd l) ''budget.limits.costUsd'') (\<lambda>c.
       Inr \<lparr>bl_durationMs = d, bl_inputTokens = i, bl_outputTokens = oc, bl_costUsd = c\<rparr>))))"

definition requireRunId :: "budget_db \<Rightarrow> string \<Rightarrow> string \<Rightarrow> store_error + string" where
  "requireRunId db graphId explicit =
     (case bd_currentRun db graphId of
        None \<Rightarrow> Inl (InvalidRecord ''runId'')
      | Some current \<Rightarrow> if current \<noteq> explicit then Inl (InvalidRecord ''runId'') else Inr current)"

subsection \<open>Reads over the rows\<close>

definition run_rows :: "string \<Rightarrow> string \<Rightarrow> reservation list \<Rightarrow> reservation list" where
  "run_rows graphId runId rows = filter (\<lambda>v. bv_graphId v = graphId \<and> bv_runId v = runId) rows"

definition node_rows :: "string \<Rightarrow> string \<Rightarrow> string \<Rightarrow> reservation list \<Rightarrow> reservation list" where
  "node_rows graphId runId nodeId rows = filter (\<lambda>v. bv_nodeId v = nodeId) (run_rows graphId runId rows)"

definition reconciled_amount :: "budget_limit_kind \<Rightarrow> reservation \<Rightarrow> rat" where
  "reconciled_amount k v = (case bv_status v of Reconciled _ used \<Rightarrow> usage_field k used | _ \<Rightarrow> 0)"

definition claimed_amount :: "budget_limit_kind \<Rightarrow> reservation \<Rightarrow> rat" where
  "claimed_amount k v = (if bv_status v = Reserved then usage_field k (bv_reserved v) else 0)"

definition used_sum :: "budget_limit_kind \<Rightarrow> reservation list \<Rightarrow> rat" where
  "used_sum k rows = (\<Sum>v\<leftarrow>rows. reconciled_amount k v)"

definition reserved_sum :: "budget_limit_kind \<Rightarrow> reservation list \<Rightarrow> rat" where
  "reserved_sum k rows = (\<Sum>v\<leftarrow>rows. claimed_amount k v)"

definition committedOf :: "budget_limit_kind \<Rightarrow> string \<Rightarrow> string \<Rightarrow> string \<Rightarrow> reservation list \<Rightarrow> rat" where
  "committedOf k graphId runId nodeId rows =
     used_sum k (node_rows graphId runId nodeId rows) + reserved_sum k (node_rows graphId runId nodeId rows)"

definition readReservationIn :: "string \<Rightarrow> string \<Rightarrow> string \<Rightarrow> reservation list \<Rightarrow> reservation option" where
  "readReservationIn graphId attemptId runId rows =
     find (\<lambda>v. bv_graphId v = graphId \<and> bv_runId v = runId \<and> bv_attemptId v = attemptId) rows"

definition attemptRowOf :: "string \<Rightarrow> string \<Rightarrow> reservation list \<Rightarrow> reservation option" where
  "attemptRowOf graphId attemptId rows =
     (case sort_key (\<lambda>v. (bv_reservedAt v, bv_runId v))
             (filter (\<lambda>v. bv_graphId v = graphId \<and> bv_attemptId v = attemptId) rows) of
        [] \<Rightarrow> None
      | v # _ \<Rightarrow> Some v)"

definition same_key :: "string \<Rightarrow> string \<Rightarrow> string \<Rightarrow> string \<Rightarrow> reservation \<Rightarrow> bool" where
  "same_key graphId runId nodeId attemptId v \<longleftrightarrow>
     bv_graphId v = graphId \<and> bv_runId v = runId \<and> bv_nodeId v = nodeId \<and> bv_attemptId v = attemptId"

subsection \<open>Reserving one dispatch\<close>

definition remaining_of :: "node_budget_limits \<Rightarrow> budget_limit_kind \<Rightarrow> string \<Rightarrow> string \<Rightarrow> string \<Rightarrow> reservation list \<Rightarrow> rat" where
  "remaining_of limits k graphId runId nodeId rows =
     (case limit_field k limits of
        None \<Rightarrow> 0
      | Some l \<Rightarrow> l - used_sum k (node_rows graphId runId nodeId rows)
                    - reserved_sum k (node_rows graphId runId nodeId rows))"

definition headroom_of :: "node_budget_limits \<Rightarrow> string \<Rightarrow> string \<Rightarrow> string \<Rightarrow> reservation list \<Rightarrow> budget_limit_kind \<Rightarrow> bool" where
  "headroom_of limits graphId runId nodeId rows k =
     (case limit_field k limits of None \<Rightarrow> True | Some l \<Rightarrow> committedOf k graphId runId nodeId rows < l)"

text \<open>The conditional \<open>INSERT ... SELECT ... WHERE\<close>: the new table and the number of rows it added.\<close>

definition insert_reservation ::
  "reserve_input \<Rightarrow> node_budget_limits \<Rightarrow> reservation list \<Rightarrow> reservation list \<times> nat" where
  "insert_reservation i limits rows =
     (let g = rv_graphId i; r = rv_runId i; n = rv_nodeId i;
          rem = (\<lambda>k. remaining_of limits k g r n rows)
      in if \<not> list_ex (same_key g r n (rv_attemptId i)) rows \<and>
            list_all (headroom_of limits g r n rows) BUDGET_LIMIT_FIELDS \<and>
            (case rv_maxExecutions i of None \<Rightarrow> True | Some m \<Rightarrow> int (length (run_rows g r rows)) < m)
         then (rows @
           [\<lparr>bv_graphId = g, bv_runId = r, bv_nodeId = n, bv_attemptId = rv_attemptId i,
             bv_effectId = rv_effectId i, bv_checked = limits,
             bv_reserved = \<lparr>bu_executions = 1, bu_durationMs = rem DurationMs, bu_inputTokens = rem InputTokens,
               bu_outputTokens = rem OutputTokens, bu_costUsd = rem CostUsd\<rparr>,
             bv_status = Reserved, bv_reservedAt = rv_at i\<rparr>], 1)
         else (rows, 0))"

definition exhaustionOf ::
  "string \<Rightarrow> string \<Rightarrow> string \<Rightarrow> node_budget_limits \<Rightarrow> int option \<Rightarrow> reservation list \<Rightarrow> exhaustion list" where
  "exhaustionOf graphId runId nodeId limits maxExecutions rows =
     (case maxExecutions of
        None \<Rightarrow> []
      | Some m \<Rightarrow>
          (let committed = int (length (run_rows graphId runId rows))
           in if committed \<ge> m then [ExecutionsExhausted m committed] else [])) @
     concat (map (\<lambda>k.
       case limit_field k limits of
         None \<Rightarrow> []
       | Some l \<Rightarrow>
           (let committed = committedOf k graphId runId nodeId rows
            in if committed < l then [] else [DimensionExhausted k l committed])) BUDGET_LIMIT_FIELDS)"

definition reserveDispatch :: "reserve_input \<Rightarrow> budget_db \<Rightarrow> store_error + (reserve_result \<times> budget_db)" where
  "reserveDispatch i db =
     rbind (requireIdentifier (rv_graphId i) ''budget.graphId'') (\<lambda>graphId.
     rbind (requireIdentifier (rv_runId i) ''budget.runId'') (\<lambda>runId.
     rbind (requireIdentifier (rv_nodeId i) ''budget.nodeId'') (\<lambda>nodeId.
     rbind (requireIdentifier (rv_attemptId i) ''budget.attemptId'') (\<lambda>attemptId.
     rbind (requireIdentifier (rv_effectId i) ''budget.effectId'') (\<lambda>effectId.
     rbind (requireCount (rv_at i) ''budget.at'') (\<lambda>stamp.
     rbind (normalizedLimits (rv_limits i)) (\<lambda>limits.
     rbind (case rv_maxExecutions i of None \<Rightarrow> Inr None
            | Some m \<Rightarrow> rbind (requireCount m ''budget.maxExecutions'') (\<lambda>m. Inr (Some m))) (\<lambda>maxExecutions.
     rbind (requireRunId db graphId runId) (\<lambda>_.
       case insert_reservation (i\<lparr>rv_maxExecutions := maxExecutions\<rparr>) limits (bd_rows db) of
         (rows, changed) \<Rightarrow>
           if changed = 1 then
             (case readReservationIn graphId attemptId runId rows of
                None \<Rightarrow> Inl (InvalidRecord ''reservation could not be read back'')
              | Some v \<Rightarrow> Inr (ReserveReserved v, db\<lparr>bd_rows := rows\<rparr>))
           else
             (case readReservationIn graphId attemptId runId rows of
                Some v \<Rightarrow> Inr (ReserveReplayed v, db)
              | None \<Rightarrow> Inr (ReserveExhausted (exhaustionOf graphId runId nodeId limits maxExecutions rows), db))
     )))))))))"

subsection \<open>Reconciling measured usage\<close>

definition insert_late :: "usage_input \<Rightarrow> budget_usage \<Rightarrow> reservation list \<Rightarrow> reservation list" where
  "insert_late i used rows =
     rows @ [\<lparr>bv_graphId = ui_graphId i, bv_runId = ui_runId i, bv_nodeId = ui_nodeId i,
              bv_attemptId = ui_attemptId i, bv_effectId = ui_effectId i, bv_checked = NO_BUDGET_LIMITS,
              bv_reserved = ZERO_BUDGET_USAGE, bv_status = Reconciled (ui_at i) used, bv_reservedAt = ui_at i\<rparr>]"

definition is_reconciled :: "reservation \<Rightarrow> bool" where
  "is_reconciled v \<longleftrightarrow> (case bv_status v of Reconciled _ _ \<Rightarrow> True | _ \<Rightarrow> False)"

definition update_reconciled ::
  "string \<Rightarrow> string \<Rightarrow> string \<Rightarrow> string \<Rightarrow> string \<Rightarrow> budget_usage \<Rightarrow> int \<Rightarrow> reservation list \<Rightarrow> reservation list \<times> nat" where
  "update_reconciled graphId runId nodeId attemptId effectId used stamp rows =
     (let hit = (\<lambda>v. same_key graphId runId nodeId attemptId v \<and> \<not> is_reconciled v)
      in (map (\<lambda>v. if hit v then v\<lparr>bv_status := Reconciled stamp used, bv_effectId := effectId\<rparr> else v) rows,
          length (filter hit rows)))"

definition reconciledVerdict :: "reservation \<Rightarrow> budget_usage \<Rightarrow> usage_result" where
  "reconciledVerdict v used =
     (case bv_status v of
        Reconciled _ standing \<Rightarrow> if standing = used then UsageReplayed v else UsageIgnored v
      | _ \<Rightarrow> UsageIgnored v)"

definition read_usage :: "usage_input \<Rightarrow> store_error + budget_usage" where
  "read_usage i =
     rbind (case ui_executions i of None \<Rightarrow> Inr 1 | Some e \<Rightarrow> requireCount e ''budget.usage.executions'') (\<lambda>executions.
     rbind (requireAmount (ui_durationMs i) ''budget.usage.durationMs'') (\<lambda>d.
     rbind (requireAmount (ui_inputTokens i) ''budget.usage.inputTokens'') (\<lambda>t.
     rbind (requireAmount (ui_outputTokens i) ''budget.usage.outputTokens'') (\<lambda>oc.
     rbind (requireAmount (ui_costUsd i) ''budget.usage.costUsd'') (\<lambda>c.
       Inr \<lparr>bu_executions = nat executions, bu_durationMs = d, bu_inputTokens = t, bu_outputTokens = oc,
            bu_costUsd = c\<rparr>)))))"

text \<open>The work of the transaction, over checked arguments.\<close>

definition reconcile_in ::
  "usage_input \<Rightarrow> budget_usage \<Rightarrow> budget_db \<Rightarrow> store_error + (usage_result \<times> budget_db)" where
  "reconcile_in i used db =
     (case (case readReservationIn (ui_graphId i) (ui_attemptId i) (ui_runId i) (bd_rows db) of
               Some v \<Rightarrow> Some v
             | None \<Rightarrow> attemptRowOf (ui_graphId i) (ui_attemptId i) (bd_rows db)) of
         None \<Rightarrow>
           (let rows = insert_late i used (bd_rows db)
            in case readReservationIn (ui_graphId i) (ui_attemptId i) (ui_runId i) rows of
                 None \<Rightarrow> Inl (InvalidRecord ''late usage could not be read back'')
               | Some v \<Rightarrow> Inr (UsageRecordedLate v, db\<lparr>bd_rows := rows\<rparr>))
       | Some existing \<Rightarrow>
           if is_reconciled existing then Inr (reconciledVerdict existing used, db)
           else case update_reconciled (ui_graphId i) (bv_runId existing) (bv_nodeId existing) (ui_attemptId i)
                       (ui_effectId i) used (ui_at i) (bd_rows db) of
             (rows, changed) \<Rightarrow>
               if changed \<noteq> 1 then Inl (InvalidRecord ''could not be reconciled'')
               else (case readReservationIn (ui_graphId i) (ui_attemptId i) (bv_runId existing) rows of
                       None \<Rightarrow> Inl (InvalidRecord ''reconciled usage could not be read back'')
                     | Some v \<Rightarrow> Inr (UsageReconciled v, db\<lparr>bd_rows := rows\<rparr>)))"

definition reconcileUsage :: "usage_input \<Rightarrow> budget_db \<Rightarrow> store_error + (usage_result \<times> budget_db)" where
  "reconcileUsage i db =
     rbind (requireIdentifier (ui_graphId i) ''budget.graphId'') (\<lambda>graphId.
     rbind (requireIdentifier (ui_runId i) ''budget.runId'') (\<lambda>runId.
     rbind (requireIdentifier (ui_nodeId i) ''budget.nodeId'') (\<lambda>nodeId.
     rbind (requireIdentifier (ui_attemptId i) ''budget.attemptId'') (\<lambda>attemptId.
     rbind (requireIdentifier (ui_effectId i) ''budget.effectId'') (\<lambda>effectId.
     rbind (requireCount (ui_at i) ''budget.at'') (\<lambda>stamp.
     rbind (read_usage i) (\<lambda>used.
     rbind (requireRunId db graphId runId) (\<lambda>_.
       reconcile_in i used db))))))))"

subsection \<open>Releasing a claim\<close>

definition update_released ::
  "string \<Rightarrow> string \<Rightarrow> string \<Rightarrow> string \<Rightarrow> int \<Rightarrow> reservation list \<Rightarrow> reservation list \<times> nat" where
  "update_released graphId runId nodeId attemptId stamp rows =
     (let hit = (\<lambda>v. same_key graphId runId nodeId attemptId v \<and> bv_status v = Reserved)
      in (map (\<lambda>v. if hit v then v\<lparr>bv_status := Released stamp\<rparr> else v) rows, length (filter hit rows)))"

definition is_released :: "reservation \<Rightarrow> bool" where
  "is_released v \<longleftrightarrow> (case bv_status v of Released _ \<Rightarrow> True | _ \<Rightarrow> False)"

definition releaseReservation :: "release_input \<Rightarrow> budget_db \<Rightarrow> store_error + (release_result \<times> budget_db)" where
  "releaseReservation i db =
     rbind (requireIdentifier (li_graphId i) ''budget.graphId'') (\<lambda>graphId.
     rbind (requireIdentifier (li_runId i) ''budget.runId'') (\<lambda>runId.
     rbind (requireIdentifier (li_nodeId i) ''budget.nodeId'') (\<lambda>nodeId.
     rbind (requireIdentifier (li_attemptId i) ''budget.attemptId'') (\<lambda>attemptId.
     rbind (requireCount (li_at i) ''budget.at'') (\<lambda>stamp.
     rbind (requireRunId db graphId runId) (\<lambda>_.
       case update_released graphId runId nodeId attemptId stamp (bd_rows db) of
         (rows, changed) \<Rightarrow>
           (case readReservationIn graphId attemptId runId rows of
              None \<Rightarrow> Inr (ReleaseAbsent, db\<lparr>bd_rows := rows\<rparr>)
            | Some existing \<Rightarrow>
                if is_released existing \<and> changed = 1
                then Inr (ReleaseReleased existing, db\<lparr>bd_rows := rows\<rparr>)
                else Inr (ReleaseReplayed existing, db\<lparr>bd_rows := rows\<rparr>))
     ))))))"

subsection \<open>The accumulation a report reads\<close>

definition sum_usage :: "(reservation \<Rightarrow> nat) \<Rightarrow> (budget_limit_kind \<Rightarrow> reservation \<Rightarrow> rat) \<Rightarrow> reservation list \<Rightarrow> budget_usage" where
  "sum_usage ex amount rows =
     \<lparr>bu_executions = (\<Sum>v\<leftarrow>rows. ex v), bu_durationMs = (\<Sum>v\<leftarrow>rows. amount DurationMs v),
      bu_inputTokens = (\<Sum>v\<leftarrow>rows. amount InputTokens v), bu_outputTokens = (\<Sum>v\<leftarrow>rows. amount OutputTokens v),
      bu_costUsd = (\<Sum>v\<leftarrow>rows. amount CostUsd v)\<rparr>"

definition recorded_executions :: "reservation \<Rightarrow> nat" where
  "recorded_executions v = (case bv_status v of Reconciled _ used \<Rightarrow> bu_executions used | _ \<Rightarrow> 0)"

definition claimed_executions :: "reservation \<Rightarrow> nat" where
  "claimed_executions v = (if bv_status v = Reserved then bu_executions (bv_reserved v) else 0)"

definition budgetUsageOf :: "string \<Rightarrow> string option \<Rightarrow> budget_db \<Rightarrow> budget_node_facts list" where
  "budgetUsageOf graphId runId db =
     (case (case runId of Some r \<Rightarrow> Some r | None \<Rightarrow> bd_currentRun db graphId) of
        None \<Rightarrow> []
      | Some r \<Rightarrow>
          map (\<lambda>n. let rows = node_rows graphId r n (bd_rows db)
                   in \<lparr>nf_nodeId = n, nf_executions = length rows,
                       nf_used = sum_usage recorded_executions reconciled_amount rows,
                       nf_reserved = sum_usage claimed_executions claimed_amount rows,
                       nf_unknownUsageAttempts = length (filter is_released rows)\<rparr>)
            (sort (remdups (map bv_nodeId (run_rows graphId r (bd_rows db))))))"

subsection \<open>The checks return their argument\<close>

lemma require_simps [result_simps]:
  "requireIdentifier x f = Inr y \<longleftrightarrow> x \<noteq> [] \<and> y = x"
  "requireCount n f = Inr m \<longleftrightarrow> 0 \<le> n \<and> n \<le> max_safe \<and> m = n"
  "requireAmount q f = Inr p \<longleftrightarrow> 0 \<le> q \<and> p = q"
  "requireRunId db g r = Inr s \<longleftrightarrow> bd_currentRun db g = Some r \<and> s = r"
  by (auto simp: requireIdentifier_def requireCount_def requireAmount_def requireRunId_def split: option.splits)

lemma require_opt_amount_Inr [result_simps]: "require_opt_amount v f = Inr w \<longleftrightarrow> (\<forall>q. v = Some q \<longrightarrow> 0 \<le> q) \<and> w = v"
  by (cases v) (auto simp: require_opt_amount_def result_simps)

lemma normalizedLimits_Inr [result_simps]: "normalizedLimits l = Inr l' \<longleftrightarrow> nonneg_limits l \<and> l' = l"
proof -
  have "(\<forall>k v. limit_field k l = Some v \<longrightarrow> 0 \<le> v) \<longleftrightarrow>
      (\<forall>q. bl_durationMs l = Some q \<longrightarrow> 0 \<le> q) \<and> (\<forall>q. bl_inputTokens l = Some q \<longrightarrow> 0 \<le> q) \<and>
      (\<forall>q. bl_outputTokens l = Some q \<longrightarrow> 0 \<le> q) \<and> (\<forall>q. bl_costUsd l = Some q \<longrightarrow> 0 \<le> q)"
    by (auto elim: limit_field.elims) (metis limit_field.simps)+
  then show ?thesis
    by (auto simp: normalizedLimits_def result_simps nonneg_limits_def)
qed

subsection \<open>Committed amounts\<close>

lemma node_rows_append: "node_rows g r n (xs @ ys) = node_rows g r n xs @ node_rows g r n ys"
  by (simp add: node_rows_def run_rows_def)

lemma run_rows_append: "run_rows g r (xs @ ys) = run_rows g r xs @ run_rows g r ys"
  by (simp add: run_rows_def)

lemma committedOf_append:
  "committedOf k g r n (xs @ ys) = committedOf k g r n xs + committedOf k g r n ys"
  by (simp add: committedOf_def node_rows_append used_sum_def reserved_sum_def)

lemma committedOf_single:
  "committedOf k g r n [v] =
     (if bv_graphId v = g \<and> bv_runId v = r \<and> bv_nodeId v = n then reconciled_amount k v + claimed_amount k v else 0)"
  by (simp add: committedOf_def node_rows_def run_rows_def used_sum_def reserved_sum_def)

lemma remaining_committed:
  "limit_field k l = Some cap \<Longrightarrow> remaining_of l k g r n rows = cap - committedOf k g r n rows"
  by (simp add: remaining_of_def committedOf_def)

definition new_claim :: "reserve_input \<Rightarrow> reservation list \<Rightarrow> reservation" where
  "new_claim i rows =
     (let rem = (\<lambda>k. remaining_of (rv_limits i) k (rv_graphId i) (rv_runId i) (rv_nodeId i) rows)
      in \<lparr>bv_graphId = rv_graphId i, bv_runId = rv_runId i, bv_nodeId = rv_nodeId i,
          bv_attemptId = rv_attemptId i, bv_effectId = rv_effectId i, bv_checked = rv_limits i,
          bv_reserved = \<lparr>bu_executions = 1, bu_durationMs = rem DurationMs, bu_inputTokens = rem InputTokens,
               bu_outputTokens = rem OutputTokens, bu_costUsd = rem CostUsd\<rparr>,
          bv_status = Reserved, bv_reservedAt = rv_at i\<rparr>)"

lemma new_claim_fields [simp]:
  "bv_graphId (new_claim i rows) = rv_graphId i" "bv_runId (new_claim i rows) = rv_runId i"
  "bv_nodeId (new_claim i rows) = rv_nodeId i" "bv_attemptId (new_claim i rows) = rv_attemptId i"
  "bv_status (new_claim i rows) = Reserved"
  "reconciled_amount k (new_claim i rows) = 0"
  "claimed_amount k (new_claim i rows) = remaining_of (rv_limits i) k (rv_graphId i) (rv_runId i) (rv_nodeId i) rows"
  by (cases k; simp add: new_claim_def Let_def reconciled_amount_def claimed_amount_def)+

definition may_claim :: "reserve_input \<Rightarrow> reservation list \<Rightarrow> bool" where
  "may_claim i rows \<longleftrightarrow>
     \<not> list_ex (same_key (rv_graphId i) (rv_runId i) (rv_nodeId i) (rv_attemptId i)) rows \<and>
     (\<forall>k cap. limit_field k (rv_limits i) = Some cap \<longrightarrow>
        committedOf k (rv_graphId i) (rv_runId i) (rv_nodeId i) rows < cap) \<and>
     (\<forall>m. rv_maxExecutions i = Some m \<longrightarrow> int (length (run_rows (rv_graphId i) (rv_runId i) rows)) < m)"

lemma in_BUDGET_LIMIT_FIELDS [simp]: "k \<in> set BUDGET_LIMIT_FIELDS"
  by (cases k) (simp_all add: BUDGET_LIMIT_FIELDS_def)

lemma insert_reservation_closed:
  "insert_reservation i (rv_limits i) rows = (if may_claim i rows then (rows @ [new_claim i rows], 1) else (rows, 0))"
proof -
  have headroom: "list_all (headroom_of (rv_limits i) (rv_graphId i) (rv_runId i) (rv_nodeId i) rows) BUDGET_LIMIT_FIELDS
      \<longleftrightarrow> (\<forall>k cap. limit_field k (rv_limits i) = Some cap \<longrightarrow>
             committedOf k (rv_graphId i) (rv_runId i) (rv_nodeId i) rows < cap)"
    unfolding list_all_iff headroom_of_def by (simp add: Ball_def split: option.split)
  have count: "(case rv_maxExecutions i of None \<Rightarrow> True | Some m \<Rightarrow> int (length (run_rows (rv_graphId i) (rv_runId i) rows)) < m)
      \<longleftrightarrow> (\<forall>m. rv_maxExecutions i = Some m \<longrightarrow> int (length (run_rows (rv_graphId i) (rv_runId i) rows)) < m)"
    by (cases "rv_maxExecutions i") auto
  show ?thesis
    unfolding insert_reservation_def headroom count Let_def may_claim_def new_claim_def by simp
qed

text \<open>What a well-formed request is answered with, and the table it leaves.\<close>

definition valid_reserve :: "reserve_input \<Rightarrow> budget_db \<Rightarrow> bool" where
  "valid_reserve i db \<longleftrightarrow>
     rv_graphId i \<noteq> [] \<and> rv_runId i \<noteq> [] \<and> rv_nodeId i \<noteq> [] \<and> rv_attemptId i \<noteq> [] \<and> rv_effectId i \<noteq> [] \<and>
     0 \<le> rv_at i \<and> rv_at i \<le> max_safe \<and> nonneg_limits (rv_limits i) \<and>
     (\<forall>m. rv_maxExecutions i = Some m \<longrightarrow> 0 \<le> m \<and> m \<le> max_safe) \<and>
     bd_currentRun db (rv_graphId i) = Some (rv_runId i)"

lemma reserveDispatch_Inr:
  "reserveDispatch i db = Inr (res, db') \<longleftrightarrow>
     valid_reserve i db \<and>
     (case (may_claim i (bd_rows db),
            readReservationIn (rv_graphId i) (rv_attemptId i) (rv_runId i)
              (if may_claim i (bd_rows db) then bd_rows db @ [new_claim i (bd_rows db)] else bd_rows db)) of
        (True, Some v) \<Rightarrow> res = ReserveReserved v \<and> db' = db\<lparr>bd_rows := bd_rows db @ [new_claim i (bd_rows db)]\<rparr>
      | (True, None) \<Rightarrow> False
      | (False, Some v) \<Rightarrow> res = ReserveReplayed v \<and> db' = db
      | (False, None) \<Rightarrow>
          res = ReserveExhausted (exhaustionOf (rv_graphId i) (rv_runId i) (rv_nodeId i) (rv_limits i)
                  (rv_maxExecutions i) (bd_rows db)) \<and> db' = db)"
proof -
  have maxe: "(case rv_maxExecutions i of None \<Rightarrow> Inr None
      | Some m \<Rightarrow> rbind (requireCount m f) (\<lambda>m. Inr (Some m))) = Inr me \<longleftrightarrow>
      (\<forall>m. rv_maxExecutions i = Some m \<longrightarrow> 0 \<le> m \<and> m \<le> max_safe) \<and> me = rv_maxExecutions i" for f me
    by (cases "rv_maxExecutions i") (auto simp: result_simps)
  have same: "i\<lparr>rv_maxExecutions := rv_maxExecutions i\<rparr> = i" by simp
  show ?thesis
    unfolding reserveDispatch_def valid_reserve_def
    by (auto simp: result_simps maxe insert_reservation_closed split: option.splits if_splits)
qed

subsection \<open>The claim takes what is left, and nothing else is granted\<close>

lemma readReservationIn_append:
  "readReservationIn g a r (xs @ ys) =
     (case readReservationIn g a r xs of None \<Rightarrow> readReservationIn g a r ys | Some v \<Rightarrow> Some v)"
  by (induction xs) (auto simp: readReservationIn_def)

lemma reserve_reserved:
  assumes "reserveDispatch i db = Inr (ReserveReserved v, db')"
  shows "may_claim i (bd_rows db)" and "db' = db\<lparr>bd_rows := bd_rows db @ [new_claim i (bd_rows db)]\<rparr>"
    and "valid_reserve i db"
  using assms by (auto simp: reserveDispatch_Inr split: bool.splits option.splits)

lemma reserve_other:
  assumes "reserveDispatch i db = Inr (res, db')" and "\<nexists>v. res = ReserveReserved v"
  shows "db' = db" and "\<not> may_claim i (bd_rows db)"
  using assms by (auto simp: reserveDispatch_Inr split: bool.splits option.splits)

lemma committed_after_claim:
  assumes "limit_field k (rv_limits i) = Some cap"
  shows "committedOf k (rv_graphId i) (rv_runId i) (rv_nodeId i) (rows @ [new_claim i rows]) = cap"
  by (simp add: committedOf_append committedOf_single remaining_committed [OF assms])

lemma exhaustionOf_iff:
  "ex \<in> set (exhaustionOf g r n l me rows) \<longleftrightarrow>
     (\<exists>m. me = Some m \<and> m \<le> int (length (run_rows g r rows)) \<and>
        ex = ExecutionsExhausted m (int (length (run_rows g r rows)))) \<or>
     (\<exists>k cap. limit_field k l = Some cap \<and> cap \<le> committedOf k g r n rows \<and>
        ex = DimensionExhausted k cap (committedOf k g r n rows))"
proof -
  have dims: "ex \<in> set (case limit_field k l of None \<Rightarrow> []
       | Some c \<Rightarrow> let committed = committedOf k g r n rows in if committed < c then [] else [DimensionExhausted k c committed])
      \<longleftrightarrow> (\<exists>cap. limit_field k l = Some cap \<and> cap \<le> committedOf k g r n rows \<and>
        ex = DimensionExhausted k cap (committedOf k g r n rows))" for k
    by (cases "limit_field k l") (auto simp: Let_def)
  have "ex \<in> set (exhaustionOf g r n l me rows) \<longleftrightarrow>
      ex \<in> set (case me of None \<Rightarrow> [] | Some m \<Rightarrow> let committed = int (length (run_rows g r rows))
         in if committed \<ge> m then [ExecutionsExhausted m committed] else []) \<or>
      (\<exists>k cap. limit_field k l = Some cap \<and> cap \<le> committedOf k g r n rows \<and>
        ex = DimensionExhausted k cap (committedOf k g r n rows))"
    unfolding exhaustionOf_def set_append Un_iff set_concat set_map UN_iff dims [symmetric]
    by auto
  moreover have "ex \<in> set (case me of None \<Rightarrow> [] | Some m \<Rightarrow> let committed = int (length (run_rows g r rows))
         in if committed \<ge> m then [ExecutionsExhausted m committed] else []) \<longleftrightarrow>
      (\<exists>m. me = Some m \<and> m \<le> int (length (run_rows g r rows)) \<and>
        ex = ExecutionsExhausted m (int (length (run_rows g r rows))))"
    by (cases me) (auto simp: Let_def)
  ultimately show ?thesis by simp
qed

lemma reserve_exhausted_nonempty:
  assumes "reserveDispatch i db = Inr (ReserveExhausted exs, db')"
  shows "exs \<noteq> []" and "db' = db"
    and "set exs = set (exhaustionOf (rv_graphId i) (rv_runId i) (rv_nodeId i) (rv_limits i) (rv_maxExecutions i) (bd_rows db))"
proof -
  from assms have no: "\<not> may_claim i (bd_rows db)" "db' = db"
      "readReservationIn (rv_graphId i) (rv_attemptId i) (rv_runId i) (bd_rows db) = None"
      "exs = exhaustionOf (rv_graphId i) (rv_runId i) (rv_nodeId i) (rv_limits i) (rv_maxExecutions i) (bd_rows db)"
    by (auto simp: reserveDispatch_Inr split: bool.splits option.splits)
  then show "db' = db"
    "set exs = set (exhaustionOf (rv_graphId i) (rv_runId i) (rv_nodeId i) (rv_limits i) (rv_maxExecutions i) (bd_rows db))"
    by simp_all
  from no(3) have "\<not> list_ex (same_key (rv_graphId i) (rv_runId i) (rv_nodeId i) (rv_attemptId i)) (bd_rows db)"
    by (auto simp: readReservationIn_def find_None_all list_ex_iff same_key_def)
  with no(1) have "\<exists>ex. ex \<in> set exs"
    unfolding no(4) exhaustionOf_iff may_claim_def by (metis not_le)
  then show "exs \<noteq> []" by auto
qed

text \<open>A second attempt of the node is refused while the first claim stands.\<close>

lemma reserve_excludes_second:
  assumes "reserveDispatch i db = Inr (ReserveReserved v, db')"
    and "limit_field k (rv_limits i) = Some cap"
    and "rv_graphId j = rv_graphId i" "rv_runId j = rv_runId i" "rv_nodeId j = rv_nodeId i"
      "rv_limits j = rv_limits i"
  shows "\<not> may_claim j (bd_rows db')"
proof -
  have "committedOf k (rv_graphId j) (rv_runId j) (rv_nodeId j) (bd_rows db') = cap"
    using committed_after_claim [OF assms(2)] reserve_reserved(2) [OF assms(1)] assms(3-5) by simp
  with assms(2,6) show ?thesis unfolding may_claim_def by (metis less_irrefl)
qed

subsection \<open>The table invariant\<close>

definition row_key :: "reservation \<Rightarrow> string \<times> string \<times> string \<times> string" where
  "row_key v = (bv_graphId v, bv_runId v, bv_nodeId v, bv_attemptId v)"

definition nonneg_usage :: "budget_usage \<Rightarrow> bool" where
  "nonneg_usage u \<longleftrightarrow> (\<forall>k. 0 \<le> usage_field k u)"

definition ok_row :: "reservation \<Rightarrow> bool" where
  "ok_row v \<longleftrightarrow> nonneg_usage (bv_reserved v) \<and>
     (case bv_status v of Reconciled _ used \<Rightarrow> nonneg_usage used | _ \<Rightarrow> True)"

definition wf_rows :: "reservation list \<Rightarrow> bool" where
  "wf_rows rows \<longleftrightarrow> distinct (map row_key rows) \<and> list_all ok_row rows"

lemma same_key_row_key: "same_key g r n a v \<longleftrightarrow> row_key v = (g, r, n, a)"
  by (auto simp: same_key_def row_key_def)

lemma nonneg_usage_iff:
  "nonneg_usage u \<longleftrightarrow> 0 \<le> bu_durationMs u \<and> 0 \<le> bu_inputTokens u \<and> 0 \<le> bu_outputTokens u \<and> 0 \<le> bu_costUsd u"
proof
  assume "nonneg_usage u"
  then have "0 \<le> usage_field k u" for k by (simp add: nonneg_usage_def)
  from this [of DurationMs] this [of InputTokens] this [of OutputTokens] this [of CostUsd]
  show "0 \<le> bu_durationMs u \<and> 0 \<le> bu_inputTokens u \<and> 0 \<le> bu_outputTokens u \<and> 0 \<le> bu_costUsd u" by simp
next
  assume "0 \<le> bu_durationMs u \<and> 0 \<le> bu_inputTokens u \<and> 0 \<le> bu_outputTokens u \<and> 0 \<le> bu_costUsd u"
  then show "nonneg_usage u" unfolding nonneg_usage_def by (metis usage_field.elims)
qed

lemma new_claim_ok:
  assumes "may_claim i rows"
  shows "ok_row (new_claim i rows)"
proof -
  have "0 \<le> remaining_of (rv_limits i) k (rv_graphId i) (rv_runId i) (rv_nodeId i) rows" for k
  proof (cases "limit_field k (rv_limits i)")
    case None
    then show ?thesis by (simp add: remaining_of_def)
  next
    case (Some cap)
    with assms have "committedOf k (rv_graphId i) (rv_runId i) (rv_nodeId i) rows < cap"
      by (auto simp: may_claim_def)
    with Some show ?thesis by (simp add: remaining_committed)
  qed
  then show ?thesis by (simp add: ok_row_def new_claim_def Let_def nonneg_usage_iff)
qed

lemma reserve_wf:
  assumes "wf_rows (bd_rows db)" and "reserveDispatch i db = Inr (res, db')"
  shows "wf_rows (bd_rows db')"
proof (cases "\<exists>v. res = ReserveReserved v")
  case True
  then obtain v where "reserveDispatch i db = Inr (ReserveReserved v, db')" using assms(2) by auto
  note r = reserve_reserved [OF this]
  from r(1) have "row_key (new_claim i (bd_rows db)) \<notin> row_key ` set (bd_rows db)"
    by (auto simp: may_claim_def list_ex_iff same_key_row_key row_key_def)
  with r(2) new_claim_ok [OF r(1)] assms(1) show ?thesis by (simp add: wf_rows_def)
next
  case False
  with reserve_other(1) [OF assms(2)] assms(1) show ?thesis by simp
qed

lemma read_usage_nonneg: "read_usage i = Inr u \<Longrightarrow> nonneg_usage u"
  by (auto simp: read_usage_def result_simps nonneg_usage_iff)

lemma attemptRowOf_None:
  "attemptRowOf g a rows = None \<longleftrightarrow> (\<forall>v \<in> set rows. \<not> (bv_graphId v = g \<and> bv_attemptId v = a))"
proof -
  have "attemptRowOf g a rows = None \<longleftrightarrow>
      sort_key (\<lambda>v. (bv_reservedAt v, bv_runId v)) (filter (\<lambda>v. bv_graphId v = g \<and> bv_attemptId v = a) rows) = []"
    by (simp add: attemptRowOf_def split: list.split)
  also have "\<dots> \<longleftrightarrow> set (filter (\<lambda>v. bv_graphId v = g \<and> bv_attemptId v = a) rows) = {}"
    by (subst set_empty [symmetric]) (simp only: set_sort)
  finally show ?thesis by (auto simp: filter_empty_conv)
qed

lemma reconcileUsage_db:
  assumes "reconcileUsage i db = Inr (res, db')"
  shows "db' = db \<or>
    (\<exists>used. nonneg_usage used \<and> db' = db\<lparr>bd_rows := insert_late i used (bd_rows db)\<rparr> \<and>
       (\<forall>v \<in> set (bd_rows db). \<not> (bv_graphId v = ui_graphId i \<and> bv_attemptId v = ui_attemptId i))) \<or>
    (\<exists>used r n. nonneg_usage used \<and> db' = db\<lparr>bd_rows := fst (update_reconciled (ui_graphId i) r n (ui_attemptId i)
         (ui_effectId i) used (ui_at i) (bd_rows db))\<rparr>)"
proof -
  let ?E = "case readReservationIn (ui_graphId i) (ui_attemptId i) (ui_runId i) (bd_rows db) of
               Some v \<Rightarrow> Some v
             | None \<Rightarrow> attemptRowOf (ui_graphId i) (ui_attemptId i) (bd_rows db)"
  from assms obtain used where used: "read_usage i = Inr used" and body: "reconcile_in i used db = Inr (res, db')"
    unfolding reconcileUsage_def rbind_eq_Inr by blast
  note nonneg = read_usage_nonneg [OF used]
  show ?thesis
  proof (cases ?E)
    case None
    then have "attemptRowOf (ui_graphId i) (ui_attemptId i) (bd_rows db) = None"
      by (cases "readReservationIn (ui_graphId i) (ui_attemptId i) (ui_runId i) (bd_rows db)") auto
    moreover have "db' = db\<lparr>bd_rows := insert_late i used (bd_rows db)\<rparr>"
      using body unfolding reconcile_in_def None by (simp add: Let_def split: option.splits)
    ultimately show ?thesis using nonneg by (auto simp: attemptRowOf_None)
  next
    case (Some existing)
    show ?thesis
    proof (cases "is_reconciled existing")
      case True
      then show ?thesis using body unfolding reconcile_in_def Some by simp
    next
      case False
      obtain rows c where upd: "update_reconciled (ui_graphId i) (bv_runId existing) (bv_nodeId existing) (ui_attemptId i)
          (ui_effectId i) used (ui_at i) (bd_rows db) = (rows, c)" by fastforce
      with body False have "db' = db\<lparr>bd_rows := rows\<rparr>"
        unfolding reconcile_in_def Some by (simp split: option.splits if_splits)
      then have "db' = db\<lparr>bd_rows := fst (update_reconciled (ui_graphId i) (bv_runId existing) (bv_nodeId existing)
          (ui_attemptId i) (ui_effectId i) used (ui_at i) (bd_rows db))\<rparr>"
        using upd by simp
      with nonneg show ?thesis by blast
    qed
  qed
qed

lemma update_reconciled_rows:
  "fst (update_reconciled g r n a e used t rows) =
     map (\<lambda>v. if same_key g r n a v \<and> \<not> is_reconciled v
              then v\<lparr>bv_status := Reconciled t used, bv_effectId := e\<rparr> else v) rows"
  by (simp add: update_reconciled_def Let_def)

lemma map_row_key_update:
  "map row_key (map (\<lambda>v. if P v then v\<lparr>bv_status := s, bv_effectId := e\<rparr> else v) rows) = map row_key rows"
  "map row_key (map (\<lambda>v. if P v then v\<lparr>bv_status := s\<rparr> else v) rows) = map row_key rows"
  by (induction rows) (auto simp: row_key_def)

lemma reconcile_wf:
  assumes "wf_rows (bd_rows db)" and "reconcileUsage i db = Inr (res, db')"
  shows "wf_rows (bd_rows db')"
  using reconcileUsage_db [OF assms(2)]
proof (elim disjE exE conjE)
  fix used
  assume used: "nonneg_usage used" and db': "db' = db\<lparr>bd_rows := insert_late i used (bd_rows db)\<rparr>"
    and fresh: "\<forall>v \<in> set (bd_rows db). \<not> (bv_graphId v = ui_graphId i \<and> bv_attemptId v = ui_attemptId i)"
  have "nonneg_usage ZERO_BUDGET_USAGE" by (simp add: nonneg_usage_iff ZERO_BUDGET_USAGE_def)
  with used db' fresh assms(1) show ?thesis
    by (auto simp: wf_rows_def insert_late_def row_key_def ok_row_def)
next
  fix used r n
  assume used: "nonneg_usage used" and db': "db' = db\<lparr>bd_rows := fst (update_reconciled (ui_graphId i) r n
      (ui_attemptId i) (ui_effectId i) used (ui_at i) (bd_rows db))\<rparr>"
  have "list_all ok_row (bd_rows db')"
    using used assms(1) by (auto simp: db' update_reconciled_rows wf_rows_def list_all_iff ok_row_def)
  moreover have "distinct (map row_key (bd_rows db'))"
    using assms(1) unfolding db' update_reconciled_rows by (simp add: map_row_key_update wf_rows_def del: map_map)
  ultimately show ?thesis by (simp add: wf_rows_def)
qed (use assms(1) in simp)

lemma releaseReservation_db:
  assumes "releaseReservation i db = Inr (res, db')"
  shows "bd_currentRun db' = bd_currentRun db"
    and "bd_rows db' = map (\<lambda>v. if same_key (li_graphId i) (li_runId i) (li_nodeId i) (li_attemptId i) v \<and> bv_status v = Reserved
              then v\<lparr>bv_status := Released (li_at i)\<rparr> else v) (bd_rows db)"
  using assms
  by (auto simp: releaseReservation_def result_simps update_released_def Let_def split: option.splits if_splits)

lemma release_wf:
  assumes "wf_rows (bd_rows db)" and "releaseReservation i db = Inr (res, db')"
  shows "wf_rows (bd_rows db')"
proof -
  have "list_all ok_row (bd_rows db')"
    using assms(1) by (auto simp: releaseReservation_db(2) [OF assms(2)] wf_rows_def list_all_iff ok_row_def)
  moreover have "distinct (map row_key (bd_rows db'))"
    using assms(1) unfolding releaseReservation_db(2) [OF assms(2)]
    by (simp add: map_row_key_update wf_rows_def del: map_map)
  ultimately show ?thesis by (simp add: wf_rows_def)
qed

subsection \<open>Histories of the table\<close>

inductive budget_step :: "budget_db \<Rightarrow> budget_db \<Rightarrow> bool" where
  reserve: "reserveDispatch i db = Inr (res, db') \<Longrightarrow> budget_step db db'"
| reconcile: "reconcileUsage j db = Inr (res', db') \<Longrightarrow> budget_step db db'"
| release: "releaseReservation l db = Inr (res'', db') \<Longrightarrow> budget_step db db'"
| next_run: "budget_step db (db\<lparr>bd_currentRun := (bd_currentRun db)(g \<mapsto> r)\<rparr>)"

lemma budget_step_wf: "budget_step db db' \<Longrightarrow> wf_rows (bd_rows db) \<Longrightarrow> wf_rows (bd_rows db')"
  by (induction rule: budget_step.induct) (auto intro: reserve_wf reconcile_wf release_wf)

lemma reserve_rows:
  assumes "reserveDispatch i db = Inr (res, db')"
  shows "\<exists>new. bd_rows db' = bd_rows db @ new"
proof (cases "\<exists>v. res = ReserveReserved v")
  case True
  then show ?thesis using assms reserve_reserved(2) by fastforce
next
  case False
  then show ?thesis using reserve_other(1) [OF assms] by auto
qed

lemma budget_step_keeps_facts:
  assumes "budget_step db db'" and "v \<in> set (bd_rows db)" and "is_reconciled v"
  shows "v \<in> set (bd_rows db')"
  using assms
proof (induction rule: budget_step.induct)
  case (reserve i db res db')
  then show ?case using reserve_rows by fastforce
next
  case (reconcile j db res' db')
  then show ?case using reconcileUsage_db [OF reconcile(1)]
    by (auto simp: insert_late_def update_reconciled_rows image_iff intro!: bexI [of _ v])
next
  case (release l db res'' db')
  have "bv_status v \<noteq> Reserved" using release.prems(2) by (auto simp: is_reconciled_def)
  then show ?case using release.prems(1) releaseReservation_db(2) [OF release(1)]
    by (auto simp: image_iff intro!: bexI [of _ v])
qed simp

lemma budget_step_keeps_rows:
  assumes "budget_step db db'"
  shows "row_key ` set (bd_rows db) \<subseteq> row_key ` set (bd_rows db')"
  using assms
proof (induction rule: budget_step.induct)
  case (reserve i db res db')
  then show ?case using reserve_rows by fastforce
next
  case (reconcile j db res' db')
  have keys: "map row_key (fst (update_reconciled g r n a e used t rows)) = map row_key rows" for g r n a e used t rows
    unfolding update_reconciled_rows by (rule map_row_key_update(1))
  have "row_key ` set (fst (update_reconciled g r n a e used t rows)) = row_key ` set rows" for g r n a e used t rows
    using arg_cong [OF keys, of set] by simp
  then show ?case using reconcileUsage_db [OF reconcile]
    by (elim disjE exE conjE) (simp_all add: insert_late_def subset_insertI)
next
  case (release l db res'' db')
  have "map row_key (bd_rows db') = map row_key (bd_rows db)"
    unfolding releaseReservation_db(2) [OF release] by (rule map_row_key_update(2))
  then have "row_key ` set (bd_rows db') = row_key ` set (bd_rows db)" by (metis set_map)
  then show ?case by simp
qed simp

definition empty_budget_db :: budget_db where
  "empty_budget_db = \<lparr>bd_rows = [], bd_currentRun = Map.empty\<rparr>"

lemma budget_history_wf: "budget_step\<^sup>*\<^sup>* empty_budget_db db \<Longrightarrow> wf_rows (bd_rows db)"
proof (induction rule: rtranclp_induct)
  case base
  show ?case by (simp add: empty_budget_db_def wf_rows_def)
qed (rule budget_step_wf)

lemma budget_history_facts:
  "budget_step\<^sup>*\<^sup>* db db' \<Longrightarrow> v \<in> set (bd_rows db) \<Longrightarrow> is_reconciled v \<Longrightarrow> v \<in> set (bd_rows db')"
  by (induction rule: rtranclp_induct) (auto intro: budget_step_keeps_facts)

end
