(* ===== verification/RunStart.thy ===== *)
theory RunStart
  imports Reducer BudgetTables
begin

text \<open>
  Starting a run (\<open>graph/outcome/runtime.ts\<close>, \<open>start\<close> and \<open>mintRunInTransaction\<close>) and the budget gate of a
  dispatch (\<open>graph/outcome/runtime-budget.ts\<close>, \<open>reserveDispatchIn\<close>): one pass over the plan's nodes that
  binds, claims and mints an attempt for every entry node and records every other node as pending.

  The transaction's substrate is its budget table, absent when the substrate exposes no budget
  surface; the rows the run identity, the state snapshot and the effects are written to are the
  returned values. The preflight of the runtime, the control-stop check and the existing-snapshot
  check run before this code and are not modelled. A failed start returns an error and no state:
  the transaction is rolled back as a whole.
\<close>

subsection \<open>The budget gate of one dispatch\<close>

datatype budget_gate_refusal = BudgetUnavailable | BudgetExhausted "exhaustion list"

datatype start_error =
    NoEntryNode
  | StartInputBlocked "input_refusal list"
  | StartBudgetRefused budget_gate_refusal
  | StartStoreError store_error
  | StartMint mint_error

definition dispatchEffectIdOf :: "string \<Rightarrow> string" where
  "dispatchEffectIdOf attemptId = ''dispatch:'' @ attemptId"

definition budgetLimits :: "compiled_plan \<Rightarrow> (string \<rightharpoonup> node_budget_limits)" where
  "budgetLimits plan =
     foldl (\<lambda>limits n. case nodeBudgetLimitsOf (cn_budget n) of
              Inl _ \<Rightarrow> limits | Inr l \<Rightarrow> limits(cn_id n \<mapsto> l)) Map.empty (cp_nodes plan)"

definition limitsOfNode :: "compiled_plan \<Rightarrow> string \<Rightarrow> node_budget_limits" where
  "limitsOfNode plan nodeId = (case budgetLimits plan nodeId of None \<Rightarrow> NO_BUDGET_LIMITS | Some l \<Rightarrow> l)"

text \<open>
  \<open>plan.budget?.max_executions\<close>. A run budget this reader refuses is refused by the runtime's budget
  capability before any run starts.
\<close>

definition maxExecutionsOf :: "compiled_plan \<Rightarrow> int option" where
  "maxExecutionsOf plan =
     (case readRunBudget (cp_budget plan) of
        Inr (Some spec) \<Rightarrow> map_option int (rb_max_executions spec)
      | _ \<Rightarrow> None)"

definition reserve_request :: "compiled_plan \<Rightarrow> string \<Rightarrow> string \<Rightarrow> string \<Rightarrow> int \<Rightarrow> reserve_input" where
  "reserve_request plan runId nodeId attemptId stamp =
     \<lparr>rv_maxExecutions = maxExecutionsOf plan, rv_graphId = cp_graphId plan, rv_runId = runId,
      rv_nodeId = nodeId, rv_attemptId = attemptId, rv_effectId = dispatchEffectIdOf attemptId,
      rv_limits = limitsOfNode plan nodeId, rv_at = stamp\<rparr>"

definition reserveDispatchIn ::
  "compiled_plan \<Rightarrow> string \<Rightarrow> string \<Rightarrow> string \<Rightarrow> int \<Rightarrow> budget_db option \<Rightarrow> start_error + budget_db option" where
  "reserveDispatchIn plan runId nodeId attemptId stamp surface =
     (case surface of
        None \<Rightarrow>
          if \<not> hasBudgetLimits (limitsOfNode plan nodeId) \<and> maxExecutionsOf plan = None then Inr None
          else Inl (StartBudgetRefused BudgetUnavailable)
      | Some db \<Rightarrow>
          (case reserveDispatch (reserve_request plan runId nodeId attemptId stamp) db of
             Inl e \<Rightarrow> Inl (StartStoreError e)
           | Inr (ReserveExhausted exs, _) \<Rightarrow> Inl (StartBudgetRefused (BudgetExhausted exs))
           | Inr (_, db') \<Rightarrow> Inr (Some db')))"

definition releaseDispatchClaim ::
  "compiled_plan \<Rightarrow> string \<Rightarrow> string \<Rightarrow> string \<Rightarrow> int \<Rightarrow> budget_db option \<Rightarrow> store_error + budget_db option" where
  "releaseDispatchClaim plan runId nodeId attemptId stamp surface =
     (case surface of
        None \<Rightarrow> Inr None
      | Some db \<Rightarrow>
          rbind (releaseReservation \<lparr>li_graphId = cp_graphId plan, li_runId = runId, li_nodeId = nodeId,
                   li_attemptId = attemptId, li_at = stamp\<rparr> db) (\<lambda>(_, db'). Inr (Some db')))"

subsection \<open>Minting a run\<close>

record dispatch_target =
  dt_graphId :: string
  dt_planRevision :: string
  dt_nodeId :: string
  dt_attemptId :: string
  dt_agent :: string
  dt_prompt :: string
  dt_inputs :: "resolved_input list"

record pending_effect =
  pe_graphId :: string
  pe_effectId :: string
  pe_attemptId :: string
  pe_payload :: dispatch_target
  pe_createdAt :: int

record start_env =
  se_sha :: hash_hex
  se_plan :: compiled_plan
  se_reads :: ledger_reads
  se_mint :: credential_source
  se_stamp :: int
  se_runId :: string
  se_identity :: "host_identity option"

record mint_state =
  ms_nodes :: "node_state list"
  ms_attemptSeq :: nat
  ms_dispatched :: "dispatch_intent list"
  ms_effects :: "pending_effect list"
  ms_budget :: "budget_db option"

definition initial_progress :: "compiled_plan \<Rightarrow> (string \<times> loop_progress) list" where
  "initial_progress plan =
     foldl (\<lambda>acc g. case clg_progress g of
         None \<Rightarrow> acc
       | Some policy \<Rightarrow>
           AList.update (clg_id g)
             \<lparr>lp_loopGroupId = clg_id g, lp_evaluator = cpp_evaluator policy, lp_version = cpp_version policy,
              lp_subject = cpp_subject policy, lp_unchanged = 0, lp_baseline = None\<rparr> acc)
       [] (cp_loopGroups plan)"

text \<open>One entry node: bind its inputs, claim the dispatch, mint the credential, record the attempt.\<close>

definition mint_entry :: "start_env \<Rightarrow> compiled_node \<Rightarrow> mint_state \<Rightarrow> start_error + mint_state" where
  "mint_entry env node m =
     (let plan = se_plan env;
          attemptSeq = ms_attemptSeq m + 1;
          attemptId = attempt_id (cn_id node) attemptSeq
      in case assembleDownstreamInput (inputs_of node) (\<lambda>_. None)
                (acceptedResultReaderOf (cp_graphId plan) (se_reads env) None) [] of
           InputBlocked refusals \<Rightarrow> Inl (StartInputBlocked refusals)
         | InputResolved entries \<Rightarrow>
             rbind (reserveDispatchIn plan (se_runId env) (cn_id node) attemptId (se_stamp env) (ms_budget m)) (\<lambda>budget.
             (case mintAttemptCredential (se_mint env)
                     (attemptCredentialBinding
                        \<lparr>ai_graphId = cp_graphId plan, ai_nodeId = cn_id node, ai_attemptId = attemptId,
                         ai_planRevision = cp_planRevision plan\<rparr>) of
                Inl e \<Rightarrow> Inl (StartMint e)
              | Inr credential \<Rightarrow>
                  Inr \<lparr>ms_nodes = ms_nodes m @
                         [DispatchedNode (cn_id node) attemptId attemptSeq
                            (attemptCredentialDigest (se_sha env) credential) (se_identity env) (se_stamp env)
                            [] (Some entries) None],
                       ms_attemptSeq = attemptSeq,
                       ms_dispatched = ms_dispatched m @
                         [\<lparr>di_nodeId = cn_id node, di_attemptId = attemptId, di_agent = cn_agent node,
                           di_prompt = cn_prompt node, di_credential = credential, di_inputs = entries\<rparr>],
                       ms_effects = ms_effects m @
                         [\<lparr>pe_graphId = cp_graphId plan, pe_effectId = dispatchEffectIdOf attemptId,
                           pe_attemptId = attemptId,
                           pe_payload = \<lparr>dt_graphId = cp_graphId plan, dt_planRevision = cp_planRevision plan,
                             dt_nodeId = cn_id node, dt_attemptId = attemptId, dt_agent = cn_agent node,
                             dt_prompt = cn_prompt node, dt_inputs = entries\<rparr>,
                           pe_createdAt = se_stamp env\<rparr>],
                       ms_budget = budget\<rparr>)))"

fun mint_nodes :: "start_env \<Rightarrow> string list \<Rightarrow> compiled_node list \<Rightarrow> mint_state \<Rightarrow> start_error + mint_state" where
  "mint_nodes env entryIds [] m = Inr m"
| "mint_nodes env entryIds (node # rest) m =
     (if cn_id node \<notin> set entryIds
      then mint_nodes env entryIds rest (m\<lparr>ms_nodes := ms_nodes m @ [PendingNode (cn_id node) [] None]\<rparr>)
      else rbind (mint_entry env node m) (mint_nodes env entryIds rest))"

text \<open>\<open>mintRun\<close> keeps the current run an earlier writer recorded.\<close>

definition mint_run_row :: "string \<Rightarrow> string \<Rightarrow> budget_db option \<Rightarrow> budget_db option" where
  "mint_run_row graphId runId surface =
     map_option (\<lambda>db. case bd_currentRun db graphId of
         None \<Rightarrow> db\<lparr>bd_currentRun := (bd_currentRun db)(graphId \<mapsto> runId)\<rparr>
       | Some _ \<Rightarrow> db) surface"

record run_start =
  rs_state :: graph_state
  rs_dispatched :: "dispatch_intent list"
  rs_effects :: "pending_effect list"
  rs_budget :: "budget_db option"

definition mintRunInTransaction :: "start_env \<Rightarrow> nat \<Rightarrow> budget_db option \<Rightarrow> start_error + run_start" where
  "mintRunInTransaction env fromAttemptSeq surface =
     (let plan = se_plan env;
          entryIds = js_set (map cn_id (entryNodesOf plan))
      in rbind (mint_nodes env entryIds (cp_nodes plan)
                  \<lparr>ms_nodes = [], ms_attemptSeq = fromAttemptSeq, ms_dispatched = [], ms_effects = [],
                   ms_budget = mint_run_row (cp_graphId plan) (se_runId env) surface\<rparr>) (\<lambda>m.
         Inr \<lparr>rs_state =
                \<lparr>gs_bodyVersion = CURRENT_OUTCOME_STATE_BODY, gs_graphId = cp_graphId plan,
                 gs_planRevision = cp_planRevision plan, gs_phase = Executing, gs_nodes = ms_nodes m,
                 gs_loopTraversals = [], gs_attemptSeq = ms_attemptSeq m, gs_stop = None,
                 gs_loopProgress = Some (initial_progress plan)\<rparr>,
              rs_dispatched = ms_dispatched m, rs_effects = ms_effects m, rs_budget = ms_budget m\<rparr>))"

definition startRun :: "start_env \<Rightarrow> budget_db option \<Rightarrow> start_error + run_start" where
  "startRun env surface =
     (if entryNodesOf (se_plan env) = [] then Inl NoEntryNode
      else mintRunInTransaction env 0 surface)"

end
