(* ===== verification/StateCodec.thy ===== *)
theory StateCodec
  imports Reducer
begin

text \<open>
  The persisted form of a run state (\<open>graph/outcome/state-codec.ts\<close>): the registry of body versions,
  the strict reader of every part of a body, the corroboration of a recorded stop against the node
  entries and the counters, and the record the writer stores.

  The encoders spell out the JavaScript object a state is; the store's own JSON text is not
  modelled. A diagnostic is represented by a short name of the check that failed, so the position
  arguments (\<open>where\<close>, \<open>index\<close>) that only enter diagnostics are dropped. The \<open>default\<close> branches of the
  source's exhaustive switches are unreachable by typing and have no counterpart.
\<close>

subsection \<open>Vocabularies and layouts\<close>

fun node_status_text :: "node_status \<Rightarrow> string" where
  "node_status_text Pending = ''pending''"
| "node_status_text Dispatched = ''dispatched''"
| "node_status_text Settled = ''settled''"

fun phase_text :: "graph_phase \<Rightarrow> string" where
  "phase_text Ready = ''ready''"
| "phase_text Executing = ''executing''"
| "phase_text Complete = ''complete''"
| "phase_text Stopped = ''stopped''"

fun stop_reason_text :: "stop_reason \<Rightarrow> string" where
  "stop_reason_text LoopExhausted = ''loop-exhausted''"
| "stop_reason_text ProgressStalled = ''progress-stalled''"
| "stop_reason_text UnreachablePendingNode = ''unreachable-pending-node''"

record state_layout =
  sl_version :: nat
  sl_keys :: "node_status \<Rightarrow> string list"
  sl_bodyKeys :: "string list"
  sl_phases :: "graph_phase list"
  sl_stopReasons :: "stop_reason list"

fun layout_keys :: "node_status \<Rightarrow> string list" where
  "layout_keys Pending = [''nodeId'', ''status'', ''arrivals'', ''inputRefusals'']"
| "layout_keys Dispatched = [''nodeId'', ''status'', ''attemptId'', ''attemptSeq'', ''attemptCredentialDigest'',
     ''dispatchedAt'', ''arrivals'', ''dispatchIdentity'', ''inputs'', ''inputRefusals'']"
| "layout_keys Settled = [''nodeId'', ''status'', ''attemptId'', ''attemptSeq'', ''attemptCredentialDigest'',
     ''dispatchedAt'', ''settledAt'', ''outcomeId'', ''arrivals'', ''dispatchIdentity'', ''inputs'', ''inputRefusals'']"

definition outcomeStateLayout :: "nat \<Rightarrow> stop_reason list \<Rightarrow> state_layout" where
  "outcomeStateLayout version stopReasons =
     \<lparr>sl_version = version, sl_keys = layout_keys,
      sl_bodyKeys = [''bodyVersion'', ''graphId'', ''planRevision'', ''phase'', ''nodes'', ''loopTraversals'',
        ''attemptSeq'', ''stop'', ''loopProgress''],
      sl_phases = [Ready, Executing, Complete, Stopped], sl_stopReasons = stopReasons\<rparr>"

definition OUTCOME_STATE_STOP_REASONS_V9 :: "stop_reason list" where
  "OUTCOME_STATE_STOP_REASONS_V9 = [LoopExhausted, ProgressStalled]"

definition OUTCOME_STATE_LAYOUT_V9 :: state_layout where
  "OUTCOME_STATE_LAYOUT_V9 = outcomeStateLayout OUTCOME_STATE_BODY_V9 OUTCOME_STATE_STOP_REASONS_V9"

definition OUTCOME_STATE_LAYOUT_V10 :: state_layout where
  "OUTCOME_STATE_LAYOUT_V10 = outcomeStateLayout CURRENT_OUTCOME_STATE_BODY OUTCOME_STOP_REASONS"

subsection \<open>Field readers\<close>

definition readOptionalEpoch :: "jsval \<Rightarrow> string \<Rightarrow> state_error + int option" where
  "readOptionalEpoch raw field =
     (if js_get raw field = JUndef then Inr None
      else case nonneg_safe (js_get raw field) of
             None \<Rightarrow> Inl (malformedState field)
           | Some n \<Rightarrow> Inr (Some (int n)))"

definition readDispatchIdentity :: "jsval \<Rightarrow> state_error + host_identity option" where
  "readDispatchIdentity raw =
     (if js_get raw ''dispatchIdentity'' = JUndef then Inr None
      else case readHostInvocationIdentity (js_get raw ''dispatchIdentity'') of
             None \<Rightarrow> Inl (malformedState ''dispatchIdentity'')
           | Some i \<Rightarrow> Inr (Some i))"

definition readBoundInputs :: "jsval \<Rightarrow> state_error + resolved_input list option" where
  "readBoundInputs raw =
     (if js_get raw ''inputs'' = JUndef then Inr None
      else case readResolvedInputs (js_get raw ''inputs'') of
             Inl message \<Rightarrow> Inl (malformedState message)
           | Inr entries \<Rightarrow> Inr (Some entries))"

definition readNodeInputRefusals :: "jsval \<Rightarrow> state_error + input_refusal list option" where
  "readNodeInputRefusals raw =
     (if js_get raw ''inputRefusals'' = JUndef then Inr None
      else case readInputRefusals (js_get raw ''inputRefusals'') of
             Inl message \<Rightarrow> Inl (malformedState message)
           | Inr refusals \<Rightarrow> Inr (Some refusals))"

definition readNonEmptyId :: "jsval \<Rightarrow> string \<Rightarrow> state_error + string" where
  "readNonEmptyId raw field =
     (case nonempty_string raw of None \<Rightarrow> Inl (malformedState field) | Some v \<Rightarrow> Inr v)"

definition readPositiveCount :: "jsval \<Rightarrow> string \<Rightarrow> state_error + nat" where
  "readPositiveCount raw field =
     (case positive_safe raw of None \<Rightarrow> Inl (malformedState field) | Some v \<Rightarrow> Inr v)"

subsection \<open>Node entries\<close>

definition OUTCOME_ARRIVAL_KEYS :: "string list" where
  "OUTCOME_ARRIVAL_KEYS = [''from'', ''outcome'', ''attemptId'']"

definition read_arrival :: "compiled_plan \<Rightarrow> string \<Rightarrow> string list \<Rightarrow> jsval \<Rightarrow> state_error + arrival" where
  "read_arrival plan target seen entry =
     (if \<not> isRecord entry then Inl (malformedState ''arrival'')
      else rbind (ensure (only_keys entry OUTCOME_ARRIVAL_KEYS) (malformedState ''unknown arrival field'')) (\<lambda>_.
           rbind (readNonEmptyId (js_get entry ''from'') ''from'') (\<lambda>from.
           rbind (readNonEmptyId (js_get entry ''outcome'') ''outcome'') (\<lambda>outcome.
           rbind (readNonEmptyId (js_get entry ''attemptId'') ''attemptId'') (\<lambda>attemptId.
           rbind (ensure (from \<notin> set seen) (malformedState ''second arrival of a feeder'')) (\<lambda>_.
           rbind (ensure (list_ex (\<lambda>e. ce_from e = from \<and> ce_to e = target \<and> ce_outcome e = outcome) (cp_edges plan))
                    (malformedState ''arrival without an edge'')) (\<lambda>_.
             Inr \<lparr>arr_from = from, arr_outcome = outcome, arr_attemptId = attemptId\<rparr>)))))))"

fun read_arrival_list :: "compiled_plan \<Rightarrow> string \<Rightarrow> string list \<Rightarrow> jsval list \<Rightarrow> state_error + arrival list" where
  "read_arrival_list plan target seen [] = Inr []"
| "read_arrival_list plan target seen (entry # entries) =
     rbind (read_arrival plan target seen entry) (\<lambda>a.
     rbind (read_arrival_list plan target (set_add (arr_from a) seen) entries) (\<lambda>as. Inr (a # as)))"

definition readArrivals :: "jsval \<Rightarrow> compiled_node \<Rightarrow> compiled_plan \<Rightarrow> state_error + arrival list" where
  "readArrivals raw expected plan =
     (case js_array raw of
        None \<Rightarrow> Inl (malformedState ''arrivals'')
      | Some entries \<Rightarrow> read_arrival_list plan (cn_id expected) [] entries)"

definition rejectUnknownNodeFields :: "jsval \<Rightarrow> node_status \<Rightarrow> state_layout \<Rightarrow> state_error + unit" where
  "rejectUnknownNodeFields raw status layout =
     ensure (only_keys raw (sl_keys layout status)) (malformedState ''unknown node field'')"

definition read_status :: "jsval \<Rightarrow> node_status option" where
  "read_status v = find (\<lambda>s. v = JStr (node_status_text s)) [Pending, Dispatched, Settled]"

fun read_digest :: "jsval \<Rightarrow> state_error + string" where
  "read_digest (JStr v) = (if isAttemptCredentialDigest (JStr v) then Inr v else Inl (malformedState ''digest''))"
| "read_digest _ = Inl (malformedState ''digest'')"

definition required :: "'a option \<Rightarrow> string \<Rightarrow> state_error + 'a" where
  "required x field = (case x of None \<Rightarrow> Inl (malformedState field) | Some v \<Rightarrow> Inr v)"

text \<open>The part of \<open>readNodeState\<close> after the optional fields have been read.\<close>

definition node_of_fields ::
  "jsval \<Rightarrow> string \<Rightarrow> node_status \<Rightarrow> host_identity option \<Rightarrow> resolved_input list option \<Rightarrow> input_refusal list option \<Rightarrow>
   int option \<Rightarrow> int option \<Rightarrow> arrival list \<Rightarrow> state_error + node_state" where
  "node_of_fields raw nodeId status dispatchIdentity boundInputs inputRefusals dispatchedAt settledAt recordedArrivals =
     (if status = Pending then Inr (PendingNode nodeId recordedArrivals inputRefusals)
      else rbind (readNonEmptyId (js_get raw ''attemptId'') ''attemptId'') (\<lambda>attemptId.
           rbind (readPositiveCount (js_get raw ''attemptSeq'') ''attemptSeq'') (\<lambda>attemptSeq.
           rbind (read_digest (js_get raw ''attemptCredentialDigest'')) (\<lambda>credentialDigest.
           rbind (required dispatchedAt ''dispatchedAt'') (\<lambda>dispatched.
             if status = Settled
             then rbind (readNonEmptyId (js_get raw ''outcomeId'') ''outcomeId'') (\<lambda>outcomeId.
                  rbind (required settledAt ''settledAt'') (\<lambda>settled.
                    Inr (SettledNode nodeId attemptId attemptSeq credentialDigest dispatchIdentity outcomeId
                           dispatched settled recordedArrivals boundInputs inputRefusals)))
             else Inr (DispatchedNode nodeId attemptId attemptSeq credentialDigest dispatchIdentity
                         dispatched recordedArrivals boundInputs inputRefusals))))))"

definition readNodeState ::
  "jsval \<Rightarrow> compiled_node \<Rightarrow> state_layout \<Rightarrow> compiled_plan \<Rightarrow> state_error + node_state" where
  "readNodeState raw expected layout plan =
     (if \<not> isRecord raw then Inl (malformedState ''node'')
      else if js_get raw ''nodeId'' \<noteq> JStr (cn_id expected) then Inl (malformedState ''nodeId'')
      else rbind (required (read_status (js_get raw ''status'')) ''status'') (\<lambda>status.
           rbind (rejectUnknownNodeFields raw status layout) (\<lambda>_.
           rbind (readDispatchIdentity raw) (\<lambda>dispatchIdentity.
           rbind (readBoundInputs raw) (\<lambda>boundInputs.
           rbind (readNodeInputRefusals raw) (\<lambda>inputRefusals.
           rbind (readOptionalEpoch raw ''dispatchedAt'') (\<lambda>dispatchedAt.
           rbind (readOptionalEpoch raw ''settledAt'') (\<lambda>settledAt.
           rbind (readArrivals (js_get raw ''arrivals'') expected plan) (\<lambda>recordedArrivals.
             node_of_fields raw (cn_id expected) status dispatchIdentity boundInputs inputRefusals
               dispatchedAt settledAt recordedArrivals)))))))))"

subsection \<open>Counters and progress records\<close>

fun read_counters ::
  "compiled_plan \<Rightarrow> jsval \<Rightarrow> string list \<Rightarrow> (string \<times> nat) list \<Rightarrow> state_error + (string \<times> nat) list" where
  "read_counters plan raw [] counters = Inr counters"
| "read_counters plan raw (key # keys) counters =
     (if key \<notin> set (map clg_id (cp_loopGroups plan)) then Inl (malformedState ''undeclared loop group'')
      else case nonneg_safe (js_get raw key) of
             None \<Rightarrow> Inl (malformedState ''loopTraversals'')
           | Some v \<Rightarrow> read_counters plan raw keys (AList.update key v counters))"

definition readLoopTraversals :: "jsval \<Rightarrow> compiled_plan \<Rightarrow> state_error + (string \<times> nat) list" where
  "readLoopTraversals raw plan =
     (if \<not> isRecord raw then Inl (malformedState ''loopTraversals'')
      else read_counters plan raw (js_keys raw) [])"

definition OUTCOME_LOOP_PROGRESS_KEYS :: "string list" where
  "OUTCOME_LOOP_PROGRESS_KEYS = [''loopGroupId'', ''evaluator'', ''version'', ''subject'', ''unchanged'', ''baseline'']"

text \<open>A revision token: a string of 1 to \<open>PROGRESS_VALUE_MAX_LENGTH\<close> characters.\<close>

fun read_token :: "jsval \<Rightarrow> state_error + string" where
  "read_token (JStr v) =
     (if v = [] \<or> length v > PROGRESS_VALUE_MAX_LENGTH then Inl (malformedState ''baseline'') else Inr v)"
| "read_token _ = Inl (malformedState ''baseline'')"

definition readLoopProgressEntry :: "jsval \<Rightarrow> string \<Rightarrow> compiled_progress_policy \<Rightarrow> state_error + loop_progress" where
  "readLoopProgressEntry raw groupId policy =
     (if \<not> isRecord raw then Inl (malformedState ''progress record'')
      else rbind (ensure (only_keys raw OUTCOME_LOOP_PROGRESS_KEYS) (malformedState ''unknown progress field'')) (\<lambda>_.
           rbind (ensure (js_get raw ''loopGroupId'' = JStr groupId) (malformedState ''loopGroupId'')) (\<lambda>_.
           rbind (readNonEmptyId (js_get raw ''evaluator'') ''evaluator'') (\<lambda>evaluator.
           rbind (ensure (evaluator = cpp_evaluator policy) (malformedState ''another evaluator'')) (\<lambda>_.
           rbind (readNonEmptyId (js_get raw ''subject'') ''subject'') (\<lambda>subject.
           rbind (ensure (subject = cpp_subject policy) (malformedState ''another subject'')) (\<lambda>_.
           rbind (readPositiveCount (js_get raw ''version'') ''version'') (\<lambda>version.
           rbind (required (nonneg_safe (js_get raw ''unchanged'')) ''unchanged'') (\<lambda>unchanged.
           rbind (if js_get raw ''baseline'' = JUndef then Inr None
                  else rbind (read_token (js_get raw ''baseline'')) (\<lambda>t. Inr (Some t))) (\<lambda>baseline.
             Inr \<lparr>lp_loopGroupId = groupId, lp_evaluator = evaluator, lp_version = version, lp_subject = subject,
                  lp_unchanged = unchanged, lp_baseline = baseline\<rparr>))))))))))"

definition policy_of :: "compiled_plan \<Rightarrow> string \<Rightarrow> compiled_progress_policy option" where
  "policy_of plan key =
     map_of (foldl (\<lambda>m g. case clg_progress g of None \<Rightarrow> m | Some p \<Rightarrow> AList.update (clg_id g) p m)
               [] (cp_loopGroups plan)) key"

fun read_progress_entries ::
  "compiled_plan \<Rightarrow> jsval \<Rightarrow> string list \<Rightarrow> (string \<times> loop_progress) list \<Rightarrow>
   state_error + (string \<times> loop_progress) list" where
  "read_progress_entries plan raw [] entries = Inr entries"
| "read_progress_entries plan raw (key # keys) entries =
     (case policy_of plan key of
        None \<Rightarrow> Inl (malformedState ''progress without a policy'')
      | Some policy \<Rightarrow>
          rbind (readLoopProgressEntry (js_get raw key) key policy) (\<lambda>entry.
            read_progress_entries plan raw keys (AList.update key entry entries)))"

definition readLoopProgress :: "jsval \<Rightarrow> compiled_plan \<Rightarrow> state_error + (string \<times> loop_progress) list" where
  "readLoopProgress raw plan =
     (if \<not> isRecord raw then Inl (malformedState ''loopProgress'')
      else rbind (read_progress_entries plan raw (js_keys raw) []) (\<lambda>entries.
           rbind (ensure (list_all (\<lambda>g. clg_progress g = None \<or> clg_id g \<in> set (map fst entries)) (cp_loopGroups plan))
                    (malformedState ''missing progress entry'')) (\<lambda>_. Inr entries)))"

subsection \<open>Stop records\<close>

definition OUTCOME_LOOP_EXHAUSTED_STOP_KEYS :: "string list" where
  "OUTCOME_LOOP_EXHAUSTED_STOP_KEYS =
     [''reason'', ''loopGroupId'', ''nodeId'', ''outcomeId'', ''attemptId'', ''traversals'', ''maxTraversals'', ''stoppedAt'']"

definition readLoopExhaustedStop :: "jsval \<Rightarrow> state_error + loop_exhausted_stop" where
  "readLoopExhaustedStop raw =
     rbind (ensure (only_keys raw OUTCOME_LOOP_EXHAUSTED_STOP_KEYS) (malformedState ''unknown stop field'')) (\<lambda>_.
     rbind (readNonEmptyId (js_get raw ''loopGroupId'') ''loopGroupId'') (\<lambda>loopGroupId.
     rbind (readNonEmptyId (js_get raw ''nodeId'') ''nodeId'') (\<lambda>nodeId.
     rbind (readNonEmptyId (js_get raw ''outcomeId'') ''outcomeId'') (\<lambda>outcomeId.
     rbind (readNonEmptyId (js_get raw ''attemptId'') ''attemptId'') (\<lambda>attemptId.
     rbind (readPositiveCount (js_get raw ''traversals'') ''traversals'') (\<lambda>traversals.
     rbind (readPositiveCount (js_get raw ''maxTraversals'') ''maxTraversals'') (\<lambda>maxTraversals.
     rbind (readOptionalEpoch raw ''stoppedAt'') (\<lambda>epoch.
     rbind (required epoch ''stoppedAt'') (\<lambda>stoppedAt.
       Inr \<lparr>le_loopGroupId = loopGroupId, le_nodeId = nodeId, le_outcomeId = outcomeId, le_attemptId = attemptId,
            le_traversals = traversals, le_maxTraversals = maxTraversals, le_stoppedAt = stoppedAt\<rparr>)))))))))"

definition OUTCOME_PROGRESS_STALLED_STOP_KEYS :: "string list" where
  "OUTCOME_PROGRESS_STALLED_STOP_KEYS =
     [''reason'', ''loopGroupId'', ''nodeId'', ''outcomeId'', ''attemptId'', ''unchanged'', ''maxUnchanged'',
      ''evaluator'', ''evaluatorVersion'', ''subject'', ''baseline'', ''stoppedAt'']"

definition readProgressStalledStop :: "jsval \<Rightarrow> state_error + progress_stalled_stop" where
  "readProgressStalledStop raw =
     rbind (ensure (only_keys raw OUTCOME_PROGRESS_STALLED_STOP_KEYS) (malformedState ''unknown stop field'')) (\<lambda>_.
     rbind (readNonEmptyId (js_get raw ''loopGroupId'') ''loopGroupId'') (\<lambda>loopGroupId.
     rbind (readNonEmptyId (js_get raw ''nodeId'') ''nodeId'') (\<lambda>nodeId.
     rbind (readNonEmptyId (js_get raw ''outcomeId'') ''outcomeId'') (\<lambda>outcomeId.
     rbind (readNonEmptyId (js_get raw ''attemptId'') ''attemptId'') (\<lambda>attemptId.
     rbind (readPositiveCount (js_get raw ''unchanged'') ''unchanged'') (\<lambda>unchanged.
     rbind (readPositiveCount (js_get raw ''maxUnchanged'') ''maxUnchanged'') (\<lambda>maxUnchanged.
     rbind (readNonEmptyId (js_get raw ''evaluator'') ''evaluator'') (\<lambda>evaluator.
     rbind (readPositiveCount (js_get raw ''evaluatorVersion'') ''evaluatorVersion'') (\<lambda>evaluatorVersion.
     rbind (readNonEmptyId (js_get raw ''subject'') ''subject'') (\<lambda>subject.
     rbind (read_token (js_get raw ''baseline'')) (\<lambda>baseline.
     rbind (readOptionalEpoch raw ''stoppedAt'') (\<lambda>epoch.
     rbind (required epoch ''stoppedAt'') (\<lambda>stoppedAt.
       Inr \<lparr>ps_loopGroupId = loopGroupId, ps_nodeId = nodeId, ps_outcomeId = outcomeId, ps_attemptId = attemptId,
            ps_unchanged = unchanged, ps_maxUnchanged = maxUnchanged, ps_evaluator = evaluator,
            ps_evaluatorVersion = evaluatorVersion, ps_subject = subject, ps_baseline = baseline,
            ps_stoppedAt = stoppedAt\<rparr>)))))))))))))"

definition OUTCOME_UNREACHABLE_PENDING_NODE_STOP_KEYS :: "string list" where
  "OUTCOME_UNREACHABLE_PENDING_NODE_STOP_KEYS = [''reason'', ''blockedNodes'', ''stoppedAt'']"

fun object_entries :: "jsval \<Rightarrow> (string \<times> jsval) list" where
  "object_entries (JObj ps) = ps"
| "object_entries _ = []"

fun read_blocked :: "(string \<times> jsval) list \<Rightarrow> (string \<times> string list) list \<Rightarrow> state_error + (string \<times> string list) list" where
  "read_blocked [] blocked = Inr blocked"
| "read_blocked ((nodeId, value) # rest) blocked =
     (case js_array value of
        None \<Rightarrow> Inl (malformedState ''blockedNodes'')
      | Some xs \<Rightarrow>
          rbind (traverse (\<lambda>feeder. readNonEmptyId feeder ''feeder'') xs) (\<lambda>feeders.
            read_blocked rest (AList.update nodeId (sort feeders) blocked)))"

definition readUnreachablePendingNodeStop :: "jsval \<Rightarrow> state_error + unreachable_pending_stop" where
  "readUnreachablePendingNodeStop raw =
     rbind (ensure (only_keys raw OUTCOME_UNREACHABLE_PENDING_NODE_STOP_KEYS) (malformedState ''unknown stop field'')) (\<lambda>_.
     rbind (ensure (isRecord (js_get raw ''blockedNodes'')) (malformedState ''blockedNodes'')) (\<lambda>_.
     rbind (read_blocked (object_entries (js_get raw ''blockedNodes'')) []) (\<lambda>blocked.
     rbind (readOptionalEpoch raw ''stoppedAt'') (\<lambda>epoch.
     rbind (required epoch ''stoppedAt'') (\<lambda>stoppedAt.
       Inr \<lparr>up_blockedNodes = blocked, up_stoppedAt = stoppedAt\<rparr>)))))"

definition readStopReason :: "jsval \<Rightarrow> state_layout \<Rightarrow> state_error + stop_reason" where
  "readStopReason v layout =
     required (find (\<lambda>candidate. v = JStr (stop_reason_text candidate)) (sl_stopReasons layout)) ''stop reason''"

definition read_stop_of :: "stop_reason \<Rightarrow> jsval \<Rightarrow> state_error + outcome_stop" where
  "read_stop_of reason raw =
     (case reason of
        LoopExhausted \<Rightarrow> rbind (readLoopExhaustedStop raw) (\<lambda>x. Inr (StopLoopExhausted x))
      | ProgressStalled \<Rightarrow> rbind (readProgressStalledStop raw) (\<lambda>x. Inr (StopProgressStalled x))
      | UnreachablePendingNode \<Rightarrow> rbind (readUnreachablePendingNodeStop raw) (\<lambda>x. Inr (StopUnreachable x)))"

definition readStop :: "jsval \<Rightarrow> graph_phase \<Rightarrow> state_layout \<Rightarrow> state_error + outcome_stop option" where
  "readStop raw phase layout =
     (if phase \<noteq> Stopped
      then (if raw \<noteq> JUndef then Inl (malformedState ''stop without the stopped phase'') else Inr None)
      else if \<not> isRecord raw then Inl (malformedState ''stop'')
      else rbind (readStopReason (js_get raw ''reason'') layout) (\<lambda>reason.
           rbind (read_stop_of reason raw) (\<lambda>stop. Inr (Some stop))))"

subsection \<open>Corroborating a stop\<close>

definition settled_entry_named :: "node_state list \<Rightarrow> string \<Rightarrow> string \<Rightarrow> string \<Rightarrow> bool" where
  "settled_entry_named nodes nodeId outcomeId attemptId =
     (case find (\<lambda>e. ns_nodeId e = nodeId) nodes of
        Some (SettledNode _ a _ _ _ oc _ _ _ _ _) \<Rightarrow> oc = outcomeId \<and> a = attemptId
      | _ \<Rightarrow> False)"

definition verifyLoopExhaustedStop ::
  "compiled_plan \<Rightarrow> node_state list \<Rightarrow> (string \<times> nat) list \<Rightarrow> loop_exhausted_stop \<Rightarrow> state_error + unit" where
  "verifyLoopExhaustedStop plan nodes loopTraversals stop =
     rbind (required (find (\<lambda>g. clg_id g = le_loopGroupId stop) (cp_loopGroups plan)) ''stop group'') (\<lambda>grp.
     rbind (ensure (clg_maxTraversals grp = le_maxTraversals stop) (malformedState ''stop cap'')) (\<lambda>_.
     rbind (ensure (le_nodeId stop \<in> set (clg_nodes grp)) (malformedState ''stop member'')) (\<lambda>_.
     rbind (ensure (clg_continuationOutcome grp = le_outcomeId stop) (malformedState ''stop outcome'')) (\<lambda>_.
     rbind (ensure (settled_entry_named nodes (le_nodeId stop) (le_outcomeId stop) (le_attemptId stop))
              (malformedState ''stop attempt'')) (\<lambda>_.
     rbind (ensure (traversals_of loopTraversals (le_loopGroupId stop) = le_traversals stop)
              (malformedState ''stop counter'')) (\<lambda>_.
       ensure (le_traversals stop = le_maxTraversals stop) (malformedState ''stop below the cap'')))))))"

definition verifyProgressStalledStop ::
  "compiled_plan \<Rightarrow> node_state list \<Rightarrow> (string \<times> loop_progress) list \<Rightarrow> progress_stalled_stop \<Rightarrow> state_error + unit" where
  "verifyProgressStalledStop plan nodes loopProgress stop =
     rbind (required (find (\<lambda>g. clg_id g = ps_loopGroupId stop) (cp_loopGroups plan)) ''stop group'') (\<lambda>grp.
     rbind (required (clg_progress grp) ''stop policy'') (\<lambda>policy.
     rbind (ensure (cpp_maxUnchanged policy = ps_maxUnchanged stop) (malformedState ''stop threshold'')) (\<lambda>_.
     rbind (ensure (cpp_evaluator policy = ps_evaluator stop) (malformedState ''stop evaluator'')) (\<lambda>_.
     rbind (ensure (cpp_subject policy = ps_subject stop) (malformedState ''stop subject'')) (\<lambda>_.
     rbind (ensure (ps_nodeId stop \<in> set (clg_nodes grp)) (malformedState ''stop member'')) (\<lambda>_.
     rbind (ensure (clg_continuationOutcome grp = ps_outcomeId stop) (malformedState ''stop outcome'')) (\<lambda>_.
     rbind (ensure (settled_entry_named nodes (ps_nodeId stop) (ps_outcomeId stop) (ps_attemptId stop))
              (malformedState ''stop attempt'')) (\<lambda>_.
     rbind (required (map_of loopProgress (ps_loopGroupId stop)) ''stop progress'') (\<lambda>progress.
     rbind (ensure (lp_evaluator progress = ps_evaluator stop \<and> lp_version progress = ps_evaluatorVersion stop \<and>
                    lp_subject progress = ps_subject stop) (malformedState ''stop comparison'')) (\<lambda>_.
     rbind (ensure (lp_unchanged progress = ps_unchanged stop) (malformedState ''stop unchanged'')) (\<lambda>_.
     rbind (ensure (lp_baseline progress = Some (ps_baseline stop)) (malformedState ''stop baseline'')) (\<lambda>_.
       ensure (ps_unchanged stop = ps_maxUnchanged stop) (malformedState ''stop below the threshold'')))))))))))))"

fun js_join :: "string \<Rightarrow> string list \<Rightarrow> string" where
  "js_join sep [] = []"
| "js_join sep [x] = x"
| "js_join sep (x # y # xs) = x @ sep @ js_join sep (y # xs)"

definition verifyUnreachablePendingNodeStop ::
  "compiled_plan \<Rightarrow> node_state list \<Rightarrow> unreachable_pending_stop \<Rightarrow> state_error + unit" where
  "verifyUnreachablePendingNodeStop plan nodes stop =
     (let declared = js_set (node_ids plan);
          pending = js_set (map ns_nodeId (filter (\<lambda>e. ns_status e = Pending) nodes));
          expected = unsatisfiablePendingNodes plan nodes;
          recorded = sort (map fst (up_blockedNodes stop));
          corroborated = sort (map fst expected)
      in rbind (traverse (\<lambda>nodeId.
                  rbind (ensure (nodeId \<in> set declared) (malformedState ''stop names an undeclared node'')) (\<lambda>_.
                    ensure (nodeId \<in> set pending) (malformedState ''stop names a node that is not pending''))) recorded) (\<lambda>_.
         rbind (ensure (js_join [nul] recorded = js_join [nul] corroborated) (malformedState ''stranded nodes'')) (\<lambda>_.
         rbind (traverse (\<lambda>nodeId.
                  let feeders = sort (feederSourcesOf plan nodeId);
                      named = (case map_of (up_blockedNodes stop) nodeId of None \<Rightarrow> [] | Some fs \<Rightarrow> fs)
                  in ensure (js_join [nul] named = js_join [nul] feeders) (malformedState ''stranded feeders'')) recorded)
           (\<lambda>_. Inr ()))))"

fun verifyStop ::
  "compiled_plan \<Rightarrow> node_state list \<Rightarrow> (string \<times> nat) list \<Rightarrow> (string \<times> loop_progress) list \<Rightarrow> outcome_stop \<Rightarrow>
   state_error + unit" where
  "verifyStop plan nodes loopTraversals loopProgress (StopLoopExhausted stop) =
     verifyLoopExhaustedStop plan nodes loopTraversals stop"
| "verifyStop plan nodes loopTraversals loopProgress (StopProgressStalled stop) =
     verifyProgressStalledStop plan nodes loopProgress stop"
| "verifyStop plan nodes loopTraversals loopProgress (StopUnreachable stop) =
     verifyUnreachablePendingNodeStop plan nodes stop"

definition is_stalled_body :: "outcome_stop option \<Rightarrow> bool" where
  "is_stalled_body stop = (case stop of Some (StopProgressStalled _) \<Rightarrow> True | _ \<Rightarrow> False)"

definition verifyProgress ::
  "compiled_plan \<Rightarrow> (string \<times> loop_progress) list \<Rightarrow> outcome_stop option \<Rightarrow> state_error + unit" where
  "verifyProgress plan loopProgress stop =
     rbind (traverse (\<lambda>g. case clg_progress g of
         None \<Rightarrow> Inr ()
       | Some policy \<Rightarrow>
           rbind (required (map_of loopProgress (clg_id g)) ''progress entry'') (\<lambda>entry.
           rbind (ensure (lp_unchanged entry \<le> cpp_maxUnchanged policy) (malformedState ''above the threshold'')) (\<lambda>_.
             ensure (is_stalled_body stop \<or> lp_unchanged entry \<noteq> cpp_maxUnchanged policy)
               (malformedState ''on the threshold without a stop'')))) (cp_loopGroups plan)) (\<lambda>_. Inr ())"

subsection \<open>The body\<close>

definition rejectUnknownBodyFields :: "jsval \<Rightarrow> state_layout \<Rightarrow> state_error + unit" where
  "rejectUnknownBodyFields body layout =
     ensure (only_keys body (sl_bodyKeys layout)) (malformedState ''unknown body field'')"

definition read_node_list ::
  "state_layout \<Rightarrow> compiled_plan \<Rightarrow> jsval list \<Rightarrow> state_error + node_state list" where
  "read_node_list layout plan rawNodes =
     traverse (\<lambda>(node, raw). readNodeState raw node layout plan) (zip (cp_nodes plan) rawNodes)"

definition readStateBody :: "jsval \<Rightarrow> compiled_plan \<Rightarrow> state_layout \<Rightarrow> state_error + graph_state" where
  "readStateBody body plan layout =
     rbind (rejectUnknownBodyFields body layout) (\<lambda>_.
     rbind (ensure (js_get body ''graphId'' = JStr (cp_graphId plan)) (malformedState ''graphId'')) (\<lambda>_.
     rbind (ensure (js_get body ''planRevision'' = JStr (cp_planRevision plan)) (malformedState ''planRevision'')) (\<lambda>_.
     rbind (required (find (\<lambda>p. js_get body ''phase'' = JStr (phase_text p)) (sl_phases layout)) ''phase'') (\<lambda>phase.
     rbind (readStop (js_get body ''stop'') phase layout) (\<lambda>stop.
     rbind (required (nonneg_safe (js_get body ''attemptSeq'')) ''attemptSeq'') (\<lambda>attemptSeq.
     rbind (required (js_array (js_get body ''nodes'')) ''nodes'') (\<lambda>rawNodes.
     rbind (ensure (length rawNodes = length (cp_nodes plan)) (malformedState ''nodes'')) (\<lambda>_.
     rbind (read_node_list layout plan rawNodes) (\<lambda>nodes.
     rbind (verifyArrivals plan nodes) (\<lambda>_.
     rbind (readLoopTraversals (js_get body ''loopTraversals'') plan) (\<lambda>loopTraversals.
     rbind (readLoopProgress (js_get body ''loopProgress'') plan) (\<lambda>loopProgress.
     rbind (case stop of None \<Rightarrow> Inr () | Some x \<Rightarrow> verifyStop plan nodes loopTraversals loopProgress x) (\<lambda>_.
     rbind (verifyProgress plan loopProgress stop) (\<lambda>_.
       Inr \<lparr>gs_bodyVersion = sl_version layout, gs_graphId = cp_graphId plan, gs_planRevision = cp_planRevision plan,
            gs_phase = phase, gs_nodes = nodes, gs_loopTraversals = loopTraversals, gs_attemptSeq = attemptSeq,
            gs_stop = stop, gs_loopProgress = Some loopProgress\<rparr>))))))))))))))"

subsection \<open>The registry of body versions\<close>

type_synonym state_body_reader = "jsval \<Rightarrow> compiled_plan \<Rightarrow> state_error + graph_state"

record state_body_registry =
  sr_current :: int
  sr_formats :: "(int \<times> state_body_reader) list"

datatype registry_error = IllegalVersion int | DuplicateReader int | CurrentUnread int

fun install_formats :: "(int \<times> state_body_reader) list \<Rightarrow> int list \<Rightarrow> registry_error + int list" where
  "install_formats [] installed = Inr installed"
| "install_formats ((version, reader) # rest) installed =
     (if \<bar>version\<bar> > max_safe \<or> version \<le> 0 then Inl (IllegalVersion version)
      else if version \<in> set installed then Inl (DuplicateReader version)
      else install_formats rest (set_add version installed))"

definition createOutcomeStateBodyRegistry ::
  "int \<Rightarrow> (int \<times> state_body_reader) list \<Rightarrow> registry_error + state_body_registry" where
  "createOutcomeStateBodyRegistry current formats =
     rbind (install_formats formats []) (\<lambda>installed.
     rbind (ensure (current \<in> set installed) (CurrentUnread current)) (\<lambda>_.
       Inr \<lparr>sr_current = current, sr_formats = formats\<rparr>))"

datatype state_body_verdict =
    BodySupported int state_body_reader
  | BodyUnsupported int
  | BodyInvalid jsval

definition classifyOutcomeStateBody :: "jsval \<Rightarrow> state_body_registry \<Rightarrow> state_body_verdict" where
  "classifyOutcomeStateBody version registry =
     (case positive_safe version of
        None \<Rightarrow> BodyInvalid version
      | Some v \<Rightarrow>
          (case find (\<lambda>f. fst f = int v) (sr_formats registry) of
             Some f \<Rightarrow> BodySupported (int v) (snd f)
           | None \<Rightarrow> BodyUnsupported (int v)))"

definition stateBodyReader :: "state_layout \<Rightarrow> int \<times> state_body_reader" where
  "stateBodyReader layout = (int (sl_version layout), (\<lambda>body plan. readStateBody body plan layout))"

text \<open>The registry of this build; \<open>default_registry_created\<close> below shows that creating it never throws.\<close>

definition DEFAULT_OUTCOME_STATE_BODY_REGISTRY :: state_body_registry where
  "DEFAULT_OUTCOME_STATE_BODY_REGISTRY =
     \<lparr>sr_current = int CURRENT_OUTCOME_STATE_BODY,
      sr_formats = [stateBodyReader OUTCOME_STATE_LAYOUT_V9, stateBodyReader OUTCOME_STATE_LAYOUT_V10]\<rparr>"

record graph_state_record =
  sd_graphId :: string
  sd_planRevision :: string
  sd_body :: jsval
  sd_updatedAt :: int

definition readOutcomeGraphState ::
  "graph_state_record \<Rightarrow> compiled_plan \<Rightarrow> state_body_registry \<Rightarrow> state_error + graph_state" where
  "readOutcomeGraphState rec plan registry =
     (if sd_graphId rec \<noteq> cp_graphId plan then Inl (OutcomeStateError StatePlanMismatch ''graph'')
      else if sd_planRevision rec \<noteq> cp_planRevision plan then Inl (OutcomeStateError StatePlanMismatch ''revision'')
      else if \<not> isRecord (sd_body rec) then Inl (malformedState ''body'')
      else case classifyOutcomeStateBody (js_get (sd_body rec) ''bodyVersion'') registry of
             BodyInvalid _ \<Rightarrow> Inl (malformedState ''bodyVersion'')
           | BodyUnsupported _ \<Rightarrow> Inl (OutcomeStateError UnsupportedStateVersion ''bodyVersion'')
           | BodySupported _ reader \<Rightarrow> reader (sd_body rec) plan)"

subsection \<open>What the writer stores\<close>

definition enc_arrival :: "arrival \<Rightarrow> jsval" where
  "enc_arrival a = JObj [(''from'', JStr (arr_from a)), (''outcome'', JStr (arr_outcome a)), (''attemptId'', JStr (arr_attemptId a))]"

definition enc_arrivals :: "arrival list \<Rightarrow> jsval" where
  "enc_arrivals as = JArr (map enc_arrival as)"

definition enc_inputs :: "resolved_input list \<Rightarrow> jsval" where
  "enc_inputs es = JArr (map enc_resolved_input es)"

definition enc_refusals :: "input_refusal list \<Rightarrow> jsval" where
  "enc_refusals rs = JArr (map enc_refusal rs)"

fun enc_node :: "node_state \<Rightarrow> jsval" where
  "enc_node (PendingNode i as rs) =
     JObj ([(''nodeId'', JStr i), (''status'', JStr ''pending''), (''arrivals'', enc_arrivals as)] @
           opt_field ''inputRefusals'' enc_refusals rs)"
| "enc_node (DispatchedNode i a q d h t as inp rs) =
     JObj ([(''nodeId'', JStr i), (''status'', JStr ''dispatched''), (''attemptId'', JStr a), (''attemptSeq'', js_nat q),
            (''attemptCredentialDigest'', JStr d), (''dispatchedAt'', js_int t), (''arrivals'', enc_arrivals as)] @
           opt_field ''dispatchIdentity'' enc_identity h @ opt_field ''inputs'' enc_inputs inp @
           opt_field ''inputRefusals'' enc_refusals rs)"
| "enc_node (SettledNode i a q d h oc t u as inp rs) =
     JObj ([(''nodeId'', JStr i), (''status'', JStr ''settled''), (''attemptId'', JStr a), (''attemptSeq'', js_nat q),
            (''attemptCredentialDigest'', JStr d), (''outcomeId'', JStr oc), (''dispatchedAt'', js_int t),
            (''settledAt'', js_int u), (''arrivals'', enc_arrivals as)] @
           opt_field ''dispatchIdentity'' enc_identity h @ opt_field ''inputs'' enc_inputs inp @
           opt_field ''inputRefusals'' enc_refusals rs)"

definition enc_counters :: "(string \<times> nat) list \<Rightarrow> jsval" where
  "enc_counters al = JObj (map (\<lambda>(k, v). (k, js_nat v)) al)"

definition enc_progress_entry :: "loop_progress \<Rightarrow> jsval" where
  "enc_progress_entry e =
     JObj ([(''loopGroupId'', JStr (lp_loopGroupId e)), (''evaluator'', JStr (lp_evaluator e)),
            (''version'', js_nat (lp_version e)), (''subject'', JStr (lp_subject e)), (''unchanged'', js_nat (lp_unchanged e))] @
           opt_field ''baseline'' JStr (lp_baseline e))"

definition enc_progress :: "(string \<times> loop_progress) list \<Rightarrow> jsval" where
  "enc_progress al = JObj (map (\<lambda>(k, v). (k, enc_progress_entry v)) al)"

fun enc_stop :: "outcome_stop \<Rightarrow> jsval" where
  "enc_stop (StopLoopExhausted x) =
     JObj [(''reason'', JStr ''loop-exhausted''), (''loopGroupId'', JStr (le_loopGroupId x)), (''nodeId'', JStr (le_nodeId x)),
           (''outcomeId'', JStr (le_outcomeId x)), (''attemptId'', JStr (le_attemptId x)),
           (''traversals'', js_nat (le_traversals x)), (''maxTraversals'', js_nat (le_maxTraversals x)),
           (''stoppedAt'', js_int (le_stoppedAt x))]"
| "enc_stop (StopProgressStalled x) =
     JObj [(''reason'', JStr ''progress-stalled''), (''loopGroupId'', JStr (ps_loopGroupId x)), (''nodeId'', JStr (ps_nodeId x)),
           (''outcomeId'', JStr (ps_outcomeId x)), (''attemptId'', JStr (ps_attemptId x)),
           (''unchanged'', js_nat (ps_unchanged x)), (''maxUnchanged'', js_nat (ps_maxUnchanged x)),
           (''evaluator'', JStr (ps_evaluator x)), (''evaluatorVersion'', js_nat (ps_evaluatorVersion x)),
           (''subject'', JStr (ps_subject x)), (''baseline'', JStr (ps_baseline x)), (''stoppedAt'', js_int (ps_stoppedAt x))]"
| "enc_stop (StopUnreachable x) =
     JObj [(''reason'', JStr ''unreachable-pending-node''),
           (''blockedNodes'', JObj (map (\<lambda>(k, fs). (k, JArr (map JStr fs))) (up_blockedNodes x))),
           (''stoppedAt'', js_int (up_stoppedAt x))]"

definition enc_state :: "graph_state \<Rightarrow> jsval" where
  "enc_state st =
     JObj ([(''bodyVersion'', js_nat (gs_bodyVersion st)), (''graphId'', JStr (gs_graphId st)),
            (''planRevision'', JStr (gs_planRevision st)), (''phase'', JStr (phase_text (gs_phase st))),
            (''nodes'', JArr (map enc_node (gs_nodes st))), (''loopTraversals'', enc_counters (gs_loopTraversals st)),
            (''attemptSeq'', js_nat (gs_attemptSeq st))] @
           opt_field ''stop'' enc_stop (gs_stop st) @ opt_field ''loopProgress'' enc_progress (gs_loopProgress st))"

definition stateRecordOf :: "graph_state \<Rightarrow> int \<Rightarrow> graph_state_record" where
  "stateRecordOf state updatedAt =
     \<lparr>sd_graphId = gs_graphId state, sd_planRevision = gs_planRevision state, sd_body = enc_state state,
      sd_updatedAt = updatedAt\<rparr>"

fun describeOutcomeStop :: "outcome_stop \<Rightarrow> string" where
  "describeOutcomeStop (StopLoopExhausted x) =
     ''loop group '' @ json_quote (le_loopGroupId x) @ '' reached its hard cap (round '' @ show_nat (le_traversals x) @ ''/'' @
     show_nat (le_maxTraversals x) @ '') at attempt '' @ json_quote (le_attemptId x)"
| "describeOutcomeStop (StopProgressStalled x) =
     ''loop group '' @ json_quote (ps_loopGroupId x) @ '' observed '' @ show_nat (ps_unchanged x) @
     '' consecutive unchanged revision(s) (threshold '' @ show_nat (ps_maxUnchanged x) @ '', evaluator '' @
     json_quote (ps_evaluator x) @ '' version '' @ show_nat (ps_evaluatorVersion x) @ '', subject '' @
     json_quote (ps_subject x) @ '', baseline '' @ json_quote (ps_baseline x) @ '') at attempt '' @ json_quote (ps_attemptId x)"
| "describeOutcomeStop (StopUnreachable x) =
     (let stranded = sort (map fst (up_blockedNodes x));
          detail = js_join ''; '' (map (\<lambda>i. i @ '' (feeder(s) that can never arrive: '' @
            js_join '', '' (case map_of (up_blockedNodes x) i of None \<Rightarrow> [] | Some fs \<Rightarrow> fs) @ '')'') stranded)
      in show_nat (length stranded) @ '' pending node(s) can never be dispatched: '' @ detail)"

subsection \<open>The values the codec is meant for\<close>

definition ok_epoch :: "int \<Rightarrow> bool" where
  "ok_epoch t \<longleftrightarrow> 0 \<le> t \<and> t \<le> max_safe"

definition ok_count :: "nat \<Rightarrow> bool" where
  "ok_count n \<longleftrightarrow> 0 < n \<and> int n \<le> max_safe"

definition ok_token :: "string \<Rightarrow> bool" where
  "ok_token t \<longleftrightarrow> t \<noteq> [] \<and> length t \<le> PROGRESS_VALUE_MAX_LENGTH"

definition ok_arrival :: "compiled_plan \<Rightarrow> string \<Rightarrow> arrival \<Rightarrow> bool" where
  "ok_arrival plan target a \<longleftrightarrow>
     arr_from a \<noteq> [] \<and> arr_outcome a \<noteq> [] \<and> arr_attemptId a \<noteq> [] \<and>
     (\<exists>e \<in> set (cp_edges plan). ce_from e = arr_from a \<and> ce_to e = target \<and> ce_outcome e = arr_outcome a)"

definition ok_arrivals :: "compiled_plan \<Rightarrow> string \<Rightarrow> arrival list \<Rightarrow> bool" where
  "ok_arrivals plan target as \<longleftrightarrow> distinct (map arr_from as) \<and> (\<forall>a \<in> set as. ok_arrival plan target a)"

definition ok_attempt :: "node_state \<Rightarrow> bool" where
  "ok_attempt e \<longleftrightarrow>
     ns_attemptId e \<noteq> [] \<and> ok_count (ns_attemptSeq e) \<and> isAttemptCredentialDigest (JStr (ns_attemptCredentialDigest e)) \<and>
     pred_option ok_identity (ns_dispatchIdentity e) \<and> ok_epoch (ns_dispatchedAt e) \<and>
     pred_option (list_all ok_resolved_input) (ns_inputs e)"

definition ok_node :: "compiled_plan \<Rightarrow> compiled_node \<Rightarrow> node_state \<Rightarrow> bool" where
  "ok_node plan expected e \<longleftrightarrow>
     ns_nodeId e = cn_id expected \<and> ok_arrivals plan (cn_id expected) (ns_arrivals e) \<and>
     pred_option (list_all ok_refusal) (ns_inputRefusals e) \<and>
     (ns_status e \<noteq> Pending \<longrightarrow> ok_attempt e) \<and>
     (ns_status e = Settled \<longrightarrow> ns_outcomeId e \<noteq> [] \<and> ok_epoch (ns_settledAt e))"

definition ok_counters :: "compiled_plan \<Rightarrow> (string \<times> nat) list \<Rightarrow> bool" where
  "ok_counters plan al \<longleftrightarrow>
     distinct (map fst al) \<and> (\<forall>(k, v) \<in> set al. k \<in> clg_id ` set (cp_loopGroups plan) \<and> int v \<le> max_safe)"

definition ok_progress_entry :: "string \<Rightarrow> compiled_progress_policy \<Rightarrow> loop_progress \<Rightarrow> bool" where
  "ok_progress_entry key p e \<longleftrightarrow>
     lp_loopGroupId e = key \<and> lp_evaluator e = cpp_evaluator p \<and> lp_evaluator e \<noteq> [] \<and> lp_subject e = cpp_subject p \<and>
     lp_subject e \<noteq> [] \<and> ok_count (lp_version e) \<and> int (lp_unchanged e) \<le> max_safe \<and>
     pred_option ok_token (lp_baseline e)"

definition ok_progress :: "compiled_plan \<Rightarrow> (string \<times> loop_progress) list \<Rightarrow> bool" where
  "ok_progress plan al \<longleftrightarrow>
     distinct (map fst al) \<and> (\<forall>(k, e) \<in> set al. \<exists>p. policy_of plan k = Some p \<and> ok_progress_entry k p e) \<and>
     (\<forall>g \<in> set (cp_loopGroups plan). clg_progress g \<noteq> None \<longrightarrow> clg_id g \<in> fst ` set al)"

fun reason_of :: "outcome_stop \<Rightarrow> stop_reason" where
  "reason_of (StopLoopExhausted _) = LoopExhausted"
| "reason_of (StopProgressStalled _) = ProgressStalled"
| "reason_of (StopUnreachable _) = UnreachablePendingNode"

fun ok_stop_fields :: "outcome_stop \<Rightarrow> bool" where
  "ok_stop_fields (StopLoopExhausted x) \<longleftrightarrow>
     le_loopGroupId x \<noteq> [] \<and> le_nodeId x \<noteq> [] \<and> le_outcomeId x \<noteq> [] \<and> le_attemptId x \<noteq> [] \<and>
     ok_count (le_traversals x) \<and> ok_count (le_maxTraversals x) \<and> ok_epoch (le_stoppedAt x)"
| "ok_stop_fields (StopProgressStalled x) \<longleftrightarrow>
     ps_loopGroupId x \<noteq> [] \<and> ps_nodeId x \<noteq> [] \<and> ps_outcomeId x \<noteq> [] \<and> ps_attemptId x \<noteq> [] \<and>
     ok_count (ps_unchanged x) \<and> ok_count (ps_maxUnchanged x) \<and> ps_evaluator x \<noteq> [] \<and> ok_count (ps_evaluatorVersion x) \<and>
     ps_subject x \<noteq> [] \<and> ok_token (ps_baseline x) \<and> ok_epoch (ps_stoppedAt x)"
| "ok_stop_fields (StopUnreachable x) \<longleftrightarrow>
     distinct (map fst (up_blockedNodes x)) \<and>
     (\<forall>(k, fs) \<in> set (up_blockedNodes x). sorted fs \<and> (\<forall>f \<in> set fs. f \<noteq> [])) \<and> ok_epoch (up_stoppedAt x)"

definition ok_state :: "state_layout \<Rightarrow> compiled_plan \<Rightarrow> graph_state \<Rightarrow> bool" where
  "ok_state layout plan st \<longleftrightarrow>
     gs_bodyVersion st = sl_version layout \<and> gs_graphId st = cp_graphId plan \<and>
     gs_planRevision st = cp_planRevision plan \<and>
     (gs_phase st = Stopped \<longleftrightarrow> gs_stop st \<noteq> None) \<and>
     (\<forall>x. gs_stop st = Some x \<longrightarrow> reason_of x \<in> set (sl_stopReasons layout) \<and> ok_stop_fields x) \<and>
     int (gs_attemptSeq st) \<le> max_safe \<and> list_all2 (ok_node plan) (cp_nodes plan) (gs_nodes st) \<and>
     verifyArrivals plan (gs_nodes st) = Inr () \<and> ok_counters plan (gs_loopTraversals st) \<and>
     (\<exists>lp. gs_loopProgress st = Some lp \<and> ok_progress plan lp \<and>
        (\<forall>x. gs_stop st = Some x \<longrightarrow> verifyStop plan (gs_nodes st) (gs_loopTraversals st) lp x = Inr ()) \<and>
        verifyProgress plan lp (gs_stop st) = Inr ())"

end
