(* ===== verification/ApprovalPolicy.thy ===== *)
theory ApprovalPolicy
  imports WorkerTools Canonical
begin

text \<open>
  The host's approval policy (\<open>graph/policy/approval-policy.ts\<close>): who may approve which node, and the grant an
  authorization records. A thrown error is \<open>None\<close>; a field read from \<open>JUndef\<close> is absent.
\<close>

datatype approval_mode = IndependentReview | OperatorConfirmation

record approval_grant =
  ag_policyId :: string
  ag_revision :: string
  ag_digest :: string
  ag_mode :: approval_mode

record approval_rule =
  al_graphId :: string
  al_nodeId :: string
  al_approverSessions :: "string list"
  al_mode :: approval_mode

record approval_policy =
  apl_id :: string
  apl_revision :: string
  apl_digest :: string
  apl_rules :: "approval_rule list"

fun approval_identifier :: "jsval \<Rightarrow> string option" where
  "approval_identifier (JStr s) = (if js_trim s = [] then None else Some s)"
| "approval_identifier _ = None"

fun read_mode_text :: "jsval \<Rightarrow> approval_mode option" where
  "read_mode_text (JStr s) =
     (if s = ''independent-review'' then Some IndependentReview
      else if s = ''operator-confirmation'' then Some OperatorConfirmation else None)"
| "read_mode_text _ = None"

fun mode_of_text :: "approval_mode \<Rightarrow> string" where
  "mode_of_text IndependentReview = ''independent-review''"
| "mode_of_text OperatorConfirmation = ''operator-confirmation''"

text \<open>The mode of a rule; an absent one is an independent review.\<close>

definition read_rule_mode :: "jsval \<Rightarrow> approval_mode option" where
  "read_rule_mode v = (if v = JUndef \<or> v = JNull then Some IndependentReview else read_mode_text v)"

fun those_all :: "'a option list \<Rightarrow> 'a list option" where
  "those_all [] = Some []"
| "those_all (None # rest) = None"
| "those_all (Some x # rest) = map_option (\<lambda>xs. x # xs) (those_all rest)"

definition read_approval_rule :: "jsval \<Rightarrow> approval_rule option" where
  "read_approval_rule raw =
     (if \<not> isRecord raw \<or> \<not> only_keys raw [''graphId'', ''nodeId'', ''approverSessions'', ''mode''] then None
      else case (approval_identifier (js_get raw ''graphId''), approval_identifier (js_get raw ''nodeId''),
                 js_array (js_get raw ''approverSessions''), read_rule_mode (js_get raw ''mode'')) of
             (Some graphId, Some nodeId, Some sessions, Some mode) \<Rightarrow>
               if sessions = [] then None
               else map_option (\<lambda>ss. \<lparr>al_graphId = graphId, al_nodeId = nodeId,
                      al_approverSessions = sort (js_set ss), al_mode = mode\<rparr>)
                    (those_all (map approval_identifier sessions))
           | _ \<Rightarrow> None)"

definition enc_approval_rule :: "approval_rule \<Rightarrow> jsval" where
  "enc_approval_rule r = JObj [(''graphId'', JStr (al_graphId r)), (''nodeId'', JStr (al_nodeId r)),
     (''approverSessions'', JArr (map JStr (al_approverSessions r))), (''mode'', JStr (mode_of_text (al_mode r)))]"

definition createApprovalPolicy :: "(string \<Rightarrow> string) \<Rightarrow> (rat \<Rightarrow> string) \<Rightarrow> jsval \<Rightarrow> approval_policy option" where
  "createApprovalPolicy sha num config =
     (if \<not> isRecord config then None
      else case (approval_identifier (js_get config ''id''), approval_identifier (js_get config ''revision'')) of
             (Some i, Some revision) \<Rightarrow>
               if \<not> only_keys config [''id'', ''revision'', ''rules''] then None
               else (case js_array (js_get config ''rules'') of
                       None \<Rightarrow> None
                     | Some raws \<Rightarrow>
                         (case those_all (map read_approval_rule raws) of
                            None \<Rightarrow> None
                          | Some read \<Rightarrow>
                              let rules = sort_key al_graphId (sort_key al_nodeId read) in
                              if length (js_set (map (\<lambda>r. (al_graphId r, al_nodeId r)) rules)) \<noteq> length rules then None
                              else (case contractDigest sha num (JObj [(''id'', JStr i), (''revision'', JStr revision),
                                        (''rules'', JArr (map enc_approval_rule rules))]) of
                                      Inl _ \<Rightarrow> None
                                    | Inr digest \<Rightarrow> Some \<lparr>apl_id = i, apl_revision = revision, apl_digest = digest, apl_rules = rules\<rparr>)))
           | _ \<Rightarrow> None)"

definition authorizeApproval :: "approval_policy \<Rightarrow> string \<Rightarrow> string \<Rightarrow> string \<Rightarrow> string \<Rightarrow> approval_grant option" where
  "authorizeApproval policy graphId nodeId requester approver =
     (case find (\<lambda>r. al_graphId r = graphId \<and> al_nodeId r = nodeId) (apl_rules policy) of
        None \<Rightarrow> None
      | Some rule \<Rightarrow>
          if approver \<notin> set (al_approverSessions rule) then None
          else if al_mode rule = IndependentReview \<and> requester = approver then None
          else Some \<lparr>ag_policyId = apl_id policy, ag_revision = apl_revision policy, ag_digest = apl_digest policy, ag_mode = al_mode rule\<rparr>)"

text \<open>What \<open>readApprovalGrant\<close> demands of a typed grant.\<close>

definition grant_readable :: "approval_grant \<Rightarrow> bool" where
  "grant_readable g \<longleftrightarrow> js_trim (ag_policyId g) \<noteq> [] \<and> js_trim (ag_revision g) \<noteq> [] \<and> js_trim (ag_digest g) \<noteq> []"

end
