(* ===== verification/Ledger.thy ===== *)
theory Ledger
  imports RunStart StateCodec ApprovalPolicy
begin

text \<open>
  The acceptance ledger: the rows of \<open>graph/ledger/types.ts\<close> and the operations of \<open>graph/store/ledger-tables.ts\<close>
  and of the run, control and approval surfaces of \<open>graph/store/graph-store.ts\<close>.

  A table is the list of its rows in insertion order, and an operation is one transaction: an error on the left
  leaves the ledger as it was. The SQL statements are list operations with the primary keys of \<open>graph/store/schema.ts\<close>;
  a driver error that the code wraps is \<open>WriteRejected\<close>, one that it lets through is \<open>UnwrappedError\<close>. Rows are
  typed, so the decoding of a driver row is not modelled. The write locks, the file checks and the text of a
  verdict are left out.
\<close>

subsection \<open>Errors\<close>

datatype write_problem =
    InvalidBatch | InvalidGraphState | InvalidEffect | InvalidLedgerRecord
  | UnrepresentablePayload | UnrepresentableState | UnrepresentableRecord
  | OversizedState | OversizedAcceptedData | WriteRejected

datatype ledger_error = LedgerWrite write_problem | LedgerBudget store_error | UnwrappedError

definition ledger_identifier :: "write_problem \<Rightarrow> string \<Rightarrow> ledger_error + unit" where
  "ledger_identifier problem v = ensure (v \<noteq> []) (LedgerWrite problem)"

definition requireEpoch :: "write_problem \<Rightarrow> int \<Rightarrow> ledger_error + unit" where
  "requireEpoch problem t = ensure (\<bar>t\<bar> \<le> max_safe) (LedgerWrite problem)"

definition requireStoreIdentifier :: "string \<Rightarrow> ledger_error + unit" where
  "requireStoreIdentifier v = ensure (v \<noteq> []) (LedgerWrite InvalidLedgerRecord)"

definition requireStoreEpoch :: "int \<Rightarrow> ledger_error + unit" where
  "requireStoreEpoch t = ensure (\<bar>t\<bar> \<le> max_safe) (LedgerWrite InvalidLedgerRecord)"

text \<open>The steps of a check, in order.\<close>

fun all_steps :: "('e + unit) list \<Rightarrow> 'e + unit" where
  "all_steps [] = Inr ()"
| "all_steps (r # rs) = rbind r (\<lambda>_. all_steps rs)"

lemma all_steps_Inr: "all_steps rs = Inr () \<longleftrightarrow> (\<forall>r \<in> set rs. r = Inr ())"
proof (induction rs)
  case (Cons r rs)
  then show ?case by (cases r) auto
qed simp

text \<open>The first row of a query with an \<open>ORDER BY\<close> on one integer column.\<close>

definition first_ordered :: "('a \<Rightarrow> int) \<Rightarrow> 'a list \<Rightarrow> 'a option" where
  "first_ordered f rows = (case sort_key f rows of [] \<Rightarrow> None | r # _ \<Rightarrow> Some r)"

lemma first_ordered_Some: "first_ordered f rows = Some r \<Longrightarrow> r \<in> set rows"
  by (cases "sort_key f rows") (auto simp: first_ordered_def dest: arg_cong [where f = set])

lemma first_ordered_None [simp]: "first_ordered f rows = None \<longleftrightarrow> rows = []"
proof -
  have "sort_key f rows = [] \<longleftrightarrow> rows = []" by (metis length_0_conv length_sort)
  then show ?thesis by (cases "sort_key f rows") (auto simp: first_ordered_def)
qed

subsection \<open>Rows\<close>

datatype decision_kind = AcceptedKind | RejectedKind

record receipt =
  rcp_graphId :: string
  rcp_attemptId :: string
  rcp_submissionId :: string
  rcp_planRevision :: string
  rcp_proposalDigest :: string
  rcp_decision :: decision_kind
  rcp_committedAt :: int

record accepted_event =
  ev_graphId :: string
  ev_attemptId :: string
  ev_submissionId :: string
  ev_planRevision :: string
  ev_outcomeId :: string
  ev_acceptedAt :: int

record accepted_result =
  res_graphId :: string
  res_attemptId :: string
  res_planRevision :: string
  res_payload :: accepted_data
  res_artifacts :: "accepted_artifact list option"
  res_acceptedAt :: int

datatype effect_status = EffectPending | EffectStarted | EffectDone | EffectFailed

text \<open>In a table every row names its run; in a record offered to a write the run may be absent.\<close>

record effect_record =
  ef_graphId :: string
  ef_runId :: "string option"
  ef_effectId :: string
  ef_attemptId :: string
  ef_kind :: string
  ef_payload :: jsval
  ef_createdAt :: int
  ef_status :: effect_status

datatype control_command =
    FailureCommand | CancelCommand | TimeoutCommand | RetryCommand | BudgetStopCommand
  | ApprovalRequestCommand | ApproveCommand | RejectCommand

definition STOPPING_CONTROL_COMMANDS :: "control_command list" where
  "STOPPING_CONTROL_COMMANDS = [FailureCommand, TimeoutCommand, CancelCommand, BudgetStopCommand]"

record control_principal =
  cpl_sessionId :: string
  cpl_agentId :: "string option"

record run_identity =
  rid_graphId :: string
  rid_runId :: string
  rid_startedAt :: int
  rid_planRevision :: string

record run_control =
  kc_graphId :: string
  kc_runId :: string
  kc_command :: control_command
  kc_reason :: string
  kc_decidedAt :: int
  kc_decidedBy :: "control_principal option"

record run_row =
  rw_identity :: run_identity
  rw_runSeq :: nat
  rw_control :: "run_control option"

record control_decision =
  kd_graphId :: string
  kd_runId :: string
  kd_nodeId :: string
  kd_attemptId :: string
  kd_command :: control_command
  kd_reason :: string
  kd_decidedAt :: int
  kd_decidedBy :: "control_principal option"
  kd_successorAttemptId :: "string option"

record run_reexecution =
  rx_graphId :: string
  rx_runId :: string
  rx_reason :: string
  rx_decidedAt :: int
  rx_decidedBy :: "control_principal option"
  rx_successor :: "(string \<times> int) option"

text \<open>The columns a decision fills are tied to the status by the checks of the table.\<close>

datatype approval_status =
    ApprovalPending
  | ApprovalApproved control_principal int string
  | ApprovalRejected control_principal int string
  | ApprovalExpired int string

record approval_request =
  ap_authority :: approval_grant
  ap_graphId :: string
  ap_runId :: string
  ap_nodeId :: string
  ap_attemptId :: string
  ap_reason :: string
  ap_requestedAt :: int
  ap_requestedBy :: "control_principal option"
  ap_approverSessionId :: string
  ap_expiresAt :: int
  ap_status :: approval_status

record ledger =
  lg_receipts :: "receipt list"
  lg_events :: "accepted_event list"
  lg_results :: "accepted_result list"
  lg_effects :: "effect_record list"
  lg_states :: "(string \<times> graph_state_record) list"
  lg_runs :: "run_row list"
  lg_decisions :: "control_decision list"
  lg_reexecutions :: "run_reexecution list"
  lg_approvals :: "approval_request list"
  lg_reservations :: "reservation list"

definition empty_ledger :: ledger where
  "empty_ledger = \<lparr>lg_receipts = [], lg_events = [], lg_results = [], lg_effects = [], lg_states = [], lg_runs = [],
     lg_decisions = [], lg_reexecutions = [], lg_approvals = [], lg_reservations = []\<rparr>"

subsection \<open>Reads\<close>

definition UNMINTED_RUN_ID :: string where
  "UNMINTED_RUN_ID = ''run:unminted''"

definition readRun :: "ledger \<Rightarrow> string \<Rightarrow> run_row option" where
  "readRun db graphId =
     first_ordered (\<lambda>r. - int (rw_runSeq r)) (filter (\<lambda>r. rid_graphId (rw_identity r) = graphId) (lg_runs db))"

definition readRunOf :: "ledger \<Rightarrow> string \<Rightarrow> string \<Rightarrow> run_row option" where
  "readRunOf db graphId runId =
     find (\<lambda>r. rid_graphId (rw_identity r) = graphId \<and> rid_runId (rw_identity r) = runId) (lg_runs db)"

definition readCurrentRunId :: "ledger \<Rightarrow> string \<Rightarrow> string option" where
  "readCurrentRunId db graphId = map_option (\<lambda>r. rid_runId (rw_identity r)) (readRun db graphId)"

definition runsOf :: "ledger \<Rightarrow> string \<Rightarrow> run_row list" where
  "runsOf db graphId = sort_key rw_runSeq (filter (\<lambda>r. rid_graphId (rw_identity r) = graphId) (lg_runs db))"

definition readRunControlOf :: "ledger \<Rightarrow> string \<Rightarrow> string \<Rightarrow> run_control option" where
  "readRunControlOf db graphId runId = (case readRunOf db graphId runId of None \<Rightarrow> None | Some r \<Rightarrow> rw_control r)"

definition readRunControl :: "ledger \<Rightarrow> string \<Rightarrow> run_control option" where
  "readRunControl db graphId =
     (case readRun db graphId of None \<Rightarrow> None | Some r \<Rightarrow> readRunControlOf db graphId (rid_runId (rw_identity r)))"

definition attempt_decisions :: "ledger \<Rightarrow> string \<Rightarrow> string \<Rightarrow> (control_command \<Rightarrow> bool) \<Rightarrow> control_decision list" where
  "attempt_decisions db graphId attemptId P =
     filter (\<lambda>d. kd_graphId d = graphId \<and> kd_attemptId d = attemptId \<and> P (kd_command d)) (lg_decisions db)"

definition readSupersedingRetry :: "ledger \<Rightarrow> string \<Rightarrow> string \<Rightarrow> control_decision option" where
  "readSupersedingRetry db graphId attemptId =
     first_ordered (\<lambda>d. - kd_decidedAt d) (attempt_decisions db graphId attemptId (\<lambda>c. c = RetryCommand))"

definition readStoppingDecision :: "ledger \<Rightarrow> string \<Rightarrow> string \<Rightarrow> control_decision option" where
  "readStoppingDecision db graphId attemptId =
     first_ordered kd_decidedAt (attempt_decisions db graphId attemptId (\<lambda>c. c \<in> set STOPPING_CONTROL_COMMANDS))"

definition same_attempt_key :: "control_decision \<Rightarrow> control_decision \<Rightarrow> bool" where
  "same_attempt_key d e \<longleftrightarrow> kd_graphId d = kd_graphId e \<and> kd_runId d = kd_runId e \<and> kd_nodeId d = kd_nodeId e \<and>
     kd_attemptId d = kd_attemptId e"

definition readControlCommandDecision :: "ledger \<Rightarrow> control_decision \<Rightarrow> control_decision option" where
  "readControlCommandDecision db key = find (\<lambda>d. same_attempt_key d key \<and> kd_command d = kd_command key) (lg_decisions db)"

definition readStoppingControlDecision :: "ledger \<Rightarrow> control_decision \<Rightarrow> control_decision option" where
  "readStoppingControlDecision db key =
     first_ordered kd_decidedAt
       (filter (\<lambda>d. same_attempt_key d key \<and> kd_command d \<in> set STOPPING_CONTROL_COMMANDS \<and> kd_command d \<noteq> kd_command key)
          (lg_decisions db))"

text \<open>The control decisions of one run, the current one when none is named.\<close>

definition controlDecisions :: "ledger \<Rightarrow> string \<Rightarrow> string option \<Rightarrow> control_decision list" where
  "controlDecisions db graphId runId =
     sort_key kd_decidedAt (filter (\<lambda>d. kd_graphId d = graphId \<and>
        (case (case runId of None \<Rightarrow> readCurrentRunId db graphId | Some r \<Rightarrow> Some r) of
           None \<Rightarrow> True | Some scope \<Rightarrow> kd_runId d = scope)) (lg_decisions db))"

definition lookupReceipt :: "ledger \<Rightarrow> string \<Rightarrow> string \<Rightarrow> string \<Rightarrow> receipt option" where
  "lookupReceipt db graphId attemptId submissionId =
     find (\<lambda>r. rcp_graphId r = graphId \<and> rcp_attemptId r = attemptId \<and> rcp_submissionId r = submissionId) (lg_receipts db)"

definition selectAcceptedEvent :: "ledger \<Rightarrow> string \<Rightarrow> string \<Rightarrow> accepted_event option" where
  "selectAcceptedEvent db graphId attemptId =
     find (\<lambda>e. ev_graphId e = graphId \<and> ev_attemptId e = attemptId) (lg_events db)"

definition acceptedEvents :: "ledger \<Rightarrow> string \<Rightarrow> accepted_event list" where
  "acceptedEvents db graphId =
     sort_key ev_acceptedAt (sort_key ev_attemptId (filter (\<lambda>e. ev_graphId e = graphId) (lg_events db)))"

definition selectEffect :: "ledger \<Rightarrow> string \<Rightarrow> string \<Rightarrow> effect_record option" where
  "selectEffect db graphId effectId =
     find (\<lambda>e. ef_graphId e = graphId \<and> ef_effectId e = effectId) (lg_effects db)"

definition effect_run :: "effect_record \<Rightarrow> string" where
  "effect_run e = (case ef_runId e of None \<Rightarrow> UNMINTED_RUN_ID | Some r \<Rightarrow> r)"

text \<open>The reserved run id of a row reads as absent.\<close>

definition toPendingEffect :: "effect_record \<Rightarrow> effect_record" where
  "toPendingEffect e = (if ef_runId e = Some UNMINTED_RUN_ID then e\<lparr>ef_runId := None\<rparr> else e)"

definition pendingEffects :: "ledger \<Rightarrow> string \<Rightarrow> string option \<Rightarrow> effect_record list" where
  "pendingEffects db graphId runId =
     map toPendingEffect (sort_key ef_createdAt (sort_key ef_effectId (filter (\<lambda>e. ef_graphId e = graphId \<and>
        (ef_status e = EffectPending \<or> ef_status e = EffectStarted) \<and>
        (case (case runId of None \<Rightarrow> readCurrentRunId db graphId | Some r \<Rightarrow> Some r) of
           None \<Rightarrow> True | Some scope \<Rightarrow> effect_run e = scope)) (lg_effects db))))"

definition confirmedCancelAttempts :: "ledger \<Rightarrow> string \<Rightarrow> string option \<Rightarrow> string list" where
  "confirmedCancelAttempts db graphId runId =
     sort (remdups (map ef_attemptId (filter (\<lambda>e. ef_graphId e = graphId \<and> ef_kind e = ''cancel'' \<and> ef_status e = EffectDone \<and>
        (case (case runId of None \<Rightarrow> readCurrentRunId db graphId | Some r \<Rightarrow> Some r) of
           None \<Rightarrow> True | Some scope \<Rightarrow> effect_run e = scope)) (lg_effects db))))"

text \<open>The run of an effect of the attempt that is not the current run of its graph.\<close>

definition supersededRunOf :: "ledger \<Rightarrow> string \<Rightarrow> string \<Rightarrow> string option" where
  "supersededRunOf db graphId attemptId =
     (case readCurrentRunId db graphId of
        None \<Rightarrow> None
      | Some current \<Rightarrow>
          map_option effect_run (first_ordered ef_createdAt
            (filter (\<lambda>e. ef_graphId e = graphId \<and> ef_attemptId e = attemptId \<and> effect_run e \<noteq> current) (lg_effects db))))"

definition readAcceptedResult :: "ledger \<Rightarrow> string \<Rightarrow> string \<Rightarrow> accepted_result option" where
  "readAcceptedResult db graphId attemptId =
     find (\<lambda>r. res_graphId r = graphId \<and> res_attemptId r = attemptId) (lg_results db)"

definition readGraphStateOf :: "ledger \<Rightarrow> string \<Rightarrow> string \<Rightarrow> (string \<times> graph_state_record) option" where
  "readGraphStateOf db graphId runId = find (\<lambda>(r, s). sd_graphId s = graphId \<and> r = runId) (lg_states db)"

text \<open>Without a run identity the row that was inserted last is the answer.\<close>

definition readGraphState :: "ledger \<Rightarrow> string \<Rightarrow> (string \<times> graph_state_record) option" where
  "readGraphState db graphId =
     (case readCurrentRunId db graphId of
        Some runId \<Rightarrow> readGraphStateOf db graphId runId
      | None \<Rightarrow> find (\<lambda>(r, s). sd_graphId s = graphId) (rev (lg_states db)))"

definition readApprovalRequest :: "ledger \<Rightarrow> string \<Rightarrow> string \<Rightarrow> approval_request option" where
  "readApprovalRequest db graphId attemptId =
     first_ordered ap_requestedAt (filter (\<lambda>q. ap_graphId q = graphId \<and> ap_attemptId q = attemptId) (lg_approvals db))"

fun approved :: "approval_status \<Rightarrow> bool" where
  "approved (ApprovalApproved _ _ _) = True"
| "approved _ = False"

definition blockingApproval :: "ledger \<Rightarrow> string \<Rightarrow> string \<Rightarrow> approval_request option" where
  "blockingApproval db graphId attemptId =
     (case readApprovalRequest db graphId attemptId of
        None \<Rightarrow> None
      | Some q \<Rightarrow> if approved (ap_status q) then None else Some q)"

definition approvalRequestsOf :: "ledger \<Rightarrow> string \<Rightarrow> string option \<Rightarrow> approval_request list" where
  "approvalRequestsOf db graphId runId =
     sort_key ap_requestedAt (filter (\<lambda>q. ap_graphId q = graphId \<and>
        (case (case runId of None \<Rightarrow> readCurrentRunId db graphId | Some r \<Rightarrow> Some r) of
           None \<Rightarrow> True | Some scope \<Rightarrow> ap_runId q = scope)) (lg_approvals db))"

definition readReexecution :: "ledger \<Rightarrow> string \<Rightarrow> string \<Rightarrow> run_reexecution option" where
  "readReexecution db graphId runId =
     find (\<lambda>x. rx_graphId x = graphId \<and> rx_runId x = runId) (lg_reexecutions db)"

subsection \<open>Stored texts\<close>

definition GRAPH_STATE_MAX_BYTES :: nat where
  "GRAPH_STATE_MAX_BYTES = 4194304"

definition ACCEPTED_DATA_MAX_BYTES :: nat where
  "ACCEPTED_DATA_MAX_BYTES = 262144"

text \<open>\<open>JSON.stringify\<close>: an undefined member is dropped, an undefined element and a non-finite number are \<open>null\<close>.\<close>

fun json_text :: "(rat \<Rightarrow> string) \<Rightarrow> jsval \<Rightarrow> string"
  and json_elements :: "(rat \<Rightarrow> string) \<Rightarrow> bool \<Rightarrow> jsval list \<Rightarrow> string"
  and json_members :: "(rat \<Rightarrow> string) \<Rightarrow> bool \<Rightarrow> (string \<times> jsval) list \<Rightarrow> string"
where
  "json_text num JUndef = ''null''"
| "json_text num JNull = ''null''"
| "json_text num (JBool b) = (if b then ''true'' else ''false'')"
| "json_text num (JNum n) = (case n of Fin q \<Rightarrow> num q | _ \<Rightarrow> ''null'')"
| "json_text num (JStr s) = json_quote s"
| "json_text num (JArr xs) = ''['' @ json_elements num True xs @ '']''"
| "json_text num (JObj ps) = ''{'' @ json_members num True ps @ ''}''"
| "json_elements num first [] = []"
| "json_elements num first (x # xs) = (if first then [] else '','') @ json_text num x @ json_elements num False xs"
| "json_members num first [] = []"
| "json_members num first ((k, v) # ps) =
     (if v = JUndef then json_members num first ps
      else (if first then [] else '','') @ json_quote k @ '':'' @ json_text num v @ json_members num False ps)"

text \<open>The values \<open>encodeJsonBody\<close> accepts: no undefined value and no non-finite number anywhere.\<close>

fun encodable :: "jsval \<Rightarrow> bool" where
  "encodable JUndef = False"
| "encodable JNull = True"
| "encodable (JBool b) = True"
| "encodable (JNum n) = (case n of Fin q \<Rightarrow> True | _ \<Rightarrow> False)"
| "encodable (JStr s) = True"
| "encodable (JArr xs) = list_all encodable xs"
| "encodable (JObj ps) = list_all (\<lambda>p. encodable (snd p)) ps"

definition encodeJsonBody :: "write_problem \<Rightarrow> jsval \<Rightarrow> ledger_error + unit" where
  "encodeJsonBody problem v = ensure (encodable v) (LedgerWrite problem)"

definition encodePayload :: "jsval \<Rightarrow> ledger_error + unit" where
  "encodePayload payload = encodeJsonBody UnrepresentablePayload payload"

definition encodeStateBody :: "(rat \<Rightarrow> string) \<Rightarrow> jsval \<Rightarrow> ledger_error + unit" where
  "encodeStateBody num body =
     rbind (encodeJsonBody UnrepresentableState body) (\<lambda>_.
       ensure (utf8_length (json_text num body) \<le> GRAPH_STATE_MAX_BYTES) (LedgerWrite OversizedState))"

definition encodeAcceptedData :: "(rat \<Rightarrow> string) \<Rightarrow> accepted_data \<Rightarrow> ledger_error + unit" where
  "encodeAcceptedData num payload =
     rbind (encodeJsonBody UnrepresentableRecord (enc_accepted_data payload)) (\<lambda>_.
       ensure (utf8_length (json_text num (enc_accepted_data payload)) \<le> ACCEPTED_DATA_MAX_BYTES) (LedgerWrite OversizedAcceptedData))"

definition acceptedDataBytes :: "(rat \<Rightarrow> string) \<Rightarrow> accepted_data \<Rightarrow> nat" where
  "acceptedDataBytes num payload = utf8_length (json_text num (enc_accepted_data payload))"

definition is_hex64 :: "string \<Rightarrow> bool" where
  "is_hex64 s \<longleftrightarrow> length s = 64 \<and> list_all (\<lambda>c. c \<in> set ''0123456789abcdef'') s"

definition isArtifactId :: "string \<Rightarrow> bool" where
  "isArtifactId s \<longleftrightarrow> take 7 s = ''sha256:'' \<and> is_hex64 (drop 7 s)"

definition retained_artifact_ok :: "accepted_artifact \<Rightarrow> bool" where
  "retained_artifact_ok a \<longleftrightarrow> aa_ref a \<noteq> [] \<and> isArtifactId (aa_artifactId a) \<and> is_hex64 (aa_digest a) \<and> int (aa_size a) \<le> max_safe"

definition requireRetainedArtifacts :: "accepted_artifact list \<Rightarrow> ledger_error + unit" where
  "requireRetainedArtifacts artifacts = ensure (list_all retained_artifact_ok artifacts) (LedgerWrite InvalidLedgerRecord)"

subsection \<open>Run identities\<close>

definition assertRunShape :: "run_identity \<Rightarrow> ledger_error + unit" where
  "assertRunShape r = all_steps [requireStoreIdentifier (rid_graphId r), requireStoreIdentifier (rid_runId r),
     requireStoreIdentifier (rid_planRevision r), requireStoreEpoch (rid_startedAt r)]"

text \<open>The first run of a graph; a later mint answers the current run.\<close>

definition mintRun :: "run_identity \<Rightarrow> ledger \<Rightarrow> ledger_error + (run_row \<times> ledger)" where
  "mintRun identity db =
     rbind (assertRunShape identity) (\<lambda>_.
       let db' = (if readRun db (rid_graphId identity) = None
                  then db\<lparr>lg_runs := lg_runs db @ [\<lparr>rw_identity = identity, rw_runSeq = 1, rw_control = None\<rparr>]\<rparr>
                  else db)
       in case readRun db' (rid_graphId identity) of
            None \<Rightarrow> Inl (LedgerWrite InvalidLedgerRecord)
          | Some stored \<Rightarrow> Inr (stored, db'))"

definition mintNextRun :: "run_identity \<Rightarrow> string \<Rightarrow> ledger \<Rightarrow> ledger_error + (run_row option \<times> ledger)" where
  "mintNextRun identity afterRunId db =
     rbind (assertRunShape identity) (\<lambda>_.
       case readRun db (rid_graphId identity) of
         None \<Rightarrow> Inr (None, db)
       | Some current \<Rightarrow>
           if rid_runId (rw_identity current) \<noteq> afterRunId then Inr (None, db)
           else if readRunOf db (rid_graphId identity) (rid_runId identity) \<noteq> None then Inl UnwrappedError
           else let row = \<lparr>rw_identity = identity, rw_runSeq = rw_runSeq current + 1, rw_control = None\<rparr>
                in Inr (Some row, db\<lparr>lg_runs := lg_runs db @ [row]\<rparr>))"

subsection \<open>Writes outside a batch\<close>

definition writeRunIdOf :: "ledger \<Rightarrow> string \<Rightarrow> string option \<Rightarrow> ledger_error + string" where
  "writeRunIdOf db graphId explicit =
     (case readCurrentRunId db graphId of
        None \<Rightarrow> Inr (case explicit of None \<Rightarrow> UNMINTED_RUN_ID | Some r \<Rightarrow> r)
      | Some current \<Rightarrow>
          (case explicit of
             None \<Rightarrow> Inr current
           | Some r \<Rightarrow> if r \<noteq> current then Inl (LedgerWrite InvalidLedgerRecord) else Inr current))"

definition assertEffectShape :: "effect_record \<Rightarrow> ledger_error + unit" where
  "assertEffectShape e = all_steps [ledger_identifier InvalidEffect (ef_graphId e), ledger_identifier InvalidEffect (ef_effectId e),
     ledger_identifier InvalidEffect (ef_attemptId e), ledger_identifier InvalidEffect (ef_kind e),
     requireEpoch InvalidEffect (ef_createdAt e), ensure (ef_status e = EffectPending) (LedgerWrite InvalidEffect)]"

text \<open>An intent never moves a row that is already there.\<close>

definition writeEffect :: "effect_record \<Rightarrow> ledger \<Rightarrow> ledger_error + ledger" where
  "writeEffect e db =
     rbind (assertEffectShape e) (\<lambda>_.
     rbind (writeRunIdOf db (ef_graphId e) (ef_runId e)) (\<lambda>runId.
     rbind (encodePayload (ef_payload e)) (\<lambda>_.
       Inr (if selectEffect db (ef_graphId e) (ef_effectId e) \<noteq> None then db
            else db\<lparr>lg_effects := lg_effects db @ [e\<lparr>ef_runId := Some runId\<rparr>]\<rparr>))))"

definition assertGraphStateShape :: "graph_state_record \<Rightarrow> ledger_error + unit" where
  "assertGraphStateShape s = all_steps [ledger_identifier InvalidGraphState (sd_graphId s),
     ledger_identifier InvalidGraphState (sd_planRevision s), requireEpoch InvalidGraphState (sd_updatedAt s)]"

fun replace_state :: "string \<Rightarrow> graph_state_record \<Rightarrow> (string \<times> graph_state_record) list \<Rightarrow> (string \<times> graph_state_record) list" where
  "replace_state runId s [] = [(runId, s)]"
| "replace_state runId s ((r, t) # rows) =
     (if r = runId \<and> sd_graphId t = sd_graphId s then (r, s) # rows else (r, t) # replace_state runId s rows)"

definition writeGraphState :: "(rat \<Rightarrow> string) \<Rightarrow> string option \<Rightarrow> graph_state_record \<Rightarrow> ledger \<Rightarrow> ledger_error + ledger" where
  "writeGraphState num explicit s db =
     rbind (assertGraphStateShape s) (\<lambda>_.
     rbind (writeRunIdOf db (sd_graphId s) explicit) (\<lambda>runId.
     rbind (encodeStateBody num (sd_body s)) (\<lambda>_.
       Inr (db\<lparr>lg_states := replace_state runId s (lg_states db)\<rparr>))))"

definition writeAcceptedResult :: "(rat \<Rightarrow> string) \<Rightarrow> accepted_result \<Rightarrow> ledger \<Rightarrow> ledger_error + ledger" where
  "writeAcceptedResult num r db =
     rbind (all_steps [ledger_identifier InvalidLedgerRecord (res_graphId r), ledger_identifier InvalidLedgerRecord (res_attemptId r),
              ledger_identifier InvalidLedgerRecord (res_planRevision r), requireEpoch InvalidLedgerRecord (res_acceptedAt r)]) (\<lambda>_.
     rbind (encodeAcceptedData num (res_payload r)) (\<lambda>_.
     rbind (case res_artifacts r of None \<Rightarrow> Inr () | Some artifacts \<Rightarrow> requireRetainedArtifacts artifacts) (\<lambda>_.
       Inr (if readAcceptedResult db (res_graphId r) (res_attemptId r) \<noteq> None then db
            else db\<lparr>lg_results := lg_results db @ [r]\<rparr>))))"

subsection \<open>Effect lifecycle\<close>

datatype effect_transition = EffectTransitioned effect_record | EffectUnchanged effect_record | EffectRefused effect_record | EffectMissing

fun terminal_status :: "effect_status \<Rightarrow> bool" where
  "terminal_status EffectDone = True"
| "terminal_status EffectFailed = True"
| "terminal_status _ = False"

definition transition_guard :: "ledger \<Rightarrow> string \<Rightarrow> effect_status \<Rightarrow> effect_record \<Rightarrow> bool" where
  "transition_guard db graphId target e \<longleftrightarrow> \<not> terminal_status (ef_status e) \<and> ef_status e \<noteq> target \<and>
     (case readCurrentRunId db graphId of None \<Rightarrow> True | Some current \<Rightarrow> effect_run e = current)"

definition move_effect :: "ledger \<Rightarrow> string \<Rightarrow> string \<Rightarrow> effect_status \<Rightarrow> ledger" where
  "move_effect db graphId effectId target =
     db\<lparr>lg_effects := map (\<lambda>e. if ef_graphId e = graphId \<and> ef_effectId e = effectId \<and> transition_guard db graphId target e
                               then e\<lparr>ef_status := target\<rparr> else e) (lg_effects db)\<rparr>"

definition transitionEffect :: "string \<Rightarrow> string \<Rightarrow> effect_status \<Rightarrow> ledger \<Rightarrow> ledger_error + (effect_transition \<times> ledger)" where
  "transitionEffect graphId effectId target db =
     (case map_option toPendingEffect (selectEffect db graphId effectId) of
        None \<Rightarrow> Inr (EffectMissing, db)
      | Some current \<Rightarrow>
          if ef_status current = target then Inr (EffectUnchanged current, db)
          else if terminal_status (ef_status current) then Inr (EffectRefused current, db)
          else let currentRun = readCurrentRunId db graphId in
            if currentRun \<noteq> None \<and> ef_runId current \<noteq> None \<and> ef_runId current \<noteq> currentRun then Inr (EffectRefused current, db)
            else if list_ex (\<lambda>e. ef_graphId e = graphId \<and> ef_effectId e = effectId \<and> transition_guard db graphId target e) (lg_effects db)
            then Inr (EffectTransitioned (current\<lparr>ef_status := target\<rparr>), move_effect db graphId effectId target)
            else if currentRun \<noteq> None \<and> ef_runId current \<noteq> currentRun then Inr (EffectRefused current, db)
            else Inl (LedgerWrite InvalidLedgerRecord))"

definition markEffectStarted :: "string \<Rightarrow> string \<Rightarrow> ledger \<Rightarrow> ledger_error + (effect_transition \<times> ledger)" where
  "markEffectStarted graphId effectId = transitionEffect graphId effectId EffectStarted"

definition markEffectDone :: "string \<Rightarrow> string \<Rightarrow> ledger \<Rightarrow> ledger_error + (effect_transition \<times> ledger)" where
  "markEffectDone graphId effectId = transitionEffect graphId effectId EffectDone"

definition markEffectFailed :: "string \<Rightarrow> string \<Rightarrow> ledger \<Rightarrow> ledger_error + (effect_transition \<times> ledger)" where
  "markEffectFailed graphId effectId = transitionEffect graphId effectId EffectFailed"

end
