(* ===== verification/Artifacts.thy ===== *)
theory Artifacts
  imports Ledger
begin

text \<open>
  The artifact store (\<open>graph/store/artifacts.ts\<close>) and the reading of an evidence reference
  (\<open>readArtifact\<close> of \<open>graph/outcome/validators.ts\<close>). A file's content is a string of bytes and SHA-256 is a parameter.
  The directory of retained objects is the list of its files; which system calls fail, and the random name of a
  temporary file, are given with each deposit. Paths are POSIX paths.
\<close>

subsection \<open>The object directory\<close>

type_synonym object_dir = "(string \<times> string) list"

definition artifactIdOf :: "string \<Rightarrow> string" where
  "artifactIdOf digest = ''sha256:'' @ digest"

definition object_name :: "string \<Rightarrow> string" where
  "object_name artifactId = drop (length ''sha256:'') artifactId"

datatype artifact_problem =
    NotAnIdentity | NotPresent | DoesNotVerify
  | DirectoryNotCreated | NotWritten | NotPublished | ExistingDoesNotVerify

text \<open>The read verifies: the bytes of an object hash to its identity.\<close>

definition readArtifactById :: "(string \<Rightarrow> string) \<Rightarrow> bool \<Rightarrow> object_dir \<Rightarrow> string \<Rightarrow> artifact_problem + (string \<times> string)" where
  "readArtifactById sha unreadable dir artifactId =
     (if \<not> isArtifactId artifactId then Inl NotAnIdentity
      else case (if unreadable then None else map_of dir (object_name artifactId)) of
             None \<Rightarrow> Inl NotPresent
           | Some bytes \<Rightarrow> if artifactIdOf (sha bytes) \<noteq> artifactId then Inl DoesNotVerify else Inr (bytes, sha bytes))"

text \<open>A failed write may leave a part of the bytes in the temporary file.\<close>

datatype write_fault = WriteWorks | WriteFails "string option"

record deposit_faults =
  df_token :: string
  df_mkdir :: bool
  df_write :: write_fault
  df_link :: bool
  df_read :: bool

definition TEMPORARY_PREFIX :: string where
  "TEMPORARY_PREFIX = ''.deposit-''"

definition discardTemporary :: "string \<Rightarrow> object_dir \<Rightarrow> object_dir" where
  "discardTemporary name dir = filter (\<lambda>(n, _). n \<noteq> name) dir"

record artifact_deposit =
  ad_artifactId :: string
  ad_digest :: string
  ad_size :: nat

definition putArtifact ::
  "(string \<Rightarrow> string) \<Rightarrow> deposit_faults \<Rightarrow> string \<Rightarrow> object_dir \<Rightarrow> (artifact_problem + artifact_deposit) \<times> object_dir" where
  "putArtifact sha faults bytes dir =
     (let digest = sha bytes; artifactId = artifactIdOf digest; temporary = TEMPORARY_PREFIX @ df_token faults in
      if df_mkdir faults then (Inl DirectoryNotCreated, dir)
      else if map_of dir temporary \<noteq> None then (Inl NotWritten, dir)
      else case df_write faults of
        WriteFails None \<Rightarrow> (Inl NotWritten, dir)
      | WriteFails (Some part) \<Rightarrow> (Inl NotWritten, dir @ [(temporary, part)])
      | WriteWorks \<Rightarrow>
          (let written = dir @ [(temporary, bytes)] in
           if df_link faults then (Inl NotPublished, discardTemporary temporary written)
           else if map_of written (object_name artifactId) = None
           then (Inr \<lparr>ad_artifactId = artifactId, ad_digest = digest, ad_size = length bytes\<rparr>,
                 discardTemporary temporary (written @ [(object_name artifactId, bytes)]))
           else (case readArtifactById sha (df_read faults) (discardTemporary temporary written) artifactId of
                   Inl _ \<Rightarrow> (Inl ExistingDoesNotVerify, discardTemporary temporary written)
                 | Inr (existing, existingDigest) \<Rightarrow>
                     (Inr \<lparr>ad_artifactId = artifactId, ad_digest = existingDigest, ad_size = length existing\<rparr>,
                      discardTemporary temporary written))))"

subsection \<open>What a deposit promises\<close>

definition object_file :: "string \<Rightarrow> bool" where
  "object_file name \<longleftrightarrow> is_hex64 name"

lemma temporary_no_object: "object_file name \<Longrightarrow> name \<noteq> TEMPORARY_PREFIX @ t"
  by (auto simp: object_file_def is_hex64_def TEMPORARY_PREFIX_def)

lemma map_of_discard: "map_of (discardTemporary t dir) name = (if name = t then None else map_of dir name)"
  by (induction dir) (auto simp: discardTemporary_def)

lemma object_name_id [simp]: "object_name (artifactIdOf d) = d"
  by (simp add: object_name_def artifactIdOf_def)

lemma isArtifactId_id [simp]: "isArtifactId (artifactIdOf d) \<longleftrightarrow> is_hex64 d"
  by (simp add: isArtifactId_def artifactIdOf_def)

lemma artifactIdOf_inj [simp]: "artifactIdOf d = artifactIdOf e \<longleftrightarrow> d = e"
  by (simp add: artifactIdOf_def)

text \<open>Publish once: no deposit changes an object that is already there.\<close>

lemma deposit_keeps_objects:
  assumes "object_file name" and "map_of dir name = Some content"
  shows "map_of (snd (putArtifact sha faults bytes dir)) name = Some content"
  using assms temporary_no_object [OF assms(1), of "df_token faults"]
  by (auto simp: putArtifact_def Let_def map_of_discard map_add_def split: write_fault.splits option.splits sum.splits)

text \<open>A deposit that is answered can be read back: the object holds bytes with the digest the deposit names.\<close>

lemma putArtifact_Inr:
  assumes "putArtifact sha faults bytes dir = (Inr d, dir')"
  shows "(map_of (dir @ [(TEMPORARY_PREFIX @ df_token faults, bytes)]) (sha bytes) = None \<and>
      d = \<lparr>ad_artifactId = artifactIdOf (sha bytes), ad_digest = sha bytes, ad_size = length bytes\<rparr> \<and>
      dir' = discardTemporary (TEMPORARY_PREFIX @ df_token faults) (dir @ [(TEMPORARY_PREFIX @ df_token faults, bytes), (sha bytes, bytes)])) \<or>
    (\<exists>content digest. readArtifactById sha (df_read faults) dir' (artifactIdOf (sha bytes)) = Inr (content, digest) \<and>
      d = \<lparr>ad_artifactId = artifactIdOf (sha bytes), ad_digest = digest, ad_size = length content\<rparr>)"
  using assms by (auto simp: putArtifact_def Let_def split: if_splits write_fault.splits option.splits sum.splits)

lemma read_verifies: "readArtifactById sha unreadable dir i = Inr (content, d) \<Longrightarrow> d = sha content \<and> i = artifactIdOf d"
  by (auto simp: readArtifactById_def split: if_splits option.splits)

lemma read_reliably: "readArtifactById sha unreadable dir i = Inr r \<Longrightarrow> readArtifactById sha False dir i = Inr r"
  by (auto simp: readArtifactById_def split: if_splits)

lemma deposit_readable:
  assumes hex: "is_hex64 (sha bytes)" and put: "putArtifact sha faults bytes dir = (Inr d, dir')"
  shows "ad_artifactId d = artifactIdOf (sha bytes) \<and> ad_digest d = sha bytes \<and>
    (\<exists>content. readArtifactById sha False dir' (ad_artifactId d) = Inr (content, ad_digest d) \<and> length content = ad_size d \<and> sha content = sha bytes)"
proof -
  let ?t = "TEMPORARY_PREFIX @ df_token faults"
  have name: "sha bytes \<noteq> ?t"
    by (rule temporary_no_object) (simp add: object_file_def hex)
  from putArtifact_Inr [OF put] consider
      (fresh) "map_of (dir @ [(?t, bytes)]) (sha bytes) = None" "d = \<lparr>ad_artifactId = artifactIdOf (sha bytes), ad_digest = sha bytes, ad_size = length bytes\<rparr>"
        "dir' = discardTemporary ?t (dir @ [(?t, bytes), (sha bytes, bytes)])"
    | (reused) content digest where "readArtifactById sha (df_read faults) dir' (artifactIdOf (sha bytes)) = Inr (content, digest)"
        "d = \<lparr>ad_artifactId = artifactIdOf (sha bytes), ad_digest = digest, ad_size = length content\<rparr>" by (elim disjE exE conjE)
  then show ?thesis
  proof cases
    case fresh
    then have "map_of dir' (sha bytes) = Some bytes" using name by (auto simp: map_of_discard map_add_def split: option.splits)
    then show ?thesis using fresh(2) hex by (simp add: readArtifactById_def)
  next
    case reused
    from read_verifies [OF reused(1)] read_reliably [OF reused(1)] reused(2) show ?thesis by auto
  qed
qed

subsection \<open>Evidence references\<close>

text \<open>The file system a reference is read from; \<open>None\<close> is a call that throws.\<close>

record filesystem =
  fs_realpath :: "string \<Rightarrow> string option"
  fs_is_file :: "string \<Rightarrow> bool option"
  fs_read :: "string \<Rightarrow> string option"

definition slash :: char where
  "slash = CHR ''/''"

fun split_path :: "string \<Rightarrow> string \<Rightarrow> string list" where
  "split_path seg [] = [seg]"
| "split_path seg (c # cs) = (if c = slash then seg # split_path [] cs else split_path (seg @ [c]) cs)"

definition push_segment :: "string list \<Rightarrow> string \<Rightarrow> string list" where
  "push_segment stack seg =
     (if seg = [] \<or> seg = ''.'' then stack else if seg = ''..'' then butlast stack else stack @ [seg])"

definition normalize_path :: "string \<Rightarrow> string" where
  "normalize_path path =
     (let segs = foldl push_segment [] (split_path [] path)
      in if segs = [] then [slash] else concat (map (\<lambda>s. slash # s) segs))"

text \<open>\<open>path.resolve\<close> from an absolute base.\<close>

definition resolve_path :: "string \<Rightarrow> string \<Rightarrow> string" where
  "resolve_path base ref = normalize_path (if take 1 ref = [slash] then ref else base @ [slash] @ ref)"

definition isInside :: "string \<Rightarrow> string \<Rightarrow> bool" where
  "isInside base candidate \<longleftrightarrow>
     candidate = base \<or>
     (let prefix = (if base \<noteq> [] \<and> last base = slash then base else base @ [slash]) in take (length prefix) candidate = prefix)"

datatype evidence_problem =
    EmptyReference | RootUnresolved | ReferenceEscapes | ReferenceUnresolved | LinkEscapes | NotRegularFile | NotExaminable | NotReadable

definition readArtifact :: "(string \<Rightarrow> string) \<Rightarrow> filesystem \<Rightarrow> string \<Rightarrow> string \<Rightarrow> evidence_problem + (accepted_artifact \<times> string)" where
  "readArtifact sha fs base ref =
     (if ref = [] \<or> char_of (0::nat) \<in> set ref then Inl EmptyReference
      else case fs_realpath fs base of
        None \<Rightarrow> Inl RootUnresolved
      | Some realRoot \<Rightarrow>
          (let candidate = resolve_path realRoot ref in
           if \<not> isInside realRoot candidate then Inl ReferenceEscapes
           else case fs_realpath fs candidate of
             None \<Rightarrow> Inl ReferenceUnresolved
           | Some realPath \<Rightarrow>
               if \<not> isInside realRoot realPath then Inl LinkEscapes
               else (case fs_is_file fs realPath of
                       None \<Rightarrow> Inl NotExaminable
                     | Some False \<Rightarrow> Inl NotRegularFile
                     | Some True \<Rightarrow>
                         (case fs_read fs realPath of
                            None \<Rightarrow> Inl NotReadable
                          | Some bytes \<Rightarrow>
                              Inr (\<lparr>aa_ref = ref, aa_artifactId = artifactIdOf (sha bytes), aa_digest = sha bytes, aa_size = length bytes\<rparr>, bytes)))))"

text \<open>What is read is a regular file inside the real base, and the evidence describes exactly its bytes.\<close>

lemma readArtifact_sound:
  assumes "readArtifact sha fs base ref = Inr (a, bytes)"
  shows "\<exists>realRoot realPath. fs_realpath fs base = Some realRoot \<and> isInside realRoot realPath \<and> fs_is_file fs realPath = Some True \<and>
    fs_read fs realPath = Some bytes \<and> a = \<lparr>aa_ref = ref, aa_artifactId = artifactIdOf (sha bytes), aa_digest = sha bytes, aa_size = length bytes\<rparr>"
  using assms by (auto simp: readArtifact_def Let_def split: if_splits option.splits bool.splits)

lemma resolve_examples:
  "resolve_path ''/w'' ''a/../b'' = ''/w/b''" "resolve_path ''/w'' ''../x'' = ''/x''" "\<not> isInside ''/w'' (resolve_path ''/w'' ''../wx'')"
  by code_simp+

end
