(* ===== verification/Validators.thy ===== *)
theory Validators
  imports Proposal Artifacts
begin

text \<open>
  The validator capability (\<open>graph/outcome/validators.ts\<close>): exact identities, the registry, and the artifact-reference
  gate. An implementation is a function of its request that may throw; it is a parameter of the model except for the
  artifact-reference gate, which is modelled.
\<close>

type_synonym validator_key = "string \<times> int"

record execution_identity =
  xi_graphId :: string
  xi_attemptId :: string
  xi_submissionId :: string

datatype validation_outcome =
    Pass "accepted_artifact list"
  | Fail string
  | Indeterminate string

record validator_request =
  vr_key :: validator_key
  vr_proposal :: normalized_proposal
  vr_proposalDigest :: string
  vr_planRevision :: string
  vr_identity :: execution_identity
  vr_artifactRoot :: string
  vr_dataContract :: "compiled_outcome_data option"
  vr_now :: int

text \<open>An implementation that throws answers the error's text on the left.\<close>

type_synonym validator_implementation = "validator_request \<Rightarrow> string + validation_outcome"

subsection \<open>The registry\<close>

record validator_registration =
  vg_id :: jsval
  vg_version :: jsval
  vg_implementation :: "validator_implementation option"

datatype registration_problem = NoIdentity | NoVersion | NoImplementation | RegisteredTwice

text \<open>The version text of a key: versions are positive integers.\<close>

definition keyText :: "validator_key \<Rightarrow> string" where
  "keyText key = fst key @ [char_of (0::nat)] @ show_nat (nat (snd key))"

definition validatorKeyText :: "validator_key \<Rightarrow> string" where
  "validatorKeyText key = fst key @ ''@'' @ show_nat (nat (snd key))"

type_synonym validator_registry = "(validator_key \<times> validator_implementation) list"

definition lookup_validator :: "validator_registry \<Rightarrow> validator_key \<Rightarrow> validator_implementation option" where
  "lookup_validator registry key = map_option snd (find (\<lambda>(k, _). keyText k = keyText key) registry)"

fun install_validators :: "validator_registration list \<Rightarrow> validator_registry \<Rightarrow> registration_problem + validator_registry" where
  "install_validators [] registry = Inr registry"
| "install_validators (r # rs) registry =
     (case nonempty_string (vg_id r) of
        None \<Rightarrow> Inl NoIdentity
      | Some i \<Rightarrow>
          (case readValidatorVersion (vg_version r) of
             None \<Rightarrow> Inl NoVersion
           | Some version \<Rightarrow>
               (case vg_implementation r of
                  None \<Rightarrow> Inl NoImplementation
                | Some implementation \<Rightarrow>
                    if lookup_validator registry (i, version) \<noteq> None then Inl RegisteredTwice
                    else install_validators rs (registry @ [((i, version), implementation)]))))"

definition createValidatorRegistry :: "validator_registration list \<Rightarrow> registration_problem + validator_registry" where
  "createValidatorRegistry registrations = install_validators registrations []"

subsection \<open>The artifact-reference gate\<close>

definition ARTIFACT_REFERENCE_VALIDATOR_ID :: string where
  "ARTIFACT_REFERENCE_VALIDATOR_ID = ''artifact-reference''"

definition ARTIFACT_REFERENCE_VALIDATOR_VERSION :: int where
  "ARTIFACT_REFERENCE_VALIDATOR_VERSION = 1"

datatype gate_problem = EvidenceProblem string evidence_problem | RetainProblem string artifact_problem

text \<open>
  One pass over the references: each is read once, and with a store its bytes are deposited. The faults of a deposit
  are those of the reference's position.
\<close>

fun gate_refs ::
  "(string \<Rightarrow> string) \<Rightarrow> filesystem \<Rightarrow> (nat \<Rightarrow> deposit_faults) option \<Rightarrow> string \<Rightarrow> nat \<Rightarrow> string list \<Rightarrow>
   gate_problem list \<times> accepted_artifact list \<Rightarrow> object_dir \<Rightarrow> (gate_problem list \<times> accepted_artifact list) \<times> object_dir" where
  "gate_refs sha fs store base i [] acc dir = (acc, dir)"
| "gate_refs sha fs store base i (ref # refs) (problems, evidence) dir =
     (case readArtifact sha fs base ref of
        Inl p \<Rightarrow> gate_refs sha fs store base (i + 1) refs (problems @ [EvidenceProblem ref p], evidence) dir
      | Inr (a, bytes) \<Rightarrow>
          (case store of
             None \<Rightarrow> gate_refs sha fs store base (i + 1) refs (problems, evidence @ [a]) dir
           | Some faults \<Rightarrow>
               (case putArtifact sha (faults i) bytes dir of
                  (Inl p, dir') \<Rightarrow> gate_refs sha fs store base (i + 1) refs (problems @ [RetainProblem ref p], evidence) dir'
                | (Inr d, dir') \<Rightarrow>
                    gate_refs sha fs store base (i + 1) refs
                      (problems, evidence @ [a\<lparr>aa_artifactId := ad_artifactId d, aa_digest := ad_digest d, aa_size := ad_size d\<rparr>]) dir')))"

definition artifactReferenceGate ::
  "(string \<Rightarrow> string) \<Rightarrow> filesystem \<Rightarrow> (nat \<Rightarrow> deposit_faults) option \<Rightarrow> validator_request \<Rightarrow> object_dir \<Rightarrow> validation_outcome \<times> object_dir" where
  "artifactReferenceGate sha fs store req dir =
     (let refs = nr_evidenceRefs (vr_proposal req) in
      if refs = [] then (Fail ''the submission declares no evidence references'', dir)
      else case gate_refs sha fs store (vr_artifactRoot req) 0 refs ([], []) dir of
             ((problems, evidence), dir') \<Rightarrow>
               if problems \<noteq> [] then (Fail ''evidence references did not resolve to readable artifacts'', dir')
               else (Pass evidence, dir'))"

subsection \<open>Facts\<close>

lemma keyText_inj:
  assumes "keyText (i, v) = keyText (j, w)" and "0 < v" and "0 < w"
  shows "i = j \<and> v = w"
proof -
  have digits: "char_of (0::nat) \<notin> set (show_nat n)" for n
  proof (induction n rule: show_nat.induct)
    case (1 n)
    have d: "digit_char d \<noteq> char_of (0::nat)" if "d < 10" for d using of_char_digit [OF that] by auto
    show ?case
    proof (cases "n < 10")
      case True
      with d [of n] show ?thesis by (subst show_nat.simps) auto
    next
      case False
      with 1 d [of "n mod 10"] show ?thesis by (subst show_nat.simps) auto
    qed
  qed
  have "takeWhile (\<lambda>c. c \<noteq> char_of (0::nat)) (rev (keyText (k, u))) = rev (show_nat (nat u))" for k u
    using digits [of "nat u"] by (simp add: keyText_def takeWhile_append)
  then have "rev (show_nat (nat v)) = rev (show_nat (nat w))" using assms(1) by metis
  then have "nat v = nat w" by (simp add: show_nat_inj)
  then show ?thesis using assms by (simp add: keyText_def)
qed

lemma lookup_validator_exact:
  assumes "lookup_validator registry (i, v) = Some f" and "0 < v" and "\<forall>e \<in> set registry. 0 < snd (fst e)"
  shows "((i, v), f) \<in> set registry"
proof -
  from assms(1) obtain k where k: "(k, f) \<in> set registry" "keyText k = keyText (i, v)"
    by (auto simp: lookup_validator_def dest!: find_Some_in)
  from keyText_inj [of "fst k" "snd k" i v] k assms(2,3) have "k = (i, v)" by (cases k) fastforce
  with k(1) show ?thesis by simp
qed

text \<open>
  A passing gate has read every reference inside the artifact root and answers exactly what it read; with a store, each
  revision it names can be read back, and no object that was in the store has changed.
\<close>

definition gated :: "(string \<Rightarrow> string) \<Rightarrow> filesystem \<Rightarrow> bool \<Rightarrow> string \<Rightarrow> object_dir \<Rightarrow> string \<Rightarrow> accepted_artifact \<Rightarrow> bool" where
  "gated sha fs retained base dir ref a \<longleftrightarrow>
     (\<exists>a' bytes. readArtifact sha fs base ref = Inr (a', bytes) \<and> aa_ref a = ref \<and> aa_digest a = sha bytes \<and>
        aa_artifactId a = artifactIdOf (sha bytes) \<and>
        (retained \<longrightarrow> (\<exists>content. readArtifactById sha False dir (aa_artifactId a) = Inr (content, sha bytes))))"

definition objects_kept :: "object_dir \<Rightarrow> object_dir \<Rightarrow> bool" where
  "objects_kept dir dir' \<longleftrightarrow> (\<forall>name content. object_file name \<longrightarrow> map_of dir name = Some content \<longrightarrow> map_of dir' name = Some content)"

lemma objects_kept_trans: "objects_kept dir dir' \<Longrightarrow> objects_kept dir' dir'' \<Longrightarrow> objects_kept dir dir''"
  by (simp add: objects_kept_def)

lemma deposit_objects_kept: "objects_kept dir (snd (putArtifact sha faults bytes dir))"
  by (simp add: objects_kept_def deposit_keeps_objects)

lemma read_kept:
  assumes "objects_kept dir dir'" and "readArtifactById sha False dir i = Inr r"
  shows "readArtifactById sha False dir' i = Inr r"
proof -
  from assms(2) obtain bytes where b: "isArtifactId i" "map_of dir (object_name i) = Some bytes" by (auto simp: readArtifactById_def split: if_splits option.splits)
  then have "object_file (object_name i)" by (simp add: object_file_def isArtifactId_def object_name_def eval_nat_numeral)
  with assms(1) b have "map_of dir' (object_name i) = Some bytes" by (simp add: objects_kept_def)
  with assms(2) b show ?thesis by (simp add: readArtifactById_def)
qed

lemma gated_kept: "objects_kept dir dir' \<Longrightarrow> gated sha fs retained base dir ref a \<Longrightarrow> gated sha fs retained base dir' ref a"
  unfolding gated_def using read_kept by blast

lemma gate_refs_problems: "\<exists>ps. fst (fst (gate_refs sha fs store base i refs (problems, evidence) dir)) = problems @ ps"
proof (induction refs arbitrary: i problems evidence dir)
  case (Cons ref refs)
  have "\<exists>ps. fst (fst (gate_refs sha fs store base i refs (problems @ p, evidence) dir)) = problems @ ps" for i p evidence dir
    using Cons.IH [of i "problems @ p" evidence dir] by auto
  from this [where p = "[]"] this show ?case
    by (auto split: sum.splits option.splits prod.splits)
qed simp

lemma gate_refs_Pass:
  assumes hex: "\<And>b. is_hex64 (sha b)"
    and "gate_refs sha fs store base i refs ([], evidence) dir = (([], ev), dir')"
  shows "\<exists>es. ev = evidence @ es \<and> objects_kept dir dir' \<and> list_all2 (gated sha fs (store \<noteq> None) base dir') refs es"
  using assms(2)
proof (induction refs arbitrary: i evidence dir)
  case Nil
  then show ?case by (simp add: objects_kept_def)
next
  case (Cons ref refs)
  have no: "gate_refs sha fs store base j refs ([p], evs) d \<noteq> (([], ev), dir')" for j p evs d
    using gate_refs_problems [of sha fs store base j refs "[p]" evs d] by force
  obtain a bytes where r: "readArtifact sha fs base ref = Inr (a, bytes)"
    using Cons.prems no by (cases "readArtifact sha fs base ref") auto
  have a: "a = \<lparr>aa_ref = ref, aa_artifactId = artifactIdOf (sha bytes), aa_digest = sha bytes, aa_size = length bytes\<rparr>"
    using readArtifact_sound [OF r] by blast
  show ?case
  proof (cases store)
    case None
    with Cons.prems r have "gate_refs sha fs store base (i + 1) refs ([], evidence @ [a]) dir = (([], ev), dir')" by simp
    from Cons.IH [OF this] obtain es where es: "ev = (evidence @ [a]) @ es" "objects_kept dir dir'" "list_all2 (gated sha fs (store \<noteq> None) base dir') refs es" by blast
    moreover have "gated sha fs (store \<noteq> None) base dir' ref a" using r None by (simp add: gated_def a)
    ultimately show ?thesis by (intro exI [of _ "a # es"]) simp
  next
    case (Some faults)
    obtain res dir1 where put: "putArtifact sha (faults i) bytes dir = (res, dir1)" by fastforce
    with Cons.prems r Some no obtain d where d: "res = Inr d" by (cases res) auto
    let ?a = "a\<lparr>aa_artifactId := ad_artifactId d, aa_digest := ad_digest d, aa_size := ad_size d\<rparr>"
    from Cons.prems r Some put d have "gate_refs sha fs store base (i + 1) refs ([], evidence @ [?a]) dir1 = (([], ev), dir')" by simp
    from Cons.IH [OF this] obtain es where es: "ev = (evidence @ [?a]) @ es" "objects_kept dir1 dir'" "list_all2 (gated sha fs (store \<noteq> None) base dir') refs es" by blast
    have kept: "objects_kept dir dir1" using deposit_objects_kept [of dir sha "faults i" bytes] put by simp
    from deposit_readable [of sha bytes "faults i" dir d dir1] hex put d obtain content where c: "ad_artifactId d = artifactIdOf (sha bytes)" "ad_digest d = sha bytes"
        "readArtifactById sha False dir1 (ad_artifactId d) = Inr (content, ad_digest d)" by blast
    then have "gated sha fs (store \<noteq> None) base dir1 ref ?a" using r a by (auto simp: gated_def)
    with es(2) have "gated sha fs (store \<noteq> None) base dir' ref ?a" by (rule gated_kept)
    with es objects_kept_trans [OF kept es(2)] show ?thesis by (intro exI [of _ "?a # es"]) simp
  qed
qed

lemma artifact_gate_Pass:
  assumes "\<And>b. is_hex64 (sha b)" and "artifactReferenceGate sha fs store req dir = (Pass evidence, dir')"
  shows "evidence \<noteq> [] \<and> objects_kept dir dir' \<and>
    list_all2 (gated sha fs (store \<noteq> None) (vr_artifactRoot req) dir') (nr_evidenceRefs (vr_proposal req)) evidence"
proof -
  from assms(2) have g: "nr_evidenceRefs (vr_proposal req) \<noteq> []"
      "gate_refs sha fs store (vr_artifactRoot req) 0 (nr_evidenceRefs (vr_proposal req)) ([], []) dir = (([], evidence), dir')"
    by (auto simp: artifactReferenceGate_def Let_def split: if_splits prod.splits)
  from gate_refs_Pass [OF assms(1) g(2)] g(1) show ?thesis by (auto dest: list_all2_lengthD)
qed

end
