(* ===== verification/LedgerCommit.thy ===== *)
theory LedgerCommit
  imports Ledger
begin

text \<open>
  The commit of one acceptance batch (\<open>LedgerTables.commitAccepted\<close>), the control surface (\<open>writeControlDecision\<close>,
  \<open>claimRunControl\<close>, the re-execution orders) and the approval surface of the store.

  The commit is a fast path of reads and a guarded write. The write takes the ledger it runs on as an argument of
  its own, so a command that commits between the two is the case of two different ledgers.
\<close>

subsection \<open>The batch\<close>

record acceptance_batch =
  bt_receipt :: receipt
  bt_acceptedEvent :: "accepted_event option"
  bt_acceptedResult :: "accepted_result option"
  bt_effects :: "effect_record list"

datatype commit_verdict =
    Committed receipt
  | Replayed receipt
  | Conflict receipt
  | AlreadySettled accepted_event
  | Controlled run_control
  | Superseded control_decision
  | AttemptStopped control_decision
  | RunSuperseded string
  | ApprovalBlocked approval_request

definition requireSame :: "string \<Rightarrow> string \<Rightarrow> ledger_error + unit" where
  "requireSame v expected = ensure (v = expected) (LedgerWrite InvalidBatch)"

definition event_shape :: "receipt \<Rightarrow> accepted_event \<Rightarrow> (ledger_error + unit) list" where
  "event_shape r e = [requireSame (ev_graphId e) (rcp_graphId r), requireSame (ev_attemptId e) (rcp_attemptId r),
     requireSame (ev_submissionId e) (rcp_submissionId r), requireSame (ev_planRevision e) (rcp_planRevision r),
     ledger_identifier InvalidBatch (ev_outcomeId e), requireEpoch InvalidBatch (ev_acceptedAt e)]"

definition result_shape :: "receipt \<Rightarrow> accepted_result \<Rightarrow> (ledger_error + unit) list" where
  "result_shape r x = [ensure (rcp_decision r = AcceptedKind) (LedgerWrite InvalidBatch),
     ledger_identifier InvalidBatch (res_graphId x), ledger_identifier InvalidBatch (res_attemptId x),
     ledger_identifier InvalidBatch (res_planRevision x), requireEpoch InvalidBatch (res_acceptedAt x),
     requireSame (res_graphId x) (rcp_graphId r), requireSame (res_attemptId x) (rcp_attemptId r),
     requireSame (res_planRevision x) (rcp_planRevision r)]"

definition effect_shape :: "receipt \<Rightarrow> effect_record \<Rightarrow> (ledger_error + unit) list" where
  "effect_shape r e = [ledger_identifier InvalidBatch (ef_effectId e), ledger_identifier InvalidBatch (ef_kind e),
     requireSame (ef_graphId e) (rcp_graphId r), requireSame (ef_attemptId e) (rcp_attemptId r),
     requireEpoch InvalidBatch (ef_createdAt e), ensure (ef_status e = EffectPending) (LedgerWrite InvalidBatch)]"

definition assertBatchShape :: "acceptance_batch \<Rightarrow> ledger_error + unit" where
  "assertBatchShape batch =
     (let r = bt_receipt batch in
      all_steps
        ([ledger_identifier InvalidBatch (rcp_graphId r), ledger_identifier InvalidBatch (rcp_attemptId r),
          ledger_identifier InvalidBatch (rcp_submissionId r), ledger_identifier InvalidBatch (rcp_planRevision r),
          ledger_identifier InvalidBatch (rcp_proposalDigest r), requireEpoch InvalidBatch (rcp_committedAt r),
          ensure ((rcp_decision r = AcceptedKind) = (bt_acceptedEvent batch \<noteq> None)) (LedgerWrite InvalidBatch)] @
         (case bt_acceptedEvent batch of None \<Rightarrow> [] | Some e \<Rightarrow> event_shape r e) @
         (case bt_acceptedResult batch of None \<Rightarrow> [] | Some x \<Rightarrow> result_shape r x) @
         concat (map (effect_shape r) (bt_effects batch))))"

subsection \<open>The guarded write\<close>

text \<open>The five \<open>NOT EXISTS\<close> clauses of the receipt's insert.\<close>

definition batch_guard :: "ledger \<Rightarrow> string \<Rightarrow> string \<Rightarrow> bool" where
  "batch_guard db graphId attemptId \<longleftrightarrow>
     \<not> list_ex (\<lambda>r. rid_graphId (rw_identity r) = graphId \<and> rw_control r \<noteq> None \<and>
                    Some (rid_runId (rw_identity r)) = readCurrentRunId db graphId) (lg_runs db) \<and>
     \<not> list_ex (\<lambda>d. kd_graphId d = graphId \<and> kd_attemptId d = attemptId \<and> kd_command d = RetryCommand) (lg_decisions db) \<and>
     \<not> list_ex (\<lambda>e. ef_graphId e = graphId \<and> ef_attemptId e = attemptId \<and>
                    (case readCurrentRunId db graphId of None \<Rightarrow> False | Some current \<Rightarrow> effect_run e \<noteq> current)) (lg_effects db) \<and>
     \<not> list_ex (\<lambda>q. ap_graphId q = graphId \<and> ap_attemptId q = attemptId \<and> \<not> approved (ap_status q)) (lg_approvals db) \<and>
     \<not> list_ex (\<lambda>d. kd_graphId d = graphId \<and> kd_attemptId d = attemptId \<and> kd_command d \<in> set STOPPING_CONTROL_COMMANDS)
         (lg_decisions db)"

fun insert_effects :: "effect_record list \<Rightarrow> ledger \<Rightarrow> ledger_error + ledger" where
  "insert_effects [] db = Inr db"
| "insert_effects (e # es) db =
     rbind (writeRunIdOf db (ef_graphId e) (ef_runId e)) (\<lambda>runId.
     rbind (encodePayload (ef_payload e)) (\<lambda>_.
       if selectEffect db (ef_graphId e) (ef_effectId e) \<noteq> None then Inl (LedgerWrite WriteRejected)
       else insert_effects es (db\<lparr>lg_effects := lg_effects db @ [e\<lparr>ef_runId := Some runId\<rparr>]\<rparr>)))"

text \<open>\<open>None\<close> is the guard's refusal.\<close>

definition writeBatch :: "(rat \<Rightarrow> string) \<Rightarrow> acceptance_batch \<Rightarrow> ledger \<Rightarrow> ledger_error + ledger option" where
  "writeBatch num batch db =
     (let r = bt_receipt batch in
      if \<not> batch_guard db (rcp_graphId r) (rcp_attemptId r) then Inr None
      else if lookupReceipt db (rcp_graphId r) (rcp_attemptId r) (rcp_submissionId r) \<noteq> None then Inl (LedgerWrite WriteRejected)
      else
        rbind (case bt_acceptedEvent batch of
                 None \<Rightarrow> Inr (db\<lparr>lg_receipts := lg_receipts db @ [r]\<rparr>)
               | Some e \<Rightarrow>
                   if selectAcceptedEvent db (ev_graphId e) (ev_attemptId e) \<noteq> None then Inl (LedgerWrite WriteRejected)
                   else Inr (db\<lparr>lg_receipts := lg_receipts db @ [r], lg_events := lg_events db @ [e]\<rparr>)) (\<lambda>db.
        rbind (case bt_acceptedResult batch of None \<Rightarrow> Inr db | Some x \<Rightarrow> writeAcceptedResult num x db) (\<lambda>db.
        rbind (insert_effects (bt_effects batch) db) (\<lambda>db. Inr (Some db)))))"

subsection \<open>The commit\<close>

definition stoppingVerdict :: "ledger \<Rightarrow> string \<Rightarrow> string \<Rightarrow> commit_verdict option" where
  "stoppingVerdict db graphId attemptId =
     (case readStoppingDecision db graphId attemptId of
        None \<Rightarrow> None
      | Some stopped \<Rightarrow>
          (case readRunControl db graphId of
             Some control \<Rightarrow> Some (Controlled control)
           | None \<Rightarrow> Some (AttemptStopped stopped)))"

text \<open>The facts that close an attempt, in the order both sites classify them.\<close>

definition closing_fact :: "ledger \<Rightarrow> string \<Rightarrow> string \<Rightarrow> commit_verdict option" where
  "closing_fact db graphId attemptId =
     (case readRunControl db graphId of
        Some control \<Rightarrow> Some (Controlled control)
      | None \<Rightarrow>
          (case readSupersedingRetry db graphId attemptId of
             Some retried \<Rightarrow> Some (Superseded retried)
           | None \<Rightarrow>
               (case stoppingVerdict db graphId attemptId of
                  Some verdict \<Rightarrow> Some verdict
                | None \<Rightarrow>
                    (case supersededRunOf db graphId attemptId of
                       Some runId \<Rightarrow> Some (RunSuperseded runId)
                     | None \<Rightarrow> map_option ApprovalBlocked (blockingApproval db graphId attemptId)))))"

text \<open>The write of \<open>commitAccepted\<close>: the guarded batch, or the fact that refused it.\<close>

definition commit_write :: "(rat \<Rightarrow> string) \<Rightarrow> acceptance_batch \<Rightarrow> ledger \<Rightarrow> ledger_error + (commit_verdict \<times> ledger)" where
  "commit_write num batch db =
     rbind (writeBatch num batch db) (\<lambda>written.
       case written of
         Some db' \<Rightarrow> Inr (Committed (bt_receipt batch), db')
       | None \<Rightarrow>
           (case closing_fact db (rcp_graphId (bt_receipt batch)) (rcp_attemptId (bt_receipt batch)) of
              Some verdict \<Rightarrow> Inr (verdict, db)
            | None \<Rightarrow> Inl (LedgerWrite InvalidLedgerRecord)))"

definition commit_reads :: "acceptance_batch \<Rightarrow> ledger \<Rightarrow> commit_verdict option" where
  "commit_reads batch db =
     (let r = bt_receipt batch in
      case lookupReceipt db (rcp_graphId r) (rcp_attemptId r) (rcp_submissionId r) of
        Some existing \<Rightarrow>
          Some (if rcp_proposalDigest existing = rcp_proposalDigest r then Replayed existing else Conflict existing)
      | None \<Rightarrow>
          (case selectAcceptedEvent db (rcp_graphId r) (rcp_attemptId r) of
             Some settlement \<Rightarrow> Some (AlreadySettled settlement)
           | None \<Rightarrow> closing_fact db (rcp_graphId r) (rcp_attemptId r)))"

definition commitAccepted :: "(rat \<Rightarrow> string) \<Rightarrow> acceptance_batch \<Rightarrow> ledger \<Rightarrow> ledger_error + (commit_verdict \<times> ledger)" where
  "commitAccepted num batch db =
     rbind (assertBatchShape batch) (\<lambda>_.
       case commit_reads batch db of
         Some verdict \<Rightarrow> Inr (verdict, db)
       | None \<Rightarrow> commit_write num batch db)"

subsection \<open>Control decisions\<close>

definition assertPrincipalShape :: "control_principal option \<Rightarrow> ledger_error + unit" where
  "assertPrincipalShape p =
     (case p of
        None \<Rightarrow> Inr ()
      | Some p \<Rightarrow> all_steps [requireStoreIdentifier (cpl_sessionId p),
          ensure (cpl_agentId p \<noteq> Some []) (LedgerWrite InvalidLedgerRecord)])"

definition assertRunControlShape :: "run_control \<Rightarrow> ledger_error + unit" where
  "assertRunControlShape c = all_steps [requireStoreIdentifier (kc_graphId c), requireStoreIdentifier (kc_runId c),
     requireStoreIdentifier (kc_reason c), requireStoreEpoch (kc_decidedAt c), assertPrincipalShape (kc_decidedBy c)]"

definition assertControlWriteShape :: "control_decision \<Rightarrow> run_control option \<Rightarrow> ledger_error + unit" where
  "assertControlWriteShape d control =
     all_steps
       ((case control of
           None \<Rightarrow> []
         | Some c \<Rightarrow>
             [ensure (kd_graphId d = kc_graphId c \<and> kd_runId d = kc_runId c) (LedgerWrite InvalidLedgerRecord),
              ensure (kd_command d = kc_command c) (LedgerWrite InvalidLedgerRecord),
              requireStoreIdentifier (kc_reason c), requireStoreEpoch (kc_decidedAt c), assertPrincipalShape (kc_decidedBy c)]) @
        [requireStoreIdentifier (kd_graphId d), requireStoreIdentifier (kd_runId d), requireStoreIdentifier (kd_nodeId d),
         requireStoreIdentifier (kd_attemptId d), requireStoreIdentifier (kd_reason d), requireStoreEpoch (kd_decidedAt d),
         assertPrincipalShape (kd_decidedBy d),
         (if kd_command d = RetryCommand
          then (case kd_successorAttemptId d of
                  None \<Rightarrow> Inl (LedgerWrite InvalidLedgerRecord) | Some s \<Rightarrow> requireStoreIdentifier s)
          else ensure (kd_successorAttemptId d = None) (LedgerWrite InvalidLedgerRecord))])"

datatype control_write_result =
    ControlRecorded control_decision "run_control option"
  | ControlReplayed control_decision "run_control option"
  | ControlConflict control_decision "run_control option"
  | ControlSettled string "run_control option"

text \<open>
  The conditional claim of a run's control fact. A claim without a principal violates a check of the table, and the
  driver's error is not wrapped.
\<close>

definition claim_run :: "run_control \<Rightarrow> ledger \<Rightarrow> ledger_error + ledger" where
  "claim_run c db =
     (let hits = (\<lambda>r. rid_graphId (rw_identity r) = kc_graphId c \<and> rid_runId (rw_identity r) = kc_runId c \<and> rw_control r = None)
      in if kc_decidedBy c = None \<and> list_ex hits (lg_runs db) then Inl UnwrappedError
         else Inr (db\<lparr>lg_runs := map (\<lambda>r. if hits r then r\<lparr>rw_control := Some c\<rparr> else r) (lg_runs db)\<rparr>))"

definition decision_lands :: "ledger \<Rightarrow> control_decision \<Rightarrow> bool" where
  "decision_lands db d \<longleftrightarrow>
     selectAcceptedEvent db (kd_graphId d) (kd_attemptId d) = None \<and>
     \<not> (kd_command d \<in> set STOPPING_CONTROL_COMMANDS \<and> readStoppingControlDecision db d \<noteq> None) \<and>
     readControlCommandDecision db d = None"

definition writeControlDecision ::
  "control_decision \<Rightarrow> run_control option \<Rightarrow> ledger \<Rightarrow> ledger_error + (control_write_result \<times> ledger)" where
  "writeControlDecision d control db =
     rbind (assertControlWriteShape d control) (\<lambda>_.
       if \<not> decision_lands db d
       then Inr ((case readControlCommandDecision db d of
                    Some raced \<Rightarrow> ControlReplayed raced (readRunControl db (kd_graphId d))
                  | None \<Rightarrow>
                      (case readStoppingControlDecision db d of
                         None \<Rightarrow> ControlSettled (kd_attemptId d) (readRunControl db (kd_graphId d))
                       | Some competing \<Rightarrow> ControlConflict competing (readRunControl db (kd_graphId d)))), db)
       else let db1 = db\<lparr>lg_decisions := lg_decisions db @ [d]\<rparr> in
         case control of
           None \<Rightarrow> Inr (ControlRecorded d (readRunControl db1 (kd_graphId d)), db1)
         | Some c \<Rightarrow>
             rbind (claim_run c db1) (\<lambda>db2.
               case readRunControl db2 (kd_graphId d) of
                 None \<Rightarrow> Inl (LedgerWrite InvalidLedgerRecord)
               | Some stored \<Rightarrow> Inr (ControlRecorded d (Some stored), db2)))"

definition claimRunControl :: "run_control \<Rightarrow> ledger \<Rightarrow> ledger_error + (run_control option \<times> ledger)" where
  "claimRunControl c db =
     rbind (assertRunControlShape c) (\<lambda>_.
     rbind (claim_run c db) (\<lambda>db'. Inr (readRunControlOf db' (kc_graphId c) (kc_runId c), db')))"

subsection \<open>Re-execution orders\<close>

definition assertReexecutionShape :: "run_reexecution \<Rightarrow> ledger_error + unit" where
  "assertReexecutionShape x = all_steps
     ([requireStoreIdentifier (rx_graphId x), requireStoreIdentifier (rx_runId x), requireStoreIdentifier (rx_reason x),
       requireStoreEpoch (rx_decidedAt x), assertPrincipalShape (rx_decidedBy x)] @
      (case rx_successor x of None \<Rightarrow> [] | Some (r, t) \<Rightarrow> [requireStoreIdentifier r, requireStoreEpoch t]))"

datatype reexecution_write = ReexecutionRecorded run_reexecution | ReexecutionReplayed run_reexecution

definition recordReexecution :: "run_reexecution \<Rightarrow> ledger \<Rightarrow> ledger_error + (reexecution_write \<times> ledger)" where
  "recordReexecution x db =
     rbind (assertReexecutionShape x) (\<lambda>_.
       case readReexecution db (rx_graphId x) (rx_runId x) of
         Some existing \<Rightarrow> Inr (ReexecutionReplayed existing, db)
       | None \<Rightarrow>
           let row = x\<lparr>rx_successor := None\<rparr>
           in Inr (ReexecutionRecorded row, db\<lparr>lg_reexecutions := lg_reexecutions db @ [row]\<rparr>))"

definition markReexecutionExecuted :: "string \<Rightarrow> string \<Rightarrow> string \<Rightarrow> int \<Rightarrow> ledger \<Rightarrow> ledger_error + (bool \<times> ledger)" where
  "markReexecutionExecuted graphId runId successorRunId successorStartedAt db =
     rbind (requireStoreIdentifier successorRunId) (\<lambda>_.
     rbind (requireStoreEpoch successorStartedAt) (\<lambda>_.
       let owed = (\<lambda>x. rx_graphId x = graphId \<and> rx_runId x = runId \<and> rx_successor x = None)
       in Inr (list_ex owed (lg_reexecutions db),
               db\<lparr>lg_reexecutions := map (\<lambda>x. if owed x then x\<lparr>rx_successor := Some (successorRunId, successorStartedAt)\<rparr> else x)
                                        (lg_reexecutions db)\<rparr>)))"

subsection \<open>Approval requests\<close>

definition assertApprovalRequestShape :: "approval_request \<Rightarrow> ledger_error + unit" where
  "assertApprovalRequestShape q = all_steps
     [ensure (grant_readable (ap_authority q)) UnwrappedError,
      ensure (\<not> (ag_mode (ap_authority q) = IndependentReview \<and>
         (case ap_requestedBy q of None \<Rightarrow> True | Some p \<Rightarrow> cpl_sessionId p = ap_approverSessionId q))) (LedgerWrite InvalidLedgerRecord),
      requireStoreIdentifier (ap_graphId q), requireStoreIdentifier (ap_runId q), requireStoreIdentifier (ap_nodeId q),
      requireStoreIdentifier (ap_attemptId q), requireStoreIdentifier (ap_reason q), requireStoreIdentifier (ap_approverSessionId q),
      requireStoreEpoch (ap_requestedAt q), requireStoreEpoch (ap_expiresAt q),
      ensure (ap_status q = ApprovalPending) (LedgerWrite InvalidLedgerRecord), assertPrincipalShape (ap_requestedBy q)]"

datatype approval_raise = ApprovalRaised approval_request | ApprovalReplayed approval_request | ApprovalSettled string

definition same_request :: "approval_request \<Rightarrow> approval_request \<Rightarrow> bool" where
  "same_request p q \<longleftrightarrow> ap_graphId p = ap_graphId q \<and> ap_runId p = ap_runId q \<and> ap_nodeId p = ap_nodeId q \<and> ap_attemptId p = ap_attemptId q"

definition raiseApprovalRequest :: "approval_request \<Rightarrow> ledger \<Rightarrow> ledger_error + (approval_raise \<times> ledger)" where
  "raiseApprovalRequest q db =
     rbind (assertApprovalRequestShape q) (\<lambda>_.
       let lands = selectAcceptedEvent db (ap_graphId q) (ap_attemptId q) = None \<and> \<not> list_ex (same_request q) (lg_approvals db);
           db' = (if lands then db\<lparr>lg_approvals := lg_approvals db @ [q]\<rparr> else db)
       in case readApprovalRequest db' (ap_graphId q) (ap_attemptId q) of
            None \<Rightarrow> Inr (ApprovalSettled (ap_attemptId q), db')
          | Some stored \<Rightarrow> Inr (if lands then ApprovalRaised stored else ApprovalReplayed stored, db'))"

datatype approval_command = ApproveRequest | RejectRequest

record approval_decision_write =
  aw_graphId :: string
  aw_runId :: string
  aw_nodeId :: string
  aw_attemptId :: string
  aw_command :: approval_command
  aw_reason :: string
  aw_decidedAt :: int
  aw_decidedBy :: control_principal

datatype approval_decide =
    RequestDecided approval_request
  | RequestReplayed approval_request
  | RequestExpired approval_request
  | RequestConflict approval_request
  | RequestAbsent

definition APPROVAL_DEADLINE_REASON :: string where
  "APPROVAL_DEADLINE_REASON = ''the approval deadline passed before a decision was recorded''"

definition assertApprovalDecisionShape :: "approval_decision_write \<Rightarrow> ledger_error + unit" where
  "assertApprovalDecisionShape w = all_steps [requireStoreIdentifier (aw_graphId w), requireStoreIdentifier (aw_runId w),
     requireStoreIdentifier (aw_nodeId w), requireStoreIdentifier (aw_attemptId w), requireStoreIdentifier (aw_reason w),
     requireStoreEpoch (aw_decidedAt w), assertPrincipalShape (Some (aw_decidedBy w))]"

text \<open>Every change of a request is an update of pending rows.\<close>

definition update_pending :: "(approval_request \<Rightarrow> bool) \<Rightarrow> approval_status \<Rightarrow> ledger \<Rightarrow> ledger" where
  "update_pending P status db =
     db\<lparr>lg_approvals := map (\<lambda>q. if P q \<and> ap_status q = ApprovalPending then q\<lparr>ap_status := status\<rparr> else q) (lg_approvals db)\<rparr>"

fun same_status :: "approval_command \<Rightarrow> approval_status \<Rightarrow> bool" where
  "same_status ApproveRequest (ApprovalApproved _ _ _) = True"
| "same_status RejectRequest (ApprovalRejected _ _ _) = True"
| "same_status _ _ = False"

definition decided_status :: "approval_decision_write \<Rightarrow> approval_status" where
  "decided_status w = (case aw_command w of
     ApproveRequest \<Rightarrow> ApprovalApproved (aw_decidedBy w) (aw_decidedAt w) (aw_reason w)
   | RejectRequest \<Rightarrow> ApprovalRejected (aw_decidedBy w) (aw_decidedAt w) (aw_reason w))"

definition decideApprovalRequest :: "approval_decision_write \<Rightarrow> ledger \<Rightarrow> ledger_error + (approval_decide \<times> ledger)" where
  "decideApprovalRequest w db =
     rbind (assertApprovalDecisionShape w) (\<lambda>_.
       case readApprovalRequest db (aw_graphId w) (aw_attemptId w) of
         None \<Rightarrow> Inr (RequestAbsent, db)
       | Some existing \<Rightarrow>
           if ap_runId existing \<noteq> aw_runId w \<or> ap_nodeId existing \<noteq> aw_nodeId w \<or>
              ap_approverSessionId existing \<noteq> cpl_sessionId (aw_decidedBy w) then Inl (LedgerWrite InvalidLedgerRecord)
           else if same_status (aw_command w) (ap_status existing) then Inr (RequestReplayed existing, db)
           else if ap_status existing \<noteq> ApprovalPending then Inr (RequestConflict existing, db)
           else let here = (\<lambda>q. ap_graphId q = aw_graphId w \<and> ap_attemptId q = aw_attemptId w) in
             if ap_expiresAt existing \<le> aw_decidedAt w
             then let db' = update_pending here (ApprovalExpired (aw_decidedAt w) APPROVAL_DEADLINE_REASON) db in
                  (case readApprovalRequest db' (aw_graphId w) (aw_attemptId w) of
                     None \<Rightarrow> Inl (LedgerWrite InvalidLedgerRecord) | Some expired \<Rightarrow> Inr (RequestExpired expired, db'))
             else let db' = update_pending here (decided_status w) db in
                  (case readApprovalRequest db' (aw_graphId w) (aw_attemptId w) of
                     None \<Rightarrow> Inl (LedgerWrite InvalidLedgerRecord)
                   | Some decided \<Rightarrow>
                       if \<not> same_status (aw_command w) (ap_status decided) then Inl (LedgerWrite InvalidLedgerRecord)
                       else Inr (RequestDecided decided, db')))"

text \<open>The attempts of the pending rows a sweep takes, read again once they are expired.\<close>

definition sweep_approvals :: "(approval_request \<Rightarrow> bool) \<Rightarrow> string \<Rightarrow> int \<Rightarrow> string \<Rightarrow> ledger \<Rightarrow> approval_request list \<times> ledger" where
  "sweep_approvals P graphId stamp reason db =
     (let taken = sort_key ap_requestedAt
            (filter (\<lambda>q. ap_graphId q = graphId \<and> P q \<and> ap_status q = ApprovalPending) (lg_approvals db));
          due = List.map_filter (\<lambda>q. readApprovalRequest db graphId (ap_attemptId q)) taken
      in if due = [] then ([], db)
         else let db' = update_pending (\<lambda>q. ap_graphId q = graphId \<and> P q) (ApprovalExpired stamp reason) db
              in (List.map_filter (\<lambda>q. readApprovalRequest db' graphId (ap_attemptId q)) due, db'))"

definition expireDueApprovals :: "string \<Rightarrow> int \<Rightarrow> string \<Rightarrow> ledger \<Rightarrow> ledger_error + (approval_request list \<times> ledger)" where
  "expireDueApprovals graphId stamp reason db =
     rbind (requireStoreEpoch stamp) (\<lambda>_. rbind (requireStoreIdentifier reason) (\<lambda>_.
       Inr (sweep_approvals (\<lambda>q. ap_expiresAt q \<le> stamp) graphId stamp reason db)))"

definition expireRunApprovals :: "string \<Rightarrow> string \<Rightarrow> int \<Rightarrow> string \<Rightarrow> ledger \<Rightarrow> ledger_error + (approval_request list \<times> ledger)" where
  "expireRunApprovals graphId runId stamp reason db =
     rbind (requireStoreIdentifier runId) (\<lambda>_. rbind (requireStoreEpoch stamp) (\<lambda>_. rbind (requireStoreIdentifier reason) (\<lambda>_.
       Inr (sweep_approvals (\<lambda>q. ap_runId q = runId) graphId stamp reason db))))"

end
