(* ===== verification/LedgerFacts.thy ===== *)
theory LedgerFacts
  imports LedgerCommit
begin

text \<open>
  What the ledger promises: a commit writes all of its batch or nothing, a repeated submission is a replay, an
  attempt settles once, and a settled attempt and a stopped, superseded or unapproved one exclude each other whatever
  the order in which commands and acceptances commit.
\<close>

subsection \<open>The invariant\<close>

definition closing_command :: "control_command \<Rightarrow> bool" where
  "closing_command c \<longleftrightarrow> c = RetryCommand \<or> c \<in> set STOPPING_CONTROL_COMMANDS"

definition receipt_key :: "receipt \<Rightarrow> string \<times> string \<times> string" where
  "receipt_key r = (rcp_graphId r, rcp_attemptId r, rcp_submissionId r)"

definition settles :: "receipt \<Rightarrow> accepted_event \<Rightarrow> bool" where
  "settles r e \<longleftrightarrow> rcp_decision r = AcceptedKind \<and> rcp_graphId r = ev_graphId e \<and> rcp_attemptId r = ev_attemptId e \<and>
     rcp_submissionId r = ev_submissionId e \<and> rcp_planRevision r = ev_planRevision e"

definition keys_ok :: "ledger \<Rightarrow> bool" where
  "keys_ok db \<longleftrightarrow> distinct (map receipt_key (lg_receipts db)) \<and>
     distinct (map (\<lambda>e. (ev_graphId e, ev_attemptId e)) (lg_events db)) \<and>
     distinct (map (\<lambda>r. (rid_graphId (rw_identity r), rid_runId (rw_identity r))) (lg_runs db)) \<and>
     distinct (map (\<lambda>r. (rid_graphId (rw_identity r), rw_runSeq r)) (lg_runs db)) \<and>
     distinct (map (\<lambda>e. (ef_graphId e, ef_effectId e)) (lg_effects db))"

definition events_ok :: "ledger \<Rightarrow> bool" where
  "events_ok db \<longleftrightarrow> (\<forall>e \<in> set (lg_events db). \<exists>r \<in> set (lg_receipts db). settles r e) \<and>
     (\<forall>r \<in> set (lg_receipts db). rcp_decision r = AcceptedKind \<longrightarrow> (\<exists>e \<in> set (lg_events db). settles r e))"

definition exclusive :: "ledger \<Rightarrow> bool" where
  "exclusive db \<longleftrightarrow> (\<forall>e \<in> set (lg_events db).
     (\<forall>d \<in> set (lg_decisions db). kd_graphId d = ev_graphId e \<longrightarrow> kd_attemptId d = ev_attemptId e \<longrightarrow> \<not> closing_command (kd_command d)) \<and>
     (\<forall>q \<in> set (lg_approvals db). ap_graphId q = ev_graphId e \<longrightarrow> ap_attemptId q = ev_attemptId e \<longrightarrow> approved (ap_status q)))"

definition wf_ledger :: "ledger \<Rightarrow> bool" where
  "wf_ledger db \<longleftrightarrow> keys_ok db \<and> events_ok db \<and> exclusive db"

lemma wf_empty_ledger: "wf_ledger empty_ledger"
  by (simp add: wf_ledger_def keys_ok_def events_ok_def exclusive_def empty_ledger_def)

text \<open>A ledger that differs in none of the tables the invariant reads.\<close>

definition same_facts :: "ledger \<Rightarrow> ledger \<Rightarrow> bool" where
  "same_facts db db' \<longleftrightarrow> lg_receipts db' = lg_receipts db \<and> lg_events db' = lg_events db \<and> lg_runs db' = lg_runs db \<and>
     lg_decisions db' = lg_decisions db \<and> lg_approvals db' = lg_approvals db \<and>
     map (\<lambda>e. (ef_graphId e, ef_effectId e)) (lg_effects db') = map (\<lambda>e. (ef_graphId e, ef_effectId e)) (lg_effects db)"

lemma same_facts_wf: "same_facts db db' \<Longrightarrow> wf_ledger db \<Longrightarrow> wf_ledger db'"
  by (simp add: same_facts_def wf_ledger_def keys_ok_def events_ok_def exclusive_def)

lemma same_facts_refl [simp]: "same_facts db db"
  by (simp add: same_facts_def)

subsection \<open>Lookups\<close>

lemma find_grown: "find P xs = Some x \<Longrightarrow> find P (xs @ ys) = Some x"
  by (induction xs) (auto split: if_splits)

text \<open>
  The contract of a table with a primary key: the read by key is the first row that has it. The tables of receipts,
  settlements, results, effects, runs and orders keep it.
\<close>

locale keyed_rows =
  fixes rows :: "ledger \<Rightarrow> 'r list" and key :: "'r \<Rightarrow> 'k" and pick :: "ledger \<Rightarrow> 'k \<Rightarrow> 'r option"
  assumes pick_find: "pick db k = find (\<lambda>r. key r = k) (rows db)"
begin

lemma absent: "pick db k = None \<longleftrightarrow> k \<notin> key ` set (rows db)"
  by (auto simp: pick_find find_None_all)

lemma present: "pick db k = Some r \<Longrightarrow> r \<in> set (rows db) \<and> key r = k"
  by (auto simp: pick_find dest!: find_Some_in)

lemma member: "distinct (map key (rows db)) \<Longrightarrow> r \<in> set (rows db) \<Longrightarrow> pick db (key r) = Some r"
  by (simp add: pick_find find_key_distinct)

text \<open>Rows that are added later, each under a fresh key, leave every answer standing.\<close>

lemma grown: "rows db' = rows db @ later \<Longrightarrow> pick db k = Some r \<Longrightarrow> pick db' k = Some r"
  by (simp add: pick_find find_grown)

lemma add_distinct: "pick db (key r) = None \<Longrightarrow> distinct (map key (rows db)) \<Longrightarrow> distinct (map key (rows db @ [r]))"
  by (simp add: absent image_iff)

end

interpretation receipts: keyed_rows lg_receipts receipt_key "\<lambda>db (g, a, s). lookupReceipt db g a s"
  by unfold_locales (auto simp: lookupReceipt_def receipt_key_def split: prod.splits intro!: arg_cong2 [where f = find])

interpretation settlements: keyed_rows lg_events "\<lambda>e. (ev_graphId e, ev_attemptId e)" "\<lambda>db (g, a). selectAcceptedEvent db g a"
  by unfold_locales (auto simp: selectAcceptedEvent_def)

interpretation results: keyed_rows lg_results "\<lambda>r. (res_graphId r, res_attemptId r)" "\<lambda>db (g, a). readAcceptedResult db g a"
  by unfold_locales (auto simp: readAcceptedResult_def)

interpretation effects: keyed_rows lg_effects "\<lambda>e. (ef_graphId e, ef_effectId e)" "\<lambda>db (g, i). selectEffect db g i"
  by unfold_locales (auto simp: selectEffect_def)

interpretation run_table: keyed_rows lg_runs "\<lambda>r. (rid_graphId (rw_identity r), rid_runId (rw_identity r))" "\<lambda>db (g, i). readRunOf db g i"
  by unfold_locales (auto simp: readRunOf_def)

interpretation orders: keyed_rows lg_reexecutions "\<lambda>x. (rx_graphId x, rx_runId x)" "\<lambda>db (g, i). readReexecution db g i"
  by unfold_locales (auto simp: readReexecution_def)

lemmas lookupReceipt_None = receipts.absent [where k = "(g, a, s)" for g a s, unfolded prod.case]
lemmas lookupReceipt_Some = receipts.present [where k = "(g, a, s)" for g a s, unfolded prod.case]
lemmas selectAcceptedEvent_None = settlements.absent [where k = "(g, a)" for g a, unfolded prod.case]
lemmas selectAcceptedEvent_Some = settlements.present [where k = "(g, a)" for g a, unfolded prod.case]
lemmas selectEffect_None = effects.absent [where k = "(g, i)" for g i, unfolded prod.case]

lemma attempt_decisions_None:
  "first_ordered f (attempt_decisions db g a P) = None \<longleftrightarrow>
     (\<forall>d \<in> set (lg_decisions db). kd_graphId d = g \<longrightarrow> kd_attemptId d = a \<longrightarrow> \<not> P (kd_command d))"
  by (auto simp: attempt_decisions_def filter_empty_conv)

lemma readRun_Some: "readRun db g = Some r \<Longrightarrow> r \<in> set (lg_runs db) \<and> rid_graphId (rw_identity r) = g"
  by (auto simp: readRun_def dest!: first_ordered_Some)

lemma readRun_None: "readRun db g = None \<longleftrightarrow> (\<forall>r \<in> set (lg_runs db). rid_graphId (rw_identity r) \<noteq> g)"
  by (auto simp: readRun_def filter_empty_conv)

lemma first_ordered_least: "first_ordered f rows = Some r \<Longrightarrow> x \<in> set rows \<Longrightarrow> f r \<le> f x"
proof -
  assume s: "first_ordered f rows = Some r" and x: "x \<in> set rows"
  then obtain rs where rs: "sort_key f rows = r # rs" by (auto simp: first_ordered_def split: list.splits)
  have "sorted (map f (sort_key f rows))" by simp
  then have "\<forall>y \<in> set rs. f r \<le> f y" unfolding rs by simp
  moreover have "x \<in> set (r # rs)" using x unfolding rs [symmetric] by simp
  ultimately show ?thesis by auto
qed

lemma readRun_greatest: "readRun db g = Some r \<Longrightarrow> x \<in> set (lg_runs db) \<Longrightarrow> rid_graphId (rw_identity x) = g \<Longrightarrow> rw_runSeq x \<le> rw_runSeq r"
  using first_ordered_least [of "\<lambda>r. - int (rw_runSeq r)" _ r x] by (fastforce simp: readRun_def)

lemmas readRunOf_Some = run_table.present [where k = "(g, i)" for g i, unfolded prod.case prod.inject]
lemmas readRunOf_None = run_table.absent [where k = "(g, i)" for g i, unfolded prod.case]

lemma readRunOf_member:
  assumes "keys_ok db" and "r \<in> set (lg_runs db)"
  shows "readRunOf db (rid_graphId (rw_identity r)) (rid_runId (rw_identity r)) = Some r"
  using run_table.member [of db r] assms by (simp add: keys_ok_def)

text \<open>The run control that stands is the control of the current row.\<close>

lemma readRunControl_row:
  assumes "keys_ok db"
  shows "readRunControl db g = (case readRun db g of None \<Rightarrow> None | Some r \<Rightarrow> rw_control r)"
proof (cases "readRun db g")
  case (Some r)
  from readRun_Some [OF Some] readRunOf_member [OF assms, of r] show ?thesis
    by (auto simp: readRunControl_def Some readRunControlOf_def)
qed (simp add: readRunControl_def)

subsection \<open>The guard and its classification\<close>

text \<open>
  The guard reads every request of an attempt, the classification the first one. They agree when an attempt has one
  request; the primary key of the table has the run and the node as well.
\<close>

definition one_request :: "ledger \<Rightarrow> string \<Rightarrow> string \<Rightarrow> bool" where
  "one_request db g a \<longleftrightarrow> length (filter (\<lambda>q. ap_graphId q = g \<and> ap_attemptId q = a) (lg_approvals db)) \<le> 1"

lemma blockingApproval_None:
  assumes "one_request db g a"
  shows "blockingApproval db g a = None \<longleftrightarrow> (\<forall>q \<in> set (lg_approvals db). ap_graphId q = g \<longrightarrow> ap_attemptId q = a \<longrightarrow> approved (ap_status q))"
proof -
  let ?qs = "filter (\<lambda>q. ap_graphId q = g \<and> ap_attemptId q = a) (lg_approvals db)"
  have qs: "q \<in> set ?qs \<longleftrightarrow> q \<in> set (lg_approvals db) \<and> ap_graphId q = g \<and> ap_attemptId q = a" for q by auto
  from assms consider "?qs = []" | q where "?qs = [q]"
    by (cases ?qs) (auto simp: one_request_def)
  then show ?thesis
  proof cases
    case 1
    then have "readApprovalRequest db g a = None" by (simp add: readApprovalRequest_def)
    then show ?thesis using qs unfolding 1 by (auto simp: blockingApproval_def)
  next
    case (2 q)
    then have "readApprovalRequest db g a = Some q" by (simp add: readApprovalRequest_def first_ordered_def)
    moreover have "q' = q \<longleftrightarrow> q' \<in> set (lg_approvals db) \<and> ap_graphId q' = g \<and> ap_attemptId q' = a" for q' using qs unfolding 2 by simp
    then have "(\<forall>q \<in> set (lg_approvals db). ap_graphId q = g \<longrightarrow> ap_attemptId q = a \<longrightarrow> approved (ap_status q)) \<longleftrightarrow> approved (ap_status q)" by metis
    ultimately show ?thesis by (simp add: blockingApproval_def)
  qed
qed

lemma supersededRunOf_None:
  "supersededRunOf db g a = None \<longleftrightarrow>
     (\<forall>e \<in> set (lg_effects db). ef_graphId e = g \<longrightarrow> ef_attemptId e = a \<longrightarrow>
        (case readCurrentRunId db g of None \<Rightarrow> True | Some current \<Rightarrow> effect_run e = current))"
  by (auto simp: supersededRunOf_def filter_empty_conv split: option.splits)

lemma control_clause:
  assumes "keys_ok db"
  shows "readRunControl db g = None \<longleftrightarrow>
    \<not> (\<exists>r \<in> set (lg_runs db). rid_graphId (rw_identity r) = g \<and> rw_control r \<noteq> None \<and> Some (rid_runId (rw_identity r)) = readCurrentRunId db g)"
proof (cases "readRun db g")
  case None
  then show ?thesis by (auto simp: readRunControl_def readCurrentRunId_def)
next
  case (Some R)
  have R: "R \<in> set (lg_runs db)" "rid_graphId (rw_identity R) = g" using readRun_Some [OF Some] by blast+
  have "r = R" if "r \<in> set (lg_runs db)" "rid_graphId (rw_identity r) = g" "rid_runId (rw_identity r) = rid_runId (rw_identity R)" for r
    using readRunOf_member [OF assms that(1)] readRunOf_member [OF assms R(1)] that R(2) by simp
  then show ?thesis using R by (simp add: readRunControl_row [OF assms] readCurrentRunId_def Some) metis
qed

lemma guard_agrees:
  assumes "keys_ok db" and "one_request db g a"
  shows "batch_guard db g a \<longleftrightarrow> closing_fact db g a = None"
proof -
  have "batch_guard db g a \<longleftrightarrow> readRunControl db g = None \<and> readSupersedingRetry db g a = None \<and> supersededRunOf db g a = None \<and>
      blockingApproval db g a = None \<and> readStoppingDecision db g a = None"
    unfolding batch_guard_def list_ex_iff control_clause [OF assms(1)] blockingApproval_None [OF assms(2)] supersededRunOf_None
      readSupersedingRetry_def readStoppingDecision_def attempt_decisions_None
    by (cases "readCurrentRunId db g"; simp only: option.case; blast)
  then show ?thesis by (auto simp: closing_fact_def stoppingVerdict_def split: option.splits)
qed

end
