(* ===== verification/LedgerHistory.thy ===== *)
theory LedgerHistory
  imports LedgerFacts
begin

text \<open>
  Histories of the ledger: the exact effect of a commit, the step relation of all the operations, the invariant they
  keep and what a history never takes back.
\<close>

subsection \<open>What a commit writes\<close>

definition event_rows :: "acceptance_batch \<Rightarrow> accepted_event list" where
  "event_rows batch = (case bt_acceptedEvent batch of None \<Rightarrow> [] | Some e \<Rightarrow> [e])"

text \<open>The rows of the effects of a batch: each carries the run the store resolved for it.\<close>

definition stored_effect :: "ledger \<Rightarrow> effect_record \<Rightarrow> effect_record \<Rightarrow> bool" where
  "stored_effect db e row \<longleftrightarrow> (\<exists>run. writeRunIdOf db (ef_graphId e) (ef_runId e) = Inr run \<and> row = e\<lparr>ef_runId := Some run\<rparr>)"

abbreviation effect_key :: "effect_record \<Rightarrow> string \<times> string" where
  "effect_key e \<equiv> (ef_graphId e, ef_effectId e)"

lemma current_run_cong: "lg_runs db' = lg_runs db \<Longrightarrow> readCurrentRunId db' g = readCurrentRunId db g"
  by (simp add: readCurrentRunId_def readRun_def)

lemma write_run_cong: "lg_runs db' = lg_runs db \<Longrightarrow> writeRunIdOf db' = writeRunIdOf db"
  using current_run_cong [of db' db] by (simp add: writeRunIdOf_def fun_eq_iff)

lemma insert_effects_Inr:
  "insert_effects es db = Inr db' \<Longrightarrow> \<exists>rows. db' = db\<lparr>lg_effects := lg_effects db @ rows\<rparr> \<and> list_all2 (stored_effect db) es rows \<and>
     (distinct (map effect_key (lg_effects db)) \<longrightarrow> distinct (map effect_key (lg_effects db @ rows)))"
proof (induction es arbitrary: db)
  case (Cons e es)
  then obtain run where run: "writeRunIdOf db (ef_graphId e) (ef_runId e) = Inr run"
      and none: "selectEffect db (ef_graphId e) (ef_effectId e) = None"
      and rest: "insert_effects es (db\<lparr>lg_effects := lg_effects db @ [e\<lparr>ef_runId := Some run\<rparr>]\<rparr>) = Inr db'"
    by (auto simp: result_simps split: if_splits)
  let ?e = "e\<lparr>ef_runId := Some run\<rparr>" and ?db = "db\<lparr>lg_effects := lg_effects db @ [e\<lparr>ef_runId := Some run\<rparr>]\<rparr>"
  from Cons.IH [OF rest] obtain rows where rows: "db' = ?db\<lparr>lg_effects := lg_effects ?db @ rows\<rparr>" "list_all2 (stored_effect ?db) es rows"
      "distinct (map effect_key (lg_effects ?db)) \<longrightarrow> distinct (map effect_key (lg_effects ?db @ rows))" by blast
  have same: "stored_effect ?db = stored_effect db"
    by (intro ext) (simp add: stored_effect_def write_run_cong [of ?db db])
  have "stored_effect db e ?e" using run by (simp add: stored_effect_def)
  moreover have "distinct (map effect_key (lg_effects db)) \<Longrightarrow> distinct (map effect_key (lg_effects db @ [?e]))"
    using effects.add_distinct [of db ?e] none by simp
  ultimately show ?case using rows unfolding same by (intro exI [of _ "?e # rows"]) simp
qed simp

lemma writeAcceptedResult_Inr:
  "writeAcceptedResult num x db = Inr db' \<Longrightarrow>
     db' = (if readAcceptedResult db (res_graphId x) (res_attemptId x) = None then db\<lparr>lg_results := lg_results db @ [x]\<rparr> else db)"
  by (auto simp: writeAcceptedResult_def result_simps split: if_splits)

definition result_rows :: "acceptance_batch \<Rightarrow> ledger \<Rightarrow> accepted_result list" where
  "result_rows batch db = (case bt_acceptedResult batch of
     None \<Rightarrow> [] | Some x \<Rightarrow> if readAcceptedResult db (res_graphId x) (res_attemptId x) = None then [x] else [])"

lemma writeBatch_Some:
  assumes "writeBatch num batch db = Inr (Some db')"
  shows "batch_guard db (rcp_graphId (bt_receipt batch)) (rcp_attemptId (bt_receipt batch))"
    and "lookupReceipt db (rcp_graphId (bt_receipt batch)) (rcp_attemptId (bt_receipt batch)) (rcp_submissionId (bt_receipt batch)) = None"
    and "bt_acceptedEvent batch = Some e \<Longrightarrow> selectAcceptedEvent db (ev_graphId e) (ev_attemptId e) = None"
    and "\<exists>rows. db' = db\<lparr>lg_receipts := lg_receipts db @ [bt_receipt batch], lg_events := lg_events db @ event_rows batch,
           lg_results := lg_results db @ result_rows batch db, lg_effects := lg_effects db @ rows\<rparr> \<and>
         list_all2 (stored_effect db) (bt_effects batch) rows \<and>
         (distinct (map effect_key (lg_effects db)) \<longrightarrow> distinct (map effect_key (lg_effects db @ rows)))"
proof -
  let ?r = "bt_receipt batch"
  let ?db1 = "db\<lparr>lg_receipts := lg_receipts db @ [?r], lg_events := lg_events db @ event_rows batch\<rparr>"
  let ?db2 = "?db1\<lparr>lg_results := lg_results db @ result_rows batch db\<rparr>"
  from assms show "batch_guard db (rcp_graphId ?r) (rcp_attemptId ?r)"
    "lookupReceipt db (rcp_graphId ?r) (rcp_attemptId ?r) (rcp_submissionId ?r) = None"
    by (auto simp: writeBatch_def Let_def split: if_splits)
  from assms show "bt_acceptedEvent batch = Some e \<Longrightarrow> selectAcceptedEvent db (ev_graphId e) (ev_attemptId e) = None"
    by (auto simp: writeBatch_def Let_def split: if_splits)
  from assms have "rbind (case bt_acceptedResult batch of None \<Rightarrow> Inr ?db1 | Some x \<Rightarrow> writeAcceptedResult num x ?db1) (insert_effects (bt_effects batch)) = Inr db'"
    by (auto simp: writeBatch_def Let_def event_rows_def result_simps split: if_splits option.splits)
  moreover have "readAcceptedResult ?db1 = readAcceptedResult db" by (intro ext) (simp add: readAcceptedResult_def)
  ultimately have "insert_effects (bt_effects batch) ?db2 = Inr db'"
    by (auto simp: result_rows_def result_simps dest!: writeAcceptedResult_Inr split: option.splits if_splits)
  from insert_effects_Inr [OF this] obtain rows where rows: "db' = ?db2\<lparr>lg_effects := lg_effects ?db2 @ rows\<rparr>"
      "list_all2 (stored_effect ?db2) (bt_effects batch) rows"
      "distinct (map effect_key (lg_effects ?db2)) \<longrightarrow> distinct (map effect_key (lg_effects ?db2 @ rows))" by blast
  have "stored_effect ?db2 = stored_effect db" by (intro ext) (simp add: stored_effect_def write_run_cong [of ?db2 db])
  with rows show "\<exists>rows. db' = db\<lparr>lg_receipts := lg_receipts db @ [bt_receipt batch], lg_events := lg_events db @ event_rows batch,
           lg_results := lg_results db @ result_rows batch db, lg_effects := lg_effects db @ rows\<rparr> \<and>
         list_all2 (stored_effect db) (bt_effects batch) rows \<and>
         (distinct (map effect_key (lg_effects db)) \<longrightarrow> distinct (map effect_key (lg_effects db @ rows)))"
    by (intro exI [of _ rows]) simp
qed

text \<open>A commit that answers \<open>Committed\<close> has written its batch; every other answer leaves the ledger as it was.\<close>

lemma closing_not_Committed: "closing_fact db g a \<noteq> Some (Committed r)"
  by (auto simp: closing_fact_def stoppingVerdict_def split: option.splits)

lemma commit_reads_not_Committed: "commit_reads batch db \<noteq> Some (Committed r)"
  by (auto simp: commit_reads_def Let_def closing_not_Committed split: option.splits if_splits)

lemma commitAccepted_Committed:
  assumes "commitAccepted num batch db = Inr (Committed r, db')"
  shows "assertBatchShape batch = Inr ()" and "commit_reads batch db = None" and "writeBatch num batch db = Inr (Some db')" and "r = bt_receipt batch"
  using assms
  by (auto simp: commitAccepted_def commit_write_def result_simps closing_not_Committed commit_reads_not_Committed split: option.splits)

lemma commitAccepted_other:
  assumes "commitAccepted num batch db = Inr (v, db')" and "\<nexists>r. v = Committed r"
  shows "db' = db"
  using assms by (auto simp: commitAccepted_def commit_write_def result_simps split: option.splits)

lemma batch_shape_event:
  assumes "assertBatchShape batch = Inr ()"
  shows "bt_acceptedEvent batch = Some e \<Longrightarrow> settles (bt_receipt batch) e"
    and "bt_acceptedEvent batch = None \<Longrightarrow> rcp_decision (bt_receipt batch) \<noteq> AcceptedKind"
  using assms by (auto simp: assertBatchShape_def Let_def all_steps_Inr event_shape_def requireSame_def settles_def result_simps)

subsection \<open>The operations as steps\<close>

text \<open>
  The view the budget operations have of the store. A step is one transaction that returned; one that refused has
  left the ledger as it was.
\<close>

definition budget_view :: "ledger \<Rightarrow> budget_db" where
  "budget_view db = \<lparr>bd_rows = lg_reservations db, bd_currentRun = readCurrentRunId db\<rparr>"

inductive ledger_step :: "(rat \<Rightarrow> string) \<Rightarrow> ledger \<Rightarrow> ledger \<Rightarrow> bool" for num where
  commit: "commitAccepted num batch db = Inr (v, db') \<Longrightarrow> ledger_step num db db'"
| raced_commit: "assertBatchShape batch = Inr () \<Longrightarrow> commit_write num batch db = Inr (v, db') \<Longrightarrow> ledger_step num db db'"
| state: "writeGraphState num explicit st db = Inr db' \<Longrightarrow> ledger_step num db db'"
| result: "writeAcceptedResult num x db = Inr db' \<Longrightarrow> ledger_step num db db'"
| effect: "writeEffect e db = Inr db' \<Longrightarrow> ledger_step num db db'"
| effect_started: "markEffectStarted g i db = Inr (t, db') \<Longrightarrow> ledger_step num db db'"
| effect_done: "markEffectDone g i db = Inr (t, db') \<Longrightarrow> ledger_step num db db'"
| effect_failed: "markEffectFailed g i db = Inr (t, db') \<Longrightarrow> ledger_step num db db'"
| mint: "mintRun identity db = Inr (row, db') \<Longrightarrow> ledger_step num db db'"
| mint_next: "mintNextRun identity after db = Inr (next_row, db') \<Longrightarrow> ledger_step num db db'"
| control: "writeControlDecision d control_fact db = Inr (w, db') \<Longrightarrow> ledger_step num db db'"
| claim: "claimRunControl c db = Inr (stands, db') \<Longrightarrow> ledger_step num db db'"
| order: "recordReexecution o_row db = Inr (ow, db') \<Longrightarrow> ledger_step num db db'"
| executed: "markReexecutionExecuted g r s t_at db = Inr (landed, db') \<Longrightarrow> ledger_step num db db'"
| ask: "raiseApprovalRequest q db = Inr (qr, db') \<Longrightarrow> ledger_step num db db'"
| decide: "decideApprovalRequest aw db = Inr (qd, db') \<Longrightarrow> ledger_step num db db'"
| due: "expireDueApprovals g stamp reason db = Inr (qs, db') \<Longrightarrow> ledger_step num db db'"
| run_due: "expireRunApprovals g r stamp reason db = Inr (qs, db') \<Longrightarrow> ledger_step num db db'"
| reserve: "reserveDispatch i_row (budget_view db) = Inr (rv, b) \<Longrightarrow> ledger_step num db (db\<lparr>lg_reservations := bd_rows b\<rparr>)"
| reconcile: "reconcileUsage u_row (budget_view db) = Inr (uv, b) \<Longrightarrow> ledger_step num db (db\<lparr>lg_reservations := bd_rows b\<rparr>)"
| release: "releaseReservation l_row (budget_view db) = Inr (lv, b) \<Longrightarrow> ledger_step num db (db\<lparr>lg_reservations := bd_rows b\<rparr>)"

subsection \<open>What a history keeps\<close>

definition rows_grow :: "('a \<Rightarrow> 'a \<Rightarrow> bool) \<Rightarrow> 'a list \<Rightarrow> 'a list \<Rightarrow> bool" where
  "rows_grow R xs ys \<longleftrightarrow> list_all2 R xs (take (length xs) ys)"

lemma rows_grow_append: "(\<And>x. x \<in> set xs \<Longrightarrow> R x x) \<Longrightarrow> rows_grow R xs (xs @ ys)"
  by (simp add: rows_grow_def list_all2_same)

lemma rows_grow_map: "(\<And>x. x \<in> set xs \<Longrightarrow> R x (f x)) \<Longrightarrow> rows_grow R xs (map f xs)"
  by (simp add: rows_grow_def list_all2_conv_all_nth)

lemma rows_grow_refl: "(\<And>x. x \<in> set xs \<Longrightarrow> R x x) \<Longrightarrow> rows_grow R xs xs"
  using rows_grow_append [of xs R "[]"] by simp

lemma rows_grow_length: "rows_grow R xs ys \<Longrightarrow> length xs \<le> length ys"
  unfolding rows_grow_def by (drule list_all2_lengthD) simp

lemma rows_grow_trans:
  assumes "\<And>x y z. R x y \<Longrightarrow> R y z \<Longrightarrow> R x z" and "rows_grow R xs ys" and "rows_grow R ys zs"
  shows "rows_grow R xs zs"
  unfolding rows_grow_def list_all2_conv_all_nth
proof (intro conjI allI impI)
  note len = rows_grow_length [OF assms(2)] rows_grow_length [OF assms(3)]
  then show "length xs = length (take (length xs) zs)" by simp
  fix i assume i: "i < length xs"
  from assms(2) i have "R (xs ! i) (ys ! i)" by (auto simp: rows_grow_def list_all2_conv_all_nth)
  moreover from assms(3) i len(1) have "R (ys ! i) (zs ! i)" by (auto simp: rows_grow_def list_all2_conv_all_nth)
  ultimately show "R (xs ! i) (take (length xs) zs ! i)" using assms(1) i by simp
qed

lemma rows_grow_member: "rows_grow R xs ys \<Longrightarrow> x \<in> set xs \<Longrightarrow> \<exists>y \<in> set ys. R x y"
  unfolding rows_grow_def by (metis in_set_takeD list_all2_conv_all_nth in_set_conv_nth nth_mem)

lemma rows_grow_eq: "rows_grow (=) xs ys \<longleftrightarrow> (\<exists>zs. ys = xs @ zs)"
  unfolding rows_grow_def list.rel_eq by (metis append_eq_conv_conj append_take_drop_id)

definition run_kept :: "run_row \<Rightarrow> run_row \<Rightarrow> bool" where
  "run_kept r r' \<longleftrightarrow> rw_identity r' = rw_identity r \<and> rw_runSeq r' = rw_runSeq r \<and> (rw_control r \<noteq> None \<longrightarrow> rw_control r' = rw_control r)"

definition effect_kept :: "effect_record \<Rightarrow> effect_record \<Rightarrow> bool" where
  "effect_kept e e' \<longleftrightarrow> e' = e\<lparr>ef_status := ef_status e'\<rparr> \<and> (terminal_status (ef_status e) \<longrightarrow> e' = e)"

definition request_kept :: "approval_request \<Rightarrow> approval_request \<Rightarrow> bool" where
  "request_kept q q' \<longleftrightarrow> q' = q\<lparr>ap_status := ap_status q'\<rparr> \<and> (ap_status q \<noteq> ApprovalPending \<longrightarrow> q' = q)"

definition order_kept :: "run_reexecution \<Rightarrow> run_reexecution \<Rightarrow> bool" where
  "order_kept x x' \<longleftrightarrow> x' = x\<lparr>rx_successor := rx_successor x'\<rparr> \<and> (rx_successor x \<noteq> None \<longrightarrow> x' = x)"

lemma kept_final:
  "run_kept r r' \<Longrightarrow> rw_control r \<noteq> None \<Longrightarrow> r' = r"
  "effect_kept e e' \<Longrightarrow> terminal_status (ef_status e) \<Longrightarrow> e' = e"
  "request_kept q q' \<Longrightarrow> ap_status q \<noteq> ApprovalPending \<Longrightarrow> q' = q"
  "order_kept x x' \<Longrightarrow> rx_successor x \<noteq> None \<Longrightarrow> x' = x"
  by (cases r; cases r'; simp add: run_kept_def) (simp_all add: effect_kept_def request_kept_def order_kept_def)

definition history_kept :: "ledger \<Rightarrow> ledger \<Rightarrow> bool" where
  "history_kept db db' \<longleftrightarrow>
     rows_grow (=) (lg_receipts db) (lg_receipts db') \<and> rows_grow (=) (lg_events db) (lg_events db') \<and>
     rows_grow (=) (lg_results db) (lg_results db') \<and> rows_grow (=) (lg_decisions db) (lg_decisions db') \<and>
     rows_grow run_kept (lg_runs db) (lg_runs db') \<and> rows_grow effect_kept (lg_effects db) (lg_effects db') \<and>
     rows_grow request_kept (lg_approvals db) (lg_approvals db') \<and> rows_grow order_kept (lg_reexecutions db) (lg_reexecutions db')"

lemma kept_refl [simp]: "run_kept r r" "effect_kept e e" "request_kept q q" "order_kept x x"
  by (simp_all add: run_kept_def effect_kept_def request_kept_def order_kept_def)

lemma kept_trans:
  "run_kept r r' \<Longrightarrow> run_kept r' r'' \<Longrightarrow> run_kept r r''"
  "effect_kept e e' \<Longrightarrow> effect_kept e' e'' \<Longrightarrow> effect_kept e e''"
  "request_kept q q' \<Longrightarrow> request_kept q' q'' \<Longrightarrow> request_kept q q''"
  "order_kept x x' \<Longrightarrow> order_kept x' x'' \<Longrightarrow> order_kept x x''"
     apply (simp add: run_kept_def)
    apply (unfold effect_kept_def, metis effect_record.update_convs(8) effect_record.surjective)
   apply (unfold request_kept_def, metis approval_request.update_convs(11) approval_request.surjective)
  apply (unfold order_kept_def, metis run_reexecution.update_convs(6) run_reexecution.surjective)
  done

lemma history_kept_refl [simp]: "history_kept db db"
  by (simp add: history_kept_def rows_grow_refl)

lemma history_kept_trans: "history_kept db db' \<Longrightarrow> history_kept db' db'' \<Longrightarrow> history_kept db db''"
  unfolding history_kept_def by (intro conjI; elim conjE; (erule (1) rows_grow_trans [rotated -2]); metis kept_trans)

subsection \<open>Every operation keeps the invariant and the history\<close>

definition keeps :: "ledger \<Rightarrow> ledger \<Rightarrow> bool" where
  "keeps db db' \<longleftrightarrow> (wf_ledger db \<longrightarrow> wf_ledger db') \<and> history_kept db db'"

lemma keeps_refl [simp]: "keeps db db"
  by (simp add: keeps_def)

lemma keeps_same: "same_facts db db' \<Longrightarrow> history_kept db db' \<Longrightarrow> keeps db db'"
  by (simp add: keeps_def same_facts_wf)

lemma writeBatch_keeps:
  assumes "assertBatchShape batch = Inr ()" and "writeBatch num batch db = Inr (Some db')"
  shows "keeps db db'"
proof -
  note shape = batch_shape_event [OF assms(1)] and written = writeBatch_Some [OF assms(2)]
  from written(4) obtain rows where db': "db' = db\<lparr>lg_receipts := lg_receipts db @ [bt_receipt batch], lg_events := lg_events db @ event_rows batch,
      lg_results := lg_results db @ result_rows batch db, lg_effects := lg_effects db @ rows\<rparr>"
    and rows: "distinct (map effect_key (lg_effects db)) \<longrightarrow> distinct (map effect_key (lg_effects db @ rows))" by blast
  have "wf_ledger db'" if wf: "wf_ledger db"
    unfolding wf_ledger_def
  proof (intro conjI)
    have events: "distinct (map (\<lambda>e. (ev_graphId e, ev_attemptId e)) (lg_events db @ event_rows batch))"
    proof (cases "bt_acceptedEvent batch")
      case (Some e)
      then show ?thesis using settlements.add_distinct [of db e] written(3) [OF Some] wf
        by (simp add: event_rows_def wf_ledger_def keys_ok_def)
    qed (use wf in \<open>simp add: event_rows_def wf_ledger_def keys_ok_def\<close>)
    have "distinct (map receipt_key (lg_receipts db @ [bt_receipt batch]))"
      using receipts.add_distinct [of db "bt_receipt batch"] written(2) wf by (simp add: receipt_key_def wf_ledger_def keys_ok_def)
    with events rows wf show "keys_ok db'" unfolding keys_ok_def db' wf_ledger_def by simp
    show "events_ok db'"
    proof (cases "bt_acceptedEvent batch")
      case None
      then show ?thesis using wf shape(2) by (fastforce simp: db' events_ok_def event_rows_def wf_ledger_def)
    next
      case (Some e)
      with shape(1) have "settles (bt_receipt batch) e" by blast
      then show ?thesis using wf Some by (fastforce simp: db' events_ok_def event_rows_def wf_ledger_def)
    qed
    have "ev_graphId e = rcp_graphId (bt_receipt batch) \<and> ev_attemptId e = rcp_attemptId (bt_receipt batch)"
      if "bt_acceptedEvent batch = Some e" for e
      using shape(1) [OF that] by (simp add: settles_def)
    moreover note written(1)
    ultimately show "exclusive db'" using wf
      by (auto simp: db' exclusive_def event_rows_def wf_ledger_def batch_guard_def closing_command_def list_ex_iff split: option.splits)
  qed
  moreover have "history_kept db db'" by (simp add: db' history_kept_def rows_grow_append rows_grow_refl)
  ultimately show ?thesis by (simp add: keeps_def)
qed

lemma commit_write_keeps:
  "assertBatchShape batch = Inr () \<Longrightarrow> commit_write num batch db = Inr (v, db') \<Longrightarrow> keeps db db'"
  by (auto simp: commit_write_def result_simps split: option.splits intro: writeBatch_keeps)

lemma commitAccepted_keeps: "commitAccepted num batch db = Inr (v, db') \<Longrightarrow> keeps db db'"
  by (auto simp: commitAccepted_def result_simps split: option.splits intro: commit_write_keeps)

lemma writeGraphState_keeps: "writeGraphState num explicit st db = Inr db' \<Longrightarrow> keeps db db'"
  by (rule keeps_same) (auto simp: writeGraphState_def result_simps same_facts_def history_kept_def rows_grow_refl)

lemma writeAcceptedResult_keeps: "writeAcceptedResult num x db = Inr db' \<Longrightarrow> keeps db db'"
  by (rule keeps_same) (auto simp: same_facts_def history_kept_def rows_grow_refl rows_grow_append dest!: writeAcceptedResult_Inr)

lemma writeEffect_keeps:
  assumes "writeEffect e db = Inr db'"
  shows "keeps db db'"
proof (cases "selectEffect db (ef_graphId e) (ef_effectId e)")
  case None
  with assms obtain run where db': "db' = db\<lparr>lg_effects := lg_effects db @ [e\<lparr>ef_runId := Some run\<rparr>]\<rparr>"
    by (auto simp: writeEffect_def result_simps)
  then show ?thesis using effects.add_distinct [of db "e\<lparr>ef_runId := Some run\<rparr>"] None
    by (auto simp: keeps_def wf_ledger_def keys_ok_def events_ok_def exclusive_def history_kept_def rows_grow_refl rows_grow_append)
next
  case (Some a)
  then have "db' = db" using assms by (auto simp: writeEffect_def result_simps)
  then show ?thesis by simp
qed

lemma move_effect_keeps: "keeps db (move_effect db g i target)"
  by (rule keeps_same)
    (auto simp: move_effect_def same_facts_def history_kept_def rows_grow_refl transition_guard_def effect_kept_def o_def intro!: rows_grow_map)

lemma transitionEffect_keeps: "transitionEffect g i target db = Inr (t, db') \<Longrightarrow> keeps db db'"
  by (auto simp: transitionEffect_def Let_def move_effect_keeps split: option.splits if_splits)

text \<open>The row a mint appends has a fresh run and the greatest number.\<close>

lemma append_run_keeps:
  assumes "readRunOf db (rid_graphId identity) (rid_runId identity) = None"
    and "\<And>r. r \<in> set (lg_runs db) \<Longrightarrow> rid_graphId (rw_identity r) = rid_graphId identity \<Longrightarrow> rw_runSeq r < n"
  shows "keeps db (db\<lparr>lg_runs := lg_runs db @ [\<lparr>rw_identity = identity, rw_runSeq = n, rw_control = None\<rparr>]\<rparr>)"
  using assms run_table.add_distinct [of db "\<lparr>rw_identity = identity, rw_runSeq = n, rw_control = None\<rparr>"]
  by (fastforce simp: keeps_def wf_ledger_def keys_ok_def events_ok_def exclusive_def history_kept_def rows_grow_refl rows_grow_append)

lemma mintRun_keeps:
  assumes "mintRun identity db = Inr (row, db')"
  shows "keeps db db'"
proof (cases "readRun db (rid_graphId identity)")
  case None
  have "keeps db (db\<lparr>lg_runs := lg_runs db @ [\<lparr>rw_identity = identity, rw_runSeq = 1, rw_control = None\<rparr>]\<rparr>)"
    by (rule append_run_keeps) (use None in \<open>auto simp: readRun_None readRunOf_None\<close>)
  then show ?thesis using assms None by (auto simp: mintRun_def result_simps Let_def split: option.splits)
qed (use assms in \<open>auto simp: mintRun_def result_simps Let_def split: option.splits\<close>)

lemma mintNextRun_keeps: "mintNextRun identity after db = Inr (row, db') \<Longrightarrow> keeps db db'"
  using append_run_keeps [of db identity "rw_runSeq (the (readRun db (rid_graphId identity))) + 1"]
  by (auto simp: mintNextRun_def result_simps Let_def less_Suc_eq_le readRun_greatest split: if_splits option.splits)

lemma claim_run_keeps:
  assumes "claim_run c db = Inr db'"
  shows "keeps db db'"
proof -
  define f where "f r = (if rid_graphId (rw_identity r) = kc_graphId c \<and> rid_runId (rw_identity r) = kc_runId c \<and> rw_control r = None
      then r\<lparr>rw_control := Some c\<rparr> else r)" for r :: run_row
  have db': "db' = db\<lparr>lg_runs := map f (lg_runs db)\<rparr>" using assms by (auto simp: claim_run_def Let_def f_def split: if_splits)
  have same: "rw_identity (f r) = rw_identity r" "rw_runSeq (f r) = rw_runSeq r" "run_kept r (f r)" for r
    by (auto simp: f_def run_kept_def)
  then show ?thesis
    by (auto simp: db' keeps_def wf_ledger_def keys_ok_def events_ok_def exclusive_def history_kept_def rows_grow_refl o_def intro: rows_grow_map)
qed

lemma append_decision_keeps:
  assumes "decision_lands db d"
  shows "keeps db (db\<lparr>lg_decisions := lg_decisions db @ [d]\<rparr>)"
  using assms
  by (fastforce simp: decision_lands_def selectAcceptedEvent_None keeps_def wf_ledger_def keys_ok_def events_ok_def exclusive_def history_kept_def rows_grow_refl rows_grow_append)

lemma keeps_trans: "keeps db db' \<Longrightarrow> keeps db' db'' \<Longrightarrow> keeps db db''"
  by (auto simp: keeps_def intro: history_kept_trans)

lemma writeControlDecision_keeps: "writeControlDecision d c db = Inr (w, db') \<Longrightarrow> keeps db db'"
  by (auto simp: writeControlDecision_def result_simps Let_def append_decision_keeps
      intro: keeps_trans [OF append_decision_keeps claim_run_keeps] split: if_splits option.splits)

lemma claimRunControl_keeps: "claimRunControl c db = Inr (stands, db') \<Longrightarrow> keeps db db'"
  by (auto simp: claimRunControl_def result_simps intro: claim_run_keeps)

lemma recordReexecution_keeps: "recordReexecution x db = Inr (w, db') \<Longrightarrow> keeps db db'"
  by (rule keeps_same)
    (auto simp: recordReexecution_def result_simps Let_def same_facts_def history_kept_def rows_grow_refl rows_grow_append split: option.splits)

lemma markReexecutionExecuted_keeps: "markReexecutionExecuted g r s t_at db = Inr (landed, db') \<Longrightarrow> keeps db db'"
  by (rule keeps_same)
    (auto simp: markReexecutionExecuted_def result_simps Let_def same_facts_def history_kept_def rows_grow_refl order_kept_def intro!: rows_grow_map)

lemma raiseApprovalRequest_keeps:
  assumes "raiseApprovalRequest q db = Inr (w, db')"
  shows "keeps db db'"
proof -
  have "keeps db (db\<lparr>lg_approvals := lg_approvals db @ [q]\<rparr>)" if "selectAcceptedEvent db (ap_graphId q) (ap_attemptId q) = None"
    using that
    by (fastforce simp: selectAcceptedEvent_None keeps_def wf_ledger_def keys_ok_def events_ok_def exclusive_def history_kept_def rows_grow_refl rows_grow_append)
  then show ?thesis using assms
    by (auto simp: raiseApprovalRequest_def result_simps Let_def split: if_splits option.splits)
qed

text \<open>Only pending requests change, and a settled attempt has none.\<close>

lemma update_pending_keeps: "keeps db (update_pending P status db)"
proof -
  define f where "f q = (if P q \<and> ap_status q = ApprovalPending then q\<lparr>ap_status := status\<rparr> else q)" for q :: approval_request
  have db': "update_pending P status db = db\<lparr>lg_approvals := map f (lg_approvals db)\<rparr>" by (simp add: update_pending_def f_def)
  have "ap_graphId (f q) = ap_graphId q" "ap_attemptId (f q) = ap_attemptId q" "request_kept q (f q)"
    "approved (ap_status q) \<Longrightarrow> f q = q" for q
    by (auto simp: f_def request_kept_def)
  then show ?thesis
    by (auto simp: db' keeps_def wf_ledger_def keys_ok_def events_ok_def exclusive_def history_kept_def rows_grow_refl intro: rows_grow_map)
qed

lemma decideApprovalRequest_keeps: "decideApprovalRequest w db = Inr (res, db') \<Longrightarrow> keeps db db'"
  by (auto simp: decideApprovalRequest_def result_simps Let_def update_pending_keeps split: if_splits option.splits)

lemma sweep_approvals_keeps: "keeps db (snd (sweep_approvals P g stamp reason db))"
  by (simp add: sweep_approvals_def Let_def update_pending_keeps)

lemma expireDueApprovals_keeps: "expireDueApprovals g stamp reason db = Inr (qs, db') \<Longrightarrow> keeps db db'"
  using sweep_approvals_keeps [of db "\<lambda>q. ap_expiresAt q \<le> stamp" g stamp reason] by (auto simp: expireDueApprovals_def result_simps)

lemma expireRunApprovals_keeps: "expireRunApprovals g r stamp reason db = Inr (qs, db') \<Longrightarrow> keeps db db'"
  using sweep_approvals_keeps [of db "\<lambda>q. ap_runId q = r" g stamp reason] by (auto simp: expireRunApprovals_def result_simps)

lemma reservations_keep: "keeps db (db\<lparr>lg_reservations := rs\<rparr>)"
  by (rule keeps_same) (simp_all add: same_facts_def history_kept_def rows_grow_refl)

lemmas operations_keep = commitAccepted_keeps commit_write_keeps writeGraphState_keeps writeAcceptedResult_keeps writeEffect_keeps
  transitionEffect_keeps mintRun_keeps mintNextRun_keeps writeControlDecision_keeps claimRunControl_keeps recordReexecution_keeps
  markReexecutionExecuted_keeps raiseApprovalRequest_keeps decideApprovalRequest_keeps expireDueApprovals_keeps
  expireRunApprovals_keeps reservations_keep

lemma ledger_step_keeps: "ledger_step num db db' \<Longrightarrow> keeps db db'"
  by (induction rule: ledger_step.induct)
    (auto simp: markEffectStarted_def markEffectDone_def markEffectFailed_def intro: operations_keep)

lemma ledger_steps_keep: "(ledger_step num)\<^sup>*\<^sup>* db db' \<Longrightarrow> keeps db db'"
  by (induction rule: rtranclp_induct) (auto intro: keeps_trans ledger_step_keeps)

subsection \<open>Consequences along a history\<close>

lemma history_wf: "(ledger_step num)\<^sup>*\<^sup>* empty_ledger db \<Longrightarrow> wf_ledger db"
  using ledger_steps_keep [of num empty_ledger db] wf_empty_ledger by (simp add: keeps_def)

lemma history_receipt:
  assumes "history_kept db db'" and "lookupReceipt db g a s = Some r"
  shows "lookupReceipt db' g a s = Some r"
  using assms receipts.grown [of db' db _ "(g, a, s)" r] by (auto simp: history_kept_def rows_grow_eq)

lemma committed_receipt:
  assumes "commitAccepted num batch db = Inr (Committed r, db')"
  shows "lookupReceipt db' (rcp_graphId r) (rcp_attemptId r) (rcp_submissionId r) = Some r"
proof -
  note c = commitAccepted_Committed [OF assms] and w = writeBatch_Some [OF commitAccepted_Committed(3) [OF assms]]
  have "lookupReceipt db (rcp_graphId r) (rcp_attemptId r) (rcp_submissionId r) = None" using w(2) c(4) by simp
  moreover obtain rows where "lg_receipts db' = lg_receipts db @ [r]" using w(4) c(4) by auto
  moreover have "find P xs = None \<Longrightarrow> P x \<Longrightarrow> find P (xs @ [x]) = Some x" for P and x :: receipt and xs
    by (induction xs) (auto split: if_splits)
  ultimately show ?thesis by (simp add: lookupReceipt_def)
qed

lemma known_submission:
  assumes "lookupReceipt db (rcp_graphId (bt_receipt batch)) (rcp_attemptId (bt_receipt batch)) (rcp_submissionId (bt_receipt batch)) = Some r"
    and "assertBatchShape batch = Inr ()"
  shows "commitAccepted num batch db = Inr (if rcp_proposalDigest r = rcp_proposalDigest (bt_receipt batch) then Replayed r else Conflict r, db)"
  using assms by (simp add: commitAccepted_def commit_reads_def Let_def)

text \<open>The guard and its classification name the same fact, so a refused write always has an answer.\<close>

lemma commit_write_closed:
  assumes "keys_ok db" and "one_request db (rcp_graphId (bt_receipt batch)) (rcp_attemptId (bt_receipt batch))"
    and "closing_fact db (rcp_graphId (bt_receipt batch)) (rcp_attemptId (bt_receipt batch)) = Some v"
  shows "commit_write num batch db = Inr (v, db)"
  using guard_agrees [OF assms(1,2)] assms(3) by (simp add: commit_write_def writeBatch_def)

lemma commit_write_open:
  assumes "keys_ok db" and "one_request db (rcp_graphId (bt_receipt batch)) (rcp_attemptId (bt_receipt batch))"
    and "closing_fact db (rcp_graphId (bt_receipt batch)) (rcp_attemptId (bt_receipt batch)) = None"
    and "commit_write num batch db = Inr (v, db')"
  shows "v = Committed (bt_receipt batch) \<and> writeBatch num batch db = Inr (Some db')"
  using guard_agrees [OF assms(1,2)] assms(3,4)
  by (auto simp: commit_write_def result_simps split: option.splits)

lemma closed_events:
  assumes "wf_ledger db" and "e \<in> set (lg_events db)" and "e' \<in> set (lg_events db)"
    and "ev_graphId e' = ev_graphId e" and "ev_attemptId e' = ev_attemptId e"
  shows "e' = e"
  using assms settlements.member [of db e] settlements.member [of db e'] by (simp add: wf_ledger_def keys_ok_def)

end
