(* ===== verification/Acceptance.thy ===== *)
theory Acceptance
  imports Validators LedgerHistory
begin

text \<open>
  The acceptance core (\<open>graph/outcome/acceptance.ts\<close>): the refusal gates, the validation of a submission outside any
  transaction, and its commit with the recheck of the binding inside one. A refusal is its code and its path. A join is
  the caller's part of the transaction; it reads the ledger it is given, and what it settles is run on the ledger the
  batch has left.
\<close>

subsection \<open>Requests and refusals\<close>

record effect_input =
  ei_effectId :: string
  ei_attemptId :: "string option"
  ei_kind :: string
  ei_payload :: jsval

record acceptance_request =
  aq_plan :: compiled_plan
  aq_submittedPlanRevision :: string
  aq_identity :: execution_identity
  aq_proposal :: jsval
  aq_validators :: validator_registry
  aq_artifactRoot :: string
  aq_effects :: "effect_input list option"
  aq_now :: int

datatype submission_refusal_code =
    RefuseTimestamp | RefuseEffect | RefusePlan | RefuseDraft | RefuseRevision | RefuseGraph | RefuseProposal
  | RefuseNode | RefuseOutcome | RefuseUnrepresentable | RefuseValidator | RefuseOversized | RefuseEvidence | RefuseStale

type_synonym submission_refusal = "submission_refusal_code \<times> string"

definition indexed :: "string \<Rightarrow> nat \<Rightarrow> string" where
  "indexed path i = path @ ''['' @ show_nat i @ '']''"

fun effect_refusals_from :: "nat \<Rightarrow> string list \<Rightarrow> effect_input list \<Rightarrow> submission_refusal list" where
  "effect_refusals_from i seen [] = []"
| "effect_refusals_from i seen (e # es) =
     (if ei_effectId e = [] \<or> ei_effectId e \<in> set seen then [(RefuseEffect, indexed ''$.effects'' i @ ''.effectId'')] else []) @
     (if ei_kind e = [] then [(RefuseEffect, indexed ''$.effects'' i @ ''.kind'')] else []) @
     effect_refusals_from (i + 1) (if ei_effectId e = [] then seen else ei_effectId e # seen) es"

definition effectRefusals :: "effect_input list option \<Rightarrow> submission_refusal list" where
  "effectRefusals effects = (case effects of None \<Rightarrow> [] | Some es \<Rightarrow> effect_refusals_from 0 [] es)"

definition planRefusals :: "acceptance_request \<Rightarrow> submission_refusal list" where
  "planRefusals q =
     (case readPlanExecutability (enc_executability (cp_executability (aq_plan q))) of
        ReadsDraft \<Rightarrow> [(RefuseDraft, ''$.plan.executability'')]
      | ReadsMalformed \<Rightarrow> [(RefusePlan, ''$.plan.executability'')]
      | ReadsExecutable \<Rightarrow> []) @
     (if aq_submittedPlanRevision q \<noteq> cp_planRevision (aq_plan q) then [(RefuseRevision, ''$.submittedPlanRevision'')] else []) @
     (if xi_graphId (aq_identity q) \<noteq> cp_graphId (aq_plan q) then [(RefuseGraph, ''$.identity.graphId'')] else [])"

definition nodeOf :: "compiled_plan \<Rightarrow> string \<Rightarrow> compiled_node option" where
  "nodeOf plan nodeId = find (\<lambda>n. cn_id n = nodeId) (cp_nodes plan)"

definition outcomeOf :: "compiled_node \<Rightarrow> string \<Rightarrow> compiled_outcome option" where
  "outcomeOf node outcomeId = find (\<lambda>oc. co_id oc = outcomeId) (cn_outcomes node)"

definition pinned_version :: "compiled_acceptance_requirement \<Rightarrow> int option" where
  "pinned_version r = (case car_version r of None \<Rightarrow> None | Some v \<Rightarrow> readValidatorVersion (js_int v))"

definition unpinned_refusals :: "compiled_outcome \<Rightarrow> submission_refusal list" where
  "unpinned_refusals outcome =
     List.map_filter (\<lambda>(i, r). if pinned_version r = None then Some (RefuseDraft, indexed ''$.outcome.acceptance'' i) else None)
       (enumerate 0 (co_acceptance outcome))"

definition readRequest :: "acceptance_request \<Rightarrow> submission_refusal list + (outcome_proposal \<times> compiled_node \<times> compiled_outcome)" where
  "readRequest q =
     (let refusals = (if \<bar>aq_now q\<bar> \<le> max_safe then [] else [(RefuseTimestamp, ''$.now'')]) @
                     effectRefusals (aq_effects q) @ planRefusals q
      in case readOutcomeProposal (aq_proposal q) of
           Inl issues \<Rightarrow> Inl (refusals @ map (\<lambda>path. (RefuseProposal, path)) issues)
         | Inr p \<Rightarrow>
             (case nodeOf (aq_plan q) (pr_nodeId p) of
                None \<Rightarrow> Inl (refusals @ [(RefuseNode, ''$.nodeId'')])
              | Some node \<Rightarrow>
                  (case outcomeOf node (pr_outcomeId p) of
                     None \<Rightarrow> Inl (refusals @ [(RefuseOutcome, ''$.outcomeId'')])
                   | Some outcome \<Rightarrow>
                       let all = refusals @ unpinned_refusals outcome
                       in if all \<noteq> [] then Inl all else Inr (p, node, outcome))))"

subsection \<open>Validation\<close>

definition bindingOf :: "execution_identity \<Rightarrow> string \<Rightarrow> string \<Rightarrow> validation_binding" where
  "bindingOf identity planRevision digest =
     \<lparr>vb_graphId = xi_graphId identity, vb_attemptId = xi_attemptId identity, vb_submissionId = xi_submissionId identity,
      vb_planRevision = planRevision, vb_proposalDigest = digest\<rparr>"

record submission_decision =
  sn_kind :: decision_kind
  sn_fields :: accepted_decision
  sn_requirements :: "(validator_key \<times> validation_outcome) list"

record retained_validation =
  rt_payload :: accepted_data
  rt_artifacts :: "accepted_artifact list"

datatype submission_validation =
    Validated submission_decision validation_binding "retained_validation option"
  | ValidationRefused "submission_refusal list"

fun passes :: "validation_outcome \<Rightarrow> bool" where
  "passes (Pass _) = True"
| "passes _ = False"

fun evidence_of :: "validation_outcome \<Rightarrow> accepted_artifact list" where
  "evidence_of (Pass es) = es"
| "evidence_of _ = []"

definition requirement_key :: "compiled_acceptance_requirement \<Rightarrow> validator_key" where
  "requirement_key r = (car_validator r, case pinned_version r of None \<Rightarrow> 0 | Some v \<Rightarrow> v)"

definition missing_validators :: "validator_registry \<Rightarrow> compiled_outcome \<Rightarrow> submission_refusal list" where
  "missing_validators registry outcome =
     List.map_filter (\<lambda>(i, r). if lookup_validator registry (requirement_key r) = None
                               then Some (RefuseValidator, indexed ''$.outcome.acceptance'' i) else None)
       (enumerate 0 (co_acceptance outcome))"

definition request_for :: "acceptance_request \<Rightarrow> compiled_outcome \<Rightarrow> normalized_proposal \<Rightarrow> string \<Rightarrow> validator_key \<Rightarrow> validator_request" where
  "request_for q outcome normalized digest key =
     \<lparr>vr_key = key, vr_proposal = normalized, vr_proposalDigest = digest, vr_planRevision = cp_planRevision (aq_plan q),
      vr_identity = aq_identity q, vr_artifactRoot = aq_artifactRoot q, vr_dataContract = co_data outcome, vr_now = aq_now q\<rparr>"

text \<open>An implementation that throws is indeterminate.\<close>

definition run_validator :: "acceptance_request \<Rightarrow> compiled_outcome \<Rightarrow> normalized_proposal \<Rightarrow> string \<Rightarrow> compiled_acceptance_requirement \<Rightarrow>
    validator_key \<times> validation_outcome" where
  "run_validator q outcome normalized digest r =
     (let key = requirement_key r in
      case lookup_validator (aq_validators q) key of
        None \<Rightarrow> (key, Indeterminate ''not registered'')
      | Some implementation \<Rightarrow>
          (key, case implementation (request_for q outcome normalized digest key) of
                  Inl err \<Rightarrow> Indeterminate (''validator '' @ validatorKeyText key @ '' threw ('' @ err @ '')'')
                | Inr result \<Rightarrow> result))"

text \<open>The evidence of all passes, one revision for each reference.\<close>

fun merge_evidence :: "nat \<Rightarrow> accepted_artifact list \<Rightarrow> accepted_artifact list \<times> submission_refusal list \<Rightarrow> accepted_artifact list \<times> submission_refusal list" where
  "merge_evidence i [] acc = acc"
| "merge_evidence i (e # es) (retained, conflicts) =
     merge_evidence i es
       (case find (\<lambda>a. aa_ref a = aa_ref e) retained of
          None \<Rightarrow> (retained @ [e], conflicts)
        | Some previous \<Rightarrow>
            if aa_artifactId previous = aa_artifactId e then (retained, conflicts)
            else (retained, conflicts @ [(RefuseEvidence, indexed ''$.outcome.acceptance'' i)]))"

definition collect_evidence :: "(validator_key \<times> validation_outcome) list \<Rightarrow> accepted_artifact list \<times> submission_refusal list" where
  "collect_evidence requirements =
     foldl (\<lambda>acc (i, entry). merge_evidence i (evidence_of (snd entry)) acc) ([], []) (enumerate 0 requirements)"

definition acceptedDataOf :: "jsval \<Rightarrow> accepted_data" where
  "acceptedDataOf data = (if data = JUndef then DataAbsent else DataValue data)"

definition validateSubmission :: "(string \<Rightarrow> string) \<Rightarrow> (rat \<Rightarrow> string) \<Rightarrow> acceptance_request \<Rightarrow> submission_validation" where
  "validateSubmission sha num q =
     (case readRequest q of
        Inl refusals \<Rightarrow> ValidationRefused refusals
      | Inr (p, node, outcome) \<Rightarrow>
          (case proposalDigest sha num (as_proposal (normalizeProposal p)) of
             Inl _ \<Rightarrow> ValidationRefused [(RefuseUnrepresentable, ''$.data'')]
           | Inr digest \<Rightarrow>
               let normalized = normalizeProposal p;
                   missing = missing_validators (aq_validators q) outcome
               in if missing \<noteq> [] then ValidationRefused missing
                  else
                    let requirements = map (run_validator q outcome normalized digest) (co_acceptance outcome);
                        accepted = list_all (\<lambda>e. passes (snd e)) requirements;
                        decision = \<lparr>sn_kind = (if accepted then AcceptedKind else RejectedKind),
                          sn_fields = \<lparr>dc_graphId = xi_graphId (aq_identity q), dc_attemptId = xi_attemptId (aq_identity q),
                            dc_submissionId = xi_submissionId (aq_identity q), dc_planRevision = cp_planRevision (aq_plan q),
                            dc_proposalDigest = digest, dc_nodeId = cn_id node, dc_outcomeId = co_id outcome\<rparr>,
                          sn_requirements = requirements\<rparr>;
                        binding = bindingOf (aq_identity q) (cp_planRevision (aq_plan q)) digest
                    in if \<not> accepted then Validated decision binding None
                       else
                         let (retained, conflicts) = collect_evidence requirements;
                             payload = acceptedDataOf (nr_data normalized)
                         in if conflicts \<noteq> [] then ValidationRefused conflicts
                            else if acceptedDataBytes num payload > ACCEPTED_DATA_MAX_BYTES then ValidationRefused [(RefuseOversized, ''$.data'')]
                            else Validated decision binding (Some \<lparr>rt_payload = payload, rt_artifacts = retained\<rparr>)))"

subsection \<open>The commit\<close>

datatype 'e commit_failure = LedgerFailure ledger_error | JoinFailure 'e

definition in_ledger :: "ledger_error + 'a \<Rightarrow> 'e commit_failure + 'a" where
  "in_ledger r = (case r of Inl e \<Rightarrow> Inl (LedgerFailure e) | Inr x \<Rightarrow> Inr x)"

record 'e join_result =
  jr_effects :: "effect_input list"
  jr_settle :: "ledger \<Rightarrow> 'e commit_failure + ledger"

type_synonym 'e acceptance_join = "ledger \<Rightarrow> accepted_decision \<Rightarrow> 'e commit_failure + 'e join_result"

datatype submission_result =
    SubmissionRefused "submission_refusal list"
  | Submitted submission_decision commit_verdict

definition pendingEffectsOf :: "effect_input list option \<Rightarrow> execution_identity \<Rightarrow> int \<Rightarrow> effect_record list" where
  "pendingEffectsOf inputs identity now =
     (case inputs of
        None \<Rightarrow> []
      | Some es \<Rightarrow> map (\<lambda>e. \<lparr>ef_graphId = xi_graphId identity, ef_runId = None, ef_effectId = ei_effectId e,
          ef_attemptId = (case ei_attemptId e of None \<Rightarrow> xi_attemptId identity | Some a \<Rightarrow> a), ef_kind = ei_kind e,
          ef_payload = ei_payload e, ef_createdAt = now, ef_status = EffectPending\<rparr>) es)"

definition liveBindingOf :: "(string \<Rightarrow> string) \<Rightarrow> (rat \<Rightarrow> string) \<Rightarrow> acceptance_request \<Rightarrow> validation_binding option" where
  "liveBindingOf sha num q =
     (case readOutcomeProposal (aq_proposal q) of
        Inl _ \<Rightarrow> None
      | Inr p \<Rightarrow>
          (case proposalDigest sha num p of
             Inl _ \<Rightarrow> None
           | Inr digest \<Rightarrow> Some (bindingOf (aq_identity q) (cp_planRevision (aq_plan q)) digest)))"

definition bindingsEqual :: "validation_binding \<Rightarrow> validation_binding \<Rightarrow> bool" where
  "bindingsEqual a b \<longleftrightarrow> vb_graphId a = vb_graphId b \<and> vb_attemptId a = vb_attemptId b \<and> vb_submissionId a = vb_submissionId b \<and>
     vb_planRevision a = vb_planRevision b \<and> vb_proposalDigest a = vb_proposalDigest b"

definition submission_receipt :: "acceptance_request \<Rightarrow> validation_binding \<Rightarrow> submission_decision \<Rightarrow> receipt" where
  "submission_receipt q live decision =
     \<lparr>rcp_graphId = xi_graphId (aq_identity q), rcp_attemptId = xi_attemptId (aq_identity q),
      rcp_submissionId = xi_submissionId (aq_identity q), rcp_planRevision = vb_planRevision live,
      rcp_proposalDigest = vb_proposalDigest live, rcp_decision = sn_kind decision, rcp_committedAt = aq_now q\<rparr>"

definition submission_batch :: "acceptance_request \<Rightarrow> validation_binding \<Rightarrow> submission_decision \<Rightarrow> retained_validation option \<Rightarrow> acceptance_batch" where
  "submission_batch q live decision retained =
     (let r = submission_receipt q live decision in
      if sn_kind decision = AcceptedKind
      then \<lparr>bt_receipt = r,
        bt_acceptedEvent = Some \<lparr>ev_graphId = rcp_graphId r, ev_attemptId = rcp_attemptId r, ev_submissionId = rcp_submissionId r,
          ev_planRevision = rcp_planRevision r, ev_outcomeId = dc_outcomeId (sn_fields decision), ev_acceptedAt = aq_now q\<rparr>,
        bt_acceptedResult = map_option (\<lambda>rt. \<lparr>res_graphId = xi_graphId (aq_identity q), res_attemptId = xi_attemptId (aq_identity q),
          res_planRevision = rcp_planRevision r, res_payload = rt_payload rt, res_artifacts = Some (rt_artifacts rt),
          res_acceptedAt = aq_now q\<rparr>) retained,
        bt_effects = pendingEffectsOf (aq_effects q) (aq_identity q) (aq_now q)\<rparr>
      else \<lparr>bt_receipt = r, bt_acceptedEvent = None, bt_acceptedResult = None, bt_effects = []\<rparr>)"

fun write_effects :: "effect_record list \<Rightarrow> ledger \<Rightarrow> ledger_error + ledger" where
  "write_effects [] db = Inr db"
| "write_effects (e # es) db = rbind (writeEffect e db) (write_effects es)"

text \<open>The join of an accepted decision, computed before the batch is written.\<close>

definition run_join :: "'e acceptance_join option \<Rightarrow> submission_decision \<Rightarrow> ledger \<Rightarrow> 'e commit_failure + 'e join_result option" where
  "run_join join decision db =
     (case join of
        None \<Rightarrow> Inr None
      | Some j \<Rightarrow> if sn_kind decision = AcceptedKind then rbind (j db (sn_fields decision)) (\<lambda>x. Inr (Some x)) else Inr None)"

text \<open>What joins the batch once it has committed; no other verdict writes anything.\<close>

definition settle_join :: "acceptance_request \<Rightarrow> 'e join_result option \<Rightarrow> commit_verdict \<Rightarrow> ledger \<Rightarrow> 'e commit_failure + ledger" where
  "settle_join q joined verdict db =
     (case (verdict, joined) of
        (Committed r, Some x) \<Rightarrow>
          rbind (in_ledger (write_effects (pendingEffectsOf (Some (jr_effects x)) (aq_identity q) (aq_now q)) db)) (jr_settle x)
      | _ \<Rightarrow> Inr db)"

definition commitSubmission ::
  "(string \<Rightarrow> string) \<Rightarrow> (rat \<Rightarrow> string) \<Rightarrow> acceptance_request \<Rightarrow> submission_validation \<Rightarrow> 'e acceptance_join option \<Rightarrow> ledger \<Rightarrow>
   'e commit_failure + (submission_result \<times> ledger)" where
  "commitSubmission sha num q validation join db =
     (case validation of
        ValidationRefused refusals \<Rightarrow> Inr (SubmissionRefused refusals, db)
      | Validated decision binding retained \<Rightarrow>
          (case readRequest q of
             Inl refusals \<Rightarrow> Inr (SubmissionRefused refusals, db)
           | Inr _ \<Rightarrow>
               (case liveBindingOf sha num q of
                  None \<Rightarrow> Inr (SubmissionRefused [(RefuseStale, ''$'')], db)
                | Some live \<Rightarrow>
                    if \<not> bindingsEqual live binding then Inr (SubmissionRefused [(RefuseStale, ''$'')], db)
                    else
                      rbind (run_join join decision db) (\<lambda>joined.
                      rbind (in_ledger (commitAccepted num (submission_batch q live decision retained) db)) (\<lambda>(verdict, db').
                      rbind (settle_join q joined verdict db') (\<lambda>db'.
                        Inr (Submitted decision verdict, db')))))))"

definition submitOutcome ::
  "(string \<Rightarrow> string) \<Rightarrow> (rat \<Rightarrow> string) \<Rightarrow> acceptance_request \<Rightarrow> 'e acceptance_join option \<Rightarrow> ledger \<Rightarrow>
   'e commit_failure + (submission_result \<times> ledger)" where
  "submitOutcome sha num q join db = commitSubmission sha num q (validateSubmission sha num q) join db"

end
