(* ===== verification/Completions.thy ===== *)
theory Completions
  imports Acceptance
begin

text \<open>
  What the runtime reads at its boundary: the completion facts of the natural channel
  (\<open>graph/outcome/natural-completion.ts\<close>) and of the host-derived channel (\<open>graph/outcome/host-derived.ts\<close>), the
  host-completion fact, the dispatch payload and the submission key (\<open>graph/outcome/runtime-readings.ts\<close>), and the
  refusals of the runtime. A refusal is its code with the facts it names; an issue of an envelope is its path.
\<close>

subsection \<open>Refusals\<close>

datatype runtime_refusal =
    InvalidTimestamp
  | CapabilityRefused string
  | HostIdentityUnavailable
  | HostIdentityAbsent
  | HostIdentityMismatch
  | ControlStopped run_control
  | AttemptIsStopped control_decision
  | ApprovalBlocks approval_request
  | AlreadySuperseded control_decision
  | RunIsSuperseded string
  | GraphNotStarted
  | PlanRevisionMismatch
  | UnsupportedStateBody
  | UnreadableState
  | NodeNotDeclared
  | MalformedNaturalDelivery string
  | MalformedHostCompletion string
  | MalformedHostDerived string
  | NaturalUnauthorized
  | DerivedNaturalNode
  | HostCompletionUnavailable
  | HostCompletionUnauthenticated
  | CredentialMissing
  | CredentialUnknown
  | CredentialNodeMismatch
  | AttemptNameMismatch
  | NeverDispatched
  | NoEntryToStart
  | InputUnbound input_refusal
  | BudgetRefuses budget_gate_refusal
  | AdvanceRefuses advance_refusal_code
  | ProgressRefuses projection_refusal
  | SubmissionRefuses submission_refusal

subsection \<open>Natural completion\<close>

record natural_delivery =
  nd_nodeId :: string
  nd_attemptId :: string
  nd_credential :: "string option"

definition DELIVERY_KEYS :: "string list" where
  "DELIVERY_KEYS = [''nodeId'', ''attemptId'', ''credential'']"

definition unknown_paths :: "string list \<Rightarrow> string \<Rightarrow> jsval \<Rightarrow> string list" where
  "unknown_paths keys prefix v = map (\<lambda>k. prefix @ k) (filter (\<lambda>k. k \<notin> set keys) (js_keys v))"

definition required_path :: "jsval \<Rightarrow> string \<Rightarrow> string list" where
  "required_path v key = (if nonempty_string (js_get v key) = None then [''$.'' @ key] else [])"

definition natural_issues :: "jsval \<Rightarrow> string list" where
  "natural_issues v =
     unknown_paths DELIVERY_KEYS ''$.'' v @ required_path v ''nodeId'' @ required_path v ''attemptId'' @
     (if js_get v ''credential'' \<noteq> JUndef then required_path v ''credential'' else [])"

definition readNaturalCompletionDelivery :: "jsval \<Rightarrow> string list + natural_delivery" where
  "readNaturalCompletionDelivery v =
     (if \<not> isRecord v then Inl [''$'']
      else if natural_issues v \<noteq> [] then Inl (natural_issues v)
      else Inr \<lparr>nd_nodeId = text_of (js_get v ''nodeId''), nd_attemptId = text_of (js_get v ''attemptId''),
             nd_credential = nonempty_string (js_get v ''credential'')\<rparr>)"

definition NATURAL_COMPLETION_SUBMISSION_PREFIX :: string where
  "NATURAL_COMPLETION_SUBMISSION_PREFIX = ''natural-completion:''"

definition naturalCompletionSubmissionId :: "string \<Rightarrow> string" where
  "naturalCompletionSubmissionId digest = NATURAL_COMPLETION_SUBMISSION_PREFIX @ digest"

fun isNaturalCompletionSubmissionId :: "jsval \<Rightarrow> bool" where
  "isNaturalCompletionSubmissionId (JStr s) =
     (length s > length NATURAL_COMPLETION_SUBMISSION_PREFIX \<and>
      take (length NATURAL_COMPLETION_SUBMISSION_PREFIX) s = NATURAL_COMPLETION_SUBMISSION_PREFIX)"
| "isNaturalCompletionSubmissionId _ = False"

text \<open>The plan's authorization of a node: the pinned outcome and the policy that granted it.\<close>

definition authorization_entry :: "compiled_plan \<Rightarrow> string \<Rightarrow> jsval option" where
  "authorization_entry plan nodeId =
     (case js_array (cp_completionAuthorizations plan) of
        None \<Rightarrow> None
      | Some entries \<Rightarrow> find (\<lambda>e. js_get e ''nodeId'' = JStr nodeId) entries)"

definition naturalCompletionAuthorityOf :: "compiled_plan \<Rightarrow> string \<Rightarrow> runtime_refusal + (string \<times> jsval)" where
  "naturalCompletionAuthorityOf plan nodeId =
     (case find (\<lambda>n. cn_id n = nodeId) (cp_nodes plan) of
        None \<Rightarrow> Inl NodeNotDeclared
      | Some node \<Rightarrow>
          (case (authorization_entry plan nodeId, cn_completion node) of
             (Some entry, Some (Natural declared)) \<Rightarrow>
               if js_get entry ''outcome'' \<noteq> JStr declared then Inl NaturalUnauthorized
               else Inr (declared, js_get entry ''policy'')
           | _ \<Rightarrow> Inl NaturalUnauthorized))"

definition naturalCompletionProposalOf :: "string \<Rightarrow> string \<Rightarrow> string option \<Rightarrow> jsval" where
  "naturalCompletionProposalOf nodeId outcomeId credential =
     JObj ([(''nodeId'', JStr nodeId), (''outcomeId'', JStr outcomeId)] @ opt_field ''credential'' JStr credential)"

record natural_settlement =
  nt_nodeId :: string
  nt_attemptId :: string
  nt_outcomeId :: string
  nt_submissionId :: string
  nt_policy :: jsval

definition naturalCompletionSettlementOf :: "string \<Rightarrow> string \<Rightarrow> string \<Rightarrow> string \<Rightarrow> jsval \<Rightarrow> natural_settlement" where
  "naturalCompletionSettlementOf nodeId attemptId outcomeId digest policy =
     \<lparr>nt_nodeId = nodeId, nt_attemptId = attemptId, nt_outcomeId = outcomeId,
      nt_submissionId = naturalCompletionSubmissionId digest, nt_policy = policy\<rparr>"

subsection \<open>Host completion\<close>

record host_completion_fact =
  hf_nodeId :: string
  hf_attemptId :: string
  hf_executionId :: string

text \<open>An issue of an unknown key is returned only with the issue of a field that is missing.\<close>

definition readHostCompletionFact :: "jsval \<Rightarrow> string list + host_completion_fact" where
  "readHostCompletionFact v =
     (if \<not> isRecord v then Inl [''$'']
      else case (nonempty_string (js_get v ''nodeId''), nonempty_string (js_get v ''attemptId''), nonempty_string (js_get v ''executionId'')) of
             (Some nodeId, Some attemptId, Some executionId) \<Rightarrow>
               Inr \<lparr>hf_nodeId = nodeId, hf_attemptId = attemptId, hf_executionId = executionId\<rparr>
           | _ \<Rightarrow> Inl (unknown_paths [''nodeId'', ''attemptId'', ''executionId''] ''$.'' v @ required_path v ''nodeId'' @
                       required_path v ''attemptId'' @ required_path v ''executionId''))"

subsection \<open>Host-derived completion\<close>

record host_derived_fact =
  hd_nodeId :: string
  hd_attemptId :: string
  hd_executionId :: string
  hd_outcomeId :: string
  hd_data :: jsval
  hd_evidenceRefs :: "string list option"
  hd_derivation :: "(nat \<times> nat) option"

definition FACT_KEYS :: "string list" where
  "FACT_KEYS = [''nodeId'', ''attemptId'', ''executionId'', ''outcomeId'', ''data'', ''evidenceRefs'', ''derivation'']"

definition DERIVATION_KEYS :: "string list" where
  "DERIVATION_KEYS = [''eventIndex'', ''turnIndex'']"

definition derived_index_path :: "jsval \<Rightarrow> string \<Rightarrow> string list" where
  "derived_index_path v key = (if nonneg_safe (js_get v key) = None then [''$.derivation.'' @ key] else [])"

definition derivation_issues :: "jsval \<Rightarrow> string list" where
  "derivation_issues v =
     (if v = JUndef then []
      else if \<not> isRecord v then [''$.derivation'']
      else unknown_paths DERIVATION_KEYS ''$.derivation.'' v @ derived_index_path v ''eventIndex'' @ derived_index_path v ''turnIndex'')"

definition derived_issues :: "jsval \<Rightarrow> string list" where
  "derived_issues v =
     unknown_paths FACT_KEYS ''$.'' v @ required_path v ''nodeId'' @ required_path v ''attemptId'' @
     required_path v ''executionId'' @ required_path v ''outcomeId'' @ evidence_paths (js_get v ''evidenceRefs'') @
     derivation_issues (js_get v ''derivation'')"

definition readHostDerivedCompletionFact :: "jsval \<Rightarrow> string list + host_derived_fact" where
  "readHostDerivedCompletionFact v =
     (if \<not> isRecord v then Inl [''$'']
      else if derived_issues v \<noteq> [] then Inl (derived_issues v)
      else let d = js_get v ''derivation'' in
        Inr \<lparr>hd_nodeId = text_of (js_get v ''nodeId''), hd_attemptId = text_of (js_get v ''attemptId''),
          hd_executionId = text_of (js_get v ''executionId''), hd_outcomeId = text_of (js_get v ''outcomeId''),
          hd_data = js_get v ''data'',
          hd_evidenceRefs = map_option (map text_of) (js_array (js_get v ''evidenceRefs'')),
          hd_derivation = (case (nonneg_safe (js_get d ''eventIndex''), nonneg_safe (js_get d ''turnIndex'')) of
             (Some e, Some t) \<Rightarrow> Some (e, t) | _ \<Rightarrow> None)\<rparr>)"

definition HOST_DERIVED_SUBMISSION_PREFIX :: string where
  "HOST_DERIVED_SUBMISSION_PREFIX = ''host-derived:''"

definition hostDerivedSubmissionId :: "string \<Rightarrow> string" where
  "hostDerivedSubmissionId digest = HOST_DERIVED_SUBMISSION_PREFIX @ digest"

fun isHostDerivedSubmissionId :: "jsval \<Rightarrow> bool" where
  "isHostDerivedSubmissionId (JStr s) =
     (length s > length HOST_DERIVED_SUBMISSION_PREFIX \<and> take (length HOST_DERIVED_SUBMISSION_PREFIX) s = HOST_DERIVED_SUBMISSION_PREFIX)"
| "isHostDerivedSubmissionId _ = False"

definition hostDerivedProposalOf :: "host_derived_fact \<Rightarrow> jsval" where
  "hostDerivedProposalOf f =
     JObj ([(''nodeId'', JStr (hd_nodeId f)), (''outcomeId'', JStr (hd_outcomeId f))] @
       (if hd_data f = JUndef then [] else [(''data'', hd_data f)]) @
       opt_field ''evidenceRefs'' (\<lambda>refs. JArr (map JStr refs)) (hd_evidenceRefs f))"

record host_derived_settlement =
  ht_nodeId :: string
  ht_attemptId :: string
  ht_outcomeId :: string
  ht_submissionId :: string
  ht_derivation :: "(nat \<times> nat) option"

definition hostDerivedSettlementOf :: "host_derived_fact \<Rightarrow> string \<Rightarrow> host_derived_settlement" where
  "hostDerivedSettlementOf f digest =
     \<lparr>ht_nodeId = hd_nodeId f, ht_attemptId = hd_attemptId f, ht_outcomeId = hd_outcomeId f,
      ht_submissionId = hostDerivedSubmissionId digest, ht_derivation = hd_derivation f\<rparr>"

subsection \<open>Submission keys\<close>

datatype settlement_source = FromSubmission | FromNaturalCompletion | FromHostDerived

definition submissionIdOf :: "(string \<Rightarrow> string) \<Rightarrow> (rat \<Rightarrow> string) \<Rightarrow> jsval \<Rightarrow> settlement_source \<Rightarrow> string" where
  "submissionIdOf sha num proposal source =
     (case readOutcomeProposal proposal of
        Inl _ \<Rightarrow> ''unclaimed-submission''
      | Inr p \<Rightarrow>
          (case proposalDigest sha num p of
             Inl _ \<Rightarrow> ''unrepresentable-submission''
           | Inr digest \<Rightarrow>
               (case source of
                  FromNaturalCompletion \<Rightarrow> naturalCompletionSubmissionId digest
                | FromHostDerived \<Rightarrow> hostDerivedSubmissionId digest
                | FromSubmission \<Rightarrow> ''submission:'' @ digest)))"

subsection \<open>Dispatch payloads\<close>

definition enc_target :: "dispatch_target \<Rightarrow> jsval" where
  "enc_target t = JObj [(''graphId'', JStr (dt_graphId t)), (''planRevision'', JStr (dt_planRevision t)),
     (''nodeId'', JStr (dt_nodeId t)), (''attemptId'', JStr (dt_attemptId t)), (''agent'', JStr (dt_agent t)),
     (''prompt'', JStr (dt_prompt t)), (''inputs'', JArr (map enc_resolved_input (dt_inputs t)))]"

record read_target =
  rg_nodeId :: string
  rg_attemptId :: string
  rg_agent :: string
  rg_prompt :: string
  rg_inputs :: "resolved_input list option"

text \<open>A persisted payload is read against the graph and the plan revision of the runtime; the left side is a malformed row.\<close>

definition readDispatchRequest :: "string \<Rightarrow> string \<Rightarrow> jsval \<Rightarrow> unit + read_target" where
  "readDispatchRequest graphId planRevision payload =
     (if \<not> isRecord payload then Inl ()
      else if nonempty_string (js_get payload ''graphId'') \<noteq> Some graphId then Inl ()
      else if nonempty_string (js_get payload ''planRevision'') \<noteq> Some planRevision then Inl ()
      else if js_get payload ''credential'' \<noteq> JUndef then Inl ()
      else case (nonempty_string (js_get payload ''nodeId''), nonempty_string (js_get payload ''attemptId''),
                 nonempty_string (js_get payload ''agent''), nonempty_string (js_get payload ''prompt'')) of
        (Some nodeId, Some attemptId, Some agent, Some prompt) \<Rightarrow>
          if js_get payload ''inputs'' = JUndef
          then Inr \<lparr>rg_nodeId = nodeId, rg_attemptId = attemptId, rg_agent = agent, rg_prompt = prompt, rg_inputs = None\<rparr>
          else (case readResolvedInputs (js_get payload ''inputs'') of
                  Inl _ \<Rightarrow> Inl ()
                | Inr entries \<Rightarrow>
                    Inr \<lparr>rg_nodeId = nodeId, rg_attemptId = attemptId, rg_agent = agent, rg_prompt = prompt, rg_inputs = Some entries\<rparr>)
      | _ \<Rightarrow> Inl ())"

subsection \<open>Reports of the state\<close>

definition stateNodeOf :: "graph_state \<Rightarrow> string \<Rightarrow> node_state option" where
  "stateNodeOf state nodeId = find (\<lambda>e. ns_nodeId e = nodeId) (gs_nodes state)"

definition dispatchedNodeOf :: "graph_state \<Rightarrow> string \<Rightarrow> node_state option" where
  "dispatchedNodeOf state nodeId =
     (case stateNodeOf state nodeId of Some e \<Rightarrow> if ns_status e = Dispatched then Some e else None | None \<Rightarrow> None)"

definition armedReading :: "graph_state \<Rightarrow> (string \<times> string) list" where
  "armedReading state = map (\<lambda>e. (ns_nodeId e, ns_attemptId e)) (filter (\<lambda>e. ns_status e = Dispatched) (gs_nodes state))"

text \<open>Time stamps are not negative in the printed form.\<close>

definition show_stamp :: "int \<Rightarrow> string" where
  "show_stamp i = (if i < 0 then ''-'' else []) @ show_nat (nat \<bar>i\<bar>)"

definition runIdentityOf :: "string \<Rightarrow> int \<Rightarrow> string" where
  "runIdentityOf graphId startedAt = graphId @ ''@'' @ show_stamp startedAt"

definition reexecutionRunIdentityOf :: "string \<Rightarrow> int \<Rightarrow> nat \<Rightarrow> string" where
  "reexecutionRunIdentityOf graphId startedAt runSeq = graphId @ ''@'' @ show_stamp startedAt @ ''+'' @ show_nat runSeq"

definition phase_of_text :: "jsval \<Rightarrow> graph_phase option" where
  "phase_of_text v = map_of [(JStr ''ready'', Ready), (JStr ''executing'', Executing), (JStr ''complete'', Complete), (JStr ''stopped'', Stopped)] v"

definition rawRunPositionOf :: "jsval \<Rightarrow> (graph_phase \<times> nat) option" where
  "rawRunPositionOf body =
     (if \<not> isRecord body then None
      else case (phase_of_text (js_get body ''phase''), nonneg_safe (js_get body ''attemptSeq'')) of
             (Some phase, Some attemptSeq) \<Rightarrow> Some (phase, attemptSeq)
           | _ \<Rightarrow> None)"

subsection \<open>Properties\<close>

text \<open>A key says which channel committed: the three namespaces are disjoint, and within one the digest is the key.\<close>

lemma channel_names:
  "isNaturalCompletionSubmissionId (JStr (naturalCompletionSubmissionId d)) \<longleftrightarrow> d \<noteq> []"
  "isHostDerivedSubmissionId (JStr (hostDerivedSubmissionId d)) \<longleftrightarrow> d \<noteq> []"
  "naturalCompletionSubmissionId d \<noteq> hostDerivedSubmissionId e" "''submission:'' @ d \<noteq> naturalCompletionSubmissionId e"
  "''submission:'' @ d \<noteq> hostDerivedSubmissionId e"
  "naturalCompletionSubmissionId d = naturalCompletionSubmissionId d' \<longleftrightarrow> d = d'"
  "hostDerivedSubmissionId d = hostDerivedSubmissionId d' \<longleftrightarrow> d = d'"
  by (simp_all add: naturalCompletionSubmissionId_def hostDerivedSubmissionId_def NATURAL_COMPLETION_SUBMISSION_PREFIX_def
      HOST_DERIVED_SUBMISSION_PREFIX_def)

lemma submission_key_channel:
  assumes "readOutcomeProposal p = Inr x" and "proposalDigest sha num x = Inr d"
    and "readOutcomeProposal q = Inr y" and "proposalDigest sha num y = Inr e"
    and "submissionIdOf sha num p s = submissionIdOf sha num q t"
  shows "s = t \<and> d = e"
  using assms by (cases s; cases t) (auto simp: submissionIdOf_def naturalCompletionSubmissionId_def hostDerivedSubmissionId_def
      NATURAL_COMPLETION_SUBMISSION_PREFIX_def HOST_DERIVED_SUBMISSION_PREFIX_def)

text \<open>The proposals of the two completion channels are proposals, and carry no credential of their own.\<close>

lemma natural_proposal:
  assumes "n \<noteq> []" "oc \<noteq> []" "c \<noteq> Some []"
  shows "readOutcomeProposal (naturalCompletionProposalOf n oc c) =
    Inr \<lparr>pr_nodeId = n, pr_outcomeId = oc, pr_credential = c, pr_data = JUndef, pr_evidenceRefs = None\<rparr>"
  using assms by (cases c) (auto simp: readOutcomeProposal_def naturalCompletionProposalOf_def proposal_issues_def
      unknown_key_paths_def PROPOSAL_KEYS_def evidence_paths_def text_of_def)

text \<open>A dispatch payload is read back as it was written.\<close>

lemma dispatch_payload_roundtrip:
  assumes "dt_graphId t \<noteq> []" "dt_planRevision t \<noteq> []" "dt_nodeId t \<noteq> []" "dt_attemptId t \<noteq> []" "dt_agent t \<noteq> []" "dt_prompt t \<noteq> []"
    and "list_all ok_resolved_input (dt_inputs t)"
  shows "readDispatchRequest (dt_graphId t) (dt_planRevision t) (enc_target t) =
    Inr \<lparr>rg_nodeId = dt_nodeId t, rg_attemptId = dt_attemptId t, rg_agent = dt_agent t, rg_prompt = dt_prompt t, rg_inputs = Some (dt_inputs t)\<rparr>"
  using assms bound_input.list_dec_enc [of "dt_inputs t"]
  by (simp add: readDispatchRequest_def enc_target_def readResolvedInputs_def)

end
