(* ===== verification/Settlement.thy ===== *)
theory Settlement
  imports Completions StateCodec
begin

text \<open>
  The run path of the runtime on the ledger (\<open>graph/outcome/runtime.ts\<close>, \<open>settlement-identity.ts\<close>, the identity rule
  of \<open>host-identity.ts\<close> and \<open>launch\<close> of \<open>runtime-recovery.ts\<close>): starting a graph, settling a submission through the
  one path its three channels share, and the reduction that joins the acceptance transaction.

  The reads of a settlement and its transaction run at two times, so a settlement takes two ledgers: \<open>before\<close>, the one
  its reads see, and \<open>during\<close>, the one its transaction runs on. The answers of the host's capability checks, the
  host-completion authority, the credential source and the host's create call are parameters.
\<close>

subsection \<open>The identity of a settlement\<close>

datatype identity_reading = IdentityUndeclared | IdentityNone | IdentityKnown host_identity | IdentityUnreadable

text \<open>
  The capability the host declares: absent, declared in a form this build cannot read, or readable, and then what it
  answers for the current invocation, where the left side is a call that throws.
\<close>

definition readCurrentHostIdentity :: "(unit + jsval) option option \<Rightarrow> identity_reading" where
  "readCurrentHostIdentity capability =
     (case capability of
        None \<Rightarrow> IdentityUndeclared
      | Some None \<Rightarrow> IdentityUnreadable
      | Some (Some (Inl _)) \<Rightarrow> IdentityUnreadable
      | Some (Some (Inr answered)) \<Rightarrow>
          if answered = JUndef then IdentityNone
          else (case readHostInvocationIdentity answered of None \<Rightarrow> IdentityUnreadable | Some i \<Rightarrow> IdentityKnown i))"

definition hostIdentityCheckRefusal :: "host_identity option \<Rightarrow> identity_reading \<Rightarrow> runtime_refusal option" where
  "hostIdentityCheckRefusal recorded reading =
     (case recorded of
        None \<Rightarrow> None
      | Some r \<Rightarrow>
          (case reading of
             IdentityUnreadable \<Rightarrow> Some HostIdentityUnavailable
           | IdentityUndeclared \<Rightarrow> Some HostIdentityUnavailable
           | IdentityNone \<Rightarrow> Some HostIdentityAbsent
           | IdentityKnown i \<Rightarrow> if equalHostInvocationIdentity (Some r) (Some i) then None else Some HostIdentityMismatch))"

record runtime =
  rn_plan :: compiled_plan
  rn_validators :: validator_registry
  rn_artifactRoot :: string
  rn_sha :: hash_hex
  rn_num :: "rat \<Rightarrow> string"
  rn_numText :: "jsnum \<Rightarrow> string"
  rn_mint :: credential_source
  rn_unavailable :: "runtime_refusal option"
  rn_undispatchable :: "runtime_refusal option"
  rn_authority :: "(string \<Rightarrow> string \<Rightarrow> unit + string option) option"
  rn_create :: "dispatch_intent \<Rightarrow> bool"

abbreviation graph_of :: "runtime \<Rightarrow> string" where
  "graph_of rt \<equiv> cp_graphId (rn_plan rt)"

record settlement_call =
  sl_proposal :: jsval
  sl_source :: settlement_source
  sl_expected :: "string option"
  sl_hostCompletion :: bool
  sl_now :: int
  sl_identity :: identity_reading

definition checked_identity :: "runtime \<Rightarrow> settlement_call \<Rightarrow> host_identity option \<Rightarrow> string \<Rightarrow> runtime_refusal + execution_identity" where
  "checked_identity rt c recorded attemptId =
     (case hostIdentityCheckRefusal recorded (sl_identity c) of
        Some r \<Rightarrow> Inl r
      | None \<Rightarrow> Inr \<lparr>xi_graphId = graph_of rt, xi_attemptId = attemptId,
                 xi_submissionId = submissionIdOf (rn_sha rt) (rn_num rt) (sl_proposal c) (sl_source c)\<rparr>)"

text \<open>The host's channel settles the attempt the state records, never one a credential names.\<close>

definition host_attempt :: "runtime \<Rightarrow> settlement_call \<Rightarrow> graph_state \<Rightarrow> outcome_proposal \<Rightarrow> runtime_refusal + execution_identity" where
  "host_attempt rt c state p =
     (if pr_credential p \<noteq> None then Inl (MalformedNaturalDelivery ''$.credential'')
      else case sl_expected c of
        None \<Rightarrow> Inl AttemptNameMismatch
      | Some expected \<Rightarrow>
          (case stateNodeOf state (pr_nodeId p) of
             None \<Rightarrow> Inl AttemptNameMismatch
           | Some e \<Rightarrow>
               if (if ns_status e = Pending then None else Some (ns_attemptId e)) \<noteq> Some expected then Inl AttemptNameMismatch
               else if ns_status e = Pending then Inl NeverDispatched
               else checked_identity rt c (ns_dispatchIdentity e) expected))"

definition credential_holder :: "runtime \<Rightarrow> graph_state \<Rightarrow> string \<Rightarrow> node_state option" where
  "credential_holder rt state credential =
     find (\<lambda>e. ns_status e \<noteq> Pending \<and> ns_attemptCredentialDigest e = attemptCredentialDigest (rn_sha rt) credential) (gs_nodes state)"

definition bearer_attempt :: "runtime \<Rightarrow> settlement_call \<Rightarrow> graph_state \<Rightarrow> outcome_proposal \<Rightarrow> runtime_refusal + execution_identity" where
  "bearer_attempt rt c state p =
     (case pr_credential p of
        None \<Rightarrow> Inl CredentialMissing
      | Some credential \<Rightarrow>
          (case credential_holder rt state credential of
             None \<Rightarrow> Inl CredentialUnknown
           | Some e \<Rightarrow>
               if ns_nodeId e \<noteq> pr_nodeId p then Inl CredentialNodeMismatch
               else if sl_expected c \<noteq> None \<and> sl_expected c \<noteq> Some (ns_attemptId e) then Inl AttemptNameMismatch
               else checked_identity rt c (ns_dispatchIdentity e) (ns_attemptId e)))"

definition resolveSettlementIdentity :: "runtime \<Rightarrow> settlement_call \<Rightarrow> graph_state \<Rightarrow> runtime_refusal + execution_identity" where
  "resolveSettlementIdentity rt c state =
     (case readOutcomeProposal (sl_proposal c) of
        Inl _ \<Rightarrow> Inr \<lparr>xi_graphId = graph_of rt, xi_attemptId = ''unclaimed-attempt'', xi_submissionId = ''unclaimed-submission''\<rparr>
      | Inr p \<Rightarrow>
          if find (\<lambda>n. cn_id n = pr_nodeId p) (cp_nodes (rn_plan rt)) = None then Inl NodeNotDeclared
          else if sl_hostCompletion c then host_attempt rt c state p
          else bearer_attempt rt c state p)"

subsection \<open>Refusals of the run path\<close>

definition readRuntimeClock :: "int \<Rightarrow> runtime_refusal option" where
  "readRuntimeClock now = (if \<bar>now\<bar> \<le> max_safe then None else Some InvalidTimestamp)"

text \<open>The preflight: the clock, the capabilities, the identity of the invocation and the dispatch preconditions, in this order.\<close>

definition runPreflight :: "runtime \<Rightarrow> int \<Rightarrow> identity_reading \<Rightarrow> runtime_refusal + host_identity option" where
  "runPreflight rt now identity =
     (case readRuntimeClock now of
        Some r \<Rightarrow> Inl r
      | None \<Rightarrow>
          (case rn_unavailable rt of
             Some r \<Rightarrow> Inl r
           | None \<Rightarrow>
               if identity = IdentityUnreadable then Inl HostIdentityUnavailable
               else (case rn_undispatchable rt of
                       Some r \<Rightarrow> Inl r
                     | None \<Rightarrow> Inr (case identity of IdentityKnown i \<Rightarrow> Some i | _ \<Rightarrow> None))))"

fun stateRefusal :: "state_error \<Rightarrow> runtime_refusal" where
  "stateRefusal (OutcomeStateError StatePlanMismatch _) = PlanRevisionMismatch"
| "stateRefusal (OutcomeStateError UnsupportedStateVersion _) = UnsupportedStateBody"
| "stateRefusal (OutcomeStateError _ _) = UnreadableState"

definition stoppingDecisionOf :: "ledger \<Rightarrow> string \<Rightarrow> string \<Rightarrow> control_decision option" where
  "stoppingDecisionOf db graphId attemptId =
     find (\<lambda>d. kd_attemptId d = attemptId \<and> kd_command d \<in> set STOPPING_CONTROL_COMMANDS) (controlDecisions db graphId None)"

definition refusalForStoppingDecision :: "control_decision \<Rightarrow> run_control option \<Rightarrow> runtime_refusal" where
  "refusalForStoppingDecision d stopped = (case stopped of Some c \<Rightarrow> ControlStopped c | None \<Rightarrow> AttemptIsStopped d)"

definition read_plan_state :: "runtime \<Rightarrow> graph_state_record \<Rightarrow> state_error + graph_state" where
  "read_plan_state rt rec = readOutcomeGraphState rec (rn_plan rt) DEFAULT_OUTCOME_STATE_BODY_REGISTRY"

text \<open>The persisted state, absent when the graph never started.\<close>

definition runtime_state :: "runtime \<Rightarrow> ledger \<Rightarrow> state_error + graph_state option" where
  "runtime_state rt db =
     (case readGraphState db (graph_of rt) of
        None \<Rightarrow> Inr None
      | Some (_, rec) \<Rightarrow> rbind (read_plan_state rt rec) (\<lambda>st. Inr (Some st)))"

subsection \<open>Progress projections\<close>

fun project_groups :: "runtime \<Rightarrow> validation_binding \<Rightarrow> jsval \<Rightarrow> compiled_loop_group list \<Rightarrow> runtime_refusal + progress_projection list" where
  "project_groups rt binding data [] = Inr []"
| "project_groups rt binding data (g # gs) =
     (case clg_progress g of
        None \<Rightarrow> project_groups rt binding data gs
      | Some policy \<Rightarrow>
          (case projectProgress (rn_numText rt) binding (clg_id g) policy data of
             ProjectionRefused rs \<Rightarrow> Inl (ProgressRefuses (hd rs))
           | Projected pj \<Rightarrow> rbind (project_groups rt binding data gs) (\<lambda>pjs. Inr (pj # pjs))))"

definition progressProjections :: "runtime \<Rightarrow> jsval \<Rightarrow> execution_identity \<Rightarrow> runtime_refusal + progress_projection list" where
  "progressProjections rt proposal identity =
     (case readOutcomeProposal proposal of
        Inl _ \<Rightarrow> Inr []
      | Inr p \<Rightarrow>
          let groups = filter (\<lambda>g. clg_progress g \<noteq> None \<and> clg_continuationOutcome g = pr_outcomeId p \<and> pr_nodeId p \<in> set (clg_nodes g))
                (cp_loopGroups (rn_plan rt))
          in if groups = [] then Inr []
             else (case proposalDigest (rn_sha rt) (rn_num rt) p of
                     Inl _ \<Rightarrow> Inr []
                   | Inr digest \<Rightarrow>
                       project_groups rt (bindingOf identity (cp_planRevision (rn_plan rt)) digest) (pr_data p) groups))"

subsection \<open>The reduction inside the acceptance transaction\<close>

datatype join_failure =
    JoinControlled run_control
  | JoinAdvance advance_error
  | JoinState state_error
  | JoinBudget budget_gate_refusal
  | JoinInputs "input_refusal list"

type_synonym run_failure = "join_failure commit_failure"

definition ledger_reads_of :: "ledger \<Rightarrow> ledger_reads" where
  "ledger_reads_of db =
     \<lparr>lr_acceptedEvents = \<lambda>g. map (\<lambda>e. (ev_attemptId e, ev_outcomeId e)) (acceptedEvents db g),
      lr_readAcceptedResult = Some (\<lambda>g a. Inr (map_option
        (\<lambda>r. \<lparr>are_payload = res_payload r, are_artifacts = res_artifacts r\<rparr>) (readAcceptedResult db g a)))\<rparr>"

text \<open>The budget surface of the store, over its own reservation rows.\<close>

definition reservations_of :: "ledger \<Rightarrow> budget_db option" where
  "reservations_of db = Some (budget_view db)"

definition with_reservations :: "budget_db option \<Rightarrow> ledger \<Rightarrow> ledger" where
  "with_reservations surface db = (case surface of None \<Rightarrow> db | Some b \<Rightarrow> db\<lparr>lg_reservations := bd_rows b\<rparr>)"

definition in_start :: "start_error + 'a \<Rightarrow> run_failure + 'a" where
  "in_start r =
     (case r of
        Inr x \<Rightarrow> Inr x
      | Inl (StartBudgetRefused b) \<Rightarrow> Inl (JoinFailure (JoinBudget b))
      | Inl (StartInputBlocked rs) \<Rightarrow> Inl (JoinFailure (JoinInputs rs))
      | Inl (StartMint e) \<Rightarrow> Inl (JoinFailure (JoinAdvance (AdvanceMint e)))
      | Inl (StartStoreError e) \<Rightarrow> Inl (LedgerFailure (LedgerBudget e))
      | Inl NoEntryNode \<Rightarrow> Inl (LedgerFailure UnwrappedError))"

fun claimSuccessorDispatches :: "compiled_plan \<Rightarrow> string \<Rightarrow> dispatch_intent list \<Rightarrow> int \<Rightarrow> ledger \<Rightarrow> run_failure + ledger" where
  "claimSuccessorDispatches plan runId [] stamp db = Inr db"
| "claimSuccessorDispatches plan runId (d # ds) stamp db =
     rbind (in_start (reserveDispatchIn plan runId (di_nodeId d) (di_attemptId d) stamp (reservations_of db))) (\<lambda>surface.
       claimSuccessorDispatches plan runId ds stamp (with_reservations surface db))"

text \<open>What an acceptance does to the run: the settled claim is released, the successors' dispatches are claimed, the
  advanced state is written and the settled attempt's own dispatch is done.\<close>

definition move_budget :: "compiled_plan \<Rightarrow> string option \<Rightarrow> accepted_decision \<Rightarrow> dispatch_intent list \<Rightarrow> int \<Rightarrow> ledger \<Rightarrow> run_failure + ledger" where
  "move_budget plan runId decision intents now db =
     (case runId of
        None \<Rightarrow> Inr db
      | Some r \<Rightarrow>
          rbind (case releaseDispatchClaim plan r (dc_nodeId decision) (dc_attemptId decision) now (reservations_of db) of
                   Inl e \<Rightarrow> Inl (LedgerFailure (LedgerBudget e)) | Inr surface \<Rightarrow> Inr (with_reservations surface db))
            (claimSuccessorDispatches plan r intents now))"

definition settle_run :: "runtime \<Rightarrow> string option \<Rightarrow> accepted_decision \<Rightarrow> advance \<Rightarrow> int \<Rightarrow> ledger \<Rightarrow> run_failure + ledger" where
  "settle_run rt runId decision adv now db =
     rbind (move_budget (rn_plan rt) runId decision (av_dispatches adv) now db) (\<lambda>db.
     rbind (in_ledger (writeGraphState (rn_num rt) None (stateRecordOf (av_state adv) now) db)) (\<lambda>db.
     rbind (in_ledger (markEffectDone (graph_of rt) (dispatchEffectIdOf (dc_attemptId decision)) db)) (\<lambda>(_, db). Inr db)))"

definition dispatchPayloadOf :: "runtime \<Rightarrow> dispatch_intent \<Rightarrow> jsval" where
  "dispatchPayloadOf rt d =
     enc_target \<lparr>dt_graphId = graph_of rt, dt_planRevision = cp_planRevision (rn_plan rt), dt_nodeId = di_nodeId d,
       dt_attemptId = di_attemptId d, dt_agent = di_agent d, dt_prompt = di_prompt d, dt_inputs = di_inputs d\<rparr>"

text \<open>The effect is the armed attempt's own.\<close>

definition dispatch_effect :: "runtime \<Rightarrow> dispatch_intent \<Rightarrow> effect_input" where
  "dispatch_effect rt d =
     \<lparr>ei_effectId = dispatchEffectIdOf (di_attemptId d), ei_attemptId = Some (di_attemptId d), ei_kind = ''dispatch'',
      ei_payload = dispatchPayloadOf rt d\<rparr>"

record reduction_context =
  rc_now :: int
  rc_progress :: "progress_projection list"
  rc_identity :: "host_identity option"
  rc_justAccepted :: "just_accepted_result option"

definition advance_input_of :: "runtime \<Rightarrow> reduction_context \<Rightarrow> graph_state \<Rightarrow> accepted_decision \<Rightarrow> ledger \<Rightarrow> advance_input" where
  "advance_input_of rt c state decision db =
     \<lparr>in_plan = rn_plan rt, in_state = state, in_decision = decision, in_now = rc_now c, in_mintCredential = rn_mint rt,
      in_readAcceptedResult = Some (acceptedResultReaderOf (graph_of rt) (ledger_reads_of db) (rc_justAccepted c)),
      in_progress = Some (rc_progress c), in_dispatchIdentity = rc_identity c\<rparr>"

text \<open>The entry at the position the plan gives the node.\<close>

definition node_entry :: "compiled_plan \<Rightarrow> graph_state \<Rightarrow> string \<Rightarrow> node_state option" where
  "node_entry plan state nodeId =
     (let k = length (takeWhile (\<lambda>n. cn_id n \<noteq> nodeId) (cp_nodes plan)) in
      if k < length (cp_nodes plan) \<and> k < length (gs_nodes state) then Some (gs_nodes state ! k) else None)"

definition nothing_joined :: "join_failure join_result" where
  "nothing_joined = \<lparr>jr_effects = [], jr_settle = Inr\<rparr>"

definition reduceInTransaction ::
  "runtime \<Rightarrow> reduction_context \<Rightarrow> ledger \<Rightarrow> accepted_decision \<Rightarrow> run_failure + (join_failure join_result \<times> advance option)" where
  "reduceInTransaction rt c db decision =
     (case readGraphState db (graph_of rt) of
        None \<Rightarrow> Inl (JoinFailure (JoinAdvance (AdvanceRefused StateLedgerDisagreement ''no snapshot'')))
      | Some (run, rec) \<Rightarrow>
          (case read_plan_state rt rec of
             Inl e \<Rightarrow> Inl (JoinFailure (JoinState e))
           | Inr current \<Rightarrow>
               (case node_entry (rn_plan rt) current (dc_nodeId decision) of
                  None \<Rightarrow> Inl (JoinFailure (JoinAdvance (AdvanceRefused UnknownNode ''unknown node'')))
                | Some entry \<Rightarrow>
                    if ns_status entry = Settled
                    then (if list_ex (\<lambda>e. ev_attemptId e = dc_attemptId decision) (acceptedEvents db (graph_of rt))
                          then Inr (nothing_joined, None)
                          else Inl (JoinFailure (JoinAdvance (AdvanceRefused StateLedgerDisagreement ''no accepted event''))))
                    else
                      (case advanceOutcomeGraph (rn_sha rt) (advance_input_of rt c current decision db) of
                         Inl e \<Rightarrow> Inl (JoinFailure (JoinAdvance e))
                       | Inr adv \<Rightarrow>
                           Inr (\<lparr>jr_effects = map (dispatch_effect rt) (av_dispatches adv),
                                 jr_settle = settle_run rt (if run = UNMINTED_RUN_ID then None else Some run) decision adv (rc_now c)\<rparr>,
                                Some adv)))))"

text \<open>The run's control fact is read again inside the transaction.\<close>

definition settlement_join :: "runtime \<Rightarrow> reduction_context \<Rightarrow> join_failure acceptance_join" where
  "settlement_join rt c db decision =
     (case readRunControl db (graph_of rt) of
        Some control \<Rightarrow> Inl (JoinFailure (JoinControlled control))
      | None \<Rightarrow> rbind (reduceInTransaction rt c db decision) (\<lambda>(result, _). Inr result))"

definition planned_advance :: "runtime \<Rightarrow> reduction_context \<Rightarrow> ledger \<Rightarrow> accepted_decision \<Rightarrow> advance option" where
  "planned_advance rt c db decision =
     (case reduceInTransaction rt c db decision of Inr (_, adv) \<Rightarrow> adv | Inl _ \<Rightarrow> None)"

subsection \<open>Launching\<close>

text \<open>
  The dispatches of a commit are handed to the host one after the other, each marked started once its create call has
  returned; a create that throws or a row that cannot be marked ends the launch with an error, after the commit.
\<close>

fun launch :: "runtime \<Rightarrow> dispatch_intent list \<Rightarrow> ledger \<Rightarrow> bool \<times> ledger" where
  "launch rt [] db = (True, db)"
| "launch rt (d # ds) db =
     (if \<not> rn_create rt d then (False, db)
      else case markEffectStarted (graph_of rt) (dispatchEffectIdOf (di_attemptId d)) db of
             Inl _ \<Rightarrow> (False, db)
           | Inr (EffectTransitioned _, db') \<Rightarrow> launch rt ds db'
           | Inr (EffectUnchanged _, db') \<Rightarrow> launch rt ds db'
           | Inr (_, db') \<Rightarrow> (False, db'))"

subsection \<open>The settlement path\<close>

record accepted_answer =
  an_decision :: submission_decision
  an_receipt :: receipt
  an_state :: graph_state
  an_dispatched :: "dispatch_intent list"
  an_replayed :: bool
  an_progress :: "progress_report list"

datatype submission_answer =
    Refused "runtime_refusal list"
  | NotCommitted submission_decision commit_verdict
  | Rejected submission_decision receipt
  | Accepted accepted_answer

text \<open>An error that is not answered as a refusal: the transaction is rolled back, a failed launch is not.\<close>

datatype escaped = EscapedLedger ledger_error | EscapedMint mint_error | EscapedInputs "input_refusal list" | EscapedLaunch

type_synonym settlement_result = "(escaped + submission_answer) \<times> ledger"

definition submission_request :: "runtime \<Rightarrow> settlement_call \<Rightarrow> execution_identity \<Rightarrow> acceptance_request" where
  "submission_request rt c identity =
     \<lparr>aq_plan = rn_plan rt, aq_submittedPlanRevision = cp_planRevision (rn_plan rt), aq_identity = identity,
      aq_proposal = sl_proposal c, aq_validators = rn_validators rt, aq_artifactRoot = rn_artifactRoot rt,
      aq_effects = Some [], aq_now = sl_now c\<rparr>"

definition replayedDecision :: "submission_decision \<Rightarrow> decision_kind \<Rightarrow> submission_decision" where
  "replayedDecision evaluated recorded = evaluated\<lparr>sn_kind := recorded\<rparr>"

definition just_accepted_of :: "submission_validation \<Rightarrow> just_accepted_result option" where
  "just_accepted_of validation =
     (case validation of
        Validated d _ (Some rt) \<Rightarrow>
          if sn_kind d = AcceptedKind
          then Some \<lparr>jar_attemptId = dc_attemptId (sn_fields d),
            jar_facts = \<lparr>arf_outcomeId = dc_outcomeId (sn_fields d), arf_payload = rt_payload rt, arf_artifacts = rt_artifacts rt\<rparr>\<rparr>
          else None
      | _ \<Rightarrow> None)"

definition validated_accepted :: "submission_validation \<Rightarrow> bool" where
  "validated_accepted validation = (case validation of Validated d _ _ \<Rightarrow> sn_kind d = AcceptedKind | ValidationRefused _ \<Rightarrow> False)"

definition accepted_answer_of ::
  "runtime \<Rightarrow> submission_decision \<Rightarrow> receipt \<Rightarrow> graph_state \<Rightarrow> advance option \<Rightarrow> bool \<Rightarrow> ledger \<Rightarrow> settlement_result" where
  "accepted_answer_of rt decision r state planned committed db =
     (let fallback = (case planned of Some adv \<Rightarrow> if committed then av_state adv else state | None \<Rightarrow> state);
          dispatched = (case planned of Some adv \<Rightarrow> if committed then av_dispatches adv else [] | None \<Rightarrow> []);
          progress = (case planned of Some adv \<Rightarrow> if committed then av_progress adv else [] | None \<Rightarrow> []);
          persisted = (case runtime_state rt db of Inr (Some st) \<Rightarrow> st | _ \<Rightarrow> fallback)
      in case launch rt dispatched db of
           (False, db') \<Rightarrow> (Inl EscapedLaunch, db')
         | (True, db') \<Rightarrow>
             (Inr (Accepted \<lparr>an_decision = decision, an_receipt = r, an_state = persisted, an_dispatched = dispatched,
                an_replayed = \<not> committed, an_progress = progress\<rparr>), db'))"

definition settled_answer ::
  "runtime \<Rightarrow> submission_decision \<Rightarrow> commit_verdict \<Rightarrow> graph_state \<Rightarrow> advance option \<Rightarrow> ledger \<Rightarrow> settlement_result" where
  "settled_answer rt evaluated verdict state planned db =
     (case verdict of
        Controlled c \<Rightarrow> (Inr (Refused [ControlStopped c]), db)
      | AttemptStopped d \<Rightarrow> (Inr (Refused [refusalForStoppingDecision d (readRunControl db (graph_of rt))]), db)
      | ApprovalBlocked q \<Rightarrow> (Inr (Refused [ApprovalBlocks q]), db)
      | Superseded d \<Rightarrow> (Inr (Refused [AlreadySuperseded d]), db)
      | RunSuperseded r \<Rightarrow> (Inr (Refused [RunIsSuperseded r]), db)
      | Conflict _ \<Rightarrow> (Inr (NotCommitted evaluated verdict), db)
      | AlreadySettled _ \<Rightarrow> (Inr (NotCommitted evaluated verdict), db)
      | Replayed r \<Rightarrow>
          (let decision = replayedDecision evaluated (rcp_decision r) in
           if sn_kind decision = RejectedKind then (Inr (Rejected decision r), db)
           else accepted_answer_of rt decision r state planned False db)
      | Committed r \<Rightarrow>
          if sn_kind evaluated = RejectedKind then (Inr (Rejected evaluated r), db)
          else accepted_answer_of rt evaluated r state planned True db)"

definition failed_answer :: "run_failure \<Rightarrow> ledger \<Rightarrow> settlement_result" where
  "failed_answer failure db =
     (case failure of
        JoinFailure (JoinControlled c) \<Rightarrow> (Inr (Refused [ControlStopped c]), db)
      | JoinFailure (JoinAdvance (AdvanceRefused code _)) \<Rightarrow> (Inr (Refused [AdvanceRefuses code]), db)
      | JoinFailure (JoinAdvance (AdvanceMint e)) \<Rightarrow> (Inl (EscapedMint e), db)
      | JoinFailure (JoinState e) \<Rightarrow> (Inr (Refused [stateRefusal e]), db)
      | JoinFailure (JoinBudget b) \<Rightarrow> (Inr (Refused [BudgetRefuses b]), db)
      | JoinFailure (JoinInputs rs) \<Rightarrow> (Inl (EscapedInputs rs), db)
      | LedgerFailure e \<Rightarrow> (Inl (EscapedLedger e), db))"

text \<open>The validation and the projection run outside the transaction; the commit runs on the ledger it finds.\<close>

definition settle_validated :: "runtime \<Rightarrow> settlement_call \<Rightarrow> host_identity option \<Rightarrow> graph_state \<Rightarrow> execution_identity \<Rightarrow> ledger \<Rightarrow> settlement_result" where
  "settle_validated rt c dispatchIdentity state identity during =
     (let q = submission_request rt c identity;
          validation = validateSubmission (rn_sha rt) (rn_num rt) q
      in case (if validated_accepted validation then progressProjections rt (sl_proposal c) identity else Inr []) of
           Inl r \<Rightarrow> (Inr (Refused [r]), during)
         | Inr projections \<Rightarrow>
             (let ctx = \<lparr>rc_now = sl_now c, rc_progress = projections, rc_identity = dispatchIdentity,
                    rc_justAccepted = just_accepted_of validation\<rparr>
              in case commitSubmission (rn_sha rt) (rn_num rt) q validation (Some (settlement_join rt ctx)) during of
                   Inl failure \<Rightarrow> failed_answer failure during
                 | Inr (SubmissionRefused rs, db) \<Rightarrow> (Inr (Refused (map SubmissionRefuses rs)), db)
                 | Inr (Submitted evaluated verdict, db) \<Rightarrow>
                     settled_answer rt evaluated verdict state
                       (if sn_kind evaluated = AcceptedKind then planned_advance rt ctx during (sn_fields evaluated) else None) db))"

text \<open>The facts that refuse a settlement before its gates run.\<close>

definition attempt_refusal :: "runtime \<Rightarrow> execution_identity \<Rightarrow> ledger \<Rightarrow> runtime_refusal option" where
  "attempt_refusal rt identity db =
     (case stoppingDecisionOf db (graph_of rt) (xi_attemptId identity) of
        Some d \<Rightarrow> Some (refusalForStoppingDecision d (readRunControl db (graph_of rt)))
      | None \<Rightarrow> map_option ApprovalBlocks (blockingApproval db (graph_of rt) (xi_attemptId identity)))"

definition settleSubmission :: "runtime \<Rightarrow> settlement_call \<Rightarrow> ledger \<Rightarrow> ledger \<Rightarrow> settlement_result" where
  "settleSubmission rt c before during =
     (case runPreflight rt (sl_now c) (sl_identity c) of
        Inl r \<Rightarrow> (Inr (Refused [r]), during)
      | Inr dispatchIdentity \<Rightarrow>
          (case readRunControl before (graph_of rt) of
             Some control \<Rightarrow> (Inr (Refused [ControlStopped control]), during)
           | None \<Rightarrow>
               (case runtime_state rt before of
                  Inl e \<Rightarrow> (Inr (Refused [stateRefusal e]), during)
                | Inr None \<Rightarrow> (Inr (Refused [GraphNotStarted]), during)
                | Inr (Some state) \<Rightarrow>
                    (case resolveSettlementIdentity rt c state of
                       Inl r \<Rightarrow> (Inr (Refused [r]), during)
                     | Inr identity \<Rightarrow>
                         (case attempt_refusal rt identity before of
                            Some r \<Rightarrow> (Inr (Refused [r]), during)
                          | None \<Rightarrow> settle_validated rt c dispatchIdentity state identity during)))))"

subsection \<open>The channels\<close>

definition submit :: "runtime \<Rightarrow> jsval \<Rightarrow> int \<Rightarrow> identity_reading \<Rightarrow> ledger \<Rightarrow> ledger \<Rightarrow> settlement_result" where
  "submit rt proposal now identity before during =
     settleSubmission rt \<lparr>sl_proposal = proposal, sl_source = FromSubmission, sl_expected = None, sl_hostCompletion = False,
       sl_now = now, sl_identity = identity\<rparr> before during"

definition natural_call :: "runtime \<Rightarrow> string \<Rightarrow> string \<Rightarrow> string option \<Rightarrow> string \<Rightarrow> bool \<Rightarrow> int \<Rightarrow> identity_reading \<Rightarrow> settlement_call" where
  "natural_call rt nodeId attemptId credential outcomeId host now identity =
     \<lparr>sl_proposal = naturalCompletionProposalOf nodeId outcomeId credential, sl_source = FromNaturalCompletion,
      sl_expected = Some attemptId, sl_hostCompletion = host, sl_now = now, sl_identity = identity\<rparr>"

definition answer_digest :: "submission_answer \<Rightarrow> string option" where
  "answer_digest a =
     (case a of
        Refused _ \<Rightarrow> None
      | NotCommitted d _ \<Rightarrow> Some (dc_proposalDigest (sn_fields d))
      | Rejected d _ \<Rightarrow> Some (dc_proposalDigest (sn_fields d))
      | Accepted x \<Rightarrow> Some (dc_proposalDigest (sn_fields (an_decision x))))"

definition with_settlement ::
  "(string \<Rightarrow> 'r) \<Rightarrow> settlement_result \<Rightarrow> (escaped + (submission_answer \<times> 'r option)) \<times> ledger" where
  "with_settlement mk result =
     (case result of
        (Inl e, db) \<Rightarrow> (Inl e, db)
      | (Inr a, db) \<Rightarrow> (Inr (a, map_option mk (answer_digest a)), db))"

definition refuse_channel :: "runtime_refusal list \<Rightarrow> ledger \<Rightarrow> (escaped + (submission_answer \<times> 'r option)) \<times> ledger" where
  "refuse_channel rs db = (Inr (Refused rs, None), db)"

definition settleNatural ::
  "runtime \<Rightarrow> jsval \<Rightarrow> int \<Rightarrow> identity_reading \<Rightarrow> ledger \<Rightarrow> ledger \<Rightarrow> (escaped + (submission_answer \<times> natural_settlement option)) \<times> ledger" where
  "settleNatural rt delivery now identity before during =
     (case readNaturalCompletionDelivery delivery of
        Inl issues \<Rightarrow> refuse_channel (map MalformedNaturalDelivery issues) during
      | Inr d \<Rightarrow>
          (case readRuntimeClock now of
             Some r \<Rightarrow> refuse_channel [r] during
           | None \<Rightarrow>
               (case naturalCompletionAuthorityOf (rn_plan rt) (nd_nodeId d) of
                  Inl r \<Rightarrow> refuse_channel [r] during
                | Inr (outcome, policy) \<Rightarrow>
                    with_settlement (\<lambda>digest. naturalCompletionSettlementOf (nd_nodeId d) (nd_attemptId d) outcome digest policy)
                      (settleSubmission rt (natural_call rt (nd_nodeId d) (nd_attemptId d) (nd_credential d) outcome False now identity)
                         before during))))"

text \<open>The host's own durable record of the attempt authenticates a fact that carries no credential.\<close>

definition authenticatedHostExecution :: "runtime \<Rightarrow> string \<Rightarrow> string \<Rightarrow> runtime_refusal option" where
  "authenticatedHostExecution rt attemptId executionId =
     (case rn_authority rt of
        None \<Rightarrow> Some HostCompletionUnavailable
      | Some executionFor \<Rightarrow>
          (case executionFor (graph_of rt) attemptId of
             Inr (Some recorded) \<Rightarrow> if recorded \<noteq> executionId then Some HostCompletionUnauthenticated else None
           | _ \<Rightarrow> Some HostCompletionUnauthenticated))"

definition settleHostCompletion ::
  "runtime \<Rightarrow> jsval \<Rightarrow> int \<Rightarrow> identity_reading \<Rightarrow> ledger \<Rightarrow> ledger \<Rightarrow> (escaped + (submission_answer \<times> natural_settlement option)) \<times> ledger" where
  "settleHostCompletion rt delivery now identity before during =
     (case readHostCompletionFact delivery of
        Inl issues \<Rightarrow> refuse_channel (map MalformedHostCompletion issues) during
      | Inr f \<Rightarrow>
          (case readRuntimeClock now of
             Some r \<Rightarrow> refuse_channel [r] during
           | None \<Rightarrow>
               (case authenticatedHostExecution rt (hf_attemptId f) (hf_executionId f) of
                  Some r \<Rightarrow> refuse_channel [r] during
                | None \<Rightarrow>
                    (case naturalCompletionAuthorityOf (rn_plan rt) (hf_nodeId f) of
                       Inl r \<Rightarrow> refuse_channel [r] during
                     | Inr (outcome, policy) \<Rightarrow>
                         with_settlement (\<lambda>digest. naturalCompletionSettlementOf (hf_nodeId f) (hf_attemptId f) outcome digest policy)
                           (settleSubmission rt (natural_call rt (hf_nodeId f) (hf_attemptId f) None outcome True now identity)
                              before during)))))"

definition settleHostDerivedCompletion ::
  "runtime \<Rightarrow> jsval \<Rightarrow> int \<Rightarrow> identity_reading \<Rightarrow> ledger \<Rightarrow> ledger \<Rightarrow> (escaped + (submission_answer \<times> host_derived_settlement option)) \<times> ledger" where
  "settleHostDerivedCompletion rt delivery now identity before during =
     (case readHostDerivedCompletionFact delivery of
        Inl issues \<Rightarrow> refuse_channel (map MalformedHostDerived issues) during
      | Inr f \<Rightarrow>
          (case readRuntimeClock now of
             Some r \<Rightarrow> refuse_channel [r] during
           | None \<Rightarrow>
               (case authenticatedHostExecution rt (hd_attemptId f) (hd_executionId f) of
                  Some r \<Rightarrow> refuse_channel [r] during
                | None \<Rightarrow>
                    (case map_option cn_completion (find (\<lambda>n. cn_id n = hd_nodeId f) (cp_nodes (rn_plan rt))) of
                       Some (Some (Natural _)) \<Rightarrow> refuse_channel [DerivedNaturalNode] during
                     | _ \<Rightarrow>
                         with_settlement (hostDerivedSettlementOf f)
                           (settleSubmission rt
                              \<lparr>sl_proposal = hostDerivedProposalOf f, sl_source = FromHostDerived, sl_expected = Some (hd_attemptId f),
                               sl_hostCompletion = True, sl_now = now, sl_identity = identity\<rparr> before during)))))"

subsection \<open>Starting a graph\<close>

definition start_env_of :: "runtime \<Rightarrow> int \<Rightarrow> host_identity option \<Rightarrow> ledger \<Rightarrow> start_env" where
  "start_env_of rt now identity db =
     \<lparr>se_sha = rn_sha rt, se_plan = rn_plan rt, se_reads = ledger_reads_of db, se_mint = rn_mint rt, se_stamp = now,
      se_runId = runIdentityOf (graph_of rt) now, se_identity = identity\<rparr>"

definition stored_intent :: "pending_effect \<Rightarrow> effect_record" where
  "stored_intent e =
     \<lparr>ef_graphId = pe_graphId e, ef_runId = None, ef_effectId = pe_effectId e, ef_attemptId = pe_attemptId e,
      ef_kind = ''dispatch'', ef_payload = enc_target (pe_payload e), ef_createdAt = pe_createdAt e, ef_status = EffectPending\<rparr>"

text \<open>One transaction: the run's identity, its first state and the intents of its entry dispatches.\<close>

definition start_transaction :: "runtime \<Rightarrow> int \<Rightarrow> host_identity option \<Rightarrow> ledger \<Rightarrow> run_failure + (run_start \<times> ledger)" where
  "start_transaction rt now identity db =
     rbind (in_ledger (mintRun \<lparr>rid_graphId = graph_of rt, rid_runId = runIdentityOf (graph_of rt) now, rid_startedAt = now,
              rid_planRevision = cp_planRevision (rn_plan rt)\<rparr> db)) (\<lambda>(_, db).
     rbind (in_start (mintRunInTransaction (start_env_of rt now identity db) 0 (reservations_of db))) (\<lambda>r.
     rbind (in_ledger (writeGraphState (rn_num rt) None (stateRecordOf (rs_state r) now) (with_reservations (rs_budget r) db))) (\<lambda>db.
     rbind (in_ledger (write_effects (map stored_intent (rs_effects r)) db)) (\<lambda>db. Inr (r, db)))))"

datatype start_answer =
    StartRefused "runtime_refusal list"
  | AlreadyStarted graph_state
  | Started graph_state "dispatch_intent list"

definition failed_start :: "run_failure \<Rightarrow> escaped + start_answer" where
  "failed_start failure =
     (case failure of
        JoinFailure (JoinBudget b) \<Rightarrow> Inr (StartRefused [BudgetRefuses b])
      | JoinFailure (JoinInputs rs) \<Rightarrow> Inr (StartRefused (map InputUnbound rs))
      | JoinFailure (JoinAdvance (AdvanceMint e)) \<Rightarrow> Inl (EscapedMint e)
      | JoinFailure _ \<Rightarrow> Inl (EscapedLedger UnwrappedError)
      | LedgerFailure e \<Rightarrow> Inl (EscapedLedger e))"

definition startGraph :: "runtime \<Rightarrow> int \<Rightarrow> identity_reading \<Rightarrow> ledger \<Rightarrow> (escaped + start_answer) \<times> ledger" where
  "startGraph rt now identity db =
     (case runPreflight rt now identity of
        Inl r \<Rightarrow> (Inr (StartRefused [r]), db)
      | Inr dispatchIdentity \<Rightarrow>
          (case readRunControl db (graph_of rt) of
             Some control \<Rightarrow> (Inr (StartRefused [ControlStopped control]), db)
           | None \<Rightarrow>
               (case runtime_state rt db of
                  Inl e \<Rightarrow> (Inr (StartRefused [stateRefusal e]), db)
                | Inr (Some state) \<Rightarrow> (Inr (AlreadyStarted state), db)
                | Inr None \<Rightarrow>
                    if entryNodesOf (rn_plan rt) = [] then (Inr (StartRefused [NoEntryToStart]), db)
                    else (case start_transaction rt now dispatchIdentity db of
                            Inl failure \<Rightarrow> (failed_start failure, db)
                          | Inr (r, db') \<Rightarrow>
                              (case launch rt (rs_dispatched r) db' of
                                 (False, db'') \<Rightarrow> (Inl EscapedLaunch, db'')
                               | (True, db'') \<Rightarrow> (Inr (Started (rs_state r) (rs_dispatched r)), db''))))))"

end
