(* ===== verification/AcceptanceFacts.thy ===== *)
theory AcceptanceFacts
  imports Acceptance
begin

text \<open>
  What an acceptance has behind it: the gates of the declared outcome, all passed for the proposal that is committed,
  and nothing but the receipt when it is rejected.
\<close>

lemma pinned_version_positive: "pinned_version r = Some v \<Longrightarrow> 0 < v"
  by (auto simp: pinned_version_def readValidatorVersion_def split: option.splits if_splits)

lemma map_filter_empty: "List.map_filter f xs = [] \<longleftrightarrow> (\<forall>x \<in> set xs. f x = None)"
  by (induction xs) (auto simp: List.map_filter_simps split: option.splits)

lemma in_set_enumerate_snd: "x \<in> set xs \<Longrightarrow> \<exists>i. (i, x) \<in> set (enumerate n xs)"
  by (metis in_set_conv_nth length_enumerate nth_enumerate_eq nth_mem)

lemma readRequest_Inr:
  assumes "readRequest q = Inr (p, node, outcome)"
  shows "\<bar>aq_now q\<bar> \<le> max_safe" and "effectRefusals (aq_effects q) = []" and "planRefusals q = []"
    and "readOutcomeProposal (aq_proposal q) = Inr p" and "nodeOf (aq_plan q) (pr_nodeId p) = Some node"
    and "outcomeOf node (pr_outcomeId p) = Some outcome" and "r \<in> set (co_acceptance outcome) \<Longrightarrow> pinned_version r \<noteq> None"
proof -
  from assms have parts: "\<bar>aq_now q\<bar> \<le> max_safe \<and> effectRefusals (aq_effects q) = [] \<and> planRefusals q = [] \<and>
      readOutcomeProposal (aq_proposal q) = Inr p \<and> nodeOf (aq_plan q) (pr_nodeId p) = Some node \<and>
      outcomeOf node (pr_outcomeId p) = Some outcome \<and> unpinned_refusals outcome = []"
    by (auto simp: readRequest_def Let_def split: sum.splits option.splits if_splits)
  then show "\<bar>aq_now q\<bar> \<le> max_safe" "effectRefusals (aq_effects q) = []" "planRefusals q = []"
    "readOutcomeProposal (aq_proposal q) = Inr p" "nodeOf (aq_plan q) (pr_nodeId p) = Some node"
    "outcomeOf node (pr_outcomeId p) = Some outcome" by blast+
  show "pinned_version r \<noteq> None" if r: "r \<in> set (co_acceptance outcome)"
  proof -
    obtain i where "(i, r) \<in> set (enumerate 0 (co_acceptance outcome))" using in_set_enumerate_snd [OF r] by blast
    then show ?thesis using parts by (fastforce simp: unpinned_refusals_def map_filter_empty split: if_splits)
  qed
qed

lemma missing_validators_empty:
  "missing_validators registry outcome = [] \<Longrightarrow> r \<in> set (co_acceptance outcome) \<Longrightarrow> lookup_validator registry (requirement_key r) \<noteq> None"
  using in_set_enumerate_snd [of r "co_acceptance outcome" 0] by (fastforce simp: missing_validators_def map_filter_empty split: if_splits)

text \<open>The fields of a plan that lets a request through.\<close>

lemma planRefusals_empty:
  assumes "planRefusals q = []"
  shows "cp_executability (aq_plan q) = Executable" and "aq_submittedPlanRevision q = cp_planRevision (aq_plan q)"
    and "xi_graphId (aq_identity q) = cp_graphId (aq_plan q)"
proof -
  show "cp_executability (aq_plan q) = Executable"
  proof (cases "cp_executability (aq_plan q)")
    case (Draft u c)
    then have "readPlanExecutability (enc_executability (cp_executability (aq_plan q))) \<noteq> ReadsExecutable"
      by (auto simp: readPlanExecutability_def)
    then show ?thesis using assms by (cases "readPlanExecutability (enc_executability (cp_executability (aq_plan q)))") (auto simp: planRefusals_def)
  qed
  show "aq_submittedPlanRevision q = cp_planRevision (aq_plan q)" "xi_graphId (aq_identity q) = cp_graphId (aq_plan q)"
    using assms by (auto simp: planRefusals_def split: if_splits)
qed

subsection \<open>Evidence\<close>

text \<open>One revision for each reference, taken from the passes; without a conflict every evidence of a pass is retained.\<close>

definition evidence_inv :: "accepted_artifact list \<times> submission_refusal list \<Rightarrow> accepted_artifact list \<Rightarrow> bool" where
  "evidence_inv acc seen \<longleftrightarrow> set (fst acc) \<subseteq> set seen \<and> distinct (map aa_ref (fst acc)) \<and>
     (snd acc = [] \<longrightarrow> (\<forall>e \<in> set seen. \<exists>a \<in> set (fst acc). aa_ref a = aa_ref e \<and> aa_artifactId a = aa_artifactId e))"

lemma merge_evidence_inv: "evidence_inv acc seen \<Longrightarrow> evidence_inv (merge_evidence i es acc) (seen @ es)"
proof (induction i es acc arbitrary: seen rule: merge_evidence.induct)
  case (2 i e es retained conflicts)
  let ?next = "case find (\<lambda>a. aa_ref a = aa_ref e) retained of None \<Rightarrow> (retained @ [e], conflicts)
    | Some previous \<Rightarrow> if aa_artifactId previous = aa_artifactId e then (retained, conflicts)
        else (retained, conflicts @ [(RefuseEvidence, indexed ''$.outcome.acceptance'' i)])"
  have "evidence_inv ?next (seen @ [e])"
  proof (cases "find (\<lambda>a. aa_ref a = aa_ref e) retained")
    case None
    then have "aa_ref e \<notin> aa_ref ` set retained" by (auto simp: find_None_all)
    then show ?thesis using 2(2) None by (auto simp: evidence_inv_def)
  next
    case (Some previous)
    from find_Some_in [OF this] have "previous \<in> set retained" "aa_ref previous = aa_ref e" by auto
    then show ?thesis using 2(2) Some by (auto simp: evidence_inv_def)
  qed
  from 2(1) [OF this] show ?case by simp
qed simp

lemma collect_evidence_inv: "evidence_inv (collect_evidence reqs) (concat (map (\<lambda>e. evidence_of (snd e)) reqs))"
proof -
  have "evidence_inv acc seen \<Longrightarrow> evidence_inv (foldl (\<lambda>acc (i, entry). merge_evidence i (evidence_of (snd entry)) acc) acc (enumerate n reqs))
      (seen @ concat (map (\<lambda>e. evidence_of (snd e)) reqs))" for acc seen n
  proof (induction reqs arbitrary: acc seen n)
    case (Cons e reqs)
    from Cons.IH [OF merge_evidence_inv [OF Cons.prems], of n "evidence_of (snd e)" "Suc n"] show ?case by simp
  qed simp
  from this [of "([], [])" "[]" 0] show ?thesis by (simp add: collect_evidence_def evidence_inv_def)
qed

subsection \<open>An accepted validation\<close>

definition earned :: "acceptance_request \<Rightarrow> compiled_outcome \<Rightarrow> normalized_proposal \<Rightarrow> string \<Rightarrow> bool" where
  "earned q outcome normalized digest \<longleftrightarrow>
     (\<forall>r \<in> set (co_acceptance outcome). \<exists>v implementation es. pinned_version r = Some v \<and>
        lookup_validator (aq_validators q) (car_validator r, v) = Some implementation \<and>
        implementation (request_for q outcome normalized digest (car_validator r, v)) = Inr (Pass es))"

lemma validateSubmission_fields:
  assumes "validateSubmission sha num q = Validated d binding retained"
  shows "\<exists>p node outcome digest. readRequest q = Inr (p, node, outcome) \<and> proposalDigest sha num p = Inr digest \<and>
    binding = bindingOf (aq_identity q) (cp_planRevision (aq_plan q)) digest \<and>
    sn_fields d = \<lparr>dc_graphId = xi_graphId (aq_identity q), dc_attemptId = xi_attemptId (aq_identity q),
      dc_submissionId = xi_submissionId (aq_identity q), dc_planRevision = cp_planRevision (aq_plan q),
      dc_proposalDigest = digest, dc_nodeId = cn_id node, dc_outcomeId = co_id outcome\<rparr> \<and>
    (sn_kind d = AcceptedKind \<longleftrightarrow> retained \<noteq> None) \<and>
    (sn_kind d = AcceptedKind \<longrightarrow> earned q outcome (normalizeProposal p) digest) \<and>
    (\<forall>rt. retained = Some rt \<longrightarrow> rt_payload rt = acceptedDataOf (pr_data p) \<and> distinct (map aa_ref (rt_artifacts rt)))"
proof -
  from assms obtain p node outcome where r: "readRequest q = Inr (p, node, outcome)"
    by (auto simp: validateSubmission_def split: sum.splits)
  from assms r obtain digest where dig: "proposalDigest sha num (as_proposal (normalizeProposal p)) = Inr digest"
    by (auto simp: validateSubmission_def split: sum.splits)
  then have dig': "proposalDigest sha num p = Inr digest" by (simp add: proposalDigest_def normalize_idem)
  let ?reqs = "map (run_validator q outcome (normalizeProposal p) digest) (co_acceptance outcome)"
  let ?fields = "\<lparr>dc_graphId = xi_graphId (aq_identity q), dc_attemptId = xi_attemptId (aq_identity q),
      dc_submissionId = xi_submissionId (aq_identity q), dc_planRevision = cp_planRevision (aq_plan q),
      dc_proposalDigest = digest, dc_nodeId = cn_id node, dc_outcomeId = co_id outcome\<rparr>"
  from assms r dig have parts: "missing_validators (aq_validators q) outcome = []"
      "binding = bindingOf (aq_identity q) (cp_planRevision (aq_plan q)) digest" "sn_fields d = ?fields"
      "sn_kind d = (if list_all (\<lambda>e. passes (snd e)) ?reqs then AcceptedKind else RejectedKind)"
      "retained = (if list_all (\<lambda>e. passes (snd e)) ?reqs
         then Some \<lparr>rt_payload = acceptedDataOf (nr_data (normalizeProposal p)), rt_artifacts = fst (collect_evidence ?reqs)\<rparr> else None)"
    by (auto simp: validateSubmission_def Let_def split: if_splits prod.splits)
  have "earned q outcome (normalizeProposal p) digest" if "sn_kind d = AcceptedKind"
    unfolding earned_def
  proof
    fix rq assume rq: "rq \<in> set (co_acceptance outcome)"
    from readRequest_Inr(7) [OF r rq] obtain v where v: "pinned_version rq = Some v" by blast
    then have key: "requirement_key rq = (car_validator rq, v)" by (simp add: requirement_key_def)
    from missing_validators_empty [OF parts(1) rq] key obtain implementation
      where i: "lookup_validator (aq_validators q) (car_validator rq, v) = Some implementation" by auto
    from that parts(4) rq have "passes (snd (run_validator q outcome (normalizeProposal p) digest rq))"
      by (auto simp: list_all_iff split: if_splits)
    then have "\<exists>es. implementation (request_for q outcome (normalizeProposal p) digest (car_validator rq, v)) = Inr (Pass es)"
      using i key by (auto simp: run_validator_def Let_def split: sum.splits elim: passes.elims)
    with v i show "\<exists>v implementation es. pinned_version rq = Some v \<and> lookup_validator (aq_validators q) (car_validator rq, v) = Some implementation \<and>
        implementation (request_for q outcome (normalizeProposal p) digest (car_validator rq, v)) = Inr (Pass es)" by blast
  qed
  moreover have "distinct (map aa_ref (fst (collect_evidence ?reqs)))"
    using collect_evidence_inv [of ?reqs] by (simp add: evidence_inv_def)
  ultimately show ?thesis using r dig' parts
    by (intro exI [of _ p] exI [of _ node] exI [of _ outcome] exI [of _ digest]) (auto simp: normalizeProposal_def)
qed

lemma validated_binding:
  assumes "validateSubmission sha num q = Validated d binding retained"
  shows "vb_graphId binding = dc_graphId (sn_fields d)" "vb_attemptId binding = dc_attemptId (sn_fields d)"
    "vb_submissionId binding = dc_submissionId (sn_fields d)" "vb_planRevision binding = dc_planRevision (sn_fields d)"
    "vb_proposalDigest binding = dc_proposalDigest (sn_fields d)"
  using validateSubmission_fields [OF assms] by (auto simp: bindingOf_def)

subsection \<open>The commit\<close>

lemma in_ledger_Inr [result_simps]: "in_ledger r = Inr x \<longleftrightarrow> r = Inr x"
  by (cases r) (auto simp: in_ledger_def)

lemma settle_join_other: "\<nexists>r. verdict = Committed r \<Longrightarrow> settle_join q joined verdict db = Inr db"
  by (cases verdict) (auto simp: settle_join_def)

text \<open>The batch and the join of a commit that is answered with the ledger's verdict.\<close>

lemma commitSubmission_Submitted:
  assumes "commitSubmission sha num q validation join db = Inr (Submitted d verdict, db')"
  obtains binding retained live joined db1 where "validation = Validated d binding retained" and "liveBindingOf sha num q = Some live"
    and "bindingsEqual live binding" and "run_join join d db = Inr joined"
    and "commitAccepted num (submission_batch q live d retained) db = Inr (verdict, db1)" and "settle_join q joined verdict db1 = Inr db'"
  using assms
  by (auto simp: commitSubmission_def result_simps split: submission_validation.splits sum.splits option.splits if_splits)

text \<open>A receipt names what was validated, whatever has happened to the request in between.\<close>

lemma committed_receipt_fields:
  assumes v: "validateSubmission sha num q0 = Validated d binding retained"
    and c: "commitSubmission sha num q (Validated d binding retained) join db = Inr (Submitted d' (Committed r), db')"
  shows "d' = d" and "rcp_graphId r = dc_graphId (sn_fields d)" and "rcp_attemptId r = dc_attemptId (sn_fields d)"
    and "rcp_submissionId r = dc_submissionId (sn_fields d)" and "rcp_planRevision r = dc_planRevision (sn_fields d)"
    and "rcp_proposalDigest r = dc_proposalDigest (sn_fields d)" and "rcp_decision r = sn_kind d"
proof -
  from c obtain live db1 where l: "d' = d" "liveBindingOf sha num q = Some live" "bindingsEqual live binding"
      "commitAccepted num (submission_batch q live d retained) db = Inr (Committed r, db1)" by (auto elim: commitSubmission_Submitted)
  have "r = submission_receipt q live d"
    using commitAccepted_Committed(4) [OF l(4)] by (auto simp: submission_batch_def Let_def split: if_splits)
  moreover have "vb_graphId live = xi_graphId (aq_identity q)" "vb_attemptId live = xi_attemptId (aq_identity q)"
      "vb_submissionId live = xi_submissionId (aq_identity q)"
    using l(2) by (auto simp: liveBindingOf_def bindingOf_def split: sum.splits)
  ultimately show "d' = d" "rcp_graphId r = dc_graphId (sn_fields d)" "rcp_attemptId r = dc_attemptId (sn_fields d)"
    "rcp_submissionId r = dc_submissionId (sn_fields d)" "rcp_planRevision r = dc_planRevision (sn_fields d)"
    "rcp_proposalDigest r = dc_proposalDigest (sn_fields d)" "rcp_decision r = sn_kind d"
    using l(1,3) validated_binding [OF v] by (auto simp: submission_receipt_def bindingsEqual_def)
qed


subsection \<open>The rows of a committed submission\<close>

definition accepted_event_of :: "acceptance_request \<Rightarrow> receipt \<Rightarrow> string \<Rightarrow> accepted_event" where
  "accepted_event_of q r outcomeId = \<lparr>ev_graphId = rcp_graphId r, ev_attemptId = rcp_attemptId r, ev_submissionId = rcp_submissionId r,
     ev_planRevision = rcp_planRevision r, ev_outcomeId = outcomeId, ev_acceptedAt = aq_now q\<rparr>"

definition accepted_result_of :: "acceptance_request \<Rightarrow> receipt \<Rightarrow> retained_validation \<Rightarrow> accepted_result" where
  "accepted_result_of q r rt = \<lparr>res_graphId = xi_graphId (aq_identity q), res_attemptId = xi_attemptId (aq_identity q),
     res_planRevision = rcp_planRevision r, res_payload = rt_payload rt, res_artifacts = Some (rt_artifacts rt), res_acceptedAt = aq_now q\<rparr>"

text \<open>A rejection leaves its receipt and nothing else, and no join runs for it.\<close>

lemma rejected_rows:
  assumes "commitSubmission sha num q validation join db = Inr (Submitted d (Committed r), db')" and "sn_kind d = RejectedKind"
  shows "db' = db\<lparr>lg_receipts := lg_receipts db @ [r]\<rparr>"
proof -
  from assms(1) obtain binding retained live joined db1 where c: "run_join join d db = Inr joined"
      "commitAccepted num (submission_batch q live d retained) db = Inr (Committed r, db1)" "settle_join q joined (Committed r) db1 = Inr db'"
    by (auto elim: commitSubmission_Submitted)
  from c(1) assms(2) have "joined = None" by (auto simp: run_join_def split: option.splits)
  with c(3) have db1: "db' = db1" by (simp add: settle_join_def)
  let ?b = "submission_batch q live d retained"
  note w = commitAccepted_Committed [OF c(2)]
  have b: "event_rows ?b = []" "result_rows ?b db = []" "bt_effects ?b = []"
    using assms(2) by (simp_all add: submission_batch_def Let_def event_rows_def result_rows_def)
  from writeBatch_Some(4) [OF w(3)] b w(4) show ?thesis by (auto simp: db1)
qed

lemma other_verdict_keeps:
  assumes "commitSubmission sha num q validation join db = Inr (Submitted d verdict, db')" and "\<nexists>r. verdict = Committed r"
  shows "db' = db"
proof (rule commitSubmission_Submitted [OF assms(1)])
  fix binding retained live joined db1
  assume "commitAccepted num (submission_batch q live d retained) db = Inr (verdict, db1)" "settle_join q joined verdict db1 = Inr db'"
  with commitAccepted_other [OF _ assms(2)] settle_join_other [OF assms(2), of q joined db1] show ?thesis by auto
qed

lemma list_all2_partner: "list_all2 P xs ys \<Longrightarrow> x \<in> set xs \<Longrightarrow> \<exists>y \<in> set ys. P x y"
  by (induction rule: list_all2_induct) auto

text \<open>An acceptance leaves its receipt, its settlement and its result; its join is settled on the ledger that holds them.\<close>

lemma accepted_rows_exact:
  assumes v: "validateSubmission sha num q0 = Validated d binding (Some rv)" and k: "sn_kind d = AcceptedKind"
    and c: "commitSubmission sha num q (Validated d binding (Some rv)) join db = Inr (Submitted d' (Committed r), db')"
  obtains db1 joined where "lg_receipts db1 = lg_receipts db @ [r]"
    and "lg_events db1 = lg_events db @ [accepted_event_of q r (dc_outcomeId (sn_fields d))]"
    and "lg_results db1 = lg_results db @ (if readAcceptedResult db (rcp_graphId r) (rcp_attemptId r) = None then [accepted_result_of q r rv] else [])"
    and "list_all retained_artifact_ok (rt_artifacts rv)" and "lg_runs db1 = lg_runs db" and "lg_decisions db1 = lg_decisions db"
    and "lg_states db1 = lg_states db" and "selectAcceptedEvent db (rcp_graphId r) (rcp_attemptId r) = None"
    and "run_join join d db = Inr joined" and "settle_join q joined (Committed r) db1 = Inr db'"
proof -
  from c obtain live joined db1 where l: "d' = d" "run_join join d db = Inr joined"
      "commitAccepted num (submission_batch q live d (Some rv)) db = Inr (Committed r, db1)" "settle_join q joined (Committed r) db1 = Inr db'"
    by (auto elim: commitSubmission_Submitted)
  note w = commitAccepted_Committed [OF l(3)]
  let ?b = "submission_batch q live d (Some rv)"
  have r: "r = submission_receipt q live d" using w(4) k by (simp add: submission_batch_def Let_def)
  have b: "bt_acceptedEvent ?b = Some (accepted_event_of q r (dc_outcomeId (sn_fields d)))" "bt_acceptedResult ?b = Some (accepted_result_of q r rv)"
    using k by (simp_all add: submission_batch_def Let_def r accepted_event_of_def accepted_result_of_def)
  have ids: "res_graphId (accepted_result_of q r rv) = rcp_graphId r" "res_attemptId (accepted_result_of q r rv) = rcp_attemptId r"
    by (simp_all add: accepted_result_of_def r submission_receipt_def)
  from writeBatch_Some(4) [OF w(3)] obtain rows where db1: "db1 = db\<lparr>lg_receipts := lg_receipts db @ [bt_receipt ?b],
      lg_events := lg_events db @ event_rows ?b, lg_results := lg_results db @ result_rows ?b db, lg_effects := lg_effects db @ rows\<rparr>" by blast
  from w(3) b(2) obtain x db2 where "writeAcceptedResult num (accepted_result_of q r rv) x = Inr db2"
    by (auto simp: writeBatch_def Let_def result_simps split: if_splits)
  then have retained: "list_all retained_artifact_ok (rt_artifacts rv)"
    by (auto simp: writeAcceptedResult_def requireRetainedArtifacts_def accepted_result_of_def result_simps)
  have fresh: "selectAcceptedEvent db (rcp_graphId r) (rcp_attemptId r) = None"
    using w(2,4) by (auto simp: commit_reads_def Let_def split: option.splits if_splits)
  have "event_rows ?b = [accepted_event_of q r (dc_outcomeId (sn_fields d))]" using b(1) by (simp add: event_rows_def)
  moreover have "result_rows ?b db = (if readAcceptedResult db (rcp_graphId r) (rcp_attemptId r) = None then [accepted_result_of q r rv] else [])"
    using b(2) ids by (simp add: result_rows_def)
  ultimately have "lg_receipts db1 = lg_receipts db @ [r]" "lg_events db1 = lg_events db @ [accepted_event_of q r (dc_outcomeId (sn_fields d))]"
    "lg_results db1 = lg_results db @ (if readAcceptedResult db (rcp_graphId r) (rcp_attemptId r) = None then [accepted_result_of q r rv] else [])"
    "lg_runs db1 = lg_runs db" "lg_decisions db1 = lg_decisions db" "lg_states db1 = lg_states db"
    by (simp_all add: db1 w(4))
  with retained fresh l(2,4) that show ?thesis by blast
qed

lemma accepted_rows:
  assumes v: "validateSubmission sha num q0 = Validated d binding (Some rt)" and k: "sn_kind d = AcceptedKind"
    and c: "commitSubmission sha num q (Validated d binding (Some rt)) join db = Inr (Submitted d' (Committed r), db')"
  shows "\<exists>db1 joined. lg_receipts db1 = lg_receipts db @ [r] \<and>
    lg_events db1 = lg_events db @ [accepted_event_of q r (dc_outcomeId (sn_fields d))] \<and>
    (readAcceptedResult db (rcp_graphId r) (rcp_attemptId r) = None \<longrightarrow> lg_results db1 = lg_results db @ [accepted_result_of q r rt]) \<and>
    run_join join d db = Inr joined \<and> settle_join q joined (Committed r) db1 = Inr db'"
proof (rule accepted_rows_exact [OF assms])
  fix db1 joined
  assume "lg_receipts db1 = lg_receipts db @ [r]" "lg_events db1 = lg_events db @ [accepted_event_of q r (dc_outcomeId (sn_fields d))]"
    "lg_results db1 = lg_results db @ (if readAcceptedResult db (rcp_graphId r) (rcp_attemptId r) = None then [accepted_result_of q r rt] else [])"
    "run_join join d db = Inr joined" "settle_join q joined (Committed r) db1 = Inr db'"
  then show ?thesis by (intro exI [of _ db1] exI [of _ joined]) simp
qed

text \<open>Every reference a pass has read is in the retained evidence under the revision the pass names.\<close>

lemma retained_evidence:
  assumes "validateSubmission sha num q = Validated d binding (Some rt)" and "readRequest q = Inr (p, node, outcome)"
    and "proposalDigest sha num p = Inr digest" and "r \<in> set (co_acceptance outcome)" and "pinned_version r = Some v"
    and "lookup_validator (aq_validators q) (car_validator r, v) = Some implementation"
    and "implementation (request_for q outcome (normalizeProposal p) digest (car_validator r, v)) = Inr (Pass es)"
    and "e \<in> set es"
  shows "\<exists>a \<in> set (rt_artifacts rt). aa_ref a = aa_ref e \<and> aa_artifactId a = aa_artifactId e"
proof -
  let ?reqs = "map (run_validator q outcome (normalizeProposal p) digest) (co_acceptance outcome)"
  have dig: "proposalDigest sha num (as_proposal (normalizeProposal p)) = Inr digest"
    using assms(3) by (simp add: proposalDigest_def normalize_idem)
  from assms(1,2) dig have parts: "snd (collect_evidence ?reqs) = []" "rt_artifacts rt = fst (collect_evidence ?reqs)"
    by (auto simp: validateSubmission_def Let_def split: if_splits prod.splits)
  have "run_validator q outcome (normalizeProposal p) digest r = ((car_validator r, v), Pass es)"
    using assms(5,6,7) by (simp add: run_validator_def requirement_key_def Let_def)
  then have "((car_validator r, v), Pass es) \<in> set ?reqs" using assms(4) by (metis image_eqI list.set_map)
  then have "e \<in> set (concat (map (\<lambda>x. evidence_of (snd x)) ?reqs))"
    using assms(8) unfolding set_concat set_map by (intro UN_I [of "evidence_of (Pass es)"] image_eqI [of _ _ "((car_validator r, v), Pass es)"]) simp_all
  with collect_evidence_inv [of ?reqs] parts show ?thesis by (auto simp: evidence_inv_def)
qed

subsection \<open>Gates and what they promise\<close>

text \<open>
  A gate is an implementation installed under a key, with what a pass of it promises of the request it passed. An
  acceptance that declares the key has that promise for the proposal it committed.
\<close>

locale gate =
  fixes key :: validator_key and implementation :: validator_implementation
    and promise :: "validator_request \<Rightarrow> accepted_artifact list \<Rightarrow> bool"
  assumes pass_promises: "implementation req = Inr (Pass es) \<Longrightarrow> promise req es"
begin

lemma earned_promise:
  assumes "earned q outcome normalized digest" and "r \<in> set (co_acceptance outcome)" and "car_validator r = fst key"
    and "pinned_version r = Some (snd key)" and "lookup_validator (aq_validators q) key = Some implementation"
  shows "\<exists>es. implementation (request_for q outcome normalized digest key) = Inr (Pass es) \<and> promise (request_for q outcome normalized digest key) es"
proof -
  from assms(1,2) obtain v f es where v: "pinned_version r = Some v" "lookup_validator (aq_validators q) (car_validator r, v) = Some f"
      "f (request_for q outcome normalized digest (car_validator r, v)) = Inr (Pass es)" unfolding earned_def by blast
  with assms(3,4) have "(car_validator r, v) = key" by (simp add: prod_eq_iff)
  with v assms(5) show ?thesis using pass_promises by auto
qed

lemma accepted_evidence:
  assumes "validateSubmission sha num q = Validated d binding (Some rt)" and "readRequest q = Inr (p, node, outcome)"
    and "proposalDigest sha num p = Inr digest" and "r \<in> set (co_acceptance outcome)" and "car_validator r = fst key"
    and "pinned_version r = Some (snd key)" and "lookup_validator (aq_validators q) key = Some implementation"
    and "earned q outcome (normalizeProposal p) digest"
  shows "\<exists>es. promise (request_for q outcome (normalizeProposal p) digest key) es \<and>
    (\<forall>e \<in> set es. \<exists>a \<in> set (rt_artifacts rt). aa_ref a = aa_ref e \<and> aa_artifactId a = aa_artifactId e)"
proof -
  have key: "(car_validator r, snd key) = key" using assms(5) by (simp add: prod_eq_iff)
  from earned_promise [OF assms(8,4,5,6,7)] obtain es where es: "implementation (request_for q outcome (normalizeProposal p) digest key) = Inr (Pass es)"
      "promise (request_for q outcome (normalizeProposal p) digest key) es" by blast
  with retained_evidence [OF assms(1-4,6), unfolded key, OF assms(7) es(1)] show ?thesis by blast
qed

end

text \<open>The artifact-reference gate, installed over a store and the state its object directory is in.\<close>

definition artifact_implementation ::
  "(string \<Rightarrow> string) \<Rightarrow> filesystem \<Rightarrow> (nat \<Rightarrow> deposit_faults) option \<Rightarrow> object_dir \<Rightarrow> validator_implementation" where
  "artifact_implementation sha fs store dir req = Inr (fst (artifactReferenceGate sha fs store req dir))"

definition artifact_promise ::
  "(string \<Rightarrow> string) \<Rightarrow> filesystem \<Rightarrow> (nat \<Rightarrow> deposit_faults) option \<Rightarrow> object_dir \<Rightarrow> validator_request \<Rightarrow> accepted_artifact list \<Rightarrow> bool" where
  "artifact_promise sha fs store dir req es \<longleftrightarrow>
     (let dir' = snd (artifactReferenceGate sha fs store req dir) in
      (\<forall>b. is_hex64 (sha b)) \<longrightarrow> es \<noteq> [] \<and> objects_kept dir dir' \<and>
        list_all2 (gated sha fs (store \<noteq> None) (vr_artifactRoot req) dir') (nr_evidenceRefs (vr_proposal req)) es)"

interpretation artifact_gate: gate "(ARTIFACT_REFERENCE_VALIDATOR_ID, ARTIFACT_REFERENCE_VALIDATOR_VERSION)"
  "artifact_implementation sha fs store dir" "artifact_promise sha fs store dir" for sha fs store dir
proof unfold_locales
  fix req es assume "artifact_implementation sha fs store dir req = Inr (Pass es)"
  then have "artifactReferenceGate sha fs store req dir = (Pass es, snd (artifactReferenceGate sha fs store req dir))"
    by (simp add: artifact_implementation_def prod_eq_iff)
  from artifact_gate_Pass [OF _ this] show "artifact_promise sha fs store dir req es"
    by (simp add: artifact_promise_def Let_def)
qed

end
