(* ===== verification/ReducerFacts.thy ===== *)
theory ReducerFacts
  imports Reducer
begin

text \<open>
  Facts about the reducer's parts: what a decision of the blocked-input loop rests on, what applying
  the decisions changes and what it leaves alone, what the counting and measuring loops establish,
  and the case analysis of a whole advance. The invariants and the properties of a run are proved
  from these.
\<close>

subsection \<open>Decisions\<close>

lemma decide_loop_pass:
  "\<exists>b. decide_loop plan nodes ra cands arm blocked = decide_pass plan nodes ra cands arm b \<and>
       snd (newly_blocked (decide_pass plan nodes ra cands arm b) b) = False"
proof (induction plan nodes ra cands arm blocked rule: decide_loop.induct)
  case (1 plan nodes ra cands arm blocked)
  obtain b grew where nb: "newly_blocked (decide_pass plan nodes ra cands arm blocked) blocked = (b, grew)"
    by fastforce
  show ?case
  proof (cases grew)
    case True
    with nb have "decide_loop plan nodes ra cands arm blocked = decide_loop plan nodes ra cands arm b"
      by (subst decide_loop.simps) (simp add: Let_def)
    with "1.IH" [OF refl nb [symmetric] True] show ?thesis by metis
  next
    case False
    with nb have "decide_loop plan nodes ra cands arm blocked = decide_pass plan nodes ra cands arm blocked"
      by (subst decide_loop.simps) (simp add: Let_def)
    with nb False show ?thesis by (metis snd_conv)
  qed
qed

lemma decide_pass_decision:
  assumes "(c, d) \<in> set (decide_pass plan nodes ra cands arm b)"
  shows "c \<in> set cands" and "cn_id (fst c) \<in> set (resolveArmSet plan nodes (map fst arm) b)"
    and "\<exists>inFlight. d = assembleDownstreamInput (inputs_of (fst c))
           (\<lambda>i. if i \<in> set inFlight then None else settledAttemptOf nodes i) ra
           (arrivals_to plan nodes inFlight (cn_id (fst c)))"
  using assms by (auto simp: decide_pass_def assembleAgainst_def routed_candidates_def Let_def)

lemma decide_pass_distinct:
  "distinct cands \<Longrightarrow> distinct (map fst (decide_pass plan nodes ra cands arm b))"
  by (simp add: decide_pass_def assembleAgainst_def routed_candidates_def Let_def comp_def)

lemma candidates_of_iff:
  "c \<in> set (candidates_of plan ids) \<longleftrightarrow>
     snd c < length (cp_nodes plan) \<and> fst c = cp_nodes plan ! snd c \<and> cn_id (fst c) \<in> set ids"
  by (cases c) (auto simp: candidates_of_def set_zip)

lemma candidates_of_distinct: "distinct (map snd (candidates_of plan ids))"
proof -
  have "distinct (map snd (filter P (zip xs [0..<length xs])))" for P and xs :: "compiled_node list"
    by (rule distinct_map_filter) simp
  then show ?thesis by (simp add: candidates_of_def)
qed

text \<open>The decisions of a routing, with what is known of each candidate.\<close>

definition routed_decisions ::
  "compiled_plan \<Rightarrow> node_state list \<Rightarrow> (string \<Rightarrow> accepted_result_reading) \<Rightarrow> string list \<Rightarrow>
   (candidate \<times> downstream_input) list" where
  "routed_decisions plan nodes ra ids =
     decide_loop plan nodes ra (candidates_of plan ids) (armable_of nodes (candidates_of plan ids)) []"

lemma routed_decisions_distinct: "distinct (map (\<lambda>x. snd (fst x)) (routed_decisions plan nodes ra ids))"
proof -
  let ?cands = "candidates_of plan ids" and ?arm = "armable_of nodes (candidates_of plan ids)"
  obtain b where ds: "routed_decisions plan nodes ra ids = decide_pass plan nodes ra ?cands ?arm b"
    unfolding routed_decisions_def using decide_loop_pass by metis
  have "distinct (map fst (decide_pass plan nodes ra ?cands ?arm b))"
    using candidates_of_distinct [of plan ids] by (intro decide_pass_distinct) (simp add: distinct_map)
  moreover have "inj_on snd (set (map fst (decide_pass plan nodes ra ?cands ?arm b)))"
    using candidates_of_distinct [of plan ids] decide_pass_decision(1)
    by (auto simp: distinct_map intro!: inj_on_subset [of snd "set ?cands"])
  ultimately have "distinct (map snd (map fst (decide_pass plan nodes ra ?cands ?arm b)))"
    by (simp add: distinct_map del: map_map)
  then show ?thesis unfolding ds by (simp add: comp_def)
qed

lemma routed_decision:
  assumes "distinct (node_ids plan)" and "(c, d) \<in> set (routed_decisions plan nodes ra ids)"
  shows "snd c < length (cp_nodes plan)" and "fst c = cp_nodes plan ! snd c" and "cn_id (fst c) \<in> set ids"
    and "snd c < length nodes" and "ns_status (nodes ! snd c) \<noteq> Dispatched"
    and "joinSatisfiedFor plan (fst c) (arrivals_to plan nodes [] (cn_id (fst c)))"
    and "\<exists>inFlight. d = assembleDownstreamInput (inputs_of (fst c))
           (\<lambda>i. if i \<in> set inFlight then None else settledAttemptOf nodes i) ra
           (arrivals_to plan nodes inFlight (cn_id (fst c)))"
proof -
  let ?cands = "candidates_of plan ids" and ?arm = "armable_of nodes (candidates_of plan ids)"
  obtain b where ds: "routed_decisions plan nodes ra ids = decide_pass plan nodes ra ?cands ?arm b"
    unfolding routed_decisions_def using decide_loop_pass by metis
  note dec = decide_pass_decision [OF assms(2) [unfolded ds]]
  from dec(1) show c: "snd c < length (cp_nodes plan)" "fst c = cp_nodes plan ! snd c" "cn_id (fst c) \<in> set ids"
    unfolding candidates_of_iff by blast+
  from dec(2) resolveArmSet_subset obtain c' where c': "c' \<in> set ?arm" "cn_id (fst c') = cn_id (fst c)"
    by fastforce
  then have "c' \<in> set ?cands" by (simp add: armable_of_def)
  then have "snd c' < length (cp_nodes plan)" "fst c' = cp_nodes plan ! snd c'" by (simp_all add: candidates_of_iff)
  with c c'(2) assms(1) have "snd c' = snd c"
    by (metis nth_eq_of_distinct_map)
  with c'(1) show "snd c < length nodes" "ns_status (nodes ! snd c) \<noteq> Dispatched"
    by (auto simp: armable_of_def)
  show "\<exists>inFlight. d = assembleDownstreamInput (inputs_of (fst c))
           (\<lambda>i. if i \<in> set inFlight then None else settledAttemptOf nodes i) ra
           (arrivals_to plan nodes inFlight (cn_id (fst c)))"
    by (rule dec(3))
  have "fst c \<in> set (map fst ?arm)"
    using c' c \<open>snd c' = snd c\<close> \<open>fst c' = cp_nodes plan ! snd c'\<close> by force
  from resolveArmSet_joined [OF this dec(2)] obtain held where
    "joinSatisfiedFor plan (fst c) (arrivals_to plan nodes held (cn_id (fst c)))"
    by (auto simp: joined_under_def)
  moreover have "cn_id (fst c) \<in> set (node_ids plan)" using c by auto
  ultimately show "joinSatisfiedFor plan (fst c) (arrivals_to plan nodes [] (cn_id (fst c)))"
    using arrivals_to_mono [OF assms(1), of "cn_id (fst c)" "[]" held] joinSatisfiedFor_mono by fastforce
qed

subsection \<open>Applying decisions\<close>

lemma dispatch_candidate_Inr:
  assumes "dispatch_candidate ctx c es s = Inr s'"
  obtains cred where
    "as_nodes s' = (as_nodes s)[snd c :=
       DispatchedNode (cn_id (fst c)) (attempt_id (cn_id (fst c)) (Suc (as_attemptSeq s))) (Suc (as_attemptSeq s))
         (attemptCredentialDigest (ac_sha ctx) cred) (ac_identity ctx) (ac_now ctx) [] (Some es) None]"
    "as_attemptSeq s' = Suc (as_attemptSeq s)"
    "as_dispatches s' = as_dispatches s @
       [\<lparr>di_nodeId = cn_id (fst c), di_attemptId = attempt_id (cn_id (fst c)) (Suc (as_attemptSeq s)),
         di_agent = cn_agent (fst c), di_prompt = cn_prompt (fst c), di_credential = cred, di_inputs = es\<rparr>]"
    "ac_mint ctx (attemptCredentialBinding
       \<lparr>ai_graphId = ac_graphId ctx, ai_nodeId = cn_id (fst c),
        ai_attemptId = attempt_id (cn_id (fst c)) (Suc (as_attemptSeq s)),
        ai_planRevision = ac_planRevision ctx\<rparr>) = JStr cred"
  using assms
  by (auto simp: dispatch_candidate_def Let_def mintAttemptCredential_Inr split: sum.splits)

lemma apply_decisions_invariant:
  assumes "apply_decisions ctx ds s = Inr s'" and "P s"
    and "\<And>c rs s. (c, InputBlocked rs) \<in> set ds \<Longrightarrow> P s \<Longrightarrow> P (record_refusals c rs s)"
    and "\<And>c es s s'. (c, InputResolved es) \<in> set ds \<Longrightarrow> P s \<Longrightarrow> dispatch_candidate ctx c es s = Inr s' \<Longrightarrow> P s'"
  shows "P s'"
  using assms
proof (induction ctx ds s rule: apply_decisions.induct)
  case (2 ctx c rs ds s)
  show ?case
    by (rule "2.IH") (use "2.prems" in auto)
next
  case (3 ctx c es ds s)
  from "3.prems"(1) obtain s1 where s1: "dispatch_candidate ctx c es s = Inr s1" "apply_decisions ctx ds s1 = Inr s'"
    by (auto simp: result_simps)
  show ?case
    by (rule "3.IH" [OF s1(2)]) (use "3.prems"(2-4) s1(1) in \<open>auto intro: "3.prems"(3) "3.prems"(4)\<close>)
qed simp

lemma record_refusals_nodes:
  "as_nodes (record_refusals c rs s) =
     (if snd c < length (as_nodes s) then (as_nodes s)[snd c := with_inputRefusals rs (as_nodes s ! snd c)]
      else as_nodes s)"
  "as_attemptSeq (record_refusals c rs s) = as_attemptSeq s"
  "as_dispatches (record_refusals c rs s) = as_dispatches s"
  by (simp_all add: record_refusals_def)

text \<open>An entry no decision is about is not touched.\<close>

lemma apply_decisions_frame:
  assumes "apply_decisions ctx ds s = Inr s'" and "i \<notin> (\<lambda>x. snd (fst x)) ` set ds"
  shows "as_nodes s' ! i = as_nodes s ! i"
proof (rule apply_decisions_invariant [OF assms(1), where P = "\<lambda>t. as_nodes t ! i = as_nodes s ! i"])
  fix c rs and t :: arm_state assume "(c, InputBlocked rs) \<in> set ds" "as_nodes t ! i = as_nodes s ! i"
  moreover from this(1) assms(2) have "snd c \<noteq> i" by (force simp: image_iff)
  ultimately show "as_nodes (record_refusals c rs t) ! i = as_nodes s ! i"
    by (simp add: record_refusals_nodes)
next
  fix c es and t t' :: arm_state assume "(c, InputResolved es) \<in> set ds" "as_nodes t ! i = as_nodes s ! i"
    "dispatch_candidate ctx c es t = Inr t'"
  moreover from this(1) assms(2) have "snd c \<noteq> i" by (force simp: image_iff)
  ultimately show "as_nodes t' ! i = as_nodes s ! i"
    by (auto elim: dispatch_candidate_Inr)
qed simp

lemma apply_decisions_length:
  "apply_decisions ctx ds s = Inr s' \<Longrightarrow> length (as_nodes s') = length (as_nodes s)"
  by (rule apply_decisions_invariant [where P = "\<lambda>t. length (as_nodes t) = length (as_nodes s)"])
     (auto simp: record_refusals_nodes elim: dispatch_candidate_Inr)

lemma apply_decisions_seq_mono:
  "apply_decisions ctx ds s = Inr s' \<Longrightarrow> as_attemptSeq s \<le> as_attemptSeq s'"
  by (rule apply_decisions_invariant [where P = "\<lambda>t. as_attemptSeq s \<le> as_attemptSeq t"])
     (auto simp: record_refusals_nodes elim: dispatch_candidate_Inr)

subsection \<open>Counting traversals\<close>

lemma traversals_of_update [simp]:
  "traversals_of (AList.update k v al) i = (if i = k then v else traversals_of al i)"
  by (simp add: traversals_of_def update_conv')

lemma count_traversals_None:
  assumes "count_traversals gs al = (al', None)" and "distinct (map clg_id gs)"
  shows "(\<forall>g \<in> set gs. traversals_of al' (clg_id g) = Suc (traversals_of al (clg_id g)) \<and>
            Suc (traversals_of al (clg_id g)) \<le> clg_maxTraversals g) \<and>
         (\<forall>i. i \<notin> clg_id ` set gs \<longrightarrow> traversals_of al' i = traversals_of al i) \<and>
         fst ` set al' = fst ` set al \<union> clg_id ` set gs \<and>
         (distinct (map fst al) \<longrightarrow> distinct (map fst al'))"
  using assms
proof (induction gs arbitrary: al)
  case (Cons g gs)
  let ?al = "AList.update (clg_id g) (Suc (traversals_of al (clg_id g))) al"
  have rec: "count_traversals gs ?al = (al', None)" and le: "Suc (traversals_of al (clg_id g)) \<le> clg_maxTraversals g"
    and d: "distinct (map clg_id gs)" and g: "clg_id g \<notin> clg_id ` set gs"
    using Cons.prems by (auto simp: Let_def split: if_splits)
  have other: "traversals_of ?al (clg_id h) = traversals_of al (clg_id h)" if "h \<in> set gs" for h
  proof -
    have "clg_id h \<noteq> clg_id g" using that g by (metis imageI)
    then show ?thesis by simp
  qed
  show ?case
    using Cons.IH [OF rec d] le g other by (simp add: dom_update distinct_update)
qed simp

lemma count_traversals_Some:
  assumes "count_traversals gs al = (al', Some g)" and "distinct (map clg_id gs)"
  shows "g \<in> set gs \<and> clg_maxTraversals g \<le> traversals_of al (clg_id g)"
  using assms
proof (induction gs arbitrary: al)
  case (Cons h gs)
  show ?case
  proof (cases "clg_maxTraversals h \<le> traversals_of al (clg_id h)")
    case True
    then show ?thesis using Cons.prems by (auto simp: Let_def)
  next
    case False
    let ?al = "AList.update (clg_id h) (Suc (traversals_of al (clg_id h))) al"
    have "count_traversals gs ?al = (al', Some g)" "distinct (map clg_id gs)"
      using Cons.prems False by (auto simp: Let_def)
    note IH = Cons.IH [OF this]
    then have "clg_id g \<noteq> clg_id h" using Cons.prems(2) by (metis distinct.simps(2) imageI list.simps(9) set_map)
    with IH show ?thesis by simp
  qed
qed simp

subsection \<open>Measuring progress\<close>

lemma measure_group_Inr:
  assumes "measure_group plan recorded dec pjs now g p m = Inr m'"
  obtains e pj where "map_of recorded (clg_id g) = Some e" and "projectionMatchesDecision plan dec pj"
    and "pj \<in> set (case pjs of None \<Rightarrow> [] | Some ps \<Rightarrow> ps)" and "pj_loopGroupId pj = clg_id g"
    and "me_entries m' = AList.update (clg_id g) (snd (compareProgress p e pj)) (me_entries m)"
    and "\<not> rp_stalled (fst (compareProgress p e pj)) \<Longrightarrow> me_stop m' = me_stop m"
    and "me_stop m \<noteq> None \<Longrightarrow> me_stop m' = me_stop m"
    and "rp_stalled (fst (compareProgress p e pj)) \<Longrightarrow> me_stop m = None \<Longrightarrow>
           \<exists>b. lp_baseline (snd (compareProgress p e pj)) = Some b \<and>
               me_stop m' = Some (stalled_stop dec now g p (snd (compareProgress p e pj)) b)"
proof -
  from assms obtain e where e: "map_of recorded (clg_id g) = Some e"
    by (auto simp: measure_group_def split: option.splits)
  from assms e obtain pj where pj: "(case pjs of None \<Rightarrow> None
            | Some ps \<Rightarrow> find (\<lambda>candidate. pj_loopGroupId candidate = clg_id g) ps) = Some pj"
      "projectionMatchesDecision plan dec pj"
    by (auto simp: measure_group_def split: option.splits if_splits)
  then have mem: "pj \<in> set (case pjs of None \<Rightarrow> [] | Some ps \<Rightarrow> ps)" "pj_loopGroupId pj = clg_id g"
    by (auto split: option.splits dest: find_Some_in)
  obtain rp nx where cmp: "compareProgress p e pj = (rp, nx)" by fastforce
  note m' = assms [unfolded measure_group_def e pj(1) option.case cmp prod.case Let_def]
  show thesis
    by (rule that [OF e pj(2) mem]) (use m' pj(2) cmp in \<open>auto split: if_splits option.splits\<close>)
qed

lemma measure_group_entries:
  assumes "measure_group plan recorded dec pjs now g p m = Inr m'"
  shows "\<exists>v. me_entries m' = AList.update (clg_id g) v (me_entries m)" and "clg_id g \<in> fst ` set recorded"
    and "me_stop m \<noteq> None \<Longrightarrow> me_stop m' = me_stop m"
proof -
  from assms obtain e pj where "map_of recorded (clg_id g) = Some e"
    "me_entries m' = AList.update (clg_id g) (snd (compareProgress p e pj)) (me_entries m)"
    "me_stop m \<noteq> None \<Longrightarrow> me_stop m' = me_stop m"
    by (rule measure_group_Inr) blast
  then show "\<exists>v. me_entries m' = AList.update (clg_id g) v (me_entries m)" and "clg_id g \<in> fst ` set recorded"
    and "me_stop m \<noteq> None \<Longrightarrow> me_stop m' = me_stop m"
    by (auto dest: map_of_SomeD intro: rev_image_eqI)
qed

lemma measure_loop_invariant:
  assumes "measure_loop plan recorded dec pjs now gs m = Inr m'" and "P m"
    and "\<And>g p m m'. g \<in> set gs \<Longrightarrow> clg_progress g = Some p \<Longrightarrow> P m \<Longrightarrow>
           measure_group plan recorded dec pjs now g p m = Inr m' \<Longrightarrow> P m'"
  shows "P m'"
  using assms
proof (induction gs arbitrary: m)
  case (Cons g gs)
  show ?case
  proof (cases "clg_progress g")
    case None
    with Cons.prems(1) show ?thesis by (intro Cons.IH [OF _ Cons.prems(2)]) (auto intro: Cons.prems(3))
  next
    case (Some p)
    with Cons.prems(1) obtain m1 where m1: "measure_group plan recorded dec pjs now g p m = Inr m1"
        "measure_loop plan recorded dec pjs now gs m1 = Inr m'" by (auto simp: result_simps)
    have "P m1" by (rule Cons.prems(3) [OF _ Some Cons.prems(2) m1(1)]) simp
    then show ?thesis by (rule Cons.IH [OF m1(2)]) (auto intro: Cons.prems(3))
  qed
qed simp

text \<open>What measuring establishes for a group it compared, and what a stall it reports rests on.\<close>

definition compared ::
  "(string \<times> loop_progress) list \<Rightarrow> measured \<Rightarrow> compiled_loop_group \<Rightarrow> compiled_progress_policy \<Rightarrow> bool" where
  "compared recorded m g p \<longleftrightarrow>
     (\<exists>e pj. map_of recorded (clg_id g) = Some e \<and>
        map_of (me_entries m) (clg_id g) = Some (snd (compareProgress p e pj)) \<and>
        (rp_stalled (fst (compareProgress p e pj)) \<longrightarrow> me_stop m \<noteq> None))"

definition stall_reason ::
  "(string \<times> loop_progress) list \<Rightarrow> accepted_decision \<Rightarrow> int \<Rightarrow> compiled_loop_group list \<Rightarrow>
   measured \<Rightarrow> progress_stalled_stop \<Rightarrow> bool" where
  "stall_reason recorded dec now gs m x \<longleftrightarrow>
     (\<exists>g \<in> set gs. \<exists>p e pj b. clg_progress g = Some p \<and> map_of recorded (clg_id g) = Some e \<and>
        rp_stalled (fst (compareProgress p e pj)) \<and>
        map_of (me_entries m) (clg_id g) = Some (snd (compareProgress p e pj)) \<and>
        lp_baseline (snd (compareProgress p e pj)) = Some b \<and>
        x = stalled_stop dec now g p (snd (compareProgress p e pj)) b)"

lemma measure_loop_frame:
  assumes "measure_loop plan recorded dec pjs now gs m = Inr m'"
  shows "i \<notin> clg_id ` set gs \<Longrightarrow> map_of (me_entries m') i = map_of (me_entries m) i"
    and "me_stop m \<noteq> None \<Longrightarrow> me_stop m' = me_stop m"
    and "distinct (map fst (me_entries m)) \<Longrightarrow> distinct (map fst (me_entries m'))"
    and "fst ` set recorded \<subseteq> fst ` set (me_entries m) \<Longrightarrow> fst ` set (me_entries m') = fst ` set (me_entries m)"
proof -
  assume i: "i \<notin> clg_id ` set gs"
  show "map_of (me_entries m') i = map_of (me_entries m) i"
  proof (rule measure_loop_invariant [OF assms])
    fix g p n n'
    assume "g \<in> set gs" "map_of (me_entries n) i = map_of (me_entries m) i"
      "measure_group plan recorded dec pjs now g p n = Inr n'"
    moreover from this(1) i have "clg_id g \<noteq> i" by blast
    ultimately show "map_of (me_entries n') i = map_of (me_entries m) i"
      using measure_group_entries(1) by (fastforce simp: update_conv')
  qed simp
next
  assume stop: "me_stop m \<noteq> None"
  show "me_stop m' = me_stop m"
  proof (rule measure_loop_invariant [OF assms])
    fix g p n n'
    assume "me_stop n = me_stop m" "measure_group plan recorded dec pjs now g p n = Inr n'"
    then show "me_stop n' = me_stop m" using measure_group_entries(3) stop by metis
  qed simp
next
  assume d: "distinct (map fst (me_entries m))"
  show "distinct (map fst (me_entries m'))"
  proof (rule measure_loop_invariant [OF assms])
    fix g p n n'
    assume "distinct (map fst (me_entries n))" "measure_group plan recorded dec pjs now g p n = Inr n'"
    then show "distinct (map fst (me_entries n'))"
      using measure_group_entries(1) by (fastforce simp: distinct_update)
  qed (rule d)
next
  assume sub: "fst ` set recorded \<subseteq> fst ` set (me_entries m)"
  show "fst ` set (me_entries m') = fst ` set (me_entries m)"
  proof (rule measure_loop_invariant [OF assms])
    fix g p n n'
    assume n: "fst ` set (me_entries n) = fst ` set (me_entries m)"
      and g: "measure_group plan recorded dec pjs now g p n = Inr n'"
    have "clg_id g \<in> fst ` set (me_entries n)" using measure_group_entries(2) [OF g] sub n by (simp add: subset_iff)
    moreover obtain v where "me_entries n' = AList.update (clg_id g) v (me_entries n)"
      using measure_group_entries(1) [OF g] by blast
    ultimately show "fst ` set (me_entries n') = fst ` set (me_entries m)"
      using n by (simp add: dom_update insert_absorb)
  qed simp
qed

lemma measure_loop_compared:
  assumes "measure_loop plan recorded dec pjs now gs m = Inr m'" and "distinct (map clg_id gs)"
    and "g \<in> set gs" and "clg_progress g = Some p"
  shows "compared recorded m' g p"
  using assms
proof (induction gs arbitrary: m)
  case (Cons h gs)
  show ?case
  proof (cases "g = h")
    case True
    with Cons.prems obtain m1 where m1: "measure_group plan recorded dec pjs now g p m = Inr m1"
        "measure_loop plan recorded dec pjs now gs m1 = Inr m'" by (auto simp: result_simps)
    have "clg_id g \<notin> clg_id ` set gs" using Cons.prems(2) True by auto
    note frame = measure_loop_frame(1) [OF m1(2) this] measure_loop_frame(2) [OF m1(2)]
    from m1(1) obtain e pj where e: "map_of recorded (clg_id g) = Some e"
        "me_entries m1 = AList.update (clg_id g) (snd (compareProgress p e pj)) (me_entries m)"
        "rp_stalled (fst (compareProgress p e pj)) \<Longrightarrow> me_stop m1 \<noteq> None"
      by (rule measure_group_Inr) (metis option.distinct(1))
    show ?thesis
      unfolding compared_def
      by (rule exI [of _ e], rule exI [of _ pj]) (use e frame in \<open>auto simp: update_conv'\<close>)
  next
    case False
    with Cons.prems Cons.IH show ?thesis
      by (cases "clg_progress h") (auto simp: result_simps)
  qed
qed simp

lemma measure_loop_stall:
  assumes "measure_loop plan recorded dec pjs now gs m = Inr m'" and "distinct (map clg_id gs)"
    and "me_stop m' = Some x" and "me_stop m = None"
  shows "stall_reason recorded dec now gs m' x"
  using assms
proof (induction gs arbitrary: m)
  case (Cons h gs)
  have mono: "stall_reason recorded dec now gs m' x \<Longrightarrow> stall_reason recorded dec now (h # gs) m' x"
    by (auto simp: stall_reason_def)
  show ?case
  proof (cases "clg_progress h")
    case None
    with Cons show ?thesis by (intro mono) auto
  next
    case (Some p)
    with Cons.prems obtain m1 where m1: "measure_group plan recorded dec pjs now h p m = Inr m1"
        "measure_loop plan recorded dec pjs now gs m1 = Inr m'" by (auto simp: result_simps)
    show ?thesis
    proof (cases "me_stop m1")
      case None
      with Cons.IH [OF m1(2)] Cons.prems(2,3) show ?thesis by (intro mono) auto
    next
      case stop: (Some y)
      have h: "clg_id h \<notin> clg_id ` set gs" using Cons.prems(2) by auto
      have "x = y" using measure_loop_frame(2) [OF m1(2)] stop Cons.prems(3) by simp
      obtain e pj b where e: "map_of recorded (clg_id h) = Some e" "rp_stalled (fst (compareProgress p e pj))"
          "me_entries m1 = AList.update (clg_id h) (snd (compareProgress p e pj)) (me_entries m)"
          "lp_baseline (snd (compareProgress p e pj)) = Some b"
          "y = stalled_stop dec now h p (snd (compareProgress p e pj)) b"
        using m1(1) by (rule measure_group_Inr) (use stop Cons.prems(4) in fastforce)
      have "map_of (me_entries m') (clg_id h) = Some (snd (compareProgress p e pj))"
        using measure_loop_frame(1) [OF m1(2) h] e(3) by (simp add: update_conv')
      with e Some \<open>x = y\<close> show ?thesis unfolding stall_reason_def by force
    qed
  qed
qed simp

subsection \<open>The cases of an advance\<close>

definition arm_context_of :: "hash_hex \<Rightarrow> advance_input \<Rightarrow> arm_context" where
  "arm_context_of sha inp =
     \<lparr>ac_sha = sha, ac_graphId = cp_graphId (in_plan inp), ac_planRevision = cp_planRevision (in_plan inp),
      ac_now = in_now inp, ac_mint = in_mintCredential inp, ac_identity = in_dispatchIdentity inp\<rparr>"

definition settled_arm :: "advance_input \<Rightarrow> nat \<Rightarrow> arm_state" where
  "settled_arm inp pos =
     \<lparr>as_nodes = (gs_nodes (in_state inp))[pos := settle_entry (gs_nodes (in_state inp) ! pos)
         (dc_outcomeId (in_decision inp)) (in_now inp)],
      as_attemptSeq = gs_attemptSeq (in_state inp), as_dispatches = []\<rparr>"

definition accepted_reader :: "advance_input \<Rightarrow> string \<Rightarrow> accepted_result_reading" where
  "accepted_reader inp = (case in_readAcceptedResult inp of None \<Rightarrow> default_reading | Some f \<Rightarrow> f)"

definition successors_of :: "advance_input \<Rightarrow> compiled_edge list" where
  "successors_of inp = filter (\<lambda>e. ce_from e = dc_nodeId (in_decision inp) \<and>
     ce_outcome e = dc_outcomeId (in_decision inp)) (cp_edges (in_plan inp))"

definition groups_of :: "advance_input \<Rightarrow> compiled_loop_group list" where
  "groups_of inp = continuationGroups (in_plan inp) (dc_nodeId (in_decision inp)) (dc_outcomeId (in_decision inp))"

definition reentry_ok :: "advance_input \<Rightarrow> node_state list \<Rightarrow> string list \<Rightarrow> bool" where
  "reentry_ok inp nodes ids \<longleftrightarrow>
     (\<forall>c \<in> set (candidates_of (in_plan inp) ids). snd c < length nodes \<longrightarrow> ns_status (nodes ! snd c) = Settled \<longrightarrow>
        sharedLoopGroup (in_plan inp) (dc_nodeId (in_decision inp)) (cn_id (fst c)) \<noteq> None)"

lemma decide_pass_no_candidates: "decide_pass plan nodes ra [] arm b = []"
  by (simp add: decide_pass_def assembleAgainst_def routed_candidates_def Let_def)

lemma routed_decisions_Nil [simp]: "routed_decisions plan nodes ra [] = []"
  unfolding routed_decisions_def using decide_loop_pass [of plan nodes ra] decide_pass_no_candidates
  by (metis candidates_of_def empty_iff filter_False list.set(1))

lemma route_candidates_Inr:
  assumes "route_candidates ctx plan dec ra routed s = Inr s'"
  shows "apply_decisions ctx (routed_decisions plan (as_nodes s) ra (js_set (map ce_to routed))) s = Inr s'"
    and "\<forall>c \<in> set (candidates_of plan (js_set (map ce_to routed))). snd c < length (as_nodes s) \<longrightarrow>
           ns_status (as_nodes s ! snd c) = Settled \<longrightarrow> sharedLoopGroup plan (dc_nodeId dec) (cn_id (fst c)) \<noteq> None"
  using assms
  by (auto simp: route_candidates_def Let_def result_simps routed_decisions_def list_all_iff not_le)

lemma route_candidates_Nil [simp]: "route_candidates ctx plan dec ra [] s = Inr s"
proof -
  have "js_set [] = ([] :: string list)" by (simp add: js_set_def)
  moreover have "candidates_of plan [] = []" by (simp add: candidates_of_def)
  ultimately show ?thesis
    using routed_decisions_Nil [of plan "as_nodes s" ra]
    by (simp add: route_candidates_def routed_decisions_def Let_def)
qed

text \<open>The three ways a located attempt is routed: a terminal outcome, an exhausted cap, a round.\<close>

inductive routing_of :: "hash_hex \<Rightarrow> advance_input \<Rightarrow> (string \<times> loop_progress) list \<Rightarrow> nat \<Rightarrow> routing \<Rightarrow> bool"
  for sha inp recorded pos where
  terminal: "is_terminal_outcome (in_plan inp) (dc_nodeId (in_decision inp)) (dc_outcomeId (in_decision inp)) \<Longrightarrow>
    routing_of sha inp recorded pos
      \<lparr>rt_arm = settled_arm inp pos, rt_loopTraversals = gs_loopTraversals (in_state inp),
       rt_loopProgress = recorded, rt_stop = None, rt_reports = []\<rparr>"
| exhausted: "successors_of inp \<noteq> [] \<Longrightarrow>
    count_traversals (groups_of inp) (gs_loopTraversals (in_state inp)) = (counted, Some bound) \<Longrightarrow>
    routing_of sha inp recorded pos
      \<lparr>rt_arm = settled_arm inp pos, rt_loopTraversals = gs_loopTraversals (in_state inp),
       rt_loopProgress = recorded,
       rt_stop = Some (exhausted_stop (in_decision inp) (gs_loopTraversals (in_state inp)) (in_now inp) bound),
       rt_reports = []\<rparr>"
| stalled: "successors_of inp \<noteq> [] \<Longrightarrow>
    count_traversals (groups_of inp) (gs_loopTraversals (in_state inp)) = (counted, None) \<Longrightarrow>
    measureProgress (in_plan inp) (groups_of inp) recorded (in_decision inp) (in_progress inp) (in_now inp) = Inr m \<Longrightarrow>
    me_stop m = Some x \<Longrightarrow>
    routing_of sha inp recorded pos
      \<lparr>rt_arm = settled_arm inp pos, rt_loopTraversals = counted, rt_loopProgress = me_entries m,
       rt_stop = Some (StopProgressStalled x), rt_reports = me_reports m\<rparr>"
| routed: "successors_of inp \<noteq> [] \<Longrightarrow>
    count_traversals (groups_of inp) (gs_loopTraversals (in_state inp)) = (counted, None) \<Longrightarrow>
    measureProgress (in_plan inp) (groups_of inp) recorded (in_decision inp) (in_progress inp) (in_now inp) = Inr m \<Longrightarrow>
    me_stop m = None \<Longrightarrow>
    reentry_ok inp (as_nodes (settled_arm inp pos)) (js_set (map ce_to (successors_of inp))) \<Longrightarrow>
    apply_decisions (arm_context_of sha inp)
      (routed_decisions (in_plan inp) (as_nodes (settled_arm inp pos)) (accepted_reader inp)
        (js_set (map ce_to (successors_of inp)))) (settled_arm inp pos) = Inr arm \<Longrightarrow>
    routing_of sha inp recorded pos
      \<lparr>rt_arm = arm, rt_loopTraversals = counted, rt_loopProgress = me_entries m, rt_stop = None,
       rt_reports = me_reports m\<rparr>"

lemma findIndex_Some:
  "findIndex P xs = Some i \<longleftrightarrow> i < length xs \<and> P (xs ! i) \<and> (\<forall>j < i. \<not> P (xs ! j))"
proof -
  have "findIndex P xs = Some i \<longleftrightarrow> (\<exists>p. find (\<lambda>(i, x). P x) (zip [0..<length xs] xs) = Some p \<and> fst p = i)"
    by (auto simp: findIndex_def)
  also have "\<dots> \<longleftrightarrow> i < length xs \<and> P (xs ! i) \<and> (\<forall>j < i. \<not> P (xs ! j))"
    (is "?l \<longleftrightarrow> ?r")
  proof
    assume ?r
    then show ?l
      by (intro exI [of _ "(i, xs ! i)"]) (auto simp: find_Some_iff intro!: exI [of _ i])
  qed (auto simp: find_Some_iff)
  finally show ?thesis .
qed

lemma locate_attempt_Inr:
  assumes "locate_attempt plan st dec = Inr (pos, cur)"
  shows "pos < length (cp_nodes plan)" "cn_id (cp_nodes plan ! pos) = dc_nodeId dec"
    "pos < length (gs_nodes st)" "cur = gs_nodes st ! pos" "ns_nodeId cur = dc_nodeId dec"
    "ns_status cur = Dispatched" "ns_attemptId cur = dc_attemptId dec"
  using assms
  by (auto simp: locate_attempt_def Let_def findIndex_Some split: option.splits if_splits intro: node_status.exhaust)

lemma route_outcome_routing:
  assumes "\<not> is_terminal_outcome (in_plan inp) (dc_nodeId (in_decision inp)) (dc_outcomeId (in_decision inp))"
    and "route_outcome (arm_context_of sha inp) inp recorded (settled_arm inp pos) = Inr r"
  shows "routing_of sha inp recorded pos r"
proof -
  let ?ctx = "arm_context_of sha inp" and ?s = "settled_arm inp pos"
  obtain counted bound where cnt: "count_traversals (groups_of inp) (gs_loopTraversals (in_state inp)) = (counted, bound)"
    by fastforce
  note route = assms(2) [unfolded route_outcome_def Let_def, folded successors_of_def groups_of_def accepted_reader_def]
  from route have succ: "successors_of inp \<noteq> []" by (auto split: if_splits)
  show ?thesis
  proof (cases bound)
    case (Some g)
    with route succ cnt have "r = \<lparr>rt_arm = ?s, rt_loopTraversals = gs_loopTraversals (in_state inp),
       rt_loopProgress = recorded,
       rt_stop = Some (exhausted_stop (in_decision inp) (gs_loopTraversals (in_state inp)) (in_now inp) g),
       rt_reports = []\<rparr>" by simp
    with succ cnt Some show ?thesis by (simp add: routing_of.exhausted)
  next
    case None
    with route succ cnt obtain m arm where
      m: "measureProgress (in_plan inp) (groups_of inp) recorded (in_decision inp) (in_progress inp) (in_now inp) = Inr m"
      and arm: "route_candidates ?ctx (in_plan inp) (in_decision inp) (accepted_reader inp)
                  (if me_stop m = None then successors_of inp else []) ?s = Inr arm"
      and r: "r = \<lparr>rt_arm = arm, rt_loopTraversals = counted, rt_loopProgress = me_entries m,
                rt_stop = map_option StopProgressStalled (me_stop m), rt_reports = me_reports m\<rparr>"
      by (auto simp: rbind_eq_Inr)
    show ?thesis
    proof (cases "me_stop m")
      case None
      with arm have "route_candidates ?ctx (in_plan inp) (in_decision inp) (accepted_reader inp) (successors_of inp) ?s = Inr arm"
        by simp
      note rc = route_candidates_Inr [OF this]
      then have "reentry_ok inp (as_nodes ?s) (js_set (map ce_to (successors_of inp)))"
        by (simp add: reentry_ok_def)
      with routing_of.routed [OF succ cnt [unfolded \<open>bound = None\<close>] m None _ rc(1)] r None show ?thesis by simp
    next
      case (Some x)
      with arm have "arm = ?s" by simp
      with r Some routing_of.stalled [OF succ cnt [unfolded \<open>bound = None\<close>] m Some, of sha pos] show ?thesis by simp
    qed
  qed
qed

lemma advance_cases:
  assumes "advanceOutcomeGraph sha inp = Inr a"
  obtains pos recorded r where
    "gs_bodyVersion (in_state inp) = CURRENT_OUTCOME_STATE_BODY"
    "gs_loopProgress (in_state inp) = Some recorded" "gs_stop (in_state inp) = None"
    "pos < length (cp_nodes (in_plan inp))" "cn_id (cp_nodes (in_plan inp) ! pos) = dc_nodeId (in_decision inp)"
    "pos < length (gs_nodes (in_state inp))" "ns_nodeId (gs_nodes (in_state inp) ! pos) = dc_nodeId (in_decision inp)"
    "ns_status (gs_nodes (in_state inp) ! pos) = Dispatched"
    "ns_attemptId (gs_nodes (in_state inp) ! pos) = dc_attemptId (in_decision inp)"
    "routing_of sha inp recorded pos r"
    "a = conclude (in_plan inp) (in_state inp) (in_now inp) r"
proof -
  note adv = assms [unfolded advanceOutcomeGraph_def Let_def, folded arm_context_of_def]
  from adv have v: "gs_bodyVersion (in_state inp) = CURRENT_OUTCOME_STATE_BODY"
    by (auto simp: ADVANCEABLE_STATE_BODY_VERSIONS_def split: if_splits)
  from adv obtain recorded where rec: "gs_loopProgress (in_state inp) = Some recorded"
    by (auto split: if_splits option.splits)
  from adv rec have st: "gs_stop (in_state inp) = None" by (auto split: if_splits)
  from adv rec st v obtain pos cur where loc: "locate_attempt (in_plan inp) (in_state inp) (in_decision inp) = Inr (pos, cur)"
    by (auto simp: rbind_eq_Inr split: if_splits)
  note l = locate_attempt_Inr [OF loc]
  have sa: "\<lparr>as_nodes = (gs_nodes (in_state inp))[pos := settle_entry cur (dc_outcomeId (in_decision inp)) (in_now inp)],
      as_attemptSeq = gs_attemptSeq (in_state inp), as_dispatches = []\<rparr> = settled_arm inp pos"
    by (simp add: settled_arm_def l(4))
  from adv rec st v loc obtain r where
    r: "(if is_terminal_outcome (in_plan inp) (dc_nodeId (in_decision inp)) (dc_outcomeId (in_decision inp))
        then Inr \<lparr>rt_arm = settled_arm inp pos, rt_loopTraversals = gs_loopTraversals (in_state inp),
                  rt_loopProgress = recorded, rt_stop = None, rt_reports = []\<rparr>
        else route_outcome (arm_context_of sha inp) inp recorded (settled_arm inp pos)) = Inr r"
    and a: "a = conclude (in_plan inp) (in_state inp) (in_now inp) r"
    by (auto simp: rbind_eq_Inr sa ADVANCEABLE_STATE_BODY_VERSIONS_def split: if_splits)
  have "routing_of sha inp recorded pos r"
  proof (cases "is_terminal_outcome (in_plan inp) (dc_nodeId (in_decision inp)) (dc_outcomeId (in_decision inp))")
    case True
    with r routing_of.terminal [OF True] show ?thesis by auto
  next
    case False
    with r show ?thesis by (intro route_outcome_routing) simp_all
  qed
  with that v rec st l a show thesis by simp
qed

text \<open>Whatever the case, the arm state is the settled one after some decisions.\<close>

lemma routing_arm:
  assumes "routing_of sha inp recorded pos r"
  obtains ids where "apply_decisions (arm_context_of sha inp)
      (routed_decisions (in_plan inp) (as_nodes (settled_arm inp pos)) (accepted_reader inp) ids)
      (settled_arm inp pos) = Inr (rt_arm r)"
    and "rt_stop r \<noteq> None \<Longrightarrow> ids = []" and "set ids \<subseteq> ce_to ` set (successors_of inp)"
    and "ids \<noteq> [] \<Longrightarrow> reentry_ok inp (as_nodes (settled_arm inp pos)) ids"
proof -
  have "\<exists>ids. apply_decisions (arm_context_of sha inp)
      (routed_decisions (in_plan inp) (as_nodes (settled_arm inp pos)) (accepted_reader inp) ids)
      (settled_arm inp pos) = Inr (rt_arm r) \<and> (rt_stop r \<noteq> None \<longrightarrow> ids = []) \<and>
      set ids \<subseteq> ce_to ` set (successors_of inp) \<and>
      (ids \<noteq> [] \<longrightarrow> reentry_ok inp (as_nodes (settled_arm inp pos)) ids)"
    using assms
  proof cases
    case (routed counted m arm)
    then show ?thesis by (intro exI [of _ "js_set (map ce_to (successors_of inp))"]) simp
  qed (rule exI [of _ "[]"], simp)+
  with that show thesis by blast
qed

end
