(* ===== verification/RunInvariant.thy ===== *)
theory RunInvariant
  imports ReducerFacts RunStart
begin

text \<open>
  The runs of a plan and the invariant every state of a run satisfies.

  A run starts with \<open>startRun\<close> and continues with accepted decisions applied by
  \<open>advanceOutcomeGraph\<close>; \<open>run_of\<close> is the set of states this reaches, for any credential source, any
  reads, any decisions and any clock. \<open>run_inv\<close> collects what holds of all of them: entries aligned
  with the plan, canonical arrivals, well-numbered attempts, counters under their caps, progress
  entries under their thresholds, a corroborated stop and the phase the entries determine.
\<close>

subsection \<open>Attempts\<close>

definition attempts_ok :: "node_state list \<Rightarrow> nat \<Rightarrow> bool" where
  "attempts_ok nodes seq \<longleftrightarrow>
     (\<forall>e \<in> set nodes. ns_status e \<noteq> Pending \<longrightarrow>
        ns_attemptId e = attempt_id (ns_nodeId e) (ns_attemptSeq e) \<and>
        0 < ns_attemptSeq e \<and> ns_attemptSeq e \<le> seq)"

definition seqs_distinct :: "node_state list \<Rightarrow> bool" where
  "seqs_distinct nodes \<longleftrightarrow>
     (\<forall>i < length nodes. \<forall>j < length nodes. ns_status (nodes ! i) \<noteq> Pending \<longrightarrow> ns_status (nodes ! j) \<noteq> Pending \<longrightarrow>
        ns_attemptSeq (nodes ! i) = ns_attemptSeq (nodes ! j) \<longrightarrow> i = j)"

definition same_attempt :: "node_state \<Rightarrow> node_state \<Rightarrow> bool" where
  "same_attempt e e' \<longleftrightarrow>
     ns_nodeId e' = ns_nodeId e \<and> (ns_status e' = Pending \<longleftrightarrow> ns_status e = Pending) \<and>
     (ns_status e \<noteq> Pending \<longrightarrow> ns_attemptId e' = ns_attemptId e \<and> ns_attemptSeq e' = ns_attemptSeq e)"

lemma same_attempt_simps [simp]:
  "same_attempt e e" "same_attempt e (with_arrivals as e)" "same_attempt e (with_inputRefusals rs e)"
  "ns_status e = Dispatched \<Longrightarrow> same_attempt e (settle_entry e oc t)"
  by (auto simp: same_attempt_def settle_entry_def)

definition arm_inv :: "compiled_plan \<Rightarrow> arm_state \<Rightarrow> bool" where
  "arm_inv plan s \<longleftrightarrow>
     map ns_nodeId (as_nodes s) = node_ids plan \<and> attempts_ok (as_nodes s) (as_attemptSeq s) \<and>
     seqs_distinct (as_nodes s)"

lemma nodes_same_attempt:
  assumes "length ns' = length ns" and "\<And>i. i < length ns \<Longrightarrow> same_attempt (ns ! i) (ns' ! i)"
  shows "map ns_nodeId ns' = map ns_nodeId ns" and "attempts_ok ns seq \<Longrightarrow> attempts_ok ns' seq"
    and "seqs_distinct ns \<Longrightarrow> seqs_distinct ns'"
proof -
  note same = assms(2) [unfolded same_attempt_def]
  show "map ns_nodeId ns' = map ns_nodeId ns"
    using assms(1) same by (auto intro: nth_equalityI)
  show "attempts_ok ns seq \<Longrightarrow> attempts_ok ns' seq"
    using assms(1) same unfolding attempts_ok_def all_set_conv_all_nth by (metis (no_types, lifting))
  show "seqs_distinct ns \<Longrightarrow> seqs_distinct ns'"
    using assms(1) same unfolding seqs_distinct_def by (metis (no_types, lifting))
qed

lemma update_same_attempt:
  assumes "same_attempt (ns ! i) e'"
  shows "map ns_nodeId (ns[i := e']) = map ns_nodeId ns" and "attempts_ok ns seq \<Longrightarrow> attempts_ok (ns[i := e']) seq"
    and "seqs_distinct ns \<Longrightarrow> seqs_distinct (ns[i := e'])"
proof -
  have "j < length ns \<Longrightarrow> same_attempt (ns ! j) (ns[i := e'] ! j)" for j
    using assms by (cases "j = i") simp_all
  note nodes_same_attempt [of "ns[i := e']" ns, OF _ this]
  then show "map ns_nodeId (ns[i := e']) = map ns_nodeId ns" and "attempts_ok ns seq \<Longrightarrow> attempts_ok (ns[i := e']) seq"
    and "seqs_distinct ns \<Longrightarrow> seqs_distinct (ns[i := e'])"
    by simp_all
qed

lemma arm_inv_refusals: "arm_inv plan s \<Longrightarrow> arm_inv plan (record_refusals c rs s)"
  unfolding arm_inv_def record_refusals_nodes
  using update_same_attempt [of "as_nodes s" "snd c" "with_inputRefusals rs (as_nodes s ! snd c)"] by simp

lemma arm_inv_dispatch:
  assumes "arm_inv plan s" and "dispatch_candidate ctx c es s = Inr s'"
    and "snd c < length (cp_nodes plan)" and "fst c = cp_nodes plan ! snd c"
  shows "arm_inv plan s'"
proof -
  let ?seq = "Suc (as_attemptSeq s)"
  from assms(2) obtain cred where s':
    "as_nodes s' = (as_nodes s)[snd c :=
       DispatchedNode (cn_id (fst c)) (attempt_id (cn_id (fst c)) ?seq) ?seq
         (attemptCredentialDigest (ac_sha ctx) cred) (ac_identity ctx) (ac_now ctx) [] (Some es) None]"
    "as_attemptSeq s' = ?seq"
    by (rule dispatch_candidate_Inr) blast
  have ids: "map ns_nodeId (as_nodes s) = node_ids plan" and att: "attempts_ok (as_nodes s) (as_attemptSeq s)"
    and d: "seqs_distinct (as_nodes s)" using assms(1) by (auto simp: arm_inv_def)
  have "map ns_nodeId (as_nodes s') = node_ids plan"
    using assms(3,4) ids unfolding s' map_update by (metis list_update_id node_state.sel(2) nth_map)
  moreover have "attempts_ok (as_nodes s') ?seq"
    using att unfolding s' attempts_ok_def by (auto dest!: set_update_subset_insert [THEN subsetD])
  moreover have "seqs_distinct (as_nodes s')"
    unfolding seqs_distinct_def
  proof (intro allI impI)
    have old: "ns_attemptSeq (as_nodes s ! k) \<noteq> ?seq"
      if "k < length (as_nodes s)" "ns_status (as_nodes s ! k) \<noteq> Pending" for k
      using att that nth_mem by (fastforce simp: attempts_ok_def)
    have len: "length (as_nodes s') = length (as_nodes s)" by (simp add: s')
    have at: "k \<noteq> snd c \<Longrightarrow> as_nodes s' ! k = as_nodes s ! k"
      "snd c < length (as_nodes s) \<Longrightarrow> ns_attemptSeq (as_nodes s' ! snd c) = ?seq" for k
      by (simp_all add: s')
    fix i j
    assume "i < length (as_nodes s')" "j < length (as_nodes s')" "ns_status (as_nodes s' ! i) \<noteq> Pending"
      "ns_status (as_nodes s' ! j) \<noteq> Pending" "ns_attemptSeq (as_nodes s' ! i) = ns_attemptSeq (as_nodes s' ! j)"
    then show "i = j"
      using d old at unfolding len seqs_distinct_def by (cases "i = snd c"; cases "j = snd c") fastforce+
  qed
  ultimately show ?thesis using s'(2) by (simp add: arm_inv_def)
qed

text \<open>A node that has been attempted never goes back to pending.\<close>

lemma apply_decisions_attempted:
  assumes "apply_decisions ctx ds s = Inr s'" and "i < length (as_nodes s)" and "ns_status (as_nodes s ! i) \<noteq> Pending"
  shows "ns_status (as_nodes s' ! i) \<noteq> Pending"
proof -
  have "length (as_nodes s') = length (as_nodes s) \<and> ns_status (as_nodes s' ! i) \<noteq> Pending"
  proof (rule apply_decisions_invariant [OF assms(1)])
    fix c rs and t :: arm_state
    assume "length (as_nodes t) = length (as_nodes s) \<and> ns_status (as_nodes t ! i) \<noteq> Pending"
    then show "length (as_nodes (record_refusals c rs t)) = length (as_nodes s) \<and>
        ns_status (as_nodes (record_refusals c rs t) ! i) \<noteq> Pending"
      using assms(2) by (auto simp: record_refusals_nodes nth_list_update)
  next
    fix c es and t t' :: arm_state
    assume "length (as_nodes t) = length (as_nodes s) \<and> ns_status (as_nodes t ! i) \<noteq> Pending"
      "dispatch_candidate ctx c es t = Inr t'"
    then show "length (as_nodes t') = length (as_nodes s) \<and> ns_status (as_nodes t' ! i) \<noteq> Pending"
      using assms(2) by (elim dispatch_candidate_Inr; cases "snd c = i") auto
  qed (use assms in simp)
  then show ?thesis ..
qed

subsection \<open>Canonical arrivals\<close>

lemma entry_of_map:
  assumes "\<And>e. ns_nodeId (f e) = ns_nodeId e"
  shows "entry_of (map f nodes) i = map_option f (entry_of nodes i)"
proof -
  have "map_of (map (\<lambda>e. (ns_nodeId e, e)) (map f ns)) i = map_option f (map_of (map (\<lambda>e. (ns_nodeId e, e)) ns) i)" for ns
    using assms by (induction ns) auto
  then show ?thesis by (simp add: entry_of_def rev_map del: map_map)
qed

lemma settled_result_with_arrivals [simp]: "settled_result (with_arrivals as e) = settled_result e"
  by (cases e) simp_all

lemma arrival_from_canonicalise: "arrival_from plan (canonicalise plan nodes) held t = arrival_from plan nodes held t"
proof (rule ext)
  fix n
  have "Option.bind (entry_of (canonicalise plan nodes) i) settled_result = Option.bind (entry_of nodes i) settled_result" for i
    unfolding canonicalise_def Let_def by (subst entry_of_map) (auto simp: map_option_case split: option.split)
  then show "arrival_from plan (canonicalise plan nodes) held t n = arrival_from plan nodes held t n"
    by (simp add: arrival_from_def)
qed

lemma canonicalise_arrivals:
  assumes "distinct (node_ids plan)" and "e \<in> set (canonicalise plan nodes)" and "ns_nodeId e \<in> set (node_ids plan)"
  shows "ns_arrivals e = arrivals_to plan (canonicalise plan nodes) [] (ns_nodeId e)"
proof -
  have "arrivals_to plan (canonicalise plan nodes) [] (ns_nodeId e) = arrivals_to plan nodes [] (ns_nodeId e)"
    by (simp add: materializeArrivals_closed [OF assms(1,3)] arrival_from_canonicalise)
  moreover have "ns_arrivals e = arrivals_to plan nodes [] (ns_nodeId e)"
    using assms(2) by (auto simp: canonicalise_def Let_def)
  ultimately show ?thesis by simp
qed

lemma canonicalise_nth:
  "i < length nodes \<Longrightarrow> \<exists>as. canonicalise plan nodes ! i = with_arrivals as (nodes ! i)"
  by (auto simp: canonicalise_def Let_def)

lemma length_canonicalise [simp]: "length (canonicalise plan nodes) = length nodes"
  by (simp add: canonicalise_def Let_def)

lemma canonicalise_same_attempt:
  "map ns_nodeId (canonicalise plan nodes) = map ns_nodeId nodes"
  "attempts_ok nodes seq \<Longrightarrow> attempts_ok (canonicalise plan nodes) seq"
  "seqs_distinct nodes \<Longrightarrow> seqs_distinct (canonicalise plan nodes)"
proof -
  have "i < length nodes \<Longrightarrow> same_attempt (nodes ! i) (canonicalise plan nodes ! i)" for i
    using canonicalise_nth [of i nodes plan] by auto
  note nodes_same_attempt [of "canonicalise plan nodes" nodes, OF _ this]
  then show "map ns_nodeId (canonicalise plan nodes) = map ns_nodeId nodes"
    "attempts_ok nodes seq \<Longrightarrow> attempts_ok (canonicalise plan nodes) seq"
    "seqs_distinct nodes \<Longrightarrow> seqs_distinct (canonicalise plan nodes)"
    by simp_all
qed

subsection \<open>The invariant\<close>

definition counters_ok :: "compiled_plan \<Rightarrow> (string \<times> nat) list \<Rightarrow> bool" where
  "counters_ok plan al \<longleftrightarrow>
     distinct (map fst al) \<and> fst ` set al \<subseteq> clg_id ` set (cp_loopGroups plan) \<and>
     (\<forall>g \<in> set (cp_loopGroups plan). traversals_of al (clg_id g) \<le> clg_maxTraversals g)"

fun is_stall :: "outcome_stop option \<Rightarrow> bool" where
  "is_stall (Some (StopProgressStalled _)) = True"
| "is_stall _ = False"

definition entry_ok :: "bool \<Rightarrow> compiled_loop_group \<Rightarrow> compiled_progress_policy \<Rightarrow> loop_progress \<Rightarrow> bool" where
  "entry_ok stalled g p e \<longleftrightarrow>
     lp_loopGroupId e = clg_id g \<and> lp_evaluator e = cpp_evaluator p \<and> lp_version e = cpp_version p \<and>
     lp_subject e = cpp_subject p \<and> lp_unchanged e \<le> cpp_maxUnchanged p \<and>
     (\<not> stalled \<longrightarrow> lp_unchanged e < cpp_maxUnchanged p)"

definition progress_ok :: "compiled_plan \<Rightarrow> bool \<Rightarrow> (string \<times> loop_progress) list \<Rightarrow> bool" where
  "progress_ok plan stalled lp \<longleftrightarrow>
     distinct (map fst lp) \<and> fst ` set lp = clg_id ` {g \<in> set (cp_loopGroups plan). clg_progress g \<noteq> None} \<and>
     (\<forall>g \<in> set (cp_loopGroups plan). \<forall>p. clg_progress g = Some p \<longrightarrow>
        (\<exists>e. map_of lp (clg_id g) = Some e \<and> entry_ok stalled g p e))"

definition entries_started :: "compiled_plan \<Rightarrow> node_state list \<Rightarrow> bool" where
  "entries_started plan nodes \<longleftrightarrow>
     (\<forall>e \<in> set nodes. feederSourcesOf plan (ns_nodeId e) = [] \<longrightarrow> ns_status e \<noteq> Pending)"

definition settled_as :: "node_state list \<Rightarrow> string \<Rightarrow> string \<Rightarrow> string \<Rightarrow> bool" where
  "settled_as nodes i oc a \<longleftrightarrow> (\<exists>e \<in> set nodes. ns_nodeId e = i \<and> settled_result e = Some (oc, a))"

definition exhausted_ok :: "compiled_plan \<Rightarrow> graph_state \<Rightarrow> loop_exhausted_stop \<Rightarrow> bool" where
  "exhausted_ok plan st x \<longleftrightarrow>
     (\<exists>g \<in> set (cp_loopGroups plan). clg_id g = le_loopGroupId x \<and> clg_maxTraversals g = le_maxTraversals x \<and>
        le_nodeId x \<in> set (clg_nodes g) \<and> clg_continuationOutcome g = le_outcomeId x) \<and>
     settled_as (gs_nodes st) (le_nodeId x) (le_outcomeId x) (le_attemptId x) \<and>
     traversals_of (gs_loopTraversals st) (le_loopGroupId x) = le_traversals x \<and>
     le_traversals x = le_maxTraversals x"

definition stalled_ok :: "compiled_plan \<Rightarrow> graph_state \<Rightarrow> progress_stalled_stop \<Rightarrow> bool" where
  "stalled_ok plan st x \<longleftrightarrow>
     (\<exists>g \<in> set (cp_loopGroups plan). \<exists>p e. clg_id g = ps_loopGroupId x \<and> clg_progress g = Some p \<and>
        cpp_maxUnchanged p = ps_maxUnchanged x \<and> cpp_evaluator p = ps_evaluator x \<and> cpp_subject p = ps_subject x \<and>
        ps_nodeId x \<in> set (clg_nodes g) \<and> clg_continuationOutcome g = ps_outcomeId x \<and>
        map_of (the (gs_loopProgress st)) (clg_id g) = Some e \<and>
        lp_evaluator e = ps_evaluator x \<and> lp_version e = ps_evaluatorVersion x \<and> lp_subject e = ps_subject x \<and>
        lp_unchanged e = ps_unchanged x \<and> lp_baseline e = Some (ps_baseline x)) \<and>
     settled_as (gs_nodes st) (ps_nodeId x) (ps_outcomeId x) (ps_attemptId x) \<and>
     ps_unchanged x = ps_maxUnchanged x"

definition unreachable_ok :: "compiled_plan \<Rightarrow> graph_state \<Rightarrow> unreachable_pending_stop \<Rightarrow> bool" where
  "unreachable_ok plan st x \<longleftrightarrow>
     up_blockedNodes x = unsatisfiablePendingNodes plan (gs_nodes st) \<and> up_blockedNodes x \<noteq> [] \<and>
     \<not> some_dispatched (gs_nodes st)"

definition stop_ok :: "compiled_plan \<Rightarrow> graph_state \<Rightarrow> bool" where
  "stop_ok plan st \<longleftrightarrow>
     (case gs_stop st of
        None \<Rightarrow> True
      | Some (StopLoopExhausted x) \<Rightarrow> exhausted_ok plan st x
      | Some (StopProgressStalled x) \<Rightarrow> stalled_ok plan st x
      | Some (StopUnreachable x) \<Rightarrow> unreachable_ok plan st x)"

definition run_inv :: "compiled_plan \<Rightarrow> graph_state \<Rightarrow> bool" where
  "run_inv plan st \<longleftrightarrow>
     gs_bodyVersion st = CURRENT_OUTCOME_STATE_BODY \<and> gs_graphId st = cp_graphId plan \<and>
     gs_planRevision st = cp_planRevision plan \<and>
     map ns_nodeId (gs_nodes st) = node_ids plan \<and>
     (\<forall>e \<in> set (gs_nodes st). ns_arrivals e = arrivals_to plan (gs_nodes st) [] (ns_nodeId e)) \<and>
     attempts_ok (gs_nodes st) (gs_attemptSeq st) \<and> seqs_distinct (gs_nodes st) \<and>
     counters_ok plan (gs_loopTraversals st) \<and>
     gs_loopProgress st \<noteq> None \<and> progress_ok plan (is_stall (gs_stop st)) (the (gs_loopProgress st)) \<and>
     entries_started plan (gs_nodes st) \<and>
     gs_phase st = phase_of (gs_nodes st) (gs_stop st) \<and>
     (gs_stop st = None \<longrightarrow> some_dispatched (gs_nodes st) \<or> settledEverywhere (gs_nodes st)) \<and>
     stop_ok plan st"

lemmas run_inv_parts = run_inv_def [THEN iffD1]

subsection \<open>The arm state of an advance\<close>

lemma settled_arm_inv:
  assumes "run_inv plan st" and "in_state inp = st" and "pos < length (gs_nodes st)"
    and "ns_status (gs_nodes st ! pos) = Dispatched"
  shows "arm_inv plan (settled_arm inp pos)"
proof -
  have "same_attempt (gs_nodes st ! pos) (settle_entry (gs_nodes st ! pos) (dc_outcomeId (in_decision inp)) (in_now inp))"
    using assms(4) by simp
  note update_same_attempt [OF this]
  then show ?thesis
    using run_inv_parts [OF assms(1)] by (simp add: arm_inv_def settled_arm_def assms(2))
qed

lemma routing_arm_inv:
  assumes "distinct (node_ids plan)" and "in_plan inp = plan" and "arm_inv plan (settled_arm inp pos)"
    and "routing_of sha inp recorded pos r"
  shows "arm_inv plan (rt_arm r)"
proof -
  from assms(4) obtain ids where ap: "apply_decisions (arm_context_of sha inp)
      (routed_decisions (in_plan inp) (as_nodes (settled_arm inp pos)) (accepted_reader inp) ids)
      (settled_arm inp pos) = Inr (rt_arm r)" by (rule routing_arm)
  show ?thesis
  proof (rule apply_decisions_invariant [OF ap])
    fix c es s s'
    assume "(c, InputResolved es) \<in> set (routed_decisions (in_plan inp) (as_nodes (settled_arm inp pos)) (accepted_reader inp) ids)"
      and "arm_inv plan s" "dispatch_candidate (arm_context_of sha inp) c es s = Inr s'"
    then show "arm_inv plan s'"
      using routed_decision(1,2) [OF assms(1)] arm_inv_dispatch unfolding assms(2) by metis
  qed (use assms(3) arm_inv_refusals in auto)
qed

lemma routing_attempted:
  assumes "routing_of sha inp recorded pos r" and "i < length (gs_nodes (in_state inp))"
    and "ns_status (gs_nodes (in_state inp) ! i) \<noteq> Pending"
  shows "ns_status (as_nodes (rt_arm r) ! i) \<noteq> Pending"
    and "length (as_nodes (rt_arm r)) = length (gs_nodes (in_state inp))"
proof -
  from assms(1) obtain ids where ap: "apply_decisions (arm_context_of sha inp)
      (routed_decisions (in_plan inp) (as_nodes (settled_arm inp pos)) (accepted_reader inp) ids)
      (settled_arm inp pos) = Inr (rt_arm r)" by (rule routing_arm)
  have "ns_status (as_nodes (settled_arm inp pos) ! i) \<noteq> Pending"
    using assms(2,3) by (cases "i = pos") (simp_all add: settled_arm_def settle_entry_def)
  with apply_decisions_attempted [OF ap] assms(2) show "ns_status (as_nodes (rt_arm r) ! i) \<noteq> Pending"
    by (simp add: settled_arm_def)
  show "length (as_nodes (rt_arm r)) = length (gs_nodes (in_state inp))"
    using apply_decisions_length [OF ap] by (simp add: settled_arm_def)
qed

lemma routing_stop_arm:
  assumes "routing_of sha inp recorded pos r" and "rt_stop r \<noteq> None"
  shows "rt_arm r = settled_arm inp pos"
  using assms by cases auto

subsection \<open>Counters and progress of an advance\<close>

lemma groups_of_sub: "set (groups_of inp) \<subseteq> set (cp_loopGroups (in_plan inp))"
  by (auto simp: groups_of_def continuationGroups_def)

lemma groups_of_distinct: "wf_plan (in_plan inp) \<Longrightarrow> distinct (map clg_id (groups_of inp))"
  unfolding groups_of_def continuationGroups_def by (simp add: distinct_map_filter wf_plan_groups_distinct)

lemma group_by_id:
  "wf_plan plan \<Longrightarrow> g \<in> set (cp_loopGroups plan) \<Longrightarrow> h \<in> set (cp_loopGroups plan) \<Longrightarrow> clg_id g = clg_id h \<Longrightarrow> g = h"
  using wf_plan_groups_distinct [of plan] by (auto simp: distinct_map inj_on_def)

lemma routing_counters:
  assumes "routing_of sha inp recorded pos r" and "wf_plan (in_plan inp)"
    and "counters_ok (in_plan inp) (gs_loopTraversals (in_state inp))"
  shows "counters_ok (in_plan inp) (rt_loopTraversals r)"
proof -
  have counted: "counters_ok (in_plan inp) al"
    if "count_traversals (groups_of inp) (gs_loopTraversals (in_state inp)) = (al, None)" for al
  proof -
    note c = count_traversals_None [OF that groups_of_distinct [OF assms(2)]]
    have "traversals_of al (clg_id g) \<le> clg_maxTraversals g" if g: "g \<in> set (cp_loopGroups (in_plan inp))" for g
    proof (cases "clg_id g \<in> clg_id ` set (groups_of inp)")
      case True
      then have "g \<in> set (groups_of inp)" using g group_by_id [OF assms(2)] groups_of_sub by blast
      with c show ?thesis by auto
    next
      case False
      with c assms(3) g show ?thesis by (auto simp: counters_ok_def)
    qed
    with c assms(3) groups_of_sub [of inp] show ?thesis by (auto simp: counters_ok_def)
  qed
  from assms(1) show ?thesis by cases (use assms(3) counted in auto)
qed

lemma compared_entry_ok:
  assumes "compared recorded m g p" and "map_of recorded (clg_id g) = Some e0" and "entry_ok False g p e0"
    and "0 < cpp_maxUnchanged p"
  shows "\<exists>e. map_of (me_entries m) (clg_id g) = Some e \<and> entry_ok (me_stop m \<noteq> None) g p e"
proof -
  from assms(1,2) obtain pj where pj: "map_of (me_entries m) (clg_id g) = Some (snd (compareProgress p e0 pj))"
      "rp_stalled (fst (compareProgress p e0 pj)) \<Longrightarrow> me_stop m \<noteq> None"
    by (auto simp: compared_def)
  have "lp_unchanged (snd (compareProgress p e0 pj)) \<le> Suc (lp_unchanged e0)"
    by (rule compareProgress_unchanged_le)
  moreover have "me_stop m = None \<Longrightarrow> lp_unchanged (snd (compareProgress p e0 pj)) < cpp_maxUnchanged p"
    using pj(2) compareProgress_not_stalled [OF _ assms(4)] by blast
  ultimately have "entry_ok (me_stop m \<noteq> None) g p (snd (compareProgress p e0 pj))"
    using assms(3) by (auto simp: entry_ok_def)
  with pj(1) show ?thesis by blast
qed

lemma measured_progress_ok:
  assumes "wf_plan (in_plan inp)" and "progress_ok (in_plan inp) False recorded"
    and "measureProgress (in_plan inp) (groups_of inp) recorded (in_decision inp) (in_progress inp) (in_now inp) = Inr m"
  shows "progress_ok (in_plan inp) (me_stop m \<noteq> None) (me_entries m)"
proof -
  note ml = assms(3) [unfolded measureProgress_def]
  note frame = measure_loop_frame [OF ml]
  have each: "\<exists>e. map_of (me_entries m) (clg_id g) = Some e \<and> entry_ok (me_stop m \<noteq> None) g p e"
    if g: "g \<in> set (cp_loopGroups (in_plan inp))" "clg_progress g = Some p" for g p
  proof -
    from assms(2) g obtain e0 where e0: "map_of recorded (clg_id g) = Some e0" "entry_ok False g p e0"
      unfolding progress_ok_def by blast
    show ?thesis
    proof (cases "clg_id g \<in> clg_id ` set (groups_of inp)")
      case True
      then have mem: "g \<in> set (groups_of inp)" using g(1) group_by_id [OF assms(1)] groups_of_sub by blast
      have "0 < cpp_maxUnchanged p"
        using wf_plan_group [OF assms(1) g(1)] g(2) by (simp add: wf_group_def wf_policy_def)
      then show ?thesis
        using measure_loop_compared [OF ml groups_of_distinct [OF assms(1)] mem g(2)] e0 compared_entry_ok by blast
    next
      case False
      with frame(1) e0 show ?thesis by (auto simp: entry_ok_def)
    qed
  qed
  have "distinct (map fst (me_entries m))" "fst ` set (me_entries m) = fst ` set recorded"
    using frame(3,4) assms(2) by (auto simp: progress_ok_def)
  with each assms(2) show ?thesis by (simp add: progress_ok_def)
qed

lemma routing_progress:
  assumes "routing_of sha inp recorded pos r" and "wf_plan (in_plan inp)" and "progress_ok (in_plan inp) False recorded"
  shows "progress_ok (in_plan inp) (is_stall (rt_stop r)) (rt_loopProgress r)"
  using assms(1)
proof cases
  case (stalled counted m x)
  with measured_progress_ok [OF assms(2,3) stalled(4)] show ?thesis by simp
next
  case (routed counted m arm)
  with measured_progress_ok [OF assms(2,3) routed(4)] show ?thesis by simp
qed (use assms(3) in \<open>auto simp: exhausted_stop_def\<close>)

subsection \<open>Every advance keeps the invariant\<close>

lemma settled_arm_settled:
  assumes "pos < length (gs_nodes (in_state inp))" and "ns_nodeId (gs_nodes (in_state inp) ! pos) = i"
    and "ns_status (gs_nodes (in_state inp) ! pos) = Dispatched" and "ns_attemptId (gs_nodes (in_state inp) ! pos) = a"
  shows "settled_as (as_nodes (settled_arm inp pos)) i (dc_outcomeId (in_decision inp)) a"
proof -
  let ?e = "settle_entry (gs_nodes (in_state inp) ! pos) (dc_outcomeId (in_decision inp)) (in_now inp)"
  have "?e \<in> set (as_nodes (settled_arm inp pos))"
    using assms(1) by (simp add: settled_arm_def set_update_memI)
  moreover have "ns_nodeId ?e = i \<and> settled_result ?e = Some (dc_outcomeId (in_decision inp), a)"
    using assms(2,4) by (simp add: settle_entry_def)
  ultimately show ?thesis unfolding settled_as_def by blast
qed

lemma settled_as_canonicalise: "settled_as (canonicalise plan nodes) i oc a \<longleftrightarrow> settled_as nodes i oc a"
  by (auto simp: settled_as_def canonicalise_def Let_def)

lemma status_canonicalise:
  "some_dispatched (canonicalise plan nodes) = some_dispatched nodes"
  "some_attempted (canonicalise plan nodes) = some_attempted nodes"
  "settledEverywhere (canonicalise plan nodes) = settledEverywhere nodes"
  by (simp_all add: some_dispatched_def some_attempted_def settledEverywhere_def canonicalise_def Let_def
      list_ex_iff list_all_iff)

lemma run_inv_unstopped:
  assumes "run_inv plan st" and "gs_stop st = None"
  shows "progress_ok plan False (the (gs_loopProgress st))"
  using assms by (simp add: run_inv_def)

lemma final_stop_Some: "rt = Some x \<Longrightarrow> final_stop plan nodes now rt = Some x"
  by (simp add: final_stop_def)

lemma final_stop_None:
  "final_stop plan nodes now None =
     (if \<not> some_dispatched nodes \<and> some_attempted nodes \<and> \<not> settledEverywhere nodes \<and>
         unsatisfiablePendingNodes plan nodes \<noteq> []
      then Some (StopUnreachable \<lparr>up_blockedNodes = unsatisfiablePendingNodes plan nodes, up_stoppedAt = now\<rparr>)
      else None)"
  by (simp add: final_stop_def Let_def)

text \<open>
  With nothing in flight and something pending, the pending nodes that have feeders are exactly the
  stranded ones; entry nodes are never pending, so an unfinished run in which nothing is in flight is
  always stopped.
\<close>

lemma no_silent_deadlock:
  assumes "distinct (node_ids plan)" and "map ns_nodeId nodes = node_ids plan" and "entries_started plan nodes"
    and "\<not> some_dispatched nodes" and "\<not> settledEverywhere nodes"
  shows "unsatisfiablePendingNodes plan nodes \<noteq> []"
proof -
  from assms(4) have nd: "\<forall>e \<in> set nodes. ns_status e \<noteq> Dispatched"
    by (simp add: some_dispatched_def list_ex_iff)
  from assms(5) obtain e where e: "e \<in> set nodes" "ns_status e \<noteq> Settled"
    by (auto simp: settledEverywhere_def list_all_iff)
  with nd have pend: "ns_status e = Pending" by (cases "ns_status e") auto
  then have feeders: "feederSourcesOf plan (ns_nodeId e) \<noteq> []"
    using assms(3) e(1) by (auto simp: entries_started_def)
  from e(1) assms(2) obtain n where n: "n \<in> set (cp_nodes plan)" "cn_id n = ns_nodeId e"
    by (metis (no_types, lifting) image_iff list.set_map)
  have "status_of nodes (cn_id n) = Some Pending"
    using entry_of_distinct [of nodes e] assms(1,2) e(1) pend n(2) by (simp add: status_of_def)
  with n feeders show ?thesis
    by (auto simp: unsatisfiable_nothing_dispatched [OF assms(1) nd] filter_empty_conv intro!: bexI [of _ n])
qed

lemma conclude_simps [simp]:
  "gs_bodyVersion (av_state (conclude plan st now r)) = CURRENT_OUTCOME_STATE_BODY"
  "gs_graphId (av_state (conclude plan st now r)) = gs_graphId st"
  "gs_planRevision (av_state (conclude plan st now r)) = gs_planRevision st"
  "gs_nodes (av_state (conclude plan st now r)) = canonicalise plan (as_nodes (rt_arm r))"
  "gs_loopTraversals (av_state (conclude plan st now r)) = rt_loopTraversals r"
  "gs_attemptSeq (av_state (conclude plan st now r)) = as_attemptSeq (rt_arm r)"
  "gs_stop (av_state (conclude plan st now r)) = final_stop plan (canonicalise plan (as_nodes (rt_arm r))) now (rt_stop r)"
  "gs_loopProgress (av_state (conclude plan st now r)) = Some (rt_loopProgress r)"
  "gs_phase (av_state (conclude plan st now r)) =
     phase_of (canonicalise plan (as_nodes (rt_arm r))) (final_stop plan (canonicalise plan (as_nodes (rt_arm r))) now (rt_stop r))"
  "av_dispatches (conclude plan st now r) = as_dispatches (rt_arm r)"
  "av_progress (conclude plan st now r) = rt_reports r"
  by (simp_all add: conclude_def Let_def)

lemma is_stall_final: "is_stall (final_stop plan nodes now rt) = is_stall rt"
  by (cases rt) (simp_all add: final_stop_Some final_stop_None)

lemma routing_stop_ok:
  assumes wf: "wf_plan (in_plan inp)" and inv: "run_inv (in_plan inp) (in_state inp)" and ns: "gs_stop (in_state inp) = None"
    and rec: "gs_loopProgress (in_state inp) = Some recorded"
    and pos: "pos < length (gs_nodes (in_state inp))" "ns_nodeId (gs_nodes (in_state inp) ! pos) = dc_nodeId (in_decision inp)"
      "ns_status (gs_nodes (in_state inp) ! pos) = Dispatched"
      "ns_attemptId (gs_nodes (in_state inp) ! pos) = dc_attemptId (in_decision inp)"
    and r: "routing_of sha inp recorded pos r"
  shows "stop_ok (in_plan inp) (av_state (conclude (in_plan inp) (in_state inp) (in_now inp) r))"
proof (cases "rt_stop r")
  case None
  then show ?thesis
    by (simp add: stop_ok_def unreachable_ok_def final_stop_None)
next
  case (Some x)
  let ?st = "av_state (conclude (in_plan inp) (in_state inp) (in_now inp) r)"
  have set_at: "settled_as (gs_nodes ?st) (dc_nodeId (in_decision inp)) (dc_outcomeId (in_decision inp)) (dc_attemptId (in_decision inp))"
    using settled_arm_settled [OF pos] routing_stop_arm [OF r] Some by (simp add: settled_as_canonicalise)
  have stop: "gs_stop ?st = Some x" using Some by (simp add: final_stop_Some)
  have grp: "dc_nodeId (in_decision inp) \<in> set (clg_nodes g)" "clg_continuationOutcome g = dc_outcomeId (in_decision inp)"
      "g \<in> set (cp_loopGroups (in_plan inp))" if "g \<in> set (groups_of inp)" for g
    using that by (auto simp: groups_of_def continuationGroups_def)
  from r show ?thesis
  proof cases
    case (exhausted counted bound)
    note b = count_traversals_Some [OF exhausted(3) groups_of_distinct [OF wf]]
    have "traversals_of (gs_loopTraversals (in_state inp)) (clg_id bound) \<le> clg_maxTraversals bound"
      using inv grp(3) b by (auto simp: run_inv_def counters_ok_def)
    with b have "traversals_of (gs_loopTraversals (in_state inp)) (clg_id bound) = clg_maxTraversals bound" by simp
    with set_at stop exhausted(1) Some b grp [of bound] show ?thesis
      unfolding stop_ok_def by (auto simp: exhausted_stop_def exhausted_ok_def)
  next
    case (stalled counted m y)
    from measure_loop_stall [OF stalled(4) [unfolded measureProgress_def] groups_of_distinct [OF wf] stalled(5)]
    obtain g p e pj b where g: "g \<in> set (groups_of inp)" "clg_progress g = Some p" "map_of recorded (clg_id g) = Some e"
        "rp_stalled (fst (compareProgress p e pj))" "map_of (me_entries m) (clg_id g) = Some (snd (compareProgress p e pj))"
        "lp_baseline (snd (compareProgress p e pj)) = Some b"
        "y = stalled_stop (in_decision inp) (in_now inp) g p (snd (compareProgress p e pj)) b"
      by (auto simp: stall_reason_def)
    have "\<exists>e'. map_of recorded (clg_id g) = Some e' \<and> entry_ok False g p e'"
      using run_inv_unstopped [OF inv ns] grp(3) [OF g(1)] g(2) rec unfolding progress_ok_def by auto
    with g(3) have e: "entry_ok False g p e" by simp
    have "lp_unchanged (snd (compareProgress p e pj)) = cpp_maxUnchanged p"
      using compareProgress_stalled [OF g(4)] e by (auto simp: entry_ok_def)
    with set_at stop stalled(1) Some g grp [OF g(1)] e show ?thesis
      unfolding stop_ok_def
      by (auto simp: stalled_stop_def stalled_ok_def entry_ok_def intro!: bexI [of _ g])
  qed (use Some in auto)
qed

theorem advance_run_inv:
  assumes wf: "wf_plan plan" and inv: "run_inv plan st"
    and inp: "in_plan inp = plan" "in_state inp = st" and adv: "advanceOutcomeGraph sha inp = Inr a"
  shows "run_inv plan (av_state a)"
  using adv
proof (rule advance_cases)
  fix pos recorded r
  assume rec: "gs_loopProgress (in_state inp) = Some recorded" and ns: "gs_stop (in_state inp) = None"
    and pos: "pos < length (gs_nodes (in_state inp))" "ns_nodeId (gs_nodes (in_state inp) ! pos) = dc_nodeId (in_decision inp)"
      "ns_status (gs_nodes (in_state inp) ! pos) = Dispatched"
      "ns_attemptId (gs_nodes (in_state inp) ! pos) = dc_attemptId (in_decision inp)"
    and r: "routing_of sha inp recorded pos r"
    and a: "a = conclude (in_plan inp) (in_state inp) (in_now inp) r"
  let ?nodes = "as_nodes (rt_arm r)" and ?new = "canonicalise plan (as_nodes (rt_arm r))"
  note d = wf_plan_distinct [OF wf] and i = inv [unfolded run_inv_def]
  have arm: "arm_inv plan (rt_arm r)"
    using routing_arm_inv [OF d inp(1) settled_arm_inv r] inv inp pos by simp
  then have ids: "map ns_nodeId ?nodes = node_ids plan" by (simp add: arm_inv_def)
  have canon: "\<forall>e \<in> set ?new. ns_arrivals e = arrivals_to plan ?new [] (ns_nodeId e)"
    using canonicalise_arrivals [OF d] canonicalise_same_attempt(1) [where plan = plan and nodes = ?nodes] ids
    by (metis image_eqI list.set_map)
  have started: "entries_started plan ?new"
    unfolding entries_started_def
  proof (intro ballI impI)
    fix e assume "e \<in> set ?new" and nf: "feederSourcesOf plan (ns_nodeId e) = []"
    then obtain k where k: "k < length ?nodes" "e = ?new ! k" by (metis in_set_conv_nth length_canonicalise)
    have len: "length ?nodes = length (gs_nodes st)" using ids i by (metis length_map)
    have "ns_nodeId e = ns_nodeId (gs_nodes st ! k)"
      using k ids i len by (metis canonicalise_same_attempt(1) length_canonicalise nth_map)
    with nf i k(1) len have "ns_status (gs_nodes st ! k) \<noteq> Pending" by (auto simp: entries_started_def)
    with routing_attempted(1) [OF r] inp k(1) len have "ns_status (?nodes ! k) \<noteq> Pending" by simp
    with canonicalise_nth [OF k(1), of plan] k(2) show "ns_status e \<noteq> Pending" by auto
  qed
  have live: "final_stop plan ?new (in_now inp) (rt_stop r) = None \<longrightarrow> some_dispatched ?new \<or> settledEverywhere ?new"
  proof
    assume fs: "final_stop plan ?new (in_now inp) (rt_stop r) = None"
    then have "rt_stop r = None" by (cases "rt_stop r") (simp_all add: final_stop_Some)
    with fs have "some_dispatched ?new \<or> \<not> some_attempted ?new \<or> settledEverywhere ?new \<or>
        unsatisfiablePendingNodes plan ?new = []" by (auto simp: final_stop_None split: if_splits)
    moreover have "some_attempted ?new"
      unfolding status_canonicalise unfolding some_attempted_def list_ex_iff
      using routing_attempted [OF r pos(1)] pos(1,3) by (intro bexI [of _ "?nodes ! pos"]) simp_all
    ultimately show "some_dispatched ?new \<or> settledEverywhere ?new"
      using no_silent_deadlock [OF d _ started] canonicalise_same_attempt(1) [where plan = plan and nodes = ?nodes] ids by auto
  qed
  show ?thesis
    unfolding run_inv_def a inp
    using i arm canon started live ids canonicalise_same_attempt [where plan = plan and nodes = ?nodes]
      routing_counters [OF r] routing_progress [OF r] run_inv_unstopped [OF inv] wf inp ns rec
      routing_stop_ok [OF _ _ ns rec pos r]
    by (simp add: is_stall_final arm_inv_def inv)
qed

subsection \<open>The start\<close>

text \<open>What the pass over the plan's nodes builds: one aligned entry per node, numbered from the start.\<close>

definition mint_inv :: "compiled_plan \<Rightarrow> nat \<Rightarrow> compiled_node list \<Rightarrow> mint_state \<Rightarrow> bool" where
  "mint_inv plan base ns m \<longleftrightarrow>
     map ns_nodeId (ms_nodes m) = map cn_id ns \<and> attempts_ok (ms_nodes m) (ms_attemptSeq m) \<and>
     seqs_distinct (ms_nodes m) \<and> base \<le> ms_attemptSeq m \<and>
     (\<forall>e \<in> set (ms_nodes m). ns_status e \<noteq> Settled \<and> ns_arrivals e = [] \<and>
        (ns_status e = Dispatched \<longleftrightarrow> ns_nodeId e \<in> cn_id ` set (entryNodesOf plan)))"

lemma seqs_distinct_snoc:
  assumes "seqs_distinct ns" and "ns_status e = Pending \<or>
      (\<forall>x \<in> set ns. ns_status x \<noteq> Pending \<longrightarrow> ns_attemptSeq x \<noteq> ns_attemptSeq e)"
  shows "seqs_distinct (ns @ [e])"
  unfolding seqs_distinct_def
proof (intro allI impI)
  fix i j
  assume ij: "i < length (ns @ [e])" "j < length (ns @ [e])" "ns_status ((ns @ [e]) ! i) \<noteq> Pending"
    "ns_status ((ns @ [e]) ! j) \<noteq> Pending" "ns_attemptSeq ((ns @ [e]) ! i) = ns_attemptSeq ((ns @ [e]) ! j)"
  show "i = j"
  proof (cases "i < length ns"; cases "j < length ns")
    assume "i < length ns" "j < length ns"
    with ij assms(1) show ?thesis by (simp add: seqs_distinct_def nth_append)
  qed (use ij assms(2) in \<open>auto simp: nth_append all_set_conv_all_nth less_Suc_eq split: if_splits\<close>)
qed

lemma mint_inv_pending:
  assumes "mint_inv plan base ns m" and "cn_id n \<notin> cn_id ` set (entryNodesOf plan)"
  shows "mint_inv plan base (ns @ [n]) (m\<lparr>ms_nodes := ms_nodes m @ [PendingNode (cn_id n) [] None]\<rparr>)"
  using assms by (auto simp: mint_inv_def attempts_ok_def intro: seqs_distinct_snoc)

lemma mint_entry_Inr:
  assumes "mint_entry env n m = Inr m'"
  obtains es cred where
    "ms_nodes m' = ms_nodes m @ [DispatchedNode (cn_id n) (attempt_id (cn_id n) (Suc (ms_attemptSeq m)))
       (Suc (ms_attemptSeq m)) (attemptCredentialDigest (se_sha env) cred) (se_identity env) (se_stamp env) [] (Some es) None]"
    "ms_attemptSeq m' = Suc (ms_attemptSeq m)"
    "assembleDownstreamInput (inputs_of n) (\<lambda>_. None)
       (acceptedResultReaderOf (cp_graphId (se_plan env)) (se_reads env) None) [] = InputResolved es"
    "reserveDispatchIn (se_plan env) (se_runId env) (cn_id n) (attempt_id (cn_id n) (Suc (ms_attemptSeq m)))
       (se_stamp env) (ms_budget m) = Inr (ms_budget m')"
    "ms_dispatched m' = ms_dispatched m @ [\<lparr>di_nodeId = cn_id n, di_attemptId = attempt_id (cn_id n) (Suc (ms_attemptSeq m)),
       di_agent = cn_agent n, di_prompt = cn_prompt n, di_credential = cred, di_inputs = es\<rparr>]"
    "map pe_attemptId (ms_effects m') = map pe_attemptId (ms_effects m) @ [attempt_id (cn_id n) (Suc (ms_attemptSeq m))]"
proof -
  from assms obtain es budget where es: "assembleDownstreamInput (inputs_of n) (\<lambda>_. None)
       (acceptedResultReaderOf (cp_graphId (se_plan env)) (se_reads env) None) [] = InputResolved es"
      and budget: "reserveDispatchIn (se_plan env) (se_runId env) (cn_id n) (attempt_id (cn_id n) (Suc (ms_attemptSeq m)))
       (se_stamp env) (ms_budget m) = Inr budget"
    by (auto simp: mint_entry_def Let_def result_simps split: downstream_input.splits)
  from assms es budget obtain cred where "mintAttemptCredential (se_mint env)
       (attemptCredentialBinding \<lparr>ai_graphId = cp_graphId (se_plan env), ai_nodeId = cn_id n,
          ai_attemptId = attempt_id (cn_id n) (Suc (ms_attemptSeq m)), ai_planRevision = cp_planRevision (se_plan env)\<rparr>) = Inr cred"
    by (auto simp: mint_entry_def Let_def result_simps split: sum.splits)
  with es budget show ?thesis
    using assms by (intro that [of cred es]) (auto simp: mint_entry_def Let_def)
qed

lemma mint_inv_entry:
  assumes "mint_inv plan base ns m" and "cn_id n \<in> cn_id ` set (entryNodesOf plan)" and "mint_entry env n m = Inr m'"
  shows "mint_inv plan base (ns @ [n]) m'"
proof -
  from assms(3) obtain es cred where m':
    "ms_nodes m' = ms_nodes m @ [DispatchedNode (cn_id n) (attempt_id (cn_id n) (Suc (ms_attemptSeq m)))
       (Suc (ms_attemptSeq m)) (attemptCredentialDigest (se_sha env) cred) (se_identity env) (se_stamp env) [] (Some es) None]"
    "ms_attemptSeq m' = Suc (ms_attemptSeq m)"
    by (rule mint_entry_Inr) blast
  have "\<forall>x \<in> set (ms_nodes m). ns_status x \<noteq> Pending \<longrightarrow> ns_attemptSeq x \<noteq> Suc (ms_attemptSeq m)"
    using assms(1) by (fastforce simp: mint_inv_def attempts_ok_def)
  then have "seqs_distinct (ms_nodes m')"
    using assms(1) unfolding m' by (intro seqs_distinct_snoc) (simp_all add: mint_inv_def)
  with assms(1,2) m' show ?thesis
    by (auto simp: mint_inv_def attempts_ok_def intro: le_SucI)
qed

lemma mint_nodes_inv:
  assumes "mint_nodes env entryIds rest m = Inr m'" and "set entryIds = cn_id ` set (entryNodesOf plan)"
    and "mint_inv plan base ns m"
  shows "mint_inv plan base (ns @ rest) m'"
  using assms
proof (induction rest arbitrary: ns m)
  case (Cons n rest)
  show ?case
  proof (cases "cn_id n \<in> set entryIds")
    case True
    with Cons.prems(1) obtain m1 where m1: "mint_entry env n m = Inr m1" "mint_nodes env entryIds rest m1 = Inr m'"
      by (auto simp: result_simps)
    have "mint_inv plan base (ns @ [n]) m1"
      using mint_inv_entry [OF Cons.prems(3) _ m1(1)] True Cons.prems(2) by simp
    from Cons.IH [OF m1(2) Cons.prems(2) this] show ?thesis by simp
  next
    case False
    with Cons.prems have "mint_nodes env entryIds rest (m\<lparr>ms_nodes := ms_nodes m @ [PendingNode (cn_id n) [] None]\<rparr>) = Inr m'"
      by simp
    from Cons.IH [OF this Cons.prems(2) mint_inv_pending [OF Cons.prems(3)]] False Cons.prems(2) show ?thesis by simp
  qed
qed simp

lemma initial_progress_ok:
  assumes "wf_plan plan"
  shows "progress_ok plan False (initial_progress plan)"
proof -
  define init where "init g p = \<lparr>lp_loopGroupId = clg_id g, lp_evaluator = cpp_evaluator p, lp_version = cpp_version p,
              lp_subject = cpp_subject p, lp_unchanged = 0, lp_baseline = None\<rparr>"
    for g :: compiled_loop_group and p :: compiled_progress_policy
  define step where "step acc g = (case clg_progress g of None \<Rightarrow> acc | Some policy \<Rightarrow>
           AList.update (clg_id g) (init g policy) acc)" for acc and g :: compiled_loop_group
  have fold: "distinct (map fst (foldl step acc gs)) \<and>
      fst ` set (foldl step acc gs) = fst ` set acc \<union> clg_id ` {g \<in> set gs. clg_progress g \<noteq> None} \<and>
      (\<forall>g \<in> set gs. \<forall>p. clg_progress g = Some p \<longrightarrow> map_of (foldl step acc gs) (clg_id g) = Some (init g p)) \<and>
      (\<forall>i. i \<notin> clg_id ` set gs \<longrightarrow> map_of (foldl step acc gs) i = map_of acc i)"
    if "distinct (map fst acc)" "distinct (map clg_id gs)" for acc gs
    using that
  proof (induction gs arbitrary: acc)
    case (Cons g gs)
    have "distinct (map fst (step acc g))" using Cons.prems(1) by (auto simp: step_def distinct_update split: option.splits)
    note IH = Cons.IH [OF this]
    have keys: "fst ` set (step acc g) \<union> clg_id ` {g \<in> set gs. clg_progress g \<noteq> None} =
        fst ` set acc \<union> clg_id ` {h \<in> set (g # gs). clg_progress h \<noteq> None}"
      by (cases "clg_progress g") (auto simp: step_def dom_update)
    have g: "clg_id g \<notin> clg_id ` set gs" using Cons.prems(2) by simp
    have at: "map_of (step acc g) i = (if i = clg_id g \<and> clg_progress g \<noteq> None then Some (init g (the (clg_progress g)))
        else map_of acc i)" for i
      by (cases "clg_progress g") (auto simp: step_def update_conv')
    show ?case
      using IH Cons.prems(2) keys at g by (auto split: if_splits)
  qed simp
  have eq: "initial_progress plan = foldl step [] (cp_loopGroups plan)"
    unfolding initial_progress_def step_def [abs_def] init_def by simp
  have "entry_ok False g p (init g p)" if "g \<in> set (cp_loopGroups plan)" "clg_progress g = Some p" for g p
    using wf_plan_group [OF assms that(1)] that(2) by (simp add: entry_ok_def init_def wf_group_def wf_policy_def)
  with fold [of "[]" "cp_loopGroups plan"] wf_plan_groups_distinct [OF assms] show ?thesis
    unfolding progress_ok_def eq by auto
qed

lemma start_run_inv:
  assumes wf: "wf_plan plan" and plan: "se_plan env = plan" and start: "startRun env surface = Inr r"
  shows "run_inv plan (rs_state r)"
proof -
  from start have ne: "entryNodesOf plan \<noteq> []" by (auto simp: startRun_def plan split: if_splits)
  from start ne obtain m where m: "mint_nodes env (js_set (map cn_id (entryNodesOf plan))) (cp_nodes plan)
        \<lparr>ms_nodes = [], ms_attemptSeq = 0, ms_dispatched = [], ms_effects = [],
         ms_budget = mint_run_row (cp_graphId plan) (se_runId env) surface\<rparr> = Inr m"
      and st: "rs_state r = \<lparr>gs_bodyVersion = CURRENT_OUTCOME_STATE_BODY, gs_graphId = cp_graphId plan,
                 gs_planRevision = cp_planRevision plan, gs_phase = Executing, gs_nodes = ms_nodes m,
                 gs_loopTraversals = [], gs_attemptSeq = ms_attemptSeq m, gs_stop = None,
                 gs_loopProgress = Some (initial_progress plan)\<rparr>"
    by (auto simp: startRun_def mintRunInTransaction_def Let_def plan result_simps)
  have "mint_inv plan 0 ([] @ cp_nodes plan) m"
    by (rule mint_nodes_inv [OF m]) (simp_all add: mint_inv_def attempts_ok_def seqs_distinct_def)
  then have inv: "map ns_nodeId (ms_nodes m) = node_ids plan" "attempts_ok (ms_nodes m) (ms_attemptSeq m)"
      "seqs_distinct (ms_nodes m)"
      "\<forall>e \<in> set (ms_nodes m). ns_status e \<noteq> Settled \<and> ns_arrivals e = [] \<and>
        (ns_status e = Dispatched \<longleftrightarrow> ns_nodeId e \<in> cn_id ` set (entryNodesOf plan))"
    by (simp_all add: mint_inv_def)
  have d: "distinct (node_ids plan)" by (rule wf_plan_distinct [OF wf])
  have none: "Option.bind (entry_of (ms_nodes m) i) settled_result = None" for i
    using inv(4) entry_of_Some [of "ms_nodes m" i]
    by (cases "entry_of (ms_nodes m) i")
      (simp, metis bind.bind_lunit ns_status.simps(3) option.exhaust_sel settled_result.elims)
  then have canon: "\<forall>e \<in> set (ms_nodes m). ns_arrivals e = arrivals_to plan (ms_nodes m) [] (ns_nodeId e)"
  proof (intro ballI)
    fix e assume e: "e \<in> set (ms_nodes m)"
    then have "ns_nodeId e \<in> set (node_ids plan)" using inv(1) by (metis image_eqI list.set_map)
    moreover have "List.map_filter (arrival_from plan (ms_nodes m) [] (ns_nodeId e)) ns = []" for ns
      using none by (induction ns) (simp_all add: arrival_from_def map_filter_simps)
    ultimately show "ns_arrivals e = arrivals_to plan (ms_nodes m) [] (ns_nodeId e)"
      using inv(4) e by (simp add: materializeArrivals_closed [OF d])
  qed
  obtain n where n: "n \<in> set (entryNodesOf plan)" using ne by (cases "entryNodesOf plan") auto
  then have "cn_id n \<in> set (map ns_nodeId (ms_nodes m))" unfolding inv(1) by (auto simp: entryNodesOf_feeders)
  then obtain e where "e \<in> set (ms_nodes m)" "ns_nodeId e = cn_id n" by auto
  with inv(4) n have disp: "some_dispatched (ms_nodes m)" by (auto simp: some_dispatched_def list_ex_iff)
  have started: "entries_started plan (ms_nodes m)"
    unfolding entries_started_def
  proof (intro ballI impI)
    fix e assume e: "e \<in> set (ms_nodes m)" "feederSourcesOf plan (ns_nodeId e) = []"
    then have "ns_nodeId e \<in> set (node_ids plan)" using inv(1) by (metis image_eqI list.set_map)
    with e(2) have "ns_nodeId e \<in> cn_id ` set (entryNodesOf plan)" by (auto simp: entryNodesOf_feeders)
    with inv(4) e(1) show "ns_status e \<noteq> Pending" by fastforce
  qed
  have "counters_ok plan []" by (simp add: counters_ok_def traversals_of_def)
  with inv(1-3) canon disp started initial_progress_ok [OF wf] show ?thesis
    unfolding run_inv_def st by (simp add: stop_ok_def phase_of_def)
qed

subsection \<open>The states of a run\<close>

inductive run_of :: "hash_hex \<Rightarrow> compiled_plan \<Rightarrow> graph_state \<Rightarrow> bool" for sha plan where
  started: "se_plan env = plan \<Longrightarrow> se_sha env = sha \<Longrightarrow> startRun env surface = Inr r \<Longrightarrow>
     run_of sha plan (rs_state r)"
| advanced: "run_of sha plan (in_state inp) \<Longrightarrow> in_plan inp = plan \<Longrightarrow> advanceOutcomeGraph sha inp = Inr a \<Longrightarrow>
     run_of sha plan (av_state a)"

inductive_cases run_ofE: "run_of sha plan st"

lemma run_of_inv: "run_of sha plan st \<Longrightarrow> wf_plan plan \<Longrightarrow> run_inv plan st"
  by (induction rule: run_of.induct) (auto intro: start_run_inv advance_run_inv)

end
