(* ===== verification/StateCodecFacts.thy ===== *)
theory StateCodecFacts
  imports StateCodec
begin

text \<open>
  The state codec is strict: the reader of each part returns exactly what the writer stored, and
  returns only values that satisfy the part's well-formedness predicate. The codec interface of
  the development is interpreted on every part, and the body inherits both laws from its parts.
\<close>

subsection \<open>Scalars\<close>

lemma nonneg_safe_js_int [simp]: "ok_epoch t \<Longrightarrow> nonneg_safe (js_int t) = Some (nat t)"
  by (simp add: ok_epoch_def nonneg_safe_def)

lemma nonneg_safe_nonneg: "nonneg_safe v = Some n \<Longrightarrow> ok_epoch (int n)"
  by (auto simp: ok_epoch_def dest: nonneg_safe_bound)

lemma readNonEmptyId_eq [result_simps]: "readNonEmptyId v f = Inr s \<longleftrightarrow> v = JStr s \<and> s \<noteq> []"
  by (cases v) (auto simp: readNonEmptyId_def)

lemma readNonEmptyId_JStr [simp]: "s \<noteq> [] \<Longrightarrow> readNonEmptyId (JStr s) f = Inr s"
  by (simp add: readNonEmptyId_def)

lemma readPositiveCount_js_nat [simp]: "ok_count n \<Longrightarrow> readPositiveCount (js_nat n) f = Inr n"
  by (simp add: readPositiveCount_def ok_count_def)

lemma readPositiveCount_ok: "readPositiveCount v f = Inr n \<Longrightarrow> ok_count n"
  by (auto simp: readPositiveCount_def ok_count_def split: option.splits dest: positive_safe_bound)

lemma required_eq [result_simps]: "required x f = Inr v \<longleftrightarrow> x = Some v"
  by (auto simp: required_def split: option.splits)

lemma required_Some [simp]: "required (Some v) f = Inr v"
  by (simp add: required_def)

lemma read_token_JStr [simp]: "ok_token t \<Longrightarrow> read_token (JStr t) = Inr t"
  by (simp add: ok_token_def)

lemma read_token_ok: "read_token v = Inr t \<Longrightarrow> ok_token t"
  by (cases v) (auto simp: ok_token_def split: if_splits)

lemma read_digest_eq [result_simps]: "read_digest v = Inr d \<longleftrightarrow> v = JStr d \<and> isAttemptCredentialDigest (JStr d)"
  by (cases v) auto

lemma read_digest_JStr: "isAttemptCredentialDigest (JStr d) \<Longrightarrow> read_digest (JStr d) = Inr d"
  by simp

lemma map_of_opt_field_last [simp]:
  "map_of (opt_field k enc x) j = (if j = k then map_option enc x else None)"
  by (cases x) auto

lemma readOptionalEpoch_ok: "readOptionalEpoch raw f = Inr (Some t) \<Longrightarrow> ok_epoch t"
  by (auto simp: readOptionalEpoch_def split: if_splits option.splits dest: nonneg_safe_nonneg)

lemma readDispatchIdentity_ok: "readDispatchIdentity raw = Inr h \<Longrightarrow> pred_option ok_identity h"
  by (cases "readHostInvocationIdentity (js_get raw ''dispatchIdentity'')")
     (auto simp: readDispatchIdentity_def option.pred_set split: if_splits dest: readHostInvocationIdentity_ok)

lemma readBoundInputs_ok: "readBoundInputs raw = Inr es \<Longrightarrow> pred_option (list_all ok_resolved_input) es"
  by (auto simp: readBoundInputs_def split: if_splits sum.splits dest: readResolvedInputs_ok)

lemma readNodeInputRefusals_ok: "readNodeInputRefusals raw = Inr rs \<Longrightarrow> pred_option (list_all ok_refusal) rs"
  by (auto simp: readNodeInputRefusals_def split: if_splits sum.splits dest: readInputRefusals_ok)

lemma read_status_text [simp]: "read_status (JStr (node_status_text s)) = Some s"
  by (cases s) (simp_all add: read_status_def)

subsection \<open>Arrivals\<close>

lemma read_arrival_enc:
  "ok_arrival plan t a \<Longrightarrow> arr_from a \<notin> set seen \<Longrightarrow> read_arrival plan t seen (enc_arrival a) = Inr a"
  by (auto simp: read_arrival_def enc_arrival_def ok_arrival_def only_keys_def OUTCOME_ARRIVAL_KEYS_def ensure_def list_ex_iff)

lemma read_arrival_ok:
  "read_arrival plan t seen v = Inr a \<Longrightarrow> ok_arrival plan t a \<and> arr_from a \<notin> set seen"
  by (auto simp: read_arrival_def ok_arrival_def result_simps list_ex_iff split: if_splits)

lemma read_arrival_list_enc:
  "\<forall>a \<in> set as. ok_arrival plan t a \<Longrightarrow> distinct (map arr_from as) \<Longrightarrow> set seen \<inter> arr_from ` set as = {} \<Longrightarrow>
   read_arrival_list plan t seen (map enc_arrival as) = Inr as"
  by (induction as arbitrary: seen) (auto simp: read_arrival_enc)

lemma read_arrival_list_ok:
  "read_arrival_list plan t seen vs = Inr as \<Longrightarrow>
   (\<forall>a \<in> set as. ok_arrival plan t a) \<and> distinct (map arr_from as) \<and> set seen \<inter> arr_from ` set as = {}"
  by (induction vs arbitrary: seen as) (fastforce simp: result_simps dest: read_arrival_ok)+

lemma readArrivals_enc: "ok_arrivals plan (cn_id n) as \<Longrightarrow> readArrivals (enc_arrivals as) n plan = Inr as"
  by (simp add: readArrivals_def enc_arrivals_def ok_arrivals_def read_arrival_list_enc)

lemma readArrivals_ok: "readArrivals v n plan = Inr as \<Longrightarrow> ok_arrivals plan (cn_id n) as"
  by (auto simp: readArrivals_def ok_arrivals_def split: option.splits dest: read_arrival_list_ok)

interpretation arrivals: strict_codec enc_arrivals "\<lambda>v. readArrivals v n plan" "ok_arrivals plan (cn_id n)" for n plan
  by unfold_locales (simp_all add: readArrivals_enc readArrivals_ok)

subsection \<open>Node entries\<close>

lemma only_keys_JObj: "only_keys (JObj ps) ks \<longleftrightarrow> fst ` set ps \<subseteq> set ks"
  by (auto simp: only_keys_def list_all_iff)

lemma fst_set_opt_field: "fst ` set (opt_field k enc x) = (case x of None \<Rightarrow> {} | Some _ \<Rightarrow> {k})"
  by (cases x) auto

lemma readNodeState_ok:
  assumes "readNodeState raw n layout plan = Inr e"
  shows "ok_node plan n e"
  using assms
  by (auto simp: readNodeState_def node_of_fields_def ok_node_def ok_attempt_def result_simps
      split: if_splits dest: readArrivals_ok readNodeInputRefusals_ok readBoundInputs_ok readDispatchIdentity_ok
        readOptionalEpoch_ok readPositiveCount_ok)

lemma readOptionalEpoch_enc:
  "js_get raw f = JUndef \<Longrightarrow> readOptionalEpoch raw f = Inr None"
  "js_get raw f = js_int t \<Longrightarrow> ok_epoch t \<Longrightarrow> readOptionalEpoch raw f = Inr (Some t)"
  by (simp_all add: readOptionalEpoch_def) (simp add: ok_epoch_def)

lemma readDispatchIdentity_enc:
  "js_get raw ''dispatchIdentity'' = JUndef \<Longrightarrow> readDispatchIdentity raw = Inr None"
  "js_get raw ''dispatchIdentity'' = enc_identity i \<Longrightarrow> ok_identity i \<Longrightarrow> readDispatchIdentity raw = Inr (Some i)"
  by (simp_all add: readDispatchIdentity_def readHostInvocationIdentity_enc) (simp add: enc_identity_def)

lemma readBoundInputs_enc:
  "js_get raw ''inputs'' = JUndef \<Longrightarrow> readBoundInputs raw = Inr None"
  "js_get raw ''inputs'' = enc_inputs es \<Longrightarrow> list_all ok_resolved_input es \<Longrightarrow> readBoundInputs raw = Inr (Some es)"
  by (simp_all add: readBoundInputs_def enc_inputs_def readResolvedInputs_enc)

lemma readNodeInputRefusals_enc:
  "js_get raw ''inputRefusals'' = JUndef \<Longrightarrow> readNodeInputRefusals raw = Inr None"
  "js_get raw ''inputRefusals'' = enc_refusals rs \<Longrightarrow> list_all ok_refusal rs \<Longrightarrow> readNodeInputRefusals raw = Inr (Some rs)"
  by (simp_all add: readNodeInputRefusals_def enc_refusals_def readInputRefusals_enc)

lemmas node_field_rules =
  readOptionalEpoch_enc readDispatchIdentity_enc readBoundInputs_enc readNodeInputRefusals_enc readArrivals_enc

lemma read_status_texts [simp]:
  "read_status (JStr ''pending'') = Some Pending" "read_status (JStr ''dispatched'') = Some Dispatched"
  "read_status (JStr ''settled'') = Some Settled"
  by (simp_all add: read_status_def)

lemma readNodeState_enc:
  assumes "ok_node plan n e" and "sl_keys layout = layout_keys"
  shows "readNodeState (enc_node e) n layout plan = Inr e"
proof (cases e)
  case (PendingNode i as rs)
  with assms show ?thesis
    by (cases rs) (simp_all add: readNodeState_def node_of_fields_def ok_node_def rejectUnknownNodeFields_def only_keys_JObj
      node_field_rules)
next
  case (DispatchedNode i a q d h t as inp rs)
  with assms show ?thesis
    by (cases h; cases inp; cases rs) (simp_all add: readNodeState_def node_of_fields_def ok_node_def ok_attempt_def
      rejectUnknownNodeFields_def only_keys_JObj node_field_rules read_digest_JStr)
next
  case (SettledNode i a q d h oc t u as inp rs)
  with assms show ?thesis
    by (cases h; cases inp; cases rs) (simp_all add: readNodeState_def node_of_fields_def ok_node_def ok_attempt_def
      rejectUnknownNodeFields_def only_keys_JObj node_field_rules read_digest_JStr)
qed

lemma read_node_list_enc:
  assumes "list_all2 (ok_node plan) (cp_nodes plan) es" and "sl_keys layout = layout_keys"
  shows "read_node_list layout plan (map enc_node es) = Inr es"
proof -
  have "list_all2 (ok_node plan) ns es \<Longrightarrow>
      traverse (\<lambda>(n, raw). readNodeState raw n layout plan) (zip ns (map enc_node es)) = Inr es" for ns es
    by (induction ns es rule: list_all2_induct) (simp_all add: readNodeState_enc assms(2))
  then show ?thesis using assms(1) by (simp add: read_node_list_def)
qed

lemma read_node_list_ok:
  assumes "read_node_list layout plan vs = Inr es" and "length vs = length (cp_nodes plan)"
  shows "list_all2 (ok_node plan) (cp_nodes plan) es"
proof -
  have "length vs = length ns \<Longrightarrow> traverse (\<lambda>(n, raw). readNodeState raw n layout plan) (zip ns vs) = Inr es \<Longrightarrow>
      list_all2 (ok_node plan) ns es" for ns vs es
  proof (induction ns arbitrary: vs es)
    case (Cons n ns)
    then obtain v vs' where "vs = v # vs'" by (cases vs) auto
    with Cons show ?case by (auto simp: result_simps dest: readNodeState_ok)
  qed simp
  then show ?thesis using assms by (simp add: read_node_list_def)
qed

subsection \<open>Counters\<close>

text \<open>The three record readers fold the keys of an object into an association list.\<close>

lemma read_counters_enc:
  assumes "\<forall>(k, v) \<in> set al. k \<in> clg_id ` set (cp_loopGroups plan) \<and> int v \<le> max_safe \<and> js_get raw k = js_nat v"
    and "distinct (map fst (acc @ al))"
  shows "read_counters plan raw (map fst al) acc = Inr (acc @ al)"
  using assms
proof (induction al arbitrary: acc)
  case (Cons kv al)
  obtain k v where kv: "kv = (k, v)" by fastforce
  with Cons.prems(2) have "AList.update k v acc = acc @ [kv]" by (simp add: update_fresh)
  with Cons.IH [of "acc @ [kv]"] Cons.prems kv show ?case by auto
qed simp

lemma read_counters_ok:
  "read_counters plan raw ks acc = Inr al \<Longrightarrow> ok_counters plan acc \<Longrightarrow> ok_counters plan al"
proof (induction ks arbitrary: acc)
  case (Cons k ks)
  then obtain v where v: "nonneg_safe (js_get raw k) = Some v" "k \<in> clg_id ` set (cp_loopGroups plan)"
      "read_counters plan raw ks (AList.update k v acc) = Inr al"
    by (auto split: if_splits option.splits)
  have "set (AList.update k v acc) \<subseteq> insert (k, v) (set acc)" by (induction acc) auto
  with Cons.prems(2) v nonneg_safe_bound [OF v(1)] have "ok_counters plan (AList.update k v acc)"
    by (fastforce simp: ok_counters_def distinct_update)
  with Cons.IH v(3) show ?case by blast
qed simp

lemma js_get_enc_map: "distinct (map fst al) \<Longrightarrow> (k, v) \<in> set al \<Longrightarrow> js_get (JObj (map (\<lambda>(k, v). (k, f v)) al)) k = f v"
  by (simp add: map_of_map)

lemma readLoopTraversals_enc: "ok_counters plan al \<Longrightarrow> readLoopTraversals (enc_counters al) plan = Inr al"
  using read_counters_enc [of al plan "enc_counters al" "[]"] js_get_enc_map [of al _ _ js_nat]
  by (fastforce simp: readLoopTraversals_def enc_counters_def ok_counters_def comp_def case_prod_beta)

lemma readLoopTraversals_ok: "readLoopTraversals v plan = Inr al \<Longrightarrow> ok_counters plan al"
  using read_counters_ok [of plan v "js_keys v" "[]" al] by (auto simp: readLoopTraversals_def ok_counters_def split: if_splits)

interpretation counters: strict_codec enc_counters "\<lambda>v. readLoopTraversals v plan" "ok_counters plan" for plan
  by unfold_locales (simp_all add: readLoopTraversals_enc readLoopTraversals_ok)

subsection \<open>Progress records\<close>

lemma readLoopProgressEntry_enc: "ok_progress_entry k p e \<Longrightarrow> readLoopProgressEntry (enc_progress_entry e) k p = Inr e"
  by (cases "lp_baseline e")
     (auto simp: readLoopProgressEntry_def enc_progress_entry_def ok_progress_entry_def only_keys_JObj
        OUTCOME_LOOP_PROGRESS_KEYS_def simp del: read_token.simps intro: loop_progress.equality)

lemma readLoopProgressEntry_ok: "readLoopProgressEntry v k p = Inr e \<Longrightarrow> ok_progress_entry k p e"
  by (auto simp: readLoopProgressEntry_def ok_progress_entry_def result_simps
      split: if_splits dest: readPositiveCount_ok nonneg_safe_bound read_token_ok)

interpretation progress_entry: strict_codec enc_progress_entry "\<lambda>v. readLoopProgressEntry v k p" "ok_progress_entry k p" for k p
  by unfold_locales (simp_all add: readLoopProgressEntry_enc readLoopProgressEntry_ok)

definition progress_part :: "compiled_plan \<Rightarrow> (string \<times> loop_progress) list \<Rightarrow> bool" where
  "progress_part plan al \<longleftrightarrow>
     distinct (map fst al) \<and> (\<forall>(k, e) \<in> set al. \<exists>p. policy_of plan k = Some p \<and> ok_progress_entry k p e)"

lemma read_progress_entries_enc:
  assumes "\<forall>(k, e) \<in> set al. (\<exists>p. policy_of plan k = Some p \<and> ok_progress_entry k p e) \<and> js_get raw k = enc_progress_entry e"
    and "distinct (map fst (acc @ al))"
  shows "read_progress_entries plan raw (map fst al) acc = Inr (acc @ al)"
  using assms
proof (induction al arbitrary: acc)
  case (Cons ke al)
  obtain k e where ke: "ke = (k, e)" by fastforce
  with Cons.prems(2) have "AList.update k e acc = acc @ [ke]" by (simp add: update_fresh)
  with Cons.IH [of "acc @ [ke]"] Cons.prems ke show ?case by (auto simp: readLoopProgressEntry_enc)
qed simp

lemma read_progress_entries_ok:
  "read_progress_entries plan raw ks acc = Inr al \<Longrightarrow> progress_part plan acc \<Longrightarrow> progress_part plan al"
proof (induction ks arbitrary: acc)
  case (Cons k ks)
  then obtain p e where e: "policy_of plan k = Some p" "readLoopProgressEntry (js_get raw k) k p = Inr e"
      "read_progress_entries plan raw ks (AList.update k e acc) = Inr al"
    by (auto simp: result_simps split: option.splits)
  have "set (AList.update k e acc) \<subseteq> insert (k, e) (set acc)" by (induction acc) auto
  with Cons.prems(2) e(1) readLoopProgressEntry_ok [OF e(2)] have "progress_part plan (AList.update k e acc)"
    by (fastforce simp: progress_part_def distinct_update)
  with Cons.IH e(3) show ?case by blast
qed simp

lemma readLoopProgress_enc: "ok_progress plan al \<Longrightarrow> readLoopProgress (enc_progress al) plan = Inr al"
  using read_progress_entries_enc [of al plan "enc_progress al" "[]"] js_get_enc_map [of al _ _ enc_progress_entry]
  by (fastforce simp: readLoopProgress_def enc_progress_def ok_progress_def comp_def case_prod_beta ensure_def list_all_iff)

lemma readLoopProgress_ok: "readLoopProgress v plan = Inr al \<Longrightarrow> ok_progress plan al"
  using read_progress_entries_ok [of plan v "js_keys v" "[]" al]
  by (auto simp: readLoopProgress_def ok_progress_def progress_part_def result_simps list_all_iff split: if_splits)

interpretation progress: strict_codec enc_progress "\<lambda>v. readLoopProgress v plan" "ok_progress plan" for plan
  by unfold_locales (simp_all add: readLoopProgress_enc readLoopProgress_ok)

subsection \<open>Stops\<close>

lemma read_blocked_enc:
  assumes "\<forall>(k, fs) \<in> set al. sorted fs \<and> (\<forall>f \<in> set fs. f \<noteq> [])" and "distinct (map fst (acc @ al))"
  shows "read_blocked (map (\<lambda>(k, fs). (k, JArr (map JStr fs))) al) acc = Inr (acc @ al)"
  using assms
proof (induction al arbitrary: acc)
  case (Cons kf al)
  obtain k fs where kf: "kf = (k, fs)" by fastforce
  with Cons.prems(2) have "AList.update k fs acc = acc @ [kf]" by (simp add: update_fresh)
  moreover have "traverse (\<lambda>f. readNonEmptyId f ''feeder'') (map JStr fs) = Inr fs"
    using Cons.prems(1) kf by (intro traverse_map_Inr) auto
  moreover have "sort fs = fs" using Cons.prems(1) kf by (simp add: sorted_sort_id)
  ultimately show ?case using Cons.IH [of "acc @ [kf]"] Cons.prems kf by auto
qed simp

definition blocked_part :: "(string \<times> string list) list \<Rightarrow> bool" where
  "blocked_part al \<longleftrightarrow> distinct (map fst al) \<and> (\<forall>(k, fs) \<in> set al. sorted fs \<and> (\<forall>f \<in> set fs. f \<noteq> []))"

lemma read_blocked_ok: "read_blocked ps acc = Inr al \<Longrightarrow> blocked_part acc \<Longrightarrow> blocked_part al"
proof (induction ps arbitrary: acc)
  case (Cons kv ps)
  obtain k v where kv: "kv = (k, v)" by fastforce
  with Cons.prems obtain xs fs where fs: "js_array v = Some xs" "traverse (\<lambda>f. readNonEmptyId f ''feeder'') xs = Inr fs"
      "read_blocked ps (AList.update k (sort fs) acc) = Inr al"
    by (auto simp: result_simps split: option.splits)
  have "\<forall>f \<in> set fs. f \<noteq> []" using traverse_set [OF fs(2)] by (auto simp: result_simps)
  moreover have "set (AList.update k (sort fs) acc) \<subseteq> insert (k, sort fs) (set acc)" by (induction acc) auto
  ultimately have "blocked_part (AList.update k (sort fs) acc)"
    using Cons.prems(2) by (fastforce simp: blocked_part_def distinct_update)
  with Cons.IH fs(3) show ?case by blast
qed simp

lemma read_stop_of_enc: "ok_stop_fields x \<Longrightarrow> read_stop_of (reason_of x) (enc_stop x) = Inr x"
proof (cases x)
  case (StopLoopExhausted y)
  assume "ok_stop_fields x"
  with StopLoopExhausted show ?thesis
    by (auto simp: read_stop_of_def readLoopExhaustedStop_def only_keys_JObj OUTCOME_LOOP_EXHAUSTED_STOP_KEYS_def
        readOptionalEpoch_enc intro: loop_exhausted_stop.equality)
next
  case (StopProgressStalled y)
  assume "ok_stop_fields x"
  with StopProgressStalled show ?thesis
    by (auto simp: read_stop_of_def readProgressStalledStop_def only_keys_JObj OUTCOME_PROGRESS_STALLED_STOP_KEYS_def
        readOptionalEpoch_enc simp del: read_token.simps intro: progress_stalled_stop.equality)
next
  case (StopUnreachable y)
  assume "ok_stop_fields x"
  with StopUnreachable show ?thesis
    using read_blocked_enc [of "up_blockedNodes y" "[]"]
    by (auto simp: read_stop_of_def readUnreachablePendingNodeStop_def only_keys_JObj
        OUTCOME_UNREACHABLE_PENDING_NODE_STOP_KEYS_def readOptionalEpoch_enc intro: unreachable_pending_stop.equality)
qed

lemma read_stop_of_ok: "read_stop_of r v = Inr x \<Longrightarrow> ok_stop_fields x \<and> reason_of x = r"
proof (cases r)
  case LoopExhausted
  assume "read_stop_of r v = Inr x"
  with LoopExhausted show ?thesis
    by (auto simp: read_stop_of_def readLoopExhaustedStop_def result_simps dest: readPositiveCount_ok readOptionalEpoch_ok)
next
  case ProgressStalled
  assume "read_stop_of r v = Inr x"
  with ProgressStalled show ?thesis
    by (auto simp: read_stop_of_def readProgressStalledStop_def result_simps
        dest: readPositiveCount_ok readOptionalEpoch_ok read_token_ok)
next
  case UnreachablePendingNode
  assume "read_stop_of r v = Inr x"
  with UnreachablePendingNode obtain al t where x: "x = StopUnreachable \<lparr>up_blockedNodes = al, up_stoppedAt = t\<rparr>"
      "read_blocked (object_entries (js_get v ''blockedNodes'')) [] = Inr al" "readOptionalEpoch v ''stoppedAt'' = Inr (Some t)"
    by (auto simp: read_stop_of_def readUnreachablePendingNodeStop_def result_simps)
  then show ?thesis
    using UnreachablePendingNode read_blocked_ok [OF x(2)] readOptionalEpoch_ok [OF x(3)] by (auto simp: blocked_part_def)
qed

lemma find_reason:
  "find (\<lambda>c. stop_reason_text r = stop_reason_text c) rs = (if r \<in> set rs then Some r else None)"
proof -
  have "stop_reason_text r = stop_reason_text c \<longleftrightarrow> r = c" for c by (cases r; cases c) simp_all
  then show ?thesis by (induction rs) auto
qed

lemma reason_of_enc_stop: "js_get (enc_stop x) ''reason'' = JStr (stop_reason_text (reason_of x))"
  by (cases x) simp_all

lemma isRecord_enc_stop [simp]: "isRecord (enc_stop x)"
  by (cases x) simp_all

lemma readStop_enc:
  "ok_stop_fields x \<Longrightarrow> reason_of x \<in> set (sl_stopReasons layout) \<Longrightarrow> readStop (enc_stop x) Stopped layout = Inr (Some x)"
  by (simp add: readStop_def readStopReason_def reason_of_enc_stop find_reason read_stop_of_enc)

lemma readStop_absent: "ph \<noteq> Stopped \<Longrightarrow> readStop JUndef ph layout = Inr None"
  by (simp add: readStop_def)

lemma readStop_ok:
  assumes "readStop v ph layout = Inr s"
  shows "ph = Stopped \<longleftrightarrow> s \<noteq> None" and "s = Some x \<Longrightarrow> reason_of x \<in> set (sl_stopReasons layout) \<and> ok_stop_fields x"
  using assms
  by (auto simp: readStop_def readStopReason_def result_simps split: if_splits dest!: read_stop_of_ok find_Some_in)

subsection \<open>The body\<close>

lemma find_phase: "find (\<lambda>q. phase_text p = phase_text q) [Ready, Executing, Complete, Stopped] = Some p"
  by (cases p) simp_all

lemma readStateBody_enc:
  assumes ok: "ok_state (outcomeStateLayout v reasons) plan st"
  shows "readStateBody (enc_state st) plan (outcomeStateLayout v reasons) = Inr st"
proof -
  let ?L = "outcomeStateLayout v reasons"
  obtain lp where lp: "gs_loopProgress st = Some lp" "ok_progress plan lp"
      "\<forall>x. gs_stop st = Some x \<longrightarrow> verifyStop plan (gs_nodes st) (gs_loopTraversals st) lp x = Inr ()"
      "verifyProgress plan lp (gs_stop st) = Inr ()"
    using ok by (auto simp: ok_state_def)
  have keys: "only_keys (enc_state st) (sl_bodyKeys ?L)"
    by (cases "gs_stop st") (simp_all add: enc_state_def only_keys_JObj outcomeStateLayout_def lp(1))
  have get: "js_get (enc_state st) ''graphId'' = JStr (gs_graphId st)"
      "js_get (enc_state st) ''planRevision'' = JStr (gs_planRevision st)"
      "js_get (enc_state st) ''phase'' = JStr (phase_text (gs_phase st))"
      "js_get (enc_state st) ''stop'' = (case gs_stop st of None \<Rightarrow> JUndef | Some x \<Rightarrow> enc_stop x)"
      "js_get (enc_state st) ''attemptSeq'' = js_nat (gs_attemptSeq st)"
      "js_get (enc_state st) ''nodes'' = JArr (map enc_node (gs_nodes st))"
      "js_get (enc_state st) ''loopTraversals'' = enc_counters (gs_loopTraversals st)"
      "js_get (enc_state st) ''loopProgress'' = enc_progress lp"
    by (cases "gs_stop st"; simp add: enc_state_def lp(1))+
  have stop: "readStop (js_get (enc_state st) ''stop'') (gs_phase st) ?L = Inr (gs_stop st)"
    using ok unfolding get by (cases "gs_stop st") (auto simp: ok_state_def readStop_absent readStop_enc)
  have nodes: "read_node_list ?L plan (map enc_node (gs_nodes st)) = Inr (gs_nodes st)"
    using ok by (intro read_node_list_enc) (simp_all add: ok_state_def outcomeStateLayout_def)
  have len: "length (gs_nodes st) = length (cp_nodes plan)"
    using ok by (auto simp: ok_state_def dest: list_all2_lengthD)
  have phase: "find (\<lambda>p. js_get (enc_state st) ''phase'' = JStr (phase_text p)) (sl_phases ?L) = Some (gs_phase st)"
    unfolding get using find_phase [of "gs_phase st"] by (simp add: outcomeStateLayout_def)
  have corroborated: "(case gs_stop st of None \<Rightarrow> Inr () | Some x \<Rightarrow>
      verifyStop plan (gs_nodes st) (gs_loopTraversals st) lp x) = Inr ()"
    using lp(3) by (auto split: option.splits)
  show ?thesis
    using ok lp(2,4) len corroborated unfolding readStateBody_def rejectUnknownBodyFields_def stop phase
    by (simp add: keys get(1,2,5-) stop nodes readLoopTraversals_enc readLoopProgress_enc ok_state_def lp(1)
        graph_state.equality)
qed

lemma readStateBody_ok:
  assumes "readStateBody body plan layout = Inr st"
  shows "ok_state layout plan st"
proof -
  from assms obtain phase stop seq rawNodes nodes counters lp where
    stop: "readStop (js_get body ''stop'') phase layout = Inr stop" and seq: "nonneg_safe (js_get body ''attemptSeq'') = Some seq"
    and nodes: "length rawNodes = length (cp_nodes plan)" "read_node_list layout plan rawNodes = Inr nodes"
      "verifyArrivals plan nodes = Inr ()"
    and counters: "readLoopTraversals (js_get body ''loopTraversals'') plan = Inr counters"
    and lp: "readLoopProgress (js_get body ''loopProgress'') plan = Inr lp"
    and v: "(case stop of None \<Rightarrow> Inr () | Some x \<Rightarrow> verifyStop plan nodes counters lp x) = Inr ()"
      "verifyProgress plan lp stop = Inr ()"
    and st: "st = \<lparr>gs_bodyVersion = sl_version layout, gs_graphId = cp_graphId plan, gs_planRevision = cp_planRevision plan,
            gs_phase = phase, gs_nodes = nodes, gs_loopTraversals = counters, gs_attemptSeq = seq,
            gs_stop = stop, gs_loopProgress = Some lp\<rparr>"
    by (auto simp: readStateBody_def result_simps)
  show ?thesis
    using readStop_ok [OF stop] nonneg_safe_bound [OF seq] read_node_list_ok [OF nodes(2,1)] nodes(3)
      readLoopTraversals_ok [OF counters] readLoopProgress_ok [OF lp] v
    by (auto simp: ok_state_def st)
qed

interpretation state_body: strict_codec enc_state "\<lambda>body. readStateBody body plan (outcomeStateLayout v reasons)"
    "ok_state (outcomeStateLayout v reasons) plan" for plan v reasons
  by unfold_locales (simp_all add: readStateBody_enc readStateBody_ok)

subsection \<open>The registry\<close>

lemma default_registry_created:
  "createOutcomeStateBodyRegistry (int CURRENT_OUTCOME_STATE_BODY)
     [stateBodyReader OUTCOME_STATE_LAYOUT_V9, stateBodyReader OUTCOME_STATE_LAYOUT_V10] =
   Inr DEFAULT_OUTCOME_STATE_BODY_REGISTRY"
  by (simp add: createOutcomeStateBodyRegistry_def stateBodyReader_def DEFAULT_OUTCOME_STATE_BODY_REGISTRY_def
      OUTCOME_STATE_LAYOUT_V9_def OUTCOME_STATE_LAYOUT_V10_def outcomeStateLayout_def OUTCOME_STATE_BODY_V9_def
      OUTCOME_STATE_BODY_V10_def CURRENT_OUTCOME_STATE_BODY_def max_safe_def set_add_def)

text \<open>The registry has exactly one reader per version, for every build it can be created for.\<close>

lemma install_formats_Inr:
  "install_formats fs installed = Inr out \<Longrightarrow> distinct (map fst fs) \<and> set installed \<inter> fst ` set fs = {} \<and>
     set out = set installed \<union> fst ` set fs \<and> (\<forall>f \<in> set fs. 0 < fst f \<and> fst f \<le> max_safe)"
proof (induction fs arbitrary: installed)
  case (Cons f fs)
  obtain v r where f: "f = (v, r)" by fastforce
  with Cons.prems have "install_formats fs (set_add v installed) = Inr out" "v \<notin> set installed" "0 < v" "v \<le> max_safe"
    by (auto split: if_splits)
  with Cons.IH [OF this(1)] f show ?case by auto
qed simp

lemma layout_of_version:
  "find (\<lambda>f. fst f = int v) (sr_formats DEFAULT_OUTCOME_STATE_BODY_REGISTRY) =
     (if v = 9 then Some (stateBodyReader OUTCOME_STATE_LAYOUT_V9)
      else if v = 10 then Some (stateBodyReader OUTCOME_STATE_LAYOUT_V10) else None)"
  by (auto simp: DEFAULT_OUTCOME_STATE_BODY_REGISTRY_def stateBodyReader_def OUTCOME_STATE_LAYOUT_V9_def
      OUTCOME_STATE_LAYOUT_V10_def outcomeStateLayout_def OUTCOME_STATE_BODY_V9_def OUTCOME_STATE_BODY_V10_def
      CURRENT_OUTCOME_STATE_BODY_def)

definition layout_for :: "nat \<Rightarrow> state_layout" where
  "layout_for v = (if v = 9 then OUTCOME_STATE_LAYOUT_V9 else OUTCOME_STATE_LAYOUT_V10)"

definition readable_state :: "compiled_plan \<Rightarrow> graph_state \<Rightarrow> bool" where
  "readable_state plan st \<longleftrightarrow> gs_bodyVersion st \<in> {9, 10} \<and> ok_state (layout_for (gs_bodyVersion st)) plan st"

lemma layout_for_outcomeStateLayout:
  "layout_for v = outcomeStateLayout (if v = 9 then 9 else 10) (if v = 9 then OUTCOME_STATE_STOP_REASONS_V9 else OUTCOME_STOP_REASONS)"
  by (simp add: layout_for_def OUTCOME_STATE_LAYOUT_V9_def OUTCOME_STATE_LAYOUT_V10_def OUTCOME_STATE_BODY_V9_def
      OUTCOME_STATE_BODY_V10_def CURRENT_OUTCOME_STATE_BODY_def)

lemma readOutcomeGraphState_Inr:
  "readOutcomeGraphState rec plan DEFAULT_OUTCOME_STATE_BODY_REGISTRY = Inr st \<longleftrightarrow>
     sd_graphId rec = cp_graphId plan \<and> sd_planRevision rec = cp_planRevision plan \<and> isRecord (sd_body rec) \<and>
     (\<exists>v \<in> {9, 10}. positive_safe (js_get (sd_body rec) ''bodyVersion'') = Some v \<and>
        readStateBody (sd_body rec) plan (layout_for v) = Inr st)"
  by (auto simp: readOutcomeGraphState_def classifyOutcomeStateBody_def layout_of_version stateBodyReader_def layout_for_def
      split: option.splits if_splits)

lemma readOutcomeGraphState_enc:
  assumes "readable_state plan st"
  shows "readOutcomeGraphState (stateRecordOf st t) plan DEFAULT_OUTCOME_STATE_BODY_REGISTRY = Inr st"
proof -
  have "readStateBody (enc_state st) plan (layout_for (gs_bodyVersion st)) = Inr st"
    using assms state_body.dec_enc unfolding readable_state_def layout_for_outcomeStateLayout by blast
  moreover have "positive_safe (js_get (enc_state st) ''bodyVersion'') = Some (gs_bodyVersion st)" "isRecord (enc_state st)"
    using assms by (auto simp: enc_state_def readable_state_def max_safe_def)
  ultimately show ?thesis
    using assms by (auto simp: readOutcomeGraphState_Inr stateRecordOf_def readable_state_def ok_state_def)
qed

lemma readOutcomeGraphState_ok:
  assumes "readOutcomeGraphState rec plan DEFAULT_OUTCOME_STATE_BODY_REGISTRY = Inr st"
  shows "readable_state plan st"
proof -
  from assms obtain v where v: "v \<in> {9, 10}" "readStateBody (sd_body rec) plan (layout_for v) = Inr st"
    by (auto simp: readOutcomeGraphState_Inr)
  from readStateBody_ok [OF v(2)] have ok: "ok_state (layout_for v) plan st" .
  then have "gs_bodyVersion st = v"
    using v(1) by (auto simp: ok_state_def layout_for_outcomeStateLayout outcomeStateLayout_def)
  with ok v(1) show ?thesis by (simp add: readable_state_def)
qed

end
