(* ===== verification/PersistedRun.thy ===== *)
theory PersistedRun
  imports RunInvariant StateCodecFacts
begin

text \<open>
  Every state a run records can be read back. The codec's well-formedness splits into what the run
  invariant already gives (alignment, canonical arrivals, counters, corroborated stop) and what
  depends on the environment of each step: the clock, the host identity, the accepted artifacts,
  the projected tokens and the platform hash. \<open>step_env_ok\<close> and \<open>start_env_ok\<close> name those conditions and
  \<open>recorded_run\<close> the runs whose every step satisfied them.
\<close>

declare isAttemptCredentialDigest.simps [simp del]

definition ok_entry :: "node_state \<Rightarrow> bool" where
  "ok_entry e \<longleftrightarrow>
     pred_option (list_all ok_refusal) (ns_inputRefusals e) \<and>
     (ns_status e \<noteq> Pending \<longrightarrow>
        isAttemptCredentialDigest (JStr (ns_attemptCredentialDigest e)) \<and> pred_option ok_identity (ns_dispatchIdentity e) \<and>
        ok_epoch (ns_dispatchedAt e) \<and> pred_option (list_all ok_resolved_input) (ns_inputs e)) \<and>
     (ns_status e = Settled \<longrightarrow> ns_outcomeId e \<noteq> [] \<and> ok_epoch (ns_settledAt e))"

definition tokens_ok :: "(string \<times> loop_progress) list \<Rightarrow> bool" where
  "tokens_ok lp \<longleftrightarrow> (\<forall>(k, e) \<in> set lp. pred_option ok_token (lp_baseline e))"

fun stop_epoch :: "outcome_stop \<Rightarrow> int" where
  "stop_epoch (StopLoopExhausted x) = le_stoppedAt x"
| "stop_epoch (StopProgressStalled x) = ps_stoppedAt x"
| "stop_epoch (StopUnreachable x) = up_stoppedAt x"

definition persist_inv :: "graph_state \<Rightarrow> bool" where
  "persist_inv st \<longleftrightarrow>
     (\<forall>e \<in> set (gs_nodes st). ok_entry e) \<and> pred_option tokens_ok (gs_loopProgress st) \<and>
     pred_option (\<lambda>x. ok_epoch (stop_epoch x)) (gs_stop st)"

definition reads_ok :: "(string \<Rightarrow> accepted_result_reading) \<Rightarrow> bool" where
  "reads_ok ra \<longleftrightarrow> (\<forall>a f. ra a = ResultFacts f \<longrightarrow> list_all ok_artifact (arf_artifacts f))"

definition step_env_ok :: "hash_hex \<Rightarrow> advance_input \<Rightarrow> bool" where
  "step_env_ok sha inp \<longleftrightarrow>
     hex_hash sha \<and> ok_epoch (in_now inp) \<and> pred_option ok_identity (in_dispatchIdentity inp) \<and>
     reads_ok (accepted_reader inp) \<and>
     (\<forall>ps p t. in_progress inp = Some ps \<longrightarrow> p \<in> set ps \<longrightarrow> pj_observation p = Token t \<longrightarrow> ok_token t)"

definition start_env_ok :: "start_env \<Rightarrow> bool" where
  "start_env_ok env \<longleftrightarrow>
     hex_hash (se_sha env) \<and> ok_epoch (se_stamp env) \<and> pred_option ok_identity (se_identity env) \<and>
     reads_ok (acceptedResultReaderOf (cp_graphId (se_plan env)) (se_reads env) None)"

subsection \<open>What an assembly binds or refuses\<close>

lemma assembled_ok:
  assumes wf: "wf_plan plan" and n: "n \<in> set (cp_nodes plan)" and ra: "reads_ok ra"
    and s: "\<And>i a. s i = Some a \<Longrightarrow> a \<noteq> []" and arr: "\<forall>r \<in> set arrs. arr_attemptId r \<noteq> []"
  shows "assembleDownstreamInput (inputs_of n) s ra arrs = InputResolved es \<Longrightarrow> list_all ok_resolved_input es"
    and "assembleDownstreamInput (inputs_of n) s ra arrs = InputBlocked rs \<Longrightarrow> list_all ok_refusal rs"
proof -
  have "wf_node plan n" using wf n by (auto simp: wf_plan_def list_all_iff)
  then have i: "cir_from i \<noteq> [] \<and> cir_outcome i \<noteq> []" if "i \<in> set (inputs_of n)" for i
    using that wf_plan_node_id [OF wf] by (fastforce simp: wf_node_def list_all_iff)
  have "ok_resolved_input e" if "i \<in> set (inputs_of n)" "resolve_input s ra arrs i = Some (Inr e)" for i e
  proof -
    note r = resolve_input_Inr [OF that(2)]
    have "ri_attemptId e \<noteq> []" using r(4) s arr by auto
    moreover have "list_all ok_artifact (ri_artifacts e)" using r(3) ra unfolding reads_ok_def by fastforce
    ultimately show ?thesis using i [OF that(1)] r(1,2) by (simp add: ok_resolved_input_def)
  qed
  then have "e \<in> set (resolved_entries s ra arrs (inputs_of n)) \<Longrightarrow> ok_resolved_input e" for e
    by (auto simp: resolved_entries_set)
  then show "assembleDownstreamInput (inputs_of n) s ra arrs = InputResolved es \<Longrightarrow> list_all ok_resolved_input es"
    by (auto simp: assembleDownstreamInput_closed list_all_iff split: if_splits)
  have "ok_refusal r" if "i \<in> set (inputs_of n)" "resolve_input s ra arrs i = Some (Inl r)" for i r
    using resolve_input_Inl [OF that(2)] i [OF that(1)] by (simp add: ok_refusal_def)
  then have "r \<in> set (resolved_refusals s ra arrs (inputs_of n)) \<Longrightarrow> ok_refusal r" for r
    by (auto simp: resolved_refusals_set)
  then show "assembleDownstreamInput (inputs_of n) s ra arrs = InputBlocked rs \<Longrightarrow> list_all ok_refusal rs"
    by (auto simp: assembleDownstreamInput_closed list_all_iff split: if_splits)
qed

lemma settled_result_attempt:
  assumes "attempts_ok nodes seq" and "entry_of nodes i = Some e" and "settled_result e = Some (oc, a)"
  shows "a \<noteq> []"
proof -
  have "ns_status e \<noteq> Pending" "ns_attemptId e = a" using assms(3) by (cases e; simp)+
  moreover have "e \<in> set nodes" using entry_of_Some [OF assms(2)] by simp
  ultimately have "a = attempt_id (ns_nodeId e) (ns_attemptSeq e)" using assms(1) by (auto simp: attempts_ok_def)
  then show ?thesis by simp
qed

lemma settledAttemptOf_nonempty:
  assumes "attempts_ok nodes seq" and "settledAttemptOf nodes i = Some a"
  shows "a \<noteq> []"
proof -
  from assms(2) obtain e where "find (\<lambda>e. ns_nodeId e = i) nodes = Some e" "ns_status e = Settled" "a = ns_attemptId e"
    by (auto simp: settledAttemptOf_def split: option.splits if_splits)
  with assms(1) have "a = attempt_id (ns_nodeId e) (ns_attemptSeq e)"
    by (auto simp: attempts_ok_def dest!: find_Some_in)
  then show ?thesis by simp
qed

lemma arrival_fields:
  assumes wf: "wf_plan plan" and att: "attempts_ok nodes seq" and t: "t \<in> set (node_ids plan)"
    and a: "a \<in> set (arrivals_to plan nodes held t)"
  shows "ok_arrival plan t a"
proof -
  from a arrivals_to_iff [OF wf_plan_distinct [OF wf] t] obtain n where n: "n \<in> set (cp_nodes plan)"
      "arrival_from plan nodes held t n = Some a" by auto
  then obtain e oc q where "entry_of nodes (cn_id n) = Some e" "settled_result e = Some (oc, q)"
      and a: "a = \<lparr>arr_from = cn_id n, arr_outcome = oc, arr_attemptId = q\<rparr>"
      and edge: "\<exists>x \<in> set (cp_edges plan). ce_from x = cn_id n \<and> ce_to x = t \<and> ce_outcome x = oc"
    by (auto simp: arrival_from_def list_ex_iff bind_eq_Some_conv split: if_splits option.splits)
  then have "q \<noteq> []" using settled_result_attempt [OF att] by blast
  moreover have "oc \<noteq> []" using edge wf_plan_edge(3) [OF wf] by auto
  ultimately show ?thesis
    using a edge wf_plan_node_id [OF wf n(1)] by (simp add: ok_arrival_def)
qed

subsection \<open>Entries of a routing\<close>

lemma ok_entry_simps [simp]:
  "ok_entry (with_arrivals as e) = ok_entry e"
  "list_all ok_refusal rs \<Longrightarrow> ok_entry e \<Longrightarrow> ok_entry (with_inputRefusals rs e)"
  "ok_entry e \<Longrightarrow> ns_status e = Dispatched \<Longrightarrow> oc \<noteq> [] \<Longrightarrow> ok_epoch t \<Longrightarrow> ok_entry (settle_entry e oc t)"
proof -
  show "ok_entry (with_arrivals as e) = ok_entry e"
    by (cases e) (simp_all add: ok_entry_def)
  show "list_all ok_refusal rs \<Longrightarrow> ok_entry e \<Longrightarrow> ok_entry (with_inputRefusals rs e)"
    by (cases e) (simp_all add: ok_entry_def)
  show "ok_entry e \<Longrightarrow> ns_status e = Dispatched \<Longrightarrow> oc \<noteq> [] \<Longrightarrow> ok_epoch t \<Longrightarrow> ok_entry (settle_entry e oc t)"
    by (cases e) (simp_all add: ok_entry_def settle_entry_def)
qed

lemma decision_outcome_nonempty:
  assumes "routing_of sha inp recorded pos r" and "wf_plan (in_plan inp)"
  shows "dc_outcomeId (in_decision inp) \<noteq> []"
proof -
  have "dc_outcomeId (in_decision inp) \<noteq> []" if "successors_of inp \<noteq> []"
  proof -
    from that obtain e where "e \<in> set (successors_of inp)" by (cases "successors_of inp") auto
    then show ?thesis using wf_plan_edge(3) [OF assms(2), of e] by (auto simp: successors_of_def)
  qed
  moreover have "dc_outcomeId (in_decision inp) \<noteq> []"
    if "is_terminal_outcome (in_plan inp) (dc_nodeId (in_decision inp)) (dc_outcomeId (in_decision inp))"
    using that wf_plan_terminal [OF assms(2)] by (auto simp: is_terminal_outcome_def list_ex_iff)
  ultimately show ?thesis by (blast intro: routing_of.cases [OF assms(1)])
qed

lemma routed_inputs_ok:
  assumes wf: "wf_plan plan" and att: "attempts_ok nodes seq" and ra: "reads_ok ra"
    and d: "(c, d) \<in> set (routed_decisions plan nodes ra ids)"
  shows "d = InputResolved es \<Longrightarrow> list_all ok_resolved_input es" and "d = InputBlocked rs \<Longrightarrow> list_all ok_refusal rs"
proof -
  note dist = wf_plan_distinct [OF wf]
  have n: "fst c \<in> set (cp_nodes plan)" using routed_decision(1,2) [OF dist d] by simp
  from routed_decision(7) [OF dist d] obtain inFlight where a: "d = assembleDownstreamInput (inputs_of (fst c))
           (\<lambda>i. if i \<in> set inFlight then None else settledAttemptOf nodes i) ra
           (arrivals_to plan nodes inFlight (cn_id (fst c)))" by blast
  have "\<forall>r \<in> set (arrivals_to plan nodes inFlight (cn_id (fst c))). arr_attemptId r \<noteq> []"
    using arrival_fields [OF wf att, of "cn_id (fst c)"] n by (auto simp: ok_arrival_def)
  note ok = assembled_ok [OF wf n ra _ this]
  have s: "(if i \<in> set inFlight then None else settledAttemptOf nodes i) = Some x \<Longrightarrow> x \<noteq> []" for i x
    using settledAttemptOf_nonempty [OF att, of i x] by (auto split: if_splits)
  show "d = InputResolved es \<Longrightarrow> list_all ok_resolved_input es" using ok(1) [OF s] a by simp
  show "d = InputBlocked rs \<Longrightarrow> list_all ok_refusal rs" using ok(2) [OF s] a by simp
qed

lemma routing_entries_ok:
  assumes env: "step_env_ok sha inp" and wf: "wf_plan (in_plan inp)" and r: "routing_of sha inp recorded pos r"
    and old: "\<forall>e \<in> set (gs_nodes (in_state inp)). ok_entry e" and inv: "run_inv (in_plan inp) (in_state inp)"
    and pos: "pos < length (gs_nodes (in_state inp))" "ns_status (gs_nodes (in_state inp) ! pos) = Dispatched"
  shows "\<forall>e \<in> set (as_nodes (rt_arm r)). ok_entry e"
proof -
  have e: "hex_hash sha" "ok_epoch (in_now inp)" "pred_option ok_identity (in_dispatchIdentity inp)"
    "reads_ok (accepted_reader inp)" using env by (simp_all add: step_env_ok_def)
  have settled: "\<forall>e \<in> set (as_nodes (settled_arm inp pos)). ok_entry e"
    using old pos e(2) decision_outcome_nonempty [OF r wf]
    by (auto simp: settled_arm_def dest!: set_update_subset_insert [THEN subsetD])
  have att: "attempts_ok (as_nodes (settled_arm inp pos)) (as_attemptSeq (settled_arm inp pos))"
    using settled_arm_inv [OF inv refl pos] by (simp add: arm_inv_def)
  from r obtain ids where ap: "apply_decisions (arm_context_of sha inp)
      (routed_decisions (in_plan inp) (as_nodes (settled_arm inp pos)) (accepted_reader inp) ids)
      (settled_arm inp pos) = Inr (rt_arm r)" by (rule routing_arm)
  note ok = routed_inputs_ok [OF wf att e(4)]
  show ?thesis
  proof (rule apply_decisions_invariant [OF ap])
    fix c rs and t :: arm_state
    assume "(c, InputBlocked rs) \<in> set (routed_decisions (in_plan inp) (as_nodes (settled_arm inp pos)) (accepted_reader inp) ids)"
      and t: "\<forall>e \<in> set (as_nodes t). ok_entry e"
    then have "list_all ok_refusal rs" using ok(2) by blast
    with t show "\<forall>e \<in> set (as_nodes (record_refusals c rs t)). ok_entry e"
      by (auto simp: record_refusals_nodes dest!: set_update_subset_insert [THEN subsetD])
  next
    fix c es and t t' :: arm_state
    assume "(c, InputResolved es) \<in> set (routed_decisions (in_plan inp) (as_nodes (settled_arm inp pos)) (accepted_reader inp) ids)"
      and t: "\<forall>e \<in> set (as_nodes t). ok_entry e" and d: "dispatch_candidate (arm_context_of sha inp) c es t = Inr t'"
    then have es: "list_all ok_resolved_input es" using ok(1) by blast
    from d obtain cred where "as_nodes t' = (as_nodes t)[snd c :=
       DispatchedNode (cn_id (fst c)) (attempt_id (cn_id (fst c)) (Suc (as_attemptSeq t))) (Suc (as_attemptSeq t))
         (attemptCredentialDigest sha cred) (in_dispatchIdentity inp) (in_now inp) [] (Some es) None]"
      by (rule dispatch_candidate_Inr) (simp add: arm_context_of_def)
    with t es e isAttemptCredentialDigest_digest [OF e(1), of cred] show "\<forall>e \<in> set (as_nodes t'). ok_entry e"
      by (auto simp: ok_entry_def dest!: set_update_subset_insert [THEN subsetD])
  qed (rule settled)
qed

lemma measured_tokens_ok:
  assumes "measureProgress plan gs recorded dec pjs now = Inr m" and "tokens_ok recorded"
    and "\<forall>ps p t. pjs = Some ps \<longrightarrow> p \<in> set ps \<longrightarrow> pj_observation p = Token t \<longrightarrow> ok_token t"
  shows "tokens_ok (me_entries m)"
proof -
  from assms(1) have ml: "measure_loop plan recorded dec pjs now gs \<lparr>me_entries = recorded, me_reports = [], me_stop = None\<rparr> = Inr m"
    by (simp add: measureProgress_def)
  show ?thesis
  proof (rule measure_loop_invariant [OF ml])
    fix g p and m m' :: measured
    assume t: "tokens_ok (me_entries m)" and "measure_group plan recorded dec pjs now g p m = Inr m'"
    then obtain e pj where e: "map_of recorded (clg_id g) = Some e" "pj \<in> set (case pjs of None \<Rightarrow> [] | Some ps \<Rightarrow> ps)"
        "me_entries m' = AList.update (clg_id g) (snd (compareProgress p e pj)) (me_entries m)"
      by (elim measure_group_Inr)
    have "pred_option ok_token (lp_baseline e)" using map_of_SomeD [OF e(1)] assms(2) by (auto simp: tokens_ok_def)
    moreover have "\<forall>t. pj_observation pj = Token t \<longrightarrow> ok_token t" using e(2) assms(3) by (cases pjs) auto
    ultimately have "pred_option ok_token (lp_baseline (snd (compareProgress p e pj)))"
      using compareProgress_baseline [of p e pj] by (auto simp: option.pred_set)
    moreover have "set (AList.update k v al) \<subseteq> insert (k, v) (set al)" for k v and al :: "(string \<times> loop_progress) list"
      by (induction al) auto
    ultimately show "tokens_ok (me_entries m')" using t unfolding e(3) tokens_ok_def by fastforce
  qed (use assms(2) in simp)
qed

lemma measure_stall_epoch:
  assumes "measureProgress plan gs recorded dec pjs now = Inr m" and "me_stop m = Some x"
  shows "ps_stoppedAt x = now"
proof -
  from assms(1) have ml: "measure_loop plan recorded dec pjs now gs \<lparr>me_entries = recorded, me_reports = [], me_stop = None\<rparr> = Inr m"
    by (simp add: measureProgress_def)
  have "\<forall>x. me_stop m = Some x \<longrightarrow> ps_stoppedAt x = now"
  proof (rule measure_loop_invariant [OF ml])
    fix g p and m m' :: measured
    assume "\<forall>x. me_stop m = Some x \<longrightarrow> ps_stoppedAt x = now" and "measure_group plan recorded dec pjs now g p m = Inr m'"
    then show "\<forall>x. me_stop m' = Some x \<longrightarrow> ps_stoppedAt x = now"
      by (elim measure_group_Inr) (cases "me_stop m"; fastforce simp: stalled_stop_def)
  qed simp
  with assms(2) show ?thesis by simp
qed

subsection \<open>Every step keeps what persistence needs\<close>

lemma stop_epoch_final:
  "ok_epoch t \<Longrightarrow> pred_option (\<lambda>x. ok_epoch (stop_epoch x)) s \<Longrightarrow>
   pred_option (\<lambda>x. ok_epoch (stop_epoch x)) (final_stop plan nodes t s)"
  by (simp add: final_stop_def Let_def)

lemma canonicalise_set: "set (canonicalise plan nodes) \<subseteq> {with_arrivals as e | as e. e \<in> set nodes}"
  by (auto simp: canonicalise_def Let_def)

lemma advance_persist:
  assumes env: "step_env_ok sha inp" and wf: "wf_plan (in_plan inp)" and inv: "run_inv (in_plan inp) (in_state inp)"
    and old: "persist_inv (in_state inp)" and adv: "advanceOutcomeGraph sha inp = Inr a"
  shows "persist_inv (av_state a)"
  using adv
proof (rule advance_cases)
  fix pos recorded r
  assume rec: "gs_loopProgress (in_state inp) = Some recorded"
    and pos: "pos < length (gs_nodes (in_state inp))" "ns_status (gs_nodes (in_state inp) ! pos) = Dispatched"
    and r: "routing_of sha inp recorded pos r"
    and a: "a = conclude (in_plan inp) (in_state inp) (in_now inp) r"
  have tok: "tokens_ok recorded" using old rec by (simp add: persist_inv_def)
  have now: "ok_epoch (in_now inp)" using env by (simp add: step_env_ok_def)
  have entries: "\<forall>e \<in> set (as_nodes (rt_arm r)). ok_entry e"
    using routing_entries_ok [OF env wf r _ inv pos] old by (simp add: persist_inv_def)
  have lp: "tokens_ok (rt_loopProgress r)"
    using r
  proof cases
    case (stalled counted m x)
    then show ?thesis using measured_tokens_ok [OF stalled(4) tok] env by (simp add: step_env_ok_def)
  next
    case (routed counted m arm)
    then show ?thesis using measured_tokens_ok [OF routed(4) tok] env by (simp add: step_env_ok_def)
  qed (use tok in auto)
  have stop: "pred_option (\<lambda>x. ok_epoch (stop_epoch x)) (rt_stop r)"
    using r
  proof cases
    case (stalled counted m x)
    from measure_stall_epoch [OF stalled(4,5)] now stalled(1) show ?thesis by simp
  qed (use now in \<open>auto simp: exhausted_stop_def\<close>)
  show ?thesis
    using entries lp stop_epoch_final [OF now stop] canonicalise_set [of "in_plan inp" "as_nodes (rt_arm r)"]
    by (fastforce simp: a persist_inv_def conclude_def Let_def)
qed

lemma mint_nodes_entries:
  assumes "mint_nodes env ids rest m = Inr m'" and "start_env_ok env" and "wf_plan (se_plan env)"
    and "set rest \<subseteq> set (cp_nodes (se_plan env))" and "\<forall>e \<in> set (ms_nodes m). ok_entry e"
  shows "\<forall>e \<in> set (ms_nodes m'). ok_entry e"
  using assms
proof (induction rest arbitrary: m)
  case (Cons n rest)
  have env: "hex_hash (se_sha env)" "ok_epoch (se_stamp env)" "pred_option ok_identity (se_identity env)"
    "reads_ok (acceptedResultReaderOf (cp_graphId (se_plan env)) (se_reads env) None)"
    using Cons.prems(2) by (simp_all add: start_env_ok_def)
  show ?case
  proof (cases "cn_id n \<in> set ids")
    case True
    with Cons.prems(1) obtain m1 where m1: "mint_entry env n m = Inr m1" "mint_nodes env ids rest m1 = Inr m'"
      by (auto simp: result_simps)
    from m1(1) obtain es cred where e: "ms_nodes m1 = ms_nodes m @ [DispatchedNode (cn_id n) (attempt_id (cn_id n) (Suc (ms_attemptSeq m)))
         (Suc (ms_attemptSeq m)) (attemptCredentialDigest (se_sha env) cred) (se_identity env) (se_stamp env) [] (Some es) None]"
      and a: "assembleDownstreamInput (inputs_of n) (\<lambda>_. None)
         (acceptedResultReaderOf (cp_graphId (se_plan env)) (se_reads env) None) [] = InputResolved es"
      by (rule mint_entry_Inr)
    have "list_all ok_resolved_input es"
      using assembled_ok(1) [OF Cons.prems(3) _ env(4) _ _ a] Cons.prems(4) by simp
    then have "\<forall>e \<in> set (ms_nodes m1). ok_entry e"
      using Cons.prems(5) env isAttemptCredentialDigest_digest [OF env(1), of cred]
      by (auto simp: e ok_entry_def)
    with Cons.IH [OF m1(2)] Cons.prems show ?thesis by simp
  next
    case False
    let ?m = "m\<lparr>ms_nodes := ms_nodes m @ [PendingNode (cn_id n) [] None]\<rparr>"
    have m: "mint_nodes env ids rest ?m = Inr m'" using Cons.prems(1) False by simp
    have "ok_entry (PendingNode (cn_id n) [] None)" by (simp add: ok_entry_def)
    with Cons.prems(5) have "\<forall>e \<in> set (ms_nodes ?m). ok_entry e" by simp
    with Cons.IH [OF m Cons.prems(2,3)] Cons.prems(4) show ?thesis by simp
  qed
qed simp

lemma initial_tokens: "tokens_ok (initial_progress plan)"
proof -
  have "tokens_ok acc \<Longrightarrow> tokens_ok (foldl (\<lambda>acc g. case clg_progress g of
         None \<Rightarrow> acc
       | Some policy \<Rightarrow> AList.update (clg_id g)
             \<lparr>lp_loopGroupId = clg_id g, lp_evaluator = cpp_evaluator policy, lp_version = cpp_version policy,
              lp_subject = cpp_subject policy, lp_unchanged = 0, lp_baseline = None\<rparr> acc) acc gs)" for acc gs
  proof (induction gs arbitrary: acc)
    case (Cons g gs)
    have "set (AList.update k v al) \<subseteq> insert (k, v) (set al)" for k v and al :: "(string \<times> loop_progress) list"
      by (induction al) auto
    then have "tokens_ok (AList.update k v al)" if "tokens_ok al" "lp_baseline v = None" for k v al
      using that unfolding tokens_ok_def by fastforce
    with Cons show ?case by (auto split: option.split)
  qed simp
  note fold = this
  show ?thesis unfolding initial_progress_def by (rule fold) (simp add: tokens_ok_def)
qed

lemma start_persist:
  assumes "start_env_ok env" and "wf_plan (se_plan env)" and "startRun env surface = Inr r"
  shows "persist_inv (rs_state r)"
proof -
  from assms(3) obtain m where "mint_nodes env (js_set (map cn_id (entryNodesOf (se_plan env)))) (cp_nodes (se_plan env))
        \<lparr>ms_nodes = [], ms_attemptSeq = 0, ms_dispatched = [], ms_effects = [],
         ms_budget = mint_run_row (cp_graphId (se_plan env)) (se_runId env) surface\<rparr> = Inr m"
      and st: "gs_nodes (rs_state r) = ms_nodes m" "gs_stop (rs_state r) = None"
        "gs_loopProgress (rs_state r) = Some (initial_progress (se_plan env))"
    by (auto simp: startRun_def mintRunInTransaction_def Let_def result_simps split: if_splits)
  from mint_nodes_entries [OF this(1) assms(1,2)] have "\<forall>e \<in> set (ms_nodes m). ok_entry e" by simp
  with st initial_tokens show ?thesis by (simp add: persist_inv_def)
qed

subsection \<open>Recorded runs\<close>

inductive recorded_run :: "hash_hex \<Rightarrow> compiled_plan \<Rightarrow> graph_state \<Rightarrow> bool" for sha plan where
  started: "se_plan env = plan \<Longrightarrow> se_sha env = sha \<Longrightarrow> start_env_ok env \<Longrightarrow> startRun env surface = Inr r \<Longrightarrow>
     recorded_run sha plan (rs_state r)"
| advanced: "recorded_run sha plan (in_state inp) \<Longrightarrow> in_plan inp = plan \<Longrightarrow> step_env_ok sha inp \<Longrightarrow>
     advanceOutcomeGraph sha inp = Inr a \<Longrightarrow> recorded_run sha plan (av_state a)"

lemma recorded_run_of: "recorded_run sha plan st \<Longrightarrow> run_of sha plan st"
  by (induction rule: recorded_run.induct) (blast intro: run_of.intros)+

lemma recorded_run_persist: "recorded_run sha plan st \<Longrightarrow> wf_plan plan \<Longrightarrow> persist_inv st"
proof (induction rule: recorded_run.induct)
  case (started env surface r)
  then show ?case using start_persist by blast
next
  case (advanced inp a)
  have "run_inv plan (in_state inp)" using advanced by (blast intro: run_of_inv recorded_run_of)
  with advanced show ?case using advance_persist by blast
qed

subsection \<open>A recorded state is readable\<close>

lemma foldl_update_opt:
  assumes "distinct (map k gs)"
  shows "map_of (foldl (\<lambda>m g. case f g of None \<Rightarrow> m | Some p \<Rightarrow> AList.update (k g) p m) acc gs) i = Some p \<longleftrightarrow>
    (\<exists>g \<in> set gs. k g = i \<and> f g = Some p) \<or> ((\<forall>g \<in> set gs. k g = i \<longrightarrow> f g = None) \<and> map_of acc i = Some p)"
  using assms
proof (induction gs arbitrary: acc)
  case (Cons g gs)
  have g: "\<forall>h \<in> set gs. k h \<noteq> k g" using Cons.prems by (auto simp: image_iff)
  show ?case
    using Cons.IH Cons.prems g by (cases "f g"; cases "k g = i") (auto simp: update_conv')
qed simp

lemma policy_of_iff:
  assumes "wf_plan plan"
  shows "policy_of plan i = Some p \<longleftrightarrow> (\<exists>g \<in> set (cp_loopGroups plan). clg_id g = i \<and> clg_progress g = Some p)"
  unfolding policy_of_def using foldl_update_opt [of clg_id "cp_loopGroups plan" clg_progress "[]" i p]
    wf_plan_groups_distinct [OF assms] by simp

lemma counters_ok_readable:
  assumes "wf_plan plan" and "counters_ok plan al"
  shows "ok_counters plan al"
  unfolding ok_counters_def
proof (intro conjI ballI)
  show "distinct (map fst al)" using assms(2) by (simp add: counters_ok_def)
  fix kv assume kv: "kv \<in> set al"
  obtain k v where p: "kv = (k, v)" by fastforce
  from kv p assms(2) obtain g where g: "g \<in> set (cp_loopGroups plan)" "clg_id g = k"
    by (auto simp: counters_ok_def)
  have "traversals_of al k = v" using kv p assms(2) by (simp add: traversals_of_def counters_ok_def)
  then have "v \<le> clg_maxTraversals g" using g assms(2) by (auto simp: counters_ok_def)
  with wf_plan_group [OF assms(1) g(1)] g p show "case kv of (k, v) \<Rightarrow> k \<in> clg_id ` set (cp_loopGroups plan) \<and> int v \<le> max_safe"
    by (auto simp: wf_group_def)
qed

lemma progress_ok_readable:
  assumes wf: "wf_plan plan" and ok: "progress_ok plan st lp" and tok: "tokens_ok lp"
  shows "ok_progress plan lp"
  unfolding ok_progress_def
proof (intro conjI ballI)
  show "distinct (map fst lp)" using ok by (simp add: progress_ok_def)
  fix ke assume ke: "ke \<in> set lp"
  obtain k e where p: "ke = (k, e)" by fastforce
  from ke p have "k \<in> fst ` set lp" by force
  with ok obtain g q where g: "g \<in> set (cp_loopGroups plan)" "clg_id g = k" "clg_progress g = Some q"
    unfolding progress_ok_def by auto
  have "map_of lp k = Some e" using ke p ok by (simp add: progress_ok_def)
  with g ok have e: "entry_ok st g q e" unfolding progress_ok_def by fastforce
  have q: "wf_policy q" using wf_plan_group [OF wf g(1)] g(3) by (simp add: wf_group_def)
  have "ok_progress_entry k q e"
    using e q g(2) tok ke p by (fastforce simp: ok_progress_entry_def entry_ok_def wf_policy_def ok_count_def tokens_ok_def)
  then show "case ke of (k, e) \<Rightarrow> \<exists>p. policy_of plan k = Some p \<and> ok_progress_entry k p e"
    using policy_of_iff [OF wf, of k q] g p by auto
next
  fix g assume "g \<in> set (cp_loopGroups plan)"
  then show "clg_progress g \<noteq> None \<longrightarrow> clg_id g \<in> fst ` set lp" using ok unfolding progress_ok_def by blast
qed

lemma traverse_unit: "(\<forall>x \<in> set xs. f x = Inr ()) \<Longrightarrow> rbind (traverse f xs) (\<lambda>_. Inr ()) = Inr ()"
proof -
  assume "\<forall>x \<in> set xs. f x = Inr ()"
  then have "\<exists>ys. traverse f xs = Inr ys" by (induction xs) auto
  then show ?thesis by auto
qed

lemma progress_ok_verified:
  assumes "progress_ok plan (is_stall s) lp"
  shows "verifyProgress plan lp s = Inr ()"
  unfolding verifyProgress_def
proof (intro traverse_unit ballI)
  fix g assume g: "g \<in> set (cp_loopGroups plan)"
  have stall: "is_stalled_body s = is_stall s" by (cases s rule: is_stall.cases) (simp_all add: is_stalled_body_def)
  show "(case clg_progress g of
           None \<Rightarrow> Inr ()
         | Some policy \<Rightarrow>
             rbind (required (map_of lp (clg_id g)) ''progress entry'') (\<lambda>entry.
             rbind (ensure (lp_unchanged entry \<le> cpp_maxUnchanged policy) (malformedState ''above the threshold'')) (\<lambda>_.
               ensure (is_stalled_body s \<or> lp_unchanged entry \<noteq> cpp_maxUnchanged policy)
                 (malformedState ''on the threshold without a stop'')))) = Inr ()"
  proof (cases "clg_progress g")
    case (Some p)
    with assms g obtain e where "map_of lp (clg_id g) = Some e" "entry_ok (is_stall s) g p e"
      unfolding progress_ok_def by blast
    with Some stall show ?thesis by (auto simp: entry_ok_def ensure_def)
  qed simp
qed

lemma wf_plan_id_nonempty:
  assumes "wf_plan plan" and "i \<in> set (node_ids plan)"
  shows "i \<noteq> []"
proof -
  from assms(2) obtain n where "n \<in> set (cp_nodes plan)" "i = cn_id n" by auto
  with wf_plan_node_id [OF assms(1), of n] show ?thesis by simp
qed

lemma settled_as_named:
  assumes "distinct (map ns_nodeId nodes)" and "settled_as nodes i oc a"
  shows "settled_entry_named nodes i oc a"
proof -
  from assms(2) obtain e where e: "e \<in> set nodes" "ns_nodeId e = i" "settled_result e = Some (oc, a)"
    by (auto simp: settled_as_def)
  from find_key_distinct [OF assms(1) e(1)] e(2) have "find (\<lambda>x. ns_nodeId x = i) nodes = Some e" by simp
  with e(3) show ?thesis by (cases e) (simp_all add: settled_entry_named_def)
qed

lemma settled_as_fields:
  assumes "settled_as nodes i oc a" and "\<forall>e \<in> set nodes. ok_entry e" and "attempts_ok nodes seq"
  shows "oc \<noteq> []" and "a \<noteq> []"
proof -
  from assms(1) obtain e where e: "e \<in> set nodes" "settled_result e = Some (oc, a)" by (auto simp: settled_as_def)
  have s: "ns_status e = Settled" "ns_outcomeId e = oc" "ns_attemptId e = a"
    using e(2) by (cases e rule: settled_result.cases; simp)+
  have "ok_entry e" using assms(2) e(1) by (rule bspec)
  with s show "oc \<noteq> []" by (simp add: ok_entry_def)
  have "a = attempt_id (ns_nodeId e) (ns_attemptSeq e)" using assms(3) e(1) s by (auto simp: attempts_ok_def)
  then show "a \<noteq> []" by simp
qed

lemma exhausted_readable:
  assumes wf: "wf_plan plan" and ok: "exhausted_ok plan st x" and inv: "run_inv plan st" "persist_inv st"
    and t: "ok_epoch (le_stoppedAt x)"
  shows "ok_stop_fields (StopLoopExhausted x)"
    and "verifyLoopExhaustedStop plan (gs_nodes st) (gs_loopTraversals st) x = Inr ()"
proof -
  from ok obtain g where g: "g \<in> set (cp_loopGroups plan)" "clg_id g = le_loopGroupId x" "clg_maxTraversals g = le_maxTraversals x"
      "le_nodeId x \<in> set (clg_nodes g)" "clg_continuationOutcome g = le_outcomeId x"
    and s: "settled_as (gs_nodes st) (le_nodeId x) (le_outcomeId x) (le_attemptId x)"
    and c: "traversals_of (gs_loopTraversals st) (le_loopGroupId x) = le_traversals x" "le_traversals x = le_maxTraversals x"
    by (auto simp: exhausted_ok_def)
  have wg: "wf_group plan g" by (rule wf_plan_group [OF wf g(1)])
  have ids: "distinct (map ns_nodeId (gs_nodes st))" using inv(1) wf_plan_distinct [OF wf] by (simp add: run_inv_def)
  have "le_nodeId x \<in> set (node_ids plan)" using wg g(4) by (auto simp: wf_group_def list_all_iff)
  then have "le_nodeId x \<noteq> []" by (rule wf_plan_id_nonempty [OF wf])
  moreover have "le_outcomeId x \<noteq> []" "le_attemptId x \<noteq> []"
    using settled_as_fields [OF s] inv by (auto simp: run_inv_def persist_inv_def)
  ultimately show "ok_stop_fields (StopLoopExhausted x)"
    using wg g c t by (auto simp: wf_group_def ok_count_def)
  have "find (\<lambda>h. clg_id h = le_loopGroupId x) (cp_loopGroups plan) = Some g"
    using find_key_distinct [OF wf_plan_groups_distinct [OF wf] g(1)] g(2) by simp
  then show "verifyLoopExhaustedStop plan (gs_nodes st) (gs_loopTraversals st) x = Inr ()"
    using g c settled_as_named [OF ids s] by (simp add: verifyLoopExhaustedStop_def)
qed

lemma stalled_readable:
  assumes wf: "wf_plan plan" and ok: "stalled_ok plan st x" and inv: "run_inv plan st" "persist_inv st"
    and t: "ok_epoch (ps_stoppedAt x)" and lp: "gs_loopProgress st = Some lp"
  shows "ok_stop_fields (StopProgressStalled x)"
    and "verifyProgressStalledStop plan (gs_nodes st) lp x = Inr ()"
proof -
  from ok lp obtain g p e where g: "g \<in> set (cp_loopGroups plan)" "clg_id g = ps_loopGroupId x" "clg_progress g = Some p"
      "ps_nodeId x \<in> set (clg_nodes g)" "clg_continuationOutcome g = ps_outcomeId x"
    and p: "cpp_maxUnchanged p = ps_maxUnchanged x" "cpp_evaluator p = ps_evaluator x" "cpp_subject p = ps_subject x"
    and e: "map_of lp (clg_id g) = Some e" "lp_evaluator e = ps_evaluator x" "lp_version e = ps_evaluatorVersion x"
      "lp_subject e = ps_subject x" "lp_unchanged e = ps_unchanged x" "lp_baseline e = Some (ps_baseline x)"
    and s: "settled_as (gs_nodes st) (ps_nodeId x) (ps_outcomeId x) (ps_attemptId x)"
    and u: "ps_unchanged x = ps_maxUnchanged x"
    by (auto simp: stalled_ok_def)
  have wg: "wf_group plan g" by (rule wf_plan_group [OF wf g(1)])
  have ids: "distinct (map ns_nodeId (gs_nodes st))" using inv(1) wf_plan_distinct [OF wf] by (simp add: run_inv_def)
  have "ps_nodeId x \<in> set (node_ids plan)" using wg g(4) by (auto simp: wf_group_def list_all_iff)
  then have "ps_nodeId x \<noteq> []" by (rule wf_plan_id_nonempty [OF wf])
  moreover have "ps_outcomeId x \<noteq> []" "ps_attemptId x \<noteq> []"
    using settled_as_fields [OF s] inv by (auto simp: run_inv_def persist_inv_def)
  moreover have "ok_token (ps_baseline x)"
    using inv(2) lp map_of_SomeD [OF e(1)] e(6) by (fastforce simp: persist_inv_def tokens_ok_def)
  moreover have "lp_version e = cpp_version p"
    using inv(1) lp g e(1) unfolding run_inv_def progress_ok_def entry_ok_def by fastforce
  ultimately show "ok_stop_fields (StopProgressStalled x)"
    using wg g p e u t by (auto simp: wf_group_def wf_policy_def ok_count_def)
  have "find (\<lambda>h. clg_id h = ps_loopGroupId x) (cp_loopGroups plan) = Some g"
    using find_key_distinct [OF wf_plan_groups_distinct [OF wf] g(1)] g(2) by simp
  then show "verifyProgressStalledStop plan (gs_nodes st) lp x = Inr ()"
    using g p e u settled_as_named [OF ids s] by (simp add: verifyProgressStalledStop_def)
qed

lemma unreachable_readable:
  assumes wf: "wf_plan plan" and ok: "unreachable_ok plan st x" and inv: "run_inv plan st" and t: "ok_epoch (up_stoppedAt x)"
  shows "ok_stop_fields (StopUnreachable x)"
    and "verifyUnreachablePendingNodeStop plan (gs_nodes st) x = Inr ()"
proof -
  let ?P = "\<lambda>n. status_of (gs_nodes st) (cn_id n) = Some Pending \<and> feederSourcesOf plan (cn_id n) \<noteq> []"
  have b: "up_blockedNodes x = map (\<lambda>n. (cn_id n, feederSourcesOf plan (cn_id n))) (filter ?P (cp_nodes plan))"
    using ok unsatisfiable_nothing_dispatched [OF wf_plan_distinct [OF wf], of "gs_nodes st"]
    by (auto simp: unreachable_ok_def some_dispatched_def list_ex_iff)
  have e: "unsatisfiablePendingNodes plan (gs_nodes st) = up_blockedNodes x" using ok by (simp add: unreachable_ok_def)
  have d: "distinct (map fst (up_blockedNodes x))"
    using wf_plan_distinct [OF wf] unfolding b by (simp add: comp_def distinct_map_filter)
  have f: "f \<noteq> []" if "f \<in> set (feederSourcesOf plan i)" for f i
    by (rule wf_plan_id_nonempty [OF wf feeder_is_node [OF wf that]])
  show "ok_stop_fields (StopUnreachable x)"
    using d t f sorted_feederSourcesOf [OF wf] by (auto simp: b)
  have key: "i \<in> set (node_ids plan) \<and> i \<in> ns_nodeId ` set (filter (\<lambda>e. ns_status e = Pending) (gs_nodes st)) \<and>
      map_of (up_blockedNodes x) i = Some (feederSourcesOf plan i)" if "i \<in> fst ` set (up_blockedNodes x)" for i
  proof -
    from that obtain n where n: "n \<in> set (cp_nodes plan)" "?P n" "i = cn_id n" by (auto simp: b)
    from n(2) obtain y where "entry_of (gs_nodes st) i = Some y" "ns_status y = Pending"
      by (auto simp: status_of_def n(3))
    with entry_of_Some [of "gs_nodes st" i y] have "i \<in> ns_nodeId ` set (filter (\<lambda>e. ns_status e = Pending) (gs_nodes st))"
      by force
    moreover have "(i, feederSourcesOf plan i) \<in> set (up_blockedNodes x)" using n by (auto simp: b)
    with d have "map_of (up_blockedNodes x) i = Some (feederSourcesOf plan i)" by simp
    ultimately show ?thesis using n by simp
  qed
  have sorted: "sort (feederSourcesOf plan i) = feederSourcesOf plan i" for i
    using sorted_feederSourcesOf [OF wf] by (simp add: sorted_sort_id)
  have units: "traverse g xs = Inr (map (\<lambda>_. ()) xs)" if "\<forall>i \<in> set xs. g i = Inr ()" for g :: "string \<Rightarrow> state_error + unit" and xs
    using that by (induction xs) auto
  let ?rec = "sort (map fst (up_blockedNodes x))"
  have named: "traverse (\<lambda>i. rbind (ensure (i \<in> set (js_set (node_ids plan))) (malformedState ''stop names an undeclared node''))
      (\<lambda>_. ensure (i \<in> set (js_set (map ns_nodeId (filter (\<lambda>e. ns_status e = Pending) (gs_nodes st)))))
        (malformedState ''stop names a node that is not pending''))) ?rec = Inr (map (\<lambda>_. ()) ?rec)"
    by (rule units) (use key in \<open>auto simp: ensure_def\<close>)
  have feeders: "traverse (\<lambda>i. let feeders = sort (feederSourcesOf plan i);
        named = (case map_of (up_blockedNodes x) i of None \<Rightarrow> [] | Some fs \<Rightarrow> fs)
      in ensure (js_join [nul] named = js_join [nul] feeders) (malformedState ''stranded feeders'')) ?rec =
      Inr (map (\<lambda>_. ()) ?rec)"
    by (rule units) (use key sorted in \<open>auto simp: ensure_def Let_def\<close>)
  show "verifyUnreachablePendingNodeStop plan (gs_nodes st) x = Inr ()"
    using named feeders by (simp add: verifyUnreachablePendingNodeStop_def e)
qed

lemma recorded_readable:
  assumes wf: "wf_plan plan" and inv: "run_inv plan st" and per: "persist_inv st" and seq: "int (gs_attemptSeq st) \<le> max_safe"
  shows "readable_state plan st"
proof -
  obtain lp where lp: "gs_loopProgress st = Some lp" using inv by (auto simp: run_inv_def)
  have L: "layout_for 10 = outcomeStateLayout 10 OUTCOME_STOP_REASONS" by (simp add: layout_for_outcomeStateLayout)
  have stop: "ok_stop_fields x \<and> verifyStop plan (gs_nodes st) (gs_loopTraversals st) lp x = Inr ()" if "gs_stop st = Some x" for x
  proof (cases x)
    case (StopLoopExhausted y)
    with that inv per exhausted_readable [OF wf _ inv per, of y] show ?thesis
      by (auto simp: run_inv_def stop_ok_def persist_inv_def)
  next
    case (StopProgressStalled y)
    with that inv per stalled_readable [OF wf _ inv per _ lp, of y] show ?thesis
      by (auto simp: run_inv_def stop_ok_def persist_inv_def)
  next
    case (StopUnreachable y)
    with that inv per unreachable_readable [OF wf _ inv, of y] show ?thesis
      by (auto simp: run_inv_def stop_ok_def persist_inv_def)
  qed
  have reason: "reason_of x \<in> set OUTCOME_STOP_REASONS" for x by (cases x) (simp_all add: OUTCOME_STOP_REASONS_def)
  have nodes: "list_all2 (ok_node plan) (cp_nodes plan) (gs_nodes st)"
  proof (rule list_all2_all_nthI)
    have ids: "map ns_nodeId (gs_nodes st) = node_ids plan" using inv by (simp add: run_inv_def)
    then show len: "length (cp_nodes plan) = length (gs_nodes st)" by (metis length_map)
    fix k assume k: "k < length (cp_nodes plan)"
    let ?e = "gs_nodes st ! k"
    have e: "?e \<in> set (gs_nodes st)" and id: "ns_nodeId ?e = cn_id (cp_nodes plan ! k)"
      using k len ids by (auto simp: list_eq_iff_nth_eq)
    have mem: "cn_id (cp_nodes plan ! k) \<in> set (node_ids plan)" using k by simp
    have arr: "ns_arrivals ?e = arrivals_to plan (gs_nodes st) [] (cn_id (cp_nodes plan ! k))"
      using inv e id by (simp add: run_inv_def)
    have att: "attempts_ok (gs_nodes st) (gs_attemptSeq st)" using inv by (simp add: run_inv_def)
    have "ok_arrivals plan (cn_id (cp_nodes plan ! k)) (ns_arrivals ?e)"
      unfolding arr ok_arrivals_def
      using arrivals_to_distinct [OF wf_plan_distinct [OF wf] mem] arrival_fields [OF wf att mem] by blast
    moreover have "ok_entry ?e" using per e by (simp add: persist_inv_def)
    moreover have "ns_status ?e \<noteq> Pending \<longrightarrow> ns_attemptId ?e \<noteq> [] \<and> ok_count (ns_attemptSeq ?e)"
      using att e seq by (fastforce simp: attempts_ok_def ok_count_def)
    ultimately show "ok_node plan (cp_nodes plan ! k) ?e" using id by (auto simp: ok_node_def ok_attempt_def ok_entry_def)
  qed
  have "gs_phase st = Stopped \<longleftrightarrow> gs_stop st \<noteq> None" using inv by (auto simp: run_inv_def phase_of_def split: if_splits)
  moreover have "verifyArrivals plan (gs_nodes st) = Inr ()" using inv by (simp add: verifyArrivals_iff run_inv_def)
  moreover have "ok_counters plan (gs_loopTraversals st)" using counters_ok_readable [OF wf] inv by (simp add: run_inv_def)
  moreover have "ok_progress plan lp" "verifyProgress plan lp (gs_stop st) = Inr ()"
    using progress_ok_readable [OF wf, of "is_stall (gs_stop st)" lp] progress_ok_verified [of plan "gs_stop st" lp] inv lp per
    by (auto simp: run_inv_def persist_inv_def)
  moreover have "gs_bodyVersion st = 10"
    using inv by (simp add: run_inv_def CURRENT_OUTCOME_STATE_BODY_def OUTCOME_STATE_BODY_V10_def)
  moreover have "gs_graphId st = cp_graphId plan" "gs_planRevision st = cp_planRevision plan" using inv by (simp_all add: run_inv_def)
  ultimately show ?thesis
    unfolding readable_state_def ok_state_def using stop reason nodes seq lp by (simp add: L outcomeStateLayout_def)
qed

lemma recorded_run_readable:
  assumes "wf_plan plan" and "recorded_run sha plan st" and "int (gs_attemptSeq st) \<le> max_safe"
  shows "readable_state plan st"
  by (rule recorded_readable [OF assms(1) run_of_inv [OF recorded_run_of [OF assms(2)] assms(1)]
      recorded_run_persist [OF assms(2,1)] assms(3)])

end
