(* ===== verification/AdvanceFacts.thy ===== *)
theory AdvanceFacts
  imports RunInvariant
begin

text \<open>
  What one advance does to the node entries and to the dispatches it reports: an attempt in flight
  is never replaced, the dispatch intents and the newly dispatched entries correspond exactly, and
  a decision is applied at most once.
\<close>

subsection \<open>The decisions of an arm, entry by entry\<close>

definition intent_matches :: "arm_context \<Rightarrow> candidate \<Rightarrow> resolved_input list \<Rightarrow> node_state \<Rightarrow> dispatch_intent \<Rightarrow> bool" where
  "intent_matches ctx c es e d \<longleftrightarrow>
     di_nodeId d = cn_id (fst c) \<and> di_agent d = cn_agent (fst c) \<and> di_prompt d = cn_prompt (fst c) \<and> di_inputs d = es \<and>
     ns_status e = Dispatched \<and> ns_nodeId e = cn_id (fst c) \<and> ns_attemptId e = di_attemptId d \<and>
     ns_attemptCredentialDigest e = attemptCredentialDigest (ac_sha ctx) (di_credential d) \<and>
     ns_dispatchIdentity e = ac_identity ctx \<and> ns_dispatchedAt e = ac_now ctx \<and> ns_inputs e = Some es"

lemma dispatch_candidate_intent:
  assumes "dispatch_candidate ctx c es s = Inr s'" and "snd c < length (as_nodes s)"
  shows "\<exists>d. as_dispatches s' = as_dispatches s @ [d] \<and> intent_matches ctx c es (as_nodes s' ! snd c) d \<and>
    ns_attemptSeq (as_nodes s' ! snd c) = Suc (as_attemptSeq s) \<and>
    di_attemptId d = attempt_id (cn_id (fst c)) (Suc (as_attemptSeq s))"
  using assms by (elim dispatch_candidate_Inr) (auto simp: intent_matches_def)

text \<open>
  The dispatches reported are, in order, those of the resolved decisions; each has its entry.
\<close>

lemma apply_decisions_intents:
  assumes "apply_decisions ctx ds s = Inr s'" and "distinct (map (\<lambda>x. snd (fst x)) ds)"
    and "\<forall>x \<in> set ds. snd (fst x) < length (as_nodes s)"
  shows "\<exists>new. as_dispatches s' = as_dispatches s @ new \<and>
    list_all2 (\<lambda>x d. \<exists>es. snd x = InputResolved es \<and> intent_matches ctx (fst x) es (as_nodes s' ! snd (fst x)) d)
      (filter (\<lambda>x. is_resolved (snd x)) ds) new \<and>
    (\<forall>d \<in> set new. \<exists>q > as_attemptSeq s. di_attemptId d = attempt_id (di_nodeId d) q)"
  using assms
proof (induction ds arbitrary: s)
  case (Cons x ds)
  obtain c i where x: "x = (c, i)" by fastforce
  show ?case
  proof (cases i)
    case (InputBlocked rs)
    let ?s = "record_refusals c rs s"
    have ap: "apply_decisions ctx ds ?s = Inr s'" using Cons.prems(1) by (simp add: x InputBlocked)
    have "\<forall>x \<in> set ds. snd (fst x) < length (as_nodes ?s)" using Cons.prems(3) by (simp add: record_refusals_nodes)
    from Cons.IH [OF ap _ this] Cons.prems(2) show ?thesis by (simp add: x InputBlocked record_refusals_nodes)
  next
    case (InputResolved es)
    with Cons.prems(1) x obtain s1 where s1: "dispatch_candidate ctx c es s = Inr s1" "apply_decisions ctx ds s1 = Inr s'"
      by (auto simp: result_simps)
    have pos: "snd c < length (as_nodes s)" using Cons.prems(3) x by simp
    from dispatch_candidate_intent [OF s1(1) pos] obtain d where d: "as_dispatches s1 = as_dispatches s @ [d]"
        "intent_matches ctx c es (as_nodes s1 ! snd c) d" "di_attemptId d = attempt_id (cn_id (fst c)) (Suc (as_attemptSeq s))"
      by auto
    have len: "length (as_nodes s1) = length (as_nodes s)" and seq: "as_attemptSeq s1 = Suc (as_attemptSeq s)"
      using s1(1) by (auto elim: dispatch_candidate_Inr)
    have "as_nodes s' ! snd c = as_nodes s1 ! snd c"
      using apply_decisions_frame [OF s1(2)] Cons.prems(2) x by (simp add: image_iff)
    with d(2) have m: "intent_matches ctx c es (as_nodes s' ! snd c) d" by simp
    from Cons.IH [OF s1(2)] Cons.prems(2,3) len obtain new where new: "as_dispatches s' = as_dispatches s1 @ new"
        "list_all2 (\<lambda>x d. \<exists>es. snd x = InputResolved es \<and> intent_matches ctx (fst x) es (as_nodes s' ! snd (fst x)) d)
          (filter (\<lambda>x. is_resolved (snd x)) ds) new"
        "\<forall>d \<in> set new. \<exists>q > as_attemptSeq s1. di_attemptId d = attempt_id (di_nodeId d) q" by auto
    have "\<exists>q > as_attemptSeq s. di_attemptId d = attempt_id (di_nodeId d) q"
      using d(2,3) by (auto simp: intent_matches_def)
    with new d(1) m seq show ?thesis
      by (intro exI [of _ "d # new"]) (auto simp: x InputResolved intro: Suc_lessD)
  qed
qed simp

lemma blocked_entry_frame:
  assumes "apply_decisions ctx ds s = Inr s'" and "distinct (map (\<lambda>x. snd (fst x)) ds)" and "(c, InputBlocked rs) \<in> set ds"
    and "snd c < length (as_nodes s)"
  shows "ns_status (as_nodes s' ! snd c) = ns_status (as_nodes s ! snd c)"
  using assms
proof (induction ds arbitrary: s)
  case (Cons x ds)
  show ?case
  proof (cases "x = (c, InputBlocked rs)")
    case True
    then have ap: "apply_decisions ctx ds (record_refusals c rs s) = Inr s'" using Cons.prems(1) by simp
    have "snd c \<notin> (\<lambda>x. snd (fst x)) ` set ds" using Cons.prems(2) True by auto
    from apply_decisions_frame [OF ap this] Cons.prems(4) show ?thesis by (simp add: record_refusals_nodes)
  next
    case False
    obtain c' i where x: "x = (c', i)" by fastforce
    have ne: "snd c' \<noteq> snd c" using Cons.prems(2,3) False x by force
    have mem: "(c, InputBlocked rs) \<in> set ds" using Cons.prems(3) False by auto
    show ?thesis
    proof (cases i)
      case (InputBlocked rs')
      then have "apply_decisions ctx ds (record_refusals c' rs' s) = Inr s'" using Cons.prems(1) x by simp
      from Cons.IH [OF this _ mem] Cons.prems(2,4) ne show ?thesis by (simp add: record_refusals_nodes x)
    next
      case (InputResolved es)
      with Cons.prems(1) x obtain s1 where s1: "dispatch_candidate ctx c' es s = Inr s1" "apply_decisions ctx ds s1 = Inr s'"
        by (auto simp: result_simps)
      have "length (as_nodes s1) = length (as_nodes s)" "as_nodes s1 ! snd c = as_nodes s ! snd c"
        using s1(1) ne by (auto elim: dispatch_candidate_Inr)
      with Cons.IH [OF s1(2) _ mem] Cons.prems(2,4) x show ?thesis by simp
    qed
  qed
qed simp

subsection \<open>One advance\<close>

text \<open>The arm of an advance: the decisions applied to the settled state, one per routed candidate.\<close>

lemma advance_arm:
  assumes d: "distinct (node_ids (in_plan inp))" and adv: "advanceOutcomeGraph sha inp = Inr a"
  obtains pos r ds where
    "pos < length (gs_nodes (in_state inp))" "ns_status (gs_nodes (in_state inp) ! pos) = Dispatched"
    "ns_nodeId (gs_nodes (in_state inp) ! pos) = dc_nodeId (in_decision inp)"
    "ns_attemptId (gs_nodes (in_state inp) ! pos) = dc_attemptId (in_decision inp)"
    "cn_id (cp_nodes (in_plan inp) ! pos) = dc_nodeId (in_decision inp)"
    "apply_decisions (arm_context_of sha inp) ds (settled_arm inp pos) = Inr (rt_arm r)"
    "distinct (map (\<lambda>x. snd (fst x)) ds)"
    "\<And>c i. (c, i) \<in> set ds \<Longrightarrow> snd c < length (gs_nodes (in_state inp)) \<and> fst c \<in> set (cp_nodes (in_plan inp)) \<and>
       fst c = cp_nodes (in_plan inp) ! snd c \<and> ns_status (as_nodes (settled_arm inp pos) ! snd c) \<noteq> Dispatched \<and>
       cn_id (fst c) \<in> ce_to ` set (successors_of inp) \<and>
       joinSatisfiedFor (in_plan inp) (fst c) (arrivals_to (in_plan inp) (as_nodes (settled_arm inp pos)) [] (cn_id (fst c)))"
    "a = conclude (in_plan inp) (in_state inp) (in_now inp) r"
  using adv
proof (rule advance_cases)
  fix pos recorded r
  assume pos: "pos < length (gs_nodes (in_state inp))" "ns_status (gs_nodes (in_state inp) ! pos) = Dispatched"
    "ns_nodeId (gs_nodes (in_state inp) ! pos) = dc_nodeId (in_decision inp)"
    "ns_attemptId (gs_nodes (in_state inp) ! pos) = dc_attemptId (in_decision inp)"
    and cn: "cn_id (cp_nodes (in_plan inp) ! pos) = dc_nodeId (in_decision inp)" and r: "routing_of sha inp recorded pos r" and a: "a = conclude (in_plan inp) (in_state inp) (in_now inp) r"
  from r obtain ids where ids: "apply_decisions (arm_context_of sha inp)
      (routed_decisions (in_plan inp) (as_nodes (settled_arm inp pos)) (accepted_reader inp) ids)
      (settled_arm inp pos) = Inr (rt_arm r)" "set ids \<subseteq> ce_to ` set (successors_of inp)" by (rule routing_arm)
  have len: "length (as_nodes (settled_arm inp pos)) = length (gs_nodes (in_state inp))" by (simp add: settled_arm_def)
  show thesis
  proof (rule that [OF pos cn ids(1) routed_decisions_distinct])
    fix c i assume c: "(c, i) \<in> set (routed_decisions (in_plan inp) (as_nodes (settled_arm inp pos)) (accepted_reader inp) ids)"
    note q = routed_decision [OF d c]
    have "fst c \<in> set (cp_nodes (in_plan inp))" using q(1,2) by simp
    with q(2-6) ids(2) show "snd c < length (gs_nodes (in_state inp)) \<and> fst c \<in> set (cp_nodes (in_plan inp)) \<and>
       fst c = cp_nodes (in_plan inp) ! snd c \<and> ns_status (as_nodes (settled_arm inp pos) ! snd c) \<noteq> Dispatched \<and>
       cn_id (fst c) \<in> ce_to ` set (successors_of inp) \<and>
       joinSatisfiedFor (in_plan inp) (fst c) (arrivals_to (in_plan inp) (as_nodes (settled_arm inp pos)) [] (cn_id (fst c)))"
      unfolding len by blast
  qed (rule a)
qed

lemma conclude_dispatches [simp]: "av_dispatches (conclude plan st t r) = as_dispatches (rt_arm r)"
  by (simp add: conclude_def Let_def)

lemma advance_in_flight:
  assumes d: "distinct (node_ids (in_plan inp))" and adv: "advanceOutcomeGraph sha inp = Inr a"
    and i: "i < length (gs_nodes (in_state inp))" "ns_status (gs_nodes (in_state inp) ! i) = Dispatched"
      "ns_attemptId (gs_nodes (in_state inp) ! i) \<noteq> dc_attemptId (in_decision inp)"
  shows "\<exists>as. gs_nodes (av_state a) ! i = with_arrivals as (gs_nodes (in_state inp) ! i)"
proof -
  from d adv obtain pos r ds where pos: "ns_attemptId (gs_nodes (in_state inp) ! pos) = dc_attemptId (in_decision inp)"
      and ap: "apply_decisions (arm_context_of sha inp) ds (settled_arm inp pos) = Inr (rt_arm r)"
      and ds: "\<And>c i. (c, i) \<in> set ds \<Longrightarrow> ns_status (as_nodes (settled_arm inp pos) ! snd c) \<noteq> Dispatched"
      and a: "a = conclude (in_plan inp) (in_state inp) (in_now inp) r"
    by (rule advance_arm) blast
  have old: "as_nodes (settled_arm inp pos) ! i = gs_nodes (in_state inp) ! i"
    using i(3) pos by (cases "i = pos") (simp_all add: settled_arm_def)
  then have "i \<notin> (\<lambda>x. snd (fst x)) ` set ds" using ds i(2) by force
  then have "as_nodes (rt_arm r) ! i = gs_nodes (in_state inp) ! i" using apply_decisions_frame [OF ap] old by simp
  moreover have "i < length (as_nodes (rt_arm r))" using apply_decisions_length [OF ap] i(1) by (simp add: settled_arm_def)
  ultimately show ?thesis using canonicalise_nth [of i "as_nodes (rt_arm r)" "in_plan inp"] a by simp
qed

lemma list_all2_set2_mem:
  "list_all2 P xs ys \<Longrightarrow> y \<in> set ys \<Longrightarrow> \<exists>x \<in> set xs. P x y"
  by (auto simp: list_all2_conv_all_nth in_set_conv_nth) (metis nth_mem)

lemma list_all2_set1_mem:
  "list_all2 P xs ys \<Longrightarrow> x \<in> set xs \<Longrightarrow> \<exists>y \<in> set ys. P x y"
  by (auto simp: list_all2_conv_all_nth in_set_conv_nth) (metis nth_mem)

lemma advance_intent:
  assumes d: "distinct (node_ids (in_plan inp))" and adv: "advanceOutcomeGraph sha inp = Inr a" and di: "di \<in> set (av_dispatches a)"
  shows "\<exists>n \<in> set (cp_nodes (in_plan inp)). \<exists>e \<in> set (gs_nodes (av_state a)).
    di_nodeId di = cn_id n \<and> di_agent di = cn_agent n \<and> di_prompt di = cn_prompt n \<and>
    cn_id n \<in> ce_to ` set (successors_of inp) \<and>
    (\<exists>pos < length (gs_nodes (in_state inp)). ns_attemptId (gs_nodes (in_state inp) ! pos) = dc_attemptId (in_decision inp) \<and>
       joinSatisfiedFor (in_plan inp) n (arrivals_to (in_plan inp) (as_nodes (settled_arm inp pos)) [] (cn_id n))) \<and>
    ns_status e = Dispatched \<and> ns_nodeId e = di_nodeId di \<and> ns_attemptId e = di_attemptId di \<and>
    ns_inputs e = Some (di_inputs di) \<and> ns_attemptCredentialDigest e = attemptCredentialDigest sha (di_credential di) \<and>
    (\<exists>q > gs_attemptSeq (in_state inp). di_attemptId di = attempt_id (di_nodeId di) q)"
proof -
  from d adv obtain pos r ds where
      pos: "pos < length (gs_nodes (in_state inp))" "ns_attemptId (gs_nodes (in_state inp) ! pos) = dc_attemptId (in_decision inp)"
      and ap: "apply_decisions (arm_context_of sha inp) ds (settled_arm inp pos) = Inr (rt_arm r)"
      and dist: "distinct (map (\<lambda>x. snd (fst x)) ds)"
      and ds: "\<And>c i. (c, i) \<in> set ds \<Longrightarrow> snd c < length (gs_nodes (in_state inp)) \<and> fst c \<in> set (cp_nodes (in_plan inp)) \<and>
         cn_id (fst c) \<in> ce_to ` set (successors_of inp) \<and>
         joinSatisfiedFor (in_plan inp) (fst c) (arrivals_to (in_plan inp) (as_nodes (settled_arm inp pos)) [] (cn_id (fst c)))"
      and a: "a = conclude (in_plan inp) (in_state inp) (in_now inp) r"
    by (rule advance_arm) blast
  have len: "length (as_nodes (settled_arm inp pos)) = length (gs_nodes (in_state inp))" by (simp add: settled_arm_def)
  have "\<forall>x \<in> set ds. snd (fst x) < length (as_nodes (settled_arm inp pos))" using ds len by force
  from apply_decisions_intents [OF ap dist this] obtain new where new: "as_dispatches (rt_arm r) = new"
      "list_all2 (\<lambda>x d. \<exists>es. snd x = InputResolved es \<and>
          intent_matches (arm_context_of sha inp) (fst x) es (as_nodes (rt_arm r) ! snd (fst x)) d)
        (filter (\<lambda>x. is_resolved (snd x)) ds) new"
      "\<forall>d \<in> set new. \<exists>q > gs_attemptSeq (in_state inp). di_attemptId d = attempt_id (di_nodeId d) q"
    by (auto simp: settled_arm_def)
  from di a new(1) have "di \<in> set new" by simp
  with new(2) obtain x es where x: "x \<in> set ds" "snd x = InputResolved es"
      "intent_matches (arm_context_of sha inp) (fst x) es (as_nodes (rt_arm r) ! snd (fst x)) di"
    by (auto dest!: list_all2_set2_mem)
  let ?k = "snd (fst x)"
  have "(fst x, snd x) \<in> set ds" using x(1) by simp
  note q = ds [OF this]
  have k: "?k < length (as_nodes (rt_arm r))" using q apply_decisions_length [OF ap] len by simp
  from canonicalise_nth [OF k] obtain as where
    e: "gs_nodes (av_state a) ! ?k = with_arrivals as (as_nodes (rt_arm r) ! ?k)" using a by auto
  have mem: "gs_nodes (av_state a) ! ?k \<in> set (gs_nodes (av_state a))" using k a by simp
  have seq: "\<exists>q > gs_attemptSeq (in_state inp). di_attemptId di = attempt_id (di_nodeId di) q" using new(3) \<open>di \<in> set new\<close> by blast
  have m: "di_nodeId di = cn_id (fst (fst x))" "di_agent di = cn_agent (fst (fst x))" "di_prompt di = cn_prompt (fst (fst x))"
    "ns_status (gs_nodes (av_state a) ! ?k) = Dispatched" "ns_nodeId (gs_nodes (av_state a) ! ?k) = di_nodeId di"
    "ns_attemptId (gs_nodes (av_state a) ! ?k) = di_attemptId di" "ns_inputs (gs_nodes (av_state a) ! ?k) = Some (di_inputs di)"
    "ns_attemptCredentialDigest (gs_nodes (av_state a) ! ?k) = attemptCredentialDigest sha (di_credential di)"
    using x(3) by (simp_all add: e intent_matches_def arm_context_of_def)
  show ?thesis using q mem seq m pos by blast
qed

text \<open>A dispatched entry of the new state was in flight before, or one of the reported dispatches is its own.\<close>

lemma advance_dispatched_entry:
  assumes d: "distinct (node_ids (in_plan inp))" and adv: "advanceOutcomeGraph sha inp = Inr a"
    and i: "i < length (gs_nodes (av_state a))" "ns_status (gs_nodes (av_state a) ! i) = Dispatched"
  shows "(\<exists>as. gs_nodes (av_state a) ! i = with_arrivals as (gs_nodes (in_state inp) ! i)) \<or>
    (\<exists>di \<in> set (av_dispatches a). di_nodeId di = ns_nodeId (gs_nodes (av_state a) ! i) \<and>
       di_attemptId di = ns_attemptId (gs_nodes (av_state a) ! i))"
proof -
  from d adv obtain pos r ds where pos: "pos < length (gs_nodes (in_state inp))"
      and ap: "apply_decisions (arm_context_of sha inp) ds (settled_arm inp pos) = Inr (rt_arm r)"
      and dist: "distinct (map (\<lambda>x. snd (fst x)) ds)"
      and ds: "\<And>c i. (c, i) \<in> set ds \<Longrightarrow> snd c < length (gs_nodes (in_state inp)) \<and>
         ns_status (as_nodes (settled_arm inp pos) ! snd c) \<noteq> Dispatched"
      and a: "a = conclude (in_plan inp) (in_state inp) (in_now inp) r"
    by (rule advance_arm) blast
  have len: "length (as_nodes (settled_arm inp pos)) = length (gs_nodes (in_state inp))" by (simp add: settled_arm_def)
  have k: "i < length (as_nodes (rt_arm r))" using i(1) a by simp
  from canonicalise_nth [OF k] obtain as where
    e: "gs_nodes (av_state a) ! i = with_arrivals as (as_nodes (rt_arm r) ! i)" using a by auto
  show ?thesis
  proof (cases "i \<in> (\<lambda>x. snd (fst x)) ` set ds")
    case False
    then have same: "as_nodes (rt_arm r) ! i = as_nodes (settled_arm inp pos) ! i" using apply_decisions_frame [OF ap] by simp
    have "i \<noteq> pos" using i(2) e same pos by (auto simp: settled_arm_def settle_entry_def)
    then show ?thesis using e same by (auto simp: settled_arm_def)
  next
    case True
    then obtain c dd where c: "(c, dd) \<in> set ds" "snd c = i" by force
    show ?thesis
    proof (cases dd)
      case (InputBlocked rs)
      with blocked_entry_frame [OF ap dist] c ds len have "ns_status (as_nodes (rt_arm r) ! i) \<noteq> Dispatched" by fastforce
      with e i(2) show ?thesis by simp
    next
      case (InputResolved es)
      have "\<forall>x \<in> set ds. snd (fst x) < length (as_nodes (settled_arm inp pos))" using ds len by force
      from apply_decisions_intents [OF ap dist this] obtain new where new: "as_dispatches (rt_arm r) = new"
        "list_all2 (\<lambda>x d. \<exists>es. snd x = InputResolved es \<and>
          intent_matches (arm_context_of sha inp) (fst x) es (as_nodes (rt_arm r) ! snd (fst x)) d)
        (filter (\<lambda>x. is_resolved (snd x)) ds) new" by (auto simp: settled_arm_def)
      have "(c, dd) \<in> set (filter (\<lambda>x. is_resolved (snd x)) ds)" using c InputResolved by simp
      from list_all2_set1_mem [OF new(2) this] obtain di where
        "di \<in> set new" "intent_matches (arm_context_of sha inp) c es (as_nodes (rt_arm r) ! i) di"
        using c(2) InputResolved by auto
      then show ?thesis using a new(1) e by (auto simp: intent_matches_def intro!: bexI [of _ di])
    qed
  qed
qed

text \<open>The decided entry is settled on the decided outcome, or already re-dispatched under a new number.\<close>

lemma advance_decided_entry:
  assumes d: "distinct (node_ids (in_plan inp))" and adv: "advanceOutcomeGraph sha inp = Inr a"
  shows "\<exists>pos < length (gs_nodes (av_state a)). ns_nodeId (gs_nodes (av_state a) ! pos) = dc_nodeId (in_decision inp) \<and>
    (ns_status (gs_nodes (av_state a) ! pos) = Settled \<and>
       ns_outcomeId (gs_nodes (av_state a) ! pos) = dc_outcomeId (in_decision inp) \<and>
       ns_attemptId (gs_nodes (av_state a) ! pos) = dc_attemptId (in_decision inp) \<or>
     ns_status (gs_nodes (av_state a) ! pos) = Dispatched \<and>
       (\<exists>q > gs_attemptSeq (in_state inp). ns_attemptId (gs_nodes (av_state a) ! pos) = attempt_id (dc_nodeId (in_decision inp)) q))"
proof -
  from d adv obtain pos r ds where pos: "pos < length (gs_nodes (in_state inp))"
      "ns_nodeId (gs_nodes (in_state inp) ! pos) = dc_nodeId (in_decision inp)"
      "ns_attemptId (gs_nodes (in_state inp) ! pos) = dc_attemptId (in_decision inp)"
      and cn: "cn_id (cp_nodes (in_plan inp) ! pos) = dc_nodeId (in_decision inp)"
      and ap: "apply_decisions (arm_context_of sha inp) ds (settled_arm inp pos) = Inr (rt_arm r)"
      and ds: "\<And>c i. (c, i) \<in> set ds \<Longrightarrow> fst c = cp_nodes (in_plan inp) ! snd c"
      and a: "a = conclude (in_plan inp) (in_state inp) (in_now inp) r"
    by (rule advance_arm) blast
  let ?P = "\<lambda>t :: arm_state. pos < length (as_nodes t) \<and> gs_attemptSeq (in_state inp) \<le> as_attemptSeq t \<and>
     ns_nodeId (as_nodes t ! pos) = dc_nodeId (in_decision inp) \<and>
     (ns_status (as_nodes t ! pos) = Settled \<and> ns_outcomeId (as_nodes t ! pos) = dc_outcomeId (in_decision inp) \<and>
       ns_attemptId (as_nodes t ! pos) = dc_attemptId (in_decision inp) \<or>
      ns_status (as_nodes t ! pos) = Dispatched \<and>
       (\<exists>q > gs_attemptSeq (in_state inp). ns_attemptId (as_nodes t ! pos) = attempt_id (dc_nodeId (in_decision inp)) q))"
  have "?P (rt_arm r)"
  proof (rule apply_decisions_invariant [OF ap])
    show "?P (settled_arm inp pos)" using pos by (simp add: settled_arm_def settle_entry_def)
  next
    fix c rs and t :: arm_state assume "?P t"
    then show "?P (record_refusals c rs t)" by (cases "snd c = pos") (auto simp: record_refusals_nodes)
  next
    fix c es and t t' :: arm_state
    assume t: "?P t" "dispatch_candidate (arm_context_of sha inp) c es t = Inr t'"
      "(c, InputResolved es) \<in> set ds"
    show "?P t'"
    proof (cases "snd c = pos")
      case False
      with t show ?thesis by (elim dispatch_candidate_Inr) auto
    next
      case True
      have "cn_id (fst c) = dc_nodeId (in_decision inp)" using ds [OF t(3)] True cn by simp
      with t(1,2) True show ?thesis by (elim dispatch_candidate_Inr) (auto simp: attempt_id_inj)
    qed
  qed
  moreover from this canonicalise_nth [of pos "as_nodes (rt_arm r)" "in_plan inp"] obtain as where
    "gs_nodes (av_state a) ! pos = with_arrivals as (as_nodes (rt_arm r) ! pos)" using a by auto
  ultimately show ?thesis using a by (intro exI [of _ pos]) auto
qed

text \<open>A decision is applied at most once: on the state it produced it is refused.\<close>

lemma advance_once:
  assumes wf: "wf_plan (in_plan inp)" and inv: "run_inv (in_plan inp) (in_state inp)"
    and adv: "advanceOutcomeGraph sha inp = Inr a"
    and again: "in_plan inp' = in_plan inp" "in_state inp' = av_state a" "in_decision inp' = in_decision inp"
  shows "\<exists>code detail. advanceOutcomeGraph sha inp' = Inl (AdvanceRefused code detail) \<and>
    code \<in> {GraphStopped, NodeNotDispatched, AttemptMismatch}"
proof -
  note d = wf_plan_distinct [OF wf]
  have inv': "run_inv (in_plan inp) (av_state a)" by (rule advance_run_inv [OF wf inv refl refl adv])
  from advance_decided_entry [OF d adv] obtain pos where pos: "pos < length (gs_nodes (av_state a))"
      "ns_nodeId (gs_nodes (av_state a) ! pos) = dc_nodeId (in_decision inp)"
      and e: "ns_status (gs_nodes (av_state a) ! pos) = Settled \<or>
        (\<exists>q > gs_attemptSeq (in_state inp). ns_attemptId (gs_nodes (av_state a) ! pos) = attempt_id (dc_nodeId (in_decision inp)) q)"
    by blast
  from d adv obtain k where k: "k < length (gs_nodes (in_state inp))" "ns_status (gs_nodes (in_state inp) ! k) = Dispatched"
      "ns_attemptId (gs_nodes (in_state inp) ! k) = dc_attemptId (in_decision inp)" by (rule advance_arm)
  have "attempts_ok (gs_nodes (in_state inp)) (gs_attemptSeq (in_state inp))" using inv by (simp add: run_inv_def)
  with k nth_mem [OF k(1)] have "\<exists>i q. dc_attemptId (in_decision inp) = attempt_id i q \<and> q \<le> gs_attemptSeq (in_state inp)"
    unfolding attempts_ok_def by (metis node_status.distinct(1))
  then have other: "ns_attemptId (gs_nodes (av_state a) ! pos) \<noteq> dc_attemptId (in_decision inp) \<or>
      ns_status (gs_nodes (av_state a) ! pos) = Settled"
    using e by (auto simp: attempt_id_inj)
  have ids: "map ns_nodeId (gs_nodes (av_state a)) = node_ids (in_plan inp)" using inv' by (simp add: run_inv_def)
  then have len: "length (gs_nodes (av_state a)) = length (cp_nodes (in_plan inp))" by (metis length_map)
  have cid: "cn_id (cp_nodes (in_plan inp) ! pos) = dc_nodeId (in_decision inp)"
    using ids pos len by (metis nth_map)
  have "findIndex (\<lambda>n. cn_id n = dc_nodeId (in_decision inp)) (cp_nodes (in_plan inp)) = Some pos"
    unfolding findIndex_Some
  proof (intro conjI allI impI)
    fix j assume "j < pos"
    with nth_eq_of_distinct_map [OF d, of j pos] pos(1) len cid show "cn_id (cp_nodes (in_plan inp) ! j) \<noteq> dc_nodeId (in_decision inp)"
      by auto
  qed (use pos(1) len cid in simp_all)
  then have "\<exists>code detail. locate_attempt (in_plan inp) (av_state a) (in_decision inp) = Inl (AdvanceRefused code detail) \<and>
      code \<in> {NodeNotDispatched, AttemptMismatch}"
    using pos other by (auto simp: locate_attempt_def Let_def)
  moreover have "gs_bodyVersion (av_state a) \<in> set ADVANCEABLE_STATE_BODY_VERSIONS" "gs_loopProgress (av_state a) \<noteq> None"
    using inv' by (simp_all add: run_inv_def ADVANCEABLE_STATE_BODY_VERSIONS_def)
  ultimately show ?thesis
    unfolding advanceOutcomeGraph_def Let_def again by auto
qed

subsection \<open>Arrivals of a run\<close>

lemma arrival_from_iff:
  "arrival_from plan nodes held t n = Some a \<longleftrightarrow>
     cn_id n \<notin> set held \<and> arr_from a = cn_id n \<and>
     Option.bind (entry_of nodes (cn_id n)) settled_result = Some (arr_outcome a, arr_attemptId a) \<and>
     (\<exists>x \<in> set (cp_edges plan). ce_from x = cn_id n \<and> ce_to x = t \<and> ce_outcome x = arr_outcome a)"
proof (cases "Option.bind (entry_of nodes (cn_id n)) settled_result")
  case None
  then show ?thesis by (simp add: arrival_from_def)
next
  case (Some r)
  then show ?thesis by (cases r; cases a) (auto simp: arrival_from_def list_ex_iff)
qed

lemma run_arrivals_routed:
  assumes "wf_plan plan" and "run_of sha plan st" and "e \<in> set (gs_nodes st)"
  shows "distinct (map arr_from (ns_arrivals e)) \<and>
    (\<forall>a. a \<in> set (ns_arrivals e) \<longleftrightarrow>
      (\<exists>s \<in> set (gs_nodes st). ns_nodeId s = arr_from a \<and> settled_result s = Some (arr_outcome a, arr_attemptId a)) \<and>
      (\<exists>x \<in> set (cp_edges plan). ce_from x = arr_from a \<and> ce_to x = ns_nodeId e \<and> ce_outcome x = arr_outcome a))"
proof -
  note inv = run_of_inv [OF assms(2,1)] and d = wf_plan_distinct [OF assms(1)]
  have ids: "map ns_nodeId (gs_nodes st) = node_ids plan" using inv by (simp add: run_inv_def)
  have mem: "ns_nodeId e \<in> set (node_ids plan)" using assms(3) ids by (metis image_eqI list.set_map)
  have arr: "ns_arrivals e = arrivals_to plan (gs_nodes st) [] (ns_nodeId e)" using inv assms(3) by (simp add: run_inv_def)
  have entry: "(\<exists>s \<in> set (gs_nodes st). ns_nodeId s = i \<and> settled_result s = Some r) \<longleftrightarrow>
      Option.bind (entry_of (gs_nodes st) i) settled_result = Some r" for i r
    using entry_of_distinct [of "gs_nodes st"] entry_of_Some [of "gs_nodes st" i] d ids
    by (auto simp: bind_eq_Some_conv)
  have "a \<in> set (ns_arrivals e) \<longleftrightarrow>
      Option.bind (entry_of (gs_nodes st) (arr_from a)) settled_result = Some (arr_outcome a, arr_attemptId a) \<and>
      (\<exists>x \<in> set (cp_edges plan). ce_from x = arr_from a \<and> ce_to x = ns_nodeId e \<and> ce_outcome x = arr_outcome a)"
    (is "_ \<longleftrightarrow> ?R a") for a
  proof
    assume "a \<in> set (ns_arrivals e)"
    then show "?R a" unfolding arr arrivals_to_iff [OF d mem] arrival_from_iff by auto
  next
    assume r: "?R a"
    then obtain n where n: "n \<in> set (cp_nodes plan)" "cn_id n = arr_from a"
      using wf_plan_edge(1) [OF assms(1)] by fastforce
    with r have "arrival_from plan (gs_nodes st) [] (ns_nodeId e) n = Some a" unfolding arrival_from_iff by simp
    with n(1) show "a \<in> set (ns_arrivals e)" unfolding arr arrivals_to_iff [OF d mem] by blast
  qed
  then show ?thesis using arrivals_to_distinct [OF d mem] unfolding arr entry by blast
qed

subsection \<open>Loop counters of one advance\<close>

lemma advance_exhausted:
  assumes wf: "wf_plan (in_plan inp)" and adv: "advanceOutcomeGraph sha inp = Inr a"
    and t: "\<not> is_terminal_outcome (in_plan inp) (dc_nodeId (in_decision inp)) (dc_outcomeId (in_decision inp))"
    and g: "g \<in> set (continuationGroups (in_plan inp) (dc_nodeId (in_decision inp)) (dc_outcomeId (in_decision inp)))"
    and cap: "clg_maxTraversals g \<le> traversals_of (gs_loopTraversals (in_state inp)) (clg_id g)"
  shows "gs_phase (av_state a) = Stopped \<and> av_dispatches a = [] \<and>
    gs_loopTraversals (av_state a) = gs_loopTraversals (in_state inp) \<and>
    (\<exists>x. gs_stop (av_state a) = Some (StopLoopExhausted x) \<and> le_attemptId x = dc_attemptId (in_decision inp) \<and>
       le_maxTraversals x \<le> le_traversals x)"
  using adv
proof (rule advance_cases)
  fix pos recorded r
  assume r: "routing_of sha inp recorded pos r" and a: "a = conclude (in_plan inp) (in_state inp) (in_now inp) r"
  have dist: "distinct (map clg_id (groups_of inp))" by (rule groups_of_distinct [OF wf])
  have "\<not> (\<exists>al. count_traversals (groups_of inp) (gs_loopTraversals (in_state inp)) = (al, None))"
    using count_traversals_None [OF _ dist] g cap unfolding groups_of_def by fastforce
  with r t obtain counted bound where c: "count_traversals (groups_of inp) (gs_loopTraversals (in_state inp)) = (counted, Some bound)"
    and r': "r = \<lparr>rt_arm = settled_arm inp pos, rt_loopTraversals = gs_loopTraversals (in_state inp),
       rt_loopProgress = recorded,
       rt_stop = Some (exhausted_stop (in_decision inp) (gs_loopTraversals (in_state inp)) (in_now inp) bound),
       rt_reports = []\<rparr>"
    by cases auto
  from count_traversals_Some [OF c dist] show ?thesis
    unfolding a r' by (simp add: conclude_def Let_def final_stop_def phase_of_def exhausted_stop_def settled_arm_def)
qed

lemma advance_not_counted:
  assumes adv: "advanceOutcomeGraph sha inp = Inr a"
    and g: "continuationGroups (in_plan inp) (dc_nodeId (in_decision inp)) (dc_outcomeId (in_decision inp)) = []"
  shows "gs_loopTraversals (av_state a) = gs_loopTraversals (in_state inp)"
  using adv
proof (rule advance_cases)
  fix pos recorded r
  assume r: "routing_of sha inp recorded pos r" and a: "a = conclude (in_plan inp) (in_state inp) (in_now inp) r"
  have "count_traversals (groups_of inp) al = (al, None)" for al using g by (simp add: groups_of_def)
  with r show ?thesis unfolding a by cases auto
qed

subsection \<open>The state a start records\<close>

lemma start_entries:
  assumes "startRun env surface = Inr r" and "wf_plan (se_plan env)"
  shows "map ns_nodeId (gs_nodes (rs_state r)) = node_ids (se_plan env) \<and>
    (\<forall>e \<in> set (gs_nodes (rs_state r)).
       ns_status e = (if feederSourcesOf (se_plan env) (ns_nodeId e) = [] then Dispatched else Pending))"
proof -
  let ?plan = "se_plan env"
  from assms(1) obtain m where m: "mint_nodes env (js_set (map cn_id (entryNodesOf ?plan))) (cp_nodes ?plan)
        \<lparr>ms_nodes = [], ms_attemptSeq = 0, ms_dispatched = [], ms_effects = [],
         ms_budget = mint_run_row (cp_graphId ?plan) (se_runId env) surface\<rparr> = Inr m"
      and st: "gs_nodes (rs_state r) = ms_nodes m"
    by (auto simp: startRun_def mintRunInTransaction_def Let_def result_simps split: if_splits)
  have inv: "mint_inv ?plan 0 ([] @ cp_nodes ?plan) m"
    by (rule mint_nodes_inv [OF m]) (simp_all add: mint_inv_def attempts_ok_def seqs_distinct_def)
  then have ids: "map ns_nodeId (ms_nodes m) = node_ids ?plan" by (simp add: mint_inv_def)
  show ?thesis
    unfolding st
  proof (intro conjI ballI)
    fix e assume e: "e \<in> set (ms_nodes m)"
    then have mem: "ns_nodeId e \<in> set (node_ids ?plan)" using ids by (metis image_eqI list.set_map)
    have "ns_status e \<noteq> Settled" "ns_status e = Dispatched \<longleftrightarrow> ns_nodeId e \<in> cn_id ` set (entryNodesOf ?plan)"
      using inv e by (auto simp: mint_inv_def)
    moreover have "ns_nodeId e \<in> cn_id ` set (entryNodesOf ?plan) \<longleftrightarrow> feederSourcesOf ?plan (ns_nodeId e) = []"
      using mem by (auto simp: entryNodesOf_feeders)
    ultimately show "ns_status e = (if feederSourcesOf ?plan (ns_nodeId e) = [] then Dispatched else Pending)"
      by (cases "ns_status e") auto
  qed (rule ids)
qed

end
