(* ===== verification/SettlementFacts.thy ===== *)
theory SettlementFacts
  imports Settlement AcceptanceFacts PersistedRun AdvanceFacts
begin

text \<open>
  What the run path does to the ledger: a settlement that is not a fresh commit leaves it as it was, an accepted one
  records its rows and the state the advance computed from the state of the transaction.
\<close>

subsection \<open>Tables a step leaves alone\<close>

definition same_rows :: "ledger \<Rightarrow> ledger \<Rightarrow> bool" where
  "same_rows db db' \<longleftrightarrow> lg_states db' = lg_states db \<and> lg_events db' = lg_events db \<and> lg_results db' = lg_results db \<and>
     lg_receipts db' = lg_receipts db \<and> lg_runs db' = lg_runs db \<and> lg_decisions db' = lg_decisions db"

lemma same_rows_refl [simp]: "same_rows db db"
  by (simp add: same_rows_def)

lemma same_rows_trans: "same_rows a b \<Longrightarrow> same_rows b c \<Longrightarrow> same_rows a c"
  by (simp add: same_rows_def)

lemma transitionEffect_same: "transitionEffect g i target db = Inr (t, db') \<Longrightarrow> same_rows db db'"
  by (auto simp: transitionEffect_def Let_def move_effect_def same_rows_def split: option.splits if_splits)

lemmas mark_same =
  transitionEffect_same [of _ _ EffectStarted, folded markEffectStarted_def]
  transitionEffect_same [of _ _ EffectDone, folded markEffectDone_def]

lemma launch_same: "launch rt ds db = (ok, db') \<Longrightarrow> same_rows db db'"
proof (induction ds arbitrary: db)
  case (Cons d ds)
  show ?case
  proof (cases "\<not> rn_create rt d")
    case False
    show ?thesis
    proof (cases "markEffectStarted (graph_of rt) (dispatchEffectIdOf (di_attemptId d)) db")
      case (Inr r)
      obtain t db1 where r: "r = (t, db1)" by fastforce
      have s: "same_rows db db1" using mark_same(1) Inr r by (simp add: markEffectStarted_def)
      from Cons.prems False Inr r have "db' = db1 \<or> launch rt ds db1 = (ok, db')" by (cases t) auto
      with s Cons.IH show ?thesis by (blast intro: same_rows_trans)
    qed (use Cons.prems False in simp)
  qed (use Cons.prems in simp)
qed simp

lemma launch_nothing [simp]: "launch rt [] db = (ok, db') \<longleftrightarrow> ok \<and> db' = db"
  by auto

lemma writeEffect_same: "writeEffect e db = Inr db' \<Longrightarrow> same_rows db db'"
  by (auto simp: writeEffect_def result_simps same_rows_def)

lemma write_effects_same: "write_effects es db = Inr db' \<Longrightarrow> same_rows db db'"
proof (induction es arbitrary: db)
  case (Cons e es)
  then obtain db1 where "writeEffect e db = Inr db1" "write_effects es db1 = Inr db'" by (auto simp: result_simps)
  with Cons.IH writeEffect_same show ?case by (blast intro: same_rows_trans)
qed simp

lemma with_reservations_same [simp]: "same_rows db (with_reservations surface db)"
  by (auto simp: with_reservations_def same_rows_def split: option.split)

lemma claim_same: "claimSuccessorDispatches plan runId ds t db = Inr db' \<Longrightarrow> same_rows db db'"
proof (induction ds arbitrary: db)
  case (Cons d ds)
  then obtain surface where "claimSuccessorDispatches plan runId ds t (with_reservations surface db) = Inr db'" by (auto simp: result_simps)
  with Cons.IH show ?case by (blast intro: same_rows_trans with_reservations_same)
qed simp

lemma move_budget_same: "move_budget plan runId d ds t db = Inr db' \<Longrightarrow> same_rows db db'"
  by (auto simp: move_budget_def result_simps split: option.splits sum.splits dest!: claim_same intro: same_rows_trans [OF with_reservations_same])

subsection \<open>The state that is written\<close>

lemma writeGraphState_Inr:
  assumes "writeGraphState num explicit s db = Inr db'"
  obtains run where "writeRunIdOf db (sd_graphId s) explicit = Inr run" and "db' = db\<lparr>lg_states := replace_state run s (lg_states db)\<rparr>"
  using assms by (auto simp: writeGraphState_def result_simps)

lemma same_runs_write: "same_rows db db' \<Longrightarrow> writeRunIdOf db' = writeRunIdOf db"
  by (rule write_run_cong) (simp add: same_rows_def)

lemma in_ledger_bind [result_simps]: "rbind (in_ledger r) f = Inr y \<longleftrightarrow> (\<exists>x. r = Inr x \<and> f x = Inr y)"
  by (simp add: rbind_eq_Inr in_ledger_Inr)

text \<open>The advance the reduction computed replaces the row of the current run.\<close>

lemma settle_run_Inr:
  assumes "settle_run rt runId decision adv now db = Inr db'"
  obtains run where "writeRunIdOf db (gs_graphId (av_state adv)) None = Inr run"
    and "same_rows (db\<lparr>lg_states := replace_state run (stateRecordOf (av_state adv) now) (lg_states db)\<rparr>) db'"
proof -
  from assms obtain db1 db2 t where m: "move_budget (rn_plan rt) runId decision (av_dispatches adv) now db = Inr db1"
      and w: "writeGraphState (rn_num rt) None (stateRecordOf (av_state adv) now) db1 = Inr db2"
      and e: "markEffectDone (graph_of rt) (dispatchEffectIdOf (dc_attemptId decision)) db2 = Inr (t, db')"
    by (auto simp: settle_run_def result_simps)
  note s = move_budget_same [OF m]
  from w obtain run where run: "writeRunIdOf db1 (sd_graphId (stateRecordOf (av_state adv) now)) None = Inr run"
      "db2 = db1\<lparr>lg_states := replace_state run (stateRecordOf (av_state adv) now) (lg_states db1)\<rparr>" by (rule writeGraphState_Inr)
  have "same_rows db2 db'" using e mark_same(2) by (simp add: markEffectDone_def)
  then have "same_rows (db\<lparr>lg_states := replace_state run (stateRecordOf (av_state adv) now) (lg_states db)\<rparr>) db'"
    using s run(2) by (simp add: same_rows_def)
  moreover have "writeRunIdOf db (gs_graphId (av_state adv)) None = Inr run"
    using run(1) same_runs_write [OF s] by (simp add: stateRecordOf_def)
  ultimately show ?thesis using that by blast
qed

subsection \<open>What a settlement can do\<close>

text \<open>A settlement that ran its commit, and how its answer comes out of the verdict.\<close>

definition committing :: "runtime \<Rightarrow> settlement_call \<Rightarrow> ledger \<Rightarrow> ledger \<Rightarrow> graph_state \<Rightarrow> execution_identity \<Rightarrow> reduction_context \<Rightarrow>
    submission_validation \<Rightarrow> submission_decision \<Rightarrow> commit_verdict \<Rightarrow> ledger \<Rightarrow> bool" where
  "committing rt c before during state identity ctx validation d verdict db \<longleftrightarrow>
     runPreflight rt (sl_now c) (sl_identity c) = Inr (rc_identity ctx) \<and>
     readRunControl before (graph_of rt) = None \<and> runtime_state rt before = Inr (Some state) \<and>
     resolveSettlementIdentity rt c state = Inr identity \<and> attempt_refusal rt identity before = None \<and>
     validation = validateSubmission (rn_sha rt) (rn_num rt) (submission_request rt c identity) \<and>
     rc_now ctx = sl_now c \<and> rc_justAccepted ctx = just_accepted_of validation \<and>
     (if validated_accepted validation then progressProjections rt (sl_proposal c) identity else Inr []) = Inr (rc_progress ctx) \<and>
     commitSubmission (rn_sha rt) (rn_num rt) (submission_request rt c identity) validation (Some (settlement_join rt ctx)) during =
       Inr (Submitted d verdict, db)"

lemma settleSubmission_cases:
  assumes "settleSubmission rt c before during = result"
  obtains (refused) rs where "result = (Inr (Refused rs), during)"
    | (escaped) e where "result = (Inl e, during)"
    | (committed) state identity ctx validation d verdict db where
        "committing rt c before during state identity ctx validation d verdict db"
        "result = settled_answer rt d verdict state (if sn_kind d = AcceptedKind then planned_advance rt ctx during (sn_fields d) else None) db"
proof -
  from assms consider (r) rs where "result = (Inr (Refused rs), during)"
    | (go) dispatchIdentity state identity where "runPreflight rt (sl_now c) (sl_identity c) = Inr dispatchIdentity"
        "readRunControl before (graph_of rt) = None" "runtime_state rt before = Inr (Some state)"
        "resolveSettlementIdentity rt c state = Inr identity" "attempt_refusal rt identity before = None"
        "result = settle_validated rt c dispatchIdentity state identity during"
    by (auto simp: settleSubmission_def split: sum.splits option.splits)
  then show ?thesis
  proof cases
    case r
    then show ?thesis by (rule refused)
  next
    case go
    let ?q = "submission_request rt c identity"
    let ?v = "validateSubmission (rn_sha rt) (rn_num rt) ?q"
    show ?thesis
    proof (cases "if validated_accepted ?v then progressProjections rt (sl_proposal c) identity else Inr []")
      case (Inl r)
      then show ?thesis using go(6) refused by (simp add: settle_validated_def Let_def)
    next
      case (Inr projections)
      let ?ctx = "\<lparr>rc_now = sl_now c, rc_progress = projections, rc_identity = dispatchIdentity,
                    rc_justAccepted = just_accepted_of ?v\<rparr>"
      have res: "result = (case commitSubmission (rn_sha rt) (rn_num rt) ?q ?v (Some (settlement_join rt ?ctx)) during of
                   Inl failure \<Rightarrow> failed_answer failure during
                 | Inr (SubmissionRefused rs, db) \<Rightarrow> (Inr (Refused (map SubmissionRefuses rs)), db)
                 | Inr (Submitted evaluated verdict, db) \<Rightarrow>
                     settled_answer rt evaluated verdict state
                       (if sn_kind evaluated = AcceptedKind then planned_advance rt ?ctx during (sn_fields evaluated) else None) db)"
        using go(6) Inr by (simp add: settle_validated_def Let_def)
      show ?thesis
      proof (cases "commitSubmission (rn_sha rt) (rn_num rt) ?q ?v (Some (settlement_join rt ?ctx)) during")
        case (Inl failure)
        then have "(\<exists>rs. result = (Inr (Refused rs), during)) \<or> (\<exists>e. result = (Inl e, during))"
          using res by (auto simp: failed_answer_def split: commit_failure.splits join_failure.splits advance_error.splits)
        then show ?thesis using refused escaped by blast
      next
        case (Inr r)
        show ?thesis
        proof (cases "fst r")
          case (SubmissionRefused rs)
          then have "snd r = during" using Inr
            by (cases r) (auto simp: commitSubmission_def result_simps split: submission_validation.splits sum.splits option.splits if_splits)
          then show ?thesis using res Inr SubmissionRefused refused by (cases r) simp
        next
          case (Submitted d verdict)
          have "committing rt c before during state identity ?ctx ?v d verdict (snd r)"
            using go(1-5) \<open>_ = Inr projections\<close> Inr Submitted unfolding committing_def by (cases r) simp
          then show ?thesis using res Inr Submitted committed by (cases r) simp
        qed
      qed
    qed
  qed
qed

subsection \<open>A fresh acceptance\<close>

text \<open>The rows of a settlement that was accepted and committed by this call, and the advance they record.\<close>

definition accepted_advance :: "runtime \<Rightarrow> reduction_context \<Rightarrow> ledger \<Rightarrow> submission_decision \<Rightarrow> graph_state \<Rightarrow> advance \<Rightarrow> bool" where
  "accepted_advance rt ctx db d current adv \<longleftrightarrow>
     readRunControl db (graph_of rt) = None \<and>
     (\<exists>run rec. readGraphState db (graph_of rt) = Some (run, rec) \<and> read_plan_state rt rec = Inr current) \<and>
     advanceOutcomeGraph (rn_sha rt) (advance_input_of rt ctx current (sn_fields d) db) = Inr adv"

definition accepted_ledger :: "runtime \<Rightarrow> settlement_call \<Rightarrow> execution_identity \<Rightarrow> submission_decision \<Rightarrow> receipt \<Rightarrow> retained_validation \<Rightarrow>
    advance \<Rightarrow> ledger \<Rightarrow> ledger \<Rightarrow> bool" where
  "accepted_ledger rt c identity d r rv adv db db' \<longleftrightarrow>
     lg_receipts db' = lg_receipts db @ [r] \<and>
     lg_events db' = lg_events db @ [accepted_event_of (submission_request rt c identity) r (dc_outcomeId (sn_fields d))] \<and>
     lg_results db' = lg_results db @
       (if readAcceptedResult db (rcp_graphId r) (rcp_attemptId r) = None then [accepted_result_of (submission_request rt c identity) r rv] else []) \<and>
     list_all retained_artifact_ok (rt_artifacts rv) \<and>
     lg_runs db' = lg_runs db \<and> lg_decisions db' = lg_decisions db \<and>
     (\<exists>run. writeRunIdOf db (graph_of rt) None = Inr run \<and>
        lg_states db' = replace_state run (stateRecordOf (av_state adv) (sl_now c)) (lg_states db))"

lemma advance_graph:
  assumes "advanceOutcomeGraph sha inp = Inr a"
  shows "gs_graphId (av_state a) = gs_graphId (in_state inp)"
  using assms by (rule advance_cases) simp

lemma read_plan_state_graph: "read_plan_state rt rec = Inr st \<Longrightarrow> gs_graphId st = graph_of rt"
  using readOutcomeGraphState_ok [of rec "rn_plan rt" st]
  by (auto simp: read_plan_state_def readable_state_def ok_state_def)

lemma just_accepted_kind: "validated_accepted (Validated d b rv) \<longleftrightarrow> sn_kind d = AcceptedKind"
  by (simp add: validated_accepted_def)

lemma reduceInTransaction_Inr:
  assumes "reduceInTransaction rt ctx db decision = Inr (x, planned)"
    and fresh: "\<forall>e \<in> set (lg_events db). ev_graphId e = graph_of rt \<longrightarrow> ev_attemptId e \<noteq> dc_attemptId decision"
  obtains run rec current adv where "readGraphState db (graph_of rt) = Some (run, rec)" and "read_plan_state rt rec = Inr current"
    and "advanceOutcomeGraph (rn_sha rt) (advance_input_of rt ctx current decision db) = Inr adv" and "planned = Some adv"
    and "x = \<lparr>jr_effects = map (dispatch_effect rt) (av_dispatches adv),
               jr_settle = settle_run rt (if run = UNMINTED_RUN_ID then None else Some run) decision adv (rc_now ctx)\<rparr>"
proof -
  have "\<not> list_ex (\<lambda>e. ev_attemptId e = dc_attemptId decision) (acceptedEvents db (graph_of rt))"
    using fresh by (auto simp: list_ex_iff acceptedEvents_def)
  with assms(1) that show ?thesis
    by (auto simp: reduceInTransaction_def nothing_joined_def split: option.splits sum.splits if_splits)
qed

lemma committed_accepted:
  assumes c: "committing rt c before during state identity ctx validation d (Committed r) db" and k: "sn_kind d = AcceptedKind"
  obtains binding rv current adv where "validation = Validated d binding (Some rv)"
    and "accepted_advance rt ctx during d current adv" and "planned_advance rt ctx during (sn_fields d) = Some adv"
    and "accepted_ledger rt c identity d r rv adv during db"
    and "rcp_graphId r = graph_of rt" and "rcp_attemptId r = dc_attemptId (sn_fields d)"
    and "selectAcceptedEvent during (graph_of rt) (dc_attemptId (sn_fields d)) = None"
proof -
  let ?q = "submission_request rt c identity"
  have commit: "commitSubmission (rn_sha rt) (rn_num rt) ?q validation (Some (settlement_join rt ctx)) during = Inr (Submitted d (Committed r), db)"
    and val: "validation = validateSubmission (rn_sha rt) (rn_num rt) ?q" and now: "rc_now ctx = sl_now c"
    using c by (auto simp: committing_def)
  from commit obtain binding retained where vd: "validation = Validated d binding retained" by (auto elim: commitSubmission_Submitted)
  have v: "validateSubmission (rn_sha rt) (rn_num rt) ?q = Validated d binding retained" using val vd by simp
  from validateSubmission_fields [OF v] k obtain rv p node outcome where rv: "retained = Some rv"
    and req: "readRequest ?q = Inr (p, node, outcome)" and gid: "dc_graphId (sn_fields d) = xi_graphId identity"
    by (auto simp: submission_request_def)
  have g: "dc_graphId (sn_fields d) = graph_of rt"
    using planRefusals_empty(3) [OF readRequest_Inr(3) [OF req]] gid by (simp add: submission_request_def)
  note commit' = commit [unfolded vd rv]
  note rcp = committed_receipt_fields(2,3) [OF v commit [unfolded vd]]
  from accepted_rows_exact [OF v [unfolded rv] k commit'] obtain db1 joined where
    rows: "lg_receipts db1 = lg_receipts during @ [r]" "lg_events db1 = lg_events during @ [accepted_event_of ?q r (dc_outcomeId (sn_fields d))]"
      "lg_results db1 = lg_results during @ (if readAcceptedResult during (rcp_graphId r) (rcp_attemptId r) = None then [accepted_result_of ?q r rv] else [])"
      "lg_runs db1 = lg_runs during" "lg_decisions db1 = lg_decisions during" "lg_states db1 = lg_states during"
    and arts: "list_all retained_artifact_ok (rt_artifacts rv)"
    and fresh: "selectAcceptedEvent during (rcp_graphId r) (rcp_attemptId r) = None"
    and join: "run_join (Some (settlement_join rt ctx)) d during = Inr joined" "settle_join ?q joined (Committed r) db1 = Inr db" by metis
  from join(1) k obtain x planned where x: "joined = Some x" "readRunControl during (graph_of rt) = None"
      "reduceInTransaction rt ctx during (sn_fields d) = Inr (x, planned)"
    by (auto simp: run_join_def settlement_join_def result_simps split: option.splits)
  have fresh': "selectAcceptedEvent during (graph_of rt) (dc_attemptId (sn_fields d)) = None" using fresh rcp g by simp
  then have "\<forall>e \<in> set (lg_events during). ev_graphId e = graph_of rt \<longrightarrow> ev_attemptId e \<noteq> dc_attemptId (sn_fields d)"
    by (simp add: selectAcceptedEvent_None) (metis (mono_tags, lifting) image_eqI)
  from reduceInTransaction_Inr [OF x(3) this] obtain run rec current adv where
    a: "readGraphState during (graph_of rt) = Some (run, rec)" "read_plan_state rt rec = Inr current"
      "advanceOutcomeGraph (rn_sha rt) (advance_input_of rt ctx current (sn_fields d) during) = Inr adv" "planned = Some adv"
      "x = \<lparr>jr_effects = map (dispatch_effect rt) (av_dispatches adv),
               jr_settle = settle_run rt (if run = UNMINTED_RUN_ID then None else Some run) (sn_fields d) adv (rc_now ctx)\<rparr>" by metis
  from join(2) x(1) a(5) obtain db2 where
    w: "write_effects (pendingEffectsOf (Some (map (dispatch_effect rt) (av_dispatches adv))) identity (sl_now c)) db1 = Inr db2"
    and s: "settle_run rt (if run = UNMINTED_RUN_ID then None else Some run) (sn_fields d) adv (sl_now c) db2 = Inr db"
    by (auto simp: settle_join_def result_simps now submission_request_def)
  have gs: "gs_graphId (av_state adv) = graph_of rt"
    using advance_graph [OF a(3)] read_plan_state_graph [OF a(2)] by (simp add: advance_input_of_def)
  note e = write_effects_same [OF w]
  from s obtain run' where run': "writeRunIdOf db2 (graph_of rt) None = Inr run'"
      "same_rows (db2\<lparr>lg_states := replace_state run' (stateRecordOf (av_state adv) (sl_now c)) (lg_states db2)\<rparr>) db"
    unfolding gs [symmetric] by (rule settle_run_Inr)
  have "writeRunIdOf db2 = writeRunIdOf during" using e rows(4) by (intro write_run_cong) (simp add: same_rows_def)
  then have "accepted_ledger rt c identity d r rv adv during db"
    unfolding accepted_ledger_def using run' rows arts e by (auto simp: same_rows_def)
  moreover have "accepted_advance rt ctx during d current adv"
    using x(2) a(1-3) by (auto simp: accepted_advance_def)
  moreover have "planned_advance rt ctx during (sn_fields d) = Some adv" using x(3) a(4) by (simp add: planned_advance_def)
  ultimately show ?thesis using vd rv rcp g fresh' by (intro that [of binding rv current adv]) simp_all
qed

lemma committed_rejected:
  assumes "committing rt c before during state identity ctx validation d (Committed r) db" and "sn_kind d = RejectedKind"
  shows "db = during\<lparr>lg_receipts := lg_receipts during @ [r]\<rparr>"
  using assms rejected_rows by (auto simp: committing_def)

lemma committing_other:
  assumes "committing rt c before during state identity ctx validation d verdict db" and "\<nexists>r. verdict = Committed r"
  shows "db = during"
  using assms other_verdict_keeps by (auto simp: committing_def)

subsection \<open>The answers\<close>

text \<open>The answer of an acceptance: what was planned is dispatched only by the call that committed it.\<close>

lemma accepted_answer_fields:
  assumes "accepted_answer_of rt d r state planned committed db = (answer, db')"
  shows "(\<exists>x. answer = Inr (Accepted x) \<and> an_decision x = d \<and> an_receipt x = r \<and> an_replayed x = (\<not> committed) \<and>
      an_dispatched x = (case planned of Some adv \<Rightarrow> if committed then av_dispatches adv else [] | None \<Rightarrow> []) \<and>
      an_progress x = (case planned of Some adv \<Rightarrow> if committed then av_progress adv else [] | None \<Rightarrow> []) \<and>
      launch rt (an_dispatched x) db = (True, db')) \<or> answer = Inl EscapedLaunch"
    and "\<exists>ds ok. launch rt ds db = (ok, db') \<and> (committed \<or> ds = [])"
proof -
  let ?ds = "case planned of Some adv \<Rightarrow> if committed then av_dispatches adv else [] | None \<Rightarrow> []"
  obtain ok db1 where l: "launch rt ?ds db = (ok, db1)" by fastforce
  note ans = assms [unfolded accepted_answer_of_def Let_def, simplified l]
  have db1: "db1 = db'" using ans by (cases ok) simp_all
  show "(\<exists>x. answer = Inr (Accepted x) \<and> an_decision x = d \<and> an_receipt x = r \<and> an_replayed x = (\<not> committed) \<and>
      an_dispatched x = ?ds \<and>
      an_progress x = (case planned of Some adv \<Rightarrow> if committed then av_progress adv else [] | None \<Rightarrow> []) \<and>
      launch rt (an_dispatched x) db = (True, db')) \<or> answer = Inl EscapedLaunch"
    using ans l db1 by (cases ok) auto
  show "\<exists>ds ok. launch rt ds db = (ok, db') \<and> (committed \<or> ds = [])"
    using l db1 by (intro exI [of _ ?ds] exI [of _ ok]) (auto split: option.split)
qed

text \<open>An answer that is not a fresh commit leaves the ledger as it was.\<close>

fun fresh_commit :: "escaped + submission_answer \<Rightarrow> bool" where
  "fresh_commit (Inr (Accepted x)) = (\<not> an_replayed x)"
| "fresh_commit (Inr (Rejected _ _)) = True"
| "fresh_commit (Inr _) = False"
| "fresh_commit (Inl e) = (e = EscapedLaunch)"

lemma settled_answer_cases:
  assumes "settled_answer rt d verdict state planned db = (answer, db')"
  shows "(\<exists>r. verdict = Committed r \<and> fresh_commit answer) \<or> (\<nexists>r. verdict = Committed r) \<and> db' = db \<and>
    (fresh_commit answer \<longrightarrow> (\<exists>d r. answer = Inr (Rejected d r)))"
proof (cases verdict)
  case (Committed r)
  then show ?thesis using assms accepted_answer_fields(1) [of rt d r state planned True db answer db']
    by (auto simp: settled_answer_def split: if_splits)
next
  case (Replayed r)
  then show ?thesis using assms
    by (auto simp: settled_answer_def accepted_answer_of_def Let_def split: if_splits option.splits)
qed (use assms in \<open>auto simp: settled_answer_def\<close>)

lemma settlement_unchanged:
  assumes "settleSubmission rt c before during = (answer, db')" and "\<not> fresh_commit answer"
  shows "db' = during"
  using assms(1)
proof (rule settleSubmission_cases)
  fix state identity ctx validation d verdict db
  assume com: "committing rt c before during state identity ctx validation d verdict db"
    and "(answer, db') = settled_answer rt d verdict state (if sn_kind d = AcceptedKind then planned_advance rt ctx during (sn_fields d) else None) db"
  with settled_answer_cases [of rt d verdict state _ db answer db'] assms(2) have "\<nexists>r. verdict = Committed r" "db' = db" by auto
  with committing_other [OF com] show ?thesis by simp
qed auto

text \<open>What a settlement that was accepted and committed has behind it.\<close>

lemma fresh_acceptance:
  assumes "settleSubmission rt c before during = (Inr (Accepted x), db')" and "\<not> an_replayed x"
  obtains state identity ctx validation binding rv current adv db where
    "committing rt c before during state identity ctx validation (an_decision x) (Committed (an_receipt x)) db"
    and "sn_kind (an_decision x) = AcceptedKind" and "validation = Validated (an_decision x) binding (Some rv)"
    and "accepted_advance rt ctx during (an_decision x) current adv"
    and "accepted_ledger rt c identity (an_decision x) (an_receipt x) rv adv during db"
    and "an_dispatched x = av_dispatches adv" and "an_progress x = av_progress adv"
    and "launch rt (av_dispatches adv) db = (True, db')"
    and "rcp_graphId (an_receipt x) = graph_of rt" and "rcp_attemptId (an_receipt x) = dc_attemptId (sn_fields (an_decision x))"
    and "selectAcceptedEvent during (graph_of rt) (dc_attemptId (sn_fields (an_decision x))) = None"
  using assms(1)
proof (rule settleSubmission_cases)
  fix state identity ctx validation d verdict db
  assume com: "committing rt c before during state identity ctx validation d verdict db"
    and ans: "(Inr (Accepted x), db') =
      settled_answer rt d verdict state (if sn_kind d = AcceptedKind then planned_advance rt ctx during (sn_fields d) else None) db"
  have "\<exists>r. verdict = Committed r"
  proof (rule ccontr)
    assume "\<nexists>r. verdict = Committed r"
    with settled_answer_cases [OF ans [symmetric]] assms(2) show False by auto
  qed
  then obtain r where r: "verdict = Committed r" ..
  have k: "sn_kind d = AcceptedKind" using ans r by (cases "sn_kind d") (auto simp: settled_answer_def)
  from committed_accepted [OF com [unfolded r] k] obtain binding rv current adv where a: "validation = Validated d binding (Some rv)"
      "accepted_advance rt ctx during d current adv" "planned_advance rt ctx during (sn_fields d) = Some adv"
      "accepted_ledger rt c identity d r rv adv during db" "rcp_graphId r = graph_of rt" "rcp_attemptId r = dc_attemptId (sn_fields d)"
      "selectAcceptedEvent during (graph_of rt) (dc_attemptId (sn_fields d)) = None" .
  have "accepted_answer_of rt d r state (Some adv) True db = (Inr (Accepted x), db')"
    using ans r k a(3) by (simp add: settled_answer_def)
  from accepted_answer_fields(1) [OF this] have "an_decision x = d" "an_receipt x = r" "an_dispatched x = av_dispatches adv"
      "an_progress x = av_progress adv" "launch rt (av_dispatches adv) db = (True, db')" by auto
  then show thesis using that [of state identity ctx validation db binding rv current adv] com a k r by simp
qed (use that in auto)

subsection \<open>Who settles\<close>

lemma identity_check_None:
  "hostIdentityCheckRefusal recorded reading = None \<longleftrightarrow> recorded = None \<or> (\<exists>i. recorded = Some i \<and> reading = IdentityKnown i)"
  by (auto simp: hostIdentityCheckRefusal_def equalHostInvocationIdentity_iff split: option.splits identity_reading.splits)

text \<open>What a channel has to show for the attempt it settles.\<close>

definition presented :: "runtime \<Rightarrow> settlement_call \<Rightarrow> outcome_proposal \<Rightarrow> node_state \<Rightarrow> bool" where
  "presented rt c p e \<longleftrightarrow>
     (if sl_hostCompletion c then pr_credential p = None \<and> sl_expected c = Some (ns_attemptId e)
      else (\<exists>credential. pr_credential p = Some credential \<and> ns_attemptCredentialDigest e = attemptCredentialDigest (rn_sha rt) credential) \<and>
        (sl_expected c = None \<or> sl_expected c = Some (ns_attemptId e)))"

lemma checked_identity_Inr:
  "checked_identity rt c recorded a = Inr identity \<longleftrightarrow>
     (recorded = None \<or> (\<exists>i. recorded = Some i \<and> sl_identity c = IdentityKnown i)) \<and>
     identity = \<lparr>xi_graphId = graph_of rt, xi_attemptId = a,
       xi_submissionId = submissionIdOf (rn_sha rt) (rn_num rt) (sl_proposal c) (sl_source c)\<rparr>"
  using identity_check_None [of recorded "sl_identity c"] by (auto simp: checked_identity_def split: option.splits)

lemma resolved_identity:
  assumes r: "resolveSettlementIdentity rt c state = Inr identity" and p: "readOutcomeProposal (sl_proposal c) = Inr p"
  shows "xi_graphId identity = graph_of rt \<and> xi_submissionId identity = submissionIdOf (rn_sha rt) (rn_num rt) (sl_proposal c) (sl_source c) \<and>
    (\<exists>e \<in> set (gs_nodes state). ns_nodeId e = pr_nodeId p \<and> ns_status e \<noteq> Pending \<and> xi_attemptId identity = ns_attemptId e \<and>
       presented rt c p e \<and> (ns_dispatchIdentity e = None \<or> (\<exists>i. ns_dispatchIdentity e = Some i \<and> sl_identity c = IdentityKnown i)))"
proof (cases "sl_hostCompletion c")
  case True
  with r p have h: "host_attempt rt c state p = Inr identity" by (auto simp: resolveSettlementIdentity_def split: if_splits)
  then obtain a e where e: "sl_expected c = Some a" "stateNodeOf state (pr_nodeId p) = Some e" "ns_status e \<noteq> Pending" "ns_attemptId e = a"
      "pr_credential p = None" "checked_identity rt c (ns_dispatchIdentity e) a = Inr identity"
    by (auto simp: host_attempt_def split: option.splits if_splits)
  from e(2) have "e \<in> set (gs_nodes state)" "ns_nodeId e = pr_nodeId p" by (auto simp: stateNodeOf_def dest: find_Some_in)
  with e True show ?thesis by (auto simp: checked_identity_Inr presented_def)
next
  case False
  with r p have h: "bearer_attempt rt c state p = Inr identity" by (auto simp: resolveSettlementIdentity_def split: if_splits)
  then obtain credential e where e: "pr_credential p = Some credential" "credential_holder rt state credential = Some e"
      "ns_nodeId e = pr_nodeId p" "sl_expected c = None \<or> sl_expected c = Some (ns_attemptId e)"
      "checked_identity rt c (ns_dispatchIdentity e) (ns_attemptId e) = Inr identity"
    by (auto simp: bearer_attempt_def split: option.splits if_splits)
  from e(2) have "e \<in> set (gs_nodes state)" "ns_status e \<noteq> Pending" "ns_attemptCredentialDigest e = attemptCredentialDigest (rn_sha rt) credential"
    by (auto simp: credential_holder_def dest!: find_Some_in)
  with e False show ?thesis by (auto simp: checked_identity_Inr presented_def)
qed

text \<open>The decision of a commit is about the node of the proposal and the attempt that was resolved.\<close>

lemma committing_decision:
  assumes "committing rt c before during state identity ctx validation d verdict db"
  obtains p where "readOutcomeProposal (sl_proposal c) = Inr p" and "dc_nodeId (sn_fields d) = pr_nodeId p"
    and "dc_outcomeId (sn_fields d) = pr_outcomeId p" and "dc_attemptId (sn_fields d) = xi_attemptId identity"
    and "dc_submissionId (sn_fields d) = xi_submissionId identity" and "dc_planRevision (sn_fields d) = cp_planRevision (rn_plan rt)"
    and "dc_graphId (sn_fields d) = graph_of rt"
proof -
  let ?q = "submission_request rt c identity"
  from assms obtain binding retained where v: "validateSubmission (rn_sha rt) (rn_num rt) ?q = Validated d binding retained"
    by (auto simp: committing_def elim!: commitSubmission_Submitted)
  from validateSubmission_fields [OF v] obtain p node outcome digest where req: "readRequest ?q = Inr (p, node, outcome)"
    and f: "sn_fields d = \<lparr>dc_graphId = xi_graphId (aq_identity ?q), dc_attemptId = xi_attemptId (aq_identity ?q),
      dc_submissionId = xi_submissionId (aq_identity ?q), dc_planRevision = cp_planRevision (aq_plan ?q),
      dc_proposalDigest = digest, dc_nodeId = cn_id node, dc_outcomeId = co_id outcome\<rparr>" by auto
  note rr = readRequest_Inr [OF req]
  have "cn_id node = pr_nodeId p" using rr(5) by (auto simp: nodeOf_def dest!: find_Some_in)
  moreover have "co_id outcome = pr_outcomeId p" using rr(6) by (auto simp: outcomeOf_def dest!: find_Some_in)
  moreover have "xi_graphId identity = graph_of rt" using planRefusals_empty(3) [OF rr(3)] by (simp add: submission_request_def)
  ultimately show ?thesis using that [of p] rr(4) f by (simp add: submission_request_def)
qed

lemma settlement_authenticated:
  assumes "committing rt c before during state identity ctx validation d verdict db"
  shows "\<exists>p. \<exists>e \<in> set (gs_nodes state). readOutcomeProposal (sl_proposal c) = Inr p \<and> dc_nodeId (sn_fields d) = pr_nodeId p \<and>
    dc_outcomeId (sn_fields d) = pr_outcomeId p \<and> ns_nodeId e = dc_nodeId (sn_fields d) \<and> ns_attemptId e = dc_attemptId (sn_fields d) \<and>
    ns_status e \<noteq> Pending \<and> presented rt c p e \<and>
    (ns_dispatchIdentity e = None \<or> (\<exists>i. ns_dispatchIdentity e = Some i \<and> sl_identity c = IdentityKnown i)) \<and>
    dc_submissionId (sn_fields d) = submissionIdOf (rn_sha rt) (rn_num rt) (sl_proposal c) (sl_source c)"
proof (rule committing_decision [OF assms])
  fix p
  assume p: "readOutcomeProposal (sl_proposal c) = Inr p" and d: "dc_nodeId (sn_fields d) = pr_nodeId p"
    "dc_outcomeId (sn_fields d) = pr_outcomeId p" "dc_attemptId (sn_fields d) = xi_attemptId identity"
    "dc_submissionId (sn_fields d) = xi_submissionId identity"
  have "resolveSettlementIdentity rt c state = Inr identity" using assms by (simp add: committing_def)
  from resolved_identity [OF this p] show ?thesis using p d by metis
qed

text \<open>An acceptance that is answered, by this call or by an earlier one, was resolved for the attempt it names.\<close>

lemma accepted_settlement:
  assumes "settleSubmission rt c before during = (Inr (Accepted x), db')"
  obtains state identity ctx validation d verdict db where
    "committing rt c before during state identity ctx validation d verdict db" and "sn_fields (an_decision x) = sn_fields d"
  using assms
proof (rule settleSubmission_cases)
  fix state identity ctx validation d verdict db
  assume com: "committing rt c before during state identity ctx validation d verdict db"
    and ans: "(Inr (Accepted x), db') =
      settled_answer rt d verdict state (if sn_kind d = AcceptedKind then planned_advance rt ctx during (sn_fields d) else None) db"
  have "\<exists>d' r p y. accepted_answer_of rt d' r state p y db = (Inr (Accepted x), db') \<and> sn_fields d' = sn_fields d"
  proof (cases verdict)
    case (Replayed r)
    with ans have "accepted_answer_of rt (replayedDecision d (rcp_decision r)) r state
        (if sn_kind d = AcceptedKind then planned_advance rt ctx during (sn_fields d) else None) False db = (Inr (Accepted x), db')"
      by (simp add: settled_answer_def Let_def split: if_splits)
    moreover have "sn_fields (replayedDecision d (rcp_decision r)) = sn_fields d" by (simp add: replayedDecision_def)
    ultimately show ?thesis by blast
  next
    case (Committed r)
    with ans have "accepted_answer_of rt d r state
        (if sn_kind d = AcceptedKind then planned_advance rt ctx during (sn_fields d) else None) True db = (Inr (Accepted x), db')"
      by (simp add: settled_answer_def split: if_splits)
    then show ?thesis by blast
  qed (use ans in \<open>auto simp: settled_answer_def\<close>)
  then obtain d' r p y where "accepted_answer_of rt d' r state p y db = (Inr (Accepted x), db')" "sn_fields d' = sn_fields d" by blast
  with accepted_answer_fields(1) [OF this(1)] com that show thesis by auto
qed (use that in auto)

subsection \<open>The host's channel\<close>

lemma authenticated_None:
  "authenticatedHostExecution rt a x = None \<longleftrightarrow> (\<exists>executionFor. rn_authority rt = Some executionFor \<and> executionFor (graph_of rt) a = Inr (Some x))"
  by (auto simp: authenticatedHostExecution_def split: option.splits sum.splits if_splits)

lemma with_settlement_accepted:
  "with_settlement mk res = (Inr (Accepted x, s), db') \<Longrightarrow> res = (Inr (Accepted x), db')"
  by (auto simp: with_settlement_def split: prod.splits sum.splits)

lemma refuse_channel_accepted: "refuse_channel rs db \<noteq> (Inr (Accepted x, s), db')"
  by (simp add: refuse_channel_def)

lemma naturalCompletionProposalOf_read:
  "readOutcomeProposal (naturalCompletionProposalOf n oc c) = Inr p \<Longrightarrow> pr_nodeId p = n \<and> pr_outcomeId p = oc"
  by (cases c) (auto simp: readOutcomeProposal_def naturalCompletionProposalOf_def text_of_def split: if_splits)

lemma host_completion_accepted:
  assumes "settleHostCompletion rt delivery now identity before during = (Inr (Accepted x, s), db')"
  obtains f outcome policy executionFor e where "readHostCompletionFact delivery = Inr f"
    and "rn_authority rt = Some executionFor" and "executionFor (graph_of rt) (hf_attemptId f) = Inr (Some (hf_executionId f))"
    and "naturalCompletionAuthorityOf (rn_plan rt) (hf_nodeId f) = Inr (outcome, policy)"
    and "dc_nodeId (sn_fields (an_decision x)) = hf_nodeId f" and "dc_attemptId (sn_fields (an_decision x)) = hf_attemptId f"
    and "dc_outcomeId (sn_fields (an_decision x)) = outcome"
proof -
  from assms obtain f outcome policy where f: "readHostCompletionFact delivery = Inr f"
      "authenticatedHostExecution rt (hf_attemptId f) (hf_executionId f) = None"
      "naturalCompletionAuthorityOf (rn_plan rt) (hf_nodeId f) = Inr (outcome, policy)"
      "with_settlement (\<lambda>digest. naturalCompletionSettlementOf (hf_nodeId f) (hf_attemptId f) outcome digest policy)
         (settleSubmission rt (natural_call rt (hf_nodeId f) (hf_attemptId f) None outcome True now identity) before during) =
       (Inr (Accepted x, s), db')"
    by (auto simp: settleHostCompletion_def refuse_channel_accepted split: sum.splits option.splits prod.splits)
  let ?c = "natural_call rt (hf_nodeId f) (hf_attemptId f) None outcome True now identity"
  from accepted_settlement [OF with_settlement_accepted [OF f(4)]] obtain state idn ctx validation d verdict db where
    com: "committing rt ?c before during state idn ctx validation d verdict db" and d: "sn_fields (an_decision x) = sn_fields d" .
  from settlement_authenticated [OF com] obtain p e where p: "readOutcomeProposal (sl_proposal ?c) = Inr p"
      "dc_nodeId (sn_fields d) = pr_nodeId p" "dc_outcomeId (sn_fields d) = pr_outcomeId p" "ns_attemptId e = dc_attemptId (sn_fields d)"
      "presented rt ?c p e" by blast
  have "ns_attemptId e = hf_attemptId f" using p(5) by (auto simp: presented_def natural_call_def)
  moreover have "pr_nodeId p = hf_nodeId f" "pr_outcomeId p = outcome"
    using naturalCompletionProposalOf_read p(1) by (simp_all add: natural_call_def)
  ultimately show ?thesis using that f(1,3) f(2) [unfolded authenticated_None] p d by metis
qed

end
