(* ===== verification/RuntimeHistory.thy ===== *)
theory RuntimeHistory
  imports SettlementFacts LedgerHistory
begin

text \<open>
  Histories of the run path. Every start and every settlement is a sequence of the store's own transactions, so the
  ledger keeps what a history of the store keeps; and the recorded state of a graph stays a state of one of its runs,
  with an acceptance in the ledger behind every settled node.
\<close>

subsection \<open>The run path on the store\<close>

abbreviation store_steps :: "(rat \<Rightarrow> string) \<Rightarrow> ledger \<Rightarrow> ledger \<Rightarrow> bool" where
  "store_steps num \<equiv> (ledger_step num)\<^sup>*\<^sup>*"

lemma budget_view_reservations [simp]: "budget_view (db\<lparr>lg_reservations := rows\<rparr>) = (budget_view db)\<lparr>bd_rows := rows\<rparr>"
  by (simp add: budget_view_def readCurrentRunId_def readRun_def fun_eq_iff)

lemma reserve_surface:
  assumes "reserveDispatchIn plan runId n a t (Some (budget_view db)) = Inr surface"
  obtains db' where "surface = Some (budget_view db')" and "with_reservations surface db = db'" and "ledger_step num db db'"
    and "same_rows db db'"
proof -
  from assms obtain v b where r: "reserveDispatch (reserve_request plan runId n a t) (budget_view db) = Inr (v, b)" "surface = Some b"
    by (auto simp: reserveDispatchIn_def split: sum.splits prod.splits reserve_result.splits)
  from r(1) have "b = (budget_view db)\<lparr>bd_rows := bd_rows b\<rparr>"
    by (auto simp: reserveDispatch_Inr split: bool.splits option.splits)
  with r that [of "db\<lparr>lg_reservations := bd_rows b\<rparr>"] ledger_step.reserve [OF r(1), of num] show ?thesis
    by (simp add: with_reservations_def same_rows_def)
qed

lemma release_surface:
  assumes "releaseDispatchClaim plan runId n a t (Some (budget_view db)) = Inr surface"
  shows "ledger_step num db (with_reservations surface db)"
proof -
  from assms obtain l v b where r: "releaseReservation l (budget_view db) = Inr (v, b)" "surface = Some b"
    by (auto simp: releaseDispatchClaim_def result_simps)
  with ledger_step.release [OF r(1), of num] show ?thesis by (simp add: with_reservations_def)
qed

lemma in_start_Inr [result_simps]: "in_start r = Inr x \<longleftrightarrow> r = Inr x"
  by (auto simp: in_start_def split: sum.splits start_error.splits)

lemma claim_steps: "claimSuccessorDispatches plan runId ds t db = Inr db' \<Longrightarrow> store_steps num db db'"
proof (induction ds arbitrary: db)
  case (Cons d ds)
  then obtain surface where s: "reserveDispatchIn plan runId (di_nodeId d) (di_attemptId d) t (Some (budget_view db)) = Inr surface"
      "claimSuccessorDispatches plan runId ds t (with_reservations surface db) = Inr db'" by (auto simp: result_simps reservations_of_def)
  from reserve_surface [OF s(1)] have "ledger_step num db (with_reservations surface db)" by metis
  from converse_rtranclp_into_rtranclp [of "ledger_step num", OF this Cons.IH [OF s(2)]] show ?case .
qed simp

lemma move_budget_steps: "move_budget plan runId d ds t db = Inr db' \<Longrightarrow> store_steps num db db'"
proof (cases runId)
  case (Some r)
  assume "move_budget plan runId d ds t db = Inr db'"
  with Some obtain surface where s: "releaseDispatchClaim plan r (dc_nodeId d) (dc_attemptId d) t (Some (budget_view db)) = Inr surface"
      "claimSuccessorDispatches plan r ds t (with_reservations surface db) = Inr db'"
    by (auto simp: move_budget_def reservations_of_def result_simps split: sum.splits)
  from converse_rtranclp_into_rtranclp [of "ledger_step num", OF release_surface [OF s(1)] claim_steps [OF s(2)]] show ?thesis .
qed (simp add: move_budget_def)

lemma write_effects_steps: "write_effects es db = Inr db' \<Longrightarrow> store_steps num db db'"
proof (induction es arbitrary: db)
  case (Cons e es)
  then obtain db1 where e: "writeEffect e db = Inr db1" "write_effects es db1 = Inr db'" by (auto simp: result_simps)
  from ledger_step.effect [OF e(1)] Cons.IH [OF e(2)] show ?case by (rule converse_rtranclp_into_rtranclp)
qed simp

lemma settle_run_steps:
  assumes "settle_run rt runId decision adv now db = Inr db'"
  shows "store_steps (rn_num rt) db db'"
proof -
  from assms obtain db1 db2 t where m: "move_budget (rn_plan rt) runId decision (av_dispatches adv) now db = Inr db1"
      and w: "writeGraphState (rn_num rt) None (stateRecordOf (av_state adv) now) db1 = Inr db2"
      and e: "markEffectDone (graph_of rt) (dispatchEffectIdOf (dc_attemptId decision)) db2 = Inr (t, db')"
    by (auto simp: settle_run_def result_simps)
  note move_budget_steps [OF m]
  also note ledger_step.state [OF w]
  also note ledger_step.effect_done [OF e]
  finally show ?thesis .
qed

lemma launch_steps: "launch rt ds db = (ok, db') \<Longrightarrow> store_steps num db db'"
proof (induction ds arbitrary: db)
  case (Cons d ds)
  show ?case
  proof (cases "rn_create rt d")
    case True
    show ?thesis
    proof (cases "markEffectStarted (graph_of rt) (dispatchEffectIdOf (di_attemptId d)) db")
      case (Inr r)
      obtain t db1 where r: "r = (t, db1)" by fastforce
      have s: "ledger_step num db db1" using Inr r by (simp add: ledger_step.effect_started)
      from Cons.prems True Inr r have "db' = db1 \<or> launch rt ds db1 = (ok, db')" by (cases t) auto
      with s Cons.IH show ?thesis by (blast intro: converse_rtranclp_into_rtranclp)
    qed (use Cons.prems True in simp)
  qed (use Cons.prems in simp)
qed simp

text \<open>A commit with the run path's join is a sequence of transactions of the store.\<close>

lemma commit_steps:
  assumes "commitSubmission sha (rn_num rt) q validation (Some (settlement_join rt ctx)) db = Inr (Submitted d verdict, db')"
  shows "store_steps (rn_num rt) db db'"
proof (rule commitSubmission_Submitted [OF assms])
  fix binding retained live joined db1
  assume j: "run_join (Some (settlement_join rt ctx)) d db = Inr joined"
    and c: "commitAccepted (rn_num rt) (submission_batch q live d retained) db = Inr (verdict, db1)"
    and s: "settle_join q joined verdict db1 = Inr db'"
  have "ledger_step (rn_num rt) db db1" using c by (rule ledger_step.commit)
  moreover have "store_steps (rn_num rt) db1 db'"
  proof (cases "\<exists>r x. verdict = Committed r \<and> joined = Some x")
    case True
    then obtain r x where x: "verdict = Committed r" "joined = Some x" by blast
    from s x obtain db2 where w: "write_effects (pendingEffectsOf (Some (jr_effects x)) (aq_identity q) (aq_now q)) db1 = Inr db2"
        and t: "jr_settle x db2 = Inr db'" by (auto simp: settle_join_def result_simps)
    from j x(2) obtain planned where "reduceInTransaction rt ctx db (sn_fields d) = Inr (x, planned)"
      by (auto simp: run_join_def settlement_join_def result_simps split: option.splits if_splits)
    then have "x = nothing_joined \<or> (\<exists>es runId adv. x = \<lparr>jr_effects = es, jr_settle = settle_run rt runId (sn_fields d) adv (rc_now ctx)\<rparr>)"
      by (simp split: option.splits prod.splits sum.splits if_splits add: reduceInTransaction_def) blast+
    then have "store_steps (rn_num rt) db2 db'"
    proof (elim disjE exE)
      fix es runId adv
      assume "x = \<lparr>jr_effects = es, jr_settle = settle_run rt runId (sn_fields d) adv (rc_now ctx)\<rparr>"
      with t show ?thesis by (intro settle_run_steps) simp
    qed (use t in \<open>simp add: nothing_joined_def\<close>)
    with write_effects_steps [OF w] show ?thesis by (rule rtranclp_trans)
  next
    case False
    then have "db' = db1" using s by (auto simp: settle_join_def split: commit_verdict.splits option.splits)
    then show ?thesis by simp
  qed
  ultimately show ?thesis by (rule converse_rtranclp_into_rtranclp)
qed

lemma settled_answer_steps:
  assumes "settled_answer rt d verdict state planned db = (answer, db')"
  shows "store_steps num db db'"
proof -
  from assms have "db' = db \<or> (\<exists>d r p x. accepted_answer_of rt d r state p x db = (answer, db'))"
    by (auto simp: settled_answer_def Let_def split: commit_verdict.splits if_splits)
  with accepted_answer_fields(2) launch_steps show ?thesis by blast
qed

lemma settlement_steps:
  assumes "settleSubmission rt c before during = (answer, db')"
  shows "store_steps (rn_num rt) during db'"
  using assms
proof (rule settleSubmission_cases)
  fix state identity ctx validation d verdict db
  assume com: "committing rt c before during state identity ctx validation d verdict db"
    and ans: "(answer, db') = settled_answer rt d verdict state (if sn_kind d = AcceptedKind then planned_advance rt ctx during (sn_fields d) else None) db"
  have "store_steps (rn_num rt) during db" using com commit_steps by (auto simp: committing_def)
  with settled_answer_steps [OF ans [symmetric]] show ?thesis by (blast intro: rtranclp_trans)
qed auto

lemma mint_nodes_steps:
  assumes "mint_nodes env ids rest m = Inr m'" and "ms_budget m = Some (budget_view db)"
  shows "\<exists>db'. ms_budget m' = Some (budget_view db') \<and> with_reservations (ms_budget m') db = db' \<and> store_steps num db db'"
  using assms
proof (induction rest arbitrary: m db)
  case Nil
  then show ?case by (auto simp: with_reservations_def budget_view_def)
next
  case (Cons n rest)
  show ?case
  proof (cases "cn_id n \<in> set ids")
    case True
    with Cons.prems(1) obtain m1 where m1: "mint_entry env n m = Inr m1" "mint_nodes env ids rest m1 = Inr m'" by (auto simp: result_simps)
    from m1(1) have "reserveDispatchIn (se_plan env) (se_runId env) (cn_id n) (attempt_id (cn_id n) (Suc (ms_attemptSeq m)))
        (se_stamp env) (Some (budget_view db)) = Inr (ms_budget m1)" unfolding Cons.prems(2) [symmetric] by (rule mint_entry_Inr)
    from reserve_surface [OF this] obtain db1 where db1: "ms_budget m1 = Some (budget_view db1)" "with_reservations (ms_budget m1) db = db1"
        "ledger_step num db db1" by metis
    from Cons.IH [OF m1(2) db1(1)] obtain db' where db': "ms_budget m' = Some (budget_view db')" "with_reservations (ms_budget m') db1 = db'"
        "store_steps num db1 db'" by blast
    have over: "db1 = db\<lparr>lg_reservations := bd_rows (budget_view db1)\<rparr>" using db1(1,2) by (simp add: with_reservations_def)
    have "db1\<lparr>lg_reservations := rows\<rparr> = db\<lparr>lg_reservations := rows\<rparr>" for rows by (subst over) simp
    then have "with_reservations (ms_budget m') db = db'" using db'(1,2) by (simp add: with_reservations_def)
    with db' converse_rtranclp_into_rtranclp [of "ledger_step num", OF db1(3) db'(3)] show ?thesis by blast
  next
    case False
    with Cons show ?thesis by simp
  qed
qed

lemma mintRun_minted: "mintRun identity db = Inr (row, db') \<Longrightarrow> readRun db' (rid_graphId identity) = Some row"
  by (auto simp: mintRun_def Let_def result_simps split: option.splits if_splits)

lemma start_transaction_Inr:
  assumes "start_transaction rt now identity db = Inr (r, db')"
  obtains db1 row surface where "mintRun \<lparr>rid_graphId = graph_of rt, rid_runId = runIdentityOf (graph_of rt) now, rid_startedAt = now,
      rid_planRevision = cp_planRevision (rn_plan rt)\<rparr> db = Inr (row, db1)"
    and "mintRunInTransaction (start_env_of rt now identity db1) 0 surface = Inr r" and "store_steps (rn_num rt) db db'"
    and "lg_states db' = replace_state (rid_runId (rw_identity row)) (stateRecordOf (rs_state r) now) (lg_states db)"
    and "lg_events db' = lg_events db" and "lg_results db' = lg_results db" and "lg_receipts db' = lg_receipts db" and "lg_runs db' = lg_runs db1"
proof -
  let ?id = "\<lparr>rid_graphId = graph_of rt, rid_runId = runIdentityOf (graph_of rt) now, rid_startedAt = now,
      rid_planRevision = cp_planRevision (rn_plan rt)\<rparr>"
  from assms obtain row db1 db2 where m: "mintRun ?id db = Inr (row, db1)"
      and r: "mintRunInTransaction (start_env_of rt now identity db1) 0 (reservations_of db1) = Inr r"
      and w: "writeGraphState (rn_num rt) None (stateRecordOf (rs_state r) now) (with_reservations (rs_budget r) db1) = Inr db2"
      and e: "write_effects (map stored_intent (rs_effects r)) db2 = Inr db'"
    by (auto simp: start_transaction_def result_simps)
  have row: "readRun db1 (graph_of rt) = Some row" using mintRun_minted [OF m] by simp
  then have "readCurrentRunId db1 (graph_of rt) = Some (rid_runId (rw_identity row))" by (simp add: readCurrentRunId_def)
  then have "mint_run_row (graph_of rt) (runIdentityOf (graph_of rt) now) (reservations_of db1) = Some (budget_view db1)"
    by (simp add: mint_run_row_def reservations_of_def budget_view_def)
  with r obtain m where mint: "mint_nodes (start_env_of rt now identity db1) (js_set (map cn_id (entryNodesOf (rn_plan rt)))) (cp_nodes (rn_plan rt))
      \<lparr>ms_nodes = [], ms_attemptSeq = 0, ms_dispatched = [], ms_effects = [], ms_budget = Some (budget_view db1)\<rparr> = Inr m" "rs_budget r = ms_budget m"
      "gs_graphId (rs_state r) = graph_of rt"
    by (auto simp: mintRunInTransaction_def Let_def result_simps start_env_of_def)
  from mint_nodes_steps [OF mint(1), of db1 "rn_num rt"] mint(2) have res: "store_steps (rn_num rt) db1 (with_reservations (rs_budget r) db1)" by auto
  note same = with_reservations_same [of db1 "rs_budget r"]
  from w obtain run where run: "writeRunIdOf (with_reservations (rs_budget r) db1) (graph_of rt) None = Inr run"
      "db2 = (with_reservations (rs_budget r) db1)\<lparr>lg_states := replace_state run (stateRecordOf (rs_state r) now) (lg_states (with_reservations (rs_budget r) db1))\<rparr>"
    by (rule writeGraphState_Inr) (simp add: stateRecordOf_def mint(3))
  have "run = rid_runId (rw_identity row)" using run(1) row unfolding same_runs_write [OF same]
    by (simp add: writeRunIdOf_def readCurrentRunId_def)
  moreover have "store_steps (rn_num rt) db db'"
  proof -
    have "store_steps (rn_num rt) db db1" using ledger_step.mint [OF m] by blast
    also note res
    also note ledger_step.state [OF w]
    also note write_effects_steps [OF e, of "rn_num rt"]
    finally show ?thesis .
  qed
  moreover have "lg_states db1 = lg_states db" "lg_events db1 = lg_events db" "lg_results db1 = lg_results db" "lg_receipts db1 = lg_receipts db"
    using m by (auto simp: mintRun_def Let_def result_simps split: option.splits if_splits)
  ultimately show ?thesis
    using that [OF m r] same write_effects_same [OF e] run(2) by (simp add: same_rows_def)
qed

lemma startGraph_cases:
  assumes "startGraph rt now identity db = (answer, db')"
  obtains (unchanged) "db' = db" "\<nexists>st ds. answer = Inr (Started st ds)"
    | (started) dispatchIdentity r db1 ok where "runPreflight rt now identity = Inr dispatchIdentity" and "readRunControl db (graph_of rt) = None"
        and "runtime_state rt db = Inr None" and "entryNodesOf (rn_plan rt) \<noteq> []"
        and "start_transaction rt now dispatchIdentity db = Inr (r, db1)" and "launch rt (rs_dispatched r) db1 = (ok, db')"
        and "answer = (if ok then Inr (Started (rs_state r) (rs_dispatched r)) else Inl EscapedLaunch)"
  using assms
  by (auto simp: startGraph_def failed_start_def split: sum.splits option.splits if_splits prod.splits bool.splits
      commit_failure.splits join_failure.splits advance_error.splits)

lemma start_steps:
  assumes "startGraph rt now identity db = (answer, db')"
  shows "store_steps (rn_num rt) db db'"
  using assms
proof (rule startGraph_cases)
  fix dispatchIdentity r db1 ok
  assume t: "start_transaction rt now dispatchIdentity db = Inr (r, db1)" and l: "launch rt (rs_dispatched r) db1 = (ok, db')"
  have "store_steps (rn_num rt) db db1" using t by (rule start_transaction_Inr)
  from rtranclp_trans [OF this launch_steps [OF l]] show ?thesis .
qed simp

subsection \<open>The effects of the dispatches\<close>

definition has_effect :: "ledger \<Rightarrow> string \<Rightarrow> string \<Rightarrow> bool" where
  "has_effect db g i \<longleftrightarrow> (\<exists>row \<in> set (lg_effects db). ef_graphId row = g \<and> ef_effectId row = i)"

lemma has_effect_steps:
  assumes "store_steps num db db'" and "has_effect db g i"
  shows "has_effect db' g i"
proof -
  have "rows_grow effect_kept (lg_effects db) (lg_effects db')"
    using ledger_steps_keep [OF assms(1)] by (simp add: keeps_def history_kept_def)
  from rows_grow_member [OF this] assms(2) show ?thesis
    unfolding has_effect_def effect_kept_def by (metis effect_record.select_convs(1,3) effect_record.surjective effect_record.update_convs(8))
qed

lemma writeEffect_has: "writeEffect e db = Inr db' \<Longrightarrow> has_effect db' (ef_graphId e) (ef_effectId e)"
  by (auto simp: writeEffect_def has_effect_def selectEffect_def result_simps dest!: find_Some_in)

lemma write_effects_has:
  assumes "write_effects es db = Inr db'" and "e \<in> set es"
  shows "has_effect db' (ef_graphId e) (ef_effectId e)"
  using assms
proof (induction es arbitrary: db)
  case (Cons e' es)
  then obtain db1 where w: "writeEffect e' db = Inr db1" "write_effects es db1 = Inr db'" by (auto simp: result_simps)
  show ?case
  proof (cases "e \<in> set es")
    case False
    with Cons.prems(2) have "e = e'" by simp
    then show ?thesis using has_effect_steps [OF write_effects_steps [OF w(2)] writeEffect_has [OF w(1)]] by simp
  qed (use Cons.IH w(2) in blast)
qed simp

lemma committed_effects:
  assumes com: "committing rt c before during state identity ctx validation d (Committed r) db" and k: "sn_kind d = AcceptedKind"
    and adv: "planned_advance rt ctx during (sn_fields d) = Some adv" and di: "di \<in> set (av_dispatches adv)"
    and g: "xi_graphId identity = graph_of rt"
  shows "has_effect db (graph_of rt) (dispatchEffectIdOf (di_attemptId di))"
proof -
  have c: "commitSubmission (rn_sha rt) (rn_num rt) (submission_request rt c identity) validation (Some (settlement_join rt ctx)) during =
      Inr (Submitted d (Committed r), db)" using com unfolding committing_def by (elim conjE)
  show ?thesis
  proof (rule commitSubmission_Submitted [OF c])
    fix binding retained live joined db1
    assume j: "run_join (Some (settlement_join rt ctx)) d during = Inr joined"
      and s: "settle_join (submission_request rt c identity) joined (Committed r) db1 = Inr db"
    from j k adv obtain x where x: "joined = Some x" "reduceInTransaction rt ctx during (sn_fields d) = Inr (x, Some adv)"
      by (auto simp: run_join_def settlement_join_def planned_advance_def result_simps split: option.splits sum.splits)
    then obtain runId where jx: "x = \<lparr>jr_effects = map (dispatch_effect rt) (av_dispatches adv),
        jr_settle = settle_run rt runId (sn_fields d) adv (rc_now ctx)\<rparr>"
      by (auto simp: reduceInTransaction_def split: option.splits sum.splits if_splits)
    from s x(1) obtain db2 where w: "write_effects (pendingEffectsOf (Some (map (dispatch_effect rt) (av_dispatches adv))) identity (sl_now c)) db1 = Inr db2"
        and t: "settle_run rt runId (sn_fields d) adv (rc_now ctx) db2 = Inr db"
      by (auto simp: settle_join_def result_simps submission_request_def jx)
    have "\<exists>e \<in> set (pendingEffectsOf (Some (map (dispatch_effect rt) (av_dispatches adv))) identity (sl_now c)).
        ef_graphId e = graph_of rt \<and> ef_effectId e = dispatchEffectIdOf (di_attemptId di)"
      using di g by (auto simp: pendingEffectsOf_def dispatch_effect_def)
    then have "has_effect db2 (graph_of rt) (dispatchEffectIdOf (di_attemptId di))" using write_effects_has [OF w] by metis
    then show ?thesis by (rule has_effect_steps [OF settle_run_steps [OF t]])
  qed
qed

text \<open>What was launched without an error is started.\<close>

definition started_effect :: "ledger \<Rightarrow> string \<Rightarrow> string \<Rightarrow> bool" where
  "started_effect db g i \<longleftrightarrow> (\<exists>row \<in> set (lg_effects db). ef_graphId row = g \<and> ef_effectId row = i \<and> ef_status row = EffectStarted)"

lemma mark_started:
  assumes "markEffectStarted g i db = Inr (t, db')"
  shows "started_effect db g' i' \<Longrightarrow> started_effect db' g' i'"
    and "t = EffectTransitioned e \<or> t = EffectUnchanged e \<Longrightarrow> started_effect db' g i"
proof -
  let ?m = "\<lambda>e. if ef_graphId e = g \<and> ef_effectId e = i \<and> transition_guard db g EffectStarted e then e\<lparr>ef_status := EffectStarted\<rparr> else e"
  have m: "lg_effects (move_effect db g i EffectStarted) = map ?m (lg_effects db)" by (simp add: move_effect_def)
  have "db' = db \<or> db' = move_effect db g i EffectStarted"
    using assms by (auto simp: markEffectStarted_def transitionEffect_def Let_def split: option.splits if_splits)
  moreover have "started_effect (move_effect db g i EffectStarted) g' i'" if s: "started_effect db g' i'"
  proof -
    from s obtain row where "row \<in> set (lg_effects db)" "ef_graphId row = g'" "ef_effectId row = i'" "ef_status row = EffectStarted"
      by (auto simp: started_effect_def)
    then show ?thesis unfolding started_effect_def m by (intro bexI [of _ "?m row"]) auto
  qed
  ultimately show "started_effect db g' i' \<Longrightarrow> started_effect db' g' i'" by blast
  assume "t = EffectTransitioned e \<or> t = EffectUnchanged e"
  then consider (same) "db' = db" "\<exists>row. selectEffect db g i = Some row \<and> ef_status (toPendingEffect row) = EffectStarted"
    | (moved) "db' = move_effect db g i EffectStarted" "list_ex (\<lambda>e. ef_graphId e = g \<and> ef_effectId e = i \<and> transition_guard db g EffectStarted e) (lg_effects db)"
    using assms by (auto simp: markEffectStarted_def transitionEffect_def Let_def split: option.splits if_splits)
  then show "started_effect db' g i"
  proof cases
    case same
    then obtain row where "selectEffect db g i = Some row" "ef_status row = EffectStarted" by (auto simp: toPendingEffect_def split: if_splits)
    then show ?thesis using same(1) by (auto simp: started_effect_def selectEffect_def dest!: find_Some_in)
  next
    case moved
    then obtain row where "row \<in> set (lg_effects db)" "ef_graphId row = g \<and> ef_effectId row = i \<and> transition_guard db g EffectStarted row"
      by (auto simp: list_ex_iff)
    then show ?thesis unfolding started_effect_def moved(1) m by (intro bexI [of _ "?m row"]) auto
  qed
qed

lemma launch_started:
  assumes "launch rt ds db = (True, db')"
  shows "started_effect db g i \<Longrightarrow> started_effect db' g i" and "d \<in> set ds \<Longrightarrow> started_effect db' (graph_of rt) (dispatchEffectIdOf (di_attemptId d))"
proof -
  have "(\<forall>g i. started_effect db g i \<longrightarrow> started_effect db' g i) \<and> (\<forall>d \<in> set ds. started_effect db' (graph_of rt) (dispatchEffectIdOf (di_attemptId d)))"
    using assms
  proof (induction ds arbitrary: db)
    case (Cons d ds)
    from Cons.prems obtain t db1 where m: "markEffectStarted (graph_of rt) (dispatchEffectIdOf (di_attemptId d)) db = Inr (t, db1)"
        "\<exists>e. t = EffectTransitioned e \<or> t = EffectUnchanged e" "launch rt ds db1 = (True, db')"
      by (auto split: if_splits sum.splits prod.splits effect_transition.splits)
    from mark_started [OF m(1)] m(2) Cons.IH [OF m(3)] show ?case by auto
  qed simp
  then show "started_effect db g i \<Longrightarrow> started_effect db' g i" "d \<in> set ds \<Longrightarrow> started_effect db' (graph_of rt) (dispatchEffectIdOf (di_attemptId d))"
    by blast+
qed

end
