(* ===== verification/RuntimeInvariant.thy ===== *)
theory RuntimeInvariant
  imports RuntimeHistory
begin

text \<open>
  The recorded state of a graph and the ledger agree: along every history of the run path the state is a state of a
  recorded run, every settled node has its acceptance, no attempt in flight has one, and an attempt that was armed
  stays armed until its acceptance is in the ledger.
\<close>

subsection \<open>The entries of an advance\<close>

definition entry_kept :: "node_state \<Rightarrow> node_state \<Rightarrow> bool" where
  "entry_kept e e' \<longleftrightarrow> ns_status e' = ns_status e \<and> (ns_status e \<noteq> Pending \<longrightarrow> ns_attemptId e' = ns_attemptId e) \<and>
     (ns_status e = Settled \<longrightarrow> ns_outcomeId e' = ns_outcomeId e)"

lemma entry_kept_refl [simp]: "entry_kept e e"
  by (simp add: entry_kept_def)

lemma entry_kept_simps [simp]:
  "entry_kept e (with_arrivals as e') = entry_kept e e'" "entry_kept e (with_inputRefusals rs e') = entry_kept e e'"
  by (cases e'; auto simp: entry_kept_def)+

definition entry_settled :: "accepted_decision \<Rightarrow> node_state \<Rightarrow> bool" where
  "entry_settled d e \<longleftrightarrow> ns_status e = Settled \<and> ns_attemptId e = dc_attemptId d \<and> ns_outcomeId e = dc_outcomeId d"

definition entry_fresh :: "nat \<Rightarrow> nat \<Rightarrow> node_state \<Rightarrow> bool" where
  "entry_fresh low high e \<longleftrightarrow> ns_status e = Dispatched \<and> (\<exists>n q. ns_attemptId e = attempt_id n q \<and> low < q \<and> q \<le> high)"

lemma advance_entries:
  assumes d: "distinct (node_ids (in_plan inp))" and adv: "advanceOutcomeGraph sha inp = Inr a"
  obtains pos where "pos < length (gs_nodes (in_state inp))" and "ns_status (gs_nodes (in_state inp) ! pos) = Dispatched"
    and "ns_attemptId (gs_nodes (in_state inp) ! pos) = dc_attemptId (in_decision inp)"
    and "length (gs_nodes (av_state a)) = length (gs_nodes (in_state inp))" and "gs_attemptSeq (in_state inp) \<le> gs_attemptSeq (av_state a)"
    and "\<And>i. i < length (gs_nodes (in_state inp)) \<Longrightarrow>
      (i \<noteq> pos \<and> entry_kept (gs_nodes (in_state inp) ! i) (gs_nodes (av_state a) ! i)) \<or>
      (i = pos \<and> entry_settled (in_decision inp) (gs_nodes (av_state a) ! i)) \<or>
      entry_fresh (gs_attemptSeq (in_state inp)) (gs_attemptSeq (av_state a)) (gs_nodes (av_state a) ! i)"
proof -
  let ?old = "gs_nodes (in_state inp)" and ?low = "gs_attemptSeq (in_state inp)"
  from d adv obtain pos r ds where pos: "pos < length ?old" "ns_status (?old ! pos) = Dispatched"
      "ns_attemptId (?old ! pos) = dc_attemptId (in_decision inp)"
      and ap: "apply_decisions (arm_context_of sha inp) ds (settled_arm inp pos) = Inr (rt_arm r)"
      and a: "a = conclude (in_plan inp) (in_state inp) (in_now inp) r"
    by (rule advance_arm) blast
  let ?P = "\<lambda>t :: arm_state. length (as_nodes t) = length ?old \<and> ?low \<le> as_attemptSeq t \<and>
    (\<forall>i < length ?old. (i \<noteq> pos \<and> entry_kept (?old ! i) (as_nodes t ! i)) \<or>
      (i = pos \<and> entry_settled (in_decision inp) (as_nodes t ! i)) \<or> entry_fresh ?low (as_attemptSeq t) (as_nodes t ! i))"
  have refusals: "entry_settled x (with_inputRefusals rs e) = entry_settled x e" "entry_fresh l h (with_inputRefusals rs e) = entry_fresh l h e"
    "entry_settled x (with_arrivals as e) = entry_settled x e" "entry_fresh l h (with_arrivals as e) = entry_fresh l h e" for x rs as e l h
    by (cases e; simp add: entry_settled_def entry_fresh_def)+
  have P: "?P (rt_arm r)"
  proof (rule apply_decisions_invariant [OF ap])
    show "?P (settled_arm inp pos)"
      using pos by (auto simp: settled_arm_def settle_entry_def entry_settled_def nth_list_update)
  next
    fix c rs and t :: arm_state assume t: "?P t"
    have "as_attemptSeq (record_refusals c rs t) = as_attemptSeq t" by (simp add: record_refusals_nodes)
    with t show "?P (record_refusals c rs t)" by (simp add: record_refusals_nodes nth_list_update refusals)
  next
    fix c es and t t' :: arm_state
    assume t: "?P t" and dc: "dispatch_candidate (arm_context_of sha inp) c es t = Inr t'"
    from dc obtain cred where t': "as_attemptSeq t' = Suc (as_attemptSeq t)" "as_nodes t' = (as_nodes t)[snd c :=
       DispatchedNode (cn_id (fst c)) (attempt_id (cn_id (fst c)) (Suc (as_attemptSeq t))) (Suc (as_attemptSeq t))
         (attemptCredentialDigest sha cred) (in_dispatchIdentity inp) (in_now inp) [] (Some es) None]"
      by (rule dispatch_candidate_Inr) (simp add: arm_context_of_def)
    have new: "entry_fresh ?low (Suc (as_attemptSeq t)) (as_nodes t' ! i)" if "i = snd c" "i < length ?old" for i
    proof -
      have "ns_status (as_nodes t' ! i) = Dispatched \<and> ns_attemptId (as_nodes t' ! i) = attempt_id (cn_id (fst c)) (Suc (as_attemptSeq t))"
        using that t by (simp add: t')
      moreover have "?low < Suc (as_attemptSeq t)" using t by simp
      ultimately show ?thesis unfolding entry_fresh_def by blast
    qed
    have up: "entry_fresh ?low (as_attemptSeq t) e \<Longrightarrow> entry_fresh ?low (Suc (as_attemptSeq t)) e" for e
      by (auto simp: entry_fresh_def intro: le_SucI)
    show "?P t'"
    proof (intro conjI allI impI)
      show "length (as_nodes t') = length ?old" "?low \<le> as_attemptSeq t'" using t t' by auto
      fix i assume i: "i < length ?old"
      show "(i \<noteq> pos \<and> entry_kept (?old ! i) (as_nodes t' ! i)) \<or>
        (i = pos \<and> entry_settled (in_decision inp) (as_nodes t' ! i)) \<or> entry_fresh ?low (as_attemptSeq t') (as_nodes t' ! i)"
      proof (cases "i = snd c")
        case True
        then show ?thesis using new i t'(1) by simp
      next
        case False
        then have "as_nodes t' ! i = as_nodes t ! i" by (simp add: t'(2))
        with t i up t'(1) show ?thesis by auto
      qed
    qed
  qed
  show ?thesis
  proof (rule that [OF pos(1,2,3)])
    show "length (gs_nodes (av_state a)) = length ?old" "?low \<le> gs_attemptSeq (av_state a)" using P a by simp_all
    fix i assume i: "i < length ?old"
    from canonicalise_nth [of i "as_nodes (rt_arm r)" "in_plan inp"] P i a obtain as where
      "gs_nodes (av_state a) ! i = with_arrivals as (as_nodes (rt_arm r) ! i)" by auto
    with P i a show "(i \<noteq> pos \<and> entry_kept (?old ! i) (gs_nodes (av_state a) ! i)) \<or>
      (i = pos \<and> entry_settled (in_decision inp) (gs_nodes (av_state a) ! i)) \<or>
      entry_fresh ?low (gs_attemptSeq (av_state a)) (gs_nodes (av_state a) ! i)" by (simp add: refusals)
  qed
qed

subsection \<open>Agreement of a state with the settlements of its graph\<close>

definition agrees :: "accepted_event list \<Rightarrow> graph_state \<Rightarrow> bool" where
  "agrees events st \<longleftrightarrow>
     (\<forall>e \<in> set (gs_nodes st). ns_status e = Settled \<longrightarrow>
        (\<exists>ev \<in> set events. ev_attemptId ev = ns_attemptId e \<and> ev_outcomeId ev = ns_outcomeId e)) \<and>
     (\<forall>ev \<in> set events. (\<exists>n q. ev_attemptId ev = attempt_id n q \<and> q \<le> gs_attemptSeq st) \<and>
        (\<forall>e \<in> set (gs_nodes st). ns_status e = Dispatched \<longrightarrow> ns_attemptId e \<noteq> ev_attemptId ev))"

lemma advance_agrees:
  assumes wf: "wf_plan (in_plan inp)" and inv: "run_inv (in_plan inp) (in_state inp)" and adv: "advanceOutcomeGraph sha inp = Inr a"
    and old: "agrees events (in_state inp)" and ev: "ev_attemptId ev = dc_attemptId (in_decision inp)" "ev_outcomeId ev = dc_outcomeId (in_decision inp)"
  shows "agrees (events @ [ev]) (av_state a)"
proof -
  let ?old = "gs_nodes (in_state inp)" and ?new = "gs_nodes (av_state a)"
  have att: "attempts_ok ?old (gs_attemptSeq (in_state inp))" "seqs_distinct ?old" using inv by (simp_all add: run_inv_def)
  from wf_plan_distinct [OF wf] adv obtain pos where pos: "pos < length ?old" "ns_status (?old ! pos) = Dispatched"
      "ns_attemptId (?old ! pos) = dc_attemptId (in_decision inp)" "length ?new = length ?old"
      "gs_attemptSeq (in_state inp) \<le> gs_attemptSeq (av_state a)"
    and each: "\<And>i. i < length ?old \<Longrightarrow> (i \<noteq> pos \<and> entry_kept (?old ! i) (?new ! i)) \<or>
      (i = pos \<and> entry_settled (in_decision inp) (?new ! i)) \<or> entry_fresh (gs_attemptSeq (in_state inp)) (gs_attemptSeq (av_state a)) (?new ! i)"
    by (rule advance_entries) blast
  have own: "?old ! i \<in> set ?old" if "i < length ?old" for i using that by simp
  have id: "ns_attemptId (?old ! i) = attempt_id (ns_nodeId (?old ! i)) (ns_attemptSeq (?old ! i)) \<and>
      ns_attemptSeq (?old ! i) \<le> gs_attemptSeq (in_state inp)" if "i < length ?old" "ns_status (?old ! i) \<noteq> Pending" for i
    using att(1) own [OF that(1)] that(2) by (auto simp: attempts_ok_def)
  have settled: "\<exists>x \<in> set (events @ [ev]). ev_attemptId x = ns_attemptId (?new ! i) \<and> ev_outcomeId x = ns_outcomeId (?new ! i)"
    if i: "i < length ?old" and s: "ns_status (?new ! i) = Settled" for i
    using each [OF i] s old own [OF i] ev by (auto simp: agrees_def entry_kept_def entry_settled_def entry_fresh_def)
  have seq: "\<exists>n q. ev_attemptId x = attempt_id n q \<and> q \<le> gs_attemptSeq (in_state inp)" if "x \<in> set (events @ [ev])" for x
    using that old id [OF pos(1)] pos(2,3) ev(1) by (auto simp: agrees_def)
  have flight: "ns_attemptId (?new ! i) \<noteq> ev_attemptId x"
    if i: "i < length ?old" and s: "ns_status (?new ! i) = Dispatched" and x: "x \<in> set (events @ [ev])" for i x
  proof -
    consider (kept) "i \<noteq> pos" "entry_kept (?old ! i) (?new ! i)"
      | (fresh) "entry_fresh (gs_attemptSeq (in_state inp)) (gs_attemptSeq (av_state a)) (?new ! i)"
      using each [OF i] s by (auto simp: entry_settled_def)
    then show ?thesis
    proof cases
      case kept
      then have e: "ns_status (?old ! i) = Dispatched" "ns_attemptId (?new ! i) = ns_attemptId (?old ! i)" using s by (auto simp: entry_kept_def)
      have "ns_attemptSeq (?old ! i) \<noteq> ns_attemptSeq (?old ! pos)"
        using att(2) i pos(1,2) e(1) kept(1) unfolding seqs_distinct_def by (metis node_status.distinct(1))
      then have "ns_attemptId (?old ! i) \<noteq> dc_attemptId (in_decision inp)"
        using id [OF i] id [OF pos(1)] e(1) pos(2) unfolding pos(3) [symmetric] by (simp add: attempt_id_inj)
      moreover have "ns_attemptId (?old ! i) \<noteq> ev_attemptId x" if "x \<in> set events"
        using old that own [OF i] e(1) by (auto simp: agrees_def)
      ultimately show ?thesis using x ev(1) e(2) by auto
    next
      case fresh
      then obtain n q where q: "ns_attemptId (?new ! i) = attempt_id n q" "gs_attemptSeq (in_state inp) < q" by (auto simp: entry_fresh_def)
      from seq [OF x] obtain n' q' where "ev_attemptId x = attempt_id n' q'" "q' \<le> gs_attemptSeq (in_state inp)" by blast
      with q show ?thesis by (auto simp: attempt_id_inj)
    qed
  qed
  have new: "\<exists>i < length ?old. e = ?new ! i" if "e \<in> set ?new" for e using that pos(4) by (auto simp: in_set_conv_nth)
  show ?thesis
    unfolding agrees_def
  proof (intro conjI ballI impI)
    fix e assume "e \<in> set ?new" "ns_status e = Settled"
    then show "\<exists>x \<in> set (events @ [ev]). ev_attemptId x = ns_attemptId e \<and> ev_outcomeId x = ns_outcomeId e"
      using new settled by blast
  next
    fix x assume "x \<in> set (events @ [ev])"
    then show "\<exists>n q. ev_attemptId x = attempt_id n q \<and> q \<le> gs_attemptSeq (av_state a)"
      using seq pos(5) order_trans by blast
  next
    fix x e assume "x \<in> set (events @ [ev])" "e \<in> set ?new" "ns_status e = Dispatched"
    then show "ns_attemptId e \<noteq> ev_attemptId x" using new flight by blast
  qed
qed

subsection \<open>The conditions of a step\<close>

definition results_ok :: "ledger \<Rightarrow> bool" where
  "results_ok db \<longleftrightarrow> (\<forall>x \<in> set (lg_results db). pred_option (list_all retained_artifact_ok) (res_artifacts x))"

lemma writeAcceptedResult_ok: "writeAcceptedResult num x db = Inr db' \<Longrightarrow> results_ok db \<Longrightarrow> results_ok db'"
  by (auto simp: writeAcceptedResult_def requireRetainedArtifacts_def results_ok_def result_simps split: option.splits if_splits)

lemma insert_effects_results: "insert_effects es db = Inr db' \<Longrightarrow> lg_results db' = lg_results db"
  using insert_effects_Inr [of es db db'] by auto

lemma writeBatch_ok:
  assumes "writeBatch num batch db = Inr (Some db')" and "results_ok db"
  shows "results_ok db'"
proof -
  let ?db1 = "db\<lparr>lg_receipts := lg_receipts db @ [bt_receipt batch], lg_events := lg_events db @ event_rows batch\<rparr>"
  have "results_ok ?db1" using assms(2) by (simp add: results_ok_def)
  moreover have "rbind (case bt_acceptedResult batch of None \<Rightarrow> Inr ?db1 | Some x \<Rightarrow> writeAcceptedResult num x ?db1)
      (insert_effects (bt_effects batch)) = Inr db'"
    using assms(1) by (auto simp: writeBatch_def Let_def event_rows_def result_simps split: if_splits option.splits)
  ultimately obtain db2 where "results_ok db2" and e: "insert_effects (bt_effects batch) db2 = Inr db'"
    by (auto simp: result_simps split: option.splits intro: writeAcceptedResult_ok)
  with insert_effects_results [OF e] show ?thesis by (simp add: results_ok_def)
qed

lemma commit_write_ok: "commit_write num batch db = Inr (v, db') \<Longrightarrow> results_ok db \<Longrightarrow> results_ok db'"
  by (auto simp: commit_write_def result_simps split: option.splits intro: writeBatch_ok)

lemma commitAccepted_ok: "commitAccepted num batch db = Inr (v, db') \<Longrightarrow> results_ok db \<Longrightarrow> results_ok db'"
  by (auto simp: commitAccepted_def result_simps split: option.splits intro: commit_write_ok)

text \<open>Every other operation leaves the results alone.\<close>

lemma transitionEffect_results: "transitionEffect g i target db = Inr (t, db') \<Longrightarrow> lg_results db' = lg_results db"
  by (drule transitionEffect_same) (simp add: same_rows_def)

lemma claim_run_results: "claim_run c db = Inr db' \<Longrightarrow> lg_results db' = lg_results db"
  by (auto simp: claim_run_def Let_def split: if_splits)

lemma update_pending_results [simp]: "lg_results (update_pending P status db) = lg_results db"
  by (simp add: update_pending_def)

lemma operations_results:
  "writeGraphState num explicit st db = Inr db' \<Longrightarrow> lg_results db' = lg_results db"
  "writeEffect e db = Inr db' \<Longrightarrow> lg_results db' = lg_results db"
  "mintRun identity db = Inr (row, db') \<Longrightarrow> lg_results db' = lg_results db"
  "mintNextRun identity after db = Inr (next_row, db') \<Longrightarrow> lg_results db' = lg_results db"
  "writeControlDecision d c db = Inr (w, db') \<Longrightarrow> lg_results db' = lg_results db"
  "claimRunControl k db = Inr (stands, db') \<Longrightarrow> lg_results db' = lg_results db"
  "recordReexecution x db = Inr (ow, db') \<Longrightarrow> lg_results db' = lg_results db"
  "markReexecutionExecuted g r s t_at db = Inr (landed, db') \<Longrightarrow> lg_results db' = lg_results db"
  "raiseApprovalRequest q db = Inr (qr, db') \<Longrightarrow> lg_results db' = lg_results db"
  "decideApprovalRequest aw db = Inr (qd, db') \<Longrightarrow> lg_results db' = lg_results db"
  "expireDueApprovals g stamp reason db = Inr (qs, db') \<Longrightarrow> lg_results db' = lg_results db"
  "expireRunApprovals g r stamp reason db = Inr (qs, db') \<Longrightarrow> lg_results db' = lg_results db"
  by (auto simp: writeGraphState_def writeEffect_def mintRun_def mintNextRun_def writeControlDecision_def claimRunControl_def
      recordReexecution_def markReexecutionExecuted_def raiseApprovalRequest_def decideApprovalRequest_def expireDueApprovals_def
      expireRunApprovals_def sweep_approvals_def result_simps Let_def dest!: claim_run_results split: if_splits option.splits)

lemma ledger_step_results_ok: "ledger_step num db db' \<Longrightarrow> results_ok db \<Longrightarrow> results_ok db'"
proof (induction rule: ledger_step.induct)
  case (raced_commit batch db v db')
  then show ?case by (blast intro: commit_write_ok)
qed (auto simp: results_ok_def markEffectStarted_def markEffectDone_def markEffectFailed_def
    dest: operations_results transitionEffect_results commitAccepted_ok [unfolded results_ok_def] writeAcceptedResult_ok [unfolded results_ok_def])

lemma store_steps_results_ok: "store_steps num db db' \<Longrightarrow> results_ok db \<Longrightarrow> results_ok db'"
  by (induction rule: rtranclp_induct) (auto intro: ledger_step_results_ok)

lemma retained_ok_artifact: "retained_artifact_ok a \<Longrightarrow> ok_artifact a"
  by (auto simp: retained_artifact_ok_def ok_artifact_def isArtifactId_def is_hex64_def)

lemma retained_ok_artifacts: "list_all retained_artifact_ok as \<Longrightarrow> list_all ok_artifact as"
  by (auto simp: list_all_iff retained_ok_artifact)

lemma reads_ok_ledger:
  assumes "results_ok db"
    and just: "\<And>j. just = Some j \<Longrightarrow> list_all retained_artifact_ok (arf_artifacts (jar_facts j))"
  shows "reads_ok (acceptedResultReaderOf g (ledger_reads_of db) just)"
proof -
  have durable: "list_all ok_artifact (arf_artifacts f)" if d: "durable_result_reading g (ledger_reads_of db) a = ResultFacts f" for a f
  proof -
    from d obtain x where x: "readAcceptedResult db g a = Some x" "arf_artifacts f = (case res_artifacts x of None \<Rightarrow> [] | Some xs \<Rightarrow> xs)"
      by (auto simp: durable_result_reading_def ledger_reads_of_def split: option.splits)
    from x(1) have "x \<in> set (lg_results db)" by (auto simp: readAcceptedResult_def dest: find_Some_in)
    with assms(1) have "pred_option (list_all retained_artifact_ok) (res_artifacts x)" by (simp add: results_ok_def)
    with x(2) show ?thesis by (cases "res_artifacts x") (simp_all add: retained_ok_artifacts)
  qed
  show ?thesis
    unfolding reads_ok_def
  proof (intro allI impI)
    fix a f assume r: "acceptedResultReaderOf g (ledger_reads_of db) just a = ResultFacts f"
    show "list_all ok_artifact (arf_artifacts f)"
    proof (cases "\<exists>j. just = Some j \<and> jar_attemptId j = a")
      case True
      with r just show ?thesis by (auto simp: acceptedResultReaderOf_def intro: retained_ok_artifacts)
    next
      case False
      with r have "durable_result_reading g (ledger_reads_of db) a = ResultFacts f"
        by (auto simp: acceptedResultReaderOf_def split: option.splits if_splits)
      then show ?thesis by (rule durable)
    qed
  qed
qed

lemma observe_token: "observe numText v = Token t \<Longrightarrow> ok_token t"
  by (auto simp: observe_def ok_token_def split: jsval.splits if_splits)

lemma projectProgress_token:
  "projectProgress numText binding g policy data = Projected pj \<Longrightarrow> pj_observation pj = Token t \<Longrightarrow> ok_token t"
  by (auto simp: projectProgress_def projectionOf_def Let_def observe_token split: if_splits)

lemma project_groups_token:
  assumes "project_groups rt binding data gs = Inr pjs" and "p \<in> set pjs" and "pj_observation p = Token t"
  shows "ok_token t"
  using assms
proof (induction gs arbitrary: pjs)
  case (Cons g gs)
  show ?case
  proof (cases "clg_progress g")
    case None
    then show ?thesis using Cons by simp
  next
    case (Some policy)
    with Cons.prems(1) obtain pj rest where pj: "projectProgress (rn_numText rt) binding (clg_id g) policy data = Projected pj"
        and rest: "project_groups rt binding data gs = Inr rest" "pjs = pj # rest"
      by (auto simp: result_simps split: projection_reading.splits)
    show ?thesis
    proof (cases "p = pj")
      case True
      then show ?thesis using projectProgress_token [OF pj] Cons.prems(3) by simp
    next
      case False
      then show ?thesis using Cons.IH [OF rest(1)] Cons.prems(2,3) rest(2) by simp
    qed
  qed
qed simp

lemma progressProjections_token:
  "progressProjections rt proposal identity = Inr pjs \<Longrightarrow> p \<in> set pjs \<Longrightarrow> pj_observation p = Token t \<Longrightarrow> ok_token t"
  by (auto simp: progressProjections_def Let_def split: sum.splits if_splits intro: project_groups_token)

lemma readCurrentHostIdentity_ok: "readCurrentHostIdentity capability = IdentityKnown i \<Longrightarrow> ok_identity i"
  by (auto simp: readCurrentHostIdentity_def split: option.splits sum.splits if_splits dest: readHostInvocationIdentity_ok)

lemma runPreflight_Inr:
  assumes "runPreflight rt now (readCurrentHostIdentity capability) = Inr dispatchIdentity"
  shows "\<bar>now\<bar> \<le> max_safe" and "pred_option ok_identity dispatchIdentity"
proof -
  from assms show "\<bar>now\<bar> \<le> max_safe"
    by (auto simp: runPreflight_def readRuntimeClock_def split: option.splits if_splits)
  from assms have "dispatchIdentity = (case readCurrentHostIdentity capability of IdentityKnown i \<Rightarrow> Some i | _ \<Rightarrow> None)"
    by (auto simp: runPreflight_def split: option.splits if_splits)
  then show "pred_option ok_identity dispatchIdentity"
    using readCurrentHostIdentity_ok by (auto split: identity_reading.splits)
qed

lemma committing_env:
  assumes com: "committing rt c before during state identity ctx validation d verdict db"
    and hash: "hex_hash (rn_sha rt)" and now: "0 \<le> sl_now c" and cap: "sl_identity c = readCurrentHostIdentity capability"
    and res: "results_ok during" and rv: "validation = Validated d binding (Some rv)" "list_all retained_artifact_ok (rt_artifacts rv)"
  shows "step_env_ok (rn_sha rt) (advance_input_of rt ctx current decision during)"
proof -
  from com have p: "runPreflight rt (sl_now c) (readCurrentHostIdentity capability) = Inr (rc_identity ctx)" "rc_now ctx = sl_now c"
      "rc_justAccepted ctx = just_accepted_of validation"
      "(if validated_accepted validation then progressProjections rt (sl_proposal c) identity else Inr []) = Inr (rc_progress ctx)"
    by (auto simp: committing_def cap)
  have "ok_epoch (rc_now ctx)" using runPreflight_Inr(1) [OF p(1)] now p(2) by (simp add: ok_epoch_def)
  moreover have "reads_ok (accepted_reader (advance_input_of rt ctx current decision during))"
    using reads_ok_ledger [OF res, of "rc_justAccepted ctx" "graph_of rt"] rv p(3)
    by (auto simp: advance_input_of_def accepted_reader_def just_accepted_of_def split: if_splits)
  moreover have "ok_token t" if "q \<in> set (rc_progress ctx)" "pj_observation q = Token t" for q t
    using p(4) that progressProjections_token by (auto split: if_splits)
  ultimately show ?thesis
    using hash runPreflight_Inr(2) [OF p(1)] by (simp add: step_env_ok_def advance_input_of_def)
qed

end
