(* ===== verification/RuntimeAgreement.thy ===== *)
theory RuntimeAgreement
  imports RuntimeInvariant
begin

text \<open>
  The histories of a graph's run path and the agreement of its recorded state with the ledger along each of them.
\<close>

subsection \<open>The rows of one graph\<close>

definition graph_states :: "runtime \<Rightarrow> ledger \<Rightarrow> (string \<times> graph_state_record) list" where
  "graph_states rt db = filter (\<lambda>(run, rec). sd_graphId rec = graph_of rt) (lg_states db)"

definition graph_events :: "runtime \<Rightarrow> ledger \<Rightarrow> accepted_event list" where
  "graph_events rt db = filter (\<lambda>e. ev_graphId e = graph_of rt) (lg_events db)"

lemma replace_state_none:
  "filter (\<lambda>(r, s). sd_graphId s = sd_graphId rec) rows = [] \<Longrightarrow>
     filter (\<lambda>(r, s). sd_graphId s = sd_graphId rec) (replace_state run rec rows) = [(run, rec)]"
  by (induction rows) (auto split: if_splits)

lemma replace_state_one:
  "filter (\<lambda>(r, s). sd_graphId s = sd_graphId rec) rows = [(run, old)] \<Longrightarrow>
     filter (\<lambda>(r, s). sd_graphId s = sd_graphId rec) (replace_state run rec rows) = [(run, rec)]"
proof (induction rows)
  case (Cons x rows)
  obtain r s where x: "x = (r, s)" by fastforce
  show ?case
  proof (cases "sd_graphId s = sd_graphId rec")
    case True
    with Cons.prems x have "r = run" "filter (\<lambda>(r, s). sd_graphId s = sd_graphId rec) rows = []" by auto
    with True x show ?thesis by simp
  next
    case False
    with Cons x show ?thesis by simp
  qed
qed simp

text \<open>One row at most, under the current run, whose state is a state of a recorded run and agrees with the settlements.\<close>

definition recorded_row :: "runtime \<Rightarrow> ledger \<Rightarrow> graph_state_record \<Rightarrow> bool" where
  "recorded_row rt db rec \<longleftrightarrow> (\<exists>st t. rec = stateRecordOf st t \<and> recorded_run (rn_sha rt) (rn_plan rt) st \<and> agrees (graph_events rt db) st)"

definition runtime_inv :: "runtime \<Rightarrow> ledger \<Rightarrow> bool" where
  "runtime_inv rt db \<longleftrightarrow> results_ok db \<and>
     ((graph_states rt db = [] \<and> graph_events rt db = []) \<or>
      (\<exists>run rec. graph_states rt db = [(run, rec)] \<and> readCurrentRunId db (graph_of rt) = Some run \<and> recorded_row rt db rec))"

lemma find_filter: "find P xs = (case filter P xs of [] \<Rightarrow> None | x # _ \<Rightarrow> Some x)"
  by (induction xs) auto

lemma readGraphStateOf_row:
  assumes "filter (\<lambda>(r, s). sd_graphId s = g) rows = [(run, rec)]"
  shows "find (\<lambda>(r, s). sd_graphId s = g \<and> r = run) rows = Some (run, rec)"
proof -
  have "filter (\<lambda>(r, s). sd_graphId s = g \<and> r = run) rows = filter (\<lambda>(r, s). r = run) (filter (\<lambda>(r, s). sd_graphId s = g) rows)"
    by (simp add: conj_commute split_def)
  then show ?thesis by (simp add: find_filter assms)
qed

lemma readGraphState_graph:
  assumes "runtime_inv rt db"
  shows "readGraphState db (graph_of rt) = (case graph_states rt db of [] \<Rightarrow> None | row # _ \<Rightarrow> Some row)"
proof -
  have none: "readGraphState db (graph_of rt) = None" if "graph_states rt db = []"
  proof -
    from that have "\<forall>x \<in> set (lg_states db). sd_graphId (snd x) \<noteq> graph_of rt" by (auto simp: graph_states_def filter_empty_conv)
    then have "find (\<lambda>(r, s). sd_graphId s = graph_of rt \<and> r = run) (lg_states db) = None"
      "find (\<lambda>(r, s). sd_graphId s = graph_of rt) (rev (lg_states db)) = None" for run by (auto simp: find_None_iff)
    then show ?thesis by (auto simp: readGraphState_def readGraphStateOf_def split: option.split)
  qed
  from assms consider "graph_states rt db = []"
    | run rec where "graph_states rt db = [(run, rec)]" "readCurrentRunId db (graph_of rt) = Some run"
    by (auto simp: runtime_inv_def)
  then show ?thesis
    by cases (use none readGraphStateOf_row in \<open>auto simp: readGraphState_def readGraphStateOf_def graph_states_def\<close>)
qed

lemma recorded_row_read:
  assumes wf: "wf_plan (rn_plan rt)" and row: "rec = stateRecordOf st t" "recorded_run (rn_sha rt) (rn_plan rt) st"
    and read: "read_plan_state rt rec = Inr st'"
  shows "st' = st"
proof -
  from read obtain v where "v \<in> {9, 10}" "readStateBody (enc_state st) (rn_plan rt) (layout_for v) = Inr st'"
    by (auto simp: read_plan_state_def readOutcomeGraphState_Inr row(1) stateRecordOf_def)
  then have "nonneg_safe (js_get (enc_state st) ''attemptSeq'') \<noteq> None" by (auto simp: readStateBody_def result_simps)
  moreover have "js_get (enc_state st) ''attemptSeq'' = js_nat (gs_attemptSeq st)"
    by (cases "gs_stop st"; cases "gs_loopProgress st") (simp_all add: enc_state_def)
  ultimately have "int (gs_attemptSeq st) \<le> max_safe" by (auto simp: nonneg_safe_def js_nat_def js_int_def split: option.splits if_splits)
  from readOutcomeGraphState_enc [OF recorded_run_readable [OF wf row(2) this]] read show ?thesis
    by (simp add: read_plan_state_def row(1))
qed

subsection \<open>Histories of the run path\<close>

text \<open>
  A step is a start, a settlement that read the ledger at some earlier time, or any transaction of the store that leaves
  the states, the settlements and the current run of this graph alone: the control, approval, budget and effect
  operations, and everything other graphs do. The clock is not negative (the reader of a state refuses a negative
  time, and \<open>readRuntimeClock\<close> does not).
\<close>

definition apart :: "runtime \<Rightarrow> ledger \<Rightarrow> ledger \<Rightarrow> bool" where
  "apart rt db db' \<longleftrightarrow> graph_states rt db' = graph_states rt db \<and> graph_events rt db' = graph_events rt db \<and>
     readCurrentRunId db' (graph_of rt) = readCurrentRunId db (graph_of rt)"

inductive runtime_step :: "runtime \<Rightarrow> ledger \<Rightarrow> ledger \<Rightarrow> bool" for rt where
  start: "startGraph rt now (readCurrentHostIdentity capability) db = (answer, db') \<Longrightarrow> 0 \<le> now \<Longrightarrow> runtime_step rt db db'"
| settle: "settleSubmission rt c before db = (answer, db') \<Longrightarrow> sl_identity c = readCurrentHostIdentity capability \<Longrightarrow> 0 \<le> sl_now c \<Longrightarrow>
     runtime_step rt db db'"
| other: "ledger_step (rn_num rt) db db' \<Longrightarrow> apart rt db db' \<Longrightarrow> runtime_step rt db db'"

inductive_cases runtime_stepE: "runtime_step rt db db'"

lemma runtime_step_store: "runtime_step rt db db' \<Longrightarrow> store_steps (rn_num rt) db db'"
  by (elim runtime_stepE) (blast intro: start_steps settlement_steps r_into_rtranclp)+

lemma apart_inv:
  assumes "apart rt db db'" and "results_ok db'" and "runtime_inv rt db"
  shows "runtime_inv rt db'"
proof -
  from assms(1) have same: "graph_states rt db' = graph_states rt db" "graph_events rt db' = graph_events rt db"
      "readCurrentRunId db' (graph_of rt) = readCurrentRunId db (graph_of rt)" by (simp_all add: apart_def)
  have "recorded_row rt db' rec = recorded_row rt db rec" for rec by (simp only: recorded_row_def same)
  then show ?thesis using assms(2,3) unfolding runtime_inv_def same by simp
qed

lemma same_rows_graph:
  "same_rows db db' \<Longrightarrow> graph_states rt db' = graph_states rt db"
  "same_rows db db' \<Longrightarrow> graph_events rt db' = graph_events rt db"
  "same_rows db db' \<Longrightarrow> readCurrentRunId db' g = readCurrentRunId db g"
proof -
  show "same_rows db db' \<Longrightarrow> readCurrentRunId db' g = readCurrentRunId db g" by (rule current_run_cong) (simp add: same_rows_def)
qed (simp_all add: same_rows_def graph_states_def graph_events_def)

lemma same_rows_apart: "same_rows db db' \<Longrightarrow> apart rt db db'"
  unfolding apart_def by (intro conjI; rule same_rows_graph)

lemma same_rows_results: "same_rows db db' \<Longrightarrow> results_ok db' \<longleftrightarrow> results_ok db"
  by (simp add: same_rows_def results_ok_def)

lemma same_rows_inv: "same_rows db db' \<Longrightarrow> runtime_inv rt db \<Longrightarrow> runtime_inv rt db'"
  by (rule apart_inv [OF same_rows_apart]) (auto simp: runtime_inv_def same_rows_results)

subsection \<open>A start\<close>

lemma started_agrees:
  assumes "wf_plan (se_plan env)" and "startRun env surface = Inr r"
  shows "agrees [] (rs_state r)"
  using start_entries [OF assms(2,1)] by (auto simp: agrees_def split: if_splits)

lemma start_inv:
  assumes wf: "wf_plan (rn_plan rt)" and hash: "hex_hash (rn_sha rt)" and now: "0 \<le> now"
    and s: "startGraph rt now (readCurrentHostIdentity capability) db = (answer, db')" and inv: "runtime_inv rt db"
  shows "runtime_inv rt db'"
  using s
proof (rule startGraph_cases)
  fix dispatchIdentity r db1 ok
  assume p: "runPreflight rt now (readCurrentHostIdentity capability) = Inr dispatchIdentity"
    and none: "runtime_state rt db = Inr None" and entry: "entryNodesOf (rn_plan rt) \<noteq> []"
    and t: "start_transaction rt now dispatchIdentity db = Inr (r, db1)" and l: "launch rt (rs_dispatched r) db1 = (ok, db')"
  have "readGraphState db (graph_of rt) = None" using none by (auto simp: runtime_state_def result_simps split: option.splits prod.splits)
  then have empty: "graph_states rt db = []" "graph_events rt db = []"
    using readGraphState_graph [OF inv] inv by (auto simp: runtime_inv_def)
  from t obtain db0 row surface where m: "mintRun \<lparr>rid_graphId = graph_of rt, rid_runId = runIdentityOf (graph_of rt) now, rid_startedAt = now,
      rid_planRevision = cp_planRevision (rn_plan rt)\<rparr> db = Inr (row, db0)"
    and r: "mintRunInTransaction (start_env_of rt now dispatchIdentity db0) 0 surface = Inr r" and steps: "store_steps (rn_num rt) db db1"
    and rows: "lg_states db1 = replace_state (rid_runId (rw_identity row)) (stateRecordOf (rs_state r) now) (lg_states db)"
      "lg_events db1 = lg_events db" "lg_results db1 = lg_results db" "lg_runs db1 = lg_runs db0"
    by (rule start_transaction_Inr)
  let ?env = "start_env_of rt now dispatchIdentity db0"
  have plan: "se_plan ?env = rn_plan rt" "se_sha ?env = rn_sha rt" by (simp_all add: start_env_of_def)
  have run: "startRun ?env surface = Inr r" using r entry by (simp add: startRun_def plan)
  have results: "results_ok db1" using rows(3) inv by (simp add: results_ok_def runtime_inv_def)
  have "lg_results db0 = lg_results db" using m by (rule operations_results)
  then have "results_ok db0" using inv by (simp add: results_ok_def runtime_inv_def)
  then have "start_env_ok ?env"
    using runPreflight_Inr [OF p] now hash reads_ok_ledger [of db0 None "graph_of rt"]
    by (simp add: start_env_ok_def start_env_of_def ok_epoch_def)
  with run plan have rec: "recorded_run (rn_sha rt) (rn_plan rt) (rs_state r)" by (blast intro: recorded_run.started)
  have gid: "sd_graphId (stateRecordOf (rs_state r) now) = graph_of rt"
    using recorded_run_of [OF rec, THEN run_of_inv, OF wf] by (simp add: stateRecordOf_def run_inv_def)
  have "graph_states rt db1 = [(rid_runId (rw_identity row), stateRecordOf (rs_state r) now)]"
    using replace_state_none [of "stateRecordOf (rs_state r) now" "lg_states db"] empty(1) unfolding rows(1) graph_states_def gid .
  moreover have "readCurrentRunId db1 (graph_of rt) = Some (rid_runId (rw_identity row))"
    using mintRun_minted [OF m] rows(4) by (simp add: readCurrentRunId_def readRun_def)
  moreover have "graph_events rt db1 = []" using empty(2) rows(2) by (simp add: graph_events_def)
  ultimately have "runtime_inv rt db1"
    using results rec started_agrees [OF _ run] wf plan by (auto simp: runtime_inv_def recorded_row_def)
  then show ?thesis by (rule same_rows_inv [OF launch_same [OF l]])
qed (use inv in simp)

subsection \<open>A settlement\<close>

text \<open>A settlement leaves the rows of its graph alone, or it replaces the state by the advance of one acceptance.\<close>

definition advanced_rows :: "runtime \<Rightarrow> ledger \<Rightarrow> ledger \<Rightarrow> graph_state \<Rightarrow> advance_input \<Rightarrow> advance \<Rightarrow> accepted_event \<Rightarrow> bool" where
  "advanced_rows rt db db' st inp adv ev \<longleftrightarrow>
     recorded_run (rn_sha rt) (rn_plan rt) st \<and> agrees (graph_events rt db) st \<and> step_env_ok (rn_sha rt) inp \<and>
     in_state inp = st \<and> in_plan inp = rn_plan rt \<and> advanceOutcomeGraph (rn_sha rt) inp = Inr adv \<and>
     ev_graphId ev = graph_of rt \<and> ev_attemptId ev = dc_attemptId (in_decision inp) \<and> ev_outcomeId ev = dc_outcomeId (in_decision inp) \<and>
     graph_events rt db' = graph_events rt db @ [ev] \<and> readCurrentRunId db' (graph_of rt) = readCurrentRunId db (graph_of rt) \<and>
     (\<exists>run t now. graph_states rt db = [(run, stateRecordOf st t)] \<and> read_plan_state rt (stateRecordOf st t) = Inr st \<and> readCurrentRunId db (graph_of rt) = Some run \<and>
        graph_states rt db' = [(run, stateRecordOf (av_state adv) now)])"

lemma accepted_ledger_rows:
  assumes wf: "wf_plan (rn_plan rt)" and hash: "hex_hash (rn_sha rt)" and now: "0 \<le> sl_now c"
    and cap: "sl_identity c = readCurrentHostIdentity capability" and inv: "runtime_inv rt during"
    and com: "committing rt c before during state identity ctx validation d (Committed r) db" and k: "sn_kind d = AcceptedKind"
  shows "\<exists>st inp adv ev. advanced_rows rt during db st inp adv ev"
proof -
  from committed_accepted [OF com k] obtain binding rv current adv where
    v: "validation = Validated d binding (Some rv)" and a: "accepted_advance rt ctx during d current adv"
    and l: "accepted_ledger rt c identity d r rv adv during db" and g: "rcp_graphId r = graph_of rt"
    and att: "rcp_attemptId r = dc_attemptId (sn_fields d)" by metis
  let ?ev = "accepted_event_of (submission_request rt c identity) r (dc_outcomeId (sn_fields d))"
  let ?inp = "advance_input_of rt ctx current (sn_fields d) during"
  from l obtain run' where rows: "lg_events db = lg_events during @ [?ev]"
      "list_all retained_artifact_ok (rt_artifacts rv)" "lg_runs db = lg_runs during"
      "writeRunIdOf during (graph_of rt) None = Inr run'"
      "lg_states db = replace_state run' (stateRecordOf (av_state adv) (sl_now c)) (lg_states during)"
    by (auto simp: accepted_ledger_def)
  from a obtain run rec where read: "readGraphState during (graph_of rt) = Some (run, rec)" "read_plan_state rt rec = Inr current"
    and adv: "advanceOutcomeGraph (rn_sha rt) ?inp = Inr adv"
    by (auto simp: accepted_advance_def)
  from readGraphState_graph [OF inv] read(1) inv have one: "graph_states rt during = [(run, rec)]"
    and cur: "readCurrentRunId during (graph_of rt) = Some run" and row: "recorded_row rt during rec"
    by (auto simp: runtime_inv_def split: list.splits)
  from row obtain st t where st: "rec = stateRecordOf st t" "recorded_run (rn_sha rt) (rn_plan rt) st" "agrees (graph_events rt during) st"
    by (auto simp: recorded_row_def)
  have current: "current = st" using recorded_row_read [OF wf st(1,2) read(2)] .
  have inp: "in_state ?inp = st" "in_plan ?inp = rn_plan rt" "in_decision ?inp = sn_fields d" by (simp_all add: advance_input_of_def current)
  have env: "step_env_ok (rn_sha rt) ?inp" using committing_env [OF com hash now cap _ v rows(2)] inv by (simp add: runtime_inv_def)
  have gid: "sd_graphId (stateRecordOf (av_state adv) (sl_now c)) = graph_of rt"
    using advance_graph [OF adv] run_of_inv [OF recorded_run_of [OF st(2)] wf] inp(1) by (simp add: stateRecordOf_def run_inv_def)
  have "run' = run" using rows(4) cur by (simp add: writeRunIdOf_def)
  then have "graph_states rt db = [(run, stateRecordOf (av_state adv) (sl_now c))]"
    using replace_state_one [of "stateRecordOf (av_state adv) (sl_now c)" "lg_states during" run rec] one
    unfolding rows(5) graph_states_def gid by simp
  moreover have "graph_events rt db = graph_events rt during @ [?ev]" using rows(1) g by (simp add: graph_events_def accepted_event_of_def)
  moreover have "readCurrentRunId db (graph_of rt) = readCurrentRunId during (graph_of rt)" using current_run_cong [OF rows(3)] .
  ultimately have "advanced_rows rt during db st ?inp adv ?ev"
    unfolding advanced_rows_def using st env inp adv one cur g att read(2) current by (auto simp: accepted_event_of_def)
  then show ?thesis by blast
qed

lemma settle_rows:
  assumes "wf_plan (rn_plan rt)" and "hex_hash (rn_sha rt)" and "0 \<le> sl_now c" and "sl_identity c = readCurrentHostIdentity capability"
    and s: "settleSubmission rt c before during = (answer, db')" and inv: "runtime_inv rt during"
  shows "apart rt during db' \<or> (\<exists>st inp adv ev. advanced_rows rt during db' st inp adv ev)"
  using s
proof (rule settleSubmission_cases)
  fix state identity ctx validation d verdict db
  assume com: "committing rt c before during state identity ctx validation d verdict db"
    and ans: "(answer, db') = settled_answer rt d verdict state (if sn_kind d = AcceptedKind then planned_advance rt ctx during (sn_fields d) else None) db"
  from ans have "db' = db \<or> (\<exists>d r p x. accepted_answer_of rt d r state p x db = (answer, db'))"
    by (auto simp: settled_answer_def Let_def split: commit_verdict.splits if_splits)
  with accepted_answer_fields(2) launch_same have same: "same_rows db db'" by (metis same_rows_refl)
  note same = same_rows_graph [OF same]
  have "apart rt during db \<or> (\<exists>st inp adv ev. advanced_rows rt during db st inp adv ev)"
  proof (cases "\<exists>r. verdict = Committed r")
    case False
    then show ?thesis using committing_other [OF com] by (simp add: apart_def)
  next
    case True
    then obtain r where r: "verdict = Committed r" ..
    show ?thesis
    proof (cases "sn_kind d")
      case RejectedKind
      have db: "db = during\<lparr>lg_receipts := lg_receipts during @ [r]\<rparr>" by (rule committed_rejected [OF com [unfolded r] RejectedKind])
      have "readCurrentRunId db (graph_of rt) = readCurrentRunId during (graph_of rt)" by (rule current_run_cong) (simp add: db)
      then show ?thesis by (simp add: apart_def db graph_states_def graph_events_def)
    next
      case AcceptedKind
      then show ?thesis using accepted_ledger_rows [OF assms(1-4) inv com [unfolded r]] by blast
    qed
  qed
  then show ?thesis unfolding apart_def advanced_rows_def same .
qed (simp_all add: apart_def)

lemma advanced_inv:
  assumes wf: "wf_plan (rn_plan rt)" and rows: "advanced_rows rt db db' st inp adv ev" and "results_ok db'"
  shows "runtime_inv rt db'"
proof -
  from rows have r: "recorded_run (rn_sha rt) (rn_plan rt) (in_state inp)" "agrees (graph_events rt db) (in_state inp)"
      "step_env_ok (rn_sha rt) inp" "in_plan inp = rn_plan rt" "advanceOutcomeGraph (rn_sha rt) inp = Inr adv"
      "ev_attemptId ev = dc_attemptId (in_decision inp)" "ev_outcomeId ev = dc_outcomeId (in_decision inp)"
      "graph_events rt db' = graph_events rt db @ [ev]"
    by (auto simp: advanced_rows_def)
  have inv: "run_inv (in_plan inp) (in_state inp)" using run_of_inv [OF recorded_run_of [OF r(1)] wf] r(4) by simp
  have "recorded_run (rn_sha rt) (rn_plan rt) (av_state adv)" using recorded_run.advanced [OF r(1,4,3,5)] .
  moreover have "agrees (graph_events rt db') (av_state adv)"
    using advance_agrees [OF _ inv r(5,2,6,7)] wf r(4,8) by simp
  moreover obtain run now where "graph_states rt db' = [(run, stateRecordOf (av_state adv) now)]" "readCurrentRunId db' (graph_of rt) = Some run"
    using rows by (auto simp: advanced_rows_def)
  ultimately show ?thesis using assms(3) by (auto simp: runtime_inv_def recorded_row_def)
qed

lemma settle_inv:
  assumes "wf_plan (rn_plan rt)" and "hex_hash (rn_sha rt)" and "0 \<le> sl_now c" and "sl_identity c = readCurrentHostIdentity capability"
    and s: "settleSubmission rt c before during = (answer, db')" and inv: "runtime_inv rt during"
  shows "runtime_inv rt db'"
proof -
  have "results_ok db'" using store_steps_results_ok [OF settlement_steps [OF s]] inv by (simp add: runtime_inv_def)
  with settle_rows [OF assms] advanced_inv [OF assms(1)] apart_inv inv show ?thesis by blast
qed

subsection \<open>Along a history\<close>

lemma runtime_step_inv:
  assumes "wf_plan (rn_plan rt)" and "hex_hash (rn_sha rt)" and "runtime_step rt db db'" and "runtime_inv rt db"
  shows "runtime_inv rt db'"
  using assms(3)
proof (cases rule: runtime_step.cases)
  case (other)
  then show ?thesis using apart_inv assms(4) ledger_step_results_ok by (auto simp: runtime_inv_def)
qed (use assms start_inv settle_inv in blast)+

lemma runtime_history_inv:
  assumes "wf_plan (rn_plan rt)" and "hex_hash (rn_sha rt)" and "(runtime_step rt)\<^sup>*\<^sup>* db db'" and "runtime_inv rt db"
  shows "runtime_inv rt db'"
  using assms(3,4) by (induction rule: rtranclp_induct) (auto intro: runtime_step_inv [OF assms(1,2)])

lemma runtime_inv_empty: "runtime_inv rt empty_ledger"
  by (simp add: runtime_inv_def results_ok_def graph_states_def graph_events_def empty_ledger_def)

lemma runtime_history_reach:
  assumes "wf_plan (rn_plan rt)" and "hex_hash (rn_sha rt)" and "(runtime_step rt)\<^sup>*\<^sup>* empty_ledger db"
  shows "runtime_inv rt db"
  using runtime_history_inv [OF assms runtime_inv_empty] .

text \<open>The state a read answers is the recorded one.\<close>

lemma runtime_state_row:
  assumes wf: "wf_plan (rn_plan rt)" and inv: "runtime_inv rt db" and st: "runtime_state rt db = Inr (Some st)"
  shows "recorded_run (rn_sha rt) (rn_plan rt) st" and "agrees (graph_events rt db) st"
    and "\<exists>run t. graph_states rt db = [(run, stateRecordOf st t)]"
proof -
  from st obtain run rec where read: "readGraphState db (graph_of rt) = Some (run, rec)" "read_plan_state rt rec = Inr st"
    by (auto simp: runtime_state_def result_simps split: option.splits)
  from readGraphState_graph [OF inv] read(1) inv obtain st' t where row: "graph_states rt db = [(run, rec)]" "rec = stateRecordOf st' t"
      "recorded_run (rn_sha rt) (rn_plan rt) st'" "agrees (graph_events rt db) st'"
    by (auto simp: runtime_inv_def recorded_row_def split: list.splits)
  have "st = st'" by (rule recorded_row_read [OF wf row(2,3) read(2)])
  with row show "recorded_run (rn_sha rt) (rn_plan rt) st" "agrees (graph_events rt db) st"
    "\<exists>run t. graph_states rt db = [(run, stateRecordOf st t)]" by auto
qed

text \<open>An attempt that was armed is held: it is in flight, or its acceptance is in the ledger.\<close>

definition in_flight :: "runtime \<Rightarrow> graph_state \<Rightarrow> string \<Rightarrow> bool" where
  "in_flight rt st a \<longleftrightarrow> recorded_run (rn_sha rt) (rn_plan rt) st \<and> (\<exists>e \<in> set (gs_nodes st). ns_status e = Dispatched \<and> ns_attemptId e = a)"

definition held :: "runtime \<Rightarrow> ledger \<Rightarrow> string \<Rightarrow> bool" where
  "held rt db a \<longleftrightarrow> (\<exists>ev \<in> set (graph_events rt db). ev_attemptId ev = a) \<or>
     (\<exists>run st t. graph_states rt db = [(run, stateRecordOf st t)] \<and> in_flight rt st a)"

lemma held_apart: "apart rt db db' \<Longrightarrow> held rt db a \<Longrightarrow> held rt db' a"
  by (simp add: held_def apart_def)

lemma held_advanced:
  assumes wf: "wf_plan (rn_plan rt)" and rows: "advanced_rows rt db db' st inp adv ev" and h: "held rt db a"
  shows "held rt db' a"
proof (cases "\<exists>ev \<in> set (graph_events rt db'). ev_attemptId ev = a")
  case False
  from rows obtain run t now where r: "recorded_run (rn_sha rt) (rn_plan rt) (in_state inp)" "step_env_ok (rn_sha rt) inp" "in_state inp = st"
      "in_plan inp = rn_plan rt" "advanceOutcomeGraph (rn_sha rt) inp = Inr adv" "ev_attemptId ev = dc_attemptId (in_decision inp)"
      "graph_events rt db' = graph_events rt db @ [ev]" "graph_states rt db = [(run, stateRecordOf st t)]"
      "read_plan_state rt (stateRecordOf st t) = Inr st" "graph_states rt db' = [(run, stateRecordOf (av_state adv) now)]"
    by (auto simp: advanced_rows_def)
  from False h r(7) obtain run' st' t' where s: "graph_states rt db = [(run', stateRecordOf st' t')]" "in_flight rt st' a"
    by (auto simp: held_def)
  have "stateRecordOf st t = stateRecordOf st' t'" using s(1) r(8) by simp
  then have "st = st'" using recorded_row_read [OF wf _ _ r(9)] s(2) by (simp add: in_flight_def)
  with s(2) obtain i where i: "i < length (gs_nodes st)" "ns_status (gs_nodes st ! i) = Dispatched" "ns_attemptId (gs_nodes st ! i) = a"
    by (auto simp: in_flight_def in_set_conv_nth)
  have "a \<noteq> dc_attemptId (in_decision inp)" using False r(6,7) by auto
  then obtain as where e: "gs_nodes (av_state adv) ! i = with_arrivals as (gs_nodes st ! i)"
    using advance_in_flight [OF _ r(5), of i] wf_plan_distinct [OF wf] i r(3,4) by auto
  have "length (gs_nodes (av_state adv)) = length (gs_nodes st)"
    by (rule advance_entries [OF _ r(5)]) (use wf_plan_distinct [OF wf] r(3,4) in simp_all)
  then have "gs_nodes (av_state adv) ! i \<in> set (gs_nodes (av_state adv))" using i(1) by simp
  moreover have "recorded_run (rn_sha rt) (rn_plan rt) (av_state adv)" using recorded_run.advanced [OF r(1,4,2,5)] .
  ultimately have "in_flight rt (av_state adv) a" using i(2,3) unfolding in_flight_def e by (auto intro!: bexI [of _ "with_arrivals as (gs_nodes st ! i)"])
  then show ?thesis using r(10) by (auto simp: held_def)
qed (simp add: held_def)

lemma runtime_step_held:
  assumes wf: "wf_plan (rn_plan rt)" "hex_hash (rn_sha rt)" and step: "runtime_step rt db db'" and inv: "runtime_inv rt db" and h: "held rt db a"
  shows "held rt db' a"
  using step
proof (cases rule: runtime_step.cases)
  case (start now capability answer)
  from start(1) show ?thesis
  proof (rule startGraph_cases)
    assume "runtime_state rt db = Inr None"
    then have "readGraphState db (graph_of rt) = None" by (auto simp: runtime_state_def result_simps split: option.splits prod.splits)
    then have "graph_states rt db = []" "graph_events rt db = []" using readGraphState_graph [OF inv] inv by (auto simp: runtime_inv_def)
    then show ?thesis using h by (simp add: held_def)
  qed (use h in simp)
next
  case (settle c before answer capability)
  with settle_rows [OF wf _ _ _ inv] held_apart held_advanced [OF wf(1)] h show ?thesis by blast
next
  case other
  with held_apart h show ?thesis by blast
qed

lemma runtime_history_held:
  assumes "wf_plan (rn_plan rt)" "hex_hash (rn_sha rt)" and "(runtime_step rt)\<^sup>*\<^sup>* db db'" and "runtime_inv rt db" and "held rt db a"
  shows "held rt db' a"
  using assms(3) assms(4,5)
proof (induction rule: rtranclp_induct)
  case (step y z)
  then show ?case using runtime_step_held [OF assms(1,2)] runtime_history_inv [OF assms(1,2)] by blast
qed

end
