(* ===== verification/RuntimeCertain.thy ===== *)
theory RuntimeCertain
  imports RuntimeAgreement
begin

text \<open>
  Refusals a history cannot reach: a settlement that was resolved against an earlier state of the run finds, inside
  its transaction, either its own acceptance or its attempt in flight.
\<close>

subsection \<open>What an advance refuses\<close>

lemma rbind_eq_Inl [result_simps]: "rbind r f = Inl e \<longleftrightarrow> r = Inl e \<or> (\<exists>x. r = Inr x \<and> f x = Inl e)"
  by (cases r) auto

lemma ensure_eq_Inl [result_simps]: "ensure ok e = Inl e' \<longleftrightarrow> \<not> ok \<and> e' = e"
  by (auto simp: ensure_def)

lemma apply_decisions_refusal: "apply_decisions ctx ds s \<noteq> Inl (AdvanceRefused code detail)"
  by (induction ctx ds s rule: apply_decisions.induct) (auto simp: result_simps dispatch_candidate_def Let_def split: sum.splits)

lemma measure_refusal: "measure_loop plan recorded dec pjs now gs m = Inl (AdvanceRefused code detail) \<Longrightarrow> code = ProgressUnbound"
proof (induction gs arbitrary: m)
  case (Cons g gs)
  then show ?case
    by (auto simp: result_simps measure_group_def Let_def split: option.splits if_splits prod.splits)
qed simp

lemma route_refusal:
  "route_outcome ctx inp recorded s = Inl (AdvanceRefused code detail) \<Longrightarrow> code \<in> {NoRoute, ReentryOutsideLoop, ProgressUnbound}"
  by (auto simp: route_outcome_def route_candidates_def measureProgress_def Let_def result_simps apply_decisions_refusal
      split: if_splits prod.splits option.splits dest: measure_refusal)

lemma advance_refusal:
  assumes "advanceOutcomeGraph sha inp = Inl (AdvanceRefused code detail)"
  shows "code \<noteq> StateLedgerDisagreement"
    and "(\<exists>pe. locate_attempt (in_plan inp) (in_state inp) (in_decision inp) = Inr pe) \<Longrightarrow> code \<notin> {UnknownNode, NodeNotDispatched, AttemptMismatch}"
proof -
  have "code \<in> {AdvanceUnsupportedStateVersion, GraphStopped, NoRoute, ReentryOutsideLoop, ProgressUnbound} \<or>
      locate_attempt (in_plan inp) (in_state inp) (in_decision inp) = Inl (AdvanceRefused code detail)"
    using assms
    by (auto simp: advanceOutcomeGraph_def Let_def result_simps split: if_splits option.splits prod.splits dest!: route_refusal)
  then show "code \<noteq> StateLedgerDisagreement"
    "(\<exists>pe. locate_attempt (in_plan inp) (in_state inp) (in_decision inp) = Inr pe) \<Longrightarrow> code \<notin> {UnknownNode, NodeNotDispatched, AttemptMismatch}"
    by (auto simp: locate_attempt_def Let_def split: option.splits if_splits)
qed

subsection \<open>The entry of the decided node\<close>

lemma takeWhile_index:
  assumes "distinct (map f xs)" and "k < length xs"
  shows "length (takeWhile (\<lambda>x. f x \<noteq> f (xs ! k)) xs) = k"
  using assms
proof (induction xs arbitrary: k)
  case (Cons x xs)
  show ?case
  proof (cases k)
    case (Suc j)
    then have "f x \<noteq> f (xs ! j)" using Cons.prems by auto
    then show ?thesis using Cons.IH [of j] Cons.prems Suc by simp
  qed simp
qed simp

lemma node_entry_of:
  assumes ids: "map ns_nodeId (gs_nodes st) = node_ids plan" and dist: "distinct (node_ids plan)" and e: "e \<in> set (gs_nodes st)"
  shows "node_entry plan st (ns_nodeId e) = Some e"
    and "ns_status e = Dispatched \<Longrightarrow> ns_attemptId e = dc_attemptId d \<Longrightarrow> ns_nodeId e = dc_nodeId d \<Longrightarrow>
      \<exists>k. locate_attempt plan st d = Inr (k, e)"
proof -
  from e obtain k where k: "k < length (gs_nodes st)" "gs_nodes st ! k = e" by (auto simp: in_set_conv_nth)
  have len: "length (gs_nodes st) = length (cp_nodes plan)" by (metis ids length_map)
  have id: "cn_id (cp_nodes plan ! k) = ns_nodeId e" using ids k len by (metis nth_map)
  have "length (takeWhile (\<lambda>n. cn_id n \<noteq> ns_nodeId e) (cp_nodes plan)) = k"
    using takeWhile_index [OF dist, of k] k len unfolding id by simp
  then show "node_entry plan st (ns_nodeId e) = Some e" using k len by (simp add: node_entry_def Let_def)
  have "cn_id (cp_nodes plan ! j) \<noteq> cn_id (cp_nodes plan ! k)" if "j < k" for j
    using nth_eq_iff_index_eq [OF dist, of j k] that k(1) len by simp
  then have "findIndex (\<lambda>n. cn_id n = ns_nodeId e) (cp_nodes plan) = Some k"
    unfolding findIndex_Some id [symmetric] using k(1) len by simp
  then show "ns_status e = Dispatched \<Longrightarrow> ns_attemptId e = dc_attemptId d \<Longrightarrow> ns_nodeId e = dc_nodeId d \<Longrightarrow>
      \<exists>k. locate_attempt plan st d = Inr (k, e)"
    using k by (auto simp: locate_attempt_def)
qed

subsection \<open>The reduction in a history\<close>

lemma reduction_certain:
  assumes wf: "wf_plan (rn_plan rt)" and hash: "hex_hash (rn_sha rt)" and inv: "runtime_inv rt before"
    and steps: "(runtime_step rt)\<^sup>*\<^sup>* before during"
    and state: "runtime_state rt before = Inr (Some st)" and e: "e \<in> set (gs_nodes st)" "ns_status e \<noteq> Pending"
      "ns_nodeId e = dc_nodeId d" "ns_attemptId e = dc_attemptId d"
    and refused: "reduceInTransaction rt ctx during d = Inl (JoinFailure (JoinAdvance (AdvanceRefused code detail)))"
  shows "code \<noteq> StateLedgerDisagreement"
    and "selectAcceptedEvent during (graph_of rt) (dc_attemptId d) = None \<Longrightarrow> code \<notin> {UnknownNode, NodeNotDispatched, AttemptMismatch}"
proof -
  let ?a = "dc_attemptId d"
  note row = runtime_state_row [OF wf inv state]
  have ids: "ns_attemptId x = attempt_id (ns_nodeId x) (ns_attemptSeq x)"
    if "recorded_run (rn_sha rt) (rn_plan rt) s" "x \<in> set (gs_nodes s)" "ns_status x \<noteq> Pending" for s x
    using run_of_inv [OF recorded_run_of [OF that(1)] wf] that(2,3) by (auto simp: run_inv_def attempts_ok_def)
  have "held rt before ?a"
  proof (cases "ns_status e = Settled")
    case True
    with row(2) e(1,4) show ?thesis by (force simp: agrees_def held_def)
  next
    case False
    then have "ns_status e = Dispatched" using e(2) by (cases "ns_status e") simp_all
    then have "in_flight rt st ?a" using row(1) e(1,4) by (auto simp: in_flight_def)
    with row(3) show ?thesis by (auto simp: held_def)
  qed
  then have h: "held rt during ?a" by (rule runtime_history_held [OF wf hash steps inv])
  have inv': "runtime_inv rt during" by (rule runtime_history_inv [OF wf hash steps inv])
  have event: "(\<exists>ev \<in> set (graph_events rt during). ev_attemptId ev = ?a) \<longleftrightarrow> selectAcceptedEvent during (graph_of rt) ?a \<noteq> None"
    by (force simp: selectAcceptedEvent_None graph_events_def image_iff)
  have "graph_states rt during \<noteq> []" using h inv' by (auto simp: held_def runtime_inv_def)
  then obtain run rec where one: "graph_states rt during = [(run, rec)]" and "recorded_row rt during rec"
    using inv' by (auto simp: runtime_inv_def)
  then obtain cur t where rec: "rec = stateRecordOf cur t" "recorded_run (rn_sha rt) (rn_plan rt) cur" "agrees (graph_events rt during) cur"
    by (auto simp: recorded_row_def)
  have read: "readGraphState during (graph_of rt) = Some (run, rec)" using readGraphState_graph [OF inv'] one by simp
  from refused read obtain cur' where cur': "read_plan_state rt rec = Inr cur'"
    by (auto simp: reduceInTransaction_def split: sum.splits)
  have cur: "cur' = cur" by (rule recorded_row_read [OF wf rec(1,2) cur'])
  have cids: "map ns_nodeId (gs_nodes cur) = node_ids (rn_plan rt)"
    using run_of_inv [OF recorded_run_of [OF rec(2)] wf] by (simp add: run_inv_def)
  note entry = node_entry_of [OF cids wf_plan_distinct [OF wf]]
  have own: "\<exists>x \<in> set (gs_nodes cur). ns_status x = Dispatched \<and> ns_attemptId x = ?a \<and> ns_nodeId x = dc_nodeId d"
    if none: "selectAcceptedEvent during (graph_of rt) ?a = None"
  proof -
    from h none event obtain st' t' where f: "rec = stateRecordOf st' t'" "in_flight rt st' ?a" using one by (auto simp: held_def)
    have "cur = st'" using recorded_row_read [OF wf f(1) _ cur'] f(2) cur by (simp add: in_flight_def)
    with f(2) obtain x where x: "x \<in> set (gs_nodes cur)" "ns_status x = Dispatched" "ns_attemptId x = ?a" by (auto simp: in_flight_def)
    have "attempt_id (ns_nodeId x) (ns_attemptSeq x) = attempt_id (ns_nodeId e) (ns_attemptSeq e)"
      using ids [OF rec(2) x(1)] ids [OF row(1) e(1,2)] x(2,3) e(4) by simp
    then show ?thesis using x e(3) by (auto simp: attempt_id_inj)
  qed
  have declared: "node_entry (rn_plan rt) cur (dc_nodeId d) \<noteq> None"
  proof -
    have "dc_nodeId d \<in> ns_nodeId ` set (gs_nodes st)" using e(1,3) by (metis imageI)
    also have "\<dots> = ns_nodeId ` set (gs_nodes cur)"
      using run_of_inv [OF recorded_run_of [OF row(1)] wf] cids by (metis list.set_map run_inv_parts)
    finally obtain x where "x \<in> set (gs_nodes cur)" "ns_nodeId x = dc_nodeId d" by auto
    with entry(1) show ?thesis by force
  qed
  let ?inp = "advance_input_of rt ctx cur d during"
  have inp: "in_plan ?inp = rn_plan rt" "in_state ?inp = cur" "in_decision ?inp = d" by (simp_all add: advance_input_of_def)
  have adv: "advanceOutcomeGraph (rn_sha rt) ?inp = Inl (AdvanceRefused code detail) \<or>
      (code = StateLedgerDisagreement \<and> selectAcceptedEvent during (graph_of rt) ?a = None \<and>
       (\<exists>x. node_entry (rn_plan rt) cur (dc_nodeId d) = Some x \<and> ns_status x = Settled))"
    using refused read cur' declared cur event
    by (auto simp: reduceInTransaction_def list_ex_iff acceptedEvents_def graph_events_def split: option.splits sum.splits if_splits)
  show "code \<noteq> StateLedgerDisagreement"
  proof
    assume c: "code = StateLedgerDisagreement"
    with adv advance_refusal(1) obtain x where "selectAcceptedEvent during (graph_of rt) ?a = None"
        "node_entry (rn_plan rt) cur (dc_nodeId d) = Some x" "ns_status x = Settled" by blast
    with own entry(1) show False by fastforce
  qed
  show "code \<notin> {UnknownNode, NodeNotDispatched, AttemptMismatch}" if none: "selectAcceptedEvent during (graph_of rt) ?a = None"
  proof -
    from own [OF none] obtain x where x: "x \<in> set (gs_nodes cur)" "ns_status x = Dispatched" "ns_attemptId x = ?a" "ns_nodeId x = dc_nodeId d" by blast
    have "\<exists>pe. locate_attempt (in_plan ?inp) (in_state ?inp) (in_decision ?inp) = Inr pe" using entry(2) [OF x(1,2,3,4)] unfolding inp by blast
    with adv advance_refusal(2) show ?thesis by blast
  qed
qed

end
