(* ===== verification/LedgerExamples.thy ===== *)
theory LedgerExamples
  imports LedgerHistory "HOL-Library.Code_Target_Nat"
begin

text \<open>
  One graph in the ledger: a minted run, the dispatch of an attempt, its accepted batch and the commands that race it.
\<close>

definition ex_lnum :: "rat \<Rightarrow> string" where
  "ex_lnum q = ''0''"

definition ex_run :: run_identity where
  "ex_run = \<lparr>rid_graphId = ''g'', rid_runId = ''r1'', rid_startedAt = 1, rid_planRevision = ''p''\<rparr>"

definition ex_dispatch :: effect_record where
  "ex_dispatch = \<lparr>ef_graphId = ''g'', ef_runId = None, ef_effectId = ''d1'', ef_attemptId = ''n#1'', ef_kind = ''dispatch'',
     ef_payload = JNull, ef_createdAt = 2, ef_status = EffectPending\<rparr>"

definition ex_accepted :: acceptance_batch where
  "ex_accepted = \<lparr>bt_receipt = \<lparr>rcp_graphId = ''g'', rcp_attemptId = ''n#1'', rcp_submissionId = ''s'', rcp_planRevision = ''p'',
       rcp_proposalDigest = ''x'', rcp_decision = AcceptedKind, rcp_committedAt = 3\<rparr>,
     bt_acceptedEvent = Some \<lparr>ev_graphId = ''g'', ev_attemptId = ''n#1'', ev_submissionId = ''s'', ev_planRevision = ''p'',
       ev_outcomeId = ''ok'', ev_acceptedAt = 3\<rparr>,
     bt_acceptedResult = Some \<lparr>res_graphId = ''g'', res_attemptId = ''n#1'', res_planRevision = ''p'',
       res_payload = DataValue (JStr ''v''), res_artifacts = None, res_acceptedAt = 3\<rparr>,
     bt_effects = [\<lparr>ef_graphId = ''g'', ef_runId = None, ef_effectId = ''d2'', ef_attemptId = ''n#1'', ef_kind = ''route'',
       ef_payload = JNull, ef_createdAt = 3, ef_status = EffectPending\<rparr>]\<rparr>"

definition ex_stop :: control_decision where
  "ex_stop = \<lparr>kd_graphId = ''g'', kd_runId = ''r1'', kd_nodeId = ''n'', kd_attemptId = ''n#1'', kd_command = CancelCommand,
     kd_reason = ''stop'', kd_decidedAt = 4, kd_decidedBy = None, kd_successorAttemptId = None\<rparr>"

text \<open>The ledger with the run and the dispatch, and the ledger the batch leaves.\<close>

definition ex_open :: ledger where
  "ex_open = empty_ledger\<lparr>lg_runs := [\<lparr>rw_identity = ex_run, rw_runSeq = 1, rw_control = None\<rparr>],
     lg_effects := [ex_dispatch\<lparr>ef_runId := Some ''r1''\<rparr>]\<rparr>"

definition ex_settled :: ledger where
  "ex_settled = ex_open\<lparr>lg_receipts := [bt_receipt ex_accepted], lg_events := [the (bt_acceptedEvent ex_accepted)],
     lg_results := [the (bt_acceptedResult ex_accepted)],
     lg_effects := [ex_dispatch\<lparr>ef_runId := Some ''r1''\<rparr>, (bt_effects ex_accepted ! 0)\<lparr>ef_runId := Some ''r1''\<rparr>]\<rparr>"

lemma ex_minted: "mintRun ex_run empty_ledger =
   Inr (\<lparr>rw_identity = ex_run, rw_runSeq = 1, rw_control = None\<rparr>, empty_ledger\<lparr>lg_runs := [\<lparr>rw_identity = ex_run, rw_runSeq = 1, rw_control = None\<rparr>]\<rparr>)"
  by code_simp

lemma ex_dispatched: "writeEffect ex_dispatch (empty_ledger\<lparr>lg_runs := [\<lparr>rw_identity = ex_run, rw_runSeq = 1, rw_control = None\<rparr>]\<rparr>) = Inr ex_open"
  by code_simp

lemma ex_committed: "commitAccepted ex_lnum ex_accepted ex_open = Inr (Committed (bt_receipt ex_accepted), ex_settled)"
  by code_simp

lemma ex_stopped: "writeControlDecision ex_stop None ex_open = Inr (ControlRecorded ex_stop None, ex_open\<lparr>lg_decisions := [ex_stop]\<rparr>)"
  by code_simp

lemma ex_stop_late: "writeControlDecision ex_stop None ex_settled = Inr (ControlSettled ''n#1'' None, ex_settled)"
  by code_simp

lemma ex_accepted_shape: "assertBatchShape ex_accepted = Inr ()"
  by code_simp

lemma ex_open_history: "(ledger_step ex_lnum)\<^sup>*\<^sup>* empty_ledger ex_open"
  using ledger_step.mint [OF ex_minted, of ex_lnum] ledger_step.effect [OF ex_dispatched, of ex_lnum]
  by (meson rtranclp.rtrancl_into_rtrancl rtranclp.rtrancl_refl)

lemma ex_settled_history: "(ledger_step ex_lnum)\<^sup>*\<^sup>* ex_open ex_settled"
  using ledger_step.commit [OF ex_committed] by blast

end
