(* ===== verification/Examples.thy ===== *)
theory Examples
  imports PersistedRun AdvanceFacts
begin

text \<open>
  Concrete plans, environments and decisions at which the properties are evaluated: a draft/review
  loop with a cap and a progress policy, a stand-in for the platform hash that has the documented
  shape, a nonce source that names the attempt, and the first states of one run.
\<close>

definition ex_outcome :: "string \<Rightarrow> compiled_outcome" where
  "ex_outcome i = \<lparr>co_id = i, co_data = None, co_acceptance = []\<rparr>"

definition ex_node :: "string \<Rightarrow> string list \<Rightarrow> join_config option \<Rightarrow> compiled_input_ref list \<Rightarrow> compiled_node" where
  "ex_node i outcomes join inputs =
     \<lparr>cn_id = i, cn_agent = ''w'', cn_prompt = i, cn_outcomes = map ex_outcome outcomes,
      cn_completion = None, cn_contractRef = None, cn_join = join, cn_budget = JUndef,
      cn_inputs = (if inputs = [] then None else Some inputs), cn_tools = None, cn_toolPresentation = JUndef\<rparr>"

definition ex_edge :: "string \<Rightarrow> string \<Rightarrow> string \<Rightarrow> compiled_edge" where
  "ex_edge i j oc = \<lparr>ce_from = i, ce_to = j, ce_outcome = oc\<rparr>"

definition ex_plan_of ::
  "compiled_node list \<Rightarrow> compiled_edge list \<Rightarrow> compiled_loop_group list \<Rightarrow> compiled_plan" where
  "ex_plan_of nodes edges groups =
     \<lparr>cp_budget = JUndef, cp_graphId = ''g'', cp_nodes = nodes, cp_edges = edges, cp_loopGroups = groups,
      cp_contractSnapshots = JObj [], cp_contractIdentities = JObj [], cp_completionPolicySnapshots = JObj [],
      cp_completionPolicyIdentities = JObj [], cp_completionAuthorizations = JObj [],
      cp_terminalOutcomes = terminalOutcomesOf nodes edges, cp_executability = Executable,
      cp_planRevision = ''p''\<rparr>"

definition ex_policy :: compiled_progress_policy where
  "ex_policy = \<lparr>cpp_evaluator = ''e'', cpp_version = 1, cpp_subject = ''x'', cpp_maxUnchanged = 2\<rparr>"

definition ex_group :: compiled_loop_group where
  "ex_group = \<lparr>clg_id = ''l'', clg_nodes = [''d'', ''r''], clg_maxTraversals = 1,
     clg_continuationOutcome = ''v'', clg_exitOutcome = ''y'', clg_progress = Some ex_policy\<rparr>"

definition ex_plan :: compiled_plan where
  "ex_plan = ex_plan_of
     [ex_node ''d'' [''k''] None [],
      ex_node ''r'' [''y'', ''v''] None
        [\<lparr>cir_from = ''d'', cir_outcome = ''k'', cir_triggered = True\<rparr>]]
     [ex_edge ''d'' ''r'' ''k'', ex_edge ''r'' ''d'' ''v'']
     [ex_group]"

definition ex_sha :: hash_hex where
  "ex_sha s = replicate 64 (CHR ''a'')"

definition ex_mint :: credential_source where
  "ex_mint b = JStr (''n'' @ ab_attemptId b)"

definition ex_facts :: "string \<Rightarrow> accepted_result_reading" where
  "ex_facts a = (if a = ''d#1'' \<or> a = ''d#3'' then
       ResultFacts \<lparr>arf_outcomeId = ''k'', arf_payload = DataAbsent, arf_artifacts = []\<rparr> else ResultNone)"

definition ex_env :: start_env where
  "ex_env = \<lparr>se_sha = ex_sha, se_plan = ex_plan,
     se_reads = \<lparr>lr_acceptedEvents = (\<lambda>_. []), lr_readAcceptedResult = None\<rparr>,
     se_mint = ex_mint, se_stamp = 5, se_runId = ''u'', se_identity = None\<rparr>"

definition ex_start :: "start_error + run_start" where
  "ex_start = startRun ex_env None"

definition ex_decision :: "string \<Rightarrow> string \<Rightarrow> string \<Rightarrow> accepted_decision" where
  "ex_decision i a oc = \<lparr>dc_graphId = ''g'', dc_attemptId = a, dc_submissionId = ''s'', dc_planRevision = ''p'',
     dc_proposalDigest = ''p'', dc_nodeId = i, dc_outcomeId = oc\<rparr>"

definition ex_projection :: "string \<Rightarrow> string \<Rightarrow> progress_projection" where
  "ex_projection a token =
     \<lparr>pj_binding = \<lparr>vb_graphId = ''g'', vb_attemptId = a, vb_submissionId = ''s'', vb_planRevision = ''p'',
        vb_proposalDigest = ''p''\<rparr>,
      pj_loopGroupId = ''l'', pj_evaluator = ''e'', pj_version = 1, pj_subject = ''x'',
      pj_observation = Token token\<rparr>"

definition ex_input :: "compiled_plan \<Rightarrow> graph_state \<Rightarrow> accepted_decision \<Rightarrow> int \<Rightarrow> progress_projection list \<Rightarrow> advance_input" where
  "ex_input plan st d t pjs =
     \<lparr>in_plan = plan, in_state = st, in_decision = d, in_now = t, in_mintCredential = ex_mint,
      in_readAcceptedResult = Some ex_facts, in_progress = Some pjs, in_dispatchIdentity = None\<rparr>"

definition ex_progress :: "nat \<Rightarrow> string option \<Rightarrow> (string \<times> loop_progress) list" where
  "ex_progress k b =
     [(''l'', \<lparr>lp_loopGroupId = ''l'', lp_evaluator = ''e'', lp_version = 1, lp_subject = ''x'', lp_unchanged = k,
        lp_baseline = b\<rparr>)]"

definition ex_state :: "graph_phase \<Rightarrow> node_state list \<Rightarrow> (string \<times> nat) list \<Rightarrow> nat \<Rightarrow> outcome_stop option \<Rightarrow>
    (string \<times> loop_progress) list \<Rightarrow> graph_state" where
  "ex_state ph nodes laps seq stop lp =
     \<lparr>gs_bodyVersion = 10, gs_graphId = ''g'', gs_planRevision = ''p'', gs_phase = ph, gs_nodes = nodes,
      gs_loopTraversals = laps, gs_attemptSeq = seq, gs_stop = stop, gs_loopProgress = Some lp\<rparr>"

definition ex_digest :: string where
  "ex_digest = attemptCredentialDigest ex_sha []"

text \<open>The state a start of the loop plan records, and the states after one and two accepted decisions.\<close>

definition ex_state0 :: graph_state where
  "ex_state0 = ex_state Executing
     [DispatchedNode ''d'' ''d#1'' 1 ex_digest None 5 [] (Some []) None, PendingNode ''r'' [] None]
     [] 1 None (ex_progress 0 None)"

definition ex_bound :: "resolved_input list" where
  "ex_bound = [\<lparr>ri_from = ''d'', ri_outcome = ''k'', ri_attemptId = ''d#1'', ri_payload = DataAbsent, ri_artifacts = []\<rparr>]"

definition ex_arm1 :: arm_state where
  "ex_arm1 = \<lparr>as_nodes =
     [SettledNode ''d'' ''d#1'' 1 ex_digest None ''k'' 5 6 [] (Some []) None,
      DispatchedNode ''r'' ''r#2'' 2 ex_digest None 6 [] (Some ex_bound) None], as_attemptSeq = 2,
      as_dispatches = [\<lparr>di_nodeId = ''r'', di_attemptId = ''r#2'', di_agent = ''w'', di_prompt = ''r'',
        di_credential = ''nr#2'', di_inputs = ex_bound\<rparr>]\<rparr>"

definition ex_state1 :: graph_state where
  "ex_state1 = ex_state Executing
     [SettledNode ''d'' ''d#1'' 1 ex_digest None ''k'' 5 6 [] (Some []) None,
      DispatchedNode ''r'' ''r#2'' 2 ex_digest None 6
        [\<lparr>arr_from = ''d'', arr_outcome = ''k'', arr_attemptId = ''d#1''\<rparr>] (Some ex_bound) None]
     [] 2 None (ex_progress 0 None)"

definition ex_input0 :: advance_input where
  "ex_input0 = ex_input ex_plan ex_state0 (ex_decision ''d'' ''d#1'' ''k'') 6 []"

lemma ex_start_run: "case startRun ex_env None of Inl _ \<Rightarrow> False | Inr r \<Rightarrow> rs_state r = ex_state0"
  by code_simp

lemma ex_run0: "run_of ex_sha ex_plan ex_state0"
proof -
  from ex_start_run obtain r where "startRun ex_env None = Inr r" "rs_state r = ex_state0"
    by (auto split: sum.splits)
  then show ?thesis using run_of.started [of ex_env ex_plan ex_sha None r] by (simp add: ex_env_def)
qed

lemma ex_decide1:
  "decide_loop ex_plan [SettledNode ''d'' ''d#1'' 1 ex_digest None ''k'' 5 6 [] (Some []) None, PendingNode ''r'' [] None]
     ex_facts [(cp_nodes ex_plan ! 1, 1)] [(cp_nodes ex_plan ! 1, 1)] [] =
   [((cp_nodes ex_plan ! 1, 1), InputResolved ex_bound)]"
  by code_simp

lemma ex_input0_fields [simp]:
  "in_plan ex_input0 = ex_plan" "in_state ex_input0 = ex_state0" "in_decision ex_input0 = ex_decision ''d'' ''d#1'' ''k''"
  "in_now ex_input0 = 6" "in_mintCredential ex_input0 = ex_mint" "in_readAcceptedResult ex_input0 = Some ex_facts"
  "in_progress ex_input0 = Some []" "in_dispatchIdentity ex_input0 = None"
  by (simp_all add: ex_input0_def ex_input_def)

lemma ex_locate0: "locate_attempt ex_plan ex_state0 (ex_decision ''d'' ''d#1'' ''k'') =
     Inr (0, DispatchedNode ''d'' ''d#1'' 1 ex_digest None 5 [] (Some []) None)"
  by code_simp

lemma ex_apply0: "apply_decisions \<lparr>ac_sha = ex_sha, ac_graphId = ''g'', ac_planRevision = ''p'', ac_now = 6, ac_mint = ex_mint, ac_identity = None\<rparr>
      [((cp_nodes ex_plan ! 1, 1), InputResolved ex_bound)]
       \<lparr>as_nodes = [SettledNode ''d'' ''d#1'' 1 ex_digest None ''k'' 5 6 [] (Some []) None, PendingNode ''r'' [] None],
         as_attemptSeq = 1, as_dispatches = []\<rparr> = Inr ex_arm1"
  by code_simp

lemma ex_candidates: "candidates_of ex_plan [''r''] = [(cp_nodes ex_plan ! 1, 1)]"
   by code_simp

lemma ex_conclude0: "conclude ex_plan ex_state0 6 
   \<lparr>rt_arm = ex_arm1, rt_loopTraversals = [], rt_loopProgress = ex_progress 0 None, rt_stop = None, rt_reports = []\<rparr> =
   \<lparr>av_state = ex_state1, av_dispatches = as_dispatches ex_arm1, av_progress = []\<rparr>"
  by code_simp

lemma ex_route0: "route_candidates
      \<lparr>ac_sha = ex_sha, ac_graphId = ''g'', ac_planRevision = ''p'', ac_now = 6, ac_mint = ex_mint, ac_identity = None\<rparr>
      ex_plan (ex_decision ''d'' ''d#1'' ''k'') ex_facts [ex_edge ''d'' ''r'' ''k'']
       \<lparr>as_nodes = [SettledNode ''d'' ''d#1'' 1 ex_digest None ''k'' 5 6 [] (Some []) None, PendingNode ''r'' [] None],
         as_attemptSeq = 1, as_dispatches = []\<rparr> = Inr ex_arm1"
proof -
  have "js_set (map ce_to [ex_edge ''d'' ''r'' ''k'']) = [''r'']" by code_simp
  moreover have "list_ex (\<lambda>n. cn_id n = ''r'') (cp_nodes ex_plan)" by code_simp
  ultimately show ?thesis
    by (simp add: route_candidates_def ex_candidates armable_of_def ex_decide1 ex_apply0 ensure_def Let_def
          del: One_nat_def apply_decisions.simps)
qed

lemma ex_advance0: "advanceOutcomeGraph ex_sha ex_input0 =
   Inr \<lparr>av_state = ex_state1, av_dispatches = as_dispatches ex_arm1, av_progress = []\<rparr>"
proof -
  have d: "dc_nodeId (ex_decision ''d'' ''d#1'' ''k'') = ''d''" "dc_outcomeId (ex_decision ''d'' ''d#1'' ''k'') = ''k''"
    by (simp_all add: ex_decision_def)
  have t: "\<not> is_terminal_outcome ex_plan ''d'' ''k''" by code_simp
  have e: "filter (\<lambda>e. ce_from e = ''d'' \<and> ce_outcome e = ''k'') (cp_edges ex_plan) = [ex_edge ''d'' ''r'' ''k'']"
    by code_simp
  have g: "continuationGroups ex_plan ''d'' ''k'' = []" by code_simp
  have p: "cp_graphId ex_plan = ''g''" "cp_planRevision ex_plan = ''p''" by (simp_all add: ex_plan_def ex_plan_of_def)
  have st: "gs_bodyVersion ex_state0 = 10" "gs_loopProgress ex_state0 = Some (ex_progress 0 None)" "gs_stop ex_state0 = None"
    "gs_loopTraversals ex_state0 = []" "gs_attemptSeq ex_state0 = 1"
    "gs_nodes ex_state0 = [DispatchedNode ''d'' ''d#1'' 1 ex_digest None 5 [] (Some []) None, PendingNode ''r'' [] None]"
    by (simp_all add: ex_state0_def ex_state_def)
  have v: "10 \<in> set ADVANCEABLE_STATE_BODY_VERSIONS" by code_simp
  have m: "measureProgress ex_plan [] (ex_progress 0 None) d ps t = Inr \<lparr>me_entries = ex_progress 0 None, me_reports = [], me_stop = None\<rparr>" for d ps t
    by (simp add: measureProgress_def)
  show ?thesis
    by (simp add: advanceOutcomeGraph_def route_outcome_def v st ex_locate0 d t e g p m settle_entry_def ex_route0 ex_conclude0
          del: One_nat_def)
qed

lemma ex_run1: "run_of ex_sha ex_plan ex_state1"
  using run_of.advanced [of ex_sha ex_plan ex_input0] ex_run0 ex_advance0 by simp

lemma ex_wf: "wf_plan ex_plan"
  by code_simp

lemma ex_sha_hex: "hex_hash ex_sha"
  by (simp add: hex_hash_def ex_sha_def ATTEMPT_CREDENTIAL_DIGEST_HEX_def is_lower_hex_def list_all_iff)

lemma ex_start_env: "start_env_ok ex_env"
proof -
  have "reads_ok (acceptedResultReaderOf ''g'' (se_reads ex_env) None)"
    by (simp add: reads_ok_def acceptedResultReaderOf_def durable_result_reading_def ex_env_def)
  with ex_sha_hex show ?thesis
    by (simp add: start_env_ok_def ex_env_def ok_epoch_def max_safe_def ex_plan_def ex_plan_of_def)
qed

lemma ex_step_env: "step_env_ok ex_sha ex_input0"
proof -
  have "reads_ok (accepted_reader ex_input0)" by (simp add: reads_ok_def accepted_reader_def ex_facts_def)
  with ex_sha_hex show ?thesis by (simp add: step_env_ok_def ok_epoch_def max_safe_def)
qed

lemma ex_recorded0: "recorded_run ex_sha ex_plan ex_state0"
proof -
  from ex_start_run obtain r where "startRun ex_env None = Inr r" "rs_state r = ex_state0"
    by (auto split: sum.splits)
  then show ?thesis using recorded_run.started [of ex_env ex_plan ex_sha None r] ex_start_env by (simp add: ex_env_def)
qed

lemma ex_recorded1: "recorded_run ex_sha ex_plan ex_state1"
  using recorded_run.advanced [of ex_sha ex_plan ex_input0] ex_recorded0 ex_step_env ex_advance0 by simp

lemma ex_run_inv0: "run_inv ex_plan ex_state0"
  by (rule run_of_inv [OF ex_run0 ex_wf])

subsection \<open>A run that strands a node\<close>

definition ex_dead_plan :: compiled_plan where
  "ex_dead_plan = ex_plan_of [ex_node ''a'' [''k'', ''x''] None [], ex_node ''b'' [''y''] None []] [ex_edge ''a'' ''b'' ''k''] []"

definition ex_dead0 :: graph_state where
  "ex_dead0 = ex_state Executing
     [DispatchedNode ''a'' ''a#1'' 1 ex_digest None 5 [] (Some []) None, PendingNode ''b'' [] None] [] 1 None []"

definition ex_dead1 :: graph_state where
  "ex_dead1 = ex_state Stopped
     [SettledNode ''a'' ''a#1'' 1 ex_digest None ''x'' 5 6 [] (Some []) None, PendingNode ''b'' [] None] [] 1
     (Some (StopUnreachable \<lparr>up_blockedNodes = [(''b'', [''a''])], up_stoppedAt = 6\<rparr>)) []"

definition ex_dead_input :: advance_input where
  "ex_dead_input = ex_input ex_dead_plan ex_dead0 (ex_decision ''a'' ''a#1'' ''x'') 6 []"

lemma ex_dead_wf: "wf_plan ex_dead_plan"
  by code_simp

lemma ex_dead_start: "case startRun (ex_env\<lparr>se_plan := ex_dead_plan\<rparr>) None of Inl _ \<Rightarrow> False | Inr r \<Rightarrow> rs_state r = ex_dead0"
  by code_simp

lemma ex_dead_run0: "run_of ex_sha ex_dead_plan ex_dead0"
proof -
  from ex_dead_start obtain r where "startRun (ex_env\<lparr>se_plan := ex_dead_plan\<rparr>) None = Inr r" "rs_state r = ex_dead0"
    by (auto split: sum.splits)
  then show ?thesis using run_of.started [of "ex_env\<lparr>se_plan := ex_dead_plan\<rparr>" ex_dead_plan ex_sha None r] by (simp add: ex_env_def)
qed

lemma ex_dead_advance: "advanceOutcomeGraph ex_sha ex_dead_input = Inr \<lparr>av_state = ex_dead1, av_dispatches = [], av_progress = []\<rparr>"
proof -
  have l: "locate_attempt ex_dead_plan ex_dead0 (ex_decision ''a'' ''a#1'' ''x'') =
     Inr (0, DispatchedNode ''a'' ''a#1'' 1 ex_digest None 5 [] (Some []) None)" by code_simp
  have t: "is_terminal_outcome ex_dead_plan ''a'' ''x''" by code_simp
  have v: "10 \<in> set ADVANCEABLE_STATE_BODY_VERSIONS" by code_simp
  have c: "conclude ex_dead_plan ex_dead0 6 \<lparr>rt_arm = \<lparr>as_nodes = [SettledNode ''a'' ''a#1'' 1 ex_digest None ''x'' 5 6 [] (Some []) None,
      PendingNode ''b'' [] None], as_attemptSeq = 1, as_dispatches = []\<rparr>, rt_loopTraversals = [], rt_loopProgress = [],
      rt_stop = None, rt_reports = []\<rparr> = \<lparr>av_state = ex_dead1, av_dispatches = [], av_progress = []\<rparr>" by code_simp
  have d: "dc_nodeId (ex_decision ''a'' ''a#1'' ''x'') = ''a''" "dc_outcomeId (ex_decision ''a'' ''a#1'' ''x'') = ''x''"
    by (simp_all add: ex_decision_def)
  have st: "gs_bodyVersion ex_dead0 = 10" "gs_loopProgress ex_dead0 = Some []" "gs_stop ex_dead0 = None"
    "gs_loopTraversals ex_dead0 = []" "gs_attemptSeq ex_dead0 = 1"
    "gs_nodes ex_dead0 = [DispatchedNode ''a'' ''a#1'' 1 ex_digest None 5 [] (Some []) None, PendingNode ''b'' [] None]"
    by (simp_all add: ex_dead0_def ex_state_def)
  show ?thesis
    by (simp add: advanceOutcomeGraph_def ex_dead_input_def ex_input_def v st l t d c settle_entry_def del: One_nat_def)
qed

lemma ex_dead_run1: "run_of ex_sha ex_dead_plan ex_dead1"
  using run_of.advanced [of ex_sha ex_dead_plan ex_dead_input] ex_dead_run0 ex_dead_advance
  by (simp add: ex_dead_input_def ex_input_def)

subsection \<open>A continuation on its cap\<close>

definition ex_capped :: graph_state where
  "ex_capped = ex_state Executing
     [SettledNode ''d'' ''d#3'' 3 ex_digest None ''k'' 7 8 [] (Some []) None,
      DispatchedNode ''r'' ''r#4'' 4 ex_digest None 8
        [\<lparr>arr_from = ''d'', arr_outcome = ''k'', arr_attemptId = ''d#3''\<rparr>] (Some []) None]
     [(''l'', 1)] 4 None (ex_progress 0 (Some ''t''))"

definition ex_capped_input :: advance_input where
  "ex_capped_input = ex_input ex_plan ex_capped (ex_decision ''r'' ''r#4'' ''v'') 9 []"

definition ex_capped_arm :: arm_state where
  "ex_capped_arm = \<lparr>as_nodes = [SettledNode ''d'' ''d#3'' 3 ex_digest None ''k'' 7 8 [] (Some []) None,
      SettledNode ''r'' ''r#4'' 4 ex_digest None ''v'' 8 9
        [\<lparr>arr_from = ''d'', arr_outcome = ''k'', arr_attemptId = ''d#3''\<rparr>] (Some []) None],
      as_attemptSeq = 4, as_dispatches = []\<rparr>"

lemma ex_capped_advance: "\<exists>a. advanceOutcomeGraph ex_sha ex_capped_input = Inr a"
proof -
  have l: "locate_attempt ex_plan ex_capped (ex_decision ''r'' ''r#4'' ''v'') = Inr (1, gs_nodes ex_capped ! 1)" by code_simp
  have t: "\<not> is_terminal_outcome ex_plan ''r'' ''v''" by code_simp
  have e: "filter (\<lambda>e. ce_from e = ''r'' \<and> ce_outcome e = ''v'') (cp_edges ex_plan) = [ex_edge ''r'' ''d'' ''v'']"
    by code_simp
  have g: "continuationGroups ex_plan ''r'' ''v'' = [ex_group]" by code_simp
  have c: "count_traversals [ex_group] [(''l'', 1)] = ([(''l'', 1)], Some ex_group)"
    by (simp add: ex_group_def traversals_of_def)
  have v: "10 \<in> set ADVANCEABLE_STATE_BODY_VERSIONS" by code_simp
  have d: "dc_nodeId (ex_decision ''r'' ''r#4'' ''v'') = ''r''" "dc_outcomeId (ex_decision ''r'' ''r#4'' ''v'') = ''v''"
    by (simp_all add: ex_decision_def)
  have st: "gs_bodyVersion ex_capped = 10" "gs_loopProgress ex_capped = Some (ex_progress 0 (Some ''t''))" "gs_stop ex_capped = None"
    "gs_loopTraversals ex_capped = [(''l'', 1)]" by (simp_all add: ex_capped_def ex_state_def)
  show ?thesis
    by (simp add: advanceOutcomeGraph_def ex_capped_input_def ex_input_def route_outcome_def Let_def v st l t d e g c
          del: One_nat_def count_traversals.simps)
qed

subsection \<open>Two attempts in flight\<close>

definition ex_pair_plan :: compiled_plan where
  "ex_pair_plan = ex_plan_of [ex_node ''a'' [''k''] None [], ex_node ''b'' [''y''] None []] [] []"

definition ex_pair0 :: graph_state where
  "ex_pair0 = ex_state Executing
     [DispatchedNode ''a'' ''a#1'' 1 ex_digest None 5 [] (Some []) None,
      DispatchedNode ''b'' ''b#2'' 2 ex_digest None 5 [] (Some []) None] [] 2 None []"

definition ex_pair1 :: "node_state list" where
  "ex_pair1 = [SettledNode ''a'' ''a#1'' 1 ex_digest None ''k'' 5 6 [] (Some []) None,
      DispatchedNode ''b'' ''b#2'' 2 ex_digest None 5 [] (Some []) None]"

definition ex_pair_input :: advance_input where
  "ex_pair_input = ex_input ex_pair_plan ex_pair0 (ex_decision ''a'' ''a#1'' ''k'') 6 []"

lemma ex_pair_wf: "wf_plan ex_pair_plan"
  by code_simp

lemma ex_pair_advance: "advanceOutcomeGraph ex_sha ex_pair_input =
   Inr \<lparr>av_state = ex_state Executing ex_pair1 [] 2 None [], av_dispatches = [], av_progress = []\<rparr>"
proof -
  have l: "locate_attempt ex_pair_plan ex_pair0 (ex_decision ''a'' ''a#1'' ''k'') =
     Inr (0, DispatchedNode ''a'' ''a#1'' 1 ex_digest None 5 [] (Some []) None)" by code_simp
  have t: "is_terminal_outcome ex_pair_plan ''a'' ''k''" by code_simp
  have v: "10 \<in> set ADVANCEABLE_STATE_BODY_VERSIONS" by code_simp
  have c: "conclude ex_pair_plan ex_pair0 6 \<lparr>rt_arm = \<lparr>as_nodes = ex_pair1, as_attemptSeq = 2, as_dispatches = []\<rparr>,
      rt_loopTraversals = [], rt_loopProgress = [], rt_stop = None, rt_reports = []\<rparr> =
      \<lparr>av_state = ex_state Executing ex_pair1 [] 2 None [], av_dispatches = [], av_progress = []\<rparr>" by code_simp
  have d: "dc_nodeId (ex_decision ''a'' ''a#1'' ''k'') = ''a''" "dc_outcomeId (ex_decision ''a'' ''a#1'' ''k'') = ''k''"
    by (simp_all add: ex_decision_def)
  have st: "gs_bodyVersion ex_pair0 = 10" "gs_loopProgress ex_pair0 = Some []" "gs_stop ex_pair0 = None"
    "gs_loopTraversals ex_pair0 = []" "gs_attemptSeq ex_pair0 = 2"
    "(gs_nodes ex_pair0)[0 := settle_entry (DispatchedNode ''a'' ''a#1'' 1 ex_digest None 5 [] (Some []) None) ''k'' 6] = ex_pair1"
    by (simp_all add: ex_pair0_def ex_state_def ex_pair1_def settle_entry_def)
  show ?thesis
    by (simp add: advanceOutcomeGraph_def ex_pair_input_def ex_input_def v st l t d c del: One_nat_def)
qed

subsection \<open>Re-entering a loop member outside the counted continuation\<close>

definition ex_leak_plan :: compiled_plan where
  "ex_leak_plan = ex_plan_of
     [ex_node ''a'' [''k''] (Some JoinAny) [], ex_node ''b'' [''q'', ''v'', ''y''] None [], ex_node ''s'' [''g''] None []]
     [ex_edge ''a'' ''b'' ''k'', ex_edge ''b'' ''a'' ''q'', ex_edge ''b'' ''a'' ''v'', ex_edge ''s'' ''a'' ''g'']
     [\<lparr>clg_id = ''l'', clg_nodes = [''a'', ''b''], clg_maxTraversals = 1, clg_continuationOutcome = ''v'',
       clg_exitOutcome = ''y'', clg_progress = None\<rparr>]"

definition ex_leak_settled :: "node_state list" where
  "ex_leak_settled =
     [SettledNode ''a'' ''a#2'' 2 ex_digest None ''k'' 5 6 [] (Some []) None,
      SettledNode ''b'' ''b#3'' 3 ex_digest None ''q'' 6 9 [] (Some []) None,
      SettledNode ''s'' ''s#1'' 1 ex_digest None ''g'' 4 5 [] (Some []) None]"

definition ex_leak0 :: graph_state where
  "ex_leak0 = ex_state Executing
     (ex_leak_settled[1 := DispatchedNode ''b'' ''b#3'' 3 ex_digest None 6 [] (Some []) None]) [(''l'', 1)] 3 None []"

definition ex_leak_input :: advance_input where
  "ex_leak_input = ex_input ex_leak_plan ex_leak0 (ex_decision ''b'' ''b#3'' ''q'') 9 []"

lemma ex_leak_wf: "wf_plan ex_leak_plan"
  by code_simp

lemma ex_leak_decide:
  "decide_loop ex_leak_plan ex_leak_settled ex_facts [(cp_nodes ex_leak_plan ! 0, 0)] [(cp_nodes ex_leak_plan ! 0, 0)] [] =
     [((cp_nodes ex_leak_plan ! 0, 0), InputResolved [])]"
  by code_simp

lemma ex_leak_route: "\<exists>arm. route_candidates
      \<lparr>ac_sha = ex_sha, ac_graphId = ''g'', ac_planRevision = ''p'', ac_now = 9, ac_mint = ex_mint, ac_identity = None\<rparr>
      ex_leak_plan (ex_decision ''b'' ''b#3'' ''q'') ex_facts [ex_edge ''b'' ''a'' ''q'']
       \<lparr>as_nodes = ex_leak_settled, as_attemptSeq = 3, as_dispatches = []\<rparr> = Inr arm \<and> di_nodeId (hd (as_dispatches arm)) = ''a''"
proof -
  have t: "js_set (map ce_to [ex_edge ''b'' ''a'' ''q'']) = [''a'']" by code_simp
  have c: "candidates_of ex_leak_plan [''a''] = [(cp_nodes ex_leak_plan ! 0, 0)]" by code_simp
  have a: "armable_of ex_leak_settled [(cp_nodes ex_leak_plan ! 0, 0)] = [(cp_nodes ex_leak_plan ! 0, 0)]" by code_simp
  have n: "list_ex (\<lambda>n. cn_id n = ''a'') (cp_nodes ex_leak_plan)" by code_simp
  have g: "sharedLoopGroup ex_leak_plan ''b'' (cn_id (cp_nodes ex_leak_plan ! 0)) \<noteq> None" by code_simp
  have d: "dc_nodeId (ex_decision ''b'' ''b#3'' ''q'') = ''b''" by (simp add: ex_decision_def)
  have p: "case apply_decisions \<lparr>ac_sha = ex_sha, ac_graphId = ''g'', ac_planRevision = ''p'', ac_now = 9, ac_mint = ex_mint, ac_identity = None\<rparr>
      [((cp_nodes ex_leak_plan ! 0, 0), InputResolved [])] \<lparr>as_nodes = ex_leak_settled, as_attemptSeq = 3, as_dispatches = []\<rparr> of
      Inl _ \<Rightarrow> False | Inr arm \<Rightarrow> di_nodeId (hd (as_dispatches arm)) = ''a''" by code_simp
  then show ?thesis
    unfolding route_candidates_def Let_def t c
    using g by (auto simp: a n d ex_leak_decide ensure_def simp del: apply_decisions.simps split: sum.splits)
qed

lemma ex_leak_advance: "\<exists>a. advanceOutcomeGraph ex_sha ex_leak_input = Inr a \<and> di_nodeId (hd (av_dispatches a)) = ''a''"
proof -
  have l: "locate_attempt ex_leak_plan ex_leak0 (ex_decision ''b'' ''b#3'' ''q'') =
      Inr (1, DispatchedNode ''b'' ''b#3'' 3 ex_digest None 6 [] (Some []) None)" by code_simp
  have t: "\<not> is_terminal_outcome ex_leak_plan ''b'' ''q''" by code_simp
  have e: "filter (\<lambda>e. ce_from e = ''b'' \<and> ce_outcome e = ''q'') (cp_edges ex_leak_plan) = [ex_edge ''b'' ''a'' ''q'']"
    by code_simp
  have g: "continuationGroups ex_leak_plan ''b'' ''q'' = []" by code_simp
  have v: "10 \<in> set ADVANCEABLE_STATE_BODY_VERSIONS" by code_simp
  have d: "dc_nodeId (ex_decision ''b'' ''b#3'' ''q'') = ''b''" "dc_outcomeId (ex_decision ''b'' ''b#3'' ''q'') = ''q''"
    by (simp_all add: ex_decision_def)
  have p: "cp_graphId ex_leak_plan = ''g''" "cp_planRevision ex_leak_plan = ''p''" by (simp_all add: ex_leak_plan_def ex_plan_of_def)
  have m: "measureProgress ex_leak_plan [] [] d ps t = Inr \<lparr>me_entries = [], me_reports = [], me_stop = None\<rparr>" for d ps t
    by (simp add: measureProgress_def)
  have st: "gs_bodyVersion ex_leak0 = 10" "gs_loopProgress ex_leak0 = Some []" "gs_stop ex_leak0 = None"
    "gs_loopTraversals ex_leak0 = [(''l'', 1)]" "gs_attemptSeq ex_leak0 = 3"
    "(gs_nodes ex_leak0)[1 := settle_entry (DispatchedNode ''b'' ''b#3'' 3 ex_digest None 6 [] (Some []) None) ''q'' 9] = ex_leak_settled"
    by (simp_all add: ex_leak0_def ex_state_def ex_leak_settled_def settle_entry_def)
  from ex_leak_route show ?thesis
    by (auto simp: advanceOutcomeGraph_def ex_leak_input_def ex_input_def route_outcome_def Let_def v st l t d e g p m
          simp del: One_nat_def)
qed

subsection \<open>A predecessor lost while another runs\<close>

definition ex_half_plan :: compiled_plan where
  "ex_half_plan = ex_plan_of
     [ex_node ''a'' [''k'', ''x''] None [], ex_node ''b'' [''k''] None [], ex_node ''c'' [''y''] (Some JoinAny) []]
     [ex_edge ''a'' ''c'' ''k'', ex_edge ''b'' ''c'' ''k''] []"

definition ex_half_nodes :: "node_state list" where
  "ex_half_nodes =
     [SettledNode ''a'' ''a#1'' 1 ex_digest None ''x'' 5 6 [] (Some []) None,
      DispatchedNode ''b'' ''b#2'' 2 ex_digest None 5 [] (Some []) None, PendingNode ''c'' [] None]"

lemma ex_half_wf: "wf_plan ex_half_plan"
  by code_simp

subsection \<open>A body of version 9\<close>

lemma ex_nine: "readable_state ex_pair_plan (ex_pair0\<lparr>gs_bodyVersion := 9\<rparr>)"
proof -
  have n: "list_all2 (ok_node ex_pair_plan) (cp_nodes ex_pair_plan) (gs_nodes ex_pair0)"
  proof -
    have "isAttemptCredentialDigest (JStr ex_digest)" by code_simp
    then show ?thesis
      by (simp add: ex_pair_plan_def ex_plan_of_def ex_node_def ex_pair0_def ex_state_def ok_node_def ok_arrivals_def ok_attempt_def
          ok_count_def ok_epoch_def max_safe_def)
  qed
  have v: "verifyArrivals ex_pair_plan (gs_nodes ex_pair0) = Inr ()" "verifyProgress ex_pair_plan [] None = Inr ()" by code_simp+
  have f: "gs_graphId ex_pair0 = cp_graphId ex_pair_plan" "gs_planRevision ex_pair0 = cp_planRevision ex_pair_plan"
    "gs_stop ex_pair0 = None" "gs_phase ex_pair0 = Executing" "gs_attemptSeq ex_pair0 = 2" "gs_loopTraversals ex_pair0 = []"
    "gs_loopProgress ex_pair0 = Some []" "cp_loopGroups ex_pair_plan = []"
    by (simp_all add: ex_pair0_def ex_state_def ex_pair_plan_def ex_plan_of_def)
  show ?thesis
    using n v by (simp add: readable_state_def ok_state_def layout_for_outcomeStateLayout outcomeStateLayout_def f ok_counters_def
        ok_progress_def max_safe_def)
qed

subsection \<open>A budget\<close>

definition ex_reserve :: "string \<Rightarrow> reserve_input" where
  "ex_reserve attempt = \<lparr>rv_maxExecutions = None, rv_graphId = ''g'', rv_runId = ''u'', rv_nodeId = ''n'',
     rv_attemptId = attempt, rv_effectId = ''e'', rv_limits = NO_BUDGET_LIMITS\<lparr>bl_costUsd := Some 5\<rparr>, rv_at = 3\<rparr>"

definition ex_budget :: budget_db where
  "ex_budget = \<lparr>bd_rows = [], bd_currentRun = [''g'' \<mapsto> ''u'']\<rparr>"

lemma ex_budget_history: "budget_step\<^sup>*\<^sup>* empty_budget_db ex_budget"
proof -
  have "ex_budget = empty_budget_db\<lparr>bd_currentRun := (bd_currentRun empty_budget_db)(''g'' \<mapsto> ''u'')\<rparr>"
    by (simp add: ex_budget_def empty_budget_db_def)
  then show ?thesis using budget_step.next_run by (metis r_into_rtranclp)
qed

lemma ex_may_claim: "may_claim (ex_reserve a) []"
  by (auto simp: may_claim_def ex_reserve_def NO_BUDGET_LIMITS_def committedOf_def node_rows_def run_rows_def
      used_sum_def reserved_sum_def elim!: limit_field.elims)

lemma ex_valid: "a \<noteq> [] \<Longrightarrow> bd_currentRun db ''g'' = Some ''u'' \<Longrightarrow> valid_reserve (ex_reserve a) db"
  by (auto simp: valid_reserve_def ex_reserve_def nonneg_limits_def NO_BUDGET_LIMITS_def max_safe_def elim!: limit_field.elims)

lemma ex_reserved_rows:
  "reserveDispatch (ex_reserve ''n#1'') ex_budget =
     Inr (ReserveReserved (new_claim (ex_reserve ''n#1'') []), ex_budget\<lparr>bd_rows := [new_claim (ex_reserve ''n#1'') []]\<rparr>)"
  unfolding reserveDispatch_Inr using ex_may_claim ex_valid
  by (simp add: ex_budget_def readReservationIn_def)

lemma ex_reserved: "\<exists>v db'. reserveDispatch (ex_reserve ''n#1'') ex_budget = Inr (ReserveReserved v, db')"
  using ex_reserved_rows by blast

lemma ex_reserved_second:
  "\<exists>v db' res db''. reserveDispatch (ex_reserve ''n#1'') ex_budget = Inr (ReserveReserved v, db') \<and>
     readReservationIn ''g'' ''n#2'' ''u'' (bd_rows db') = None \<and> reserveDispatch (ex_reserve ''n#2'') db' = Inr (res, db'')"
proof -
  let ?db = "ex_budget\<lparr>bd_rows := [new_claim (ex_reserve ''n#1'') []]\<rparr>"
  have r: "readReservationIn ''g'' ''n#2'' ''u'' (bd_rows ?db) = None"
    by (simp add: readReservationIn_def) (simp add: ex_reserve_def)
  have "valid_reserve (ex_reserve ''n#2'') ?db" by (rule ex_valid) (simp_all add: ex_budget_def)
  moreover have "\<not> may_claim (ex_reserve ''n#2'') (bd_rows ?db)"
    using reserve_excludes_second [OF ex_reserved_rows, of CostUsd 5 "ex_reserve ''n#2''"] by (simp add: ex_reserve_def)
  ultimately have "\<exists>res db''. reserveDispatch (ex_reserve ''n#2'') ?db = Inr (res, db'')"
    using r unfolding reserveDispatch_Inr by (auto simp: ex_reserve_def)
  with ex_reserved_rows r show ?thesis by blast
qed

lemma ex_refused:
  "\<exists>exs db'. reserveDispatch (ex_reserve ''n#1''\<lparr>rv_maxExecutions := Some 0\<rparr>) ex_budget = Inr (ReserveExhausted exs, db')"
proof -
  have "valid_reserve (ex_reserve ''n#1''\<lparr>rv_maxExecutions := Some 0\<rparr>) ex_budget"
    using ex_valid [of "''n#1''" ex_budget] by (simp add: valid_reserve_def ex_budget_def max_safe_def)
  moreover have "\<not> may_claim (ex_reserve ''n#1''\<lparr>rv_maxExecutions := Some 0\<rparr>) []" by (auto simp: may_claim_def)
  ultimately show ?thesis unfolding reserveDispatch_Inr by (auto simp: ex_budget_def readReservationIn_def)
qed

end
