(* ===== verification/CompletionPolicyFacts.thy ===== *)
theory CompletionPolicyFacts
  imports CompletionPolicy Codec
begin

text \<open>
  What the completion-policy module promises: the reader is a strict codec and keeps the content address
  of what it read, an installed registry has one proven declaration per identity, a decision follows the one
  rule of its mapping, and a load installs exactly what the host authorized and the catalog proves.
\<close>

subsection \<open>The reader\<close>

definition wf_rule :: "completion_rule \<Rightarrow> bool" where
  "wf_rule r \<longleftrightarrow> cm_graphId (cr_mapping r) \<noteq> [] \<and> cm_nodeId (cr_mapping r) \<noteq> [] \<and> cm_outcome (cr_mapping r) \<noteq> []"

definition wf_policy_body :: "completion_policy_body \<Rightarrow> bool" where
  "wf_policy_body b \<longleftrightarrow> list_all wf_rule (pb_rules b) \<and> distinct (map (\<lambda>r. mappingKey (cr_mapping r)) (pb_rules b))"

lemma read_decision_enc [simp]: "read_decision (enc_decision d) = Some d"
  by (cases d) (simp_all add: read_decision_def)

lemma read_fallback_enc [simp]: "read_fallback (enc_fallback d) = Some d"
  by (cases d) (simp_all add: read_fallback_def)

lemma read_decision_Some: "read_decision v = Some d \<longleftrightarrow> v = enc_decision d"
  by (cases d) (auto simp: read_decision_def split: if_splits)

lemma read_fallback_Some: "read_fallback v = Some d \<longleftrightarrow> v = enc_fallback d"
  by (cases d) (auto simp: read_fallback_def split: if_splits)

lemma has_all_keys_exact:
  assumes "has_all_keys (JObj ps) names" and "distinct names"
  shows "distinct (map fst ps)" and "set (map fst ps) = set names"
proof -
  have sub: "set names \<subseteq> set (map fst ps)" and len: "length (map fst ps) = length names"
    using assms(1) by (auto simp: has_all_keys_def list_all_iff)
  have "card (set (map fst ps)) \<le> card (set names)"
    using card_length [of "map fst ps"] len distinct_card [OF assms(2)] by simp
  then show eq: "set (map fst ps) = set names" using card_seteq [OF _ sub] by simp
  show "distinct (map fst ps)" using eq len distinct_card [OF assms(2)] by (simp add: card_distinct)
qed

lemma sort_key_exact:
  assumes "has_all_keys (JObj ps) names" and "distinct names"
  shows "sort_key fst ps = sort_key fst (map (\<lambda>k. (k, js_get (JObj ps) k)) names)" (is "?a = ?b")
proof (rule map_sorted_distinct_set_unique [where f = fst])
  note d = has_all_keys_exact [OF assms]
  have get: "(k, v) \<in> set ps \<Longrightarrow> js_get (JObj ps) k = v" for k v using d(1) by simp
  show eq: "set ?a = set ?b"
  proof (intro set_eqI iffI)
    fix p assume "p \<in> set ?a"
    then have "p \<in> set ps" by simp
    moreover from this have "fst p \<in> set names" using d(2) by force
    ultimately show "p \<in> set ?b" using get [of "fst p" "snd p"] by (force simp: image_iff)
  next
    fix p assume "p \<in> set ?b"
    then obtain k where k: "k \<in> set names" "p = (k, js_get (JObj ps) k)" by auto
    then obtain v where "(k, v) \<in> set ps" using d(2) by force
    with k(2) get show "p \<in> set ?a" by auto
  qed
  show "inj_on fst (set ?a \<union> set ?b)" unfolding eq Un_absorb by (rule inj_onI) auto
  show "distinct (map fst ?a)" using d(1) by (simp add: distinct_map inj_on_def)
  have "distinct (map (\<lambda>k. (k, js_get (JObj ps) k)) names)" using assms(2) by (simp add: distinct_map inj_on_def)
  moreover have "inj_on fst (set (map (\<lambda>k. (k, js_get (JObj ps) k)) names))" by (rule inj_onI) auto
  ultimately show "distinct (map fst ?b)" by (simp add: distinct_map)
qed simp_all

lemma read_rule_Some:
  "read_rule v = Some r \<longleftrightarrow> wf_rule r \<and> (\<exists>ps. v = JObj ps \<and> has_all_keys v [''graphId'', ''nodeId'', ''outcome'', ''decision''] \<and>
     js_get v ''graphId'' = JStr (cm_graphId (cr_mapping r)) \<and> js_get v ''nodeId'' = JStr (cm_nodeId (cr_mapping r)) \<and>
     js_get v ''outcome'' = JStr (cm_outcome (cr_mapping r)) \<and> js_get v ''decision'' = enc_decision (cr_decision r))"
  (is "_ \<longleftrightarrow> _ \<and> ?shape")
proof
  assume "read_rule v = Some r"
  then show "wf_rule r \<and> ?shape"
    by (cases v) (auto simp: read_rule_def wf_rule_def nonempty_string_Some read_decision_Some split: if_splits option.splits)
next
  assume "wf_rule r \<and> ?shape"
  then show "read_rule v = Some r" by (auto simp: read_rule_def wf_rule_def simp del: js_get.simps)
qed

lemma read_rule_enc: "wf_rule r \<Longrightarrow> read_rule (enc_rule r) = Some r"
  by (simp add: read_rule_Some enc_rule_def has_all_keys_def)

lemma read_rule_content:
  assumes "read_rule v = Some r"
  shows "sort_keys v = sort_keys (enc_rule r)"
proof -
  from assms obtain ps where v: "v = JObj ps" "has_all_keys v [''graphId'', ''nodeId'', ''outcome'', ''decision'']"
      "js_get v ''graphId'' = JStr (cm_graphId (cr_mapping r))" "js_get v ''nodeId'' = JStr (cm_nodeId (cr_mapping r))"
      "js_get v ''outcome'' = JStr (cm_outcome (cr_mapping r))" "js_get v ''decision'' = enc_decision (cr_decision r)"
    unfolding read_rule_Some by blast
  from sort_key_exact [OF v(2) [unfolded v(1)]] v(3-)
  show ?thesis by (simp add: v(1) enc_rule_def del: js_get.simps)
qed

lemma read_rules_Some:
  "read_rules seen vs = Some rs \<longleftrightarrow> list_all2 (\<lambda>v r. read_rule v = Some r) vs rs \<and>
     distinct (map (\<lambda>r. mappingKey (cr_mapping r)) rs) \<and> (\<forall>r \<in> set rs. mappingKey (cr_mapping r) \<notin> set seen)"
proof (induction vs arbitrary: seen rs)
  case (Cons v vs)
  show ?case
    by (cases rs) (auto simp: Cons.IH Let_def image_iff split: option.splits if_splits)
qed auto

lemma read_body_Some:
  "readCompletionPolicyBody v = Some b \<longleftrightarrow> (\<exists>ps rules. v = JObj ps \<and> has_all_keys v [''version'', ''default'', ''rules''] \<and>
     js_get v ''version'' = js_int COMPLETION_POLICY_VERSION \<and> js_get v ''default'' = enc_fallback (pb_default b) \<and>
     js_get v ''rules'' = JArr rules \<and> read_rules [] rules = Some (pb_rules b))" (is "_ \<longleftrightarrow> ?shape")
proof
  assume "readCompletionPolicyBody v = Some b"
  then show ?shape
    by (cases v; cases "js_get v ''rules''")
       (auto simp: readCompletionPolicyBody_def read_fallback_Some simp del: js_get.simps split: if_splits option.splits)
next
  assume ?shape
  then show "readCompletionPolicyBody v = Some b" by (auto simp: readCompletionPolicyBody_def simp del: js_get.simps)
qed

definition decode_policy_body :: "jsval \<Rightarrow> unit + completion_policy_body" where
  "decode_policy_body v = (case readCompletionPolicyBody v of None \<Rightarrow> Inl () | Some b \<Rightarrow> Inr b)"

lemma decode_policy_body_Inr: "decode_policy_body v = Inr b \<longleftrightarrow> readCompletionPolicyBody v = Some b"
  by (simp add: decode_policy_body_def split: option.split)

lemma read_rules_wf: "list_all2 (\<lambda>v r. read_rule v = Some r) vs rs \<Longrightarrow> list_all wf_rule rs"
  by (induction rule: list_all2_induct) (auto simp: read_rule_Some)

interpretation policy_codec: strict_codec enc_policy_body decode_policy_body wf_policy_body
proof
  fix b assume "wf_policy_body b"
  then have "read_rules [] (map enc_rule (pb_rules b)) = Some (pb_rules b)"
    by (auto simp: read_rules_Some wf_policy_body_def list_all_iff list_all2_conv_all_nth read_rule_enc)
  then show "decode_policy_body (enc_policy_body b) = Inr b"
    unfolding decode_policy_body_Inr read_body_Some
    by (simp add: enc_policy_body_def has_all_keys_def)
next
  fix v b assume "decode_policy_body v = Inr b"
  then show "wf_policy_body b"
    by (auto simp: decode_policy_body_Inr read_body_Some read_rules_Some wf_policy_body_def dest: read_rules_wf)
qed

text \<open>The reader keeps the content address: a body and what was read from it have one canonical text.\<close>

lemma read_body_content:
  assumes "readCompletionPolicyBody v = Some b"
  shows "sort_keys v = sort_keys (enc_policy_body b)"
proof -
  from assms obtain ps rules where v: "v = JObj ps" "has_all_keys v [''version'', ''default'', ''rules'']"
      "js_get v ''version'' = js_int COMPLETION_POLICY_VERSION" "js_get v ''default'' = enc_fallback (pb_default b)"
      "js_get v ''rules'' = JArr rules" "read_rules [] rules = Some (pb_rules b)"
    unfolding read_body_Some by blast
  have "list_all2 (\<lambda>v r. read_rule v = Some r) rules (pb_rules b)" using v(6) by (simp add: read_rules_Some)
  then have "map sort_keys rules = map (\<lambda>r. sort_keys (enc_rule r)) (pb_rules b)"
    by (induction rule: list_all2_induct) (auto simp: read_rule_content)
  with sort_key_exact [OF v(2) [unfolded v(1)]] v(3-5)
  show ?thesis by (simp add: v(1) enc_policy_body_def comp_def del: js_get.simps)
qed

lemma contractDigest_content:
  assumes "sort_keys v = sort_keys w"
  shows "contractDigest sha num v = Inr h \<longleftrightarrow> contractDigest sha num w = Inr h"
  using canonical_text_sort_keys [of num v] canonical_text_sort_keys [of num w]
    representable_sort_keys [of 0 v] representable_sort_keys [of 0 w] assms
  by (simp add: result_simps)

lemmas read_body_digest = contractDigest_content [OF read_body_content]

subsection \<open>The registry\<close>

definition proven_policy :: "(string \<Rightarrow> string) \<Rightarrow> (rat \<Rightarrow> string) \<Rightarrow> completion_policy_snapshot \<Rightarrow> bool" where
  "proven_policy sha num s \<longleftrightarrow> isContractRef (enc_ref (ps_ref s)) \<and> wf_policy_body (ps_body s) \<and>
     contractDigest sha num (enc_policy_body (ps_body s)) = Inr (cr_digest (ps_ref s))"

definition installed_policies :: "(string \<Rightarrow> string) \<Rightarrow> (rat \<Rightarrow> string) \<Rightarrow> completion_policy_registry \<Rightarrow> bool" where
  "installed_policies sha num registry \<longleftrightarrow> list_all (proven_policy sha num) registry \<and>
     distinct (map (\<lambda>s. (cr_id (ps_ref s), cr_revision (ps_ref s))) registry)"

lemma isCompletionPolicyRef_enc [simp]: "isCompletionPolicyRef (enc_ref r) = isContractRef (enc_ref r)"
  by (auto simp: isCompletionPolicyRef_def isContractRef_def enc_ref_def)

lemma install_policies_ok:
  assumes "install_policies sha num seen ps = Inr ss"
  shows "list_all (proven_policy sha num) ss \<and> distinct (map (\<lambda>s. (cr_id (ps_ref s), cr_revision (ps_ref s))) ss) \<and>
    (\<forall>s \<in> set ss. (cr_id (ps_ref s), cr_revision (ps_ref s)) \<notin> set seen) \<and>
    list_all2 (\<lambda>(ref, raw) s. ps_ref s = ref \<and> readCompletionPolicyBody raw = Some (ps_body s)) ps ss"
  using assms
proof (induction sha num seen ps arbitrary: ss rule: install_policies.induct)
  case (2 sha num seen ref raw rest)
  from "2.prems" obtain body where ok: "isContractRef (enc_ref ref)" "(cr_id ref, cr_revision ref) \<notin> set seen"
      "readCompletionPolicyBody raw = Some body" "contractDigest sha num raw = Inr (cr_digest ref)"
    and rest: "\<exists>ss'. install_policies sha num (seen @ [(cr_id ref, cr_revision ref)]) rest = Inr ss' \<and>
        ss = \<lparr>ps_ref = ref, ps_body = body\<rparr> # ss'"
    by (auto simp: result_simps simp del: isContractRef_enc split: if_splits option.splits sum.splits)
  from rest obtain ss' where r: "install_policies sha num (seen @ [(cr_id ref, cr_revision ref)]) rest = Inr ss'"
      "ss = \<lparr>ps_ref = ref, ps_body = body\<rparr> # ss'" by blast
  have "wf_policy_body body" using policy_codec.dec_ok [of raw body] ok(3) by (simp add: decode_policy_body_Inr)
  with ok "2.IH" [OF _ _ ok(3,4) _ r(1)] show ?case
    by (auto simp: r(2) proven_policy_def read_body_digest [OF ok(3)] image_iff simp del: isContractRef_enc)
qed simp

lemma createCompletionPolicyRegistry_ok:
  "createCompletionPolicyRegistry sha num ps = Inr ss \<Longrightarrow> installed_policies sha num ss"
  by (auto simp: createCompletionPolicyRegistry_def installed_policies_def dest: install_policies_ok)

interpretation policies: exact_registry "\<lambda>s. cr_id (ps_ref s)" "\<lambda>s. cr_revision (ps_ref s)" "installed_policies sha num" for sha num
  by unfold_locales (simp add: installed_policies_def)

lemma install_policies_id:
  assumes "list_all (proven_policy sha num) ss" and "distinct (map (\<lambda>s. (cr_id (ps_ref s), cr_revision (ps_ref s))) ss)"
    and "\<forall>s \<in> set ss. (cr_id (ps_ref s), cr_revision (ps_ref s)) \<notin> set seen"
  shows "install_policies sha num seen (map (\<lambda>s. (ps_ref s, enc_policy_body (ps_body s))) ss) = Inr ss"
  using assms
proof (induction ss arbitrary: seen)
  case (Cons s ss)
  have "readCompletionPolicyBody (enc_policy_body (ps_body s)) = Some (ps_body s)"
    using policy_codec.dec_enc [of "ps_body s"] Cons.prems(1) by (simp add: decode_policy_body_Inr proven_policy_def)
  moreover have "install_policies sha num (seen @ [(cr_id (ps_ref s), cr_revision (ps_ref s))])
      (map (\<lambda>s. (ps_ref s, enc_policy_body (ps_body s))) ss) = Inr ss"
    using Cons.prems by (intro Cons.IH) (auto simp: image_iff)
  ultimately show ?case
    using Cons.prems by (simp add: proven_policy_def del: isContractRef_enc)
qed simp

lemma createCompletionPolicyRegistry_id:
  "installed_policies sha num ss \<Longrightarrow>
     createCompletionPolicyRegistry sha num (map (\<lambda>s. (ps_ref s, enc_policy_body (ps_body s))) ss) = Inr ss"
  by (simp add: createCompletionPolicyRegistry_def installed_policies_def install_policies_id)

lemma resolveCompletionPolicy_iff:
  assumes "installed_policies sha num registry"
  shows "resolveCompletionPolicy (i, r) registry = PolicyResolved s \<longleftrightarrow>
    s \<in> set registry \<and> cr_id (ps_ref s) = i \<and> cr_revision (ps_ref s) = r"
  using policies.lookup_iff [OF assms, of r i s]
  by (auto simp: resolveCompletionPolicy_def Let_def forId_def filter_empty_conv split: option.splits)

subsection \<open>Decisions\<close>

lemma decide_rules_cases:
  "decide_rules d rules m =
     (case find (\<lambda>r. cr_mapping r = m) rules of
        None \<Rightarrow> if d = FallbackDeny then Denied None else Undecided
      | Some r \<Rightarrow> if cr_decision r = Allow then Allowed r else Denied (Some r))"
  by (induction rules) auto

lemma decideCompletion_allowed:
  "decideCompletion body m = Allowed r \<Longrightarrow> r \<in> set (pb_rules body) \<and> cr_mapping r = m \<and> cr_decision r = Allow"
  by (auto simp: decideCompletion_def decide_rules_cases split: option.splits if_splits dest!: find_Some_in)

subsection \<open>Loading\<close>

text \<open>
  What the host authorized for an identity, and what the catalog offers under it: the first entry with
  that id and revision. The module joins an id and a revision with NUL on the ground that no id contains
  it; \<open>nul_free\<close> states that ground.
\<close>

definition authorized_digests :: "jsval list \<Rightarrow> string \<Rightarrow> string \<Rightarrow> string set" where
  "authorized_digests authorized i r = {d. \<exists>v \<in> set authorized. isCompletionPolicyRef v \<and>
     js_get v ''id'' = JStr i \<and> js_get v ''revision'' = JStr r \<and> js_get v ''digest'' = JStr d}"

definition offers :: "string \<Rightarrow> string \<Rightarrow> jsval \<Rightarrow> bool" where
  "offers i r v \<longleftrightarrow> isRecord v \<and> js_get v ''id'' = JStr i \<and> js_get v ''revision'' = JStr r"

definition offered :: "jsval list \<Rightarrow> string \<Rightarrow> string \<Rightarrow> jsval option" where
  "offered catalog i r = map_option (\<lambda>v. js_get v ''body'') (find (offers i r) catalog)"

definition nul_free :: "jsval list \<Rightarrow> bool" where
  "nul_free vs \<longleftrightarrow> (\<forall>v \<in> set vs. \<forall>i. js_get v ''id'' = JStr i \<longrightarrow> nul \<notin> set i)"

lemma nul_free_simps [simp]:
  "nul_free []"
  "nul_free (v # vs) \<longleftrightarrow> (\<forall>i. js_get v ''id'' = JStr i \<longrightarrow> nul \<notin> set i) \<and> nul_free vs"
  by (auto simp: nul_free_def)

lemma splitIdentity_key: "nul \<notin> set i \<Longrightarrow> splitIdentity (identityKey i r) = Some (i, r)"
  by (auto simp: splitIdentity_def identityKey_def takeWhile_append dropWhile_append)

lemma splitIdentity_Some: "splitIdentity k = Some (i, r) \<Longrightarrow> identityKey i r = k"
proof -
  assume a: "splitIdentity k = Some (i, r)"
  then have n: "nul \<in> set k" and ir: "i = takeWhile (\<lambda>c. c \<noteq> nul) k" "r = tl (dropWhile (\<lambda>c. c \<noteq> nul) k)"
    by (auto simp: splitIdentity_def split: if_splits)
  from n have ne: "dropWhile (\<lambda>c. c \<noteq> nul) k \<noteq> []" by (auto simp: dropWhile_eq_Nil_conv)
  with hd_dropWhile [OF ne] have "dropWhile (\<lambda>c. c \<noteq> nul) k = nul # r" by (metis ir(2) list.collapse)
  then show ?thesis using takeWhile_dropWhile_id [of "\<lambda>c. c \<noteq> nul" k] by (simp add: identityKey_def ir(1))
qed

lemma identityKey_inj: "nul \<notin> set a \<Longrightarrow> nul \<notin> set c \<Longrightarrow> identityKey a b = identityKey c d \<longleftrightarrow> a = c \<and> b = d"
  by (metis option.inject prod.inject splitIdentity_key)

lemma find_append: "find P (xs @ ys) = (case find P xs of None \<Rightarrow> find P ys | Some x \<Rightarrow> Some x)"
  by (induction xs) auto

definition catalog_add :: "catalog_entry list \<Rightarrow> jsval \<Rightarrow> catalog_entry list" where
  "catalog_add acc v =
     (case (isRecord v, nonempty_string (js_get v ''id''), nonempty_string (js_get v ''revision'')) of
        (True, Some i, Some r) \<Rightarrow>
          if identityKey i r \<in> set (map entry_key acc) then acc
          else acc @ [\<lparr>ca_id = i, ca_revision = r, ca_body = js_get v ''body''\<rparr>]
      | _ \<Rightarrow> acc)"

lemma index_catalog_fold: "fst (index_catalog n acc vs) = foldl catalog_add acc vs"
proof (induction vs arbitrary: n acc)
  case (Cons v vs)
  show ?case
    using Cons.IH [of "Suc n"] by (auto simp: catalog_add_def [of acc v] Let_def case_prod_unfold split: option.splits bool.splits)
qed simp

definition plain_ids :: "catalog_entry list \<Rightarrow> bool" where
  "plain_ids es \<longleftrightarrow> (\<forall>e \<in> set es. nul \<notin> set (ca_id e))"

lemma catalog_add_plain: "plain_ids acc \<Longrightarrow> nul_free [v] \<Longrightarrow> plain_ids (catalog_add acc v)"
  by (auto simp: plain_ids_def catalog_add_def nonempty_string_Some split: bool.splits option.splits)

lemma catalog_add_find:
  assumes "nul_free [v]" and "nul \<notin> set i" "i \<noteq> []" "r \<noteq> []"
  shows "find (\<lambda>e. entry_key e = identityKey i r) (catalog_add acc v) =
    (case find (\<lambda>e. entry_key e = identityKey i r) acc of
       Some e \<Rightarrow> Some e
     | None \<Rightarrow> if offers i r v then Some \<lparr>ca_id = i, ca_revision = r, ca_body = js_get v ''body''\<rparr> else None)"
proof (cases "\<exists>a b. isRecord v \<and> js_get v ''id'' = JStr a \<and> a \<noteq> [] \<and> js_get v ''revision'' = JStr b \<and> b \<noteq> []")
  case True
  then obtain a b where ab: "isRecord v" "js_get v ''id'' = JStr a" "a \<noteq> []" "js_get v ''revision'' = JStr b" "b \<noteq> []" by blast
  have key: "identityKey a b = identityKey i r \<longleftrightarrow> i = a \<and> r = b" using identityKey_inj [of a i b r] assms(1,2) ab(2) by auto
  have off: "offers i r v \<longleftrightarrow> i = a \<and> r = b" using ab by (auto simp: offers_def)
  show ?thesis
  proof (cases "identityKey a b \<in> entry_key ` set acc")
    case dup: True
    then have "find (\<lambda>e. entry_key e = identityKey i r) acc \<noteq> None" if "i = a \<and> r = b"
      using that by (auto simp: find_None_all)
    with dup ab off show ?thesis by (auto simp: catalog_add_def split: option.splits)
  next
    case False
    then show ?thesis using ab off key by (auto simp: catalog_add_def find_append split: option.splits)
  qed
next
  case False
  then have "catalog_add acc v = acc" "\<not> offers i r v"
    using assms(3,4) by (auto simp: catalog_add_def offers_def nonempty_string_Some split: bool.splits option.splits)
  then show ?thesis by (simp split: option.split)
qed

lemma index_catalog_find:
  assumes "nul_free vs" and "nul \<notin> set i" "i \<noteq> []" "r \<noteq> []"
  shows "find (\<lambda>e. entry_key e = identityKey i r) (foldl catalog_add acc vs) =
    (case find (\<lambda>e. entry_key e = identityKey i r) acc of
       Some e \<Rightarrow> Some e
     | None \<Rightarrow> map_option (\<lambda>b. \<lparr>ca_id = i, ca_revision = r, ca_body = b\<rparr>) (offered vs i r))"
  using assms(1)
proof (induction vs arbitrary: acc)
  case (Cons v vs)
  then show ?case
    using catalog_add_find [of v i r acc] assms(2-) by (auto simp: offered_def split: option.splits)
qed (simp add: offered_def split: option.split)

subsubsection \<open>Authorizations\<close>

definition digest_set :: "(string \<times> string list) list \<Rightarrow> string \<Rightarrow> string set" where
  "digest_set ds k = (case map_of ds k of None \<Rightarrow> {} | Some xs \<Rightarrow> set xs)"

definition authorization_add :: "(string \<times> string list) list \<Rightarrow> jsval \<Rightarrow> (string \<times> string list) list" where
  "authorization_add ds v =
     (case (isRecord v, nonempty_string (js_get v ''id''), nonempty_string (js_get v ''revision''), nonempty_string (js_get v ''digest'')) of
        (True, Some i, Some r, Some d) \<Rightarrow>
          AList.update (identityKey i r) (set_add d (case map_of ds (identityKey i r) of None \<Rightarrow> [] | Some xs \<Rightarrow> xs)) ds
      | _ \<Rightarrow> ds)"

lemma group_authorizations_fold: "fst (group_authorizations n ds vs) = foldl authorization_add ds vs"
proof (induction vs arbitrary: n ds)
  case (Cons v vs)
  show ?case
    using Cons.IH [of "Suc n"]
    by (auto simp: authorization_add_def [of ds v] isCompletionPolicyRef_def Let_def case_prod_unfold split: option.splits bool.splits)
qed simp

definition authorization_ok :: "string \<times> string list \<Rightarrow> bool" where
  "authorization_ok p \<longleftrightarrow> distinct (snd p) \<and> snd p \<noteq> [] \<and> [] \<notin> set (snd p) \<and>
     (\<exists>i r. fst p = identityKey i r \<and> nul \<notin> set i \<and> i \<noteq> [] \<and> r \<noteq> [])"

definition wf_authorizations :: "(string \<times> string list) list \<Rightarrow> bool" where
  "wf_authorizations ds \<longleftrightarrow> distinct (map fst ds) \<and> list_all authorization_ok ds"

lemma list_all_update: "list_all P ds \<Longrightarrow> P (k, v) \<Longrightarrow> list_all P (AList.update k v ds)"
  by (induction ds) auto

lemma wf_authorizations_update:
  assumes "wf_authorizations ds" and "nul \<notin> set i" "i \<noteq> []" "r \<noteq> []" and "distinct xs" "xs \<noteq> []" "[] \<notin> set xs"
  shows "wf_authorizations (AList.update (identityKey i r) xs ds)"
proof -
  have "authorization_ok (identityKey i r, xs)" using assms(2-) by (auto simp: authorization_ok_def)
  with assms(1) show ?thesis by (simp add: wf_authorizations_def distinct_update list_all_update)
qed

lemma authorization_add_wf:
  assumes "wf_authorizations ds" and "nul_free [v]"
  shows "wf_authorizations (authorization_add ds v)"
proof -
  have known: "distinct xs \<and> [] \<notin> set xs" if "map_of ds k = Some xs" for k xs
    using map_of_SomeD [OF that] assms(1) by (force simp: wf_authorizations_def authorization_ok_def list_all_iff)
  show ?thesis
  proof (cases "authorization_add ds v = ds")
    case False
    then obtain i r d where v: "js_get v ''id'' = JStr i" "i \<noteq> []" "r \<noteq> []" "d \<noteq> []"
      and eq: "authorization_add ds v =
        AList.update (identityKey i r) (set_add d (case map_of ds (identityKey i r) of None \<Rightarrow> [] | Some xs \<Rightarrow> xs)) ds"
      by (auto simp: authorization_add_def nonempty_string_Some split: bool.splits option.splits)
    have "nul \<notin> set i" using assms(2) v(1) by simp
    then show ?thesis
      unfolding eq using v
      by (cases "map_of ds (identityKey i r)")
         (auto intro!: wf_authorizations_update [OF assms(1)] simp: set_add_def dest: known)
  qed (simp add: assms(1))
qed

lemma authorization_add_digests:
  assumes "nul_free [v]" and "nul \<notin> set i"
  shows "digest_set (authorization_add ds v) (identityKey i r) = digest_set ds (identityKey i r) \<union> authorized_digests [v] i r"
proof (cases "\<exists>a b d. isRecord v \<and> js_get v ''id'' = JStr a \<and> a \<noteq> [] \<and> js_get v ''revision'' = JStr b \<and> b \<noteq> [] \<and> js_get v ''digest'' = JStr d \<and> d \<noteq> []")
  case True
  then obtain a b d where v: "isRecord v" "js_get v ''id'' = JStr a" "a \<noteq> []" "js_get v ''revision'' = JStr b" "b \<noteq> []"
      "js_get v ''digest'' = JStr d" "d \<noteq> []" by blast
  have "identityKey i r = identityKey a b \<longleftrightarrow> a = i \<and> b = r" using identityKey_inj [of i a r b] assms v(2) by auto
  moreover have "authorized_digests [v] i r = (if a = i \<and> b = r then {d} else {})"
    using v by (auto simp: authorized_digests_def isCompletionPolicyRef_def)
  ultimately show ?thesis
    using v by (auto simp: digest_set_def authorization_add_def update_conv split: option.splits)
next
  case False
  then have "authorization_add ds v = ds" "authorized_digests [v] i r = {}"
    by (auto simp: authorization_add_def authorized_digests_def isCompletionPolicyRef_def nonempty_string_Some split: bool.splits option.splits)
  then show ?thesis by simp
qed

lemma group_authorizations_wf: "nul_free vs \<Longrightarrow> wf_authorizations ds \<Longrightarrow> wf_authorizations (foldl authorization_add ds vs)"
  by (induction vs arbitrary: ds) (simp_all add: authorization_add_wf)

lemma group_authorizations_digests:
  "nul_free vs \<Longrightarrow> nul \<notin> set i \<Longrightarrow>
     digest_set (foldl authorization_add ds vs) (identityKey i r) = digest_set ds (identityKey i r) \<union> authorized_digests vs i r"
proof (induction vs arbitrary: ds)
  case (Cons v vs)
  then show ?case
    using authorization_add_digests [of v i ds r] by (auto simp: authorized_digests_def)
qed (simp add: authorized_digests_def)

subsubsection \<open>Selection\<close>

definition selected :: "(string \<Rightarrow> string) \<Rightarrow> (rat \<Rightarrow> string) \<Rightarrow> catalog_entry list \<Rightarrow> string \<times> string list \<Rightarrow> completion_policy_snapshot \<Rightarrow> bool" where
  "selected sha num catalog p s \<longleftrightarrow> splitIdentity (fst p) = Some (cr_id (ps_ref s), cr_revision (ps_ref s)) \<and>
     sort (snd p) = [cr_digest (ps_ref s)] \<and>
     (\<exists>entry. find (\<lambda>e. entry_key e = fst p) catalog = Some entry \<and> readCompletionPolicyBody (ca_body entry) = Some (ps_body s) \<and>
        contractDigest sha num (enc_policy_body (ps_body s)) = Inr (cr_digest (ps_ref s)))"

definition addressable_entry :: "(string \<Rightarrow> string) \<Rightarrow> (rat \<Rightarrow> string) \<Rightarrow> catalog_entry \<Rightarrow> bool" where
  "addressable_entry sha num e \<longleftrightarrow>
     (\<forall>b. readCompletionPolicyBody (ca_body e) = Some b \<longrightarrow> (\<exists>h. contractDigest sha num (enc_policy_body b) = Inr h))"

lemma readCatalogPolicy_snapshot:
  "readCatalogPolicy sha num e ref = Inr (Inr s) \<longleftrightarrow> ps_ref s = ref \<and> readCompletionPolicyBody (ca_body e) = Some (ps_body s) \<and>
     contractDigest sha num (enc_policy_body (ps_body s)) = Inr (cr_digest ref)"
  by (cases s) (auto simp: readCatalogPolicy_def result_simps split: option.splits)

lemma select_step:
  assumes "select_authorized sha num catalog (p # ps) = Inr (ss, is)"
  shows "(\<exists>is'. select_authorized sha num catalog ps = Inr (ss, is') \<and> (\<nexists>s. selected sha num catalog p s)) \<or>
    (\<exists>s ss' is'. ss = s # ss' \<and> select_authorized sha num catalog ps = Inr (ss', is') \<and> (\<forall>t. selected sha num catalog p t \<longleftrightarrow> t = s))"
proof -
  obtain k ds where p: "p = (k, ds)" by fastforce
  show ?thesis
  proof (cases "\<exists>i r d entry. splitIdentity k = Some (i, r) \<and> sort ds = [d] \<and> find (\<lambda>e. entry_key e = k) catalog = Some entry")
    case False
    then have "\<nexists>s. selected sha num catalog p s" by (auto simp: p selected_def)
    with False assms show ?thesis
      by (auto simp: p result_simps Let_def split: option.splits list.splits)
  next
    case True
    then obtain i r d entry where e: "splitIdentity k = Some (i, r)" "sort ds = [d]" "find (\<lambda>e. entry_key e = k) catalog = Some entry" by blast
    let ?ref = "\<lparr>cr_id = i, cr_revision = r, cr_digest = d\<rparr>"
    have sel: "selected sha num catalog p t \<longleftrightarrow> readCatalogPolicy sha num entry ?ref = Inr (Inr t)" for t
      using e by (auto simp: p selected_def readCatalogPolicy_snapshot)
    from e assms obtain reading ss' is' where r: "readCatalogPolicy sha num entry ?ref = Inr reading"
        "select_authorized sha num catalog ps = Inr (ss', is')"
        "(ss, is) = (case reading of Inl issue \<Rightarrow> (ss', issue # is') | Inr s \<Rightarrow> (s # ss', is'))"
      by (auto simp: p result_simps Let_def)
    then show ?thesis by (cases reading) (auto simp: sel)
  qed
qed

lemma select_total:
  assumes "list_all (addressable_entry sha num) catalog"
  shows "\<exists>ss is. select_authorized sha num catalog ps = Inr (ss, is)"
proof (induction ps)
  case (Cons p ps)
  have "\<exists>reading. readCatalogPolicy sha num e ref = Inr reading" if "find (\<lambda>e. entry_key e = k) catalog = Some e" for e k ref
    using assms find_Some_in [OF that] by (fastforce simp: readCatalogPolicy_def addressable_entry_def list_all_iff split: option.split)
  note reads = this
  from Cons.IH obtain ss "is" where IH: "select_authorized sha num catalog ps = Inr (ss, is)" by blast
  obtain k ds where p: "p = (k, ds)" by fastforce
  show ?case
  proof (cases "find (\<lambda>e. entry_key e = k) catalog")
    case None
    then show ?thesis by (simp add: p IH Let_def split: option.split list.split)
  next
    case (Some e)
    obtain f where "readCatalogPolicy sha num e ref = Inr (f ref)" for ref using reads [OF Some] by metis
    with Some show ?thesis
      by (auto simp: p IH Let_def split: option.split list.split sum.split)
  qed
qed simp

lemma select_authorized_Inr:
  assumes "select_authorized sha num catalog ps = Inr (ss, is)"
  shows "set ss = {s. \<exists>p \<in> set ps. selected sha num catalog p s}" (is ?set)
    and "set (map (\<lambda>s. identityKey (cr_id (ps_ref s)) (cr_revision (ps_ref s))) ss) \<subseteq> fst ` set ps" (is ?keys)
    and "distinct (map fst ps) \<Longrightarrow> distinct (map (\<lambda>s. (cr_id (ps_ref s), cr_revision (ps_ref s))) ss)"
proof -
  let ?k = "\<lambda>s. identityKey (cr_id (ps_ref s)) (cr_revision (ps_ref s))"
  have "?set \<and> (distinct (map fst ps) \<longrightarrow> distinct (map ?k ss))"
    using assms
  proof (induction ps arbitrary: ss "is")
    case (Cons p ps)
    from select_step [OF Cons.prems] show ?case
    proof (elim disjE exE conjE)
      fix is' assume "select_authorized sha num catalog ps = Inr (ss, is')" "\<nexists>s. selected sha num catalog p s"
      with Cons.IH show ?thesis by auto
    next
      fix s ss' is' assume s: "ss = s # ss'" "select_authorized sha num catalog ps = Inr (ss', is')" "\<forall>t. selected sha num catalog p t \<longleftrightarrow> t = s"
      have key: "?k t = fst q" if "selected sha num catalog q t" for q t
        using that splitIdentity_Some by (auto simp: selected_def)
      have s': "?k s = fst p" using key s(3) by blast
      from Cons.IH [OF s(2)] have ss': "set ss' = {s. \<exists>p \<in> set ps. selected sha num catalog p s}" by blast
      have fresh: "fst p \<in> fst ` set ps" if "?k s \<in> ?k ` set ss'"
      proof -
        from that obtain t where t: "t \<in> set ss'" "?k s = ?k t" by (rule imageE)
        then obtain q where "q \<in> set ps" "selected sha num catalog q t" using ss' by blast
        with key [of q t] t(2) s' show ?thesis by (metis imageI)
      qed
      have "set ss = {t. \<exists>q \<in> set (p # ps). selected sha num catalog q t}"
        unfolding s(1) list.set(2) ss' using s(3) by blast
      moreover have "distinct (map fst (p # ps)) \<longrightarrow> distinct (map ?k ss)"
        unfolding s(1) list.map distinct.simps set_map using Cons.IH [OF s(2)] fresh by blast
      ultimately show ?thesis by (rule conjI)
    qed
  qed simp
  moreover from this have ?keys using splitIdentity_Some by (fastforce simp: selected_def)
  ultimately show ?set ?keys and "distinct (map fst ps) \<Longrightarrow> distinct (map (\<lambda>s. (cr_id (ps_ref s), cr_revision (ps_ref s))) ss)"
    by (auto simp: distinct_map inj_on_def)
qed

subsubsection \<open>The load\<close>

definition host_selects :: "(string \<Rightarrow> string) \<Rightarrow> (rat \<Rightarrow> string) \<Rightarrow> jsval list \<Rightarrow> jsval list \<Rightarrow> completion_policy_snapshot \<Rightarrow> bool" where
  "host_selects sha num catalog authorized s \<longleftrightarrow>
     authorized_digests authorized (cr_id (ps_ref s)) (cr_revision (ps_ref s)) = {cr_digest (ps_ref s)} \<and>
     (\<exists>raw. offered catalog (cr_id (ps_ref s)) (cr_revision (ps_ref s)) = Some raw \<and>
        readCompletionPolicyBody raw = Some (ps_body s) \<and> contractDigest sha num raw = Inr (cr_digest (ps_ref s)))"

lemma authorized_digests_nonempty:
  assumes "d \<in> authorized_digests authorized i r"
  shows "i \<noteq> []" "r \<noteq> []" "d \<noteq> []" "nul_free authorized \<Longrightarrow> nul \<notin> set i"
  using assms by (auto simp: authorized_digests_def isCompletionPolicyRef_def nul_free_def)

lemma distinct_singleton: "distinct xs \<Longrightarrow> set xs = {x} \<Longrightarrow> xs = [x]"
  by (metis distinct_card card.empty card_insert_disjoint empty_iff finite.emptyI length_Suc_conv length_0_conv list.set_intros(1) singletonD)

lemma find_offered:
  assumes "nul_free catalog" and "nul \<notin> set i" "i \<noteq> []" "r \<noteq> []"
  shows "find (\<lambda>e. entry_key e = identityKey i r) (foldl catalog_add [] catalog) =
    map_option (\<lambda>b. \<lparr>ca_id = i, ca_revision = r, ca_body = b\<rparr>) (offered catalog i r)"
  using index_catalog_find [OF assms, of "[]"] by simp

lemma selected_iff:
  assumes "nul_free catalog" and "nul_free authorized"
  shows "(\<exists>p \<in> set (foldl authorization_add [] authorized). selected sha num (foldl catalog_add [] catalog) p s) \<longleftrightarrow>
    host_selects sha num catalog authorized s"
proof -
  define D where "D = foldl authorization_add [] authorized"
  let ?i = "cr_id (ps_ref s)" and ?r = "cr_revision (ps_ref s)" and ?d = "cr_digest (ps_ref s)"
  have wf: "wf_authorizations D"
    unfolding D_def by (rule group_authorizations_wf [OF assms(2)]) (simp add: wf_authorizations_def)
  have digests: "digest_set D (identityKey i r) = authorized_digests authorized i r" if "nul \<notin> set i" for i r
    using group_authorizations_digests [OF assms(2) that, of "[]" r] by (simp add: D_def digest_set_def)
  show ?thesis
    unfolding D_def [symmetric]
  proof
    assume "\<exists>p \<in> set D. selected sha num (foldl catalog_add [] catalog) p s"
    then obtain k ds where p: "(k, ds) \<in> set D" "selected sha num (foldl catalog_add [] catalog) (k, ds) s" by (metis surj_pair)
    from p(1) wf have ok: "authorization_ok (k, ds)" and m: "map_of D k = Some ds"
      by (auto simp: wf_authorizations_def list_all_iff)
    then obtain i r where ir: "k = identityKey i r" "nul \<notin> set i" "i \<noteq> []" "r \<noteq> []" by (auto simp: authorization_ok_def)
    with p(2) have "i = ?i" "r = ?r" by (auto simp: selected_def splitIdentity_key)
    moreover have "sort ds = [?d]" using p(2) by (simp add: selected_def)
    then have "set ds = {?d}" using set_sort [of "\<lambda>x. x" ds] by simp
    then have "authorized_digests authorized i r = {?d}" using digests [OF ir(2), of r] m by (simp add: digest_set_def ir(1))
    moreover from p(2) find_offered [OF assms(1) ir(2-4)] obtain raw where
        "offered catalog i r = Some raw" and raw: "readCompletionPolicyBody raw = Some (ps_body s)"
        "contractDigest sha num (enc_policy_body (ps_body s)) = Inr ?d"
      by (auto simp: selected_def ir(1))
    ultimately show "host_selects sha num catalog authorized s"
      using raw(2) by (simp add: host_selects_def read_body_digest [OF raw(1)] raw(1))
  next
    assume h: "host_selects sha num catalog authorized s"
    then have "?d \<in> authorized_digests authorized ?i ?r" by (simp add: host_selects_def)
    note ne = authorized_digests_nonempty [OF this] authorized_digests_nonempty(4) [OF this assms(2)]
    have "digest_set D (identityKey ?i ?r) = {?d}" using digests [OF ne(5)] h by (simp add: host_selects_def)
    then obtain ds where ds: "map_of D (identityKey ?i ?r) = Some ds" "set ds = {?d}"
      by (auto simp: digest_set_def split: option.splits)
    then have p: "(identityKey ?i ?r, ds) \<in> set D" by (blast dest: map_of_SomeD)
    with wf have "distinct ds" by (auto simp: wf_authorizations_def authorization_ok_def list_all_iff)
    then have "ds = [?d]" using ds(2) distinct_singleton by fastforce
    moreover from h obtain raw where "offered catalog ?i ?r = Some raw" and raw: "readCompletionPolicyBody raw = Some (ps_body s)"
        "contractDigest sha num raw = Inr ?d" by (auto simp: host_selects_def)
    ultimately have "selected sha num (foldl catalog_add [] catalog) (identityKey ?i ?r, ds) s"
      using find_offered [OF assms(1) ne(5) ne(1,2)] raw(2)
      by (simp add: selected_def splitIdentity_key ne(5) raw(1) read_body_digest [OF raw(1)])
    with p show "\<exists>p \<in> set D. selected sha num (foldl catalog_add [] catalog) p s" by blast
  qed
qed

lemma host_selects_proven:
  assumes "host_selects sha num catalog authorized s"
  shows "proven_policy sha num s"
proof -
  from assms have "cr_digest (ps_ref s) \<in> authorized_digests authorized (cr_id (ps_ref s)) (cr_revision (ps_ref s))"
    by (simp add: host_selects_def)
  note ne = authorized_digests_nonempty [OF this]
  from assms obtain raw where raw: "readCompletionPolicyBody raw = Some (ps_body s)" "contractDigest sha num raw = Inr (cr_digest (ps_ref s))"
    by (auto simp: host_selects_def)
  then have "wf_policy_body (ps_body s)" using policy_codec.dec_ok [of raw "ps_body s"] by (simp add: decode_policy_body_Inr)
  with raw ne show ?thesis by (simp add: proven_policy_def read_body_digest [OF raw(1)])
qed

lemma load_unfold:
  "loadCompletionPolicies sha num catalog authorized =
     (case select_authorized sha num (foldl catalog_add [] catalog) (sort_key fst (foldl authorization_add [] authorized)) of
        Inl e \<Rightarrow> Inl (NotAddressable e)
      | Inr (ss, is) \<Rightarrow> rbind (createCompletionPolicyRegistry sha num (map (\<lambda>s. (ps_ref s, enc_policy_body (ps_body s))) ss))
          (\<lambda>registry. Inr (registry, snd (index_catalog 0 [] catalog) @ snd (group_authorizations 0 [] authorized) @ is @
             map (\<lambda>e. NotAuthorized (ca_id e) (ca_revision e))
               (filter (\<lambda>e. map_of (foldl authorization_add [] authorized) (entry_key e) = None) (foldl catalog_add [] catalog)))))"
  unfolding loadCompletionPolicies_def index_catalog_fold [where n = 0, symmetric] group_authorizations_fold [where n = 0, symmetric]
  by (simp add: case_prod_unfold Let_def)

lemma load_selected:
  assumes "nul_free catalog" and "nul_free authorized"
    and "select_authorized sha num (foldl catalog_add [] catalog) (sort_key fst (foldl authorization_add [] authorized)) = Inr (ss, is)"
  shows "set ss = {s. host_selects sha num catalog authorized s}" and "installed_policies sha num ss"
    and "\<exists>issues. loadCompletionPolicies sha num catalog authorized = Inr (ss, issues)"
proof -
  have "wf_authorizations (foldl authorization_add [] authorized)"
    by (rule group_authorizations_wf [OF assms(2)]) (simp add: wf_authorizations_def)
  then have "distinct (map fst (sort_key fst (foldl authorization_add [] authorized)))"
    by (simp add: wf_authorizations_def distinct_map inj_on_def)
  note sel = select_authorized_Inr [OF assms(3)] select_authorized_Inr(3) [OF assms(3) this]
  show set: "set ss = {s. host_selects sha num catalog authorized s}"
    unfolding sel(1) using selected_iff [OF assms(1,2), of sha num] by simp
  then show inst: "installed_policies sha num ss"
    using sel(4) host_selects_proven by (auto simp: installed_policies_def list_all_iff)
  show "\<exists>issues. loadCompletionPolicies sha num catalog authorized = Inr (ss, issues)"
    by (simp add: load_unfold assms(3) createCompletionPolicyRegistry_id [OF inst])
qed

lemma load_exact:
  assumes "nul_free catalog" and "nul_free authorized" and "loadCompletionPolicies sha num catalog authorized = Inr (registry, issues)"
  shows "set registry = {s. host_selects sha num catalog authorized s} \<and> installed_policies sha num registry"
proof -
  from assms(3) obtain ss "is" where s:
      "select_authorized sha num (foldl catalog_add [] catalog) (sort_key fst (foldl authorization_add [] authorized)) = Inr (ss, is)"
    by (auto simp: load_unfold split: sum.splits)
  from load_selected [OF assms(1,2) s] assms(3) show ?thesis by auto
qed

lemma catalog_body_origin:
  "e \<in> set (foldl catalog_add acc vs) \<Longrightarrow> e \<in> set acc \<or> (\<exists>v \<in> set vs. ca_body e = js_get v ''body'')"
proof (induction vs arbitrary: acc)
  case (Cons v vs)
  have "e \<in> set (catalog_add acc v) \<Longrightarrow> e \<in> set acc \<or> ca_body e = js_get v ''body''"
    by (auto simp: catalog_add_def split: option.splits bool.splits if_splits)
  with Cons.IH [of "catalog_add acc v"] Cons.prems show ?case by auto
qed simp

lemma load_total:
  assumes "nul_free catalog" and "nul_free authorized"
    and "\<And>v b. v \<in> set catalog \<Longrightarrow> readCompletionPolicyBody (js_get v ''body'') = Some b \<Longrightarrow> \<exists>h. contractDigest sha num (js_get v ''body'') = Inr h"
  shows "\<exists>registry issues. loadCompletionPolicies sha num catalog authorized = Inr (registry, issues)"
proof -
  have "addressable_entry sha num e" if e: "e \<in> set (foldl catalog_add [] catalog)" for e
  proof -
    from catalog_body_origin [OF e] obtain v where v: "v \<in> set catalog" "ca_body e = js_get v ''body''" by auto
    show ?thesis
      unfolding addressable_entry_def v(2) using assms(3) [OF v(1)] read_body_digest [of "js_get v ''body''" _ sha num] by metis
  qed
  then have "list_all (addressable_entry sha num) (foldl catalog_add [] catalog)" by (simp add: list_all_iff)
  from select_total [OF this] load_selected(3) [OF assms(1,2)] show ?thesis by blast
qed

text \<open>
  Without \<open>nul_free\<close> the load can throw: an id that begins with NUL is accepted by the readers, and the
  identity it is split back into has an empty id, which the registry refuses as malformed.
\<close>

definition nul_entry :: "jsval \<Rightarrow> jsval" where
  "nul_entry body = JObj [(''id'', JStr [nul]), (''revision'', JStr ''1''), (''body'', body)]"

definition nul_authorization :: "string \<Rightarrow> jsval" where
  "nul_authorization digest = JObj [(''id'', JStr [nul]), (''revision'', JStr ''1''), (''digest'', JStr digest)]"

lemma load_throws_on_nul:
  assumes "readCompletionPolicyBody raw = Some b" and "contractDigest sha num raw = Inr h" and "h \<noteq> []"
  shows "loadCompletionPolicies sha num [nul_entry raw] [nul_authorization h] = Inl MalformedRef"
proof -
  have split: "splitIdentity (identityKey [nul] ''1'') = Some ([], nul # ''1'')"
    by (simp add: splitIdentity_def identityKey_def)
  have "contractDigest sha num (enc_policy_body b) = Inr h" using read_body_digest [OF assms(1)] assms(2) by blast
  then have "readCatalogPolicy sha num \<lparr>ca_id = [nul], ca_revision = ''1'', ca_body = raw\<rparr>
      \<lparr>cr_id = [], cr_revision = nul # ''1'', cr_digest = h\<rparr> =
      Inr (Inr \<lparr>ps_ref = \<lparr>cr_id = [], cr_revision = nul # ''1'', cr_digest = h\<rparr>, ps_body = b\<rparr>)"
    by (simp add: readCatalogPolicy_snapshot assms(1))
  then show ?thesis
    using assms(3)
    by (simp add: load_unfold catalog_add_def authorization_add_def nul_entry_def nul_authorization_def split Let_def
        set_add_def createCompletionPolicyRegistry_def)
qed

end
