(* ===== verification/CompileExamples.thy ===== *)
theory CompileExamples
  imports Examples CompletionPolicyFacts VerifyFacts "HOL-Library.Code_Target_Nat"
begin

text \<open>
  Concrete inputs of the compiler, of the policy loader and of the load gate, evaluated with a stand-in digest
  and a stand-in number text. The compiled example has a gated outcome, a natural completion, a bound contract,
  a loop with its cap and a declared input. The naturals are represented by integers, so that the size bound of
  the digest is compared at once.
\<close>

subsection \<open>A number text\<close>

lemma show_nat_digit: "c \<in> set (show_nat n) \<Longrightarrow> \<exists>d < 10. c = digit_char d"
proof (induction n rule: show_nat.induct)
  case (1 n)
  show ?case
  proof (cases "n < 10")
    case True
    then show ?thesis using "1.prems" by (subst (asm) show_nat.simps) auto
  next
    case False
    then have "c \<in> set (show_nat (n div 10)) \<or> c = digit_char (n mod 10)"
      using "1.prems" by (subst (asm) show_nat.simps) auto
    then show ?thesis using "1.IH" False by (metis mod_less_divisor zero_less_numeral)
  qed
qed

lemma digit_chars: "list_all (\<lambda>d. digit_char d \<in> set ''0123456789'') [0, 1, 2, 3, 4, 5, 6, 7, 8, 9]"
  by code_simp

lemma show_nat_digits: "set (show_nat n) \<subseteq> set ''0123456789''"
proof
  fix c assume "c \<in> set (show_nat n)"
  then obtain d where d: "d < 10" "c = digit_char d" using show_nat_digit by blast
  from d(1) have "d \<in> set [0, 1, 2, 3, 4, 5, 6, 7, 8, 9]" by auto
  with digit_chars d(2) show "c \<in> set ''0123456789''" unfolding list_all_iff by blast
qed

lemma show_nat_not: "x \<notin> set ''0123456789'' \<Longrightarrow> x \<notin> set (show_nat n)"
  using show_nat_digits by blast

text \<open>A stand-in for \<open>JSON.stringify\<close> of a number: numerator and denominator around an exponent mark.\<close>

definition ex_num :: "rat \<Rightarrow> string" where
  "ex_num q = (if fst (quotient_of q) < 0 then ''-'' else []) @ show_nat (nat \<bar>fst (quotient_of q)\<bar>) @ ''e'' @ show_nat (nat (snd (quotient_of q)))"

lemma show_nat_pair_inj:
  assumes "show_nat a @ CHR ''e'' # show_nat b = show_nat c @ CHR ''e'' # show_nat d"
  shows "a = c \<and> b = d"
proof -
  have tw: "takeWhile (\<lambda>c. c \<noteq> CHR ''e'') (show_nat a @ CHR ''e'' # r) = show_nat a" for a r
  proof -
    have "\<forall>c \<in> set (show_nat a). c \<noteq> CHR ''e''" using show_nat_not [of "CHR ''e''" a] by auto
    then show ?thesis by (simp add: takeWhile_append2)
  qed
  have "show_nat a = show_nat c" using tw [of a "show_nat b"] tw [of c "show_nat d"] assms by metis
  with assms show ?thesis by (simp add: show_nat_inj)
qed

lemma show_nat_no_sign: "show_nat a @ r \<noteq> CHR ''-'' # s"
proof -
  have "hd (show_nat a) \<in> set (show_nat a)" by simp
  moreover have "CHR ''-'' \<notin> set (show_nat a)" by (rule show_nat_not) simp
  ultimately have "hd (show_nat a) \<noteq> CHR ''-''" by metis
  then show ?thesis using hd_append2 [of "show_nat a" r] by (metis list.sel(1) show_nat_nonempty)
qed

lemma ex_num_inj: "ex_num p = ex_num q \<Longrightarrow> p = q"
proof -
  assume eq: "ex_num p = ex_num q"
  obtain a b where p: "quotient_of p = (a, b)" by fastforce
  obtain c d where q: "quotient_of q = (c, d)" by fastforce
  have pos: "0 < b" "0 < d" using quotient_of_denom_pos p q by blast+
  have sign: "a < 0 \<longleftrightarrow> c < 0"
  proof (rule ccontr)
    assume "(a < 0) \<noteq> (c < 0)"
    then consider "a < 0" "\<not> c < 0" | "\<not> a < 0" "c < 0" by blast
    then show False
      using eq show_nat_no_sign [of "nat \<bar>a\<bar>"] show_nat_no_sign [of "nat \<bar>c\<bar>", THEN not_sym]
      by cases (simp_all add: ex_num_def p q)
  qed
  then have "show_nat (nat \<bar>a\<bar>) @ CHR ''e'' # show_nat (nat b) = show_nat (nat \<bar>c\<bar>) @ CHR ''e'' # show_nat (nat d)"
    using eq by (auto simp: ex_num_def p q split: if_splits)
  from show_nat_pair_inj [OF this] have "\<bar>a\<bar> = \<bar>c\<bar>" "b = d" using pos by auto
  with sign have "a = c" by auto
  with \<open>b = d\<close> p q have "quotient_of p = quotient_of q" by simp
  then show "p = q" using quotient_of_inject by blast
qed

lemma ex_num_json: "json_numbers ex_num"
  unfolding json_numbers_def
proof (intro conjI allI)
  show "inj ex_num" by (rule injI) (rule ex_num_inj)
  fix q
  let ?a = "show_nat (nat \<bar>fst (quotient_of q)\<bar>)"
  have "hd ?a \<in> set ?a" by simp
  then have h: "hd ?a \<in> set ''0123456789''" using show_nat_digits by blast
  show "ex_num q \<noteq> []" by (simp add: ex_num_def)
  have sub: "set ''0123456789'' \<subseteq> set ''-0123456789''" "set ''0123456789'' \<subseteq> set ''-+.e0123456789''" by simp_all
  have "hd (ex_num q) = (if fst (quotient_of q) < 0 then CHR ''-'' else hd ?a)" by (simp add: ex_num_def)
  then show "hd (ex_num q) \<in> set ''-0123456789''"
    using subsetD [OF sub(1) h] by (simp only: split: if_split) simp
  have "set (ex_num q) = set (if fst (quotient_of q) < 0 then ''-'' else []) \<union> set ?a \<union> set ''e'' \<union> set (show_nat (nat (snd (quotient_of q))))"
    unfolding ex_num_def set_append by (simp only: Un_assoc)
  moreover have "set (if fst (quotient_of q) < 0 then ''-'' else []) \<subseteq> set ''-+.e0123456789''" by (cases "fst (quotient_of q) < 0") simp_all
  moreover have "set ''e'' \<subseteq> set ''-+.e0123456789''" by simp
  ultimately show "set (ex_num q) \<subseteq> set ''-+.e0123456789''"
    using subset_trans [OF show_nat_digits sub(2)] by (simp only: Un_subset_iff)
qed

definition ex_body :: "nat \<Rightarrow> jsval" where
  "ex_body i = (if i = 0 then JObj [(''a'', js_int 1), (''b'', JArr [JStr ''x'', JNull])]
                else JObj [(''b'', JArr [JStr ''x'', JNull]), (''a'', js_int 1)])"

lemma ex_num_one: "ex_num 1 = ''1e1''"
  by (simp add: ex_num_def show_nat.simps digit_char_def) code_simp

lemma ex_body_digest: "contractDigest ex_sha ex_num (ex_body i) = Inr (replicate 64 (CHR ''a''))"
  by (simp add: contractDigest_Inr ex_body_def js_int_def ex_num_one CONTRACT_DIGEST_MAX_DEPTH_def
      CONTRACT_DIGEST_MAX_BYTES_def json_quote_def json_escape_def utf8_length_def ex_sha_def)

lemma ex_body_differ: "ex_body 0 \<noteq> ex_body 1" "sort_keys (ex_body 0) = sort_keys (ex_body 1)"
  by (simp_all add: ex_body_def)


subsection \<open>A declaration and its options\<close>

definition ex_hex :: string where
  "ex_hex = replicate 64 (CHR ''a'')"

definition ex_gated_outcome :: jsval where
  "ex_gated_outcome = JObj [(''id'', JStr ''go''), (''acceptance'', JArr [JObj [(''validator'', JStr ''v'')]])]"

definition ex_declaration :: jsval where
  "ex_declaration = JObj [(''version'', js_int 3), (''name'', JStr ''g''),
     (''completion_policy'', JObj [(''id'', JStr ''p''), (''revision'', JStr ''1'')]),
     (''nodes'', JArr [
        JObj [(''id'', JStr ''a''), (''agent'', JStr ''x''), (''prompt'', JStr ''y''), (''outcomes'', JArr [ex_gated_outcome]),
              (''completion'', JObj [(''mode'', JStr ''natural''), (''outcome'', JStr ''go'')]),
              (''contractRef'', JObj [(''id'', JStr ''c''), (''revision'', JStr ''1''), (''digest'', JStr ex_hex)])],
        JObj [(''id'', JStr ''b''), (''agent'', JStr ''x''), (''prompt'', JStr ''y''),
              (''outcomes'', JArr [JObj [(''id'', JStr ''again'')], JObj [(''id'', JStr ''done'')]]),
              (''inputs'', JArr [JObj [(''from'', JStr ''a''), (''outcome'', JStr ''go'')]])]]),
     (''edges'', JArr [JObj [(''from'', JStr ''a''), (''to'', JStr ''b''), (''outcome'', JStr ''go'')],
                       JObj [(''from'', JStr ''b''), (''to'', JStr ''b''), (''outcome'', JStr ''again'')]]),
     (''loop_groups'', JArr [JObj [(''id'', JStr ''l''), (''nodes'', JArr [JStr ''b'']), (''max_traversals'', js_int 2),
        (''continuation_outcome'', JStr ''again''), (''exit_outcome'', JStr ''done'')]])]"

definition ex_grant_body :: completion_policy_body where
  "ex_grant_body = \<lparr>pb_default = FallbackDeny,
     pb_rules = [\<lparr>cr_mapping = \<lparr>cm_graphId = ''g'', cm_nodeId = ''a'', cm_outcome = ''go''\<rparr>, cr_decision = Allow\<rparr>]\<rparr>"

definition ex_grant :: completion_policy_snapshot where
  "ex_grant = \<lparr>ps_ref = \<lparr>cr_id = ''p'', cr_revision = ''1'', cr_digest = ex_hex\<rparr>, ps_body = ex_grant_body\<rparr>"

definition ex_options :: compile_options where
  "ex_options = \<lparr>op_contracts = Some [\<lparr>cs_ref = \<lparr>cr_id = ''c'', cr_revision = ''1'', cr_digest = ex_hex\<rparr>, cs_body = JObj []\<rparr>],
     op_supportedValidators = Some [\<lparr>vc_validator = ''v'', vc_version = Some (Fin 1)\<rparr>], op_acceptanceCapabilities = None,
     op_completionPolicies = Some [ex_grant]\<rparr>"

subsection \<open>The compiled plan\<close>

definition ex_node_a :: compiled_node where
  "ex_node_a = \<lparr>cn_id = ''a'', cn_agent = ''x'', cn_prompt = ''y'',
     cn_outcomes = [\<lparr>co_id = ''go'', co_data = None, co_acceptance = [\<lparr>car_validator = ''v'', car_version = Some 1\<rparr>]\<rparr>],
     cn_completion = Some (Natural ''go''), cn_contractRef = Some \<lparr>cr_id = ''c'', cr_revision = ''1'', cr_digest = ex_hex\<rparr>,
     cn_join = None, cn_budget = JUndef, cn_inputs = None, cn_tools = None, cn_toolPresentation = JUndef\<rparr>"

definition ex_node_b :: compiled_node where
  "ex_node_b = \<lparr>cn_id = ''b'', cn_agent = ''x'', cn_prompt = ''y'',
     cn_outcomes = [\<lparr>co_id = ''again'', co_data = None, co_acceptance = []\<rparr>, \<lparr>co_id = ''done'', co_data = None, co_acceptance = []\<rparr>],
     cn_completion = None, cn_contractRef = None, cn_join = None, cn_budget = JUndef,
     cn_inputs = Some [\<lparr>cir_from = ''a'', cir_outcome = ''go'', cir_triggered = False\<rparr>], cn_tools = None, cn_toolPresentation = JUndef\<rparr>"

definition ex_compiled_body :: compiled_plan where
  "ex_compiled_body = \<lparr>cp_budget = JUndef, cp_graphId = ''g'', cp_nodes = [ex_node_a, ex_node_b],
     cp_edges = [\<lparr>ce_from = ''a'', ce_to = ''b'', ce_outcome = ''go''\<rparr>, \<lparr>ce_from = ''b'', ce_to = ''b'', ce_outcome = ''again''\<rparr>],
     cp_loopGroups = [\<lparr>clg_id = ''l'', clg_nodes = [''b''], clg_maxTraversals = 2, clg_continuationOutcome = ''again'',
        clg_exitOutcome = ''done'', clg_progress = None\<rparr>],
     cp_contractSnapshots = JObj [(ex_hex, JObj [(''body'', JObj [])])],
     cp_contractIdentities = JObj [(''c'', JObj [(''1'', JStr ex_hex)])],
     cp_completionPolicySnapshots = JObj [(ex_hex, enc_policy_body ex_grant_body)],
     cp_completionPolicyIdentities = JObj [(''p'', JObj [(''1'', JStr ex_hex)])],
     cp_completionAuthorizations = JArr [enc_authorization \<lparr>cau_nodeId = ''a'', cau_outcome = ''go'', cau_policy = ps_ref ex_grant\<rparr>],
     cp_terminalOutcomes = [\<lparr>cto_nodeId = ''b'', cto_outcome = ''done''\<rparr>], cp_executability = Executable, cp_planRevision = []\<rparr>"

definition ex_compiled :: compiled_plan where
  "ex_compiled = ex_compiled_body\<lparr>cp_planRevision := ex_hex\<rparr>"

lemma ex_assembled: "assemble_body ex_sha ex_num ex_options ex_declaration = (ex_compiled_body, [])"
  by code_simp

lemma ex_inspected: "fst (inspect_body ex_sha ex_num ex_compiled_body) = []" "unsatisfiableJoinsOf ex_compiled_body = []"
  "isGraphDeclarationV3 ex_declaration"
  by code_simp+

lemma digest_small:
  assumes "representable 0 v" and "length (canonical_text num v) \<le> 300000"
  shows "contractDigest sha num v = Inr (sha (canonical_text num v))"
proof -
  have "utf8_length s \<le> 3 * length s" for s
    unfolding utf8_length_def by (induction s) (auto simp: Let_def)
  from this [of "canonical_text num v"] assms show ?thesis
    by (simp add: contractDigest_Inr CONTRACT_DIGEST_MAX_BYTES_def)
qed

lemma ex_body_small:
  "representable 0 (JObj (plan_body_fields ex_compiled_body))"
  "length (canonical_text ex_num (JObj (plan_body_fields ex_compiled_body))) \<le> 300000"
  by code_simp+

lemma ex_created: "createCompiledPlan ex_sha ex_num ex_compiled_body = Inr ex_compiled"
  by (simp add: createCompiledPlan_Inr digest_small [OF ex_body_small] ex_compiled_def ex_sha_def ex_hex_def)

lemma ex_compiles: "compileGraph ex_sha ex_num ex_options ex_declaration = CompiledExecutable ex_compiled"
proof -
  have "cp_executability ex_compiled = Executable" by (simp add: ex_compiled_def ex_compiled_body_def)
  then show ?thesis
    by (simp add: compileGraph_def compileDeclaration_def ex_inspected ex_assembled ex_created succeeded_def)
qed

text \<open>The written record, and the same record with its properties in another order.\<close>

definition ex_reordered :: jsval where
  "ex_reordered = JObj (rev (plan_body_fields ex_compiled @ [(''planRevision'', JStr (cp_planRevision ex_compiled)), (''nodeBindings'', JObj (nodeBindingsOf (cp_nodes ex_compiled)))]))"

lemma ex_record_runnable:
  "readPersistedCompiledPlan ex_sha ex_num (createPersistedCompiledPlan ex_compiled) [''a'', ''b''] = Some (createPersistedCompiledPlan ex_compiled)"
proof (rule written_plan_runnable [OF written_plan_verified [OF ex_compiles]])
  show "set (node_ids ex_compiled) \<subseteq> set [''a'', ''b'']" "cp_planRevision ex_compiled \<noteq> []"
    by (simp_all add: ex_compiled_def ex_compiled_body_def ex_node_a_def ex_node_b_def ex_hex_def)
qed

lemma ex_reordered_runnable: "readPersistedCompiledPlan ex_sha ex_num ex_reordered [''a'', ''b''] = Some ex_reordered"
proof -
  let ?fields = "plan_body_fields ex_compiled @ [(''planRevision'', JStr (cp_planRevision ex_compiled)), (''nodeBindings'', JObj (nodeBindingsOf (cp_nodes ex_compiled)))]"
  have "distinct (map fst ?fields)" by (simp add: plan_body_fields_def undef_field_def)
  then have "map_of (rev ?fields) = map_of ?fields" by (intro map_of_inject_set [THEN iffD2]) (simp_all add: rev_map [symmetric] insert_commute)
  then have "js_get (JObj (rev ?fields)) = js_get (JObj ?fields)" by (intro ext) (simp only: js_get.simps)
  then have "js_get ex_reordered = js_get (createPersistedCompiledPlan ex_compiled)" by (simp only: ex_reordered_def createPersistedCompiledPlan_def)
  moreover have "isRecord ex_reordered" "isRecord (createPersistedCompiledPlan ex_compiled)"
    by (simp_all add: ex_reordered_def createPersistedCompiledPlan_def)
  ultimately have "isRunnablePersistedPlan ex_sha ex_num ex_reordered [''a'', ''b'']"
    using ex_record_runnable runnable_reordered [of ex_reordered "createPersistedCompiledPlan ex_compiled"]
    by (simp add: readPersistedCompiledPlan_def split: if_splits)
  then show ?thesis by (simp add: readPersistedCompiledPlan_def)
qed

lemma ex_reordered_differs: "createPersistedCompiledPlan ex_compiled \<noteq> ex_reordered"
  by (simp add: createPersistedCompiledPlan_def ex_reordered_def plan_body_fields_def)

subsection \<open>A policy catalog\<close>

definition ex_catalog :: "jsval list" where
  "ex_catalog = [JObj [(''id'', JStr ''p''), (''revision'', JStr ''1''), (''body'', enc_policy_body ex_grant_body)]]"

definition ex_authorized :: "jsval list" where
  "ex_authorized = [enc_ref (ps_ref ex_grant)]"

lemma ex_catalog_nul_free: "nul_free ex_catalog" "nul_free ex_authorized"
proof -
  have "nul \<notin> set ''p''" by code_simp
  then show "nul_free ex_catalog" "nul_free ex_authorized"
    by (simp_all add: ex_catalog_def ex_authorized_def ex_grant_def ex_hex_def enc_ref_def nul_free_def)
qed

lemma ex_grant_digest: "contractDigest ex_sha ex_num (enc_policy_body ex_grant_body) = Inr ex_hex"
proof -
  have "representable 0 (enc_policy_body ex_grant_body)" "length (canonical_text ex_num (enc_policy_body ex_grant_body)) \<le> 300000"
    by code_simp+
  from digest_small [OF this] show ?thesis by (simp add: ex_sha_def ex_hex_def)
qed

lemma ex_grant_selected: "host_selects ex_sha ex_num ex_catalog ex_authorized ex_grant"
proof -
  have "wf_policy_body ex_grant_body" by code_simp
  then have "readCompletionPolicyBody (enc_policy_body ex_grant_body) = Some ex_grant_body"
    using policy_codec.dec_enc [of ex_grant_body] by (simp add: decode_policy_body_Inr)
  then show ?thesis
    by (simp add: host_selects_def ex_grant_digest authorized_digests_def offered_def offers_def ex_catalog_def ex_authorized_def
        ex_grant_def ex_hex_def enc_ref_def isCompletionPolicyRef_def)
qed

subsection \<open>A join whose quorum exceeds its feeders\<close>

definition ex_plain_node :: "string \<Rightarrow> join_config option \<Rightarrow> compiled_node" where
  "ex_plain_node i j = \<lparr>cn_id = i, cn_agent = [], cn_prompt = [], cn_outcomes = [\<lparr>co_id = ''ok'', co_data = None, co_acceptance = []\<rparr>],
     cn_completion = None, cn_contractRef = None, cn_join = j, cn_budget = JUndef, cn_inputs = None, cn_tools = None, cn_toolPresentation = JUndef\<rparr>"

definition ex_oversized :: compiled_plan where
  "ex_oversized = ex_compiled_body\<lparr>cp_nodes := [ex_plain_node ''a'' None, ex_plain_node ''b'' (Some (JoinQuorum (Some 2)))],
     cp_edges := [\<lparr>ce_from = ''a'', ce_to = ''b'', ce_outcome = ''ok''\<rparr>], cp_loopGroups := []\<rparr>"

lemma ex_oversized_accepted: "unsatisfiableJoinsOf ex_oversized = []" "feederSourcesOf ex_oversized ''b'' = [''a'']"
  by code_simp+

end
