(* ===== verification/AcceptanceExamples.thy ===== *)
theory AcceptanceExamples
  imports AcceptanceFacts LedgerExamples CompileExamples
begin

text \<open>
  A submission that cites one file, to an outcome gated by the artifact-reference validator, over a store that starts
  empty; and the same submission without its evidence.
\<close>

definition ex_fs :: filesystem where
  "ex_fs = \<lparr>fs_realpath = \<lambda>path. Some path, fs_is_file = \<lambda>_. Some True, fs_read = \<lambda>_. Some ''bytes''\<rparr>"

definition ex_faults :: deposit_faults where
  "ex_faults = \<lparr>df_token = ''t'', df_mkdir = False, df_write = WriteWorks, df_link = False, df_read = False\<rparr>"

definition ex_gate :: validator_implementation where
  "ex_gate = artifact_implementation ex_sha ex_fs (Some (\<lambda>_. ex_faults)) []"

definition ex_requirement :: compiled_acceptance_requirement where
  "ex_requirement = \<lparr>car_validator = ARTIFACT_REFERENCE_VALIDATOR_ID, car_version = Some 1\<rparr>"

definition ex_outcome :: compiled_outcome where
  "ex_outcome = \<lparr>co_id = ''ok'', co_data = None, co_acceptance = [ex_requirement]\<rparr>"

definition ex_cited_node :: compiled_node where
  "ex_cited_node = (ex_plain_node ''n'' None)\<lparr>cn_outcomes := [ex_outcome]\<rparr>"

definition ex_submission :: "string list \<Rightarrow> acceptance_request" where
  "ex_submission refs = \<lparr>aq_plan = ex_compiled_body\<lparr>cp_nodes := [ex_cited_node], cp_planRevision := ''p''\<rparr>,
     aq_submittedPlanRevision = ''p'', aq_identity = \<lparr>xi_graphId = ''g'', xi_attemptId = ''n#1'', xi_submissionId = ''s''\<rparr>,
     aq_proposal = JObj [(''nodeId'', JStr ''n''), (''outcomeId'', JStr ''ok''), (''data'', JStr ''v''),
       (''evidenceRefs'', JArr (map JStr refs))],
     aq_validators = [((ARTIFACT_REFERENCE_VALIDATOR_ID, ARTIFACT_REFERENCE_VALIDATOR_VERSION), ex_gate)],
     aq_artifactRoot = ''/w'', aq_effects = None, aq_now = 3\<rparr>"

definition ex_proposal :: "string list \<Rightarrow> outcome_proposal" where
  "ex_proposal refs = \<lparr>pr_nodeId = ''n'', pr_outcomeId = ''ok'', pr_credential = None, pr_data = JStr ''v'', pr_evidenceRefs = Some refs\<rparr>"

definition ex_evidence :: accepted_artifact where
  "ex_evidence = \<lparr>aa_ref = ''r'', aa_artifactId = artifactIdOf ex_hex, aa_digest = ex_hex, aa_size = 5\<rparr>"

definition ex_decided :: "decision_kind \<Rightarrow> validation_outcome \<Rightarrow> submission_decision" where
  "ex_decided k res = \<lparr>sn_kind = k, sn_fields = \<lparr>dc_graphId = ''g'', dc_attemptId = ''n#1'', dc_submissionId = ''s'',
       dc_planRevision = ''p'', dc_proposalDigest = ex_hex, dc_nodeId = ''n'', dc_outcomeId = ''ok''\<rparr>,
     sn_requirements = [((ARTIFACT_REFERENCE_VALIDATOR_ID, 1), res)]\<rparr>"

definition ex_binding :: validation_binding where
  "ex_binding = \<lparr>vb_graphId = ''g'', vb_attemptId = ''n#1'', vb_submissionId = ''s'', vb_planRevision = ''p'', vb_proposalDigest = ex_hex\<rparr>"

definition ex_retained :: retained_validation where
  "ex_retained = \<lparr>rt_payload = DataValue (JStr ''v''), rt_artifacts = [ex_evidence]\<rparr>"

lemma ex_sha_hex64: "is_hex64 (ex_sha s)"
  by (simp add: ex_sha_def) code_simp

lemma ex_gate_installed:
  "lookup_validator (aq_validators (ex_submission refs)) (ARTIFACT_REFERENCE_VALIDATOR_ID, ARTIFACT_REFERENCE_VALIDATOR_VERSION) =
     Some (artifact_implementation ex_sha ex_fs (Some (\<lambda>_. ex_faults)) [])"
  by (simp add: lookup_validator_def ex_submission_def ex_gate_def)

lemma ex_requested: "readRequest (ex_submission [''r'']) = Inr (ex_proposal [''r''], ex_cited_node, ex_outcome)"
  by code_simp

lemma ex_validated: "validateSubmission ex_sha ex_num (ex_submission [''r'']) =
   Validated (ex_decided AcceptedKind (Pass [ex_evidence])) ex_binding (Some ex_retained)"
  by code_simp

definition ex_reason :: string where
  "ex_reason = ''the submission declares no evidence references''"

lemma ex_refused_evidence: "validateSubmission ex_sha ex_num (ex_submission []) =
   Validated (ex_decided RejectedKind (Fail ex_reason)) ex_binding None"
  by code_simp

definition ex_receipt :: "decision_kind \<Rightarrow> receipt" where
  "ex_receipt k = \<lparr>rcp_graphId = ''g'', rcp_attemptId = ''n#1'', rcp_submissionId = ''s'', rcp_planRevision = ''p'',
     rcp_proposalDigest = ex_hex, rcp_decision = k, rcp_committedAt = 3\<rparr>"

definition ex_no_join :: "string acceptance_join option" where
  "ex_no_join = None"

definition ex_accepted_ledger :: ledger where
  "ex_accepted_ledger = ex_open\<lparr>lg_receipts := [ex_receipt AcceptedKind],
     lg_events := [accepted_event_of (ex_submission [''r'']) (ex_receipt AcceptedKind) ''ok''],
     lg_results := [accepted_result_of (ex_submission [''r'']) (ex_receipt AcceptedKind) ex_retained]\<rparr>"

lemma ex_submission_committed:
  "commitSubmission ex_sha ex_num (ex_submission [''r'']) (Validated (ex_decided AcceptedKind (Pass [ex_evidence])) ex_binding (Some ex_retained))
     ex_no_join ex_open = Inr (Submitted (ex_decided AcceptedKind (Pass [ex_evidence])) (Committed (ex_receipt AcceptedKind)), ex_accepted_ledger)"
  by code_simp

lemma ex_rejection_committed:
  "commitSubmission ex_sha ex_num (ex_submission []) (Validated (ex_decided RejectedKind (Fail ex_reason)) ex_binding None)
     ex_no_join ex_open = Inr (Submitted (ex_decided RejectedKind (Fail ex_reason)) (Committed (ex_receipt RejectedKind)),
       ex_open\<lparr>lg_receipts := [ex_receipt RejectedKind]\<rparr>)"
  by code_simp

lemma ex_deposited: "putArtifact ex_sha ex_faults ''bytes'' [] =
   (Inr \<lparr>ad_artifactId = artifactIdOf ex_hex, ad_digest = ex_hex, ad_size = 5\<rparr>, [(ex_hex, ''bytes'')])"
  by code_simp

end
