(* ===== verification/SettlementExamples.thy ===== *)
theory SettlementExamples
  imports RuntimeCertain AcceptanceExamples
begin

text \<open>
  A graph of two nodes that is started, and whose first node is settled: by the worker with its credential, and by the
  host's own record of the attempt.
\<close>

definition ex_chain_plan :: compiled_plan where
  "ex_chain_plan = (ex_plan_of [(ex_node ''a'' [''k''] None [])\<lparr>cn_completion := Some (Natural ''k'')\<rparr>, ex_node ''b'' [''y''] None []]
     [ex_edge ''a'' ''b'' ''k''] [])\<lparr>cp_completionAuthorizations :=
       JArr [JObj [(''nodeId'', JStr ''a''), (''outcome'', JStr ''k''), (''policy'', JStr ''c'')]]\<rparr>"

definition ex_runtime :: runtime where
  "ex_runtime = \<lparr>rn_plan = ex_chain_plan, rn_validators = [], rn_artifactRoot = ''/w'', rn_sha = ex_sha, rn_num = ex_num,
     rn_numText = (\<lambda>_. ''0''), rn_mint = ex_mint, rn_unavailable = None, rn_undispatchable = None,
     rn_authority = Some (\<lambda>_ _. Inr (Some ''x'')), rn_create = (\<lambda>_. True)\<rparr>"

definition ex_call :: settlement_call where
  "ex_call = \<lparr>sl_proposal = JObj [(''nodeId'', JStr ''a''), (''outcomeId'', JStr ''k''), (''credential'', JStr ''na#1'')],
    sl_source = FromSubmission, sl_expected = None, sl_hostCompletion = False, sl_now = 6, sl_identity = IdentityUndeclared\<rparr>"

definition ex_pair_state :: graph_state where
  "ex_pair_state = ex_state Executing
     [DispatchedNode ''a'' ''a#1'' 1 ex_digest None 5 [] (Some []) None, PendingNode ''b'' [] None] [] 1 None []"

definition ex_pair_settled :: graph_state where
  "ex_pair_settled = ex_state Executing
     [SettledNode ''a'' ''a#1'' 1 ex_digest None ''k'' 5 6 [] (Some []) None,
      DispatchedNode ''b'' ''b#2'' 2 ex_digest None 6 [\<lparr>arr_from = ''a'', arr_outcome = ''k'', arr_attemptId = ''a#1''\<rparr>] (Some []) None] [] 2 None []"

definition ex_intent :: "string \<Rightarrow> string \<Rightarrow> dispatch_intent" where
  "ex_intent i a = \<lparr>di_nodeId = i, di_attemptId = a, di_agent = ''w'', di_prompt = i, di_credential = CHR ''n'' # a, di_inputs = []\<rparr>"

definition ex_pair_ledger :: ledger where
  "ex_pair_ledger = empty_ledger\<lparr>
     lg_effects := [\<lparr>ef_graphId = ''g'', ef_runId = Some ''g@5'', ef_effectId = ''dispatch:a#1'', ef_attemptId = ''a#1'', ef_kind = ''dispatch'',
       ef_payload = dispatchPayloadOf ex_runtime (ex_intent ''a'' ''a#1''), ef_createdAt = 5, ef_status = EffectStarted\<rparr>],
     lg_states := [(''g@5'', stateRecordOf ex_pair_state 5)],
     lg_runs := [\<lparr>rw_identity = \<lparr>rid_graphId = ''g'', rid_runId = ''g@5'', rid_startedAt = 5, rid_planRevision = ''p''\<rparr>, rw_runSeq = 1, rw_control = None\<rparr>],
     lg_reservations := [\<lparr>bv_graphId = ''g'', bv_runId = ''g@5'', bv_nodeId = ''a'', bv_attemptId = ''a#1'', bv_effectId = ''dispatch:a#1'',
       bv_checked = NO_BUDGET_LIMITS, bv_reserved = ZERO_BUDGET_USAGE\<lparr>bu_executions := 1\<rparr>, bv_status = Reserved, bv_reservedAt = 5\<rparr>]\<rparr>"

lemma ex_pair_started: "startGraph ex_runtime 5 IdentityUndeclared empty_ledger =
   (Inr (Started ex_pair_state [ex_intent ''a'' ''a#1'']), ex_pair_ledger)"
  by code_simp

text \<open>What the settlement of the first node leaves.\<close>

definition ex_pair_rows :: "accepted_answer \<Rightarrow> ledger \<Rightarrow> bool" where
  "ex_pair_rows x db \<longleftrightarrow> \<not> an_replayed x \<and> an_state x = ex_pair_settled \<and> an_dispatched x = [ex_intent ''b'' ''b#2''] \<and>
     dc_attemptId (sn_fields (an_decision x)) = ''a#1'' \<and>
     map (\<lambda>e. (ev_graphId e, ev_attemptId e, ev_outcomeId e)) (lg_events db) = [(''g'', ''a#1'', ''k'')] \<and>
     lg_states db = [(''g@5'', stateRecordOf ex_pair_settled 6)] \<and> lg_runs db = lg_runs ex_pair_ledger"

definition ex_settles :: "settlement_result \<Rightarrow> bool" where
  "ex_settles res = (case res of (Inr (Accepted x), db) \<Rightarrow> ex_pair_rows x db | _ \<Rightarrow> False)"

lemma ex_settled: "ex_settles (settleSubmission ex_runtime ex_call ex_pair_ledger ex_pair_ledger)"
  by code_simp

definition ex_host_fact :: jsval where
  "ex_host_fact = JObj [(''nodeId'', JStr ''a''), (''attemptId'', JStr ''a#1''), (''executionId'', JStr ''x'')]"

lemma ex_host_settled: "case settleHostCompletion ex_runtime ex_host_fact 6 IdentityUndeclared ex_pair_ledger ex_pair_ledger of
    (Inr (Accepted x, Some s), db) \<Rightarrow> ex_pair_rows x db \<and> nt_outcomeId s = ''k'' | _ \<Rightarrow> False"
  by code_simp

lemma ex_host_answer:
  obtains x s db where "settleHostCompletion ex_runtime ex_host_fact 6 IdentityUndeclared ex_pair_ledger ex_pair_ledger = (Inr (Accepted x, s), db)"
    and "ex_pair_rows x db"
proof (cases "settleHostCompletion ex_runtime ex_host_fact 6 IdentityUndeclared ex_pair_ledger ex_pair_ledger")
  case (Pair a db)
  with ex_host_settled that show ?thesis
    by (cases a; cases "projr a"; cases "fst (projr a)"; cases "snd (projr a)") auto
qed

lemma ex_chain_wf: "wf_plan (rn_plan ex_runtime)"
  by code_simp

lemma ex_no_route: "reduceInTransaction ex_runtime \<lparr>rc_now = 6, rc_progress = [], rc_identity = None, rc_justAccepted = None\<rparr> ex_pair_ledger
    (ex_decision ''a'' ''a#1'' ''z'') = Inl (JoinFailure (JoinAdvance (AdvanceRefused NoRoute ''not a terminal and binds no edge'')))"
proof -
  have "case reduceInTransaction ex_runtime \<lparr>rc_now = 6, rc_progress = [], rc_identity = None, rc_justAccepted = None\<rparr> ex_pair_ledger
      (ex_decision ''a'' ''a#1'' ''z'') of
    Inl f \<Rightarrow> f = JoinFailure (JoinAdvance (AdvanceRefused NoRoute ''not a terminal and binds no edge'')) | Inr _ \<Rightarrow> False"
    by code_simp
  then show ?thesis by (auto split: sum.splits)
qed

subsection \<open>The history\<close>

definition ex_settled_ledger :: ledger where
  "ex_settled_ledger = snd (settleSubmission ex_runtime ex_call ex_pair_ledger ex_pair_ledger)"

lemma ex_settled_answer:
  obtains x where "settleSubmission ex_runtime ex_call ex_pair_ledger ex_pair_ledger = (Inr (Accepted x), ex_settled_ledger)"
    and "ex_pair_rows x ex_settled_ledger"
  using ex_settled that
  by (auto simp: ex_settles_def ex_settled_ledger_def split: prod.splits sum.splits submission_answer.splits)

lemma ex_runtime_hash: "hex_hash (rn_sha ex_runtime)"
  using ex_sha_hex by (simp add: ex_runtime_def)

lemma ex_runtime_graph: "graph_of ex_runtime = ''g''"
  by code_simp

lemma ex_no_identity: "readCurrentHostIdentity None = IdentityUndeclared"
  by (simp add: readCurrentHostIdentity_def)

lemma ex_history_started: "(runtime_step ex_runtime)\<^sup>*\<^sup>* empty_ledger ex_pair_ledger"
proof -
  have "runtime_step ex_runtime empty_ledger ex_pair_ledger"
    by (rule runtime_step.start [where now = 5 and capability = None]) (simp add: ex_no_identity ex_pair_started, simp)
  then show ?thesis by blast
qed

lemma ex_history_after: "(runtime_step ex_runtime)\<^sup>*\<^sup>* ex_pair_ledger ex_settled_ledger"
proof (rule ex_settled_answer)
  fix x assume "settleSubmission ex_runtime ex_call ex_pair_ledger ex_pair_ledger = (Inr (Accepted x), ex_settled_ledger)"
  then have "runtime_step ex_runtime ex_pair_ledger ex_settled_ledger"
    by (rule runtime_step.settle [where capability = None]) (simp_all add: ex_call_def ex_no_identity)
  then show ?thesis by blast
qed

lemma ex_history_settled: "(runtime_step ex_runtime)\<^sup>*\<^sup>* empty_ledger ex_settled_ledger"
  using ex_history_started ex_history_after by (rule rtranclp_trans)

lemma ex_started_read: "runtime_state ex_runtime ex_pair_ledger = Inr (Some ex_pair_state)"
  by code_simp

lemma runtime_state_cong:
  assumes "lg_states db' = lg_states db" and "lg_runs db' = lg_runs db"
  shows "runtime_state rt db' = runtime_state rt db"
  unfolding runtime_state_def readGraphState_def readGraphStateOf_def current_run_cong [OF assms(2)] assms(1) ..

lemma ex_settled_read: "runtime_state ex_runtime ex_settled_ledger = Inr (Some ex_pair_settled)"
proof (rule ex_settled_answer)
  fix x assume "ex_pair_rows x ex_settled_ledger"
  then have rows: "lg_states ex_settled_ledger = [(''g@5'', stateRecordOf ex_pair_settled 6)]" "lg_runs ex_settled_ledger = lg_runs ex_pair_ledger"
    by (simp_all add: ex_pair_rows_def)
  have "runtime_state ex_runtime (empty_ledger\<lparr>lg_states := [(''g@5'', stateRecordOf ex_pair_settled 6)], lg_runs := lg_runs ex_pair_ledger\<rparr>) =
      Inr (Some ex_pair_settled)" by code_simp
  then show ?thesis
    using runtime_state_cong [of ex_settled_ledger "empty_ledger\<lparr>lg_states := [(''g@5'', stateRecordOf ex_pair_settled 6)], lg_runs := lg_runs ex_pair_ledger\<rparr>"] rows
    by simp
qed

end
