(* ===== verification/Spec2Isabelle.thy ===== *)
theory Spec2Isabelle
  imports SettlementExamples
begin

text \<open>
  A verification development of the graph engine of rolebox (\<open>src/src/graph\<close>): the part of the program
  that runs a declared graph of agents to its end.

  \<^bold>\<open>The program.\<close> A declaration is compiled into an immutable plan (nodes, outcome-labelled edges, loop
  groups, terminal outcomes). A run is a persisted state over that plan. It is started once, and then
  driven by accepted outcomes: each accepted decision of a worker settles one attempt, routes the outcome
  over the plan's edges, decides the joins of the successors, binds their inputs to accepted results,
  dispatches them as new attempts with fresh credentials, and records everything as one new state. Loops
  are bounded by hard caps and by progress policies; dispatches are bounded by declared budgets that are
  claimed in the store before an attempt exists.

  \<^bold>\<open>Theories.\<close>

  \<^item> \<open>Prelude\<close>: results as sums, insertion-ordered sets, decimal numerals and attempt identifiers.
  \<^item> \<open>JsValue\<close>: JavaScript values that cross an untrusted boundary and the shape checks made there.
  \<^item> \<open>Codec\<close>: the locale of a strict codec, interpreted for every persisted part.
  \<^item> \<open>Plan\<close>: \<open>compiler/plan.ts\<close> (records, terminal outcomes, \<open>wf_plan\<close>) and \<open>domain/join.ts\<close>.
  \<^item> \<open>StateModel\<close>: \<open>outcome/state-model.ts\<close>, \<open>outcome/state-errors.ts\<close>.
  \<^item> \<open>JoinState\<close>: \<open>outcome/join-state.ts\<close>, all of it.
  \<^item> \<open>Inputs\<close>: \<open>outcome/inputs.ts\<close>: assembly of a consumer's input, reads of accepted results, codecs.
  \<^item> \<open>Progress\<close>: \<open>outcome/progress.ts\<close>: projections and comparisons of progress tokens.
  \<^item> \<open>AttemptCredential\<close>, \<open>HostIdentity\<close>: \<open>outcome/attempt-credential.ts\<close>, \<open>outcome/host-identity.ts\<close>.
  \<^item> \<open>Reducer\<close>: \<open>outcome/graph-state.ts\<close>, \<open>advanceOutcomeGraph\<close> with every refusal; \<open>ReducerFacts\<close> and
    \<open>AdvanceFacts\<close> hold its lemmas.
  \<^item> \<open>Budget\<close>, \<open>BudgetTables\<close>: \<open>domain/budget.ts\<close> and the reservation rows of \<open>store/budget-tables.ts\<close>.
  \<^item> \<open>RunStart\<close>: the start of a run in \<open>outcome/runtime.ts\<close> and the dispatch gate of \<open>outcome/runtime-budget.ts\<close>.
  \<^item> \<open>RunInvariant\<close>: the invariant of the states a run passes through (\<open>run_of\<close>).
  \<^item> \<open>StateCodec\<close>, \<open>StateCodecFacts\<close>: \<open>outcome/state-codec.ts\<close> and the interpretations of the codec locale.
  \<^item> \<open>PersistedRun\<close>: every state a run records is inside the reader's domain.
  \<^item> \<open>Canonical\<close>, \<open>CanonicalFacts\<close>: \<open>contracts/contract-definition.ts\<close>, the canonical text of a body and its digest.
  \<^item> \<open>Contracts\<close>: \<open>contracts/resolve.ts\<close>; \<open>CompletionPolicy\<close>, \<open>CompletionPolicyFacts\<close>: \<open>policy/completion-policy.ts\<close>.
    Both registries interpret the locale \<open>exact_registry\<close>.
  \<^item> \<open>Cycles\<close>, \<open>CyclesFacts\<close>: \<open>cycle-detection.ts\<close>, Tarjan's search and its correctness.
  \<^item> \<open>Topology\<close>: the JSON form of a plan, its content address, its durable record and the inspector of
    \<open>compiler/plan.ts\<close>.
  \<^item> \<open>WorkerTools\<close>: \<open>domain/worker-tools.ts\<close>; \<open>Declaration\<close>: the guard of \<open>compiler/declaration-v3.ts\<close> and the readers
    of \<open>compiler/compile.ts\<close>; \<open>Compile\<close>: its passes and \<open>compileGraph\<close>; \<open>CompileFacts\<close>: a plan it hands out is well formed.
  \<^item> \<open>CompileGuarantees\<close>: gates, completions and contracts of an executable plan; \<open>CompileClosure\<close>: its cycles and joins.
  \<^item> \<open>VerifyPlan\<close>, \<open>VerifyFacts\<close>: \<open>compiler/verify-plan.ts\<close>, the gate every durable plan passes before it is run.
  \<^item> \<open>ApprovalPolicy\<close>: \<open>policy/approval-policy.ts\<close>; \<open>Ledger\<close>, \<open>LedgerCommit\<close>: the rows of \<open>ledger/types.ts\<close> and the
    operations of \<open>store/ledger-tables.ts\<close> and of the run, control and approval surfaces of \<open>store/graph-store.ts\<close>.
    \<open>LedgerFacts\<close> holds the invariant, the locale of a table with a primary key with its interpretations, and the
    agreement of the guarded insert with its classification; \<open>LedgerHistory\<close> the step relation of all operations.
  \<^item> \<open>Proposal\<close>: \<open>outcome/proposal.ts\<close>; \<open>Artifacts\<close>: \<open>store/artifacts.ts\<close> and the evidence reads of
    \<open>outcome/validators.ts\<close>; \<open>Validators\<close>: its registry and the artifact-reference gate.
  \<^item> \<open>Acceptance\<close>, \<open>AcceptanceFacts\<close>: \<open>outcome/acceptance.ts\<close>, the validation of a submission and its commit, and the
    locale of a gate with what its passes promise, interpreted on the artifact-reference gate.
  \<^item> \<open>Completions\<close>: \<open>outcome/natural-completion.ts\<close>, \<open>outcome/host-derived.ts\<close>, \<open>outcome/runtime-readings.ts\<close>, the
    facts and deliveries of the three channels that settle an attempt; \<open>Settlement\<close>: \<open>outcome/settlement-identity.ts\<close>
    and the start and settlement of \<open>outcome/runtime.ts\<close> on the ledger, with the launch of \<open>outcome/runtime-recovery.ts\<close>.
  \<^item> \<open>SettlementFacts\<close>: what each answer of a settlement says of the ledger; \<open>RuntimeHistory\<close>: starts and settlements as
    transactions of the store; \<open>RuntimeInvariant\<close>, \<open>RuntimeAgreement\<close>: the agreement of the recorded state with the
    ledger along the step relation \<open>runtime_step\<close>; \<open>RuntimeCertain\<close>: the refusals a transaction never meets.
  \<^item> \<open>Examples\<close>, \<open>CompileExamples\<close>, \<open>LedgerExamples\<close>, \<open>AcceptanceExamples\<close>, \<open>SettlementExamples\<close>: concrete plans,
    runs, budgets, a compilation, a ledger, a submission and a settled run, for the witnesses.

  \<^bold>\<open>Correspondence.\<close> Each operation of the source is one definition with the source's name; the body of
  \<open>advanceOutcomeGraph\<close> is split along its own stages (\<open>locate_attempt\<close>, \<open>settle_entry\<close>, \<open>count_traversals\<close>,
  \<open>measureProgress\<close>, \<open>candidates_of\<close>, \<open>decide_loop\<close>, \<open>apply_decisions\<close>, \<open>conclude\<close>), composed in its order.
  Records are association lists in insertion order, sets are duplicate-free lists, thrown errors are the
  left side of a sum. Counters are natural numbers and timestamps integers; the readers keep the source's
  bound of \<open>Number.MAX_SAFE_INTEGER\<close>. Amounts are exact rationals. SHA-256, the number printer and the credential source
  are parameters; the reducer takes its reads of the ledger as arguments.

  \<^bold>\<open>Loops.\<close> \<open>decide_loop\<close> and \<open>reach_loop\<close> carry termination proofs; the two loops whose bound is in the
  source (\<open>arm_rounds\<close>, \<open>basis_rounds\<close>, \<open>dispatch_rounds\<close>) recurse on that bound. \<open>upstream_loop\<close> carries a termination
  proof. Only \<open>strongConnect\<close> has fuel: one unit for each node of the graph, which \<open>CyclesFacts\<close> shows to be enough.

  \<^bold>\<open>Properties.\<close> Runs: round trip through the store, progress or a recorded end, hard caps, unique attempts, exact arrivals,
  corroborated stops (C1 to C6). One decision: applied at most once, attempts in flight untouched, sound
  dispatch reports (C7 to C9). Acceptance: earned by every declared gate, nothing else
  written, evidence held and read back (C10 to C12, C14). The run path on the ledger: state and ledger agree along every
  history, an armed attempt is never lost, a transaction never finds them at odds, every settlement is a sequence of
  transactions, settled by whoever may, recorded as answered, and the host completes only what it recorded (C13, C15,
  C18, C22, C23, C28, C29). Reachability and progress policies (C16, C19).
  Inputs (C20). The strict reader of the persisted state (C21). Budgets (C26, C27, C30).
  Compilation: cycles, policies, well-formed plans, contained cycles, installed gates, authorized completions,
  joins (C31 to C37). The load gate: written plans load, a revision names one body (C38, C39). The ledger: an attempt
  settles once and excludes its stopping commands, replays, races, history (C40, C17, C25, C24).

  \<^bold>\<open>Hypotheses.\<close> \<open>hex_hash\<close>: the hash answers 64 lower-case hexadecimal digits. A history of the run path
  (\<open>runtime_step\<close>) starts and settles at clocks that are not negative, under an identity its reader accepts; any other
  transaction of the store may stand between two of its steps as long as it leaves the rows of the graph's state
  and accepted events alone, which the operations of other graphs, controls, approvals and budgets do.

  \<^bold>\<open>Not modelled.\<close> SQLite itself (a table is the list of its rows, an operation one transaction), the
  decoding of driver rows, file locking, executions, credentials and notifications of the store; validators other than the artifact-reference
  gate (a validator is a function of its request that may throw); recovery after a restart, re-execution and the re-issue of credentials; the hosts, adapters and user interfaces around the runtime;
  floating-point rounding; the text of diagnostics other than the refusals that are persisted; the
  prototype chain of JavaScript objects and the reordering of integer-like keys.
\<close>

section \<open>Runs\<close>



text \<open>
  C2. A run never stands still silently: an executing state has an attempt in flight, a complete one
  has every node settled, a stopped one and only a stopped one carries a stop record, and no state of
  a run is back in the ready phase.
\<close>

theorem run_progress_or_end:
  assumes "wf_plan plan" and "run_of sha plan st"
  shows "(gs_phase st = Executing \<longrightarrow> (\<exists>e \<in> set (gs_nodes st). ns_status e = Dispatched)) \<and>
    (gs_phase st = Complete \<longrightarrow> (\<forall>e \<in> set (gs_nodes st). ns_status e = Settled)) \<and>
    (gs_phase st = Stopped \<longleftrightarrow> gs_stop st \<noteq> None) \<and> gs_phase st \<noteq> Ready"
proof -
  have "gs_phase st = phase_of (gs_nodes st) (gs_stop st)"
    "gs_stop st = None \<longrightarrow> some_dispatched (gs_nodes st) \<or> settledEverywhere (gs_nodes st)"
    using run_of_inv [OF assms(2,1)] by (simp_all add: run_inv_def)
  then show ?thesis
    by (auto simp: phase_of_def some_dispatched_def settledEverywhere_def list_ex_iff list_all_iff split: if_splits)
qed

theorem run_progress_or_end_witness:
  "run_of ex_sha ex_plan ex_state1 \<and> gs_phase ex_state1 = Executing \<and> (\<exists>e \<in> set (gs_nodes ex_state1). ns_status e = Dispatched)"
proof -
  have "gs_phase ex_state1 = Executing" by (simp add: ex_state1_def ex_state_def)
  with run_progress_or_end [OF ex_wf ex_run1] ex_run1 show ?thesis by blast
qed



text \<open>
  C4. Attempt identifiers are unique: two entries that have been attempted under the same attempt
  identifier are the same entry, and every recorded attempt number is positive and not above the
  run's counter.
\<close>

theorem run_attempts_unique:
  assumes "wf_plan plan" and "run_of sha plan st"
  shows "(\<forall>e \<in> set (gs_nodes st). ns_status e \<noteq> Pending \<longrightarrow>
      0 < ns_attemptSeq e \<and> ns_attemptSeq e \<le> gs_attemptSeq st \<and> ns_attemptId e = attempt_id (ns_nodeId e) (ns_attemptSeq e)) \<and>
    (\<forall>i < length (gs_nodes st). \<forall>j < length (gs_nodes st).
      ns_status (gs_nodes st ! i) \<noteq> Pending \<longrightarrow> ns_status (gs_nodes st ! j) \<noteq> Pending \<longrightarrow>
      ns_attemptId (gs_nodes st ! i) = ns_attemptId (gs_nodes st ! j) \<longrightarrow> i = j)"
proof -
  have att: "attempts_ok (gs_nodes st) (gs_attemptSeq st)" and sd: "seqs_distinct (gs_nodes st)"
    using run_of_inv [OF assms(2,1)] by (simp_all add: run_inv_def)
  have "i = j" if "i < length (gs_nodes st)" "j < length (gs_nodes st)" "ns_status (gs_nodes st ! i) \<noteq> Pending"
    "ns_status (gs_nodes st ! j) \<noteq> Pending" "ns_attemptId (gs_nodes st ! i) = ns_attemptId (gs_nodes st ! j)" for i j
    using att sd that nth_mem [OF that(1)] nth_mem [OF that(2)] unfolding attempts_ok_def seqs_distinct_def
    by (metis attempt_id_inj)
  then show ?thesis using att by (simp add: attempts_ok_def)
qed

theorem run_attempts_unique_witness:
  "ns_attemptId (gs_nodes ex_state1 ! 0) \<noteq> ns_attemptId (gs_nodes ex_state1 ! 1) \<and> gs_attemptSeq ex_state1 = 2"
proof -
  have q: "gs_attemptSeq ex_state1 = 2" by (simp add: ex_state1_def ex_state_def)
  have n: "length (gs_nodes ex_state1) = 2" "\<forall>i < 2. ns_status (gs_nodes ex_state1 ! i) \<noteq> Pending"
    by (simp_all add: ex_state1_def ex_state_def less_2_cases_iff)
  have "(0::nat) < 2" "(1::nat) < 2" "(0::nat) \<noteq> 1" by simp_all
  with run_attempts_unique [OF ex_wf ex_run1] q show ?thesis unfolding n(1) using n(2) by blast
qed

text \<open>
  C5. The arrivals recorded at a node are exactly the settled results its incoming edges route to it:
  one per settled predecessor, naming the outcome and the attempt that settled.
\<close>

theorem run_arrivals_exact:
  assumes "wf_plan plan" and "run_of sha plan st" and "e \<in> set (gs_nodes st)"
  shows "distinct (map arr_from (ns_arrivals e)) \<and>
    (\<forall>a. a \<in> set (ns_arrivals e) \<longleftrightarrow>
      (\<exists>s \<in> set (gs_nodes st). ns_nodeId s = arr_from a \<and> settled_result s = Some (arr_outcome a, arr_attemptId a)) \<and>
      (\<exists>x \<in> set (cp_edges plan). ce_from x = arr_from a \<and> ce_to x = ns_nodeId e \<and> ce_outcome x = arr_outcome a))"
  by (rule run_arrivals_routed [OF assms])

theorem run_arrivals_exact_witness:
  "\<lparr>arr_from = ''d'', arr_outcome = ''k'', arr_attemptId = ''d#1''\<rparr> \<in> set (ns_arrivals (gs_nodes ex_state1 ! 1))"
proof -
  have e: "gs_nodes ex_state1 ! 1 \<in> set (gs_nodes ex_state1)" "ns_nodeId (gs_nodes ex_state1 ! 1) = ''r''"
    by (simp_all add: ex_state1_def ex_state_def)
  have "\<exists>s \<in> set (gs_nodes ex_state1). ns_nodeId s = ''d'' \<and> settled_result s = Some (''k'', ''d#1'')"
    by (simp add: ex_state1_def ex_state_def)
  moreover have "\<exists>x \<in> set (cp_edges ex_plan). ce_from x = ''d'' \<and> ce_to x = ''r'' \<and> ce_outcome x = ''k''"
    by (simp add: ex_plan_def ex_plan_of_def ex_edge_def)
  ultimately show ?thesis using run_arrivals_exact [OF ex_wf ex_run1 e(1)] e(2) by simp
qed



section \<open>One accepted decision\<close>

text \<open>
  C7. A decision is applied at most once: presented again on the state it produced, it is refused
  by name (the run is stopped, the node is no longer dispatched, or another attempt holds it).
\<close>

theorem decision_applied_once:
  assumes "wf_plan plan" and "run_of sha plan st"
    and "in_plan inp = plan" and "in_state inp = st" and "advanceOutcomeGraph sha inp = Inr a"
    and "in_plan inp' = plan" and "in_state inp' = av_state a" and "in_decision inp' = in_decision inp"
  shows "\<exists>code detail. advanceOutcomeGraph sha inp' = Inl (AdvanceRefused code detail) \<and>
    code \<in> {GraphStopped, NodeNotDispatched, AttemptMismatch}"
  by (rule advance_once [where inp = inp and a = a]) (use assms run_of_inv [OF assms(2,1)] in auto)

theorem decision_applied_once_witness:
  "\<exists>code detail. advanceOutcomeGraph ex_sha (ex_input ex_plan ex_state1 (ex_decision ''d'' ''d#1'' ''k'') 7 []) =
      Inl (AdvanceRefused code detail) \<and> code \<in> {GraphStopped, NodeNotDispatched, AttemptMismatch}"
  by (rule decision_applied_once [OF ex_wf ex_run0 _ _ ex_advance0]) (simp_all add: ex_input_def)

text \<open>
  C8. An attempt in flight is never replaced: whatever decision of another attempt is applied, a
  dispatched entry keeps its attempt, its credential digest, its identity, its inputs and its
  timestamps; only its arrivals may change.
\<close>

theorem in_flight_untouched:
  assumes "wf_plan (in_plan inp)" and "advanceOutcomeGraph sha inp = Inr a"
    and "i < length (gs_nodes (in_state inp))" and "ns_status (gs_nodes (in_state inp) ! i) = Dispatched"
    and "ns_attemptId (gs_nodes (in_state inp) ! i) \<noteq> dc_attemptId (in_decision inp)"
  shows "\<exists>as. gs_nodes (av_state a) ! i = with_arrivals as (gs_nodes (in_state inp) ! i)"
  by (rule advance_in_flight [OF wf_plan_distinct [OF assms(1)] assms(2-5)])

theorem in_flight_untouched_witness:
  "\<exists>as. ex_pair1 ! 1 = with_arrivals as (DispatchedNode ''b'' ''b#2'' 2 ex_digest None 5 [] (Some []) None)"
  using in_flight_untouched [OF _ ex_pair_advance, of 1] ex_pair_wf
  by (simp add: ex_pair_input_def ex_input_def ex_pair0_def ex_state_def ex_decision_def)

text \<open>
  C9. Every dispatch an advance reports is sound: its node is the target of an edge the decided
  outcome takes, its join is satisfied by the settled results at that moment, its attempt number is
  above every number used before, and the recorded entry carries exactly that attempt, those inputs
  and the digest of that credential.
\<close>

theorem dispatch_intents_sound:
  assumes "wf_plan (in_plan inp)" and "advanceOutcomeGraph sha inp = Inr a" and "di \<in> set (av_dispatches a)"
  shows "\<exists>n \<in> set (cp_nodes (in_plan inp)). \<exists>e \<in> set (gs_nodes (av_state a)).
    di_nodeId di = cn_id n \<and> di_agent di = cn_agent n \<and> di_prompt di = cn_prompt n \<and>
    (\<exists>x \<in> set (cp_edges (in_plan inp)). ce_to x = cn_id n \<and> ce_from x = dc_nodeId (in_decision inp) \<and>
       ce_outcome x = dc_outcomeId (in_decision inp)) \<and>
    (\<exists>pos < length (gs_nodes (in_state inp)). ns_attemptId (gs_nodes (in_state inp) ! pos) = dc_attemptId (in_decision inp) \<and>
       joinSatisfiedFor (in_plan inp) n (arrivals_to (in_plan inp)
         ((gs_nodes (in_state inp))[pos := settle_entry (gs_nodes (in_state inp) ! pos) (dc_outcomeId (in_decision inp)) (in_now inp)])
         [] (cn_id n))) \<and>
    ns_status e = Dispatched \<and> ns_nodeId e = di_nodeId di \<and> ns_attemptId e = di_attemptId di \<and>
    ns_inputs e = Some (di_inputs di) \<and> ns_attemptCredentialDigest e = attemptCredentialDigest sha (di_credential di) \<and>
    (\<exists>q > gs_attemptSeq (in_state inp). di_attemptId di = attempt_id (di_nodeId di) q)"
proof -
  have succ: "cn_id n \<in> ce_to ` set (successors_of inp) \<longleftrightarrow>
    (\<exists>x \<in> set (cp_edges (in_plan inp)). ce_to x = cn_id n \<and> ce_from x = dc_nodeId (in_decision inp) \<and>
       ce_outcome x = dc_outcomeId (in_decision inp))" for n by (auto simp: successors_of_def image_iff)
  show ?thesis
    using advance_intent [OF wf_plan_distinct [OF assms(1)] assms(2,3)]
    unfolding succ settled_arm_def by (simp only: arm_state.simps)
qed

theorem dispatch_intents_sound_witness:
  "\<exists>e \<in> set (gs_nodes ex_state1). ns_status e = Dispatched \<and> ns_attemptId e = ''r#2'' \<and> ns_inputs e = Some ex_bound"
  using dispatch_intents_sound [OF _ ex_advance0, of "hd (as_dispatches ex_arm1)"] ex_wf
  by (auto simp: ex_arm1_def)

text \<open>
  No entry is dispatched without being reported: a dispatched entry of the new state was already
  in flight before the decision, or its attempt is one of the reported dispatches.
\<close>

theorem dispatched_entries_reported:
  assumes "wf_plan (in_plan inp)" and "advanceOutcomeGraph sha inp = Inr a"
    and "i < length (gs_nodes (av_state a))" and "ns_status (gs_nodes (av_state a) ! i) = Dispatched"
  shows "(\<exists>as. gs_nodes (av_state a) ! i = with_arrivals as (gs_nodes (in_state inp) ! i)) \<or>
    (\<exists>di \<in> set (av_dispatches a). di_nodeId di = ns_nodeId (gs_nodes (av_state a) ! i) \<and>
       di_attemptId di = ns_attemptId (gs_nodes (av_state a) ! i))"
  by (rule advance_dispatched_entry [OF wf_plan_distinct [OF assms(1)] assms(2-4)])

theorem dispatched_entries_reported_witness:
  "\<exists>di \<in> set (as_dispatches ex_arm1). di_nodeId di = ''r'' \<and> di_attemptId di = ''r#2''"
proof -
  have n: "gs_nodes ex_state0 ! 1 = PendingNode ''r'' [] None" by (simp add: ex_state0_def ex_state_def)
  have "(\<exists>as. gs_nodes ex_state1 ! 1 = with_arrivals as (gs_nodes ex_state0 ! 1)) \<or>
     (\<exists>di \<in> set (as_dispatches ex_arm1). di_nodeId di = ''r'' \<and> di_attemptId di = ''r#2'')"
    using dispatched_entries_reported [OF _ ex_advance0, of 1] ex_wf by (simp add: ex_state1_def ex_state_def)
  then show ?thesis unfolding n by (auto simp: ex_state1_def ex_state_def)
qed

text \<open>A stopped run accepts nothing: every decision on a state that carries a stop is refused by name.\<close>

theorem stopped_run_refuses:
  assumes "wf_plan plan" and "run_of sha plan st" and "gs_stop st \<noteq> None" and "in_state inp = st"
  shows "\<exists>detail. advanceOutcomeGraph sha inp = Inl (AdvanceRefused GraphStopped detail)"
proof -
  have "gs_bodyVersion st \<in> set ADVANCEABLE_STATE_BODY_VERSIONS" "gs_loopProgress st \<noteq> None"
    using run_of_inv [OF assms(2,1)] by (simp_all add: run_inv_def ADVANCEABLE_STATE_BODY_VERSIONS_def)
  then show ?thesis using assms(3,4) by (auto simp: advanceOutcomeGraph_def Let_def)
qed

theorem stopped_run_refuses_witness:
  "\<exists>detail. advanceOutcomeGraph ex_sha (ex_input ex_dead_plan ex_dead1 (ex_decision ''b'' ''b#2'' ''y'') 8 []) =
     Inl (AdvanceRefused GraphStopped detail)"
  by (rule stopped_run_refuses [OF ex_dead_wf ex_dead_run1]) (simp_all add: ex_dead1_def ex_state_def ex_input_def)

text \<open>
  A cap refuses the round that would exceed it: when a continuation outcome would traverse a
  group that stands on its cap, the advance settles the attempt, records a cap stop, dispatches
  nothing and changes no counter.
\<close>

theorem exhausted_cap_stops:
  assumes "wf_plan (in_plan inp)" and "advanceOutcomeGraph sha inp = Inr a"
    and "\<not> is_terminal_outcome (in_plan inp) (dc_nodeId (in_decision inp)) (dc_outcomeId (in_decision inp))"
    and "g \<in> set (continuationGroups (in_plan inp) (dc_nodeId (in_decision inp)) (dc_outcomeId (in_decision inp)))"
    and "clg_maxTraversals g \<le> traversals_of (gs_loopTraversals (in_state inp)) (clg_id g)"
  shows "gs_phase (av_state a) = Stopped \<and> av_dispatches a = [] \<and>
    gs_loopTraversals (av_state a) = gs_loopTraversals (in_state inp) \<and>
    (\<exists>x. gs_stop (av_state a) = Some (StopLoopExhausted x) \<and> le_attemptId x = dc_attemptId (in_decision inp) \<and>
       le_maxTraversals x \<le> le_traversals x)"
  by (rule advance_exhausted [OF assms])

theorem exhausted_cap_stops_witness:
  "\<exists>a x. advanceOutcomeGraph ex_sha ex_capped_input = Inr a \<and> av_dispatches a = [] \<and> gs_stop (av_state a) = Some (StopLoopExhausted x)"
proof -
  obtain a where a: "advanceOutcomeGraph ex_sha ex_capped_input = Inr a" using ex_capped_advance by blast
  have i: "in_plan ex_capped_input = ex_plan" "in_state ex_capped_input = ex_capped"
    "in_decision ex_capped_input = ex_decision ''r'' ''r#4'' ''v''" by (simp_all add: ex_capped_input_def ex_input_def)
  have t: "\<not> is_terminal_outcome ex_plan ''r'' ''v''" by code_simp
  have g: "ex_group \<in> set (continuationGroups ex_plan ''r'' ''v'')" by code_simp
  have c: "clg_maxTraversals ex_group \<le> traversals_of (gs_loopTraversals ex_capped) (clg_id ex_group)" by code_simp
  show ?thesis using exhausted_cap_stops [OF _ a, of ex_group] ex_wf t g c a by (auto simp: i ex_decision_def)
qed

text \<open>
  The hard cap counts continuation outcomes only: an outcome that is no group's continuation
  leaves every traversal counter as it was, also when the edge it takes re-enters a settled member of
  a group. The witness re-enters such a member in a plan the well-formedness conditions admit.
\<close>

theorem other_outcomes_not_counted:
  assumes "advanceOutcomeGraph sha inp = Inr a"
    and "continuationGroups (in_plan inp) (dc_nodeId (in_decision inp)) (dc_outcomeId (in_decision inp)) = []"
  shows "gs_loopTraversals (av_state a) = gs_loopTraversals (in_state inp)"
  by (rule advance_not_counted [OF assms])

theorem other_outcomes_not_counted_witness:
  "wf_plan ex_leak_plan \<and> (\<exists>a. advanceOutcomeGraph ex_sha ex_leak_input = Inr a \<and>
     gs_loopTraversals (av_state a) = gs_loopTraversals ex_leak0 \<and>
     ns_status (gs_nodes ex_leak0 ! 0) = Settled \<and> di_nodeId (hd (av_dispatches a)) = ''a'')"
proof -
  have i: "in_plan ex_leak_input = ex_leak_plan" "in_state ex_leak_input = ex_leak0"
    "in_decision ex_leak_input = ex_decision ''b'' ''b#3'' ''q''" by (simp_all add: ex_leak_input_def ex_input_def)
  have g: "continuationGroups ex_leak_plan ''b'' ''q'' = []" by code_simp
  obtain a where a: "advanceOutcomeGraph ex_sha ex_leak_input = Inr a" "di_nodeId (hd (av_dispatches a)) = ''a''"
    using ex_leak_advance by blast
  have "gs_loopTraversals (av_state a) = gs_loopTraversals ex_leak0"
    using other_outcomes_not_counted [OF a(1)] g by (simp add: i ex_decision_def)
  moreover have "ns_status (gs_nodes ex_leak0 ! 0) = Settled" by (simp add: ex_leak0_def ex_state_def ex_leak_settled_def)
  ultimately show ?thesis using ex_leak_wf a by blast
qed

section \<open>Starting a run\<close>

text \<open>
  A start dispatches exactly the nodes nothing feeds: in the state it records a node is
  dispatched when it has no predecessor outside loop continuations and pending otherwise, no node is
  settled, and the entries stand in plan order.
\<close>

theorem start_dispatches_entries:
  assumes "startRun env surface = Inr r" and "wf_plan (se_plan env)"
  shows "map ns_nodeId (gs_nodes (rs_state r)) = node_ids (se_plan env) \<and>
    (\<forall>e \<in> set (gs_nodes (rs_state r)).
       ns_status e = (if feederSourcesOf (se_plan env) (ns_nodeId e) = [] then Dispatched else Pending))"
  by (rule start_entries [OF assms])

theorem start_dispatches_entries_witness:
  "\<exists>r. startRun ex_env None = Inr r \<and> map ns_nodeId (gs_nodes (rs_state r)) = [''d'', ''r'']"
proof -
  from ex_start_run obtain r where r: "startRun ex_env None = Inr r" by (auto split: sum.splits)
  have p: "se_plan ex_env = ex_plan" by (simp add: ex_env_def)
  have "node_ids ex_plan = [''d'', ''r'']" by code_simp
  with start_dispatches_entries [OF r] ex_wf r show ?thesis by (auto simp: p)
qed

section \<open>Joins and reachability\<close>

text \<open>
  The armed set is consistent: with the predecessors that will be in flight again taken out of
  the arrivals, the join of every armed candidate is still satisfied, so no candidate is armed on the
  strength of a result that its own round replaces.
\<close>

theorem arm_set_consistent:
  assumes "n \<in> set armable" and "cn_id n \<in> set (resolveArmSet plan nodes armable notInFlight)"
  shows "\<exists>held. set held = set (resolveArmSet plan nodes armable notInFlight) - set notInFlight \<and>
    entry_of nodes (cn_id n) \<noteq> None \<and>
    joinSatisfiedFor plan n (arrivals_to plan nodes held (cn_id n))"
  using resolveArmSet_joined [OF assms] by (auto simp: joined_under_def)

theorem arm_set_consistent_witness:
  "\<exists>held. set held = {''r''} \<and>
     joinSatisfiedFor ex_plan (cp_nodes ex_plan ! 1) (arrivals_to ex_plan (as_nodes (settled_arm ex_input0 0)) held ''r'')"
proof -
  have n: "cn_id (cp_nodes ex_plan ! 1) = ''r''" by (simp add: ex_plan_def ex_plan_of_def ex_node_def)
  have s: "as_nodes (settled_arm ex_input0 0) =
      [SettledNode ''d'' ''d#1'' 1 ex_digest None ''k'' 5 6 [] (Some []) None, PendingNode ''r'' [] None]"
    by (simp add: settled_arm_def ex_state0_def ex_state_def settle_entry_def ex_decision_def)
  have r: "resolveArmSet ex_plan [SettledNode ''d'' ''d#1'' 1 ex_digest None ''k'' 5 6 [] (Some []) None, PendingNode ''r'' [] None]
      [cp_nodes ex_plan ! 1] [] = [''r'']" by code_simp
  from arm_set_consistent [of "cp_nodes ex_plan ! 1" "[cp_nodes ex_plan ! 1]" ex_plan "as_nodes (settled_arm ex_input0 0)" "[]"]
  show ?thesis unfolding s r n by auto
qed

text \<open>
  C16. The fixpoint over the edges computes reachability: the nodes it reports are exactly those an
  attempt in flight can still dispatch through a chain of edges into nodes that are not settled.
\<close>

theorem still_reachable_is_reachability:
  "set (stillReachableNodes plan nodes) = {i. can_reach plan nodes i}"
  by (rule set_stillReachableNodes)

text \<open>
  When nothing is in flight, the report of stranded nodes names every pending node that waits for
  a predecessor, in plan order, each with all its predecessors.
\<close>

theorem stranded_report:
  assumes "wf_plan plan" and "\<forall>e \<in> set nodes. ns_status e \<noteq> Dispatched"
  shows "unsatisfiablePendingNodes plan nodes =
    map (\<lambda>n. (cn_id n, feederSourcesOf plan (cn_id n)))
      (filter (\<lambda>n. status_of nodes (cn_id n) = Some Pending \<and> feederSourcesOf plan (cn_id n) \<noteq> []) (cp_nodes plan))"
  by (rule unsatisfiable_nothing_dispatched [OF wf_plan_distinct [OF assms(1)] assms(2)])

theorem stranded_report_witness: "unsatisfiablePendingNodes ex_dead_plan (gs_nodes ex_dead1) = [(''b'', [''a''])]"
proof -
  have "\<forall>e \<in> set (gs_nodes ex_dead1). ns_status e \<noteq> Dispatched" by (simp add: ex_dead1_def ex_state_def)
  note stranded_report [OF ex_dead_wf this]
  moreover have "map (\<lambda>n. (cn_id n, feederSourcesOf ex_dead_plan (cn_id n)))
      (filter (\<lambda>n. status_of (gs_nodes ex_dead1) (cn_id n) = Some Pending \<and> feederSourcesOf ex_dead_plan (cn_id n) \<noteq> [])
        (cp_nodes ex_dead_plan)) = [(''b'', [''a''])]" by code_simp
  ultimately show ?thesis by simp
qed

text \<open>
  The stranded report is not confined to runs with nothing in flight: a pending node with an
  any-join that has lost one of its two predecessors is reported while the other one is still running
  and can still reach it.
\<close>

theorem stranded_while_running:
  "\<exists>plan nodes. wf_plan plan \<and> (\<exists>e \<in> set nodes. ns_status e = Dispatched) \<and>
     (\<exists>i fs. (i, fs) \<in> set (unsatisfiablePendingNodes plan nodes) \<and> can_reach plan nodes i)"
proof (intro exI conjI)
  show "wf_plan ex_half_plan" by (rule ex_half_wf)
  show "\<exists>e \<in> set ex_half_nodes. ns_status e = Dispatched" by (simp add: ex_half_nodes_def)
  have "unsatisfiablePendingNodes ex_half_plan ex_half_nodes = [(''c'', [''a''])]" by code_simp
  then show "(''c'', [''a'']) \<in> set (unsatisfiablePendingNodes ex_half_plan ex_half_nodes)" by simp
  have "''c'' \<in> set (stillReachableNodes ex_half_plan ex_half_nodes)" by code_simp
  then show "can_reach ex_half_plan ex_half_nodes ''c''" by (simp add: set_stillReachableNodes)
qed

section \<open>Progress policies\<close>

text \<open>
  C19. The stagnation counter counts what it says: starting without a baseline, it has reached a
  number exactly when that many last observations were tokens equal to the last readable token before
  them. An unreadable observation breaks the streak and leaves the token to compare with.
\<close>

theorem stagnation_counter_exact:
  assumes "lp_baseline e = None" and "lp_unchanged e = 0" and "0 < n"
  shows "n \<le> lp_unchanged (run_observations p e obs) \<longleftrightarrow>
    (\<exists>t pre. obs = pre @ replicate n (Token t) \<and> last_token pre = Some t)"
  by (rule streak_spec [OF assms])

theorem stagnation_counter_exact_witness:
  "2 \<le> lp_unchanged (run_observations ex_policy (snd (hd (ex_progress 0 None))) [Token ''u'', Token ''t'', Token ''t'', Token ''t''])"
proof -
  have "\<exists>t pre. [Token ''u'', Token ''t'', Token ''t'', Token ''t''] = pre @ replicate 2 (Token t) \<and> last_token pre = Some t"
    by (rule exI [of _ "''t''"], rule exI [of _ "[Token ''u'', Token ''t'']"]) (simp add: last_token_def numeral_2_eq_2)
  then show ?thesis
    using stagnation_counter_exact [of "snd (hd (ex_progress 0 None))" 2] by (simp add: ex_progress_def)
qed

section \<open>Downstream inputs\<close>

text \<open>
  C20. A consumer is bound to accepted results or not dispatched: assembly blocks exactly when some
  applicable input cannot be resolved, and otherwise returns one entry per applicable input, in the
  declared order, each carrying the facts the accepted-result read returned for its attempt.
\<close>

theorem assembly_exact:
  "((\<exists>rs. assembleDownstreamInput is s a arrs = InputBlocked rs) \<longleftrightarrow>
     (\<exists>i \<in> set is. \<exists>r. resolve_input s a arrs i = Some (Inl r))) \<and>
   (\<forall>es. assembleDownstreamInput is s a arrs = InputResolved es \<longrightarrow>
     map (\<lambda>e. (ri_from e, ri_outcome e)) es = map (\<lambda>i. (cir_from i, cir_outcome i)) (filter (applicable_input arrs) is) \<and>
     (\<forall>e \<in> set es. a (ri_attemptId e) = ResultFacts \<lparr>arf_outcomeId = ri_outcome e, arf_payload = ri_payload e,
        arf_artifacts = ri_artifacts e\<rparr>))"
proof (intro conjI allI impI)
  have "resolved_refusals s a arrs is = [] \<longleftrightarrow> \<not> (\<exists>i \<in> set is. \<exists>r. resolve_input s a arrs i = Some (Inl r))"
    by (simp add: resolved_refusals_empty)
  then show "(\<exists>rs. assembleDownstreamInput is s a arrs = InputBlocked rs) \<longleftrightarrow>
     (\<exists>i \<in> set is. \<exists>r. resolve_input s a arrs i = Some (Inl r))" by (simp add: assembleDownstreamInput_closed)
next
  fix es assume "assembleDownstreamInput is s a arrs = InputResolved es"
  then have es: "resolved_refusals s a arrs is = []" "es = resolved_entries s a arrs is"
    by (auto simp: assembleDownstreamInput_closed split: if_splits)
  then show "map (\<lambda>e. (ri_from e, ri_outcome e)) es = map (\<lambda>i. (cir_from i, cir_outcome i)) (filter (applicable_input arrs) is)"
    by (simp add: resolved_entries_order)
  show "\<forall>e \<in> set es. a (ri_attemptId e) = ResultFacts \<lparr>arf_outcomeId = ri_outcome e, arf_payload = ri_payload e,
        arf_artifacts = ri_artifacts e\<rparr>"
  proof
    fix e assume "e \<in> set es"
    then obtain i where i: "resolve_input s a arrs i = Some (Inr e)" by (auto simp: es(2) resolved_entries_set)
    from resolve_input_Inr [OF i] show "a (ri_attemptId e) = ResultFacts \<lparr>arf_outcomeId = ri_outcome e,
        arf_payload = ri_payload e, arf_artifacts = ri_artifacts e\<rparr>" by simp
  qed
qed

theorem assembly_exact_witness:
  "map (\<lambda>e. (ri_from e, ri_outcome e)) ex_bound = [(''d'', ''k'')]"
proof -
  let ?arrs = "[\<lparr>arr_from = ''d'', arr_outcome = ''k'', arr_attemptId = ''d#1''\<rparr>]"
  have "assembleDownstreamInput (inputs_of (cp_nodes ex_plan ! 1)) (\<lambda>_. None) ex_facts ?arrs = InputResolved ex_bound"
    by code_simp
  moreover have "map (\<lambda>i. (cir_from i, cir_outcome i)) (filter (applicable_input ?arrs) (inputs_of (cp_nodes ex_plan ! 1))) =
      [(''d'', ''k'')]" by code_simp
  ultimately show ?thesis
    using assembly_exact [of "inputs_of (cp_nodes ex_plan ! 1)" "\<lambda>_. None" ex_facts ?arrs] by simp
qed

section \<open>The persisted state\<close>



text \<open>
  Reading is idempotent: a state that was read, from whatever record, is stored and read again as
  itself, so a resumed run never drifts through its own persistence.
\<close>

theorem reread_idempotent:
  assumes "readOutcomeGraphState rec plan DEFAULT_OUTCOME_STATE_BODY_REGISTRY = Inr st"
  shows "readOutcomeGraphState (stateRecordOf st t) plan DEFAULT_OUTCOME_STATE_BODY_REGISTRY = Inr st"
  by (rule readOutcomeGraphState_enc [OF readOutcomeGraphState_ok [OF assms]])

theorem reread_idempotent_witness:
  "readOutcomeGraphState (stateRecordOf ex_state1 12) ex_plan DEFAULT_OUTCOME_STATE_BODY_REGISTRY = Inr ex_state1"
proof -
  have "readable_state ex_plan ex_state1"
    using recorded_run_readable [OF ex_wf ex_recorded1] by (simp add: ex_state1_def ex_state_def max_safe_def)
  from reread_idempotent [OF readOutcomeGraphState_enc [OF this, of 9]] show ?thesis .
qed

text \<open>
  A body of a version this build has no reader for is refused under its own name, before anything
  else of it is looked at; a body that declares no version at all is malformed.
\<close>

theorem version_gate:
  assumes "sd_graphId rec = cp_graphId plan" and "sd_planRevision rec = cp_planRevision plan" and "isRecord (sd_body rec)"
  shows "(\<forall>v. positive_safe (js_get (sd_body rec) ''bodyVersion'') = Some v \<longrightarrow> v \<notin> {9, 10} \<longrightarrow>
      readOutcomeGraphState rec plan DEFAULT_OUTCOME_STATE_BODY_REGISTRY = Inl (OutcomeStateError UnsupportedStateVersion ''bodyVersion'')) \<and>
    (positive_safe (js_get (sd_body rec) ''bodyVersion'') = None \<longrightarrow>
      readOutcomeGraphState rec plan DEFAULT_OUTCOME_STATE_BODY_REGISTRY = Inl (malformedState ''bodyVersion''))"
  using assms by (simp add: readOutcomeGraphState_def classifyOutcomeStateBody_def layout_of_version)

theorem version_gate_witness:
  "readOutcomeGraphState \<lparr>sd_graphId = ''g'', sd_planRevision = ''p'', sd_body = JObj [(''bodyVersion'', js_nat 11)], sd_updatedAt = 0\<rparr>
     ex_plan DEFAULT_OUTCOME_STATE_BODY_REGISTRY = Inl (OutcomeStateError UnsupportedStateVersion ''bodyVersion'')"
  using version_gate [of "\<lparr>sd_graphId = ''g'', sd_planRevision = ''p'', sd_body = JObj [(''bodyVersion'', js_nat 11)], sd_updatedAt = 0\<rparr>" ex_plan]
  by (simp add: ex_plan_def ex_plan_of_def max_safe_def)

text \<open>
  The stop vocabulary is closed per version: a version-9 body is never read as stranded, since no
  version-9 writer could record that reason.
\<close>

theorem version_nine_never_stranded:
  assumes "readOutcomeGraphState rec plan DEFAULT_OUTCOME_STATE_BODY_REGISTRY = Inr st" and "gs_bodyVersion st = 9"
  shows "gs_stop st \<noteq> Some (StopUnreachable x)"
proof -
  have "ok_state (layout_for 9) plan st" using readOutcomeGraphState_ok [OF assms(1)] assms(2) by (simp add: readable_state_def)
  then show ?thesis
    by (auto simp: ok_state_def layout_for_outcomeStateLayout outcomeStateLayout_def OUTCOME_STATE_STOP_REASONS_V9_def)
qed

theorem version_nine_never_stranded_witness:
  "gs_bodyVersion (ex_pair0\<lparr>gs_bodyVersion := 9\<rparr>) = 9 \<and> (\<forall>x. gs_stop (ex_pair0\<lparr>gs_bodyVersion := 9\<rparr>) \<noteq> Some (StopUnreachable x))"
  using version_nine_never_stranded [OF readOutcomeGraphState_enc [OF ex_nine, of 7]] by simp

section \<open>Budgets\<close>

text \<open>
  Declared ceilings are read exactly: an accepted declaration carries only authorized keys, and
  each dimension's ceiling is the non-negative amount declared for it, with an absent property and a
  zero timeout meaning no ceiling.
\<close>

theorem declared_ceilings_exact:
  assumes "nodeBudgetLimitsOf spec = Inr l"
  shows "set (js_keys spec) \<subseteq> fst ` set BUDGET_KEY_DIMENSIONS \<and> nonneg_limits l \<and>
    (\<forall>(key, k) \<in> set BUDGET_KEY_DIMENSIONS. limit_field k l = declared_ceiling spec key)"
proof -
  have "set (js_keys spec) \<subseteq> fst ` set BUDGET_KEY_DIMENSIONS"
    using assms by (auto simp: nodeBudgetLimitsOf_def split: if_splits dest: read_limit_keys_authorized)
  with nodeBudgetLimitsOf_nonneg [OF assms] nodeBudgetLimitsOf_field [OF assms] show ?thesis by blast
qed

theorem declared_ceilings_exact_witness:
  "\<exists>l. nodeBudgetLimitsOf (JObj [(''max_cost_usd'', JNum (Fin 3)), (''timeout_ms'', JNum (Fin 0))]) = Inr l \<and>
     limit_field CostUsd l = Some 3 \<and> limit_field DurationMs l = None"
proof -
  let ?spec = "JObj [(''max_cost_usd'', JNum (Fin 3)), (''timeout_ms'', JNum (Fin 0))]"
  have l: "nodeBudgetLimitsOf ?spec = Inr (NO_BUDGET_LIMITS\<lparr>bl_costUsd := Some 3\<rparr>)"
    by (simp add: nodeBudgetLimitsOf_def BUDGET_KEY_DIMENSIONS_def)
  have "(''max_cost_usd'', CostUsd) \<in> set BUDGET_KEY_DIMENSIONS" "(''timeout_ms'', DurationMs) \<in> set BUDGET_KEY_DIMENSIONS"
    by (simp_all add: BUDGET_KEY_DIMENSIONS_def)
  with declared_ceilings_exact [OF l] have
    "limit_field CostUsd (NO_BUDGET_LIMITS\<lparr>bl_costUsd := Some 3\<rparr>) = declared_ceiling ?spec ''max_cost_usd''"
    "limit_field DurationMs (NO_BUDGET_LIMITS\<lparr>bl_costUsd := Some 3\<rparr>) = declared_ceiling ?spec ''timeout_ms''" by blast+
  with l show ?thesis by (auto simp: declared_ceiling_def)
qed

text \<open>
  C26. The budget report adds up: it has one row per plan node in plan order, its totals are the sums
  of the recorded facts of those nodes, and its overruns are exactly the dimensions in which a node's
  recorded usage exceeds the ceiling declared for it, with the excess.
\<close>

theorem budget_report_exact:
  "map rn_nodeId (br_nodes (buildBudgetReport g r p rl nodes usage)) = map fst nodes \<and>
   bu_executions (br_totals (buildBudgetReport g r p rl nodes usage)) = (\<Sum>n\<leftarrow>nodes. nf_executions (facts_of usage (fst n))) \<and>
   usage_field k (br_totals (buildBudgetReport g r p rl nodes usage)) =
     (\<Sum>n\<leftarrow>nodes. usage_field k (nf_used (facts_of usage (fst n)))) \<and>
   usage_field k (br_reservedTotals (buildBudgetReport g r p rl nodes usage)) =
     (\<Sum>n\<leftarrow>nodes. usage_field k (nf_reserved (facts_of usage (fst n)))) \<and>
   (ov \<in> set (br_overruns (buildBudgetReport g r p rl nodes usage)) \<longleftrightarrow>
     (\<exists>(i, l) \<in> set nodes. \<exists>cap used. limit_field (bo_kind ov) l = Some cap \<and>
        used = usage_field (bo_kind ov) (nf_used (facts_of usage i)) \<and> cap < used \<and>
        ov = \<lparr>bo_nodeId = i, bo_kind = bo_kind ov, bo_limit = cap, bo_used = used, bo_overBy = used - cap\<rparr>))"
proof -
  have zero: "bu_executions ZERO_BUDGET_USAGE = 0" "usage_field k ZERO_BUDGET_USAGE = 0"
    by (cases k; simp add: ZERO_BUDGET_USAGE_def)+
  have "ov \<in> set (br_overruns (buildBudgetReport g r p rl nodes usage)) \<longleftrightarrow>
      (\<exists>(i, l) \<in> set nodes. ov \<in> set (budgetOverrunsOf i l (nf_used (facts_of usage i))))"
    by (force simp: buildBudgetReport_def Let_def report_fold)
  then show ?thesis
    by (auto simp: buildBudgetReport_def Let_def report_fold zero budgetOverrunsOf_iff)
qed



text \<open>
  Two dispatches of one node cannot both be granted under a ceiling: after a grant, a request of
  another attempt of the same node under the same ceilings is refused, and the refusal names the
  dimension with its ceiling as fully committed, as long as the table has not changed.
\<close>

theorem second_dispatch_refused:
  assumes "reserveDispatch i db = Inr (ReserveReserved v, db')"
    and "limit_field k (rv_limits i) = Some cap"
    and "rv_graphId j = rv_graphId i" and "rv_runId j = rv_runId i" and "rv_nodeId j = rv_nodeId i"
    and "rv_limits j = rv_limits i"
    and "readReservationIn (rv_graphId j) (rv_attemptId j) (rv_runId j) (bd_rows db') = None"
    and "reserveDispatch j db' = Inr (res, db'')"
  shows "db'' = db' \<and> (\<exists>exs. res = ReserveExhausted exs \<and> DimensionExhausted k cap cap \<in> set exs)"
proof -
  have no: "\<not> may_claim j (bd_rows db')" by (rule reserve_excludes_second [OF assms(1-6)])
  have "committedOf k (rv_graphId j) (rv_runId j) (rv_nodeId j) (bd_rows db') = cap"
    using committed_after_claim [OF assms(2)] reserve_reserved(2) [OF assms(1)] assms(3-5) by simp
  then have "DimensionExhausted k cap cap \<in> set (exhaustionOf (rv_graphId j) (rv_runId j) (rv_nodeId j) (rv_limits j)
      (rv_maxExecutions j) (bd_rows db'))"
    using assms(2,6) by (auto simp: exhaustionOf_iff)
  with assms(7,8) no show ?thesis by (auto simp: reserveDispatch_Inr)
qed

theorem second_dispatch_refused_witness:
  "\<exists>v db' exs. reserveDispatch (ex_reserve ''n#1'') ex_budget = Inr (ReserveReserved v, db') \<and>
     reserveDispatch (ex_reserve ''n#2'') db' = Inr (ReserveExhausted exs, db') \<and> DimensionExhausted CostUsd 5 5 \<in> set exs"
proof -
  obtain v db' res db'' where r: "reserveDispatch (ex_reserve ''n#1'') ex_budget = Inr (ReserveReserved v, db')"
    "readReservationIn ''g'' ''n#2'' ''u'' (bd_rows db') = None" "reserveDispatch (ex_reserve ''n#2'') db' = Inr (res, db'')"
    using ex_reserved_second by blast
  have "limit_field CostUsd (rv_limits (ex_reserve ''n#1'')) = Some 5" by (simp add: ex_reserve_def)
  from second_dispatch_refused [OF r(1) this _ _ _ _ _ r(3)] r show ?thesis by (auto simp: ex_reserve_def)
qed

text \<open>
  A refused dispatch is explained and costs nothing: the refusal leaves the table unchanged, and it
  lists, without being empty, exactly the execution limit the run stands on and the ceilings that are
  fully committed.
\<close>

theorem refusal_explained:
  assumes "reserveDispatch i db = Inr (ReserveExhausted exs, db')"
  shows "db' = db \<and> exs \<noteq> [] \<and>
    (\<forall>ex. ex \<in> set exs \<longleftrightarrow>
       (\<exists>m n. rv_maxExecutions i = Some m \<and> n = int (length (run_rows (rv_graphId i) (rv_runId i) (bd_rows db))) \<and>
          m \<le> n \<and> ex = ExecutionsExhausted m n) \<or>
       (\<exists>k cap c. limit_field k (rv_limits i) = Some cap \<and>
          c = committedOf k (rv_graphId i) (rv_runId i) (rv_nodeId i) (bd_rows db) \<and> cap \<le> c \<and> ex = DimensionExhausted k cap c))"
  using reserve_exhausted_nonempty [OF assms] by (simp add: exhaustionOf_iff)

theorem refusal_explained_witness:
  "\<exists>exs. reserveDispatch (ex_reserve ''n#1''\<lparr>rv_maxExecutions := Some 0\<rparr>) ex_budget = Inr (ReserveExhausted exs, ex_budget) \<and>
     set exs = {ExecutionsExhausted 0 0}"
proof -
  obtain exs db' where r: "reserveDispatch (ex_reserve ''n#1''\<lparr>rv_maxExecutions := Some 0\<rparr>) ex_budget = Inr (ReserveExhausted exs, db')"
    using ex_refused by blast
  have none: "limit_field k (rv_limits (ex_reserve ''n#1'')) = Some cap \<Longrightarrow> cap = 5" for k cap
    by (cases k) (simp_all add: ex_reserve_def NO_BUDGET_LIMITS_def)
  have "committedOf k ''g'' ''u'' ''n'' (bd_rows ex_budget) = 0" for k
    by (simp add: ex_budget_def committedOf_def node_rows_def run_rows_def used_sum_def reserved_sum_def)
  with refusal_explained [OF r] r none show ?thesis
    by (fastforce simp: ex_reserve_def ex_budget_def run_rows_def)
qed

text \<open>
  C30. The table's history only grows: along any sequence of reservations, reconciliations, releases and
  changes of the current run, no two rows share a key, no amount is negative, and the row of a
  reconciled attempt, with the usage measured for it, stays as it is.
\<close>

theorem budget_history:
  assumes "budget_step\<^sup>*\<^sup>* empty_budget_db db" and "budget_step\<^sup>*\<^sup>* db db'"
  shows "wf_rows (bd_rows db) \<and> {v \<in> set (bd_rows db). is_reconciled v} \<subseteq> set (bd_rows db')"
  using budget_history_wf [OF assms(1)] budget_history_facts [OF assms(2)] by blast

theorem budget_history_witness:
  "\<exists>db'. budget_step\<^sup>*\<^sup>* ex_budget db' \<and> wf_rows (bd_rows db') \<and> bd_rows db' \<noteq> []"
proof -
  obtain v db' where r: "reserveDispatch (ex_reserve ''n#1'') ex_budget = Inr (ReserveReserved v, db')"
    using ex_reserved by blast
  have "budget_step\<^sup>*\<^sup>* empty_budget_db db'"
    by (rule rtranclp.rtrancl_into_rtrancl [OF ex_budget_history budget_step.reserve [OF r]])
  from budget_history [OF this rtranclp.rtrancl_refl] have "wf_rows (bd_rows db')" by blast
  moreover have "budget_step\<^sup>*\<^sup>* ex_budget db'" using budget_step.reserve [OF r] by blast
  moreover have "bd_rows db' \<noteq> []" using reserve_reserved(2) [OF r] by simp
  ultimately show ?thesis by blast
qed

subsection \<open>Compilation\<close>

text \<open>
  C31. Cycle detection finds exactly the cycles: every node of a readable edge is in one component and one only,
  the components are the classes of mutual reachability over the readable edges, and a directed cycle is
  reported exactly when some node reaches itself over at least one edge.
\<close>

theorem cycles_found_exactly:
  "distinct (concat (fst (stronglyConnectedComponents edges))) \<and>
   set ` set (fst (stronglyConnectedComponents edges)) =
     {{y. (x, y) \<in> (set (readable_edges edges))\<^sup>* \<and> (y, x) \<in> (set (readable_edges edges))\<^sup>*} |x. x \<in> Field (set (readable_edges edges))} \<and>
   (hasDirectedCycle edges \<longleftrightarrow> (\<exists>x. (x, x) \<in> (set (readable_edges edges))\<^sup>+))"
  by (simp add: stronglyConnectedComponents_def Let_def components_of_correct(1) components_exact hasDirectedCycle_iff)

text \<open>
  C32. Loading the completion policies ends with a registry whenever no id contains NUL and every readable body
  can be addressed, and the registry holds exactly what the host selected: the one digest it authorized for an
  identity, offered by the first catalog entry of that identity with a readable body of that very digest.
  Every policy is installed under one identity only.
\<close>

theorem policies_loaded_exactly:
  assumes "nul_free catalog" and "nul_free authorized"
    and "\<And>v b. v \<in> set catalog \<Longrightarrow> readCompletionPolicyBody (js_get v ''body'') = Some b \<Longrightarrow> \<exists>h. contractDigest sha num (js_get v ''body'') = Inr h"
  shows "\<exists>registry issues. loadCompletionPolicies sha num catalog authorized = Inr (registry, issues) \<and>
    set registry = {s. host_selects sha num catalog authorized s} \<and>
    distinct (map (\<lambda>s. (cr_id (ps_ref s), cr_revision (ps_ref s))) registry)"
proof -
  have "\<exists>registry issues. loadCompletionPolicies sha num catalog authorized = Inr (registry, issues)"
    by (rule load_total [OF assms(1,2)]) (rule assms(3))
  then obtain registry issues where l: "loadCompletionPolicies sha num catalog authorized = Inr (registry, issues)" by blast
  from load_exact [OF assms(1,2) l] have "installed_policies sha num registry" "set registry = {s. host_selects sha num catalog authorized s}" by blast+
  with l show ?thesis by (auto simp: installed_policies_def)
qed

theorem policies_loaded_exactly_witness:
  "\<exists>registry issues. loadCompletionPolicies ex_sha ex_num ex_catalog ex_authorized = Inr (registry, issues) \<and> ex_grant \<in> set registry"
proof -
  have "\<exists>h. contractDigest ex_sha ex_num (js_get v ''body'') = Inr h" if "v \<in> set ex_catalog" for v
    using that ex_grant_digest by (simp add: ex_catalog_def)
  from policies_loaded_exactly [OF ex_catalog_nul_free this] ex_grant_selected show ?thesis by blast
qed










subsection \<open>The load gate\<close>

text \<open>
  C38. What the compiler writes can be read back: the record of an executable plan passes the verification of
  its shape, its contracts, its address and its consumer nodes for every set of live node ids that contains
  its nodes, and is returned unchanged as runnable.
\<close>

theorem written_plan_loads:
  assumes "compileGraph sha num options declaration = CompiledExecutable plan"
    and "set (node_ids plan) \<subseteq> set nodeIds" and "cp_planRevision plan \<noteq> []"
  shows "verifyPersistedPlan sha num (createPersistedCompiledPlan plan) (cp_graphId plan) nodeIds = PlanVerified \<and>
    readPersistedCompiledPlan sha num (createPersistedCompiledPlan plan) nodeIds = Some (createPersistedCompiledPlan plan)"
  using written_plan_verified [OF assms] written_plan_runnable [OF written_plan_verified [OF assms]] by blast

theorem written_plan_loads_witness:
  "readPersistedCompiledPlan ex_sha ex_num (createPersistedCompiledPlan ex_compiled) [''a'', ''b''] = Some (createPersistedCompiledPlan ex_compiled)"
proof -
  have "set (node_ids ex_compiled) \<subseteq> set [''a'', ''b'']" "cp_planRevision ex_compiled \<noteq> []"
    by (simp_all add: ex_compiled_def ex_compiled_body_def ex_node_a_def ex_node_b_def ex_hex_def)
  from written_plan_loads [OF ex_compiles this] show ?thesis by blast
qed


subsection \<open>The acceptance ledger\<close>

text \<open>
  C40. An attempt settles once and for good. In a ledger any sequence of operations leads to, an accepted event has
  the receipt of its submission, it is the only one of its attempt, and its attempt has no retry, no stopping
  decision and no request that is not approved: the command that comes later is refused, the one that came first
  refuses the acceptance.
\<close>

theorem settled_attempts_closed:
  assumes "(ledger_step num)\<^sup>*\<^sup>* empty_ledger db" and "e \<in> set (lg_events db)"
  shows "(\<exists>r \<in> set (lg_receipts db). settles r e) \<and>
    (\<forall>e' \<in> set (lg_events db). ev_graphId e' = ev_graphId e \<longrightarrow> ev_attemptId e' = ev_attemptId e \<longrightarrow> e' = e) \<and>
    (\<forall>d \<in> set (lg_decisions db). kd_graphId d = ev_graphId e \<longrightarrow> kd_attemptId d = ev_attemptId e \<longrightarrow>
       kd_command d \<noteq> RetryCommand \<and> kd_command d \<notin> set STOPPING_CONTROL_COMMANDS) \<and>
    (\<forall>q \<in> set (lg_approvals db). ap_graphId q = ev_graphId e \<longrightarrow> ap_attemptId q = ev_attemptId e \<longrightarrow> approved (ap_status q))"
proof -
  note wf = history_wf [OF assms(1)]
  then have "events_ok db" "exclusive db" by (simp_all add: wf_ledger_def)
  with assms(2) closed_events [OF wf assms(2)] show ?thesis
    by (auto simp: events_ok_def exclusive_def closing_command_def)
qed

theorem settled_attempts_closed_witness:
  "lg_events ex_settled = [the (bt_acceptedEvent ex_accepted)] \<and> (\<exists>r. r \<in> set (lg_receipts ex_settled) \<and> settles r (the (bt_acceptedEvent ex_accepted)))"
proof -
  have e: "lg_events ex_settled = [the (bt_acceptedEvent ex_accepted)]" by (simp add: ex_settled_def)
  then have "the (bt_acceptedEvent ex_accepted) \<in> set (lg_events ex_settled)" by simp
  from settled_attempts_closed [OF rtranclp_trans [OF ex_open_history ex_settled_history] this] e show ?thesis by blast
qed

text \<open>
  C17. A submission is counted once. After a commit, whatever operations follow, the same submission is answered from
  its receipt: with the same proposal it is a replay, with another one a conflict, and the ledger stays as it is.
\<close>

theorem submission_replays:
  assumes "commitAccepted num batch db = Inr (Committed r, db1)" and "(ledger_step num)\<^sup>*\<^sup>* db1 db2"
    and "assertBatchShape again = Inr ()" and "receipt_key (bt_receipt again) = receipt_key r"
  shows "commitAccepted num again db2 =
    Inr (if rcp_proposalDigest r = rcp_proposalDigest (bt_receipt again) then Replayed r else Conflict r, db2)"
proof -
  have "history_kept db1 db2" using ledger_steps_keep [OF assms(2)] by (simp add: keeps_def)
  from history_receipt [OF this committed_receipt [OF assms(1)]] assms(4)
  have "lookupReceipt db2 (rcp_graphId (bt_receipt again)) (rcp_attemptId (bt_receipt again)) (rcp_submissionId (bt_receipt again)) = Some r"
    by (simp add: receipt_key_def)
  from known_submission [OF this assms(3)] show ?thesis by simp
qed

theorem submission_replays_witness:
  "commitAccepted ex_lnum ex_accepted ex_settled = Inr (Replayed (bt_receipt ex_accepted), ex_settled)"
  using submission_replays [OF ex_committed rtranclp.rtrancl_refl ex_accepted_shape refl] by simp





subsection \<open>Acceptance\<close>

text \<open>
  C10. An acceptance is earned. When a validation that ran at some time is committed at another one, against whatever
  ledger and request it finds, a receipt that says accepted names the plan, the attempt and the digest of the proposal
  that was validated; the plan was executable, and every gate the declared outcome lists was pinned to a version,
  installed under exactly that version and passed for that digest. The commit leaves the receipt, the settlement under
  the proposal's outcome and, unless a result stands, the result with the proposal's data and the retained evidence, and
  the join is settled on the ledger that holds them.
\<close>

theorem acceptance_earned:
  assumes "validateSubmission sha num q0 = Validated d binding retained"
    and "commitSubmission sha num q (Validated d binding retained) join db = Inr (Submitted d' (Committed r), db')"
    and "rcp_decision r = AcceptedKind"
  shows "\<exists>p node outcome rt. readOutcomeProposal (aq_proposal q0) = Inr p \<and> cp_executability (aq_plan q0) = Executable \<and>
    nodeOf (aq_plan q0) (pr_nodeId p) = Some node \<and> outcomeOf node (pr_outcomeId p) = Some outcome \<and>
    proposalDigest sha num p = Inr (rcp_proposalDigest r) \<and> rcp_planRevision r = cp_planRevision (aq_plan q0) \<and>
    rcp_graphId r = cp_graphId (aq_plan q0) \<and> rcp_attemptId r = xi_attemptId (aq_identity q0) \<and>
    (\<forall>req \<in> set (co_acceptance outcome). \<exists>v implementation es. pinned_version req = Some v \<and>
       lookup_validator (aq_validators q0) (car_validator req, v) = Some implementation \<and>
       implementation (request_for q0 outcome (normalizeProposal p) (rcp_proposalDigest r) (car_validator req, v)) = Inr (Pass es)) \<and>
    retained = Some rt \<and> rt_payload rt = acceptedDataOf (pr_data p) \<and>
    (\<exists>db1 joined. lg_receipts db1 = lg_receipts db @ [r] \<and> lg_events db1 = lg_events db @ [accepted_event_of q r (pr_outcomeId p)] \<and>
       (readAcceptedResult db (rcp_graphId r) (rcp_attemptId r) = None \<longrightarrow> lg_results db1 = lg_results db @ [accepted_result_of q r rt]) \<and>
       run_join join d db = Inr joined \<and> settle_join q joined (Committed r) db1 = Inr db')"
proof -
  note f = committed_receipt_fields [OF assms(1,2)]
  from validateSubmission_fields [OF assms(1)] obtain p node outcome digest where v: "readRequest q0 = Inr (p, node, outcome)"
      "proposalDigest sha num p = Inr digest"
      "sn_fields d = \<lparr>dc_graphId = xi_graphId (aq_identity q0), dc_attemptId = xi_attemptId (aq_identity q0),
        dc_submissionId = xi_submissionId (aq_identity q0), dc_planRevision = cp_planRevision (aq_plan q0),
        dc_proposalDigest = digest, dc_nodeId = cn_id node, dc_outcomeId = co_id outcome\<rparr>"
      "sn_kind d = AcceptedKind \<longleftrightarrow> retained \<noteq> None" "sn_kind d = AcceptedKind \<longrightarrow> earned q0 outcome (normalizeProposal p) digest"
      "\<forall>rt. retained = Some rt \<longrightarrow> rt_payload rt = acceptedDataOf (pr_data p) \<and> distinct (map aa_ref (rt_artifacts rt))" by blast
  have k: "sn_kind d = AcceptedKind" using f assms(3) by simp
  with v(4) obtain rt where rt: "retained = Some rt" by blast
  note parts = readRequest_Inr [OF v(1)] and plan = planRefusals_empty [OF readRequest_Inr(3) [OF v(1)]]
  have "co_id outcome = pr_outcomeId p" using find_Some_in [OF parts(6) [unfolded outcomeOf_def]] by simp
  with accepted_rows [of sha num q0 d binding rt q join db d' r db'] assms(1,2) k rt v(3) parts(4,5,6) plan f v(2,5,6) show ?thesis
    by (intro exI [of _ p] exI [of _ node] exI [of _ outcome] exI [of _ rt]) (simp add: earned_def)
qed

theorem acceptance_earned_witness:
  "rcp_decision (ex_receipt AcceptedKind) = AcceptedKind \<and> (\<exists>node outcome es. nodeOf (aq_plan (ex_submission [''r''])) ''n'' = Some node \<and>
     outcomeOf node ''ok'' = Some outcome \<and> co_acceptance outcome = [ex_requirement] \<and>
     ex_gate (request_for (ex_submission [''r'']) outcome (normalizeProposal (ex_proposal [''r''])) ex_hex
       (ARTIFACT_REFERENCE_VALIDATOR_ID, 1)) = Inr (Pass es))"
proof -
  have k: "rcp_decision (ex_receipt AcceptedKind) = AcceptedKind" and dig: "rcp_proposalDigest (ex_receipt AcceptedKind) = ex_hex"
    by (simp_all add: ex_receipt_def)
  have p: "readOutcomeProposal (aq_proposal (ex_submission [''r''])) = Inr (ex_proposal [''r''])"
    and n: "nodeOf (aq_plan (ex_submission [''r''])) ''n'' = Some ex_cited_node" and o: "outcomeOf ex_cited_node ''ok'' = Some ex_outcome"
    and pin: "pinned_version ex_requirement = Some 1"
    by code_simp+
  have look: "lookup_validator (aq_validators (ex_submission [''r''])) (ARTIFACT_REFERENCE_VALIDATOR_ID, 1) = Some ex_gate"
    using ex_gate_installed by (simp add: ARTIFACT_REFERENCE_VALIDATOR_VERSION_def ex_gate_def)
  have ids: "pr_nodeId (ex_proposal [''r'']) = ''n''" "pr_outcomeId (ex_proposal [''r'']) = ''ok''" by (simp_all add: ex_proposal_def)
  have rs: "co_acceptance ex_outcome = [ex_requirement]" "car_validator ex_requirement = ARTIFACT_REFERENCE_VALIDATOR_ID"
    by (simp_all add: ex_outcome_def ex_requirement_def)
  from acceptance_earned [OF ex_validated ex_submission_committed k] p n o ids rs pin look dig k show ?thesis
    by auto
qed

text \<open>
  C12. A submission that is not accepted changes nothing the run depends on. Whatever a commit answers, whatever its
  join does: a refusal and every verdict other than a commit leave the ledger as it was, and a rejection leaves exactly
  its receipt.
\<close>

theorem unaccepted_changes_nothing:
  assumes "commitSubmission sha num q validation join db = Inr (res, db')"
  shows "case res of
      SubmissionRefused refusals \<Rightarrow> db' = db
    | Submitted d verdict \<Rightarrow>
        (case verdict of
           Committed r \<Rightarrow> sn_kind d = AcceptedKind \<or> db' = db\<lparr>lg_receipts := lg_receipts db @ [r]\<rparr>
         | _ \<Rightarrow> db' = db)"
proof (cases res)
  case (SubmissionRefused refusals)
  then show ?thesis using assms
    by (auto simp: commitSubmission_def result_simps split: submission_validation.splits sum.splits option.splits if_splits)
next
  case (Submitted d verdict)
  with assms have c: "commitSubmission sha num q validation join db = Inr (Submitted d verdict, db')" by simp
  show ?thesis
  proof (cases "\<exists>r. verdict = Committed r")
    case True
    then obtain r where r: "verdict = Committed r" by blast
    with rejected_rows [of sha num q validation join db d r db'] c Submitted show ?thesis by (cases "sn_kind d") auto
  next
    case False
    from other_verdict_keeps [OF c] False have "db' = db" by blast
    with Submitted False show ?thesis by (cases verdict) auto
  qed
qed

theorem unaccepted_changes_nothing_witness:
  "commitSubmission ex_sha ex_num (ex_submission []) (Validated (ex_decided RejectedKind (Fail ex_reason)) ex_binding None) ex_no_join ex_open =
     Inr (Submitted (ex_decided RejectedKind (Fail ex_reason)) (Committed (ex_receipt RejectedKind)), ex_open\<lparr>lg_receipts := lg_receipts ex_open @ [ex_receipt RejectedKind]\<rparr>)"
  using unaccepted_changes_nothing [OF ex_rejection_committed] ex_rejection_committed by (simp add: ex_decided_def)






section \<open>The run path\<close>





text \<open>
  C18. The transaction of a settlement never finds the state and the ledger at odds. Whatever the attempt that was
  resolved against an earlier state of the run, the reduction does not refuse for a disagreement of state and ledger;
  and if the attempt has not been accepted yet, it does not refuse for an unknown node, a node that is not
  dispatched or another attempt either.
\<close>

theorem reduction_never_at_odds:
  assumes "wf_plan (rn_plan rt)" and "hex_hash (rn_sha rt)" and "(runtime_step rt)\<^sup>*\<^sup>* empty_ledger before"
    and "(runtime_step rt)\<^sup>*\<^sup>* before during" and "runtime_state rt before = Inr (Some st)"
    and "e \<in> set (gs_nodes st)" and "ns_status e \<noteq> Pending" and "ns_nodeId e = dc_nodeId d" and "ns_attemptId e = dc_attemptId d"
    and "reduceInTransaction rt ctx during d = Inl (JoinFailure (JoinAdvance (AdvanceRefused code detail)))"
  shows "code \<noteq> StateLedgerDisagreement \<and>
    (selectAcceptedEvent during (cp_graphId (rn_plan rt)) (dc_attemptId d) = None \<longrightarrow>
       code \<notin> {UnknownNode, NodeNotDispatched, AttemptMismatch})"
  using reduction_certain [OF assms(1,2) runtime_history_reach [OF assms(1-3)] assms(4-10)] by blast

theorem reduction_never_at_odds_witness:
  "NoRoute \<noteq> StateLedgerDisagreement \<and> NoRoute \<notin> {UnknownNode, NodeNotDispatched, AttemptMismatch}"
proof -
  have e: "gs_nodes ex_pair_state ! 0 \<in> set (gs_nodes ex_pair_state)" "ns_status (gs_nodes ex_pair_state ! 0) \<noteq> Pending"
    "ns_nodeId (gs_nodes ex_pair_state ! 0) = dc_nodeId (ex_decision ''a'' ''a#1'' ''z'')"
    "ns_attemptId (gs_nodes ex_pair_state ! 0) = dc_attemptId (ex_decision ''a'' ''a#1'' ''z'')"
    by (simp_all add: ex_pair_state_def ex_state_def ex_decision_def)
  have none: "selectAcceptedEvent ex_pair_ledger (cp_graphId (rn_plan ex_runtime)) (dc_attemptId (ex_decision ''a'' ''a#1'' ''z'')) = None"
    by code_simp
  from reduction_never_at_odds [OF ex_chain_wf ex_runtime_hash ex_history_started rtranclp.rtrancl_refl ex_started_read e ex_no_route] none
  show ?thesis by simp
qed

text \<open>
  C22. Every settlement is a sequence of transactions of the store, and so is every start: what the store keeps along its
  histories it keeps along the run path. A settlement whose answer is not a fresh commit has changed nothing.
\<close>

theorem run_path_transactions:
  assumes "settleSubmission rt c before during = (answer, db')" and "startGraph rt now identity db = (started, db'')"
  shows "(ledger_step (rn_num rt))\<^sup>*\<^sup>* during db' \<and> (ledger_step (rn_num rt))\<^sup>*\<^sup>* db db'' \<and>
    (\<not> fresh_commit answer \<longrightarrow> db' = during)"
  using settlement_steps [OF assms(1)] start_steps [OF assms(2)] settlement_unchanged [OF assms(1)] by blast

theorem run_path_transactions_witness:
  "(ledger_step ex_num)\<^sup>*\<^sup>* ex_pair_ledger ex_settled_ledger \<and> (ledger_step ex_num)\<^sup>*\<^sup>* empty_ledger ex_pair_ledger"
proof (rule ex_settled_answer)
  fix x assume "settleSubmission ex_runtime ex_call ex_pair_ledger ex_pair_ledger = (Inr (Accepted x), ex_settled_ledger)"
  from run_path_transactions [OF this ex_pair_started] show ?thesis by (simp add: ex_runtime_def)
qed

text \<open>
  C23. Who settles an attempt has shown that it may. A settlement that is answered as accepted, by this call or by an
  earlier one, is about an attempt of the recorded state at the proposal's node; the worker's channels presented the
  credential whose digest that attempt recorded, the host's channel named the attempt and carried no credential; and if
  the attempt was dispatched to an identity, the caller has that identity.
\<close>

theorem settlements_authenticated:
  assumes "settleSubmission rt c before during = (Inr (Accepted x), db')"
  shows "\<exists>state p. \<exists>e \<in> set (gs_nodes state). runtime_state rt before = Inr (Some state) \<and>
    readOutcomeProposal (sl_proposal c) = Inr p \<and> ns_status e \<noteq> Pending \<and>
    dc_nodeId (sn_fields (an_decision x)) = pr_nodeId p \<and> dc_outcomeId (sn_fields (an_decision x)) = pr_outcomeId p \<and>
    ns_nodeId e = pr_nodeId p \<and> ns_attemptId e = dc_attemptId (sn_fields (an_decision x)) \<and>
    (if sl_hostCompletion c then pr_credential p = None \<and> sl_expected c = Some (ns_attemptId e)
     else \<exists>credential. pr_credential p = Some credential \<and>
       ns_attemptCredentialDigest e = attemptCredentialDigest (rn_sha rt) credential) \<and>
    (ns_dispatchIdentity e = None \<or> (\<exists>i. ns_dispatchIdentity e = Some i \<and> sl_identity c = IdentityKnown i))"
proof (rule accepted_settlement [OF assms])
  fix state identity ctx validation d verdict db
  assume com: "committing rt c before during state identity ctx validation d verdict db" and d: "sn_fields (an_decision x) = sn_fields d"
  have state: "runtime_state rt before = Inr (Some state)" using com by (simp add: committing_def)
  from settlement_authenticated [OF com] obtain p e where e: "e \<in> set (gs_nodes state)"
    "readOutcomeProposal (sl_proposal c) = Inr p" "dc_nodeId (sn_fields d) = pr_nodeId p"
    "dc_outcomeId (sn_fields d) = pr_outcomeId p" "ns_nodeId e = dc_nodeId (sn_fields d)"
    "ns_attemptId e = dc_attemptId (sn_fields d)" "ns_status e \<noteq> Pending" and presented: "presented rt c p e"
    and identity: "ns_dispatchIdentity e = None \<or> (\<exists>i. ns_dispatchIdentity e = Some i \<and> sl_identity c = IdentityKnown i)"
    by blast
  show ?thesis using state e presented identity unfolding d
    by (intro exI [of _ state] exI [of _ p] bexI [of _ e]) (auto simp: presented_def)
qed

theorem settlements_authenticated_witness:
  "\<exists>state p. \<exists>e \<in> set (gs_nodes state). runtime_state ex_runtime ex_pair_ledger = Inr (Some state) \<and>
    readOutcomeProposal (sl_proposal ex_call) = Inr p \<and> ns_nodeId e = pr_nodeId p \<and> ns_attemptId e = ''a#1'' \<and>
    (\<exists>credential. pr_credential p = Some credential \<and> ns_attemptCredentialDigest e = attemptCredentialDigest ex_sha credential)"
proof (rule ex_settled_answer)
  fix x assume s: "settleSubmission ex_runtime ex_call ex_pair_ledger ex_pair_ledger = (Inr (Accepted x), ex_settled_ledger)"
    and "ex_pair_rows x ex_settled_ledger"
  then have "dc_attemptId (sn_fields (an_decision x)) = ''a#1''" "\<not> sl_hostCompletion ex_call" "rn_sha ex_runtime = ex_sha"
    by (simp_all add: ex_pair_rows_def ex_call_def ex_runtime_def)
  with settlements_authenticated [OF s] show ?thesis by auto
qed



text \<open>
  C29. The host completes only what it recorded. A host completion that is accepted names an execution that the host's
  own durable record of that attempt names; the settled outcome is the one the plan pins for the natural completion of
  that node, under an authorization of the plan; and the settled attempt is the one the fact names.
\<close>

theorem host_completions_authorized:
  assumes "settleHostCompletion rt delivery now identity before during = (Inr (Accepted x, s), db')"
  shows "\<exists>f executionFor node entry outcome. readHostCompletionFact delivery = Inr f \<and> rn_authority rt = Some executionFor \<and>
    executionFor (cp_graphId (rn_plan rt)) (hf_attemptId f) = Inr (Some (hf_executionId f)) \<and>
    find (\<lambda>n. cn_id n = hf_nodeId f) (cp_nodes (rn_plan rt)) = Some node \<and> cn_completion node = Some (Natural outcome) \<and>
    authorization_entry (rn_plan rt) (hf_nodeId f) = Some entry \<and> js_get entry ''outcome'' = JStr outcome \<and>
    dc_nodeId (sn_fields (an_decision x)) = hf_nodeId f \<and> dc_attemptId (sn_fields (an_decision x)) = hf_attemptId f \<and>
    dc_outcomeId (sn_fields (an_decision x)) = outcome"
proof (rule host_completion_accepted [OF assms])
  fix f outcome policy executionFor
  assume f: "readHostCompletionFact delivery = Inr f" "rn_authority rt = Some executionFor"
    "executionFor (graph_of rt) (hf_attemptId f) = Inr (Some (hf_executionId f))"
    and a: "naturalCompletionAuthorityOf (rn_plan rt) (hf_nodeId f) = Inr (outcome, policy)"
    and d: "dc_nodeId (sn_fields (an_decision x)) = hf_nodeId f" "dc_attemptId (sn_fields (an_decision x)) = hf_attemptId f"
      "dc_outcomeId (sn_fields (an_decision x)) = outcome"
  from a obtain node entry where "find (\<lambda>n. cn_id n = hf_nodeId f) (cp_nodes (rn_plan rt)) = Some node" "cn_completion node = Some (Natural outcome)"
      "authorization_entry (rn_plan rt) (hf_nodeId f) = Some entry" "js_get entry ''outcome'' = JStr outcome"
    by (auto simp: naturalCompletionAuthorityOf_def split: option.splits compiled_completion_policy.splits if_splits)
  with f d show ?thesis by blast
qed

theorem host_completions_authorized_witness:
  "\<exists>f. readHostCompletionFact ex_host_fact = Inr f \<and> hf_attemptId f = ''a#1'' \<and>
    (\<exists>executionFor. rn_authority ex_runtime = Some executionFor \<and> executionFor ''g'' ''a#1'' = Inr (Some (hf_executionId f)))"
proof -
  obtain x s db where h: "settleHostCompletion ex_runtime ex_host_fact 6 IdentityUndeclared ex_pair_ledger ex_pair_ledger = (Inr (Accepted x, s), db)"
      and "ex_pair_rows x db"
    by (rule ex_host_answer)
  then have "dc_attemptId (sn_fields (an_decision x)) = ''a#1''" by (simp add: ex_pair_rows_def)
  with host_completions_authorized [OF h] show ?thesis by (auto simp: ex_runtime_graph)
qed
end
